(* ===== verification/Prelude.thy ===== *)
theory Prelude
  imports Main "HOL-Library.AList" "HOL-Library.Multiset"
begin

text \<open>
  The shared vocabulary of the development: the Go values every component handles.
  \<^item> Go maps. A lookup-only map is an Isabelle map. A map that the code ranges over is an
    association list: Go gives its entries in an unspecified order, the list is one such
    order, and a theorem about every list is a theorem about every order. Writes go through
    \<open>AList.update\<close>, which keeps the keys distinct.
  \<^item> Go integers. \<open>int64\<close> (and \<open>int\<close>, 64 bits wide on the platforms the server is
    built for) is an Isabelle \<open>int\<close> whose arithmetic is followed by \<open>wrap64\<close>.
  \<^item> Go strings are byte lists; the case functions act on ASCII letters and leave the other
    bytes alone.
  \<^item> Loops that stop at the first error are \<open>fold_opt\<close>, whose None is the panic or the early
    return.
\<close>

named_theorems go_defs \<open>definitions of the Go library functions used by the code\<close>
named_theorems go_map \<open>rules for Go maps kept as association lists\<close>

type_synonym ('k, 'v) gomap = "('k \<times> 'v) list"
type_synonym bidderName = string

section \<open>Maps in iteration order\<close>

abbreviation lookup :: "('k, 'v) gomap \<Rightarrow> 'k \<Rightarrow> 'v option" where
  "lookup m k \<equiv> map_of m k"

definition wf_map :: "('k, 'v) gomap \<Rightarrow> bool" where
  "wf_map m = distinct (map fst m)"

abbreviation put :: "'k \<Rightarrow> 'v \<Rightarrow> ('k, 'v) gomap \<Rightarrow> ('k, 'v) gomap" where
  "put k v m \<equiv> AList.update k v m"

abbreviation del :: "'k \<Rightarrow> ('k, 'v) gomap \<Rightarrow> ('k, 'v) gomap" where
  "del k m \<equiv> AList.delete k m"

lemma lookup_put [simp, go_map]: "lookup (put k v m) k' = (if k' = k then Some v else lookup m k')"
  by (simp add: update_conv')

lemma lookup_del [simp, go_map]: "lookup (del k m) k' = (if k' = k then None else lookup m k')"
  by (simp add: delete_conv')

lemma wf_map_Nil [simp, intro]: "wf_map []"
  by (simp add: wf_map_def)

lemma wf_map_put [simp, intro, go_map]: "wf_map m \<Longrightarrow> wf_map (put k v m)"
  by (simp add: wf_map_def distinct_update)

lemma wf_map_del [simp, intro, go_map]: "wf_map m \<Longrightarrow> wf_map (del k m)"
  by (simp add: wf_map_def distinct_delete)

lemma wf_map_lookup_iff: "wf_map m \<Longrightarrow> lookup m k = Some v \<longleftrightarrow> (k, v) \<in> set m"
  by (simp add: wf_map_def map_of_eq_Some_iff)

lemma set_put_subset: "set (put k v m) \<subseteq> insert (k, v) (set m)"
  by (induction m) auto

lemma put_fst_subset: "fst ` set (put k v m) = insert k (fst ` set m)"
  by (induction m) auto

section \<open>64-bit integers\<close>

definition wrap64 :: "int \<Rightarrow> int" where
  "wrap64 x = (x + 2 ^ 63) mod 2 ^ 64 - 2 ^ 63"

definition is_int64 :: "int \<Rightarrow> bool" where
  "is_int64 x = (- (2 ^ 63) \<le> x \<and> x < 2 ^ 63)"

lemma wrap64_id: "is_int64 x \<Longrightarrow> wrap64 x = x"
  by (simp add: wrap64_def is_int64_def)

lemma is_int64_wrap64 [simp]: "is_int64 (wrap64 x)"
proof -
  have "0 \<le> (x + 2 ^ 63) mod 2 ^ 64" and "(x + 2 ^ 63) mod 2 ^ 64 < 2 ^ 64"
    by (simp_all add: pos_mod_sign pos_mod_bound)
  then show ?thesis by (simp add: wrap64_def is_int64_def)
qed

section \<open>Strings\<close>

definition upper_char :: "char \<Rightarrow> char" where
  "upper_char c = (let n = of_char c :: nat in
     if 97 \<le> n \<and> n \<le> 122 then char_of (n - 32) else c)"

definition lower_char :: "char \<Rightarrow> char" where
  "lower_char c = (let n = of_char c :: nat in
     if 65 \<le> n \<and> n \<le> 90 then char_of (n + 32) else c)"

definition to_upper :: "string \<Rightarrow> string" where
  [go_defs]: "to_upper s = map upper_char s"

definition to_lower :: "string \<Rightarrow> string" where
  [go_defs]: "to_lower s = map lower_char s"

definition equal_fold :: "string \<Rightarrow> string \<Rightarrow> bool" where
  [go_defs]: "equal_fold s t = (to_lower s = to_lower t)"

lemma equal_fold_refl [simp]: "equal_fold s s"
  by (simp add: equal_fold_def)

lemma equal_fold_sym: "equal_fold s t = equal_fold t s"
  by (auto simp: equal_fold_def)

lemma length_to_upper [simp]: "length (to_upper s) = length s"
  by (simp add: to_upper_def)

lemma length_to_lower [simp]: "length (to_lower s) = length s"
  by (simp add: to_lower_def)

text \<open>\<open>strings.Join\<close>.\<close>

fun join :: "string \<Rightarrow> string list \<Rightarrow> string" where
  "join sep [] = []"
| "join sep [s] = s"
| "join sep (s # t # ts) = s @ sep @ join sep (t # ts)"

text \<open>\<open>strings.HasPrefix\<close>, \<open>strings.HasSuffix\<close> and \<open>strings.TrimPrefix\<close>.\<close>

definition has_prefix :: "string \<Rightarrow> string \<Rightarrow> bool" where
  [go_defs]: "has_prefix s p = (take (length p) s = p)"

definition has_suffix :: "string \<Rightarrow> string \<Rightarrow> bool" where
  [go_defs]: "has_suffix s p = (length p \<le> length s \<and> drop (length s - length p) s = p)"

lemma has_suffix_append [simp]: "has_suffix (s @ p) p"
  by (simp add: has_suffix_def)

lemma has_prefix_append [simp]: "has_prefix (p @ s) p"
  by (simp add: has_prefix_def)

text \<open>
  \<open>strings.SplitAfterN(s, sep, 2)\<close> for a one-byte separator: the piece up to and with the
  first separator and the rest, or the whole string when there is none.
\<close>

fun split_after_first :: "char \<Rightarrow> string \<Rightarrow> string list" where
  "split_after_first c [] = [[]]"
| "split_after_first c (x # xs) =
     (if x = c then [[x], xs]
      else (case split_after_first c xs of
              [] \<Rightarrow> [[x]]
            | p # ps \<Rightarrow> (x # p) # ps))"

lemma split_after_first_concat [simp]: "concat (split_after_first c s) = s"
  by (induction s) (auto split: list.splits)

lemma split_after_first_nonempty [simp]: "split_after_first c s \<noteq> []"
  by (induction s) (auto split: list.splits)

lemma split_after_first_no_sep: "c \<notin> set s \<Longrightarrow> split_after_first c s = [s]"
  by (induction s) auto

lemma split_after_first_sep:
  "c \<notin> set s \<Longrightarrow> split_after_first c (s @ c # t) = [s @ [c], t]"
  by (induction s) auto

section \<open>Decimal numerals: strconv.Itoa and \<open>%d\<close>\<close>

definition digit_char :: "int \<Rightarrow> char" where
  "digit_char d = char_of (48 + d)"

function digits :: "int \<Rightarrow> string" where
  "digits n = (if n < 10 then [digit_char n] else digits (n div 10) @ [digit_char (n mod 10)])"
  by pat_completeness auto
termination
  by (relation "measure nat") auto

declare digits.simps [simp del]

definition itoa :: "int \<Rightarrow> string" where
  "itoa i = (if i < 0 then CHR ''-'' # digits (- i) else digits i)"

lemma digits_nonempty [simp]: "digits n \<noteq> []"
  by (subst digits.simps) simp

definition digit_value :: "char \<Rightarrow> int option" where
  "digit_value c = (let n = of_char c :: int in if 48 \<le> n \<and> n \<le> 57 then Some (n - 48) else None)"

fun digits_value :: "int \<Rightarrow> string \<Rightarrow> int option" where
  "digits_value acc [] = Some acc"
| "digits_value acc (c # cs) =
     (case digit_value c of None \<Rightarrow> None | Some d \<Rightarrow> digits_value (10 * acc + d) cs)"

text \<open>\<open>strconv.Atoi\<close>: an optional sign, at least one digit, and a value of 64 bits.\<close>

definition atoi :: "string \<Rightarrow> int option" where
  "atoi s =
     (let (neg, ds) = (case s of c # cs \<Rightarrow> if c = CHR ''-'' then (True, cs) else if c = CHR ''+'' then (False, cs)
                         else (False, s) | [] \<Rightarrow> (False, []))
      in if ds = [] then None
         else (case digits_value 0 ds of
                 None \<Rightarrow> None
               | Some n \<Rightarrow> (let v = (if neg then - n else n) in if is_int64 v then Some v else None)))"

text \<open>\<open>strings.Split\<close> for a one-byte separator.\<close>

fun split_on :: "char \<Rightarrow> string \<Rightarrow> string list" where
  "split_on c [] = [[]]"
| "split_on c (x # xs) =
     (if x = c then [] # split_on c xs
      else (case split_on c xs of [] \<Rightarrow> [[x]] | p # ps \<Rightarrow> (x # p) # ps))"

lemma split_on_nonempty [simp]: "split_on c s \<noteq> []"
  by (induction s) (auto split: list.splits)

lemma split_on_no_sep: "c \<notin> set s \<Longrightarrow> split_on c s = [s]"
  by (induction s) auto

lemma split_on_append: "c \<notin> set s \<Longrightarrow> split_on c (s @ c # t) = s # split_on c t"
  by (induction s) auto

lemma digit_value_digit [simp]: "0 \<le> d \<Longrightarrow> d < 10 \<Longrightarrow> digit_value (digit_char d) = Some d"
  by (simp add: digit_value_def digit_char_def)

lemma digits_value_append:
  "digits_value a (s @ t) = (case digits_value a s of None \<Rightarrow> None | Some b \<Rightarrow> digits_value b t)"
  by (induction s arbitrary: a) (auto split: option.splits)

lemma digits_value_digits: "0 \<le> n \<Longrightarrow> digits_value 0 (digits n) = Some n"
proof (induction n rule: digits.induct)
  case (1 n)
  show ?case
  proof (cases "n < 10")
    case True
    with 1 show ?thesis by (subst digits.simps) simp
  next
    case False
    with 1 have "digits_value 0 (digits (n div 10)) = Some (n div 10)" by simp
    with False show ?thesis
      by (subst digits.simps) (simp add: digits_value_append pos_mod_bound)
  qed
qed

lemma digits_head_digit: "0 \<le> n \<Longrightarrow> hd (digits n) \<in> digit_char ` {0..9}"
proof (induction n rule: digits.induct)
  case (1 n)
  show ?case
  proof (cases "n < 10")
    case True
    with 1 show ?thesis by (subst digits.simps) simp
  next
    case False
    with 1 show ?thesis by (subst digits.simps) simp
  qed
qed

lemma digit_char_sign [simp]:
  "0 \<le> d \<Longrightarrow> d \<le> 9 \<Longrightarrow> digit_char d \<noteq> CHR ''-''"
  "0 \<le> d \<Longrightarrow> d \<le> 9 \<Longrightarrow> digit_char d \<noteq> CHR ''+''"
proof -
  assume d: "0 \<le> d" "d \<le> 9"
  have "digit_char d \<noteq> c" if "digit_value c = None" for c
    using digit_value_digit [of d] d that by fastforce
  then show "digit_char d \<noteq> CHR ''-''" "digit_char d \<noteq> CHR ''+''"
    by (simp_all add: digit_value_def)
qed

lemma atoi_itoa: "is_int64 i \<Longrightarrow> atoi (itoa i) = Some i"
proof -
  assume i: "is_int64 i"
  show ?thesis
  proof (cases "i < 0")
    case True
    with i digits_value_digits [of "- i"] show ?thesis by (simp add: atoi_def itoa_def)
  next
    case False
    then have v: "digits_value 0 (digits i) = Some i" by (simp add: digits_value_digits)
    obtain c cs where d: "digits i = c # cs" by (cases "digits i") auto
    with False digits_head_digit [of i] have "c \<noteq> CHR ''-''" "c \<noteq> CHR ''+''" by auto
    with False i v d show ?thesis by (simp add: atoi_def itoa_def)
  qed
qed

section \<open>Loops with an early exit\<close>

fun fold_opt :: "('a \<Rightarrow> 's \<Rightarrow> 's option) \<Rightarrow> 'a list \<Rightarrow> 's \<Rightarrow> 's option" where
  "fold_opt f [] s = Some s"
| "fold_opt f (x # xs) s = (case f x s of None \<Rightarrow> None | Some s' \<Rightarrow> fold_opt f xs s')"

lemma fold_opt_append:
  "fold_opt f (xs @ ys) s = (case fold_opt f xs s of None \<Rightarrow> None | Some s' \<Rightarrow> fold_opt f ys s')"
  by (induction xs arbitrary: s) (auto split: option.splits)

lemma fold_opt_total:
  assumes "\<And>x s. x \<in> set xs \<Longrightarrow> f x s = Some (g x s)"
  shows "fold_opt f xs s = Some (fold g xs s)"
  using assms by (induction xs arbitrary: s) auto

lemma fold_opt_invariant:
  assumes "fold_opt f xs s = Some s'" and "P s"
    and "\<And>x s s'. x \<in> set xs \<Longrightarrow> P s \<Longrightarrow> f x s = Some s' \<Longrightarrow> P s'"
  shows "P s'"
  using assms
proof (induction xs arbitrary: s)
  case Nil
  then show ?case by simp
next
  case (Cons x xs)
  from Cons.prems(1) obtain t where t: "f x s = Some t" "fold_opt f xs t = Some s'"
    by (auto split: option.splits)
  from Cons.prems(3) [OF _ Cons.prems(2) t(1)] have "P t" by simp
  then show ?case
    by (rule Cons.IH [OF t(2)]) (use Cons.prems(3) in \<open>simp, blast\<close>)
qed

lemma fold_invariant_set:
  assumes "P s" and "\<And>x s. x \<in> set xs \<Longrightarrow> P s \<Longrightarrow> P (f x s)"
  shows "P (fold f xs s)"
  using assms by (induction xs arbitrary: s) auto

end
