(* ===== verification/Go_Float.thy ===== *)
theory Go_Float
  imports Complex_Main Prelude
begin

text \<open>
  Go's \<open>float64\<close>: IEEE 754 binary64 with round-to-nearest-even, computed on exact rationals.
  A finite float is \<open>Fin q\<close>; an operation computes the exact rational result and rounds it
  with \<open>rnd\<close> to 53 significant bits, with the exponent range, the subnormals and the overflow
  to infinity of the format. The two zeros are one value: the sign of a zero is visible only to
  a division by it and to the printing of \<open>-0\<close>, neither of which the modelled code reaches
  with a negative zero. The lemmas show that rounding is monotone and therefore that
  multiplication and division by a positive float, and \<open>math.Floor\<close>, are.
\<close>

named_theorems float_ops \<open>equations of the float operations\<close>

datatype float64 = NaN | NInf | Fin rat | PInf

section \<open>Rounding\<close>

function ilog2 :: "int \<Rightarrow> nat" where
  "ilog2 n = (if n < 2 then 0 else Suc (ilog2 (n div 2)))"
  by pat_completeness auto
termination
  by (relation "measure nat") auto

declare ilog2.simps [simp del]

text \<open>\<open>flog2 q\<close> is the exponent of the leading binary digit of a positive rational.\<close>

definition flog2 :: "rat \<Rightarrow> int" where
  "flog2 q = (case quotient_of q of (a, b) \<Rightarrow>
     let k = int (ilog2 a) - int (ilog2 b)
     in if 2 powi k \<le> q then k else k - 1)"

text \<open>Round a rational to an integer, ties to even.\<close>

definition rne :: "rat \<Rightarrow> int" where
  "rne x = (let f = \<lfloor>x\<rfloor>; r = x - of_int f
            in if r < 1 / 2 then f else if 1 / 2 < r then f + 1 else if even f then f else f + 1)"

definition fexp :: "rat \<Rightarrow> int" where
  "fexp q = max (flog2 q - 52) (- 1074)"

definition round_pos :: "rat \<Rightarrow> rat" where
  "round_pos q = of_int (rne (q / 2 powi fexp q)) * 2 powi fexp q"

definition max_bound :: int where
  "max_bound = 2 ^ 1024"

definition rnd :: "rat \<Rightarrow> float64" where
  "rnd q =
     (if q = 0 then Fin 0
      else if 0 < q then (let v = round_pos q in if v < of_int max_bound then Fin v else PInf)
      else (let v = round_pos (- q) in if v < of_int max_bound then Fin (- v) else NInf))"

text \<open>\<open>rnd\<close> is executable; the bound is kept as a numeral for evaluation.\<close>

lemma max_bound_numeral [code]:
  "max_bound = 179769313486231590772930519078902473361797697894230657273430081157732675805500963132708477322407536021120113879871393357658789768814416622492847430639474124377767893424865485276302219601246094119453082952085005768838150682342462881473913110540827237163350510684586298239947245938479716304835356329624224137216"
  by (simp add: max_bound_def)

section \<open>Operations\<close>

fun flt :: "float64 \<Rightarrow> float64 \<Rightarrow> bool" where
  "flt NaN y = False"
| "flt x NaN = False"
| "flt NInf y = (y \<noteq> NInf)"
| "flt (Fin a) (Fin b) = (a < b)"
| "flt (Fin a) PInf = True"
| "flt (Fin a) NInf = False"
| "flt PInf y = False"

fun fle :: "float64 \<Rightarrow> float64 \<Rightarrow> bool" where
  "fle NaN y = False"
| "fle x NaN = False"
| "fle NInf y = True"
| "fle (Fin a) (Fin b) = (a \<le> b)"
| "fle (Fin a) PInf = True"
| "fle (Fin a) NInf = False"
| "fle PInf y = (y = PInf)"

fun feq :: "float64 \<Rightarrow> float64 \<Rightarrow> bool" where
  "feq NaN y = False"
| "feq x y = (x = y)"

definition f_sign :: "float64 \<Rightarrow> int" where
  "f_sign x = (case x of NaN \<Rightarrow> 0 | NInf \<Rightarrow> - 1 | PInf \<Rightarrow> 1 | Fin q \<Rightarrow> (if 0 < q then 1 else if q < 0 then - 1 else 0))"

definition signed_inf :: "int \<Rightarrow> float64" where
  "signed_inf s = (if 0 < s then PInf else if s < 0 then NInf else NaN)"

fun fmul :: "float64 \<Rightarrow> float64 \<Rightarrow> float64" where
  "fmul (Fin a) (Fin b) = rnd (a * b)"
| "fmul x y = (if x = NaN \<or> y = NaN then NaN else signed_inf (f_sign x * f_sign y))"

fun fdiv :: "float64 \<Rightarrow> float64 \<Rightarrow> float64" where
  "fdiv (Fin a) (Fin b) = (if b = 0 then signed_inf (f_sign (Fin a)) else rnd (a / b))"
| "fdiv NaN y = NaN"
| "fdiv x NaN = NaN"
| "fdiv (Fin a) y = Fin 0"
| "fdiv x (Fin b) = signed_inf (f_sign x * (if b < 0 then - 1 else 1))"
| "fdiv x y = NaN"

fun fadd :: "float64 \<Rightarrow> float64 \<Rightarrow> float64" where
  "fadd (Fin a) (Fin b) = rnd (a + b)"
| "fadd NaN y = NaN"
| "fadd x NaN = NaN"
| "fadd PInf y = (if y = NInf then NaN else PInf)"
| "fadd NInf y = (if y = PInf then NaN else NInf)"
| "fadd (Fin a) y = y"

text \<open>\<open>math.Floor\<close>: the floor of a representable number is representable.\<close>

fun ffloor :: "float64 \<Rightarrow> float64" where
  "ffloor (Fin a) = Fin (of_int \<lfloor>a\<rfloor>)"
| "ffloor x = x"

text \<open>
  A float literal of the source, and the result of \<open>strconv.ParseFloat\<close> and of JSON decoding
  on a decimal number, is the rounded decimal.
\<close>

definition flit :: "rat \<Rightarrow> float64" where
  "flit q = rnd q"

definition f64 :: "float64 \<Rightarrow> bool" where
  "f64 x = (case x of Fin q \<Rightarrow> rnd q = Fin q | _ \<Rightarrow> True)"

section \<open>Printing: strconv.FormatFloat(x, 'f', prec, 64)\<close>

definition pad_left :: "nat \<Rightarrow> string \<Rightarrow> string" where
  "pad_left n s = replicate (n - length s) (CHR ''0'') @ s"

definition fixed_digits :: "int \<Rightarrow> nat \<Rightarrow> string" where
  "fixed_digits n prec =
     (if prec = 0 then digits n
      else digits (n div 10 ^ prec) @ CHR ''.'' # pad_left prec (digits (n mod 10 ^ prec)))"

definition format_float :: "float64 \<Rightarrow> nat \<Rightarrow> string" where
  "format_float x prec = (case x of
     NaN \<Rightarrow> ''NaN'' | PInf \<Rightarrow> ''+Inf'' | NInf \<Rightarrow> ''-Inf''
   | Fin q \<Rightarrow> (if q < 0 then ''-'' else []) @ fixed_digits (rne (\<bar>q\<bar> * 10 ^ prec)) prec)"

section \<open>Comparisons\<close>

lemma flt_trans: "flt x y \<Longrightarrow> flt y z \<Longrightarrow> flt x z"
  by (cases x; cases y; cases z) auto

lemma flt_irrefl [simp]: "\<not> flt x x"
  by (cases x) auto

lemma flt_asym: "flt x y \<Longrightarrow> \<not> flt y x"
  by (cases x; cases y) auto

lemma fle_trans: "fle x y \<Longrightarrow> fle y z \<Longrightarrow> fle x z"
  by (cases x; cases y; cases z) auto

lemma fle_refl: "x \<noteq> NaN \<Longrightarrow> fle x x"
  by (cases x) auto

lemma not_flt_fle: "x \<noteq> NaN \<Longrightarrow> y \<noteq> NaN \<Longrightarrow> (\<not> flt x y) = fle y x"
  by (cases x; cases y) auto

lemma flt_fle: "flt x y \<Longrightarrow> fle x y"
  by (cases x; cases y) auto

lemma fle_flt_trans: "fle x y \<Longrightarrow> flt y z \<Longrightarrow> flt x z"
  by (cases x; cases y; cases z) auto

lemma flt_fle_trans: "flt x y \<Longrightarrow> fle y z \<Longrightarrow> flt x z"
  by (cases x; cases y; cases z) auto

lemma fle_antisym: "fle x y \<Longrightarrow> fle y x \<Longrightarrow> x = y"
  by (cases x; cases y) auto

section \<open>Rounding is monotone\<close>

lemma rne_bounds: "\<lfloor>x\<rfloor> \<le> rne x" "rne x \<le> \<lfloor>x\<rfloor> + 1"
  by (auto simp: rne_def Let_def)

lemma rne_ge_int: "of_int n \<le> x \<Longrightarrow> n \<le> rne x"
  using rne_bounds(1) [of x] by (meson le_floor_iff order_trans)

lemma rne_of_int [simp]: "rne (of_int n) = n"
  by (simp add: rne_def)

lemma rne_le_int: "x \<le> of_int n \<Longrightarrow> rne x \<le> n"
proof -
  assume le: "x \<le> of_int n"
  show ?thesis
  proof (cases "x = of_int n")
    case True
    then show ?thesis by simp
  next
    case False
    with le have "\<lfloor>x\<rfloor> < n" by (simp add: floor_less_iff)
    with rne_bounds(2) [of x] show ?thesis by linarith
  qed
qed

lemma rne_mono: "x \<le> y \<Longrightarrow> rne x \<le> rne y"
proof -
  assume le: "x \<le> y"
  then have fl: "\<lfloor>x\<rfloor> \<le> \<lfloor>y\<rfloor>" by (rule floor_mono)
  show ?thesis
  proof (cases "\<lfloor>x\<rfloor> = \<lfloor>y\<rfloor>")
    case True
    with le show ?thesis by (auto simp: rne_def Let_def)
  next
    case False
    with fl rne_bounds(2) [of x] rne_bounds(1) [of y] show ?thesis by linarith
  qed
qed

lemma ilog2_bounds: "0 < n \<Longrightarrow> 2 ^ ilog2 n \<le> n \<and> n < 2 ^ Suc (ilog2 n)"
proof (induction n rule: ilog2.induct)
  case (1 n)
  show ?case
  proof (cases "n < 2")
    case True
    with "1.prems" show ?thesis by (simp add: ilog2.simps [of n])
  next
    case False
    with "1.IH" have "2 ^ ilog2 (n div 2) \<le> n div 2 \<and> n div 2 < 2 ^ Suc (ilog2 (n div 2))" by simp
    with False show ?thesis by (simp add: ilog2.simps [of n]) linarith
  qed
qed

lemma flog2_bounds:
  assumes "0 < q"
  shows "2 powi flog2 q \<le> q" and "q < 2 powi (flog2 q + 1)"
proof -
  obtain a b where ab: "quotient_of q = (a, b)" by (cases "quotient_of q")
  define i where "i = ilog2 a"
  define j where "j = ilog2 b"
  define k where "k = int i - int j"
  from ab have b: "0 < b" by (rule quotient_of_denom_pos)
  from ab have q: "q = of_int a / of_int b" by (rule quotient_of_div)
  with assms b have a: "0 < a" by (simp add: zero_less_divide_iff)
  have "(2::int) ^ i \<le> a" "a < 2 ^ Suc i"
    using ilog2_bounds [OF a] by (simp_all add: i_def)
  then have ai: "(2::rat) ^ i \<le> of_int a" "of_int a < (2::rat) ^ Suc i"
    by (metis of_int_le_iff of_int_numeral of_int_power)
       (metis \<open>a < 2 ^ Suc i\<close> of_int_less_iff of_int_numeral of_int_power)
  have "(2::int) ^ j \<le> b" "b < 2 ^ Suc j"
    using ilog2_bounds [OF b] by (simp_all add: j_def)
  then have bj: "(2::rat) ^ j \<le> of_int b" "of_int b < (2::rat) ^ Suc j"
    by (metis of_int_le_iff of_int_numeral of_int_power)
       (metis \<open>b < 2 ^ Suc j\<close> of_int_less_iff of_int_numeral of_int_power)
  have k: "(2::rat) powi k = 2 ^ i / 2 ^ j"
    by (simp add: k_def power_int_diff)
  have up: "q < 2 powi (k + 1)"
  proof -
    have "q * 2 ^ j \<le> q * of_int b" using assms bj(1) by (simp add: mult_left_mono)
    also have "\<dots> = of_int a" using q b by simp
    also have "\<dots> < 2 ^ Suc i" by (rule ai(2))
    finally have "q < 2 ^ Suc i / 2 ^ j" by (simp add: field_simps)
    then show ?thesis by (simp add: power_int_add k mult.commute)
  qed
  have low: "2 powi (k - 1) < q"
  proof -
    have "(2::rat) ^ i \<le> q * of_int b" using ai(1) q b by simp
    also have "\<dots> < q * 2 ^ Suc j" using assms bj(2) by (simp add: mult_strict_left_mono)
    finally have "(2::rat) ^ i / 2 ^ j / 2 < q" by (simp add: field_simps)
    then show ?thesis by (simp add: power_int_diff k)
  qed
  have f: "flog2 q = (if 2 powi k \<le> q then k else k - 1)"
    by (simp add: flog2_def ab k_def i_def j_def)
  show "2 powi flog2 q \<le> q" using f low by (auto split: if_splits)
  show "q < 2 powi (flog2 q + 1)" using f up by (auto split: if_splits)
qed

lemma flog2_mono:
  assumes "0 < q" and "q \<le> r"
  shows "flog2 q \<le> flog2 r"
proof (rule ccontr)
  assume "\<not> flog2 q \<le> flog2 r"
  then have "(2::rat) powi (flog2 r + 1) \<le> 2 powi flog2 q"
    by (intro power_int_increasing) auto
  with flog2_bounds(1) [of q] flog2_bounds(2) [of r] assms show False by linarith
qed

lemma round_pos_nonneg: "0 < q \<Longrightarrow> 0 \<le> round_pos q"
  by (simp add: round_pos_def rne_ge_int)

lemma round_pos_mono:
  assumes q: "0 < q" and le: "q \<le> r"
  shows "round_pos q \<le> round_pos r"
proof (cases "fexp q = fexp r")
  case True
  have "q / 2 powi fexp r \<le> r / 2 powi fexp r"
    using le by (simp add: divide_right_mono)
  then have "rne (q / 2 powi fexp r) \<le> rne (r / 2 powi fexp r)" by (rule rne_mono)
  then show ?thesis unfolding round_pos_def True by (intro mult_right_mono) auto
next
  case False
  from assms have r: "0 < r" by simp
  let ?L = "flog2 r"
  have fr: "fexp r = ?L - 52" and lt: "flog2 q < ?L" and eq: "fexp q \<le> ?L"
    using False flog2_mono [OF assms] by (auto simp: fexp_def max_def split: if_splits)
  have lo: "2 powi ?L \<le> round_pos r"
  proof -
    have "(2::rat) powi (?L - fexp r) \<le> r / 2 powi fexp r"
      using flog2_bounds(1) [OF r] by (simp add: power_int_diff divide_right_mono)
    then have "of_int (2 ^ 52) \<le> r / 2 powi fexp r" by (simp add: fr)
    then have "2 ^ 52 \<le> rne (r / 2 powi fexp r)" by (rule rne_ge_int)
    then have "(of_int (2 ^ 52) :: rat) \<le> of_int (rne (r / 2 powi fexp r))"
      by (simp only: of_int_le_iff)
    then have "(of_int (2 ^ 52) :: rat) * 2 powi fexp r \<le> round_pos r"
      unfolding round_pos_def by (intro mult_right_mono) auto
    moreover have "(of_int (2 ^ 52) :: rat) * 2 powi fexp r = 2 powi ?L"
      by (simp add: fr power_int_diff)
    ultimately show ?thesis by simp
  qed
  have hi: "round_pos q \<le> 2 powi ?L"
  proof -
    define d where "d = nat (?L - fexp q)"
    have d: "?L = fexp q + int d" using eq by (simp add: d_def)
    have "(2::rat) powi (flog2 q + 1) \<le> 2 powi ?L"
      using lt by (intro power_int_increasing) auto
    with flog2_bounds(2) [OF q] have "q \<le> 2 powi ?L" by linarith
    then have "q / 2 powi fexp q \<le> of_int (2 ^ d)"
      by (simp add: d power_int_add field_simps)
    then have "rne (q / 2 powi fexp q) \<le> 2 ^ d" by (rule rne_le_int)
    then have "(of_int (rne (q / 2 powi fexp q)) :: rat) \<le> of_int (2 ^ d)"
      by (simp only: of_int_le_iff)
    then have "round_pos q \<le> of_int (2 ^ d) * 2 powi fexp q"
      unfolding round_pos_def by (intro mult_right_mono) auto
    then show ?thesis by (simp add: d power_int_add mult.commute)
  qed
  from lo hi show ?thesis by simp
qed

lemma rnd_not_NaN [simp]: "rnd q \<noteq> NaN"
  by (simp add: rnd_def Let_def)

lemma fle_infinities [simp]: "x \<noteq> NaN \<Longrightarrow> fle NInf x" "x \<noteq> NaN \<Longrightarrow> fle x PInf"
  by (cases x; simp)+

lemma rnd_mono: "q \<le> r \<Longrightarrow> fle (rnd q) (rnd r)"
proof -
  assume le: "q \<le> r"
  have pos: "fle (rnd q) (rnd r)" if "0 < q" "q \<le> r" for q r
    using round_pos_mono [OF that] that by (auto simp: rnd_def Let_def)
  consider "0 < q" | "q \<le> 0" "0 \<le> r" | "r < 0" by linarith
  then show ?thesis
  proof cases
    case 1
    with le show ?thesis by (rule pos [rotated])
  next
    case 2
    then show ?thesis
      using round_pos_nonneg [of r] round_pos_nonneg [of "- q"]
      by (auto simp: rnd_def Let_def)
  next
    case 3
    with le round_pos_mono [of "- r" "- q"] show ?thesis
      by (auto simp: rnd_def Let_def)
  qed
qed

lemma fdiv_mono:
  assumes "0 < b" and "fle x y"
  shows "fle (fdiv x (Fin b)) (fdiv y (Fin b))"
  using assms
  by (cases x; cases y)
     (auto simp: signed_inf_def f_sign_def intro!: rnd_mono divide_right_mono)

lemma ffloor_mono: "fle x y \<Longrightarrow> fle (ffloor x) (ffloor y)"
  by (cases x; cases y) (auto intro: floor_mono)

lemma fmul_mono:
  assumes "0 < b" and "fle x y"
  shows "fle (fmul x (Fin b)) (fmul y (Fin b))"
  using assms
  by (cases x; cases y) (auto simp: signed_inf_def f_sign_def intro!: rnd_mono mult_right_mono)

section \<open>The rounding error\<close>

lemma rne_error: "\<bar>of_int (rne x) - x\<bar> \<le> 1 / 2"
proof -
  define f where "f = rat_of_int \<lfloor>x\<rfloor>"
  have "f \<le> x" and "x < f + 1"
    using floor_correct [of x] by (auto simp: f_def)
  then show ?thesis by (auto simp: rne_def Let_def abs_if simp flip: f_def)
qed

lemma round_pos_error:
  assumes "2 powi (- 1022) \<le> q"
  shows "\<bar>round_pos q - q\<bar> \<le> q / 2 ^ 53"
proof -
  have "(0::rat) < 2 powi (- 1022)" by simp
  from this assms have q: "0 < q" by (rule less_le_trans)
  have "- 1022 \<le> flog2 q"
  proof (rule ccontr)
    assume "\<not> - 1022 \<le> flog2 q"
    then have "(2::rat) powi (flog2 q + 1) \<le> 2 powi (- 1022)" by (intro power_int_increasing) auto
    with flog2_bounds(2) [OF q] assms show False by linarith
  qed
  then have e: "fexp q = flog2 q - 52" by (simp add: fexp_def)
  let ?u = "(2::rat) powi fexp q"
  have u: "0 < ?u" by simp
  have "round_pos q - q = (of_int (rne (q / ?u)) - q / ?u) * ?u"
    using u by (simp add: round_pos_def left_diff_distrib)
  then have "\<bar>round_pos q - q\<bar> = \<bar>of_int (rne (q / ?u)) - q / ?u\<bar> * ?u"
    using u by (simp add: abs_mult)
  also have "\<dots> \<le> 1 / 2 * ?u"
    using rne_error [of "q / ?u"] u by (intro mult_right_mono) auto
  also have "\<dots> = 2 powi flog2 q / 2 ^ 53"
    by (simp add: e power_int_diff)
  also have "\<dots> \<le> q / 2 ^ 53"
    using flog2_bounds(1) [OF q] by (simp add: divide_right_mono)
  finally show ?thesis .
qed

lemma min_normal_le_one: "(2::rat) powi (- 1022) \<le> 1"
  using power_int_increasing [of "- 1022" 0 "2::rat"] by simp

text \<open>A positive normal number below the overflow threshold rounds to a finite float nearby.\<close>

lemma rnd_normal:
  assumes "2 powi (- 1022) \<le> q" and "q < 2 ^ 1023"
  obtains v where "rnd q = Fin v" and "\<bar>v - q\<bar> \<le> q / 2 ^ 53"
proof -
  have "(0::rat) < 2 powi (- 1022)" by simp
  from this assms(1) have q: "0 < q" by (rule less_le_trans)
  note err = round_pos_error [OF assms(1)]
  have "q / 2 ^ 53 \<le> q" using q by simp
  with err have "round_pos q \<le> 2 * q" by linarith
  also have "\<dots> < 2 * 2 ^ 1023" using assms(2) by simp
  also have "\<dots> = of_int max_bound" by (simp add: max_bound_def)
  finally have "rnd q = Fin (round_pos q)" using q by (simp add: rnd_def Let_def)
  with err show ?thesis by (rule that [rotated])
qed

section \<open>Integers below 2 ^ 53 are exact\<close>

lemma round_pos_int:
  assumes "0 < n" and "n < 2 ^ 53"
  shows "round_pos (of_int n) = of_int n"
proof -
  have n0: "(0::rat) < of_int n" using assms by simp
  have "(of_int n :: rat) < of_int (2 ^ 53)" using assms(2) by (simp only: of_int_less_iff)
  then have n53: "(of_int n :: rat) < 2 powi 53" by simp
  have "flog2 (of_int n) < 53"
  proof (rule ccontr)
    assume "\<not> flog2 (of_int n) < 53"
    then have "(2::rat) powi 53 \<le> 2 powi flog2 (of_int n)" by (intro power_int_increasing) auto
    with flog2_bounds(1) [OF n0] n53 show False by linarith
  qed
  then have "fexp (of_int n) \<le> 0" by (simp add: fexp_def)
  then obtain k :: nat where k: "fexp (of_int n) = - int k"
    using nonpos_int_cases by blast
  have "(of_int n :: rat) / 2 powi fexp (of_int n) = of_int (n * 2 ^ k)"
    by (simp add: k power_int_minus divide_inverse)
  then have "rne (of_int n / 2 powi fexp (of_int n)) = n * 2 ^ k"
    by (simp only: rne_of_int)
  then show ?thesis by (simp add: round_pos_def k power_int_minus)
qed

lemma rnd_int_exact:
  assumes "0 \<le> n" and "n < 2 ^ 53"
  shows "rnd (of_int n) = Fin (of_int n)"
proof (cases "n = 0")
  case True
  then show ?thesis by (simp add: rnd_def)
next
  case False
  with assms have n: "0 < n" by simp
  have "n < max_bound" using assms(2) by (simp add: max_bound_def)
  then have "(of_int n :: rat) < of_int max_bound" by (simp only: of_int_less_iff)
  with round_pos_int [OF n assms(2)] n show ?thesis by (simp add: rnd_def)
qed

end
