(* ===== verification/Json.thy ===== *)
theory Json
  imports Go_Float "HOL-Library.List_Lexorder" "HOL-Library.Char_ord"
begin

text \<open>
  The use the code makes of \<open>encoding/json\<close>. A \<open>json.RawMessage\<close> is its parsed value: empty
  bytes, bytes that are no JSON text, or a JSON value. A number literal without fraction and
  exponent is kept apart from the others, because Go decodes only the former into integers. A
  decoder takes the value and the content of the variable it decodes into, since JSON null and an
  absent field leave it unchanged; None is the error. Struct fields match keys without regard to
  case, and the last of several such keys counts.
\<close>

datatype json =
    JNull
  | JBool bool
  | JInt int
  | JDec rat
  | JStr string
  | JArr "json list"
  | JObj "(string \<times> json) list"

datatype raw = RawEmpty | RawBad | Raw json

type_synonym 'a decoder = "json \<Rightarrow> 'a \<Rightarrow> 'a option"

fun dec_bool :: "bool decoder" where
  "dec_bool JNull old = Some old"
| "dec_bool (JBool b) old = Some b"
| "dec_bool j old = None"

fun dec_int :: "int decoder" where
  "dec_int JNull old = Some old"
| "dec_int (JInt i) old = (if is_int64 i then Some i else None)"
| "dec_int j old = None"

definition finite_float :: "rat \<Rightarrow> float64 option" where
  "finite_float q = (case rnd q of Fin v \<Rightarrow> Some (Fin v) | _ \<Rightarrow> None)"

fun dec_float :: "float64 decoder" where
  "dec_float JNull old = Some old"
| "dec_float (JInt i) old = finite_float (of_int i)"
| "dec_float (JDec q) old = finite_float q"
| "dec_float j old = None"

fun dec_string :: "string decoder" where
  "dec_string JNull old = Some old"
| "dec_string (JStr s) old = Some s"
| "dec_string j old = None"

text \<open>Pointers: null makes the pointer nil, any other value is decoded into a fresh variable.\<close>

definition dec_ptr :: "'a decoder \<Rightarrow> 'a \<Rightarrow> 'a option decoder" where
  "dec_ptr d zero j old = (if j = JNull then Some None else map_option Some (d j zero))"

fun dec_elems :: "'a decoder \<Rightarrow> 'a \<Rightarrow> json list \<Rightarrow> 'a list option" where
  "dec_elems d zero [] = Some []"
| "dec_elems d zero (j # js) =
     (case d j zero of None \<Rightarrow> None
      | Some x \<Rightarrow> (case dec_elems d zero js of None \<Rightarrow> None | Some xs \<Rightarrow> Some (x # xs)))"

fun dec_list :: "'a decoder \<Rightarrow> 'a \<Rightarrow> 'a list decoder" where
  "dec_list d zero JNull old = Some []"
| "dec_list d zero (JArr js) old = dec_elems d zero js"
| "dec_list d zero j old = None"

text \<open>An object decoded into \<open>map[string]T\<close>, over the map the variable holds.\<close>

fun dec_entries :: "'a decoder \<Rightarrow> 'a \<Rightarrow> (string \<times> json) list \<Rightarrow> (string, 'a) gomap \<Rightarrow> (string, 'a) gomap option" where
  "dec_entries d zero [] m = Some m"
| "dec_entries d zero ((k, j) # kvs) m =
     (case d j zero of None \<Rightarrow> None | Some x \<Rightarrow> dec_entries d zero kvs (put k x m))"

fun dec_map :: "'a decoder \<Rightarrow> 'a \<Rightarrow> (string, 'a) gomap decoder" where
  "dec_map d zero JNull old = Some []"
| "dec_map d zero (JObj kvs) old = dec_entries d zero kvs old"
| "dec_map d zero j old = None"

definition json_field :: "string \<Rightarrow> (string \<times> json) list \<Rightarrow> json option" where
  "json_field k kvs = map_of (rev (map (\<lambda>(k', v). (to_lower k', v)) kvs)) (to_lower k)"

definition dec_field :: "string \<Rightarrow> 'a decoder \<Rightarrow> (string \<times> json) list \<Rightarrow> 'a \<Rightarrow> 'a option" where
  "dec_field k d kvs old = (case json_field k kvs of None \<Rightarrow> Some old | Some j \<Rightarrow> d j old)"

text \<open>\<open>json.Unmarshal(raw, &v)\<close>: empty and malformed bytes are syntax errors.\<close>

definition unmarshal :: "'a decoder \<Rightarrow> raw \<Rightarrow> 'a \<Rightarrow> 'a option" where
  "unmarshal d r old = (case r of Raw j \<Rightarrow> d j old | _ \<Rightarrow> None)"

text \<open>
  Structs: a field decoder for each tagged field, run in turn over the members of the object; null
  leaves the struct unchanged and any other value is an error. A \<open>json.RawMessage\<close> field keeps the
  value, null included.
\<close>

type_synonym 'r field_decoder = "(string \<times> json) list \<Rightarrow> 'r \<Rightarrow> 'r option"

definition field :: "string \<Rightarrow> 'a decoder \<Rightarrow> ('r \<Rightarrow> 'a) \<Rightarrow> ('a \<Rightarrow> 'r \<Rightarrow> 'r) \<Rightarrow> 'r field_decoder" where
  "field k d sel upd kvs r = map_option (\<lambda>v. upd v r) (dec_field k d kvs (sel r))"

definition dec_struct :: "'r field_decoder list \<Rightarrow> 'r decoder" where
  "dec_struct fs j old = (case j of
     JNull \<Rightarrow> Some old
   | JObj kvs \<Rightarrow> fold_opt (\<lambda>f. f kvs) fs old
   | _ \<Rightarrow> None)"

definition dec_raw :: "raw decoder" where
  "dec_raw j old = Some (Raw j)"

definition dec_int8 :: "int decoder" where
  "dec_int8 j old = (case dec_int j old of
     Some i \<Rightarrow> if - 128 \<le> i \<and> i < 128 then Some i else None | None \<Rightarrow> None)"

text \<open>
  Decoding into \<open>map[string]interface{}\<close>: a number becomes a \<open>float64\<close>, an object a map with one
  entry per key. None of the results is lost when it is encoded again; a number is then the exact
  value of the float, where the text Go writes is the shortest decimal that reads as that float.
\<close>

definition any_number :: "rat \<Rightarrow> json option" where
  "any_number q = (case rnd q of
     Fin v \<Rightarrow> Some (if of_int \<lfloor>v\<rfloor> = v \<and> \<bar>v\<bar> < 10 ^ 21 then JInt \<lfloor>v\<rfloor> else JDec v) | _ \<Rightarrow> None)"

fun all_some :: "'a option list \<Rightarrow> 'a list option" where
  "all_some [] = Some []"
| "all_some (None # xs) = None"
| "all_some (Some x # xs) = map_option (\<lambda>ys. x # ys) (all_some xs)"

definition dedup :: "(string \<times> 'a) list \<Rightarrow> (string, 'a) gomap" where
  "dedup kvs = fold (\<lambda>kv m. put (fst kv) (snd kv) m) kvs []"

text \<open>\<open>json.Marshal\<close> of a map writes the keys in increasing order.\<close>

definition encode_map :: "(string, json) gomap \<Rightarrow> json" where
  "encode_map m = JObj (sort_key fst m)"

fun dec_any :: "json \<Rightarrow> json option" where
  "dec_any (JInt i) = any_number (of_int i)"
| "dec_any (JDec q) = any_number q"
| "dec_any (JArr js) = map_option JArr (all_some (map dec_any js))"
| "dec_any (JObj kvs) =
     map_option (\<lambda>es. encode_map (dedup es)) (all_some (map (\<lambda>kv. map_option (\<lambda>v. (fst kv, v)) (dec_any (snd kv))) kvs))"
| "dec_any j = Some j"

text \<open>A variable of type \<open>map[string]interface{}\<close> after decoding: None is the nil map.\<close>

definition unmarshal_ext_map :: "raw \<Rightarrow> (string, json) gomap option option" where
  "unmarshal_ext_map r = (case r of
     Raw JNull \<Rightarrow> Some None
   | Raw (JObj kvs) \<Rightarrow> (case dec_any (JObj kvs) of Some (JObj m) \<Rightarrow> Some (Some m) | _ \<Rightarrow> None)
   | _ \<Rightarrow> None)"

section \<open>Lemmas\<close>

lemma fst_dedup [simp]: "fst ` set (dedup kvs) = fst ` set kvs"
proof -
  have "fst ` set (fold (\<lambda>kv m. put (fst kv) (snd kv) m) kvs m) = fst ` set m \<union> fst ` set kvs" for m :: "(string \<times> 'a) list"
    by (induction kvs arbitrary: m) (auto simp: put_fst_subset)
  then show ?thesis by (simp add: dedup_def)
qed

lemma wf_map_dedup [simp]: "wf_map (dedup kvs)"
  unfolding dedup_def by (rule fold_invariant_set) auto

lemma wf_map_sorted [simp]: "wf_map (sort_key fst m) = wf_map m"
proof -
  have "mset (map fst (sort_key fst m)) = mset (map fst m)" by simp
  then show ?thesis unfolding wf_map_def by (metis mset_eq_imp_distinct_iff)
qed

lemma lookup_sorted [simp]: "wf_map m \<Longrightarrow> lookup (sort_key fst m) k = lookup m k"
  by (rule map_of_eqI [THEN fun_cong]) (auto simp: map_of_eq_Some_iff wf_map_def [symmetric] wf_map_lookup_iff
      dest!: map_of_SomeD)

lemma fold_put_distinct:
  assumes "distinct (map fst kvs)" and "set (map fst kvs) \<inter> fst ` set m = {}"
  shows "fold (\<lambda>kv m. put (fst kv) (snd kv) m) kvs m = m @ kvs"
  using assms
proof (induction kvs arbitrary: m)
  case Nil
  then show ?case by simp
next
  case (Cons kv kvs)
  obtain k j where kv: "kv = (k, j)" by (cases kv)
  have "k \<notin> fst ` set m" using Cons.prems(2) kv by auto
  then have p: "put k j m = m @ [(k, j)]" by (induction m) auto
  show ?case using Cons.prems by (simp add: kv p Cons.IH)
qed

lemma dedup_id: "wf_map kvs \<Longrightarrow> dedup kvs = kvs"
  by (simp add: dedup_def fold_put_distinct wf_map_def)

lemma field_Some:
  "field k d sel upd kvs r = Some r' \<longleftrightarrow> (\<exists>v. dec_field k d kvs (sel r) = Some v \<and> r' = upd v r)"
  by (auto simp: field_def)

lemma unmarshal_ext_map_wf: "unmarshal_ext_map r = Some (Some m) \<Longrightarrow> wf_map m"
  by (auto simp: unmarshal_ext_map_def encode_map_def split: raw.splits json.splits option.splits)

lemma finite_float_Some: "finite_float q = Some x \<Longrightarrow> \<exists>v. x = Fin v"
  by (cases "rnd q") (auto simp: finite_float_def)

lemma dec_float_finite: "dec_float j (Fin a) = Some x \<Longrightarrow> \<exists>v. x = Fin v"
  by (cases j) (auto dest: finite_float_Some)

lemma dec_elems_length: "dec_elems d z js = Some xs \<Longrightarrow> length xs = length js"
  by (induction js arbitrary: xs) (auto split: option.splits)

lemma dec_elems_all:
  assumes "dec_elems d z js = Some xs" and "\<And>j x. j \<in> set js \<Longrightarrow> d j z = Some x \<Longrightarrow> P x"
  shows "\<forall>x \<in> set xs. P x"
  using assms
proof (induction js arbitrary: xs)
  case Nil
  then show ?case by simp
next
  case (Cons j js)
  from Cons.prems(1) obtain y ys where "d j z = Some y" "dec_elems d z js = Some ys" "xs = y # ys"
    by (auto split: option.splits)
  moreover have "\<forall>x \<in> set ys. P x"
    by (rule Cons.IH) (use calculation Cons.prems(2) in auto)
  ultimately show ?case using Cons.prems(2) by auto
qed

lemma dec_entries_wf: "dec_entries d z kvs m = Some m' \<Longrightarrow> wf_map m \<Longrightarrow> wf_map m'"
  by (induction kvs arbitrary: m) (auto split: option.splits)

lemma dec_map_wf: "dec_map d z j m = Some m' \<Longrightarrow> wf_map m \<Longrightarrow> wf_map m'"
  by (cases j) (auto dest: dec_entries_wf)

text \<open>
  Reading a struct back from an encoded map: among the keys that match a lower-case field name, the
  exact one is the greatest, so it comes last in the encoding and wins.
\<close>

lemma le_lower_char: "c \<le> lower_char c"
  by (auto simp: lower_char_def less_eq_char_def Let_def)

lemma le_to_lower: "s \<le> to_lower s"
  by (induction s) (auto simp: to_lower_def le_lower_char order.order_iff_strict [symmetric] less_le)

lemma json_field_encoded:
  assumes "wf_map m" and "lookup m k = Some v" and "to_lower k = k"
  shows "json_field k (sort_key fst m) = Some v"
proof -
  let ?s = "sort_key fst m"
  from assms have "(k, v) \<in> set ?s" by (simp add: wf_map_lookup_iff)
  then obtain xs ys where s: "?s = xs @ (k, v) # ys" by (meson split_list)
  have "sorted (map fst ?s)" and "distinct (map fst ?s)"
    using assms(1) wf_map_sorted [of m] by (simp_all add: wf_map_def)
  then have ys: "k < fst e" if "e \<in> set ys" for e
    using that by (auto simp: s sorted_append less_le)
  have "to_lower (fst e) \<noteq> k" if "e \<in> set ys" for e
    using ys [OF that] le_to_lower [of "fst e"] by auto
  then have "map_of (rev (map (\<lambda>(k', v). (to_lower k', v)) ys)) k = None"
    by (fastforce simp: map_of_eq_None_iff)
  then show ?thesis using assms(3) by (simp add: json_field_def s map_add_def)
qed

fun wf_json :: "json \<Rightarrow> bool" where
  "wf_json (JArr js) = list_all wf_json js"
| "wf_json (JObj kvs) = (wf_map kvs \<and> list_all (\<lambda>kv. wf_json (snd kv)) kvs)"
| "wf_json j = True"

lemma all_some_all:
  assumes "all_some (map f xs) = Some ys" and "\<And>x y. x \<in> set xs \<Longrightarrow> f x = Some y \<Longrightarrow> P y"
  shows "list_all P ys"
  using assms
proof (induction xs arbitrary: ys)
  case (Cons x xs)
  then obtain a z where "f x = Some a" "all_some (map f xs) = Some z" "ys = a # z"
    by (cases "f x") auto
  moreover from Cons.prems(2) have "P a" if "f x = Some a" for a using that by auto
  moreover have "list_all P z" if "all_some (map f xs) = Some z" for z
    using that Cons.prems(2) by (intro Cons.IH) auto
  ultimately show ?case by simp
qed simp

lemma set_dedup: "set (dedup kvs) \<subseteq> set kvs"
proof -
  have "set (fold (\<lambda>kv m. put (fst kv) (snd kv) m) kvs m) \<subseteq> set m \<union> set kvs" for m :: "(string \<times> 'a) list"
  proof (induction kvs arbitrary: m)
    case (Cons kv kvs)
    show ?case using Cons.IH [of "put (fst kv) (snd kv) m"] set_put_subset [of "fst kv" "snd kv" m] by auto
  qed simp
  from this [of "[]"] show ?thesis by (simp add: dedup_def)
qed

lemma any_number_wf: "any_number q = Some j \<Longrightarrow> wf_json j"
  by (auto simp: any_number_def split: float64.splits if_splits)

lemma dec_any_wf: "dec_any j = Some j' \<Longrightarrow> wf_json j'"
proof (induction j arbitrary: j' rule: dec_any.induct)
  case (3 js)
  then show ?case by (auto intro!: all_some_all [of dec_any js])
next
  case (4 kvs)
  from 4(2) obtain es where
    es: "all_some (map (\<lambda>kv. map_option (\<lambda>v. (fst kv, v)) (dec_any (snd kv))) kvs) = Some es"
    and j': "j' = encode_map (dedup es)" by auto
  have "list_all (\<lambda>kv. wf_json (snd kv)) es"
    by (rule all_some_all [OF es]) (use 4(1) in auto)
  then show ?case using set_dedup [of es] by (auto simp: j' encode_map_def list_all_iff)
qed (auto dest: any_number_wf)

lemma unmarshal_ext_map_wf_json:
  "unmarshal_ext_map r = Some (Some m) \<Longrightarrow> lookup m k = Some j \<Longrightarrow> wf_json j"
proof -
  assume "unmarshal_ext_map r = Some (Some m)" and k: "lookup m k = Some j"
  then obtain kvs where "dec_any (JObj kvs) = Some (JObj m)"
    by (auto simp: unmarshal_ext_map_def simp del: dec_any.simps split: raw.splits json.splits option.splits)
  then have "wf_json (JObj m)" by (rule dec_any_wf)
  with map_of_SomeD [OF k] show ?thesis by (auto simp: list_all_iff)
qed

lemma dec_list_strings [simp]: "dec_list dec_string z (JArr (map JStr ss)) old = Some ss"
proof -
  have "dec_elems dec_string z (map JStr ss) = Some ss" by (induction ss) auto
  then show ?thesis by simp
qed

end
