(* ===== verification/OpenRTB.thy ===== *)
theory OpenRTB
  imports Json
begin

text \<open>
  The OpenRTB objects the server passes around (package \<open>openrtb2\<close> of
  \<open>github.com/mxmCherry/openrtb\<close>), as records. A pointer field is an option. The fields that no
  modelled function reads or writes are kept together, as one JSON value, in the last field of the
  record (\<open>_other\<close>), so that a copy of an object carries them along.
\<close>

record Geo =
  geo_Lat :: float64
  geo_Lon :: float64
  geo_Country :: string
  geo_Region :: string
  geo_Metro :: string
  geo_City :: string
  geo_ZIP :: string
  geo_Accuracy :: int
  geo_other :: json

definition emptyGeo :: Geo where
  "emptyGeo = \<lparr>geo_Lat = Fin 0, geo_Lon = Fin 0, geo_Country = [], geo_Region = [], geo_Metro = [],
     geo_City = [], geo_ZIP = [], geo_Accuracy = 0, geo_other = JNull\<rparr>"

record Device =
  dev_Geo :: "Geo option"
  dev_Lmt :: "int option"
  dev_IP :: string
  dev_IPv6 :: string
  dev_OS :: string
  dev_OSV :: string
  dev_H :: int
  dev_W :: int
  dev_IFA :: string
  dev_DIDSHA1 :: string
  dev_DIDMD5 :: string
  dev_DPIDSHA1 :: string
  dev_DPIDMD5 :: string
  dev_MACSHA1 :: string
  dev_MACMD5 :: string
  dev_Ext :: raw
  dev_UA :: string
  dev_DNT :: "int option"
  dev_PPI :: int
  dev_other :: json

definition emptyDevice :: Device where
  "emptyDevice = \<lparr>dev_Geo = None, dev_Lmt = None, dev_IP = [], dev_IPv6 = [], dev_OS = [], dev_OSV = [], dev_H = 0, dev_W = 0,
     dev_IFA = [], dev_DIDSHA1 = [], dev_DIDMD5 = [], dev_DPIDSHA1 = [], dev_DPIDMD5 = [], dev_MACSHA1 = [], dev_MACMD5 = [],
     dev_Ext = RawEmpty, dev_UA = [], dev_DNT = None, dev_PPI = 0, dev_other = JNull\<rparr>"

record User =
  user_ID :: string
  user_BuyerUID :: string
  user_Yob :: int
  user_Gender :: string
  user_Geo :: "Geo option"
  user_Ext :: raw
  user_other :: json

definition emptyUser :: User where
  "emptyUser = \<lparr>user_ID = [], user_BuyerUID = [], user_Yob = 0, user_Gender = [], user_Geo = None,
     user_Ext = RawEmpty, user_other = JNull\<rparr>"

record Regs =
  regs_COPPA :: int
  regs_Ext :: raw

record Source =
  src_FD :: int
  src_TID :: string
  src_PChain :: string
  src_Ext :: raw

record Format =
  fmt_W :: int
  fmt_H :: int
  fmt_WRatio :: int
  fmt_HRatio :: int
  fmt_WMin :: int

record Banner =
  ban_Format :: "Format list"
  ban_W :: "int option"
  ban_H :: "int option"
  ban_WMin :: int
  ban_WMax :: int
  ban_HMin :: int
  ban_HMax :: int
  ban_other :: json

record Video =
  vid_MIMEs :: "string list"
  vid_W :: int
  vid_H :: int
  vid_MinBitRate :: int
  vid_MaxBitRate :: int
  vid_other :: json

record Audio =
  aud_MIMEs :: "string list"
  aud_Sequence :: int
  aud_MaxSeq :: int
  aud_MinBitrate :: int
  aud_MaxBitrate :: int
  aud_other :: json

record Native =
  nat_Request :: string
  nat_other :: json

record Deal =
  deal_ID :: string
  deal_other :: json

record PMP =
  pmp_Deals :: "Deal list"
  pmp_other :: json

record Imp =
  imp_ID :: string
  imp_Banner :: "Banner option"
  imp_Video :: "Video option"
  imp_Audio :: "Audio option"
  imp_Native :: "Native option"
  imp_Instl :: int
  imp_Exp :: int
  imp_Ext :: raw
  imp_TagID :: string
  imp_Metric :: "json list"
  imp_PMP :: "PMP option"
  imp_Secure :: "int option"
  imp_other :: json

record Publisher =
  pub_ID :: string
  pub_Ext :: raw
  pub_other :: json

record Site =
  site_ID :: string
  site_Domain :: string
  site_Page :: string
  site_Publisher :: "Publisher option"
  site_Ext :: raw
  site_other :: json

definition emptySite :: Site where
  "emptySite = \<lparr>site_ID = [], site_Domain = [], site_Page = [], site_Publisher = None, site_Ext = RawEmpty, site_other = JNull\<rparr>"

record App =
  app_ID :: string
  app_Publisher :: "Publisher option"
  app_Ext :: raw
  app_other :: json

definition emptyApp :: App where
  "emptyApp = \<lparr>app_ID = [], app_Publisher = None, app_Ext = RawEmpty, app_other = JNull\<rparr>"

record BidRequest =
  req_ID :: string
  req_Imp :: "Imp list"
  req_Site :: "Site option"
  req_App :: "App option"
  req_Device :: "Device option"
  req_User :: "User option"
  req_Test :: int
  req_TMax :: int
  req_Cur :: "string list"
  req_Source :: "Source option"
  req_Regs :: "Regs option"
  req_Ext :: raw
  req_AT :: int
  req_other :: json

record Bid =
  bid_ID :: string
  bid_ImpID :: string
  bid_Price :: float64
  bid_NURL :: string
  bid_AdM :: string
  bid_CrID :: string
  bid_Cat :: "string list"
  bid_DealID :: string
  bid_W :: int
  bid_H :: int
  bid_Exp :: int
  bid_Ext :: raw
  bid_other :: json

datatype BidType = BidTypeBanner | BidTypeVideo | BidTypeAudio | BidTypeNative

fun BidType_string :: "BidType \<Rightarrow> string" where
  "BidType_string BidTypeBanner = ''banner''"
| "BidType_string BidTypeVideo = ''video''"
| "BidType_string BidTypeAudio = ''audio''"
| "BidType_string BidTypeNative = ''native''"

definition BidTypes :: "BidType list" where
  "BidTypes = [BidTypeBanner, BidTypeVideo, BidTypeAudio, BidTypeNative]"

definition ParseBidType :: "string \<Rightarrow> BidType option" where
  "ParseBidType s =
     (if s = ''banner'' then Some BidTypeBanner
      else if s = ''video'' then Some BidTypeVideo
      else if s = ''audio'' then Some BidTypeAudio
      else if s = ''native'' then Some BidTypeNative
      else None)"

lemma ParseBidType_string [simp]: "ParseBidType (BidType_string t) = Some t"
  by (cases t) (simp_all add: ParseBidType_def)

lemma ParseBidType_Some: "ParseBidType s = Some t \<longleftrightarrow> s = BidType_string t"
  by (cases t) (auto simp: ParseBidType_def)

end
