(* ===== verification/Errortypes.thy ===== *)
theory Errortypes
  imports Prelude
begin

text \<open>
  Package \<open>errortypes\<close>: the error values of the server, their numeric codes and severities, the
  filters that split a list of errors into fatal ones and warnings, and the two functions of
  \<open>exchange/exchange.go\<close> that turn them into the messages of \<open>response.ext\<close>. An error of
  another package (\<open>errors.New\<close>, \<open>fmt.Errorf\<close>, a JSON or a network error) does not implement
  \<open>Coder\<close> and is an \<open>OtherError\<close> with its text.
\<close>

datatype Severity = SeverityUnknown | SeverityFatal | SeverityWarning

datatype go_error =
    Timeout string
  | BadInput string
  | BlacklistedApp string
  | BlacklistedAcct string
  | AcctRequired string
  | BadServerResponse string
  | FailedToRequestBids string
  | BidderTemporarilyDisabled string
  | Warning string int
  | ConversionRateNotFound string string
  | AggregateError string "go_error list"
  | OtherError string

text \<open>The result of a call that may return an error or panic.\<close>

datatype 'a outcome = Ok 'a | Err go_error | Panic

section \<open>Codes\<close>

definition UnknownErrorCode :: int where "UnknownErrorCode = 999"
definition TimeoutErrorCode :: int where "TimeoutErrorCode = 1"
definition BadInputErrorCode :: int where "BadInputErrorCode = 2"
definition BlacklistedAppErrorCode :: int where "BlacklistedAppErrorCode = 3"
definition BadServerResponseErrorCode :: int where "BadServerResponseErrorCode = 4"
definition FailedToRequestBidsErrorCode :: int where "FailedToRequestBidsErrorCode = 5"
definition BidderTemporarilyDisabledErrorCode :: int where "BidderTemporarilyDisabledErrorCode = 6"
definition BlacklistedAcctErrorCode :: int where "BlacklistedAcctErrorCode = 7"
definition AcctRequiredErrorCode :: int where "AcctRequiredErrorCode = 8"
definition NoConversionRateErrorCode :: int where "NoConversionRateErrorCode = 9"

definition UnknownWarningCode :: int where "UnknownWarningCode = 10999"
definition InvalidPrivacyConsentWarningCode :: int where "InvalidPrivacyConsentWarningCode = 10001"
definition AccountLevelDebugDisabledWarningCode :: int where "AccountLevelDebugDisabledWarningCode = 10002"
definition BidderLevelDebugDisabledWarningCode :: int where "BidderLevelDebugDisabledWarningCode = 10003"
definition DisabledCurrencyConversionWarningCode :: int where "DisabledCurrencyConversionWarningCode = 10004"

lemmas error_code_defs =
  UnknownErrorCode_def TimeoutErrorCode_def BadInputErrorCode_def BlacklistedAppErrorCode_def
  BadServerResponseErrorCode_def FailedToRequestBidsErrorCode_def
  BidderTemporarilyDisabledErrorCode_def BlacklistedAcctErrorCode_def AcctRequiredErrorCode_def

text \<open>The type assertion \<open>err.(Coder)\<close> with the methods \<open>Code\<close> and \<open>Severity\<close> of each type.\<close>

fun coder :: "go_error \<Rightarrow> (int \<times> Severity) option" where
  "coder (Timeout m) = Some (TimeoutErrorCode, SeverityFatal)"
| "coder (BadInput m) = Some (BadInputErrorCode, SeverityFatal)"
| "coder (BlacklistedApp m) = Some (BlacklistedAppErrorCode, SeverityFatal)"
| "coder (BlacklistedAcct m) = Some (BlacklistedAcctErrorCode, SeverityFatal)"
| "coder (AcctRequired m) = Some (AcctRequiredErrorCode, SeverityFatal)"
| "coder (BadServerResponse m) = Some (BadServerResponseErrorCode, SeverityFatal)"
| "coder (FailedToRequestBids m) = Some (FailedToRequestBidsErrorCode, SeverityFatal)"
| "coder (BidderTemporarilyDisabled m) = Some (BidderTemporarilyDisabledErrorCode, SeverityWarning)"
| "coder (Warning m c) = Some (c, SeverityWarning)"
| "coder (ConversionRateNotFound f t) = None"
| "coder (AggregateError m es) = None"
| "coder (OtherError m) = None"

definition ReadCode :: "go_error \<Rightarrow> int" where
  "ReadCode err = (case coder err of Some (c, _) \<Rightarrow> c | None \<Rightarrow> UnknownErrorCode)"

section \<open>Severity filters\<close>

definition isFatal :: "go_error \<Rightarrow> bool" where
  "isFatal err = (case coder err of None \<Rightarrow> True | Some (_, s) \<Rightarrow> s = SeverityFatal)"

definition isWarning :: "go_error \<Rightarrow> bool" where
  "isWarning err = (case coder err of None \<Rightarrow> False | Some (_, s) \<Rightarrow> s = SeverityWarning)"

fun ContainsFatalError :: "go_error list \<Rightarrow> bool" where
  "ContainsFatalError [] = False"
| "ContainsFatalError (err # errs) = (if isFatal err then True else ContainsFatalError errs)"

definition FatalOnly :: "go_error list \<Rightarrow> go_error list" where
  "FatalOnly errs = filter isFatal errs"

definition WarningOnly :: "go_error list \<Rightarrow> go_error list" where
  "WarningOnly errs = filter isWarning errs"

section \<open>Texts\<close>

definition aggregate_heading :: "string \<Rightarrow> int \<Rightarrow> string" where
  "aggregate_heading msg n =
     msg @ (if n = 1 then '' (1 error):'' else '' ('' @ itoa n @ '' errors):'') @ [CHR 10]"

text \<open>The method \<open>Error\<close> of every error type; \<open>numbered\<close> is the loop of the aggregate error.\<close>

fun Error :: "go_error \<Rightarrow> string" and numbered :: "int \<Rightarrow> go_error list \<Rightarrow> string" where
  "Error (Timeout m) = m"
| "Error (BadInput m) = m"
| "Error (BlacklistedApp m) = m"
| "Error (BlacklistedAcct m) = m"
| "Error (AcctRequired m) = m"
| "Error (BadServerResponse m) = m"
| "Error (FailedToRequestBids m) = m"
| "Error (BidderTemporarilyDisabled m) = m"
| "Error (Warning m c) = m"
| "Error (ConversionRateNotFound f t) =
     ''Currency conversion rate not found: '' @ [CHR 39] @ f @ [CHR 39] @ '' => '' @ [CHR 39] @ t @ [CHR 39]"
| "Error (AggregateError m errs) =
     (if errs = [] then [] else aggregate_heading m (int (length errs)) @ numbered 1 errs)"
| "Error (OtherError m) = m"
| "numbered i [] = []"
| "numbered i (err # errs) = ''  '' @ itoa i @ '': '' @ Error err @ [CHR 10] @ numbered (i + 1) errs"

section \<open>Messages of the response (exchange/exchange.go)\<close>

record ExtBidderMessage =
  Code :: int
  Message :: string

definition errsToBidderErrors :: "go_error list \<Rightarrow> ExtBidderMessage list" where
  "errsToBidderErrors errs = map (\<lambda>err. \<lparr>Code = ReadCode err, Message = Error err\<rparr>) (FatalOnly errs)"

definition errsToBidderWarnings :: "go_error list \<Rightarrow> ExtBidderMessage list" where
  "errsToBidderWarnings errs = map (\<lambda>err. \<lparr>Code = ReadCode err, Message = Error err\<rparr>) (WarningOnly errs)"

datatype AdapterError =
    AdapterErrorBadInput | AdapterErrorBadServerResponse | AdapterErrorTimeout
  | AdapterErrorFailedToRequestBids | AdapterErrorUnknown

definition errorToMetric :: "go_error \<Rightarrow> AdapterError" where
  "errorToMetric err =
     (let c = ReadCode err in
      if c = TimeoutErrorCode then AdapterErrorTimeout
      else if c = BadInputErrorCode then AdapterErrorBadInput
      else if c = BadServerResponseErrorCode then AdapterErrorBadServerResponse
      else if c = FailedToRequestBidsErrorCode then AdapterErrorFailedToRequestBids
      else AdapterErrorUnknown)"

definition errorsToMetric :: "go_error list \<Rightarrow> AdapterError set option" where
  "errorsToMetric errs = (if errs = [] then None else Some (set (map errorToMetric errs)))"

section \<open>Lemmas\<close>

lemma coder_never_unknown: "coder err = Some (c, s) \<Longrightarrow> s = SeverityFatal \<or> s = SeverityWarning"
  by (cases err) auto

lemma isWarning_iff_not_fatal [simp]: "isWarning err = (\<not> isFatal err)"
  using coder_never_unknown [of err]
  by (auto simp: isFatal_def isWarning_def split: option.splits)

lemma ContainsFatalError_iff: "ContainsFatalError errs \<longleftrightarrow> (\<exists>err \<in> set errs. isFatal err)"
  by (induction errs) auto

lemma mset_severity_partition: "mset (FatalOnly errs) + mset (WarningOnly errs) = mset errs"
  by (simp add: FatalOnly_def WarningOnly_def multiset_partition [of "mset errs" isFatal, symmetric])

lemma FatalOnly_idem [simp]: "FatalOnly (FatalOnly errs) = FatalOnly errs"
  by (simp add: FatalOnly_def)

lemma FatalOnly_append [simp]: "FatalOnly (xs @ ys) = FatalOnly xs @ FatalOnly ys"
  by (simp add: FatalOnly_def)

text \<open>
  Every error of an auction is reported exactly once in \<open>response.ext\<close>: the fatal errors
  and the warnings, as multisets of messages, make up the messages of the whole list, in whatever
  mix the errors came; and the list counts as failed exactly when the errors part is not empty.
\<close>

theorem errors_reported_once:
  "mset (errsToBidderErrors errs) + mset (errsToBidderWarnings errs) =
     mset (map (\<lambda>err. \<lparr>Code = ReadCode err, Message = Error err\<rparr>) errs)
   \<and> ContainsFatalError errs = (errsToBidderErrors errs \<noteq> [])"
proof
  let ?m = "\<lambda>err. \<lparr>Code = ReadCode err, Message = Error err\<rparr>"
  have "mset (errsToBidderErrors errs) + mset (errsToBidderWarnings errs) =
      image_mset ?m (mset (FatalOnly errs) + mset (WarningOnly errs))"
    by (simp add: errsToBidderErrors_def errsToBidderWarnings_def)
  then show "mset (errsToBidderErrors errs) + mset (errsToBidderWarnings errs) = mset (map ?m errs)"
    by (simp only: mset_severity_partition mset_map)
  show "ContainsFatalError errs = (errsToBidderErrors errs \<noteq> [])"
    by (auto simp: ContainsFatalError_iff errsToBidderErrors_def FatalOnly_def filter_empty_conv)
qed

end
