(* ===== verification/Imp_Split.thy ===== *)
theory Imp_Split
  imports OpenRTB Errortypes
begin

text \<open>
  The first step of splitting a request by bidder (\<open>splitImps\<close> of \<open>exchange/utils.go\<close>): every
  impression is copied for each bidder it names, with an extension that holds the parameters of
  that bidder only. The text of an underlying JSON error is not part of the error. The reference definition is \<open>imp_for\<close>, the copy of one impression for one
  bidder; the map built by the loops has, for every bidder, exactly these copies in order.
\<close>

section \<open>The code\<close>

definition PrebidExtKey :: string where "PrebidExtKey = ''prebid''"
definition PrebidExtBidderKey :: string where "PrebidExtBidderKey = ''bidder''"
definition FirstPartyDataExtKey :: string where "FirstPartyDataExtKey = ''data''"
definition FirstPartyDataContextExtKey :: string where "FirstPartyDataContextExtKey = ''context''"
definition SKAdNExtKey :: string where "SKAdNExtKey = ''skadn''"

lemmas ext_key_defs =
  PrebidExtKey_def PrebidExtBidderKey_def FirstPartyDataExtKey_def FirstPartyDataContextExtKey_def SKAdNExtKey_def

text \<open>\<open>json.Unmarshal\<close> into a \<open>map[string]json.RawMessage\<close>; null gives the nil map.\<close>

definition raw_map :: "raw \<Rightarrow> (string, json) gomap option" where
  "raw_map r = (case r of Raw JNull \<Rightarrow> Some [] | Raw (JObj kvs) \<Rightarrow> Some (dedup kvs) | _ \<Rightarrow> None)"

text \<open>A nested map whose decoding error is ignored: the variable stays nil.\<close>

definition nested_map :: "string \<Rightarrow> (string, json) gomap \<Rightarrow> (string, json) gomap" where
  "nested_map k m = (case lookup m k of None \<Rightarrow> [] | Some j \<Rightarrow> (case raw_map (Raw j) of None \<Rightarrow> [] | Some n \<Rightarrow> n))"

definition isSpecialField :: "string \<Rightarrow> bool" where
  "isSpecialField bidder =
     (bidder = FirstPartyDataContextExtKey \<or> bidder = FirstPartyDataExtKey \<or> bidder = SKAdNExtKey
      \<or> bidder = PrebidExtKey)"

definition copy_key :: "string \<Rightarrow> (string, json) gomap \<Rightarrow> (string, json) gomap \<Rightarrow> (string, json) gomap" where
  "copy_key k source target = (case lookup source k of None \<Rightarrow> target | Some v \<Rightarrow> put k v target)"

definition createSanitizedImpExt :: "(string, json) gomap \<Rightarrow> (string, json) gomap \<Rightarrow> (string, json) gomap" where
  "createSanitizedImpExt impExt impExtPrebid =
     (let prebid = del PrebidExtBidderKey impExtPrebid;
          s = (if prebid \<noteq> [] then put PrebidExtKey (encode_map prebid) [] else [])
      in copy_key SKAdNExtKey impExt
           (copy_key FirstPartyDataContextExtKey impExt (copy_key FirstPartyDataExtKey impExt s)))"

definition fallback_ext :: "string \<times> json \<Rightarrow> (string, json) gomap \<Rightarrow> (string, json) gomap" where
  "fallback_ext e bidderExts =
     (if isSpecialField (fst e) then bidderExts
      else if lookup bidderExts (fst e) = None then put (fst e) (snd e) bidderExts else bidderExts)"

definition extractBidderExts :: "(string, json) gomap \<Rightarrow> (string, json) gomap \<Rightarrow> (string, json) gomap" where
  "extractBidderExts impExt impExtPrebidBidders =
     fold fallback_ext impExt (fold (\<lambda>e m. put (fst e) (snd e) m) impExtPrebidBidders [])"

text \<open>
  The inner loop reuses one sanitized extension for all bidders of the impression and overwrites its
  key \<open>bidder\<close>; appending to the entry of a bidder that has none starts its list.
\<close>

definition add_imp :: "bidderName \<Rightarrow> Imp \<Rightarrow> (bidderName, Imp list) gomap \<Rightarrow> (bidderName, Imp list) gomap" where
  "add_imp bidder imp m = put bidder ((case lookup m bidder of None \<Rightarrow> [] | Some imps \<Rightarrow> imps) @ [imp]) m"

fun add_bidders ::
  "Imp \<Rightarrow> (string, json) gomap \<Rightarrow> (string, json) gomap \<Rightarrow> (bidderName, Imp list) gomap \<Rightarrow> (bidderName, Imp list) gomap" where
  "add_bidders imp [] sanitized m = m"
| "add_bidders imp ((bidder, bidderExt) # bs) sanitized m =
     (let sanitized' = put PrebidExtBidderKey bidderExt sanitized
      in add_bidders imp bs sanitized' (add_imp bidder (imp\<lparr>imp_Ext := Raw (encode_map sanitized')\<rparr>) m))"

definition splitImp :: "Imp \<Rightarrow> (bidderName, Imp list) gomap \<Rightarrow> (bidderName, Imp list) gomap option" where
  "splitImp imp m = (case raw_map (imp_Ext imp) of
     None \<Rightarrow> None
   | Some impExt \<Rightarrow>
       (let impExtPrebid = nested_map PrebidExtKey impExt;
            impExtPrebidBidder = nested_map PrebidExtBidderKey impExtPrebid
        in Some (add_bidders imp (extractBidderExts impExt impExtPrebidBidder)
                   (createSanitizedImpExt impExt impExtPrebid) m)))"

fun splitImpsLoop :: "int \<Rightarrow> Imp list \<Rightarrow> (bidderName, Imp list) gomap \<Rightarrow> go_error + (bidderName, Imp list) gomap" where
  "splitImpsLoop i [] m = Inr m"
| "splitImpsLoop i (imp # imps) m = (case splitImp imp m of
     None \<Rightarrow> Inl (OtherError (''invalid json for imp['' @ itoa i @ '']''))
   | Some m' \<Rightarrow> splitImpsLoop (i + 1) imps m')"

definition splitImps :: "Imp list \<Rightarrow> go_error + (bidderName, Imp list) gomap" where
  "splitImps imps = splitImpsLoop 0 imps []"

section \<open>The reference\<close>

text \<open>
  The parameters of a bidder in the extension of an impression: those under \<open>prebid.bidder\<close> if
  there are any, else those under its own name. The copy of the impression for the bidder carries
  these, the rest of \<open>prebid\<close> and the shared first-party data.
\<close>

definition params_for :: "bidderName \<Rightarrow> (string, json) gomap \<Rightarrow> json option" where
  "params_for b impExt =
     (case lookup (nested_map PrebidExtBidderKey (nested_map PrebidExtKey impExt)) b of
        Some j \<Rightarrow> Some j
      | None \<Rightarrow> if isSpecialField b then None else lookup impExt b)"

definition shared_ext :: "(string, json) gomap \<Rightarrow> (string, json) gomap" where
  "shared_ext impExt = createSanitizedImpExt impExt (nested_map PrebidExtKey impExt)"

definition imp_for :: "bidderName \<Rightarrow> Imp \<Rightarrow> Imp option" where
  "imp_for b imp = (case raw_map (imp_Ext imp) of
     None \<Rightarrow> None
   | Some impExt \<Rightarrow>
       map_option (\<lambda>j. imp\<lparr>imp_Ext := Raw (encode_map (put PrebidExtBidderKey j (shared_ext impExt)))\<rparr>)
         (params_for b impExt))"

section \<open>The loops build the reference\<close>

lemma wf_raw_map: "raw_map r = Some m \<Longrightarrow> wf_map m"
  by (auto simp: raw_map_def split: raw.splits json.splits)

lemma wf_nested_map [simp]: "wf_map (nested_map k m)"
  by (auto simp: nested_map_def split: option.splits dest: wf_raw_map)

lemma wf_copy_key [simp]: "wf_map t \<Longrightarrow> wf_map (copy_key k s t)"
  by (simp add: copy_key_def split: option.splits)

lemma wf_map_single [simp]: "wf_map [e]"
  by (simp add: wf_map_def)

lemma wf_createSanitizedImpExt [simp]: "wf_map (createSanitizedImpExt a b)"
  by (simp add: createSanitizedImpExt_def Let_def)

lemma lookup_copy_key [simp]:
  "lookup (copy_key k s t) k' = (if k' = k \<and> lookup s k \<noteq> None then lookup s k else lookup t k')"
  by (auto simp: copy_key_def split: option.splits)

lemma lookup_shared_ext:
  "lookup (shared_ext e) k =
     (if k \<in> {SKAdNExtKey, FirstPartyDataContextExtKey, FirstPartyDataExtKey} then lookup e k
      else if k = PrebidExtKey \<and> del PrebidExtBidderKey (nested_map PrebidExtKey e) \<noteq> []
      then Some (encode_map (del PrebidExtBidderKey (nested_map PrebidExtKey e))) else None)"
  by (auto simp: shared_ext_def createSanitizedImpExt_def Let_def ext_key_defs)

lemma put_put: "put k v (put k w m) = put k v m"
  by (induction m) auto

lemma lookup_puts:
  "lookup (fold (\<lambda>e m. put (fst e) (snd e) m) xs m) k = (case lookup (rev xs) k of Some v \<Rightarrow> Some v | None \<Rightarrow> lookup m k)"
  by (induction xs arbitrary: m) (auto simp: map_add_def split: option.splits)

lemma lookup_rev: "wf_map m \<Longrightarrow> lookup (rev m) k = lookup m k"
  by (rule map_of_eqI [THEN fun_cong])
     (auto simp: wf_map_def map_of_eq_Some_iff rev_map [symmetric] dom_def dest!: map_of_SomeD)

lemma lookup_fallback: "lookup (fold fallback_ext xs m) b =
    (case lookup m b of Some j \<Rightarrow> Some j | None \<Rightarrow> if isSpecialField b then None else lookup xs b)"
proof (induction xs arbitrary: m b)
  case Nil
  then show ?case by (cases "lookup m b") simp_all
next
  case (Cons e xs)
  show ?case
    by (cases "lookup m b"; cases "lookup m (fst e)"; cases "b = fst e")
       (simp_all add: Cons.IH fallback_ext_def [of e])
qed

lemma lookup_extractBidderExts:
  assumes "wf_map p"
  shows "lookup (extractBidderExts e p) b =
    (case lookup p b of Some j \<Rightarrow> Some j | None \<Rightarrow> if isSpecialField b then None else lookup e b)"
  using assms
  by (cases "lookup p b") (simp_all add: extractBidderExts_def lookup_fallback lookup_puts lookup_rev)

lemma wf_extractBidderExts [simp]: "wf_map (extractBidderExts e p)"
proof -
  have "wf_map (fold (\<lambda>e m. put (fst e) (snd e) m) p [])" using wf_map_dedup [of p] by (simp add: dedup_def)
  then show ?thesis
    unfolding extractBidderExts_def by (rule fold_invariant_set) (simp add: fallback_ext_def)
qed

abbreviation entry :: "('k, 'v list) gomap \<Rightarrow> 'k \<Rightarrow> 'v list" where
  "entry m k \<equiv> (case lookup m k of None \<Rightarrow> [] | Some xs \<Rightarrow> xs)"

lemma lookup_add_imp: "lookup (add_imp b i m) b' = (if b' = b then Some (entry m b @ [i]) else lookup m b')"
  by (simp add: add_imp_def)

lemma lookup_add_bidders:
  assumes "wf_map bs"
  shows "lookup (add_bidders imp bs s m) b = (case lookup bs b of
      None \<Rightarrow> lookup m b
    | Some j \<Rightarrow> Some (entry m b @ [imp\<lparr>imp_Ext := Raw (encode_map (put PrebidExtBidderKey j s))\<rparr>]))"
  using assms
proof (induction bs arbitrary: s m b)
  case Nil
  then show ?case by simp
next
  case (Cons e bs)
  obtain c j where e: "e = (c, j)" by (cases e)
  have wf: "wf_map bs" and c: "lookup bs c = None"
    using Cons.prems by (auto simp: wf_map_def e map_of_eq_None_iff)
  show ?case
    by (cases "b = c"; cases "lookup bs b") (simp_all add: e Let_def Cons.IH [OF wf] c lookup_add_imp put_put)
qed

lemma lookup_splitImp:
  assumes "splitImp imp m = Some m'"
  shows "lookup m' b = (case imp_for b imp of None \<Rightarrow> lookup m b | Some i \<Rightarrow> Some (entry m b @ [i]))"
proof -
  from assms obtain e where e: "raw_map (imp_Ext imp) = Some e"
    and m': "m' = add_bidders imp (extractBidderExts e (nested_map PrebidExtBidderKey (nested_map PrebidExtKey e)))
                   (shared_ext e) m"
    by (auto simp: splitImp_def Let_def shared_ext_def split: option.splits)
  show ?thesis
    by (auto simp: m' imp_for_def e params_for_def lookup_add_bidders lookup_extractBidderExts
             split: option.splits)
qed

lemma wf_add_bidders: "wf_map m \<Longrightarrow> wf_map (add_bidders imp bs s m)"
  by (induction imp bs s m rule: add_bidders.induct) (auto simp: Let_def add_imp_def)

lemma wf_splitImp: "splitImp imp m = Some m' \<Longrightarrow> wf_map m \<Longrightarrow> wf_map m'"
  by (auto simp: splitImp_def Let_def wf_add_bidders split: option.splits)

lemma splitImpsLoop_spec:
  assumes "splitImpsLoop i imps m = Inr m'"
  shows "lookup m' b = (case List.map_filter (imp_for b) imps of [] \<Rightarrow> lookup m b | is \<Rightarrow> Some (entry m b @ is))"
  using assms
proof (induction i imps m rule: splitImpsLoop.induct)
  case (1 i m)
  then show ?case by (simp add: map_filter_simps)
next
  case (2 i imp imps m)
  then obtain m1 where m1: "splitImp imp m = Some m1" and loop: "splitImpsLoop (i + 1) imps m1 = Inr m'"
    by (auto split: option.splits)
  from "2.IH" [OF m1 loop] show ?case
    by (auto simp: lookup_splitImp [OF m1] map_filter_simps split: option.splits list.splits)
qed

lemma wf_splitImpsLoop: "splitImpsLoop i imps m = Inr m' \<Longrightarrow> wf_map m \<Longrightarrow> wf_map m'"
  by (induction i imps m rule: splitImpsLoop.induct) (auto split: option.splits dest: wf_splitImp)

lemma splitImpsLoop_ok: "(\<exists>m'. splitImpsLoop i imps m = Inr m') \<longleftrightarrow> (\<forall>imp\<in>set imps. raw_map (imp_Ext imp) \<noteq> None)"
  by (induction i imps m rule: splitImpsLoop.induct) (auto simp: splitImp_def Let_def split: option.splits)

section \<open>Properties\<close>

text \<open>
  C8. Splitting is exact: the loops build, for every bidder, exactly the copies of the impressions
  that name the bidder, in the order of the request, and there is no entry for a bidder that no
  impression names.
\<close>

theorem splitImps_exact:
  assumes "splitImps imps = Inr m"
  shows "wf_map m \<and> (\<forall>b. lookup m b = (case List.map_filter (imp_for b) imps of [] \<Rightarrow> None | is \<Rightarrow> Some is))"
  using wf_splitImpsLoop [of 0 imps "[]" m] splitImpsLoop_spec [of 0 imps "[]" m] assms
  by (auto simp: splitImps_def split: list.splits)

definition example_imp :: Imp where
  "example_imp = \<lparr>imp_ID = ''1'', imp_Banner = None, imp_Video = None, imp_Audio = None, imp_Native = None,
     imp_Instl = 0, imp_Exp = 0,
     imp_Ext = Raw (JObj [(''appnexus'', JInt 1), (''rubicon'', JInt 2), (''context'', JStr ''c''),
       (''prebid'', JObj [(''is_rewarded_inventory'', JInt 1), (''bidder'', JObj [(''rubicon'', JInt 3)])])]), imp_TagID = [], imp_Metric = [], imp_PMP = None, imp_Secure = None, imp_other = JNull\<rparr>"

definition example_split :: "(bidderName, Imp list) gomap" where
  "example_split =
     (let shared = [(''context'', JStr ''c''), (''prebid'', JObj [(''is_rewarded_inventory'', JInt 1)])]
      in [(''rubicon'', [example_imp\<lparr>imp_Ext := Raw (JObj ((''bidder'', JInt 3) # shared))\<rparr>]),
          (''appnexus'', [example_imp\<lparr>imp_Ext := Raw (JObj ((''bidder'', JInt 1) # shared))\<rparr>])])"

theorem splitImps_exact_witness:
  "splitImps [example_imp] = Inr example_split
   \<and> List.map_filter (imp_for ''rubicon'') [example_imp] = [example_imp\<lparr>imp_Ext := Raw (JObj
        [(''bidder'', JInt 3), (''context'', JStr ''c''), (''prebid'', JObj [(''is_rewarded_inventory'', JInt 1)])])\<rparr>]"
proof -
  have s: "splitImps [example_imp] = Inr example_split" by code_simp
  have l: "lookup example_split ''rubicon'' = Some [example_imp\<lparr>imp_Ext := Raw (JObj
        [(''bidder'', JInt 3), (''context'', JStr ''c''), (''prebid'', JObj [(''is_rewarded_inventory'', JInt 1)])])\<rparr>]"
    by code_simp
  from splitImps_exact [OF s] l s show ?thesis by (auto split: list.splits)
qed

text \<open>Encoding a map depends on its entries only.\<close>

lemma encode_map_cong:
  assumes "wf_map m" and "wf_map m'" and "\<And>k. lookup m k = lookup m' k"
  shows "encode_map m = encode_map m'"
proof -
  have set: "set m = set m'"
    using assms by (auto simp: wf_map_lookup_iff [symmetric])
  have inj: "inj_on fst (set m)" using assms(1) by (simp add: wf_map_def distinct_map)
  have "sort_key fst m = sort_key fst m'"
    by (rule map_sorted_distinct_set_unique [where f = fst])
       (use assms(1,2) inj set wf_map_sorted in \<open>simp_all add: wf_map_def [symmetric]\<close>)
  then show ?thesis by (simp add: encode_map_def)
qed

definition same_for :: "bidderName \<Rightarrow> Imp \<Rightarrow> Imp \<Rightarrow> bool" where
  "same_for b i i' = (i\<lparr>imp_Ext := RawEmpty\<rparr> = i'\<lparr>imp_Ext := RawEmpty\<rparr> \<and>
     (case (raw_map (imp_Ext i), raw_map (imp_Ext i')) of
        (Some e, Some e') \<Rightarrow>
          params_for b e = params_for b e' \<and>
          lookup e SKAdNExtKey = lookup e' SKAdNExtKey \<and>
          lookup e FirstPartyDataContextExtKey = lookup e' FirstPartyDataContextExtKey \<and>
          lookup e FirstPartyDataExtKey = lookup e' FirstPartyDataExtKey \<and>
          del PrebidExtBidderKey (nested_map PrebidExtKey e) = del PrebidExtBidderKey (nested_map PrebidExtKey e')
      | _ \<Rightarrow> False))"

lemma imp_for_same:
  assumes "same_for b i i'"
  shows "imp_for b i = imp_for b i'"
proof -
  obtain e e' where e: "raw_map (imp_Ext i) = Some e" and e': "raw_map (imp_Ext i') = Some e'"
    and p: "params_for b e = params_for b e'" and sh: "\<And>k. lookup (shared_ext e) k = lookup (shared_ext e') k"
    using assms by (auto simp: same_for_def lookup_shared_ext split: option.splits)
  have "encode_map (put k j (shared_ext e)) = encode_map (put k j (shared_ext e'))" for k j
    by (rule encode_map_cong) (simp_all add: sh shared_ext_def [symmetric], simp_all add: shared_ext_def)
  moreover have "i\<lparr>imp_Ext := x\<rparr> = i'\<lparr>imp_Ext := x\<rparr>" for x
  proof -
    have "(i\<lparr>imp_Ext := RawEmpty\<rparr>)\<lparr>imp_Ext := x\<rparr> = (i'\<lparr>imp_Ext := RawEmpty\<rparr>)\<lparr>imp_Ext := x\<rparr>"
      using assms by (simp add: same_for_def)
    then show ?thesis by simp
  qed
  ultimately show ?thesis by (simp add: imp_for_def e e' p)
qed

text \<open>
  C9. Isolation of bidders: two requests whose impressions differ only in the parameters of other
  bidders (under their own name or under \<open>prebid.bidder\<close>) and in unknown fields give a bidder
  the same impressions. A bidder learns nothing about the parameters or the presence of the others.
\<close>

theorem bidder_isolation:
  assumes "splitImps imps = Inr m" and "splitImps imps' = Inr m'" and "list_all2 (same_for b) imps imps'"
  shows "lookup m b = lookup m' b"
proof -
  from assms(3) have "List.map_filter (imp_for b) imps = List.map_filter (imp_for b) imps'"
  proof (induction rule: list_all2_induct)
    case (Cons x xs y ys)
    then show ?case by (simp add: map_filter_simps imp_for_same [OF Cons.hyps(1)] split: option.splits)
  qed (simp add: map_filter_simps)
  moreover have "lookup m b = (case List.map_filter (imp_for b) imps of [] \<Rightarrow> None | is \<Rightarrow> Some is)"
    using splitImpsLoop_spec [of 0 imps "[]" m b] assms(1) by (simp add: splitImps_def split: list.splits)
  moreover have "lookup m' b = (case List.map_filter (imp_for b) imps' of [] \<Rightarrow> None | is \<Rightarrow> Some is)"
    using splitImpsLoop_spec [of 0 imps' "[]" m' b] assms(2) by (simp add: splitImps_def split: list.splits)
  ultimately show ?thesis by simp
qed

definition example_other_imp :: Imp where
  "example_other_imp = example_imp\<lparr>imp_Ext := Raw (JObj [(''context'', JStr ''c''), (''appnexus'', JInt 7),
       (''openx'', JObj []), (''rubicon'', JInt 3), (''prebid'', JObj [(''is_rewarded_inventory'', JInt 1)])])\<rparr>"

definition example_other_split :: "(bidderName, Imp list) gomap" where
  "example_other_split =
     (let shared = [(''context'', JStr ''c''), (''prebid'', JObj [(''is_rewarded_inventory'', JInt 1)])]
      in [(''appnexus'', [example_imp\<lparr>imp_Ext := Raw (JObj ((''bidder'', JInt 7) # shared))\<rparr>]),
          (''openx'', [example_imp\<lparr>imp_Ext := Raw (JObj ((''bidder'', JObj []) # shared))\<rparr>]),
          (''rubicon'', [example_imp\<lparr>imp_Ext := Raw (JObj ((''bidder'', JInt 3) # shared))\<rparr>])])"

theorem bidder_isolation_witness: "lookup example_split ''rubicon'' = lookup example_other_split ''rubicon''"
proof (rule bidder_isolation)
  show "splitImps [example_imp] = Inr example_split" by code_simp
  show "splitImps [example_other_imp] = Inr example_other_split" by code_simp
  show "list_all2 (same_for ''rubicon'') [example_imp] [example_other_imp]" by code_simp
qed

end
