(* ===== verification/Price_Granularity.thy ===== *)
theory Price_Granularity
  imports Json Errortypes
begin

text \<open>
  Price granularities: the decoder of \<open>request.ext.prebid.targeting.pricegranularity\<close>
  (\<open>openrtb_ext/request.go\<close>) and the bucket a bid price falls into
  (\<open>exchange/price_granularity.go\<close>). The lemmas show which granularities the decoder can
  produce, that such a granularity covers every price, and how far a bucket is from its price.
\<close>

record GranularityRange =
  Min :: float64
  Max :: float64
  Increment :: float64

record PriceGranularity =
  Precision :: int
  Ranges :: "GranularityRange list"

abbreviation range_of :: "rat \<Rightarrow> rat \<Rightarrow> rat \<Rightarrow> GranularityRange" where
  "range_of lo hi inc \<equiv> \<lparr>Min = flit lo, Max = flit hi, Increment = flit inc\<rparr>"

definition priceGranularityLow :: PriceGranularity where
  "priceGranularityLow = \<lparr>Precision = 2, Ranges = [range_of 0 5 (5 / 10)]\<rparr>"

definition priceGranularityMed :: PriceGranularity where
  "priceGranularityMed = \<lparr>Precision = 2, Ranges = [range_of 0 20 (1 / 10)]\<rparr>"

definition priceGranularityHigh :: PriceGranularity where
  "priceGranularityHigh = \<lparr>Precision = 2, Ranges = [range_of 0 20 (1 / 100)]\<rparr>"

definition priceGranularityDense :: PriceGranularity where
  "priceGranularityDense = \<lparr>Precision = 2,
     Ranges = [range_of 0 3 (1 / 100), range_of 3 8 (5 / 100), range_of 8 20 (5 / 10)]\<rparr>"

definition priceGranularityAuto :: PriceGranularity where
  "priceGranularityAuto = \<lparr>Precision = 2,
     Ranges = [range_of 0 5 (5 / 100), range_of 5 10 (1 / 10), range_of 10 20 (5 / 10)]\<rparr>"

definition PriceGranularityFromString :: "string \<Rightarrow> PriceGranularity" where
  "PriceGranularityFromString gran =
     (if gran = ''low'' then priceGranularityLow
      else if gran = ''med'' \<or> gran = ''medium'' then priceGranularityMed
      else if gran = ''high'' then priceGranularityHigh
      else if gran = ''auto'' then priceGranularityAuto
      else if gran = ''dense'' then priceGranularityDense
      else \<lparr>Precision = 0, Ranges = []\<rparr>)"

section \<open>Decoding\<close>

definition MaxDecimalFigures :: int where
  "MaxDecimalFigures = 15"

definition dec_GranularityRange :: "GranularityRange decoder" where
  "dec_GranularityRange j old = (case j of
     JNull \<Rightarrow> Some old
   | JObj kvs \<Rightarrow>
       (case (dec_field ''min'' dec_float kvs (Min old), dec_field ''max'' dec_float kvs (Max old),
              dec_field ''increment'' dec_float kvs (Increment old)) of
          (Some mi, Some ma, Some inc) \<Rightarrow> Some \<lparr>Min = mi, Max = ma, Increment = inc\<rparr>
        | _ \<Rightarrow> None)
   | _ \<Rightarrow> None)"

definition zeroRange :: GranularityRange where
  "zeroRange = \<lparr>Min = Fin 0, Max = Fin 0, Increment = Fin 0\<rparr>"

definition dec_PriceGranularityRaw :: "PriceGranularity decoder" where
  "dec_PriceGranularityRaw j old = (case j of
     JNull \<Rightarrow> Some old
   | JObj kvs \<Rightarrow>
       (case (dec_field ''precision'' dec_int kvs (Precision old),
              dec_field ''ranges'' (dec_list dec_GranularityRange zeroRange) kvs (Ranges old)) of
          (Some p, Some rs) \<Rightarrow> Some \<lparr>Precision = p, Ranges = rs\<rparr>
        | _ \<Rightarrow> None)
   | _ \<Rightarrow> None)"

text \<open>The loop over the ranges: check the order and the increment, and overwrite \<open>Min\<close>.\<close>

fun check_ranges :: "float64 \<Rightarrow> GranularityRange list \<Rightarrow> go_error + GranularityRange list" where
  "check_ranges prevMax [] = Inr []"
| "check_ranges prevMax (gr # grs) =
     (if fle (Max gr) prevMax
      then Inl (OtherError ''Price granularity error: range list must be ordered with increasing \"max\"'')
      else if fle (Increment gr) (Fin 0)
      then Inl (OtherError ''Price granularity error: increment must be a nonzero positive number'')
      else (case check_ranges (Max gr) grs of
              Inl e \<Rightarrow> Inl e
            | Inr rs \<Rightarrow> Inr (gr\<lparr>Min := prevMax\<rparr> # rs)))"

definition UnmarshalCustom :: "json \<Rightarrow> go_error + PriceGranularity" where
  "UnmarshalCustom j =
     (case dec_PriceGranularityRaw j \<lparr>Precision = 2, Ranges = []\<rparr> of
        None \<Rightarrow> Inl (OtherError ''json: cannot unmarshal price granularity'')
      | Some pgraw \<Rightarrow>
          if Precision pgraw < 0
          then Inl (OtherError ''Price granularity error: precision must be non-negative'')
          else if Precision pgraw > MaxDecimalFigures
          then Inl (OtherError ''Price granularity error: precision of more than 15 significant figures is not supported'')
          else if Ranges pgraw \<noteq> []
          then (case check_ranges (Fin 0) (Ranges pgraw) of
                  Inl e \<Rightarrow> Inl e
                | Inr rs \<Rightarrow> Inr (pgraw\<lparr>Ranges := rs\<rparr>))
          else Inr priceGranularityMed)"

definition UnmarshalPriceGranularity :: "raw \<Rightarrow> go_error + PriceGranularity" where
  "UnmarshalPriceGranularity b = (case b of
     RawEmpty \<Rightarrow> Inr priceGranularityMed
   | RawBad \<Rightarrow> Inl (OtherError ''json: syntax error'')
   | Raw j \<Rightarrow>
       (case dec_string j [] of
          Some s \<Rightarrow> (let pg = PriceGranularityFromString s
                     in if Ranges pg \<noteq> [] then Inr pg else UnmarshalCustom j)
        | None \<Rightarrow> UnmarshalCustom j))"

section \<open>Buckets\<close>

text \<open>The local variable \<open>roundedCPM\<close> of \<open>getCpmTarget\<close>.\<close>

definition roundedCPM :: "float64 \<Rightarrow> float64 \<Rightarrow> float64" where
  "roundedCPM cpm increment = fmul (ffloor (fdiv cpm increment)) increment"

definition getCpmTarget :: "float64 \<Rightarrow> float64 \<Rightarrow> int \<Rightarrow> string" where
  "getCpmTarget cpm increment precision = format_float (roundedCPM cpm increment) (nat precision)"

definition bucket_step :: "float64 \<Rightarrow> GranularityRange \<Rightarrow> float64 \<times> float64 \<Rightarrow> float64 \<times> float64" where
  "bucket_step cpm r acc = (case acc of (bucketMax, increment) \<Rightarrow>
     (if flt bucketMax (Max r) then Max r else bucketMax,
      if fle (Min r) cpm \<and> fle cpm (Max r) then Increment r else increment))"

definition GetPriceBucket :: "float64 \<Rightarrow> PriceGranularity \<Rightarrow> string" where
  "GetPriceBucket cpm config =
     (case fold (bucket_step cpm) (Ranges config) (Fin 0, Fin 0) of (bucketMax, increment) \<Rightarrow>
        if flt bucketMax cpm then format_float bucketMax (nat (Precision config))
        else if flt (Fin 0) increment then getCpmTarget cpm increment (Precision config)
        else [])"

section \<open>What the decoder guarantees\<close>

definition finite_range :: "GranularityRange \<Rightarrow> bool" where
  "finite_range r = (Min r \<notin> {NaN, NInf, PInf} \<and> Max r \<notin> {NaN, NInf, PInf} \<and> Increment r \<notin> {NaN, NInf, PInf})"

text \<open>Ranges that follow each other without a gap from \<open>lo\<close> upwards, with positive increments.\<close>

fun chained :: "float64 \<Rightarrow> GranularityRange list \<Rightarrow> bool" where
  "chained lo [] = True"
| "chained lo (r # rs) =
     (Min r = lo \<and> flt lo (Max r) \<and> flt (Fin 0) (Increment r) \<and> finite_range r \<and> chained (Max r) rs)"

definition wf_granularity :: "PriceGranularity \<Rightarrow> bool" where
  "wf_granularity pg =
     (0 \<le> Precision pg \<and> Precision pg \<le> MaxDecimalFigures \<and> Ranges pg \<noteq> [] \<and> chained (Fin 0) (Ranges pg))"

lemma dec_GranularityRange_finite: "dec_GranularityRange j zeroRange = Some r \<Longrightarrow> finite_range r"
proof -
  have "dec_field k dec_float kvs (Fin 0) = Some x \<Longrightarrow> x \<notin> {NaN, NInf, PInf}" for k kvs x
    by (auto simp: dec_field_def dest: dec_float_finite split: option.splits)
  then show "dec_GranularityRange j zeroRange = Some r \<Longrightarrow> finite_range r"
    by (auto simp: dec_GranularityRange_def zeroRange_def finite_range_def
             split: json.splits option.splits)
qed

lemma check_ranges_chained:
  assumes "check_ranges lo rs = Inr rs'" and "\<forall>r \<in> set rs. finite_range r" and "lo \<notin> {NaN, NInf, PInf}"
  shows "chained lo rs' \<and> length rs' = length rs"
  using assms
proof (induction rs arbitrary: lo rs')
  case Nil
  then show ?case by simp
next
  case (Cons r rs)
  then obtain ts where ts: "check_ranges (Max r) rs = Inr ts" and rs': "rs' = r\<lparr>Min := lo\<rparr> # ts"
    and lt: "\<not> fle (Max r) lo" and inc: "\<not> fle (Increment r) (Fin 0)"
    by (auto split: if_splits sum.splits)
  from Cons.prems(2) have fin: "finite_range r" by simp
  have "chained (Max r) ts \<and> length ts = length rs"
    by (rule Cons.IH [OF ts]) (use Cons.prems fin in \<open>auto simp: finite_range_def\<close>)
  with lt inc fin Cons.prems(3) not_flt_fle [of lo "Max r"] not_flt_fle [of "Fin 0" "Increment r"]
  show ?case by (auto simp: rs' finite_range_def)
qed

lemma standard_granularities_wf:
  "wf_granularity priceGranularityLow" "wf_granularity priceGranularityMed"
  "wf_granularity priceGranularityHigh" "wf_granularity priceGranularityDense"
  "wf_granularity priceGranularityAuto"
  by code_simp+

lemma PriceGranularityFromString_wf:
  "Ranges (PriceGranularityFromString s) \<noteq> [] \<Longrightarrow> wf_granularity (PriceGranularityFromString s)"
  using standard_granularities_wf by (auto simp: PriceGranularityFromString_def)

lemma UnmarshalCustom_wf: "UnmarshalCustom j = Inr pg \<Longrightarrow> wf_granularity pg"
proof -
  assume u: "UnmarshalCustom j = Inr pg"
  then obtain raw where raw: "dec_PriceGranularityRaw j \<lparr>Precision = 2, Ranges = []\<rparr> = Some raw"
    by (auto simp: UnmarshalCustom_def split: option.splits)
  have fin: "\<forall>r \<in> set (Ranges raw). finite_range r"
  proof -
    have "dec_list dec_GranularityRange zeroRange j' old = Some rs \<Longrightarrow> \<forall>r \<in> set rs. finite_range r"
      for j' old rs
      by (cases j') (simp_all, metis dec_elems_all dec_GranularityRange_finite)
    with raw show ?thesis
      by (fastforce simp: dec_PriceGranularityRaw_def dec_field_def split: json.splits option.splits)
  qed
  show ?thesis
  proof (cases "Ranges raw = []")
    case True
    with u raw standard_granularities_wf show ?thesis
      by (auto simp: UnmarshalCustom_def split: if_splits)
  next
    case False
    with u raw obtain rs where rs: "check_ranges (Fin 0) (Ranges raw) = Inr rs"
      and pg: "pg = raw\<lparr>Ranges := rs\<rparr>" "0 \<le> Precision raw" "Precision raw \<le> MaxDecimalFigures"
      by (auto simp: UnmarshalCustom_def split: if_splits sum.splits)
    from check_ranges_chained [OF rs fin] False pg show ?thesis
      by (auto simp: wf_granularity_def)
  qed
qed

section \<open>Which bucket a price falls into\<close>

definition in_range :: "float64 \<Rightarrow> GranularityRange \<Rightarrow> bool" where
  "in_range cpm r = (fle (Min r) cpm \<and> fle cpm (Max r))"

lemma fold_bucket_max:
  "chained lo rs \<Longrightarrow> fst (fold (bucket_step cpm) rs (lo, i)) = (if rs = [] then lo else Max (last rs))"
  by (induction rs arbitrary: lo i) (auto simp: bucket_step_def)

lemma fold_bucket_increment:
  "snd (fold (bucket_step cpm) rs (m, i)) =
     (if filter (in_range cpm) rs = [] then i else Increment (last (filter (in_range cpm) rs)))"
proof (induction rs arbitrary: m i)
  case Nil
  then show ?case by simp
next
  case (Cons r rs)
  then show ?case by (simp add: bucket_step_def in_range_def)
qed

lemma chained_covers:
  assumes "chained lo rs" and "rs \<noteq> []" and "fle lo cpm" and "\<not> flt (Max (last rs)) cpm" and "lo \<noteq> NaN"
  shows "\<exists>r \<in> set rs. in_range cpm r"
  using assms
proof (induction rs arbitrary: lo)
  case Nil
  then show ?case by simp
next
  case (Cons r rs)
  from Cons.prems have cpm: "cpm \<noteq> NaN" by (cases lo; cases cpm) auto
  from Cons.prems have mx: "Max r \<noteq> NaN" by (auto simp: finite_range_def)
  show ?case
  proof (cases "fle cpm (Max r)")
    case True
    with Cons.prems show ?thesis by (auto simp: in_range_def)
  next
    case False
    with not_flt_fle [OF mx cpm] have lt: "flt (Max r) cpm" by simp
    with Cons.prems have "rs \<noteq> []" by auto
    with Cons.IH [of "Max r"] Cons.prems lt mx flt_fle show ?thesis by auto
  qed
qed

lemma chained_increment_pos: "chained lo rs \<Longrightarrow> r \<in> set rs \<Longrightarrow> flt (Fin 0) (Increment r)"
  by (induction rs arbitrary: lo) auto

lemma last_of_filter:
  assumes "filter P xs \<noteq> []"
  shows "\<exists>ys zs. xs = ys @ last (filter P xs) # zs \<and> P (last (filter P xs)) \<and> (\<forall>z\<in>set zs. \<not> P z)"
  using assms
proof (induction xs rule: rev_induct)
  case (snoc x xs)
  show ?case
  proof (cases "P x")
    case True
    then show ?thesis by (intro exI [of _ xs] exI [of _ "[]"]) simp
  next
    case False
    with snoc obtain ys zs where "xs = ys @ last (filter P xs) # zs" "P (last (filter P xs))" "\<forall>z\<in>set zs. \<not> P z" by auto
    with False show ?thesis by (intro exI [of _ ys] exI [of _ "zs @ [x]"]) auto
  qed
qed simp

lemma GetPriceBucket_cases:
  assumes wf: "wf_granularity pg" and pos: "fle (Fin 0) cpm"
  defines "sel \<equiv> filter (in_range cpm) (Ranges pg)"
  shows "flt (Max (last (Ranges pg))) cpm \<Longrightarrow>
           GetPriceBucket cpm pg = format_float (Max (last (Ranges pg))) (nat (Precision pg))"
    and "\<not> flt (Max (last (Ranges pg))) cpm \<Longrightarrow>
           sel \<noteq> [] \<and> GetPriceBucket cpm pg = getCpmTarget cpm (Increment (last sel)) (Precision pg)"
proof -
  let ?f = "fold (bucket_step cpm) (Ranges pg) (Fin 0, Fin 0)"
  from wf have ch: "chained (Fin 0) (Ranges pg)" and ne: "Ranges pg \<noteq> []"
    by (simp_all add: wf_granularity_def)
  have f: "?f = (Max (last (Ranges pg)), if sel = [] then Fin 0 else Increment (last sel))"
    using fold_bucket_max [OF ch, of cpm "Fin 0"] fold_bucket_increment [of cpm "Ranges pg" "Fin 0" "Fin 0"] ne
    by (simp add: prod_eq_iff sel_def)
  show "flt (Max (last (Ranges pg))) cpm \<Longrightarrow>
      GetPriceBucket cpm pg = format_float (Max (last (Ranges pg))) (nat (Precision pg))"
    by (simp add: GetPriceBucket_def f)
  assume le: "\<not> flt (Max (last (Ranges pg))) cpm"
  from chained_covers [OF ch ne pos le] have sel: "sel \<noteq> []"
    by (auto simp: sel_def filter_empty_conv)
  then have "last sel \<in> set (Ranges pg)"
    using last_in_set [of sel] by (auto simp: sel_def)
  then have "flt (Fin 0) (Increment (last sel))" by (rule chained_increment_pos [OF ch])
  with sel le show "sel \<noteq> [] \<and> GetPriceBucket cpm pg = getCpmTarget cpm (Increment (last sel)) (Precision pg)"
    by (simp add: GetPriceBucket_def f)
qed

section \<open>How far a bucket is from its price\<close>

lemma roundedCPM_mono:
  assumes "0 < b" and "fle x y"
  shows "fle (roundedCPM x (Fin b)) (roundedCPM y (Fin b))"
  unfolding roundedCPM_def by (intro fmul_mono ffloor_mono fdiv_mono assms)

text \<open>
  The error of the three operations together: the division and the multiplication each add at
  most one part in \<open>2 ^ 53\<close> of a value that is at most twice the price.
\<close>

lemma roundedCPM_error:
  assumes i: "2 powi (- 1022) \<le> i" and ic: "i \<le> c" and c: "c < 2 ^ 1022" and d: "c / i < 2 ^ 1023"
  obtains v where "roundedCPM (Fin c) (Fin i) = Fin v"
    and "v \<le> c + c / 2 ^ 51" and "c - i - c / 2 ^ 51 < v"
proof -
  have "(0::rat) < 2 powi (- 1022)" by simp
  from this i have i0: "0 < i" by (rule less_le_trans)
  with ic have c0: "0 < c" by simp
  define u where "u = c / (2 ^ 53 :: rat)"
  have u0: "0 < u" and u51: "c / 2 ^ 51 = 4 * u" using c0 by (simp_all add: u_def)
  note min_normal_le_one
  moreover have "1 \<le> c / i" using ic i0 by simp
  ultimately have "2 powi (- 1022) \<le> c / i" by (rule order_trans)
  then obtain w where w: "rnd (c / i) = Fin w" and err: "\<bar>w - c / i\<bar> \<le> c / i / 2 ^ 53"
    using rnd_normal d by blast
  have wi: "\<bar>w * i - c\<bar> \<le> u"
  proof -
    have "\<bar>w * i - c\<bar> = \<bar>w - c / i\<bar> * i" using i0 by (simp add: abs_mult_pos left_diff_distrib)
    also have "\<dots> \<le> c / i / 2 ^ 53 * i" using err i0 by (intro mult_right_mono) auto
    also have "\<dots> = u" using i0 by (simp add: u_def)
    finally show ?thesis .
  qed
  define p where "p = of_int \<lfloor>w\<rfloor> * i"
  have pw: "p \<le> w * i" unfolding p_def using i0 by (intro mult_right_mono) auto
  have wp: "w * i < p + i"
  proof -
    have "w * i < (of_int \<lfloor>w\<rfloor> + 1) * i"
      using floor_correct [of w] i0 by (intro mult_strict_right_mono) auto
    then show ?thesis by (simp add: p_def distrib_right)
  qed
  have r: "roundedCPM (Fin c) (Fin i) = rnd p"
    using i0 by (simp add: roundedCPM_def w p_def)
  have "0 < w"
  proof -
    have "u < c" using c0 by (simp add: u_def)
    with wi have "0 < w * i" by linarith
    then show ?thesis using i0 by (simp add: zero_less_mult_iff)
  qed
  then have "0 \<le> \<lfloor>w\<rfloor>" by simp
  then consider "\<lfloor>w\<rfloor> = 0" | "1 \<le> \<lfloor>w\<rfloor>" by linarith
  then show thesis
  proof cases
    case 1
    then have p: "p = 0" by (simp add: p_def)
    then have "roundedCPM (Fin c) (Fin i) = Fin 0" using r by (simp add: rnd_def)
    then show thesis
    proof (rule that)
      show "0 \<le> c + c / 2 ^ 51" using c0 by simp
      show "c - i - c / 2 ^ 51 < 0" using wp wi p u51 u0 by linarith
    qed
  next
    case 2
    have "1 * i \<le> p" unfolding p_def using 2 i0 by (intro mult_right_mono) auto
    with i have low: "2 powi (- 1022) \<le> p" by simp
    have uc: "u \<le> c" using c0 by (simp add: u_def)
    with pw wi have p2c: "p \<le> 2 * c" by linarith
    also have "\<dots> < 2 ^ 1023" using c by simp
    finally obtain v where v: "rnd p = Fin v" and ve: "\<bar>v - p\<bar> \<le> p / 2 ^ 53"
      using rnd_normal [OF low] by blast
    have "p / 2 ^ 53 \<le> 2 * u" using p2c by (simp add: u_def divide_right_mono)
    with ve have vp: "\<bar>v - p\<bar> \<le> 2 * u" by linarith
    from r v have "roundedCPM (Fin c) (Fin i) = Fin v" by simp
    then show thesis
    proof (rule that)
      show "v \<le> c + c / 2 ^ 51" using vp pw wi u0 u51 by linarith
      show "c - i - c / 2 ^ 51 < v" using vp wp wi u0 u51 by linarith
    qed
  qed
qed

text \<open>
  A granularity read from a request, when it is accepted, is usable: its precision is
  between 0 and 15, it has at least one range, the first range starts at 0 and every other one
  where the range before it ends, the ends increase, and every increment is positive.
\<close>

lemma UnmarshalPriceGranularity_wf:
  assumes "UnmarshalPriceGranularity b = Inr pg"
  shows "wf_granularity pg"
proof (cases b)
  case RawEmpty
  with assms standard_granularities_wf show ?thesis by (auto simp: UnmarshalPriceGranularity_def)
next
  case RawBad
  with assms show ?thesis by (simp add: UnmarshalPriceGranularity_def)
next
  case (Raw j)
  with assms show ?thesis
    by (auto simp: UnmarshalPriceGranularity_def Let_def
        intro: UnmarshalCustom_wf PriceGranularityFromString_wf split: option.splits if_splits)
qed

definition example_json :: json where
  "example_json = JObj [(''precision'', JInt 3),
     (''ranges'', JArr [JObj [(''max'', JInt 2), (''increment'', JDec (1 / 4))],
                        JObj [(''max'', JInt 9), (''min'', JInt 7), (''increment'', JInt 1)]])]"

definition example_granularity :: PriceGranularity where
  "example_granularity = \<lparr>Precision = 3, Ranges = [range_of 0 2 (1 / 4), range_of 2 9 1]\<rparr>"

text \<open>
  C34. Bucket selection. With a granularity the decoder accepts, every non-negative price has a bucket: a price
  above the end of the last range gets that end, printed with the precision. Any other price lies in some range and gets
  the floor of price over increment, times the increment, in float64 arithmetic and printed with the precision, where the
  increment is that of the last range that contains the price, so that a price on a border between two ranges belongs to
  the upper one. For an increment that is not subnormal and not above the price, the bucket is the price rounded
  down: not above it and less than one increment below it, up to a relative error of \<open>2 ^ - 51\<close>.
\<close>

theorem GetPriceBucket_selects:
  assumes "wf_granularity pg" and "fle (Fin 0) cpm"
  shows "if flt (Max (last (Ranges pg))) cpm
     then GetPriceBucket cpm pg = format_float (Max (last (Ranges pg))) (nat (Precision pg))
     else (\<exists>lower r upper. Ranges pg = lower @ r # upper \<and> fle (Min r) cpm \<and> fle cpm (Max r) \<and>
         (\<forall>u\<in>set upper. \<not> (fle (Min u) cpm \<and> fle cpm (Max u))) \<and>
         GetPriceBucket cpm pg = format_float (fmul (ffloor (fdiv cpm (Increment r))) (Increment r)) (nat (Precision pg)) \<and>
         (\<forall>c i. cpm = Fin c \<and> Increment r = Fin i \<and> 2 powi (- 1022) \<le> i \<and> i \<le> c \<and> c < 2 ^ 1022 \<and> c / i < 2 ^ 1023 \<longrightarrow>
            (\<exists>v. GetPriceBucket cpm pg = format_float (Fin v) (nat (Precision pg)) \<and> v \<le> c + c / 2 ^ 51 \<and> c - i - c / 2 ^ 51 < v)))"
proof (cases "flt (Max (last (Ranges pg))) cpm")
  case True
  then show ?thesis using GetPriceBucket_cases(1) [OF assms] by simp
next
  case False
  let ?sel = "filter (in_range cpm) (Ranges pg)"
  from GetPriceBucket_cases(2) [OF assms False] have sel: "?sel \<noteq> []"
    and bucket: "GetPriceBucket cpm pg = format_float (roundedCPM cpm (Increment (last ?sel))) (nat (Precision pg))"
    by (simp_all add: getCpmTarget_def)
  from last_of_filter [OF sel] obtain lower upper where split: "Ranges pg = lower @ last ?sel # upper"
    and r: "in_range cpm (last ?sel)" "\<forall>u\<in>set upper. \<not> in_range cpm u" by blast
  have "\<exists>v. GetPriceBucket cpm pg = format_float (Fin v) (nat (Precision pg)) \<and> v \<le> c + c / 2 ^ 51 \<and> c - i - c / 2 ^ 51 < v"
    if h: "cpm = Fin c \<and> Increment (last ?sel) = Fin i \<and> 2 powi (- 1022) \<le> i \<and> i \<le> c \<and> c < 2 ^ 1022 \<and> c / i < 2 ^ 1023" for c i
  proof -
    from h obtain v where v: "roundedCPM (Fin c) (Fin i) = Fin v" and lo: "v \<le> c + c / 2 ^ 51" and hi: "c - i - c / 2 ^ 51 < v"
      by (elim conjE) (rule roundedCPM_error)
    from h have "roundedCPM cpm (Increment (last ?sel)) = roundedCPM (Fin c) (Fin i)" by (elim conjE) (simp only:)
    with v bucket have "GetPriceBucket cpm pg = format_float (Fin v) (nat (Precision pg))" by (simp only:)
    with lo hi show ?thesis by blast
  qed
  then have round: "\<forall>c i. cpm = Fin c \<and> Increment (last ?sel) = Fin i \<and> 2 powi (- 1022) \<le> i \<and> i \<le> c \<and> c < 2 ^ 1022 \<and> c / i < 2 ^ 1023 \<longrightarrow>
      (\<exists>v. GetPriceBucket cpm pg = format_float (Fin v) (nat (Precision pg)) \<and> v \<le> c + c / 2 ^ 51 \<and> c - i - c / 2 ^ 51 < v)" by blast
  show ?thesis unfolding if_not_P [OF False]
    by (intro exI [of _ lower] exI [of _ "last ?sel"] exI [of _ upper] conjI)
      (rule split r(1) [unfolded in_range_def [of cpm "last ?sel"], THEN conjunct1] r(1) [unfolded in_range_def [of cpm "last ?sel"], THEN conjunct2] r(2) [unfolded in_range_def]
        bucket [unfolded roundedCPM_def] round)+
qed

theorem GetPriceBucket_selects_witness:
  "wf_granularity example_granularity \<and> fle (Fin 0) (Fin 2)
   \<and> GetPriceBucket (Fin 2) example_granularity = format_float (fmul (ffloor (fdiv (Fin 2) (flit 1))) (flit 1)) 3
   \<and> format_float (fmul (ffloor (fdiv (Fin 2) (flit 1))) (flit 1)) 3 = ''2.000''"
proof -
  have wf: "wf_granularity example_granularity" by code_simp
  have above: "\<not> flt (Max (last (Ranges example_granularity))) (Fin 2)" by code_simp
  have rs: "Ranges example_granularity = [range_of 0 2 (1 / 4), range_of 2 9 1]" "nat (Precision example_granularity) = 3" by code_simp+
  have upper: "fle (Min (range_of 2 9 1)) (Fin 2) \<and> fle (Fin 2) (Max (range_of 2 9 1))" "Increment (range_of 2 9 1) = flit 1" by code_simp+
  have printed: "format_float (fmul (ffloor (fdiv (Fin 2) (flit 1))) (flit 1)) 3 = ''2.000''" by code_simp
  have two: "r = b" if "[a, b] = lower @ r # upper" "\<forall>u\<in>set upper. \<not> P u" "P b" for a b r lower upper and P :: "GranularityRange \<Rightarrow> bool"
    using that by (cases upper rule: rev_cases) (auto simp: append_eq_Cons_conv Cons_eq_append_conv)
  from GetPriceBucket_selects [OF wf, of "Fin 2"] above obtain lower r upper where
    "[range_of 0 2 (1 / 4), range_of 2 9 1] = lower @ r # upper" "\<forall>u\<in>set upper. \<not> (fle (Min u) (Fin 2) \<and> fle (Fin 2) (Max u))"
    "GetPriceBucket (Fin 2) example_granularity = format_float (fmul (ffloor (fdiv (Fin 2) (Increment r))) (Increment r)) 3"
    by (auto simp: rs)
  with two [of "range_of 0 2 (1 / 4)" "range_of 2 9 1" lower r upper "\<lambda>u. fle (Min u) (Fin 2) \<and> fle (Fin 2) (Max u)", OF _ _ upper(1)] upper(2) printed wf
  show ?thesis by simp
qed

text \<open>
  Accuracy. In floating-point arithmetic the bucket of a price \<open>c\<close> with increment \<open>i\<close> is
  a finite number, never above the price and never more than one increment below it, up to a
  relative error of \<open>2 ^ - 51\<close> of the price, for every increment that is not subnormal.
\<close>

theorem price_bucket_accuracy:
  assumes "2 powi (- 1022) \<le> i" and "i \<le> c" and "c < 2 ^ 1022" and "c / i < 2 ^ 1023"
  shows "\<exists>v. getCpmTarget (Fin c) (Fin i) prec = format_float (Fin v) (nat prec)
    \<and> v \<le> c + c / 2 ^ 51 \<and> c - i - c / 2 ^ 51 < v"
  using roundedCPM_error [OF assms] by (metis getCpmTarget_def)

theorem price_bucket_accuracy_witness:
  "\<exists>v. getCpmTarget (Fin 7) (Fin 2) 2 = format_float (Fin v) 2 \<and> v \<le> 7 + 7 / 2 ^ 51 \<and> 7 - 2 - 7 / 2 ^ 51 < v"
proof -
  from min_normal_le_one have "(2::rat) powi (- 1022) \<le> 2" by linarith
  then show ?thesis using price_bucket_accuracy [of 2 7 2] by simp
qed

text \<open>
  Buckets respect the order of prices: of two prices rounded with the same positive
  increment, the larger never gets the smaller bucket.
\<close>

theorem price_bucket_mono:
  assumes "flt (Fin 0) inc" and "inc \<noteq> PInf" and "fle x y"
  shows "fle (roundedCPM x inc) (roundedCPM y inc)"
proof -
  from assms obtain b where "inc = Fin b" "0 < b" by (cases inc) auto
  with assms(3) show ?thesis by (simp add: roundedCPM_mono)
qed

theorem price_bucket_mono_witness:
  "fle (roundedCPM (flit (3 / 10)) (flit (1 / 10))) (roundedCPM (flit (31 / 100)) (flit (1 / 10)))"
proof (rule price_bucket_mono)
  show "flt (Fin 0) (flit (1 / 10))" by code_simp
  show "flit (1 / 10) \<noteq> PInf" by code_simp
  show "fle (flit (3 / 10)) (flit (31 / 100))" by code_simp
qed

text \<open>
  A price that is a multiple of the increment can still drop a whole bucket: 0.30 with the
  medium granularity is reported as 0.20, because the floating-point quotient lies below 3.
\<close>

lemma medium_bucket_of_30_cents: "GetPriceBucket (flit (3 / 10)) priceGranularityMed = ''0.20''"
  by code_simp

end
