(* ===== verification/Currency.thy ===== *)
theory Currency
  imports Json Errortypes
begin

text \<open>
  Package \<open>currency\<close>: conversion rates read from JSON, the \<open>Conversions\<close> interface with its
  three implementations (constant rates, a table of rates, custom rates over server rates), the
  rate converter that refreshes the table in the background and drops it when it is stale, and
  the choice of rates for an auction (\<open>getAuctionCurrencyRates\<close> of \<open>exchange/exchange.go\<close>).
  The parser of ISO 4217 codes is the package \<open>golang.org/x/text/currency\<close>: it is the parameter
  \<open>parseISO\<close>, which returns the canonical code of a currency string or its error.
\<close>

type_synonym iso_parser = "string \<Rightarrow> go_error + string"
type_synonym rate_table = "(string, (string, float64) gomap) gomap"

text \<open>\<open>DataAsOf\<close> is a date (midnight UTC) or Go's zero time; \<open>Conversions\<close> is None for a nil map.\<close>

record Rates =
  DataAsOf :: "(int \<times> int \<times> int) option"
  RateConversions :: "rate_table option"

definition NewRates :: "(int \<times> int \<times> int) option \<Rightarrow> rate_table option \<Rightarrow> Rates" where
  "NewRates dataAsOf conversions = \<lparr>DataAsOf = dataAsOf, RateConversions = conversions\<rparr>"

section \<open>Decoding\<close>

text \<open>\<open>time.Parse\<close> with the layout 2006-01-02.\<close>

definition leap_year :: "int \<Rightarrow> bool" where
  "leap_year y = (y mod 4 = 0 \<and> (y mod 100 \<noteq> 0 \<or> y mod 400 = 0))"

definition days_in_month :: "int \<Rightarrow> int \<Rightarrow> int" where
  "days_in_month y m =
     (if m = 2 then (if leap_year y then 29 else 28) else if m \<in> {4, 6, 9, 11} then 30 else 31)"

definition parse_date :: "string \<Rightarrow> (int \<times> int \<times> int) option" where
  "parse_date s =
     (if length s = 10 \<and> s ! 4 = CHR ''-'' \<and> s ! 7 = CHR ''-''
      then (case (digits_value 0 (take 4 s), digits_value 0 (take 2 (drop 5 s)), digits_value 0 (drop 8 s)) of
              (Some y, Some m, Some d) \<Rightarrow>
                if 1 \<le> m \<and> m \<le> 12 \<and> 1 \<le> d \<and> d \<le> days_in_month y m then Some (y, m, d) else None
            | _ \<Rightarrow> None)
      else None)"

definition dec_table :: "rate_table option decoder" where
  "dec_table j old =
     (if j = JNull then Some None
      else map_option Some (dec_map (dec_map dec_float (Fin 0)) [] j (case old of None \<Rightarrow> [] | Some m \<Rightarrow> m)))"

text \<open>
  \<open>Rates.UnmarshalJSON\<close>: the date is kept only when it parses, and an unparsable date is no
  error.
\<close>

definition UnmarshalRates :: "raw \<Rightarrow> Rates \<Rightarrow> go_error + Rates" where
  "UnmarshalRates b r = (case b of
     Raw JNull \<Rightarrow> Inr (r\<lparr>RateConversions := None\<rparr>)
   | Raw (JObj kvs) \<Rightarrow>
       (case (dec_field ''dataAsOf'' dec_string kvs [], dec_field ''conversions'' dec_table kvs None) of
          (Some date, Some table) \<Rightarrow>
            Inr (case parse_date date of
                   Some d \<Rightarrow> r\<lparr>RateConversions := table, DataAsOf := Some d\<rparr>
                 | None \<Rightarrow> r\<lparr>RateConversions := table\<rparr>)
        | _ \<Rightarrow> Inl (OtherError ''json: cannot unmarshal rates''))
   | _ \<Rightarrow> Inl (OtherError ''json: cannot unmarshal rates''))"

section \<open>The Conversions interface\<close>

definition table_rate :: "rate_table \<Rightarrow> string \<Rightarrow> string \<Rightarrow> float64 option" where
  "table_rate t f u = (case lookup t f of None \<Rightarrow> None | Some m \<Rightarrow> lookup m u)"

text \<open>The check that opens every \<open>GetRate\<close>: both currencies parse, the first one first.\<close>

definition with_units :: "iso_parser \<Rightarrow> string \<Rightarrow> string \<Rightarrow> (string \<Rightarrow> string \<Rightarrow> go_error + float64) \<Rightarrow> go_error + float64" where
  "with_units parseISO from to k = (case parseISO from of
     Inl e \<Rightarrow> Inl e
   | Inr f \<Rightarrow> (case parseISO to of Inl e \<Rightarrow> Inl e | Inr u \<Rightarrow> k f u))"

definition constant_GetRate :: "iso_parser \<Rightarrow> string \<Rightarrow> string \<Rightarrow> go_error + float64" where
  "constant_GetRate parseISO from to = with_units parseISO from to (\<lambda>f u.
     if f \<noteq> u then Inl (ConversionRateNotFound f u) else Inr (Fin 1))"

definition rates_GetRate :: "iso_parser \<Rightarrow> Rates \<Rightarrow> string \<Rightarrow> string \<Rightarrow> go_error + float64" where
  "rates_GetRate parseISO r from to = with_units parseISO from to (\<lambda>f u.
     if f = u then Inr (Fin 1)
     else (case RateConversions r of
             None \<Rightarrow> Inl (OtherError ''rates are nil'')
           | Some t \<Rightarrow>
               (case table_rate t f u of
                  Some conversion \<Rightarrow> Inr conversion
                | None \<Rightarrow>
                    (case table_rate t u f of
                       Some conversion \<Rightarrow> Inr (fdiv (Fin 1) conversion)
                     | None \<Rightarrow> Inl (ConversionRateNotFound f u)))))"

definition aggregate_GetRate ::
  "(string \<Rightarrow> string \<Rightarrow> go_error + float64) \<Rightarrow> (string \<Rightarrow> string \<Rightarrow> go_error + float64) \<Rightarrow> string \<Rightarrow> string \<Rightarrow> go_error + float64" where
  "aggregate_GetRate customRates serverRates from to = (case customRates from to of
     Inr rate \<Rightarrow> Inr rate
   | Inl (ConversionRateNotFound f u) \<Rightarrow> serverRates from to
   | Inl e \<Rightarrow> Inl e)"

datatype Conversions = ConstantRates | TableRates Rates | AggregateConversions Conversions Conversions

fun GetRate :: "iso_parser \<Rightarrow> Conversions \<Rightarrow> string \<Rightarrow> string \<Rightarrow> go_error + float64" where
  "GetRate parseISO ConstantRates = constant_GetRate parseISO"
| "GetRate parseISO (TableRates r) = rates_GetRate parseISO r"
| "GetRate parseISO (AggregateConversions c s) = aggregate_GetRate (GetRate parseISO c) (GetRate parseISO s)"

fun GetRates :: "Conversions \<Rightarrow> rate_table option" where
  "GetRates ConstantRates = None"
| "GetRates (TableRates r) = RateConversions r"
| "GetRates (AggregateConversions c s) = None"

section \<open>The rate converter\<close>

text \<open>
  Times and durations are nanoseconds. \<open>rates\<close> is None as long as nothing was stored in the
  atomic value, \<open>Some None\<close> for the stored nil pointer.
\<close>

record RateConverter =
  staleRatesThreshold :: int
  syncSourceURL :: string
  rates :: "Rates option option"
  lastUpdated :: "int option"

definition NewRateConverter :: "string \<Rightarrow> int \<Rightarrow> RateConverter" where
  "NewRateConverter url threshold =
     \<lparr>staleRatesThreshold = threshold, syncSourceURL = url, rates = None, lastUpdated = None\<rparr>"

text \<open>
  The outcome of the HTTP exchange of one refresh: the request could not be built or sent, or a
  response with a status and a body that may fail to be read.
\<close>

datatype http_outcome = HttpFailed go_error | HttpResponse int "go_error + raw"

definition fetch :: "http_outcome \<Rightarrow> go_error + Rates" where
  "fetch http = (case http of
     HttpFailed e \<Rightarrow> Inl e
   | HttpResponse status body \<Rightarrow>
       if status \<ge> 400
       then Inl (BadServerResponse (''The currency rates request failed with status code '' @ itoa status))
       else (case body of
               Inl e \<Rightarrow> Inl e
             | Inr b \<Rightarrow> UnmarshalRates b \<lparr>DataAsOf = None, RateConversions = None\<rparr>))"

text \<open>\<open>time.Time.Sub\<close> saturates; \<open>Duration.Seconds\<close> adds the whole and the fractional seconds.\<close>

definition time_sub :: "int \<Rightarrow> int \<Rightarrow> int" where
  "time_sub t u = max (- (2 ^ 63)) (min (2 ^ 63 - 1) (t - u))"

definition duration_seconds :: "int \<Rightarrow> float64" where
  "duration_seconds d =
     (let sec = sgn d * (\<bar>d\<bar> div 1000000000); nsec = sgn d * (\<bar>d\<bar> mod 1000000000)
      in fadd (rnd (of_int sec)) (fdiv (rnd (of_int nsec)) (Fin 1000000000)))"

definition checkStaleRates :: "int \<Rightarrow> RateConverter \<Rightarrow> bool" where
  "checkStaleRates now rc =
     (if staleRatesThreshold rc \<le> 0 then False
      else (case lastUpdated rc of
              None \<Rightarrow> False
            | Some t \<Rightarrow> flt (duration_seconds (staleRatesThreshold rc)) (duration_seconds (time_sub now t))))"

definition clearRates :: "RateConverter \<Rightarrow> RateConverter" where
  "clearRates rc = rc\<lparr>rates := Some None\<rparr>"

definition update :: "int \<Rightarrow> http_outcome \<Rightarrow> RateConverter \<Rightarrow> go_error option \<times> RateConverter" where
  "update now http rc = (case fetch http of
     Inr r \<Rightarrow> (None, rc\<lparr>rates := Some (Some r), lastUpdated := Some now\<rparr>)
   | Inl e \<Rightarrow> (Some e, if checkStaleRates now rc then clearRates rc else rc))"

text \<open>The method \<open>Rates\<close>.\<close>

definition currentRates :: "RateConverter \<Rightarrow> Conversions" where
  "currentRates rc = (case rates rc of Some (Some r) \<Rightarrow> TableRates r | _ \<Rightarrow> ConstantRates)"

text \<open>\<open>LastUpdated\<close>, with None for Go's zero time.\<close>

definition LastUpdated :: "RateConverter \<Rightarrow> int option" where
  "LastUpdated rc = lastUpdated rc"

record converterInfo =
  source :: string
  infoLastUpdated :: "int option"
  infoRates :: "rate_table option"

definition GetInfo :: "RateConverter \<Rightarrow> converterInfo" where
  "GetInfo rc = \<lparr>source = syncSourceURL rc, infoLastUpdated = LastUpdated rc, infoRates = GetRates (currentRates rc)\<rparr>"

section \<open>The rates of an auction (exchange/exchange.go)\<close>

record ExtRequestCurrency =
  ConversionRates :: "rate_table option"
  UsePBSRates :: "bool option"

definition getAuctionCurrencyRates :: "RateConverter \<Rightarrow> ExtRequestCurrency option \<Rightarrow> Conversions" where
  "getAuctionCurrencyRates rc requestRates = (case requestRates of
     None \<Rightarrow> currentRates rc
   | Some rr \<Rightarrow>
       (let usePbsRates = (UsePBSRates rr = None \<or> UsePBSRates rr = Some True)
        in if \<not> usePbsRates then TableRates (NewRates None (ConversionRates rr))
           else if ConversionRates rr = None \<or> ConversionRates rr = Some [] then currentRates rc
           else AggregateConversions (TableRates (NewRates None (ConversionRates rr))) (currentRates rc)))"

text \<open>
  The loop of \<open>bidderAdapter.requestBid\<close> (\<open>exchange/bidder.go\<close>) that picks the first currency of
  the request the bid can be converted to: the currency and the rate, or the error of the last
  attempt. The code calls it with a non-empty list; an empty list leaves rate 0 and no error.
\<close>

fun pick_currency :: "(string \<Rightarrow> string \<Rightarrow> go_error + float64) \<Rightarrow> string \<Rightarrow> string list \<Rightarrow> go_error + (string option \<times> float64)" where
  "pick_currency getRate bidCur [] = Inr (None, Fin 0)"
| "pick_currency getRate bidCur [c] =
     (case getRate bidCur c of Inr rate \<Rightarrow> Inr (Some c, rate) | Inl e \<Rightarrow> Inl e)"
| "pick_currency getRate bidCur (c # cs) =
     (case getRate bidCur c of Inr rate \<Rightarrow> Inr (Some c, rate) | Inl e \<Rightarrow> pick_currency getRate bidCur cs)"

section \<open>What every implementation promises\<close>

text \<open>
  The contract of the \<open>Conversions\<close> interface: an unknown currency code is reported as the
  parser reports it, the first one first; a currency converts to itself at rate 1; a missing rate
  names the two canonical codes; and the answer depends on the canonical codes only. The parser
  never returns a \<open>ConversionRateNotFound\<close>, a type of this package.
\<close>

locale conversions =
  fixes parseISO :: iso_parser
    and getRate :: "string \<Rightarrow> string \<Rightarrow> go_error + float64"
  assumes bad_from: "parseISO from = Inl e \<Longrightarrow> getRate from to = Inl e"
    and bad_to: "parseISO from = Inr f \<Longrightarrow> parseISO to = Inl e \<Longrightarrow> getRate from to = Inl e"
    and same_unit: "parseISO from = Inr f \<Longrightarrow> parseISO to = Inr f \<Longrightarrow> getRate from to = Inr (Fin 1)"
    and canonical: "parseISO from = parseISO from' \<Longrightarrow> parseISO to = parseISO to' \<Longrightarrow> getRate from to = getRate from' to'"
begin

lemma rate_units_valid: "getRate from to = Inr r \<Longrightarrow> \<exists>f u. parseISO from = Inr f \<and> parseISO to = Inr u"
  using bad_from bad_to by (cases "parseISO from"; cases "parseISO to") fastforce+

lemma pick_currency_sound:
  assumes "pick_currency getRate bidCur cs = Inr (Some c, rate)"
  shows "\<exists>i < length cs. cs ! i = c \<and> getRate bidCur c = Inr rate
      \<and> (\<forall>j < i. \<exists>e. getRate bidCur (cs ! j) = Inl e)"
  using assms
proof (induction getRate bidCur cs rule: pick_currency.induct)
  case (1 getRate bidCur)
  then show ?case by simp
next
  case (2 getRate bidCur c)
  then show ?case by (auto split: sum.splits)
next
  case (3 getRate bidCur c' d ds)
  show ?case
  proof (cases "getRate bidCur c'")
    case (Inr r)
    with 3 show ?thesis by (intro exI [of _ 0]) auto
  next
    case (Inl e)
    with 3 obtain i where "i < length (d # ds)" "(d # ds) ! i = c" "getRate bidCur c = Inr rate"
      "\<forall>j < i. \<exists>e. getRate bidCur ((d # ds) ! j) = Inl e" by auto
    with Inl show ?thesis
      by (intro exI [of _ "Suc i"]) (auto simp: less_Suc_eq_0_disj)
  qed
qed

lemma pick_currency_own_first:
  "parseISO bidCur = Inr f \<Longrightarrow> parseISO c = Inr f \<Longrightarrow> pick_currency getRate bidCur (c # cs) = Inr (Some c, Fin 1)"
  using same_unit by (cases cs) auto

lemma pick_currency_unknown_bid:
  "parseISO bidCur = Inl e \<Longrightarrow> cs \<noteq> [] \<Longrightarrow> pick_currency getRate bidCur cs = Inl e"
proof (induction cs rule: induct_list012)
  case 1
  then show ?case by simp
next
  case (2 c)
  then show ?case using bad_from by simp
next
  case (3 c d ds)
  then show ?case using bad_from by simp
qed

end

interpretation const_rates: conversions parseISO "constant_GetRate parseISO" for parseISO
  by unfold_locales (auto simp: constant_GetRate_def with_units_def split: sum.splits)

interpretation table_rates: conversions parseISO "rates_GetRate parseISO r" for parseISO r
  by unfold_locales (auto simp: rates_GetRate_def with_units_def split: sum.splits)

lemma aggregate_canonical:
  assumes "conversions parseISO c" and "conversions parseISO s" and "\<And>x f u. parseISO x \<noteq> Inl (ConversionRateNotFound f u)"
  shows "conversions parseISO (aggregate_GetRate c s)"
proof -
  have eq: "c a b = c a' b'" "s a b = s a' b'"
    if "parseISO a = parseISO a'" "parseISO b = parseISO b'" for a b a' b'
    using that conversions.canonical [OF assms(1)] conversions.canonical [OF assms(2)] by blast+
  show ?thesis
  proof
    fix a b e assume "parseISO a = Inl e"
    with conversions.bad_from [OF assms(1)] assms(3) [of a] show "aggregate_GetRate c s a b = Inl e"
      by (auto simp: aggregate_GetRate_def split: go_error.splits)
  next
    fix a b f e assume "parseISO a = Inr f" "parseISO b = Inl e"
    with conversions.bad_to [OF assms(1)] assms(3) [of b] show "aggregate_GetRate c s a b = Inl e"
      by (auto simp: aggregate_GetRate_def split: go_error.splits)
  next
    fix a b f assume "parseISO a = Inr f" "parseISO b = Inr f"
    with conversions.same_unit [OF assms(1)] show "aggregate_GetRate c s a b = Inr (Fin 1)"
      by (auto simp: aggregate_GetRate_def)
  next
    fix a b a' b' assume *: "parseISO a = parseISO a'" "parseISO b = parseISO b'"
    show "aggregate_GetRate c s a b = aggregate_GetRate c s a' b'"
      unfolding aggregate_GetRate_def by (simp only: eq [OF *])
  qed
qed

lemma GetRate_conversions:
  assumes "\<And>x f u. parseISO x \<noteq> Inl (ConversionRateNotFound f u)"
  shows "conversions parseISO (GetRate parseISO c)"
proof (induction c)
  case ConstantRates
  show ?case using const_rates.conversions_axioms by simp
next
  case (TableRates r)
  show ?case using table_rates.conversions_axioms by simp
next
  case (AggregateConversions c s)
  then show ?case using aggregate_canonical assms by simp
qed

section \<open>Durations in seconds are monotone\<close>

lemma duration_seconds_nonneg:
  assumes "0 \<le> d" and "d < 2 ^ 63"
  shows "\<exists>x. fle (Fin 0) x \<and> fle x (Fin 1)
      \<and> fdiv (rnd (of_int (d mod 1000000000))) (Fin 1000000000) = x
      \<and> duration_seconds d = fadd (Fin (of_int (d div 1000000000))) x"
proof -
  let ?n = "d mod 1000000000"
  have n: "0 \<le> ?n" "?n < 1000000000" by simp_all
  have s: "0 \<le> d div 1000000000" "d div 1000000000 < 2 ^ 53"
    using assms by (simp_all add: pos_imp_zdiv_nonneg_iff)
  have rn: "rnd (of_int ?n) = Fin (of_int ?n)" using n by (intro rnd_int_exact) auto
  have rs: "rnd (of_int (d div 1000000000)) = Fin (of_int (d div 1000000000))"
    using s by (rule rnd_int_exact)
  let ?x = "rnd (of_int ?n / 1000000000)"
  have x: "fdiv (rnd (of_int ?n)) (Fin 1000000000) = ?x" by (simp add: rn)
  have "(of_int ?n :: rat) \<le> of_int 1000000000" using n(2) by (simp only: of_int_le_iff less_imp_le)
  then have le: "(of_int ?n :: rat) / 1000000000 \<le> 1" by simp
  have "fle (rnd 0) ?x" "fle ?x (rnd (of_int 1))"
    using n le by (auto intro!: rnd_mono)
  then have "fle (Fin 0) ?x" "fle ?x (Fin 1)"
    using rnd_int_exact [of 1] by (simp_all add: rnd_def)
  moreover have "duration_seconds d = fadd (Fin (of_int (d div 1000000000))) ?x"
    using assms(1) rs rn by (cases "d = 0") (simp_all add: duration_seconds_def Let_def)
  ultimately show ?thesis using x by blast
qed

text \<open>The whole seconds bound the float from both sides.\<close>

lemma duration_seconds_bounds:
  assumes "0 \<le> d" and "d < 2 ^ 63"
  shows "fle (Fin (of_int (d div 1000000000))) (duration_seconds d)"
    and "fle (duration_seconds d) (Fin (of_int (d div 1000000000 + 1)))"
proof -
  let ?s = "d div 1000000000"
  obtain x where x: "fle (Fin 0) x" "fle x (Fin 1)" and d: "duration_seconds d = fadd (Fin (of_int ?s)) x"
    using duration_seconds_nonneg [OF assms] by blast
  from x obtain q where q: "x = Fin q" "0 \<le> q" "q \<le> 1" by (cases x) auto
  have s: "0 \<le> ?s" "?s + 1 < 2 ^ 53" using assms by (simp_all add: pos_imp_zdiv_nonneg_iff)
  have "rnd (of_int ?s) = Fin (of_int ?s)" "rnd (of_int (?s + 1)) = Fin (of_int (?s + 1))"
    using s by (simp_all only: rnd_int_exact)
  moreover have "fle (rnd (of_int ?s)) (rnd (of_int ?s + q))" "fle (rnd (of_int ?s + q)) (rnd (of_int (?s + 1)))"
    using q by (auto intro!: rnd_mono)
  ultimately show "fle (Fin (of_int ?s)) (duration_seconds d)"
    "fle (duration_seconds d) (Fin (of_int (?s + 1)))"
    by (simp_all add: d q)
qed

lemma duration_seconds_mono:
  assumes "0 \<le> d" and "d \<le> e" and "e < 2 ^ 63"
  shows "fle (duration_seconds d) (duration_seconds e)"
proof (cases "d div 1000000000 = e div 1000000000")
  case True
  let ?s = "d div 1000000000"
  from assms have d63: "d < 2 ^ 63" and e0: "0 \<le> e" by simp_all
  obtain x where x: "fle (Fin 0) x" "fle x (Fin 1)"
    "fdiv (rnd (of_int (d mod 1000000000))) (Fin 1000000000) = x" "duration_seconds d = fadd (Fin (of_int ?s)) x"
    using duration_seconds_nonneg [OF assms(1) d63] by blast
  obtain y where y: "fle (Fin 0) y" "fle y (Fin 1)"
    "fdiv (rnd (of_int (e mod 1000000000))) (Fin 1000000000) = y" "duration_seconds e = fadd (Fin (of_int ?s)) y"
    using duration_seconds_nonneg [OF e0 assms(3)] True by auto
  have "d mod 1000000000 \<le> e mod 1000000000"
    using assms(2) True by (metis add_le_cancel_left mult_div_mod_eq)
  then have "fle (rnd (of_int (d mod 1000000000))) (rnd (of_int (e mod 1000000000)))"
    by (intro rnd_mono) simp
  then have "fle x y" using fdiv_mono [of 1000000000] x(3) y(3) by auto
  with x y show ?thesis by (cases x; cases y) (auto intro: rnd_mono)
next
  case False
  from assms have "d div 1000000000 \<le> e div 1000000000" by (intro zdiv_mono1) auto
  with False have "d div 1000000000 + 1 \<le> e div 1000000000" by simp
  then have "(of_int (d div 1000000000 + 1) :: rat) \<le> of_int (e div 1000000000)"
    by (simp only: of_int_le_iff)
  then have "fle (Fin (of_int (d div 1000000000 + 1))) (Fin (of_int (e div 1000000000)))"
    by (simp only: fle.simps)
  moreover have "fle (duration_seconds d) (Fin (of_int (d div 1000000000 + 1)))"
    using assms by (intro duration_seconds_bounds) auto
  moreover have "fle (Fin (of_int (e div 1000000000))) (duration_seconds e)"
    using assms by (intro duration_seconds_bounds) auto
  ultimately show ?thesis by (meson fle_trans)
qed

lemma duration_seconds_strict:
  assumes "0 \<le> d" and "d + 2000000000 \<le> e" and "e < 2 ^ 63"
  shows "flt (duration_seconds d) (duration_seconds e)"
proof -
  have "d div 1000000000 + 1 < e div 1000000000"
  proof -
    have "(d + 2 * 1000000000) div 1000000000 \<le> e div 1000000000"
      using assms by (intro zdiv_mono1) auto
    then show ?thesis by simp
  qed
  then have "(of_int (d div 1000000000 + 1) :: rat) < of_int (e div 1000000000)"
    by (simp only: of_int_less_iff)
  then have "flt (Fin (of_int (d div 1000000000 + 1))) (Fin (of_int (e div 1000000000)))"
    by (simp only: flt.simps)
  moreover have "fle (duration_seconds d) (Fin (of_int (d div 1000000000 + 1)))"
    using assms by (intro duration_seconds_bounds) auto
  moreover have "fle (Fin (of_int (e div 1000000000))) (duration_seconds e)"
    using assms by (intro duration_seconds_bounds) auto
  ultimately show ?thesis by (meson fle_flt_trans flt_fle_trans)
qed

section \<open>The life of a rate converter\<close>

text \<open>
  The states a converter reaches by refreshing at arbitrary times with arbitrary HTTP outcomes,
  together with the time and the result of the last successful refresh.
\<close>

inductive refreshed :: "string \<Rightarrow> int \<Rightarrow> (int \<times> Rates) option \<Rightarrow> RateConverter \<Rightarrow> bool"
  for url :: string and threshold :: int where
  start: "refreshed url threshold None (NewRateConverter url threshold)"
| success: "refreshed url threshold h rc \<Longrightarrow> fetch http = Inr r \<Longrightarrow>
     refreshed url threshold (Some (now, r)) (snd (update now http rc))"
| failure: "refreshed url threshold h rc \<Longrightarrow> fetch http = Inl e \<Longrightarrow>
     refreshed url threshold h (snd (update now http rc))"

lemma update_threshold [simp]: "staleRatesThreshold (snd (update now http rc)) = staleRatesThreshold rc"
  by (simp add: update_def clearRates_def split: sum.splits)

lemma refreshed_threshold: "refreshed url threshold h rc \<Longrightarrow> staleRatesThreshold rc = threshold"
  by (induction rule: refreshed.induct) (simp_all add: NewRateConverter_def)

lemma update_failure:
  "fetch http = Inl e \<Longrightarrow> update now http rc = (Some e, if checkStaleRates now rc then clearRates rc else rc)"
  by (simp add: update_def)

text \<open>
  A rate converter never invents rates. In every state it can reach, it offers the table
  of the last successful refresh or the constant rates; it offers constant rates as long as no
  refresh succeeded; with a threshold of zero or less it keeps the last table whatever fails
  later; and it reports the time of the last success.
\<close>

theorem refreshed_rates:
  assumes "refreshed url threshold h rc"
  shows "case h of
      None \<Rightarrow> currentRates rc = ConstantRates \<and> LastUpdated rc = None
    | Some (t, r) \<Rightarrow> LastUpdated rc = Some t
        \<and> (currentRates rc = TableRates r \<or> 0 < threshold \<and> currentRates rc = ConstantRates)"
  using assms
proof (induction rule: refreshed.induct)
  case start
  show ?case by (simp add: currentRates_def LastUpdated_def NewRateConverter_def)
next
  case (success h rc http r now)
  then show ?case by (simp add: update_def currentRates_def LastUpdated_def)
next
  case (failure h rc http e now)
  have th: "staleRatesThreshold rc = threshold" using failure.hyps(1) by (rule refreshed_threshold)
  show ?case
  proof (cases "checkStaleRates now rc")
    case True
    then have "0 < threshold" by (auto simp: checkStaleRates_def th split: if_splits)
    with True failure.IH failure.hyps(2) show ?thesis
      by (auto simp: update_failure clearRates_def currentRates_def LastUpdated_def split: option.splits)
  next
    case False
    then have "snd (update now http rc) = rc" using failure.hyps(2) by (simp add: update_failure)
    with failure.IH show ?thesis by (simp only:)
  qed
qed

definition usd_eur :: rate_table where
  "usd_eur = [(''USD'', [(''EUR'', Fin (1 / 2))])]"

definition example_rates_json :: json where
  "example_rates_json = JObj [(''dataAsOf'', JStr ''2021-06-30''),
     (''conversions'', JObj [(''USD'', JObj [(''EUR'', JDec (1 / 2))])])]"

lemma example_fetch:
  "fetch (HttpResponse 200 (Inr (Raw example_rates_json))) =
     Inr \<lparr>DataAsOf = Some (2021, 6, 30), RateConversions = Some usd_eur\<rparr>"
  by code_simp

theorem refreshed_rates_witness:
  "\<exists>rc. refreshed ''u'' 10 (Some (5, \<lparr>DataAsOf = Some (2021, 6, 30), RateConversions = Some usd_eur\<rparr>)) rc
     \<and> LastUpdated rc = Some 5"
proof -
  note r = refreshed.success [OF refreshed.start [of "''u''" 10] example_fetch, of 5]
  with refreshed_rates [OF r] show ?thesis by auto
qed

text \<open>
  Staleness. When a refresh fails, the table is dropped only if the configured threshold is
  positive and more than that time has passed since the last success; and once two seconds more
  have passed it is dropped. Times count in nanoseconds, the comparison is made by the code on
  floating-point seconds.
\<close>

theorem stale_rates_dropped:
  assumes "fetch http = Inl e" and "lastUpdated rc = Some t"
    and "is_int64 (staleRatesThreshold rc)" and "t \<le> now"
  shows "(staleRatesThreshold rc \<le> 0 \<or> now - t \<le> staleRatesThreshold rc \<longrightarrow>
            currentRates (snd (update now http rc)) = currentRates rc)
    \<and> (0 < staleRatesThreshold rc \<and> staleRatesThreshold rc + 2000000000 \<le> time_sub now t \<longrightarrow>
            currentRates (snd (update now http rc)) = ConstantRates)"
proof -
  let ?th = "staleRatesThreshold rc"
  let ?d = "time_sub now t"
  have d: "0 \<le> ?d" "?d < 2 ^ 63" using assms(4) by (auto simp: time_sub_def)
  have th: "?th < 2 ^ 63" using assms(3) by (simp add: is_int64_def)
  have keep: "\<not> checkStaleRates now rc" if "?th \<le> 0 \<or> now - t \<le> ?th"
  proof -
    have "?d \<le> now - t" using assms(4) by (simp add: time_sub_def)
    with that consider "?th \<le> 0" | "0 < ?th" "?d \<le> ?th" by linarith
    then show ?thesis
    proof cases
      case 1
      then show ?thesis by (simp add: checkStaleRates_def)
    next
      case 2
      with duration_seconds_mono [of ?d ?th] d th have "fle (duration_seconds ?d) (duration_seconds ?th)" by simp
      then have "\<not> flt (duration_seconds ?th) (duration_seconds ?d)"
        by (meson fle_flt_trans flt_irrefl)
      with 2 assms(2) show ?thesis by (simp add: checkStaleRates_def)
    qed
  qed
  have drop: "checkStaleRates now rc" if "0 < ?th" "?th + 2000000000 \<le> ?d"
    using duration_seconds_strict [of ?th ?d] that d assms(2) by (simp add: checkStaleRates_def)
  show ?thesis
    using keep drop by (auto simp: update_failure [OF assms(1)] clearRates_def currentRates_def)
qed

definition example_converter :: RateConverter where
  "example_converter = \<lparr>staleRatesThreshold = 1000000000, syncSourceURL = ''u'',
     rates = Some (Some \<lparr>DataAsOf = None, RateConversions = Some usd_eur\<rparr>), lastUpdated = Some 0\<rparr>"

theorem stale_rates_dropped_witness:
  "currentRates (snd (update 1000000000 (HttpResponse 500 (Inr RawEmpty)) example_converter)) =
     TableRates \<lparr>DataAsOf = None, RateConversions = Some usd_eur\<rparr>
   \<and> currentRates (snd (update 3000000000 (HttpResponse 500 (Inr RawEmpty)) example_converter)) = ConstantRates"
proof -
  have f: "fetch (HttpResponse 500 (Inr RawEmpty)) =
      Inl (BadServerResponse (''The currency rates request failed with status code '' @ itoa 500))"
    by (simp add: fetch_def)
  have c: "lastUpdated example_converter = Some 0" "staleRatesThreshold example_converter = 1000000000"
    "is_int64 (staleRatesThreshold example_converter)"
    "currentRates example_converter = TableRates \<lparr>DataAsOf = None, RateConversions = Some usd_eur\<rparr>"
    by (simp_all add: example_converter_def is_int64_def currentRates_def)
  from stale_rates_dropped [OF f c(1) c(3), of 1000000000] stale_rates_dropped [OF f c(1) c(3), of 3000000000]
  show ?thesis by (simp add: c(2,4) time_sub_def)
qed

text \<open>
  C36. The rates of an auction. For two different known currencies and a request with custom
  rates: a custom rate wins, then the reciprocal of the custom rate of the opposite direction;
  only when neither is there are the server's rates asked, and not even then if the request
  turned them off.
\<close>

theorem auction_rate_priority:
  assumes "parseISO a = Inr f" and "parseISO b = Inr u" and "f \<noteq> u" and "t \<noteq> []"
  shows "GetRate parseISO (getAuctionCurrencyRates rc (Some \<lparr>ConversionRates = Some t, UsePBSRates = use\<rparr>)) a b =
    (case table_rate t f u of
       Some r \<Rightarrow> Inr r
     | None \<Rightarrow> (case table_rate t u f of
         Some r \<Rightarrow> Inr (fdiv (Fin 1) r)
       | None \<Rightarrow> if use = Some False then Inl (ConversionRateNotFound f u)
                 else GetRate parseISO (currentRates rc) a b))"
proof -
  have custom: "rates_GetRate parseISO (NewRates None (Some t)) a b =
      (case table_rate t f u of Some r \<Rightarrow> Inr r
       | None \<Rightarrow> (case table_rate t u f of Some r \<Rightarrow> Inr (fdiv (Fin 1) r)
         | None \<Rightarrow> Inl (ConversionRateNotFound f u)))"
    using assms by (simp add: rates_GetRate_def with_units_def NewRates_def)
  show ?thesis
  proof (cases "use = Some False")
    case True
    then show ?thesis by (simp add: getAuctionCurrencyRates_def custom)
  next
    case False
    then have u: "use = None \<or> use = Some True" by (cases use) auto
    then have "getAuctionCurrencyRates rc (Some \<lparr>ConversionRates = Some t, UsePBSRates = use\<rparr>) =
        AggregateConversions (TableRates (NewRates None (Some t))) (currentRates rc)"
      using assms(4) by (auto simp: getAuctionCurrencyRates_def)
    with False show ?thesis by (simp add: aggregate_GetRate_def custom split: option.splits)
  qed
qed

definition upper_iso :: iso_parser where
  "upper_iso s = (if length s = 3 then Inr (to_upper s) else Inl (OtherError ''currency: tag is not well-formed''))"

theorem auction_rate_priority_witness:
  "GetRate upper_iso (getAuctionCurrencyRates example_converter
      (Some \<lparr>ConversionRates = Some usd_eur, UsePBSRates = Some False\<rparr>)) ''eur'' ''USD'' = Inr (Fin 2)"
proof -
  have i: "upper_iso ''eur'' = Inr ''EUR''" "upper_iso ''USD'' = Inr ''USD''" by code_simp+
  have t: "table_rate usd_eur ''EUR'' ''USD'' = None" "table_rate usd_eur ''USD'' ''EUR'' = Some (Fin (1 / 2))"
    "usd_eur \<noteq> []" "fdiv (Fin 1) (Fin (1 / 2)) = Fin 2"
    by code_simp+
  show ?thesis
    using auction_rate_priority [OF i _ t(3), of example_converter "Some False"] t by simp
qed

text \<open>
  Currency of a seat. When the loop over the currencies of the request succeeds, the seat
  gets a currency of the request, the first one the bid currency converts to, whatever
  implementation of the rates is in use; a bid in a currency equal to the first one of the
  request is taken at rate 1; and a bid in an unknown currency fails with the parser's error.
\<close>

theorem seat_currency_choice:
  assumes "\<And>x f u. parseISO x \<noteq> Inl (ConversionRateNotFound f u)"
  shows "(\<forall>c rate. pick_currency (GetRate parseISO conv) bidCur cs = Inr (Some c, rate) \<longrightarrow>
      (\<exists>i < length cs. cs ! i = c \<and> GetRate parseISO conv bidCur c = Inr rate
        \<and> (\<forall>j < i. \<exists>e. GetRate parseISO conv bidCur (cs ! j) = Inl e)))
    \<and> (\<forall>f. parseISO bidCur = Inr f \<longrightarrow> cs \<noteq> [] \<longrightarrow> parseISO (hd cs) = Inr f \<longrightarrow>
      pick_currency (GetRate parseISO conv) bidCur cs = Inr (Some (hd cs), Fin 1))
    \<and> (\<forall>e. parseISO bidCur = Inl e \<longrightarrow> cs \<noteq> [] \<longrightarrow>
      pick_currency (GetRate parseISO conv) bidCur cs = Inl e)"
proof -
  have conv: "conversions parseISO (GetRate parseISO conv)"
    using assms by (rule GetRate_conversions)
  show ?thesis
    using conversions.pick_currency_own_first [OF conv, of bidCur _ "hd cs" "tl cs"]
    by (intro conjI allI impI conversions.pick_currency_sound [OF conv]
        conversions.pick_currency_unknown_bid [OF conv]) simp_all
qed

theorem seat_currency_choice_witness:
  "pick_currency (GetRate upper_iso (TableRates \<lparr>DataAsOf = None, RateConversions = Some usd_eur\<rparr>)) ''EUR'' [''GBP'', ''USD'']
     = Inr (Some ''USD'', Fin 2)
   \<and> (\<exists>i < length [''GBP'', ''USD'']. [''GBP'', ''USD''] ! i = ''USD'')"
proof -
  have no: "upper_iso x \<noteq> Inl (ConversionRateNotFound f u)" for x f u
    by (simp add: upper_iso_def)
  have p: "pick_currency (GetRate upper_iso (TableRates \<lparr>DataAsOf = None, RateConversions = Some usd_eur\<rparr>)) ''EUR'' [''GBP'', ''USD'']
     = Inr (Some ''USD'', Fin 2)" by code_simp
  from seat_currency_choice [where parseISO = upper_iso, OF no] p show ?thesis by blast
qed

end
