(* ===== verification/Request_Ext.thy ===== *)
theory Request_Ext
  imports OpenRTB Price_Granularity Currency
begin

text \<open>
  The server's own fields of a bid request: the structs of \<open>openrtb_ext/request.go\<close>,
  \<open>regs.go\<close> and \<open>user.go\<close> and their JSON decoders, with the two custom decoders for
  \<open>prebid.cache\<close> and \<open>prebid.targeting\<close>. A nil slice or map is the empty list.
\<close>

section \<open>Supply chains\<close>

record SChainNode =
  sn_ASI :: string
  sn_SID :: string
  sn_RID :: string
  sn_Name :: string
  sn_Domain :: string
  sn_HP :: int
  sn_Ext :: raw

record SChain =
  sc_Complete :: int
  sc_Nodes :: "SChainNode option list"
  sc_Ver :: string
  sc_Ext :: raw

record PrebidSChain =
  ps_Bidders :: "string list"
  ps_SChain :: SChain

definition zeroSChainNode :: SChainNode where
  "zeroSChainNode = \<lparr>sn_ASI = [], sn_SID = [], sn_RID = [], sn_Name = [], sn_Domain = [], sn_HP = 0, sn_Ext = RawEmpty\<rparr>"

definition zeroSChain :: SChain where
  "zeroSChain = \<lparr>sc_Complete = 0, sc_Nodes = [], sc_Ver = [], sc_Ext = RawEmpty\<rparr>"

definition zeroPrebidSChain :: PrebidSChain where
  "zeroPrebidSChain = \<lparr>ps_Bidders = [], ps_SChain = zeroSChain\<rparr>"

definition dec_SChainNode :: "SChainNode decoder" where
  "dec_SChainNode = dec_struct
     [field ''asi'' dec_string sn_ASI (\<lambda>v r. r\<lparr>sn_ASI := v\<rparr>),
      field ''sid'' dec_string sn_SID (\<lambda>v r. r\<lparr>sn_SID := v\<rparr>),
      field ''rid'' dec_string sn_RID (\<lambda>v r. r\<lparr>sn_RID := v\<rparr>),
      field ''name'' dec_string sn_Name (\<lambda>v r. r\<lparr>sn_Name := v\<rparr>),
      field ''domain'' dec_string sn_Domain (\<lambda>v r. r\<lparr>sn_Domain := v\<rparr>),
      field ''hp'' dec_int sn_HP (\<lambda>v r. r\<lparr>sn_HP := v\<rparr>),
      field ''ext'' dec_raw sn_Ext (\<lambda>v r. r\<lparr>sn_Ext := v\<rparr>)]"

definition dec_SChain :: "SChain decoder" where
  "dec_SChain = dec_struct
     [field ''complete'' dec_int sc_Complete (\<lambda>v r. r\<lparr>sc_Complete := v\<rparr>),
      field ''nodes'' (dec_list (dec_ptr dec_SChainNode zeroSChainNode) None) sc_Nodes (\<lambda>v r. r\<lparr>sc_Nodes := v\<rparr>),
      field ''ver'' dec_string sc_Ver (\<lambda>v r. r\<lparr>sc_Ver := v\<rparr>),
      field ''ext'' dec_raw sc_Ext (\<lambda>v r. r\<lparr>sc_Ext := v\<rparr>)]"

definition dec_PrebidSChain :: "PrebidSChain decoder" where
  "dec_PrebidSChain = dec_struct
     [field ''bidders'' (dec_list dec_string []) ps_Bidders (\<lambda>v r. r\<lparr>ps_Bidders := v\<rparr>),
      field ''schain'' dec_SChain ps_SChain (\<lambda>v r. r\<lparr>ps_SChain := v\<rparr>)]"

section \<open>Cache and targeting\<close>

text \<open>The one field \<open>returnCreative\<close> of \<open>cache.bids\<close> and of \<open>cache.vastxml\<close>.\<close>

record CacheItem =
  ci_ReturnCreative :: "bool option"

record PrebidCache =
  pc_Bids :: "CacheItem option"
  pc_VastXML :: "CacheItem option"

definition dec_CacheItem :: "CacheItem decoder" where
  "dec_CacheItem = dec_struct
     [field ''returnCreative'' (dec_ptr dec_bool False) ci_ReturnCreative (\<lambda>v r. r\<lparr>ci_ReturnCreative := v\<rparr>)]"

definition dec_PrebidCache :: "PrebidCache decoder" where
  "dec_PrebidCache j old =
     (case dec_struct
        [field ''bids'' (dec_ptr dec_CacheItem \<lparr>ci_ReturnCreative = None\<rparr>) pc_Bids (\<lambda>v r. r\<lparr>pc_Bids := v\<rparr>),
         field ''vastxml'' (dec_ptr dec_CacheItem \<lparr>ci_ReturnCreative = None\<rparr>) pc_VastXML (\<lambda>v r. r\<lparr>pc_VastXML := v\<rparr>)]
        j \<lparr>pc_Bids = None, pc_VastXML = None\<rparr> of
        None \<Rightarrow> None
      | Some proxy \<Rightarrow> if pc_Bids proxy = None \<and> pc_VastXML proxy = None then None else Some proxy)"

record IncludeBrandCategory =
  ibc_PrimaryAdServer :: int
  ibc_Publisher :: string
  ibc_WithCategory :: bool
  ibc_TranslateCategories :: "bool option"

record Targeting =
  tg_PriceGranularity :: PriceGranularity
  tg_IncludeWinners :: bool
  tg_IncludeBidderKeys :: bool
  tg_IncludeBrandCategory :: "IncludeBrandCategory option"
  tg_IncludeFormat :: bool
  tg_DurationRangeSec :: "int list"
  tg_PreferDeals :: bool
  tg_AppendBidderNames :: bool

definition zeroBrandCategory :: IncludeBrandCategory where
  "zeroBrandCategory = \<lparr>ibc_PrimaryAdServer = 0, ibc_Publisher = [], ibc_WithCategory = False, ibc_TranslateCategories = None\<rparr>"

definition dec_IncludeBrandCategory :: "IncludeBrandCategory decoder" where
  "dec_IncludeBrandCategory = dec_struct
     [field ''primaryadserver'' dec_int ibc_PrimaryAdServer (\<lambda>v r. r\<lparr>ibc_PrimaryAdServer := v\<rparr>),
      field ''publisher'' dec_string ibc_Publisher (\<lambda>v r. r\<lparr>ibc_Publisher := v\<rparr>),
      field ''withcategory'' dec_bool ibc_WithCategory (\<lambda>v r. r\<lparr>ibc_WithCategory := v\<rparr>),
      field ''translatecategories'' (dec_ptr dec_bool False) ibc_TranslateCategories (\<lambda>v r. r\<lparr>ibc_TranslateCategories := v\<rparr>)]"

definition dec_PriceGranularity :: "PriceGranularity decoder" where
  "dec_PriceGranularity j old = (case UnmarshalPriceGranularity (Raw j) of Inl e \<Rightarrow> None | Inr pg \<Rightarrow> Some pg)"

definition zeroTargeting :: Targeting where
  "zeroTargeting = \<lparr>tg_PriceGranularity = \<lparr>Precision = 0, Ranges = []\<rparr>, tg_IncludeWinners = False,
     tg_IncludeBidderKeys = False, tg_IncludeBrandCategory = None, tg_IncludeFormat = False,
     tg_DurationRangeSec = [], tg_PreferDeals = False, tg_AppendBidderNames = False\<rparr>"

definition targetingDefaults :: Targeting where
  "targetingDefaults = zeroTargeting\<lparr>tg_PriceGranularity := priceGranularityMed, tg_IncludeWinners := True,
     tg_IncludeBidderKeys := True\<rparr>"

definition dec_TargetingFields :: "Targeting decoder" where
  "dec_TargetingFields = dec_struct
     [field ''pricegranularity'' dec_PriceGranularity tg_PriceGranularity (\<lambda>v r. r\<lparr>tg_PriceGranularity := v\<rparr>),
      field ''includewinners'' dec_bool tg_IncludeWinners (\<lambda>v r. r\<lparr>tg_IncludeWinners := v\<rparr>),
      field ''includebidderkeys'' dec_bool tg_IncludeBidderKeys (\<lambda>v r. r\<lparr>tg_IncludeBidderKeys := v\<rparr>),
      field ''includebrandcategory'' (dec_ptr dec_IncludeBrandCategory zeroBrandCategory) tg_IncludeBrandCategory
        (\<lambda>v r. r\<lparr>tg_IncludeBrandCategory := v\<rparr>),
      field ''includeformat'' dec_bool tg_IncludeFormat (\<lambda>v r. r\<lparr>tg_IncludeFormat := v\<rparr>),
      field ''durationrangesec'' (dec_list dec_int 0) tg_DurationRangeSec (\<lambda>v r. r\<lparr>tg_DurationRangeSec := v\<rparr>),
      field ''preferdeals'' dec_bool tg_PreferDeals (\<lambda>v r. r\<lparr>tg_PreferDeals := v\<rparr>),
      field ''appendbiddernames'' dec_bool tg_AppendBidderNames (\<lambda>v r. r\<lparr>tg_AppendBidderNames := v\<rparr>)]"

definition UnmarshalTargeting :: "Targeting decoder" where
  "UnmarshalTargeting j old =
     (if j = JNull then Some old
      else (case dec_TargetingFields j targetingDefaults of
              None \<Rightarrow> None
            | Some t \<Rightarrow> if \<not> tg_IncludeWinners t \<and> \<not> tg_IncludeBidderKeys t then None else Some t))"

section \<open>The extension of the request\<close>

record EidPermission =
  ep_Source :: string
  ep_Bidders :: "string list"

definition dec_EidPermission :: "EidPermission decoder" where
  "dec_EidPermission = dec_struct
     [field ''source'' dec_string ep_Source (\<lambda>v r. r\<lparr>ep_Source := v\<rparr>),
      field ''bidders'' (dec_list dec_string []) ep_Bidders (\<lambda>v r. r\<lparr>ep_Bidders := v\<rparr>)]"

text \<open>\<open>prebid.data\<close> holds only the list of eid permissions, \<open>prebid.storedrequest\<close> only an id.\<close>

definition dec_PrebidData :: "EidPermission list decoder" where
  "dec_PrebidData = dec_struct
     [field ''eidpermissions'' (dec_list dec_EidPermission \<lparr>ep_Source = [], ep_Bidders = []\<rparr>) (\<lambda>r. r) (\<lambda>v r. v)]"

definition dec_StoredRequest :: "string decoder" where
  "dec_StoredRequest = dec_struct [field ''id'' dec_string (\<lambda>r. r) (\<lambda>v r. v)]"

definition dec_ExtRequestCurrency :: "ExtRequestCurrency decoder" where
  "dec_ExtRequestCurrency = dec_struct
     [field ''rates'' dec_table ConversionRates (\<lambda>v r. r\<lparr>ConversionRates := v\<rparr>),
      field ''usepbsrates'' (dec_ptr dec_bool False) UsePBSRates (\<lambda>v r. r\<lparr>UsePBSRates := v\<rparr>)]"

record ExtRequestPrebid =
  xp_Aliases :: "(string, string) gomap"
  xp_BidAdjustmentFactors :: "(string, float64) gomap"
  xp_Cache :: "PrebidCache option"
  xp_Data :: "EidPermission list option"
  xp_Debug :: bool
  xp_Events :: raw
  xp_SChains :: "PrebidSChain option list"
  xp_StoredRequest :: "string option"
  xp_SupportDeals :: bool
  xp_Targeting :: "Targeting option"
  xp_NoSale :: "string list"
  xp_CurrencyConversions :: "ExtRequestCurrency option"

definition zeroPrebid :: ExtRequestPrebid where
  "zeroPrebid = \<lparr>xp_Aliases = [], xp_BidAdjustmentFactors = [], xp_Cache = None, xp_Data = None,
     xp_Debug = False, xp_Events = RawEmpty, xp_SChains = [], xp_StoredRequest = None,
     xp_SupportDeals = False, xp_Targeting = None, xp_NoSale = [], xp_CurrencyConversions = None\<rparr>"

definition dec_ExtRequestPrebid :: "ExtRequestPrebid decoder" where
  "dec_ExtRequestPrebid = dec_struct
     [field ''aliases'' (dec_map dec_string []) xp_Aliases (\<lambda>v r. r\<lparr>xp_Aliases := v\<rparr>),
      field ''bidadjustmentfactors'' (dec_map dec_float (Fin 0)) xp_BidAdjustmentFactors (\<lambda>v r. r\<lparr>xp_BidAdjustmentFactors := v\<rparr>),
      field ''cache'' (dec_ptr dec_PrebidCache \<lparr>pc_Bids = None, pc_VastXML = None\<rparr>) xp_Cache (\<lambda>v r. r\<lparr>xp_Cache := v\<rparr>),
      field ''data'' (dec_ptr dec_PrebidData []) xp_Data (\<lambda>v r. r\<lparr>xp_Data := v\<rparr>),
      field ''debug'' dec_bool xp_Debug (\<lambda>v r. r\<lparr>xp_Debug := v\<rparr>),
      field ''events'' dec_raw xp_Events (\<lambda>v r. r\<lparr>xp_Events := v\<rparr>),
      field ''schains'' (dec_list (dec_ptr dec_PrebidSChain zeroPrebidSChain) None) xp_SChains (\<lambda>v r. r\<lparr>xp_SChains := v\<rparr>),
      field ''storedrequest'' (dec_ptr dec_StoredRequest []) xp_StoredRequest (\<lambda>v r. r\<lparr>xp_StoredRequest := v\<rparr>),
      field ''supportdeals'' dec_bool xp_SupportDeals (\<lambda>v r. r\<lparr>xp_SupportDeals := v\<rparr>),
      field ''targeting'' (dec_ptr UnmarshalTargeting zeroTargeting) xp_Targeting (\<lambda>v r. r\<lparr>xp_Targeting := v\<rparr>),
      field ''nosale'' (dec_list dec_string []) xp_NoSale (\<lambda>v r. r\<lparr>xp_NoSale := v\<rparr>),
      field ''currency'' (dec_ptr dec_ExtRequestCurrency \<lparr>ConversionRates = None, UsePBSRates = None\<rparr>)
        xp_CurrencyConversions (\<lambda>v r. r\<lparr>xp_CurrencyConversions := v\<rparr>)]"

text \<open>\<open>ExtRequest\<close> has the one field \<open>prebid\<close>.\<close>

definition dec_ExtRequest :: "ExtRequestPrebid decoder" where
  "dec_ExtRequest = dec_struct [field ''prebid'' dec_ExtRequestPrebid (\<lambda>r. r) (\<lambda>v r. v)]"

section \<open>The extensions of regs and user\<close>

record ExtRegs =
  er_GDPR :: "int option"
  er_USPrivacy :: string

definition dec_ExtRegs :: "ExtRegs decoder" where
  "dec_ExtRegs = dec_struct
     [field ''gdpr'' (dec_ptr dec_int8 0) er_GDPR (\<lambda>v r. r\<lparr>er_GDPR := v\<rparr>),
      field ''us_privacy'' dec_string er_USPrivacy (\<lambda>v r. r\<lparr>er_USPrivacy := v\<rparr>)]"

definition zeroRegs :: ExtRegs where
  "zeroRegs = \<lparr>er_GDPR = None, er_USPrivacy = []\<rparr>"

record Eid =
  eid_Source :: string
  eid_ID :: string
  eid_Uids :: "(string \<times> int \<times> raw) list"
  eid_Ext :: raw

record ExtUser =
  eu_Consent :: string
  eu_Prebid :: "(string, string) gomap option"
  eu_DigiTrust :: "(string \<times> int \<times> int) option"
  eu_Eids :: "Eid list"

definition zeroEid :: Eid where
  "zeroEid = \<lparr>eid_Source = [], eid_ID = [], eid_Uids = [], eid_Ext = RawEmpty\<rparr>"

definition zeroExtUser :: ExtUser where
  "zeroExtUser = \<lparr>eu_Consent = [], eu_Prebid = None, eu_DigiTrust = None, eu_Eids = []\<rparr>"

definition dec_Uid :: "(string \<times> int \<times> raw) decoder" where
  "dec_Uid = dec_struct
     [field ''id'' dec_string fst (\<lambda>v r. (v, snd r)),
      field ''atype'' dec_int (\<lambda>r. fst (snd r)) (\<lambda>v r. (fst r, v, snd (snd r))),
      field ''ext'' dec_raw (\<lambda>r. snd (snd r)) (\<lambda>v r. (fst r, fst (snd r), v))]"

definition dec_Eid :: "Eid decoder" where
  "dec_Eid = dec_struct
     [field ''source'' dec_string eid_Source (\<lambda>v r. r\<lparr>eid_Source := v\<rparr>),
      field ''id'' dec_string eid_ID (\<lambda>v r. r\<lparr>eid_ID := v\<rparr>),
      field ''uids'' (dec_list dec_Uid ([], 0, RawEmpty)) eid_Uids (\<lambda>v r. r\<lparr>eid_Uids := v\<rparr>),
      field ''ext'' dec_raw eid_Ext (\<lambda>v r. r\<lparr>eid_Ext := v\<rparr>)]"

definition dec_DigiTrust :: "(string \<times> int \<times> int) decoder" where
  "dec_DigiTrust = dec_struct
     [field ''id'' dec_string fst (\<lambda>v r. (v, snd r)),
      field ''keyv'' dec_int (\<lambda>r. fst (snd r)) (\<lambda>v r. (fst r, v, snd (snd r))),
      field ''pref'' dec_int (\<lambda>r. snd (snd r)) (\<lambda>v r. (fst r, fst (snd r), v))]"

definition dec_UserPrebid :: "(string, string) gomap decoder" where
  "dec_UserPrebid = dec_struct [field ''buyeruids'' (dec_map dec_string []) (\<lambda>r. r) (\<lambda>v r. v)]"

definition dec_ExtUser :: "ExtUser decoder" where
  "dec_ExtUser = dec_struct
     [field ''consent'' dec_string eu_Consent (\<lambda>v r. r\<lparr>eu_Consent := v\<rparr>),
      field ''prebid'' (dec_ptr dec_UserPrebid []) eu_Prebid (\<lambda>v r. r\<lparr>eu_Prebid := v\<rparr>),
      field ''digitrust'' (dec_ptr dec_DigiTrust ([], 0, 0)) eu_DigiTrust (\<lambda>v r. r\<lparr>eu_DigiTrust := v\<rparr>),
      field ''eids'' (dec_list dec_Eid zeroEid) eu_Eids (\<lambda>v r. r\<lparr>eu_Eids := v\<rparr>)]"

section \<open>What the decoders guarantee\<close>

definition usable_targeting :: "Targeting \<Rightarrow> bool" where
  "usable_targeting t =
     (wf_granularity (tg_PriceGranularity t) \<and> (tg_IncludeWinners t \<or> tg_IncludeBidderKeys t))"

definition usable_cache :: "PrebidCache \<Rightarrow> bool" where
  "usable_cache c = (pc_Bids c \<noteq> None \<or> pc_VastXML c \<noteq> None)"

definition wf_prebid :: "ExtRequestPrebid \<Rightarrow> bool" where
  "wf_prebid p =
     ((\<forall>t. xp_Targeting p = Some t \<longrightarrow> usable_targeting t) \<and>
      (\<forall>c. xp_Cache p = Some c \<longrightarrow> usable_cache c) \<and>
      wf_map (xp_Aliases p) \<and> wf_map (xp_BidAdjustmentFactors p))"

lemma dec_struct_invariant:
  assumes "dec_struct fs j old = Some r" and "P old"
    and "\<And>f kvs s s'. f \<in> set fs \<Longrightarrow> P s \<Longrightarrow> f kvs s = Some s' \<Longrightarrow> P s'"
  shows "P r"
  using assms unfolding dec_struct_def
  by (cases j) (auto intro: fold_opt_invariant [of _ fs old r P])

lemma dec_TargetingFields_granularity:
  assumes "dec_TargetingFields j old = Some t" and "wf_granularity (tg_PriceGranularity old)"
  shows "wf_granularity (tg_PriceGranularity t)"
  using assms unfolding dec_TargetingFields_def
  by (rule dec_struct_invariant [where P = "\<lambda>t. wf_granularity (tg_PriceGranularity t)"])
     (auto simp: field_Some dec_field_def dec_PriceGranularity_def
           split: option.splits sum.splits dest: UnmarshalPriceGranularity_wf)

lemma UnmarshalTargeting_usable:
  assumes "UnmarshalTargeting j old = Some t" and "j \<noteq> JNull"
  shows "usable_targeting t"
  using assms standard_granularities_wf dec_TargetingFields_granularity [of j targetingDefaults t]
  by (auto simp: UnmarshalTargeting_def usable_targeting_def targetingDefaults_def
           split: option.splits if_splits)

lemma dec_PrebidCache_usable: "dec_PrebidCache j old = Some c \<Longrightarrow> usable_cache c"
  by (auto simp: dec_PrebidCache_def usable_cache_def split: option.splits if_splits)

lemma dec_ptr_Some: "dec_ptr d z j old = Some (Some x) \<Longrightarrow> j \<noteq> JNull \<and> d j z = Some x"
  by (auto simp: dec_ptr_def split: if_splits)

lemma dec_field_ptr:
  assumes "dec_field k (dec_ptr d z) kvs old = Some (Some x)"
  shows "old = Some x \<or> (\<exists>j. j \<noteq> JNull \<and> d j z = Some x)"
  using assms by (auto simp: dec_field_def dest: dec_ptr_Some split: option.splits)

lemma dec_field_map_wf: "dec_field k (dec_map d z) kvs m = Some m' \<Longrightarrow> wf_map m \<Longrightarrow> wf_map m'"
  by (auto simp: dec_field_def dest: dec_map_wf split: option.splits)

lemma dec_ExtRequestPrebid_wf:
  assumes "dec_ExtRequestPrebid j old = Some p" and "wf_prebid old"
  shows "wf_prebid p"
  using assms unfolding dec_ExtRequestPrebid_def
  by (rule dec_struct_invariant)
     (auto simp: wf_prebid_def field_Some dest!: dec_field_ptr dec_field_map_wf,
      erule dec_PrebidCache_usable, erule (1) UnmarshalTargeting_usable)

text \<open>
  C38. Whatever \<open>request.ext\<close> the decoder accepts, its targeting is usable: the price granularity has a
  precision of 0 to 15, at least one range, ranges chained without a gap from 0 with increasing ends
  and positive increments, and winners or bidder keys are included. A cache instruction asks for at
  least one of bids and VAST, and the maps of aliases and of bid adjustment factors have one entry
  per name.
\<close>

theorem ext_request_wf:
  assumes "unmarshal dec_ExtRequest r zeroPrebid = Some p"
  shows "wf_prebid p"
proof -
  have z: "wf_prebid zeroPrebid" by (simp add: wf_prebid_def zeroPrebid_def)
  from assms obtain j where j: "dec_ExtRequest j zeroPrebid = Some p"
    by (auto simp: unmarshal_def split: raw.splits)
  have "field ''prebid'' dec_ExtRequestPrebid (\<lambda>r. r) (\<lambda>v r. v) kvs s = Some s' \<Longrightarrow> wf_prebid s \<Longrightarrow> wf_prebid s'"
    for kvs s s'
    by (auto simp: field_Some dec_field_def split: option.splits intro: dec_ExtRequestPrebid_wf)
  with j z show ?thesis
    unfolding dec_ExtRequest_def by (elim dec_struct_invariant [where P = wf_prebid]) auto
qed

definition example_ext :: json where
  "example_ext = JObj [(''prebid'', JObj
     [(''aliases'', JObj [(''districtm'', JStr ''appnexus'')]),
      (''targeting'', JObj [(''includewinners'', JBool False),
         (''pricegranularity'', JObj [(''precision'', JInt 3),
            (''ranges'', JArr [JObj [(''max'', JInt 2), (''increment'', JDec (1 / 4))],
                               JObj [(''max'', JInt 9), (''min'', JInt 7), (''increment'', JInt 1)]])])])])]"

definition example_prebid :: ExtRequestPrebid where
  "example_prebid = zeroPrebid\<lparr>xp_Aliases := [(''districtm'', ''appnexus'')],
     xp_Targeting := Some (targetingDefaults\<lparr>tg_IncludeWinners := False,
       tg_PriceGranularity := \<lparr>Precision = 3, Ranges = [range_of 0 2 (1 / 4), range_of 2 9 1]\<rparr>\<rparr>)\<rparr>"

theorem ext_request_wf_witness:
  "unmarshal dec_ExtRequest (Raw example_ext) zeroPrebid = Some example_prebid \<and> wf_prebid example_prebid"
proof -
  have "unmarshal dec_ExtRequest (Raw example_ext) zeroPrebid = Some example_prebid"
    by code_simp
  with ext_request_wf [OF this] show ?thesis by simp
qed

end
