(* ===== verification/Ext_Encoding.thy ===== *)
theory Ext_Encoding
  imports Request_Ext
begin

text \<open>
  \<open>json.Marshal\<close> of the structs of \<open>openrtb_ext\<close>: the members in the order of the struct, those
  tagged \<open>omitempty\<close> left out when they are empty. Marshalling fails on a \<open>json.RawMessage\<close> that
  is no JSON text and on a float that is not finite. The decoders of Request_Ext read back what is
  written here.
\<close>

section \<open>Members\<close>

datatype member = Omitted | Member json | Bad

fun enc_members :: "(string \<times> member) list \<Rightarrow> (string \<times> json) list option" where
  "enc_members [] = Some []"
| "enc_members ((k, Omitted) # ms) = enc_members ms"
| "enc_members ((k, Member j) # ms) = map_option (\<lambda>kvs. (k, j) # kvs) (enc_members ms)"
| "enc_members ((k, Bad) # ms) = None"

definition enc_struct :: "(string \<times> member) list \<Rightarrow> json option" where
  "enc_struct ms = map_option JObj (enc_members ms)"

definition nested :: "json option \<Rightarrow> member" where
  "nested r = (case r of None \<Rightarrow> Bad | Some j \<Rightarrow> Member j)"

definition omit_if :: "bool \<Rightarrow> member \<Rightarrow> member" where
  "omit_if isEmpty m = (if isEmpty then Omitted else m)"

definition enc_raw :: "raw \<Rightarrow> member" where
  "enc_raw r = (case r of RawEmpty \<Rightarrow> Omitted | RawBad \<Rightarrow> Bad | Raw j \<Rightarrow> Member j)"

definition enc_float :: "float64 \<Rightarrow> json option" where
  "enc_float x = (case x of
     Fin v \<Rightarrow> Some (if of_int \<lfloor>v\<rfloor> = v \<and> \<bar>v\<bar> < 10 ^ 21 then JInt \<lfloor>v\<rfloor> else JDec v) | _ \<Rightarrow> None)"

definition enc_list :: "('a \<Rightarrow> json option) \<Rightarrow> 'a list \<Rightarrow> json option" where
  "enc_list enc xs = map_option JArr (all_some (map enc xs))"

definition enc_map :: "('a \<Rightarrow> json option) \<Rightarrow> (string, 'a) gomap \<Rightarrow> json option" where
  "enc_map enc m = map_option encode_map (all_some (map (\<lambda>e. map_option (\<lambda>j. (fst e, j)) (enc (snd e))) m))"

definition enc_ptr :: "('a \<Rightarrow> json option) \<Rightarrow> 'a option \<Rightarrow> json option" where
  "enc_ptr enc p = (case p of None \<Rightarrow> Some JNull | Some x \<Rightarrow> enc x)"

text \<open>A pointer tagged \<open>omitempty\<close>.\<close>

definition opt_ptr :: "('a \<Rightarrow> json option) \<Rightarrow> 'a option \<Rightarrow> member" where
  "opt_ptr enc p = (case p of None \<Rightarrow> Omitted | Some x \<Rightarrow> nested (enc x))"

section \<open>The extension of the user\<close>

definition enc_Uid :: "string \<times> int \<times> raw \<Rightarrow> json option" where
  "enc_Uid u = enc_struct
     [(''id'', Member (JStr (fst u))), (''atype'', omit_if (fst (snd u) = 0) (Member (JInt (fst (snd u))))),
      (''ext'', enc_raw (snd (snd u)))]"

definition enc_Eid :: "Eid \<Rightarrow> json option" where
  "enc_Eid e = enc_struct
     [(''source'', Member (JStr (eid_Source e))), (''id'', omit_if (eid_ID e = []) (Member (JStr (eid_ID e)))),
      (''uids'', omit_if (eid_Uids e = []) (nested (enc_list enc_Uid (eid_Uids e)))), (''ext'', enc_raw (eid_Ext e))]"

definition enc_DigiTrust :: "string \<times> int \<times> int \<Rightarrow> json option" where
  "enc_DigiTrust d = enc_struct
     [(''id'', Member (JStr (fst d))), (''keyv'', Member (JInt (fst (snd d)))), (''pref'', Member (JInt (snd (snd d))))]"

definition enc_UserPrebid :: "(string, string) gomap \<Rightarrow> json option" where
  "enc_UserPrebid uids = enc_struct [(''buyeruids'', omit_if (uids = []) (nested (enc_map (Some \<circ> JStr) uids)))]"

definition enc_ExtUser :: "ExtUser \<Rightarrow> json option" where
  "enc_ExtUser u = enc_struct
     [(''consent'', omit_if (eu_Consent u = []) (Member (JStr (eu_Consent u)))),
      (''prebid'', opt_ptr enc_UserPrebid (eu_Prebid u)),
      (''digitrust'', opt_ptr enc_DigiTrust (eu_DigiTrust u)),
      (''eids'', omit_if (eu_Eids u = []) (nested (enc_list enc_Eid (eu_Eids u))))]"

section \<open>Supply chains\<close>

definition enc_SChainNode :: "SChainNode \<Rightarrow> json option" where
  "enc_SChainNode n = enc_struct
     [(''asi'', Member (JStr (sn_ASI n))), (''sid'', Member (JStr (sn_SID n))),
      (''rid'', omit_if (sn_RID n = []) (Member (JStr (sn_RID n)))),
      (''name'', omit_if (sn_Name n = []) (Member (JStr (sn_Name n)))),
      (''domain'', omit_if (sn_Domain n = []) (Member (JStr (sn_Domain n)))),
      (''hp'', Member (JInt (sn_HP n))), (''ext'', enc_raw (sn_Ext n))]"

text \<open>
  A nil slice without \<open>omitempty\<close> is written as null. The model does not tell it from an empty
  slice, which Go writes as an empty array; both decode to the empty list.
\<close>

definition enc_slice :: "('a \<Rightarrow> json option) \<Rightarrow> 'a list \<Rightarrow> json option" where
  "enc_slice enc xs = (if xs = [] then Some JNull else enc_list enc xs)"

definition enc_SChain :: "SChain \<Rightarrow> json option" where
  "enc_SChain s = enc_struct
     [(''complete'', Member (JInt (sc_Complete s))),
      (''nodes'', nested (enc_slice (enc_ptr enc_SChainNode) (sc_Nodes s))),
      (''ver'', Member (JStr (sc_Ver s))), (''ext'', enc_raw (sc_Ext s))]"

definition enc_PrebidSChain :: "PrebidSChain \<Rightarrow> json option" where
  "enc_PrebidSChain p = enc_struct
     [(''bidders'', omit_if (ps_Bidders p = []) (nested (enc_list (Some \<circ> JStr) (ps_Bidders p)))),
      (''schain'', nested (enc_SChain (ps_SChain p)))]"

section \<open>The extension of the request\<close>

definition enc_GranularityRange :: "GranularityRange \<Rightarrow> json option" where
  "enc_GranularityRange r = enc_struct
     [(''min'', nested (enc_float (Min r))), (''max'', nested (enc_float (Max r))),
      (''increment'', nested (enc_float (Increment r)))]"

definition enc_PriceGranularity :: "PriceGranularity \<Rightarrow> json option" where
  "enc_PriceGranularity p = enc_struct
     [(''precision'', omit_if (Precision p = 0) (Member (JInt (Precision p)))),
      (''ranges'', omit_if (Ranges p = []) (nested (enc_list enc_GranularityRange (Ranges p))))]"

definition enc_CacheItem :: "CacheItem \<Rightarrow> json option" where
  "enc_CacheItem c = enc_struct [(''returnCreative'', nested (enc_ptr (Some \<circ> JBool) (ci_ReturnCreative c)))]"

definition enc_PrebidCache :: "PrebidCache \<Rightarrow> json option" where
  "enc_PrebidCache c = enc_struct
     [(''bids'', nested (enc_ptr enc_CacheItem (pc_Bids c))), (''vastxml'', nested (enc_ptr enc_CacheItem (pc_VastXML c)))]"

definition enc_IncludeBrandCategory :: "IncludeBrandCategory \<Rightarrow> json option" where
  "enc_IncludeBrandCategory b = enc_struct
     [(''primaryadserver'', Member (JInt (ibc_PrimaryAdServer b))), (''publisher'', Member (JStr (ibc_Publisher b))),
      (''withcategory'', Member (JBool (ibc_WithCategory b))),
      (''translatecategories'', opt_ptr (Some \<circ> JBool) (ibc_TranslateCategories b))]"

definition enc_Targeting :: "Targeting \<Rightarrow> json option" where
  "enc_Targeting t = enc_struct
     [(''pricegranularity'', nested (enc_PriceGranularity (tg_PriceGranularity t))),
      (''includewinners'', Member (JBool (tg_IncludeWinners t))),
      (''includebidderkeys'', Member (JBool (tg_IncludeBidderKeys t))),
      (''includebrandcategory'', nested (enc_ptr enc_IncludeBrandCategory (tg_IncludeBrandCategory t))),
      (''includeformat'', Member (JBool (tg_IncludeFormat t))),
      (''durationrangesec'', nested (enc_slice (Some \<circ> JInt) (tg_DurationRangeSec t))),
      (''preferdeals'', Member (JBool (tg_PreferDeals t))),
      (''appendbiddernames'', omit_if (\<not> tg_AppendBidderNames t) (Member (JBool True)))]"

definition enc_EidPermission :: "EidPermission \<Rightarrow> json option" where
  "enc_EidPermission e = enc_struct
     [(''source'', Member (JStr (ep_Source e))), (''bidders'', nested (enc_slice (Some \<circ> JStr) (ep_Bidders e)))]"

definition enc_PrebidData :: "EidPermission list \<Rightarrow> json option" where
  "enc_PrebidData ps = enc_struct [(''eidpermissions'', nested (enc_slice enc_EidPermission ps))]"

definition enc_StoredRequest :: "string \<Rightarrow> json option" where
  "enc_StoredRequest i = enc_struct [(''id'', Member (JStr i))]"

definition enc_ExtRequestCurrency :: "ExtRequestCurrency \<Rightarrow> json option" where
  "enc_ExtRequestCurrency c = enc_struct
     [(''rates'', nested (enc_ptr (enc_map (enc_map enc_float)) (ConversionRates c))),
      (''usepbsrates'', nested (enc_ptr (Some \<circ> JBool) (UsePBSRates c)))]"

definition enc_ExtRequestPrebid :: "ExtRequestPrebid \<Rightarrow> json option" where
  "enc_ExtRequestPrebid p = enc_struct
     [(''aliases'', omit_if (xp_Aliases p = []) (nested (enc_map (Some \<circ> JStr) (xp_Aliases p)))),
      (''bidadjustmentfactors'', omit_if (xp_BidAdjustmentFactors p = []) (nested (enc_map enc_float (xp_BidAdjustmentFactors p)))),
      (''cache'', opt_ptr enc_PrebidCache (xp_Cache p)),
      (''data'', opt_ptr enc_PrebidData (xp_Data p)),
      (''debug'', omit_if (\<not> xp_Debug p) (Member (JBool True))),
      (''events'', enc_raw (xp_Events p)),
      (''schains'', omit_if (xp_SChains p = []) (nested (enc_list (enc_ptr enc_PrebidSChain) (xp_SChains p)))),
      (''storedrequest'', opt_ptr enc_StoredRequest (xp_StoredRequest p)),
      (''supportdeals'', omit_if (\<not> xp_SupportDeals p) (Member (JBool True))),
      (''targeting'', opt_ptr enc_Targeting (xp_Targeting p)),
      (''nosale'', omit_if (xp_NoSale p = []) (nested (enc_list (Some \<circ> JStr) (xp_NoSale p)))),
      (''currency'', opt_ptr enc_ExtRequestCurrency (xp_CurrencyConversions p))]"

definition enc_ExtRequest :: "ExtRequestPrebid \<Rightarrow> json option" where
  "enc_ExtRequest p = enc_struct [(''prebid'', nested (enc_ExtRequestPrebid p))]"

section \<open>Reading back\<close>

text \<open>
  The member a decoder finds under a key is the one that was written, provided no two keys of the
  struct are the same but for their case.
\<close>

definition lower_keys :: "(string \<times> 'a) list \<Rightarrow> (string \<times> 'a) list" where
  "lower_keys = map (\<lambda>(k, v). (to_lower k, v))"

lemma enc_members_mem: "enc_members ms = Some kvs \<Longrightarrow> (k, j) \<in> set kvs \<Longrightarrow> (k, Member j) \<in> set ms"
  by (induction ms arbitrary: kvs rule: enc_members.induct) auto

lemma map_of_lower_None: "to_lower k \<notin> (to_lower \<circ> fst) ` set ms \<Longrightarrow> lookup (lower_keys ms) (to_lower k) = None"
  by (auto simp: lower_keys_def map_of_eq_None_iff image_image case_prod_beta)

lemma json_field_Cons:
  "json_field k ((k', j) # kvs) = (case json_field k kvs of Some v \<Rightarrow> Some v | None \<Rightarrow> if to_lower k = to_lower k' then Some j else None)"
  by (simp add: json_field_def map_add_def split: option.splits)

lemma json_field_absent: "to_lower k \<notin> (to_lower \<circ> fst) ` set kvs \<Longrightarrow> json_field k kvs = None"
  by (auto simp: json_field_def map_of_eq_None_iff image_image case_prod_beta)

lemma json_field_members:
  assumes "enc_members ms = Some kvs" and "distinct (map (to_lower \<circ> fst) ms)"
  shows "json_field k kvs = (case lookup (lower_keys ms) (to_lower k) of Some (Member j) \<Rightarrow> Some j | _ \<Rightarrow> None)"
  using assms
proof (induction ms arbitrary: kvs rule: enc_members.induct)
  case (3 k' j ms)
  then obtain kvs' where kvs': "enc_members ms = Some kvs'" and kvs: "kvs = (k', j) # kvs'" by auto
  have fresh: "to_lower k' \<notin> (to_lower \<circ> fst) ` set kvs'"
  proof
    assume "to_lower k' \<in> (to_lower \<circ> fst) ` set kvs'"
    then obtain l i where l: "(l, i) \<in> set kvs'" "to_lower k' = to_lower l" by auto
    from enc_members_mem [OF kvs' l(1)] have "(to_lower \<circ> fst) (l, Member i) \<in> (to_lower \<circ> fst) ` set ms"
      by (rule imageI)
    with l(2) 3(3) show False by simp
  qed
  show ?case
  proof (cases "to_lower k = to_lower k'")
    case True
    with fresh have "json_field k kvs' = None" using json_field_absent [of k kvs'] by simp
    with True show ?thesis by (simp add: kvs json_field_Cons lower_keys_def)
  next
    case False
    have "json_field k kvs = json_field k kvs'"
      by (cases "json_field k kvs'") (simp_all add: kvs json_field_Cons False)
    with False 3(1) [OF kvs'] 3(3) show ?thesis by (simp add: lower_keys_def)
  qed
next
  case (2 k' ms)
  then have IH: "json_field k kvs = (case lookup (lower_keys ms) (to_lower k) of Some (Member j) \<Rightarrow> Some j | _ \<Rightarrow> None)"
    by simp
  show ?case
  proof (cases "to_lower k = to_lower k'")
    case True
    with 2(3) have "to_lower k \<notin> (to_lower \<circ> fst) ` set ms" by simp
    with IH map_of_lower_None [of k ms] True show ?thesis by (simp add: lower_keys_def)
  next
    case False
    with IH show ?thesis by (simp add: lower_keys_def)
  qed
qed (simp_all add: json_field_def lower_keys_def)

text \<open>
  The effect of one field decoder on an encoded struct, by what was written for the field.
\<close>

definition member_field :: "member \<Rightarrow> 'a decoder \<Rightarrow> 'a \<Rightarrow> 'a option" where
  "member_field m d old = (case m of Member j \<Rightarrow> d j old | _ \<Rightarrow> Some old)"

lemma field_member:
  assumes "enc_members ms = Some kvs" and "distinct (map (to_lower \<circ> fst) ms)"
    and "lookup (lower_keys ms) (to_lower k) = Some m"
  shows "field k d sel upd kvs r = map_option (\<lambda>v. upd v r) (member_field m d (sel r))"
  using assms(3) by (cases m) (simp_all add: field_def dec_field_def member_field_def json_field_members [OF assms(1,2)])

lemma field_no_member:
  assumes "enc_members ms = Some kvs" and "distinct (map (to_lower \<circ> fst) ms)"
    and "lookup (lower_keys ms) (to_lower k) = None" and "\<And>r. upd (sel r) r = r"
  shows "field k d sel upd kvs r = Some r"
  using assms(3,4) by (simp add: field_def dec_field_def json_field_members [OF assms(1,2)])

lemma user_field_names [simp]:
  "to_lower ''id'' = ''id''" "to_lower ''atype'' = ''atype''" "to_lower ''ext'' = ''ext''"
  "to_lower ''source'' = ''source''" "to_lower ''uids'' = ''uids''" "to_lower ''keyv'' = ''keyv''"
  "to_lower ''pref'' = ''pref''" "to_lower ''consent'' = ''consent''" "to_lower ''prebid'' = ''prebid''"
  "to_lower ''digitrust'' = ''digitrust''" "to_lower ''eids'' = ''eids''" "to_lower ''schain'' = ''schain''"
  "to_lower ''bidders'' = ''bidders''"
  by code_simp+

lemma member_field_simps [simp]:
  "member_field (Member j) d old = d j old" "member_field Omitted d old = Some old"
  by (simp_all add: member_field_def)

lemma enc_members_Some:
  "enc_members ((k, m) # ms) = Some kvs \<longleftrightarrow>
     m \<noteq> Bad \<and> (\<exists>rest. enc_members ms = Some rest \<and> kvs = (case m of Member j \<Rightarrow> (k, j) # rest | _ \<Rightarrow> rest))"
  by (cases m) auto

lemma enc_members_total: "(\<exists>kvs. enc_members ms = Some kvs) \<longleftrightarrow> (\<forall>(k, m) \<in> set ms. m \<noteq> Bad)"
  by (induction ms rule: enc_members.induct) auto

lemma enc_list_round_trip:
  assumes "\<And>x. x \<in> set xs \<Longrightarrow> \<exists>j. enc x = Some j \<and> d j z = Some x"
  shows "\<exists>js. enc_list enc xs = Some (JArr js) \<and> dec_elems d z js = Some xs"
  using assms
proof (induction xs)
  case Nil
  then show ?case by (simp add: enc_list_def)
next
  case (Cons x xs)
  from Cons.prems obtain j where j: "enc x = Some j" "d j z = Some x" by auto
  from Cons.IH Cons.prems obtain js where js: "enc_list enc xs = Some (JArr js)" "dec_elems d z js = Some xs" by auto
  have "enc_list enc (x # xs) = Some (JArr (j # js))" using j js by (auto simp: enc_list_def)
  with j js show ?case by auto
qed

lemma member_Bad [simp]:
  "omit_if b m = Bad \<longleftrightarrow> \<not> b \<and> m = Bad" "enc_raw r = Bad \<longleftrightarrow> r = RawBad" "nested x = Bad \<longleftrightarrow> x = None"
  "opt_ptr enc p = Bad \<longleftrightarrow> (\<exists>v. p = Some v \<and> enc v = None)"
  by (auto simp: omit_if_def enc_raw_def nested_def opt_ptr_def split: raw.splits option.splits)

lemmas read_back = dec_struct_def field_def dec_field_def lower_keys_def omit_if_def enc_raw_def dec_raw_def
  nested_def opt_ptr_def

section \<open>Round trip of the user extension\<close>

definition ok_Uid :: "string \<times> int \<times> raw \<Rightarrow> bool" where
  "ok_Uid u = (is_int64 (fst (snd u)) \<and> snd (snd u) \<noteq> RawBad)"

definition ok_Eid :: "Eid \<Rightarrow> bool" where
  "ok_Eid e = (list_all ok_Uid (eid_Uids e) \<and> eid_Ext e \<noteq> RawBad)"

definition ok_ExtUser :: "ExtUser \<Rightarrow> bool" where
  "ok_ExtUser u = (list_all ok_Eid (eu_Eids u) \<and>
     (case eu_DigiTrust u of None \<Rightarrow> True | Some d \<Rightarrow> is_int64 (fst (snd d)) \<and> is_int64 (snd (snd d))))"

lemma Uid_round_trip:
  assumes "ok_Uid u"
  shows "\<exists>j. enc_Uid u = Some j \<and> dec_Uid j ([], 0, RawEmpty) = Some u"
proof -
  obtain i a r where u: "u = (i, a, r)" by (cases u)
  let ?ms = "[(''id'', Member (JStr i)), (''atype'', omit_if (a = 0) (Member (JInt a))), (''ext'', enc_raw r)]"
  obtain kvs where kvs: "enc_members ?ms = Some kvs"
    using enc_members_total [of ?ms] assms by (auto simp: u ok_Uid_def)
  have "dec_Uid (JObj kvs) ([], 0, RawEmpty) = Some u"
    using assms unfolding u ok_Uid_def dec_Uid_def
    by (cases r) (simp_all add: read_back json_field_members [OF kvs])
  with kvs show ?thesis by (simp add: u enc_Uid_def enc_struct_def del: enc_members.simps)
qed

lemma Eid_round_trip:
  assumes "ok_Eid e"
  shows "\<exists>j. enc_Eid e = Some j \<and> dec_Eid j zeroEid = Some e"
proof -
  obtain js where js: "enc_list enc_Uid (eid_Uids e) = Some (JArr js)"
      "dec_elems dec_Uid ([], 0, RawEmpty) js = Some (eid_Uids e)"
    using enc_list_round_trip [of "eid_Uids e" enc_Uid dec_Uid "([], 0, RawEmpty)"] Uid_round_trip assms
    by (auto simp: ok_Eid_def list_all_iff)
  let ?ms = "[(''source'', Member (JStr (eid_Source e))), (''id'', omit_if (eid_ID e = []) (Member (JStr (eid_ID e)))),
      (''uids'', omit_if (eid_Uids e = []) (nested (enc_list enc_Uid (eid_Uids e)))), (''ext'', enc_raw (eid_Ext e))]"
  obtain kvs where kvs: "enc_members ?ms = Some kvs"
    using enc_members_total [of ?ms] assms js(1) by (auto simp: ok_Eid_def)
  have "dec_Eid (JObj kvs) zeroEid = Some e"
    using assms js unfolding ok_Eid_def dec_Eid_def zeroEid_def
    by (cases "eid_Ext e"; cases "eid_ID e = []"; cases "eid_Uids e = []")
       (simp_all add: read_back json_field_members [OF kvs])
  with kvs show ?thesis by (simp add: enc_Eid_def enc_struct_def del: enc_members.simps)
qed

lemma DigiTrust_round_trip:
  assumes "is_int64 k" and "is_int64 p"
  shows "\<exists>kvs. enc_DigiTrust (i, k, p) = Some (JObj kvs) \<and> dec_DigiTrust (JObj kvs) ([], 0, 0) = Some (i, k, p)"
proof -
  let ?ms = "[(''id'', Member (JStr i)), (''keyv'', Member (JInt k)), (''pref'', Member (JInt p))]"
  obtain kvs where kvs: "enc_members ?ms = Some kvs" using enc_members_total [of ?ms] by auto
  have "dec_DigiTrust (JObj kvs) ([], 0, 0) = Some (i, k, p)"
    using assms unfolding dec_DigiTrust_def by (simp add: read_back json_field_members [OF kvs])
  with kvs show ?thesis by (simp add: enc_DigiTrust_def enc_struct_def del: enc_members.simps)
qed

lemma ExtUser_round_trip:
  assumes "ok_ExtUser u" and "eu_Prebid u = None"
  shows "\<exists>kvs. enc_ExtUser u = Some (JObj kvs) \<and> dec_ExtUser (JObj kvs) zeroExtUser = Some u \<and> json_field ''prebid'' kvs = None"
proof -
  obtain js where js: "enc_list enc_Eid (eu_Eids u) = Some (JArr js)" "dec_elems dec_Eid zeroEid js = Some (eu_Eids u)"
    using enc_list_round_trip [of "eu_Eids u" enc_Eid dec_Eid zeroEid] Eid_round_trip assms
    by (auto simp: ok_ExtUser_def list_all_iff)
  let ?ms = "[(''consent'', omit_if (eu_Consent u = []) (Member (JStr (eu_Consent u)))),
      (''prebid'', opt_ptr enc_UserPrebid (eu_Prebid u)),
      (''digitrust'', opt_ptr enc_DigiTrust (eu_DigiTrust u)),
      (''eids'', omit_if (eu_Eids u = []) (nested (enc_list enc_Eid (eu_Eids u))))]"
  have dt: "\<exists>kvs. enc_DigiTrust d = Some (JObj kvs) \<and> dec_DigiTrust (JObj kvs) ([], 0, 0) = Some d"
    if "eu_DigiTrust u = Some d" for d
    using DigiTrust_round_trip [of "fst (snd d)" "snd (snd d)" "fst d"] assms(1) that by (simp add: ok_ExtUser_def)
  obtain kvs where kvs: "enc_members ?ms = Some kvs"
    using enc_members_total [of ?ms] assms(2) js(1) dt by (auto simp: ok_ExtUser_def)
  have "dec_ExtUser (JObj kvs) zeroExtUser = Some u"
  proof (cases "eu_DigiTrust u")
    case None
    with assms(2) js show ?thesis unfolding dec_ExtUser_def zeroExtUser_def
      by (cases "eu_Consent u = []"; cases "eu_Eids u = []") (simp_all add: read_back json_field_members [OF kvs])
  next
    case (Some d)
    from dt [OF Some] obtain dkvs where "enc_DigiTrust d = Some (JObj dkvs)" "dec_DigiTrust (JObj dkvs) ([], 0, 0) = Some d"
      by blast
    with Some assms(2) js show ?thesis unfolding dec_ExtUser_def zeroExtUser_def
      by (cases "eu_Consent u = []"; cases "eu_Eids u = []")
         (simp_all add: read_back dec_ptr_def json_field_members [OF kvs])
  qed
  moreover have "json_field ''prebid'' kvs = None"
    using assms(2) by (simp add: read_back json_field_members [OF kvs])
  ultimately show ?thesis using kvs by (simp add: enc_ExtUser_def enc_struct_def del: enc_members.simps)
qed

text \<open>What the decoder accepts can be written again.\<close>

lemma dec_int_range: "dec_int j old = Some i \<Longrightarrow> is_int64 old \<Longrightarrow> is_int64 i"
  by (cases j) (auto split: if_splits)

lemma dec_field_int: "dec_field k dec_int kvs old = Some i \<Longrightarrow> is_int64 old \<Longrightarrow> is_int64 i"
  by (auto simp: dec_field_def dest: dec_int_range split: option.splits)

lemma dec_field_raw: "dec_field k dec_raw kvs old = Some RawBad \<Longrightarrow> old = RawBad"
  by (auto simp: dec_field_def dec_raw_def split: option.splits)

lemma dec_field_list:
  assumes "dec_field k (dec_list d z) kvs old = Some xs" and "list_all P old"
    and "\<And>j x. d j z = Some x \<Longrightarrow> P x"
  shows "list_all P xs"
proof (cases "json_field k kvs")
  case None
  with assms(1,2) show ?thesis by (simp add: dec_field_def)
next
  case (Some j)
  with assms(1) have "dec_list d z j old = Some xs" by (simp add: dec_field_def)
  then show ?thesis by (cases j) (auto simp: list_all_iff dest: dec_elems_all [where P = P] assms(3))
qed

lemma is_int64_0 [simp]: "is_int64 0"
  by (simp add: is_int64_def)

lemma dec_Uid_ok: "dec_Uid j ([], 0, RawEmpty) = Some u \<Longrightarrow> ok_Uid u"
  unfolding dec_Uid_def
  by (erule dec_struct_invariant [where P = ok_Uid]) (auto simp: ok_Uid_def field_Some dest: dec_field_int dec_field_raw)

lemma dec_field_Uids:
  "dec_field k (dec_list dec_Uid ([], 0, RawEmpty)) kvs old = Some xs \<Longrightarrow> list_all ok_Uid old \<Longrightarrow> list_all ok_Uid xs"
  by (erule (1) dec_field_list) (erule dec_Uid_ok)

lemma dec_Eid_ok: "dec_Eid j zeroEid = Some e \<Longrightarrow> ok_Eid e"
  unfolding dec_Eid_def
  by (erule dec_struct_invariant [where P = ok_Eid])
     (auto simp: ok_Eid_def zeroEid_def field_Some, erule (1) dec_field_Uids, drule dec_field_raw, simp)

lemma dec_field_Eids:
  "dec_field k (dec_list dec_Eid zeroEid) kvs old = Some xs \<Longrightarrow> list_all ok_Eid old \<Longrightarrow> list_all ok_Eid xs"
  by (erule (1) dec_field_list) (erule dec_Eid_ok)

lemma dec_DigiTrust_ok: "dec_DigiTrust j ([], 0, 0) = Some d \<Longrightarrow> is_int64 (fst (snd d)) \<and> is_int64 (snd (snd d))"
  unfolding dec_DigiTrust_def
  by (erule dec_struct_invariant [where P = "\<lambda>d. is_int64 (fst (snd d)) \<and> is_int64 (snd (snd d))"])
     (auto simp: field_Some dest: dec_field_int)

lemma dec_ExtUser_ok: "dec_ExtUser j zeroExtUser = Some u \<Longrightarrow> ok_ExtUser u"
  unfolding dec_ExtUser_def
  by (erule dec_struct_invariant [where P = ok_ExtUser])
     (auto simp: ok_ExtUser_def zeroExtUser_def field_Some split: option.splits
           dest!: dec_field_ptr dec_DigiTrust_ok, (erule (1) dec_field_Eids)+)

end
