(* ===== verification/Account.thy ===== *)
theory Account
  imports Json Errortypes
begin

text \<open>
  The settings of an account (\<open>config/accounts.go\<close>) and package \<open>account\<close>: the account of a request, from the stored account merged over the defaults
  of the host, and the status of the answer when there is none (\<open>HandleAccountServiceErrors\<close> of
  \<open>endpoints/events/event.go\<close>). The store is the argument \<open>fetchAccount\<close>; \<open>mergeAccount\<close> stands for
  \<open>jsonpatch.MergePatch\<close> over the default account followed by the decoding of the result, and
  \<open>isDeadline\<close> for \<open>errors.Is(err, context.DeadlineExceeded)\<close>.
\<close>

section \<open>Account settings (config/accounts.go)\<close>

datatype IntegrationType = IntegrationTypeAMP | IntegrationTypeApp | IntegrationTypeVideo | IntegrationTypeWeb

record AccountIntegration =
  ai_AMP :: "bool option"
  ai_App :: "bool option"
  ai_Video :: "bool option"
  ai_Web :: "bool option"

text \<open>An integration type that the map of request types does not know is the empty string, here None.\<close>

definition GetByIntegrationType :: "AccountIntegration \<Rightarrow> IntegrationType option \<Rightarrow> bool option" where
  "GetByIntegrationType a t = (case t of
     None \<Rightarrow> None
   | Some IntegrationTypeAMP \<Rightarrow> ai_AMP a
   | Some IntegrationTypeApp \<Rightarrow> ai_App a
   | Some IntegrationTypeVideo \<Rightarrow> ai_Video a
   | Some IntegrationTypeWeb \<Rightarrow> ai_Web a)"

record AccountCCPA =
  ac_Enabled :: "bool option"
  ac_IntegrationEnabled :: AccountIntegration

definition ccpa_EnabledForIntegrationType :: "AccountCCPA \<Rightarrow> IntegrationType option \<Rightarrow> bool option" where
  "ccpa_EnabledForIntegrationType a t =
     (case GetByIntegrationType (ac_IntegrationEnabled a) t of Some b \<Rightarrow> Some b | None \<Rightarrow> ac_Enabled a)"

record AccountGDPR =
  ag_Enabled :: "bool option"
  ag_IntegrationEnabled :: AccountIntegration
  ag_BasicEnforcementVendors :: "string list"

definition gdpr_EnabledForIntegrationType :: "AccountGDPR \<Rightarrow> IntegrationType option \<Rightarrow> bool option" where
  "gdpr_EnabledForIntegrationType a t =
     (case GetByIntegrationType (ag_IntegrationEnabled a) t of Some b \<Rightarrow> Some b | None \<Rightarrow> ag_Enabled a)"

record DefaultTTLs =
  ttl_Banner :: int
  ttl_Video :: int
  ttl_Native :: int
  ttl_Audio :: int

record Account =
  acc_ID :: string
  acc_Disabled :: bool
  acc_CacheTTL :: DefaultTTLs
  acc_EventsEnabled :: bool
  acc_CCPA :: AccountCCPA
  acc_GDPR :: AccountGDPR
  acc_DebugAllow :: bool

section \<open>Finding the account\<close>

record AccountConfig =
  BlacklistedAcctMap :: "string list"
  AccountRequired :: bool
  AccountDefaults :: Account

text \<open>Errors of the stored-request fetchers: an id that does not exist, or any other error.\<close>

datatype fetch_error = NotFoundError string string | FetchError go_error

fun fetch_error_value :: "fetch_error \<Rightarrow> go_error" where
  "fetch_error_value (NotFoundError ident typ) =
     OtherError (''Stored '' @ typ @ '' with ID='' @ [CHR 0x22] @ ident @ [CHR 0x22] @ '' not found.'')"
| "fetch_error_value (FetchError e) = e"

definition PublisherUnknown :: string where
  "PublisherUnknown = ''unknown''"

definition disabled_account :: "string \<Rightarrow> go_error" where
  "disabled_account accountID = BlacklistedAcct (''Prebid-server has disabled Account ID: '' @ accountID @
     '', please reach out to the prebid server host.'')"

text \<open>The errors of a fetch that are kept: the other ones only say that there is no such account.\<close>

fun real_errors :: "fetch_error list \<Rightarrow> go_error list" where
  "real_errors [] = []"
| "real_errors (NotFoundError i t # es) = real_errors es"
| "real_errors (FetchError e # es) = e # real_errors es"

definition GetAccount ::
  "(string \<Rightarrow> raw option \<times> fetch_error list) \<Rightarrow> (raw \<Rightarrow> go_error + Account) \<Rightarrow> AccountConfig \<Rightarrow> string
     \<Rightarrow> go_error list + Account" where
  "GetAccount fetchAccount mergeAccount c accountID =
     (if accountID \<in> set (BlacklistedAcctMap c) then Inl [disabled_account accountID]
      else if AccountRequired c \<and> accountID = PublisherUnknown
      then Inl [AcctRequired ''Prebid-server has been configured to discard requests without a valid Account ID. Please reach out to the prebid server host.'']
      else (let (accountJSON, accErrs) = fetchAccount accountID;
                found = (if accErrs \<noteq> [] then None else accountJSON)
            in case (case found of
                       None \<Rightarrow>
                         (let errs = real_errors accErrs
                          in if AccountRequired c \<and> acc_Disabled (AccountDefaults c)
                             then Inl (errs @ [AcctRequired ''Prebid-server could not verify the Account ID. Please reach out to the prebid server host.''])
                             else Inr (errs, (AccountDefaults c)\<lparr>acc_ID := accountID\<rparr>))
                     | Some j \<Rightarrow>
                         (case mergeAccount j of
                            Inl e \<Rightarrow> Inl [e]
                          | Inr acc \<Rightarrow> Inr ([], if acc_ID acc = [] then acc\<lparr>acc_ID := accountID\<rparr> else acc))) of
                 Inl errs \<Rightarrow> Inl errs
               | Inr (errs, account) \<Rightarrow>
                   if acc_Disabled account then Inl (errs @ [disabled_account accountID]) else Inr account))"

definition account_error_status :: "(go_error \<Rightarrow> bool) \<Rightarrow> go_error \<Rightarrow> int \<times> string list \<Rightarrow> int \<times> string list" where
  "account_error_status isDeadline er acc = (case acc of (status, messages) \<Rightarrow>
     (let er' = (if isDeadline er then Timeout (Error er) else er);
          code = ReadCode er';
          status' = (if code = BlacklistedAppErrorCode \<or> code = BlacklistedAcctErrorCode then 503 else status)
      in (if code = TimeoutErrorCode \<and> status' = 400 then 504 else status', messages @ [Error er'])))"

definition HandleAccountServiceErrors :: "(go_error \<Rightarrow> bool) \<Rightarrow> go_error list \<Rightarrow> int \<times> string list" where
  "HandleAccountServiceErrors isDeadline errs = fold (account_error_status isDeadline) errs (400, [])"

section \<open>Which accounts are served\<close>

lemma GetAccount_errors_nonempty: "GetAccount fa ma c aid = Inl errs \<Longrightarrow> errs \<noteq> []"
  by (auto simp: GetAccount_def Let_def split: if_splits option.splits sum.splits prod.splits)

lemma GetAccount_default:
  assumes "fetchAccount aid = (j, es)" and "j = None \<or> es \<noteq> []"
  shows "GetAccount fetchAccount mergeAccount c aid = Inr acc \<longleftrightarrow>
     aid \<notin> set (BlacklistedAcctMap c) \<and> \<not> (AccountRequired c \<and> aid = PublisherUnknown)
     \<and> \<not> acc_Disabled (AccountDefaults c) \<and> acc = (AccountDefaults c)\<lparr>acc_ID := aid\<rparr>"
proof -
  from assms(2) have "(if es \<noteq> [] then None else j) = None" by auto
  with assms(1) show ?thesis by (auto simp: GetAccount_def Let_def simp del: if_split_eq1)
qed

lemma GetAccount_stored:
  assumes "fetchAccount aid = (Some j, [])"
  shows "GetAccount fetchAccount mergeAccount c aid = Inr acc \<longleftrightarrow>
     aid \<notin> set (BlacklistedAcctMap c) \<and> \<not> (AccountRequired c \<and> aid = PublisherUnknown)
     \<and> (\<exists>m. mergeAccount j = Inr m \<and> \<not> acc_Disabled m \<and> acc = (if acc_ID m = [] then m\<lparr>acc_ID := aid\<rparr> else m))"
  using assms by (cases "mergeAccount j") (auto simp: GetAccount_def)

text \<open>
  C39. Access rules of accounts. An account is returned only for an id that is not blacklisted, and not
  for the unknown publisher where accounts are required; it is never a disabled one. When the store
  has no such account it is the default one with the id asked for, otherwise the stored one merged
  over the defaults, with the id asked for when it names none. No account comes with an error at least.
\<close>

theorem GetAccount_access:
  "(\<forall>acc. GetAccount fetchAccount mergeAccount c aid = Inr acc \<longrightarrow>
      aid \<notin> set (BlacklistedAcctMap c) \<and> \<not> acc_Disabled acc
      \<and> (AccountRequired c \<longrightarrow> aid \<noteq> PublisherUnknown)
      \<and> (case fetchAccount aid of
           (Some j, []) \<Rightarrow> (\<exists>m. mergeAccount j = Inr m \<and> acc = (if acc_ID m = [] then m\<lparr>acc_ID := aid\<rparr> else m))
         | _ \<Rightarrow> acc = (AccountDefaults c)\<lparr>acc_ID := aid\<rparr>)) \<and>
   (\<forall>errs. GetAccount fetchAccount mergeAccount c aid = Inl errs \<longrightarrow> errs \<noteq> [])"
proof -
  obtain j es where f: "fetchAccount aid = (j, es)" by (cases "fetchAccount aid")
  show ?thesis
  proof (cases "\<exists>j'. j = Some j' \<and> es = []")
    case True
    then obtain j' where "fetchAccount aid = (Some j', [])" using f by auto
    then show ?thesis
      using GetAccount_stored [of fetchAccount aid j'] GetAccount_errors_nonempty [of fetchAccount mergeAccount c aid]
      by auto
  next
    case False
    then have "j = None \<or> es \<noteq> []" by (cases j) auto
    then show ?thesis
      using GetAccount_default [of fetchAccount aid j es] GetAccount_errors_nonempty [of fetchAccount mergeAccount c aid] f
      by (auto split: list.splits option.splits)
  qed
qed

lemma account_status_503:
  assumes "e \<in> set errs" and "\<not> isDeadline e" and "e = disabled_account a \<or> (\<exists>m. e = BlacklistedApp m)"
  shows "fst (fold (account_error_status isDeadline) errs st) = 503"
proof -
  have keep: "fst (fold (account_error_status isDeadline) es st) = 503" if "fst st = 503" for es st
    using that by (induction es arbitrary: st) (auto simp: account_error_status_def Let_def split: prod.splits)
  from assms(1) obtain xs ys where errs: "errs = xs @ e # ys" by (meson split_list)
  have "fst (account_error_status isDeadline e st) = 503" for st
    using assms(2,3) by (cases st) (auto simp: account_error_status_def ReadCode_def disabled_account_def
        error_code_defs Let_def)
  then show ?thesis by (simp add: errs keep)
qed

definition example_account :: Account where
  "example_account = \<lparr>acc_ID = [], acc_Disabled = False,
     acc_CacheTTL = \<lparr>ttl_Banner = 0, ttl_Video = 0, ttl_Native = 0, ttl_Audio = 0\<rparr>, acc_EventsEnabled = True,
     acc_CCPA = \<lparr>ac_Enabled = None,
       ac_IntegrationEnabled = \<lparr>ai_AMP = None, ai_App = None, ai_Video = None, ai_Web = None\<rparr>\<rparr>,
     acc_GDPR = \<lparr>ag_Enabled = None,
       ag_IntegrationEnabled = \<lparr>ai_AMP = None, ai_App = None, ai_Video = None, ai_Web = None\<rparr>,
       ag_BasicEnforcementVendors = []\<rparr>, acc_DebugAllow = True\<rparr>"

definition example_account_config :: AccountConfig where
  "example_account_config = \<lparr>BlacklistedAcctMap = [''bad''], AccountRequired = True, AccountDefaults = example_account\<lparr>acc_Disabled := True\<rparr>\<rparr>"

theorem GetAccount_access_witness:
  "\<exists>acc. GetAccount (\<lambda>_. (Some RawEmpty, [])) (\<lambda>_. Inr example_account) example_account_config ''pub'' = Inr acc
     \<and> acc = example_account\<lparr>acc_ID := ''pub''\<rparr>"
proof -
  obtain acc where a: "GetAccount (\<lambda>_. (Some RawEmpty, [])) (\<lambda>_. Inr example_account) example_account_config ''pub'' = Inr acc"
    by (simp add: GetAccount_def example_account_config_def example_account_def PublisherUnknown_def)
  with GetAccount_access [of "\<lambda>_. (Some RawEmpty, [])" "\<lambda>_. Inr example_account" example_account_config "''pub''"]
  have "acc = example_account\<lparr>acc_ID := ''pub''\<rparr>" by (auto simp: example_account_def)
  with a show ?thesis by blast
qed

end
