(* ===== verification/Bidder_Requests.thy ===== *)
theory Bidder_Requests
  imports Imp_Split Ext_Encoding Account
begin

text \<open>
  The request for each bidder (\<open>getAuctionBidderRequests\<close> of \<open>exchange/utils.go\<close> with the
  functions it calls). The bidder requests are shallow copies of one request: a field that the code
  assigns on the copy belongs to the bidder, while a write through a pointer of the copy is seen by
  every bidder. The code writes through the pointer \<open>Source\<close>, so the loop threads the one source
  that all copies share, and through the pointer \<open>User\<close> of the original request when it removes the
  buyer ids. The text of a JSON error is not part of an error.
\<close>

section \<open>Requests and labels\<close>

datatype RequestType = ReqTypeLegacy | ReqTypeORTB2Web | ReqTypeORTB2App | ReqTypeAMP | ReqTypeVideo

datatype CookieFlag = CookieFlagYes | CookieFlagNo | CookieFlagUnknown

datatype AdapterBid = AdapterBidPresent | AdapterBidNone

record Labels =
  lb_Source :: string
  lb_RType :: RequestType
  lb_PubID :: string
  lb_CookieFlag :: CookieFlag

record AdapterLabels =
  al_Source :: string
  al_RType :: RequestType
  al_Adapter :: bidderName
  al_PubID :: string
  al_CookieFlag :: CookieFlag
  al_AdapterBids :: AdapterBid

text \<open>
  \<open>UserSyncs\<close> is the interface \<open>IdFetcher\<close>: the id of the user at a bidder, and whether there is
  one.
\<close>

record AuctionRequest =
  ar_BidRequest :: BidRequest
  ar_Account :: Account
  ar_UserSyncs :: "bidderName \<Rightarrow> string \<times> bool"
  ar_LegacyLabels :: Labels

record BidderRequest =
  br_BidRequest :: BidRequest
  br_BidderName :: bidderName
  br_BidderCoreName :: bidderName
  br_BidderLabels :: AdapterLabels

section \<open>Supply chains\<close>

fun schain_bidders :: "SChain \<Rightarrow> string list \<Rightarrow> (bidderName, SChain) gomap \<Rightarrow> (bidderName, SChain) gomap outcome" where
  "schain_bidders schain [] m = Ok m"
| "schain_bidders schain (bidder # bs) m =
     (if lookup m bidder \<noteq> None
      then Err (OtherError (''request.ext.prebid.schains contains multiple schains for bidder '' @ bidder @
             ''; it must contain no more than one per bidder.''))
      else schain_bidders schain bs (put bidder schain m))"

text \<open>A null element of \<open>schains\<close> is a nil pointer, which the loop dereferences.\<close>

fun schain_wrappers :: "PrebidSChain option list \<Rightarrow> (bidderName, SChain) gomap \<Rightarrow> (bidderName, SChain) gomap outcome" where
  "schain_wrappers [] m = Ok m"
| "schain_wrappers (None # ws) m = Panic"
| "schain_wrappers (Some w # ws) m = (case schain_bidders (ps_SChain w) (ps_Bidders w) m of
     Ok m' \<Rightarrow> schain_wrappers ws m' | Err e \<Rightarrow> Err e | Panic \<Rightarrow> Panic)"

definition BidderToPrebidSChains :: "ExtRequestPrebid option \<Rightarrow> (bidderName, SChain) gomap outcome" where
  "BidderToPrebidSChains req = (case req of None \<Rightarrow> Ok [] | Some p \<Rightarrow> schain_wrappers (xp_SChains p) [])"

definition emptySource :: Source where
  "emptySource = \<lparr>src_FD = 0, src_TID = [], src_PChain = [], src_Ext = RawEmpty\<rparr>"

definition selected_schain :: "bidderName \<Rightarrow> (bidderName, SChain) gomap \<Rightarrow> SChain option" where
  "selected_schain bidder sChainsByBidder =
     (case lookup sChainsByBidder bidder of Some s \<Rightarrow> Some s | None \<Rightarrow> lookup sChainsByBidder ''*'')"

definition prepareSource :: "bidderName \<Rightarrow> (bidderName, SChain) gomap \<Rightarrow> Source option \<Rightarrow> Source option" where
  "prepareSource bidder sChainsByBidder src = (case selected_schain bidder sChainsByBidder of
     None \<Rightarrow> src
   | Some schain \<Rightarrow>
       (let s = (case src of None \<Rightarrow> emptySource | Some s \<Rightarrow> s)
        in case enc_PrebidSChain \<lparr>ps_Bidders = [], ps_SChain = schain\<rparr> of
             None \<Rightarrow> Some s
           | Some j \<Rightarrow> Some (s\<lparr>src_Ext := Raw j\<rparr>)))"

section \<open>User ids\<close>

definition extractBuyerUIDs :: "User option \<Rightarrow> go_error + (string, string) gomap \<times> User option" where
  "extractBuyerUIDs user = (case user of
     None \<Rightarrow> Inr ([], None)
   | Some u \<Rightarrow>
       (if user_Ext u = RawEmpty then Inr ([], user)
        else (case unmarshal dec_ExtUser (user_Ext u) zeroExtUser of
                None \<Rightarrow> Inl (OtherError ''json: cannot unmarshal'')
              | Some ext \<Rightarrow>
                  (case eu_Prebid ext of
                     None \<Rightarrow> Inr ([], user)
                   | Some buyerUIDs \<Rightarrow>
                       (let ext' = ext\<lparr>eu_Prebid := None\<rparr>
                        in if eu_Consent ext' \<noteq> [] \<or> eu_DigiTrust ext' \<noteq> None \<or> eu_Eids ext' \<noteq> []
                           then (case enc_ExtUser ext' of
                                   None \<Rightarrow> Inl (OtherError ''json: cannot marshal'')
                                 | Some j \<Rightarrow> Inr (buyerUIDs, Some (u\<lparr>user_Ext := Raw j\<rparr>)))
                           else Inr (buyerUIDs, Some (u\<lparr>user_Ext := RawEmpty\<rparr>)))))))"

definition copyWithBuyerUID :: "User option \<Rightarrow> string \<Rightarrow> User option" where
  "copyWithBuyerUID user buyerUID = (case user of
     None \<Rightarrow> Some (emptyUser\<lparr>user_BuyerUID := buyerUID\<rparr>)
   | Some u \<Rightarrow> if user_BuyerUID u = [] then Some (u\<lparr>user_BuyerUID := buyerUID\<rparr>) else Some u)"

text \<open>The changed user, and whether there was a cookie.\<close>

definition prepareUser ::
  "User option \<Rightarrow> bidderName \<Rightarrow> bidderName \<Rightarrow> (string, string) gomap \<Rightarrow> (bidderName \<Rightarrow> string \<times> bool) \<Rightarrow> User option \<times> bool" where
  "prepareUser user givenBidder coreBidder explicitBuyerUIDs usersyncs =
     (let (cookieId, hadCookie) = usersyncs coreBidder
      in (case lookup explicitBuyerUIDs givenBidder of
            Some i \<Rightarrow> copyWithBuyerUID user i
          | None \<Rightarrow> if hadCookie then copyWithBuyerUID user cookieId else user, hadCookie))"

definition eid_allowed :: "EidPermission list \<Rightarrow> bidderName \<Rightarrow> Eid \<Rightarrow> bool" where
  "eid_allowed permissions bidder eid =
     (let eidRules = fold (\<lambda>p m. put (ep_Source p) (ep_Bidders p) m) permissions []
      in case lookup eidRules (eid_Source eid) of
           Some rule \<Rightarrow> list_ex (\<lambda>ruleBidder. ruleBidder = ''*'' \<or> ruleBidder = bidder) rule
         | None \<Rightarrow> True)"

definition filterEids :: "EidPermission list \<Rightarrow> bidderName \<Rightarrow> User \<Rightarrow> go_error + User" where
  "filterEids permissions bidder u = (case raw_map (user_Ext u) of
     None \<Rightarrow> Inl (OtherError ''json: cannot unmarshal'')
   | Some userExt \<Rightarrow>
       (case lookup userExt ''eids'' of
          None \<Rightarrow> Inr u
        | Some eidsJSON \<Rightarrow>
            (case dec_list dec_Eid zeroEid eidsJSON [] of
               None \<Rightarrow> Inl (OtherError ''json: cannot unmarshal'')
             | Some eids \<Rightarrow>
                 (let eidsAllowed = filter (eid_allowed permissions bidder) eids
                  in if eids = [] then Inr u
                     else if length eids = length eidsAllowed then Inr u
                     else if eidsAllowed = []
                     then (let userExt' = del ''eids'' userExt
                           in if userExt' = [] then Inr (u\<lparr>user_Ext := RawEmpty\<rparr>)
                              else Inr (u\<lparr>user_Ext := Raw (encode_map userExt')\<rparr>))
                     else (case enc_list enc_Eid eidsAllowed of
                             None \<Rightarrow> Inl (OtherError ''json: cannot marshal'')
                           | Some eidsRaw \<Rightarrow> Inr (u\<lparr>user_Ext := Raw (encode_map (put ''eids'' eidsRaw userExt))\<rparr>))))))"

definition removeUnpermissionedEids ::
  "User option \<Rightarrow> bidderName \<Rightarrow> ExtRequestPrebid option \<Rightarrow> go_error + User option" where
  "removeUnpermissionedEids user bidder requestExt = (case user of
     None \<Rightarrow> Inr None
   | Some u \<Rightarrow>
       (if user_Ext u = RawEmpty then Inr user
        else (case requestExt of
                None \<Rightarrow> Inr user
              | Some p \<Rightarrow> (case xp_Data p of
                   None \<Rightarrow> Inr user
                 | Some permissions \<Rightarrow>
                     if permissions = [] then Inr user
                     else (case filterEids permissions bidder u of Inl e \<Rightarrow> Inl e | Inr u' \<Rightarrow> Inr (Some u'))))))"

section \<open>One request for each bidder\<close>

definition resolveBidder :: "bidderName \<Rightarrow> (string, string) gomap \<Rightarrow> bidderName" where
  "resolveBidder bidder aliases = (case lookup aliases bidder of Some coreBidder \<Rightarrow> coreBidder | None \<Rightarrow> bidder)"

definition getExtJson :: "raw \<Rightarrow> ExtRequestPrebid option \<Rightarrow> go_error + raw" where
  "getExtJson ext unpackedExt = (case unpackedExt of
     None \<Rightarrow> Inr RawEmpty
   | Some p \<Rightarrow> if ext = RawEmpty then Inr RawEmpty
       else (case enc_ExtRequest (p\<lparr>xp_SChains := []\<rparr>) of
               None \<Rightarrow> Inl (OtherError ''json: cannot marshal'') | Some j \<Rightarrow> Inr (Raw j)))"

text \<open>
  What the loop has done so far: the source that the copies of the request share, the requests and
  the errors.
\<close>

record split_state =
  ss_Source :: "Source option"
  ss_Requests :: "BidderRequest list"
  ss_Errors :: "go_error list"

text \<open>The arguments of the loop that do not change.\<close>

record split_env =
  se_Request :: AuctionRequest
  se_RequestExt :: "ExtRequestPrebid option"
  se_Ext :: raw
  se_Aliases :: "(string, string) gomap"
  se_BuyerUIDs :: "(string, string) gomap"
  se_SChains :: "(bidderName, SChain) gomap"
  se_User :: "User option"

definition split_step :: "split_env \<Rightarrow> bidderName \<times> Imp list \<Rightarrow> split_state \<Rightarrow> split_state" where
  "split_step env bi s =
     (let r = se_Request env; orig = ar_BidRequest r; bidder = fst bi;
          coreBidder = resolveBidder bidder (se_Aliases env);
          src = prepareSource bidder (se_SChains env) (ss_Source s);
          s1 = s\<lparr>ss_Source := (if req_Source orig = None then None else src)\<rparr>
      in case removeUnpermissionedEids (se_User env) bidder (se_RequestExt env) of
           Inl e \<Rightarrow> s1\<lparr>ss_Errors := ss_Errors s @
             [OtherError (''unable to enforce request.ext.prebid.data.eidpermissions because '' @ Error e)]\<rparr>
         | Inr user \<Rightarrow>
             (let (user', hadSync) = prepareUser user bidder coreBidder (se_BuyerUIDs env) (ar_UserSyncs r);
                  labels = \<lparr>al_Source = lb_Source (ar_LegacyLabels r), al_RType = lb_RType (ar_LegacyLabels r),
                    al_Adapter = coreBidder, al_PubID = lb_PubID (ar_LegacyLabels r),
                    al_CookieFlag = (if \<not> hadSync \<and> req_App orig = None then CookieFlagNo else CookieFlagYes),
                    al_AdapterBids = AdapterBidPresent\<rparr>
              in s1\<lparr>ss_Requests := ss_Requests s @
                   [\<lparr>br_BidRequest = orig\<lparr>req_Imp := snd bi, req_Ext := se_Ext env, req_Source := src,
                        req_User := user'\<rparr>,
                      br_BidderName = bidder, br_BidderCoreName = coreBidder, br_BidderLabels = labels\<rparr>]\<rparr>))"

text \<open>
  After the loop every copy of a request that has a source points to the one source as the last
  bidder left it.
\<close>

definition share_source :: "BidRequest \<Rightarrow> Source option \<Rightarrow> BidderRequest \<Rightarrow> BidderRequest" where
  "share_source orig src br =
     (if req_Source orig = None then br
      else br\<lparr>br_BidRequest := (br_BidRequest br)\<lparr>req_Source := src\<rparr>\<rparr>)"

text \<open>The bidder requests, the errors and the original request with its changed user and source.\<close>

definition getAuctionBidderRequests ::
  "AuctionRequest \<Rightarrow> ExtRequestPrebid option \<Rightarrow> (bidderName, Imp list) gomap \<Rightarrow> (string, string) gomap
     \<Rightarrow> (BidderRequest list \<times> go_error list \<times> BidRequest) option" where
  "getAuctionBidderRequests r requestExt impsByBidder aliases =
     (let orig = ar_BidRequest r
      in case extractBuyerUIDs (req_User orig) of
           Inl e \<Rightarrow> Some ([], [e], orig)
         | Inr (explicitBuyerUIDs, user) \<Rightarrow>
             (let orig1 = orig\<lparr>req_User := user\<rparr>
              in case BidderToPrebidSChains requestExt of
                   Panic \<Rightarrow> None
                 | Err e \<Rightarrow> Some ([], [e], orig1)
                 | Ok sChains \<Rightarrow>
                     (case getExtJson (req_Ext orig) requestExt of
                        Inl e \<Rightarrow> Some ([], [e], orig1)
                      | Inr reqExt \<Rightarrow>
                          (let env = \<lparr>se_Request = r\<lparr>ar_BidRequest := orig1\<rparr>, se_RequestExt = requestExt, se_Ext = reqExt,
                                 se_Aliases = aliases, se_BuyerUIDs = explicitBuyerUIDs, se_SChains = sChains, se_User = user\<rparr>;
                               s = fold (split_step env) impsByBidder
                                     \<lparr>ss_Source = req_Source orig, ss_Requests = [], ss_Errors = []\<rparr>
                           in Some (map (share_source orig (ss_Source s)) (ss_Requests s), ss_Errors s,
                                orig1\<lparr>req_Source := ss_Source s\<rparr>)))))"

section \<open>Buyer ids\<close>

text \<open>The extension of a user as the server reads it; no extension reads as the empty one.\<close>

definition user_ext :: "User \<Rightarrow> ExtUser option" where
  "user_ext u = (if user_Ext u = RawEmpty then Some zeroExtUser else unmarshal dec_ExtUser (user_Ext u) zeroExtUser)"

lemma user_ext_ok: "user_ext u = Some ext \<Longrightarrow> ok_ExtUser ext"
  by (auto simp: user_ext_def unmarshal_def dec_ExtUser_ok split: if_splits raw.splits)
     (simp add: ok_ExtUser_def zeroExtUser_def)

text \<open>
  Buyer ids are taken out of the request and handed to the exchange. For every user whose
  extension can be read, the call succeeds and returns the ids of \<open>user.ext.prebid.buyeruids\<close>; the
  extension that is left reads as the one before without \<open>prebid\<close>, so consent, DigiTrust and eids
  survive the rewriting; and nothing else of the user changes.
\<close>

theorem buyeruids_extracted:
  assumes "user_ext u = Some ext"
  shows "\<exists>u'. extractBuyerUIDs (Some u) = Inr (case eu_Prebid ext of None \<Rightarrow> [] | Some uids \<Rightarrow> uids, Some u') \<and>
    user_ext u' = Some (ext\<lparr>eu_Prebid := None\<rparr>) \<and> u'\<lparr>user_Ext := user_Ext u\<rparr> = u"
proof (cases "user_Ext u = RawEmpty")
  case True
  with assms have "ext = zeroExtUser" by (simp add: user_ext_def)
  with True show ?thesis by (simp add: extractBuyerUIDs_def user_ext_def zeroExtUser_def)
next
  case False
  with assms have u: "unmarshal dec_ExtUser (user_Ext u) zeroExtUser = Some ext" by (simp add: user_ext_def)
  show ?thesis
  proof (cases "eu_Prebid ext")
    case None
    with False u assms show ?thesis by (simp add: extractBuyerUIDs_def)
  next
    case (Some uids)
    let ?ext = "ext\<lparr>eu_Prebid := None\<rparr>"
    from user_ext_ok [OF assms] have ok: "ok_ExtUser ?ext" by (simp add: ok_ExtUser_def)
    from ExtUser_round_trip [OF ok] obtain kvs where
      kvs: "enc_ExtUser ?ext = Some (JObj kvs)" "dec_ExtUser (JObj kvs) zeroExtUser = Some ?ext" by auto
    show ?thesis
    proof (cases "eu_Consent ext \<noteq> [] \<or> eu_DigiTrust ext \<noteq> None \<or> eu_Eids ext \<noteq> []")
      case True
      with False u Some kvs show ?thesis by (simp add: extractBuyerUIDs_def user_ext_def unmarshal_def)
    next
      case c: False
      then have c': "eu_Consent ext = []" "eu_DigiTrust ext = None" "eu_Eids ext = []" by blast+
      then have "extractBuyerUIDs (Some u) = Inr (uids, Some (u\<lparr>user_Ext := RawEmpty\<rparr>))"
        using False u Some by (simp add: extractBuyerUIDs_def)
      with c' Some show ?thesis by (simp add: user_ext_def zeroExtUser_def)
    qed
  qed
qed

definition example_user :: User where
  "example_user = emptyUser\<lparr>user_Ext := Raw (JObj [(''prebid'', JObj [(''buyeruids'', JObj [(''appnexus'', JStr ''b1'')])]),
     (''consent'', JStr ''CO''), (''eids'', JArr [JObj [(''source'', JStr ''adserver.org''), (''id'', JStr ''7'')]])])\<rparr>"

definition example_user_ext :: ExtUser where
  "example_user_ext = \<lparr>eu_Consent = ''CO'', eu_Prebid = Some [(''appnexus'', ''b1'')], eu_DigiTrust = None,
     eu_Eids = [zeroEid\<lparr>eid_Source := ''adserver.org'', eid_ID := ''7''\<rparr>]\<rparr>"

theorem buyeruids_extracted_witness:
  "\<exists>u'. extractBuyerUIDs (Some example_user) = Inr ([(''appnexus'', ''b1'')], Some u') \<and>
     user_ext u' = Some (example_user_ext\<lparr>eu_Prebid := None\<rparr>)"
proof -
  have "user_ext example_user = Some example_user_ext" by code_simp
  from buyeruids_extracted [OF this] show ?thesis by (auto simp: example_user_ext_def)
qed

section \<open>Permissions on extended ids\<close>

definition user_eids :: "User \<Rightarrow> Eid list option" where
  "user_eids u = (if user_Ext u = RawEmpty then Some []
     else (case raw_map (user_Ext u) of
             None \<Rightarrow> None
           | Some m \<Rightarrow> (case lookup m ''eids'' of None \<Rightarrow> Some [] | Some j \<Rightarrow> dec_list dec_Eid zeroEid j [])))"

lemma dec_Eids_ok: "dec_list dec_Eid zeroEid j [] = Some eids \<Longrightarrow> list_all ok_Eid eids"
  by (cases j) (auto simp: list_all_iff dest: dec_elems_all [where P = ok_Eid] dec_Eid_ok)

lemma raw_map_encoded [simp]: "wf_map m \<Longrightarrow> raw_map (Raw (encode_map m)) = Some (sort_key fst m)"
  by (simp add: raw_map_def encode_map_def dedup_id)

lemma filter_nothing: "length xs = length (filter P xs) \<longleftrightarrow> filter P xs = xs"
  by (metis filter_id_conv length_filter_less less_not_refl)

definition ext_member :: "User \<Rightarrow> string \<Rightarrow> json option" where
  "ext_member u k = Option.bind (raw_map (user_Ext u)) (\<lambda>m. lookup m k)"

lemma raw_map_RawEmpty [simp]: "raw_map RawEmpty = None"
  by (simp add: raw_map_def)

text \<open>The last entry for a source counts.\<close>

lemma eid_allowed_last_entry:
  "eid_allowed permissions bidder e \<longleftrightarrow>
    (\<forall>p. find (\<lambda>p. ep_Source p = eid_Source e) (rev permissions) = Some p \<longrightarrow> ''*'' \<in> set (ep_Bidders p) \<or> bidder \<in> set (ep_Bidders p))"
proof -
  have l: "lookup (fold (\<lambda>p m. put (ep_Source p) (ep_Bidders p) m) ps m) s =
      (case find (\<lambda>p. ep_Source p = s) (rev ps) of Some p \<Rightarrow> Some (ep_Bidders p) | None \<Rightarrow> lookup m s)" for ps m s
    by (induction ps arbitrary: m rule: rev_induct) auto
  show ?thesis
    by (cases "find (\<lambda>p. ep_Source p = eid_Source e) (rev permissions)") (auto simp: eid_allowed_def Let_def list_ex_iff l)
qed

lemma filterEids_exact:
  assumes "user_eids u = Some eids" and "user_Ext u \<noteq> RawEmpty"
  shows "\<exists>u'. filterEids permissions bidder u = Inr u' \<and>
    user_eids u' = Some (filter (eid_allowed permissions bidder) eids) \<and>
    u'\<lparr>user_Ext := user_Ext u\<rparr> = u \<and> (\<forall>k. k \<noteq> ''eids'' \<longrightarrow> ext_member u' k = ext_member u k)"
proof -
  let ?P = "eid_allowed permissions bidder"
  from assms obtain m where m: "raw_map (user_Ext u) = Some m"
    by (auto simp: user_eids_def split: option.splits)
  have wf: "wf_map m" using m by (rule wf_raw_map)
  show ?thesis
  proof (cases "lookup m ''eids''")
    case None
    with assms m have "eids = []" by (simp add: user_eids_def)
    with None assms m show ?thesis by (simp add: filterEids_def)
  next
    case (Some j)
    with assms m have j: "dec_list dec_Eid zeroEid j [] = Some eids" by (simp add: user_eids_def)
    consider (all) "filter ?P eids = eids" | (none) "filter ?P eids \<noteq> eids" "filter ?P eids = []"
      | (some) "filter ?P eids \<noteq> eids" "filter ?P eids \<noteq> []" by blast
    then show ?thesis
    proof cases
      case all
      with assms m Some j show ?thesis by (simp add: filterEids_def Let_def)
    next
      case none
      have "lookup (del ''eids'' m) k = lookup m k" if "k \<noteq> ''eids''" for k using that by simp
      with none assms m Some j wf show ?thesis
        by (cases "del ''eids'' m = []") (auto simp: filterEids_def Let_def filter_nothing user_eids_def ext_member_def)
    next
      case some
      have "list_all ok_Eid (filter ?P eids)" using dec_Eids_ok [OF j] by (simp add: list_all_iff)
      then obtain js where js: "enc_list enc_Eid (filter ?P eids) = Some (JArr js)"
          "dec_elems dec_Eid zeroEid js = Some (filter ?P eids)"
        using enc_list_round_trip [of "filter ?P eids" enc_Eid dec_Eid zeroEid] Eid_round_trip
        by (auto simp: list_all_iff)
      from some have "eids \<noteq> []" by auto
      with some assms m Some j wf js show ?thesis
        by (simp add: filterEids_def Let_def filter_nothing user_eids_def ext_member_def)
    qed
  qed
qed

lemma removeUnpermissionedEids_exact:
  assumes "user_eids u = Some eids"
  shows "\<exists>u'. removeUnpermissionedEids (Some u) bidder requestExt = Inr (Some u') \<and>
    user_eids u' = Some (filter (eid_allowed (case Option.bind requestExt xp_Data of None \<Rightarrow> [] | Some ps \<Rightarrow> ps) bidder) eids) \<and>
    u'\<lparr>user_Ext := user_Ext u\<rparr> = u \<and> (\<forall>k. k \<noteq> ''eids'' \<longrightarrow> ext_member u' k = ext_member u k)"
proof -
  have all: "filter (eid_allowed [] bidder) eids = eids" by (simp add: eid_allowed_def)
  show ?thesis
  proof (cases "user_Ext u = RawEmpty \<or> (case Option.bind requestExt xp_Data of None \<Rightarrow> True | Some ps \<Rightarrow> ps = [])")
    case True
    moreover have "eids = []" if "user_Ext u = RawEmpty" using that assms by (simp add: user_eids_def)
    ultimately show ?thesis using assms all
      by (cases requestExt; cases "Option.bind requestExt xp_Data") (auto simp: removeUnpermissionedEids_def)
  next
    case False
    then obtain p ps where p: "requestExt = Some p" "xp_Data p = Some ps" "ps \<noteq> []" "user_Ext u \<noteq> RawEmpty"
      by (cases requestExt) (auto split: option.splits)
    from filterEids_exact [OF assms p(4), of ps bidder] p show ?thesis by (auto simp: removeUnpermissionedEids_def)
  qed
qed

text \<open>
  C11. Permissions on extended ids are enforced exactly. When the extended ids of the user can be read, those that a bidder gets are the ids
  for whose source the last permission entry, if there is one, names the bidder or \<open>*\<close>, in their order; all other fields of the user and
  all other members of its extension are unchanged.
\<close>

theorem eid_permissions_enforced:
  assumes "user_eids u = Some eids" and "permissions = (case requestExt of None \<Rightarrow> [] | Some p \<Rightarrow> (case xp_Data p of None \<Rightarrow> [] | Some ps \<Rightarrow> ps))"
  shows "\<exists>u'. removeUnpermissionedEids (Some u) bidder requestExt = Inr (Some u') \<and>
    user_eids u' = Some (filter (\<lambda>e. \<forall>p. find (\<lambda>p. ep_Source p = eid_Source e) (rev permissions) = Some p \<longrightarrow>
      ''*'' \<in> set (ep_Bidders p) \<or> bidder \<in> set (ep_Bidders p)) eids) \<and>
    u'\<lparr>user_Ext := user_Ext u\<rparr> = u \<and> (\<forall>k. k \<noteq> ''eids'' \<longrightarrow> ext_member u' k = ext_member u k)"
proof -
  have "permissions = (case Option.bind requestExt xp_Data of None \<Rightarrow> [] | Some ps \<Rightarrow> ps)"
    using assms(2) by (cases requestExt) auto
  moreover have "eid_allowed permissions bidder = (\<lambda>e. \<forall>p. find (\<lambda>p. ep_Source p = eid_Source e) (rev permissions) = Some p \<longrightarrow>
      ''*'' \<in> set (ep_Bidders p) \<or> bidder \<in> set (ep_Bidders p))" by (rule ext) (rule eid_allowed_last_entry)
  ultimately show ?thesis using removeUnpermissionedEids_exact [OF assms(1), of bidder requestExt] by simp
qed

theorem eid_permissions_enforced_witness:
  "\<exists>u'. removeUnpermissionedEids (Some example_user) ''appnexus''
       (Some (zeroPrebid\<lparr>xp_Data := Some [\<lparr>ep_Source = ''adserver.org'', ep_Bidders = [''rubicon'']\<rparr>]\<rparr>)) = Inr (Some u') \<and>
     user_eids u' = Some [] \<and> ext_member u' ''consent'' = Some (JStr ''CO'')"
proof -
  let ?p = "zeroPrebid\<lparr>xp_Data := Some [\<lparr>ep_Source = ''adserver.org'', ep_Bidders = [''rubicon'']\<rparr>]\<rparr>"
  have e: "user_eids example_user = Some [zeroEid\<lparr>eid_Source := ''adserver.org'', eid_ID := ''7''\<rparr>]" by code_simp
  have c: "ext_member example_user ''consent'' = Some (JStr ''CO'')" by code_simp
  show ?thesis using eid_permissions_enforced [OF e refl, of "''appnexus''" "Some ?p"] c by auto
qed

section \<open>The contents of a bidder request\<close>

text \<open>The request of one bidder, given the source it ends up with.\<close>

definition request_for :: "split_env \<Rightarrow> Source option \<Rightarrow> bidderName \<times> Imp list \<Rightarrow> BidderRequest option" where
  "request_for env src bi =
     (let r = se_Request env; orig = ar_BidRequest r; core = resolveBidder (fst bi) (se_Aliases env)
      in case removeUnpermissionedEids (se_User env) (fst bi) (se_RequestExt env) of
           Inl e \<Rightarrow> None
         | Inr user \<Rightarrow>
             (case prepareUser user (fst bi) core (se_BuyerUIDs env) (ar_UserSyncs r) of (user', hadSync) \<Rightarrow>
                Some \<lparr>br_BidRequest = orig\<lparr>req_Imp := snd bi, req_Ext := se_Ext env, req_Source := src, req_User := user'\<rparr>,
                  br_BidderName = fst bi, br_BidderCoreName = core,
                  br_BidderLabels = \<lparr>al_Source = lb_Source (ar_LegacyLabels r), al_RType = lb_RType (ar_LegacyLabels r),
                    al_Adapter = core, al_PubID = lb_PubID (ar_LegacyLabels r),
                    al_CookieFlag = (if \<not> hadSync \<and> req_App orig = None then CookieFlagNo else CookieFlagYes),
                    al_AdapterBids = AdapterBidPresent\<rparr>\<rparr>))"

lemma split_step_source:
  "ss_Source (split_step env bi s) =
     (if req_Source (ar_BidRequest (se_Request env)) = None then None
      else prepareSource (fst bi) (se_SChains env) (ss_Source s))"
  by (simp add: split_step_def Let_def split: sum.splits prod.splits)

lemma split_step_requests:
  "ss_Requests (split_step env bi s) = ss_Requests s @
     (case request_for env (prepareSource (fst bi) (se_SChains env) (ss_Source s)) bi of None \<Rightarrow> [] | Some br \<Rightarrow> [br])"
  by (simp add: split_step_def request_for_def Let_def split: sum.splits prod.splits)

lemma share_request_for:
  assumes "request_for env src bi = Some br" and "req_Source orig \<noteq> None"
  shows "request_for env s bi = Some (share_source orig s br)"
  using assms by (auto simp: request_for_def share_source_def Let_def split: sum.splits prod.splits)

lemma request_for_None: "request_for env src bi = None \<longleftrightarrow> request_for env src' bi = None"
  by (simp add: request_for_def Let_def split: sum.splits prod.splits)

definition own_source :: "BidRequest \<Rightarrow> split_env \<Rightarrow> Source option \<Rightarrow> bidderName \<Rightarrow> Source option" where
  "own_source orig env shared bidder =
     (if req_Source orig = None then prepareSource bidder (se_SChains env) None else shared)"

lemma split_requests:
  assumes "req_Source (ar_BidRequest (se_Request env)) = req_Source orig" and "req_Source orig = None \<longrightarrow> ss_Source s = None"
  shows "map (share_source orig shared) (ss_Requests (fold (split_step env) m s)) =
    map (share_source orig shared) (ss_Requests s) @
      List.map_filter (\<lambda>bi. request_for env (own_source orig env shared (fst bi)) bi) m"
  using assms
proof (induction m arbitrary: s)
  case Nil
  then show ?case by (simp add: map_filter_simps)
next
  case (Cons bi m)
  let ?src = "prepareSource (fst bi) (se_SChains env) (ss_Source s)"
  have "req_Source orig = None \<longrightarrow> ss_Source (split_step env bi s) = None"
    using Cons.prems by (simp add: split_step_source)
  note IH = Cons.IH [OF Cons.prems(1) this]
  have step: "map (share_source orig shared) (case request_for env ?src bi of None \<Rightarrow> [] | Some br \<Rightarrow> [br]) =
      (case request_for env (own_source orig env shared (fst bi)) bi of None \<Rightarrow> [] | Some br \<Rightarrow> [br])"
  proof (cases "req_Source orig")
    case None
    with Cons.prems show ?thesis
      by (cases "request_for env ?src bi") (simp_all add: own_source_def share_source_def)
  next
    case (Some x)
    then show ?thesis
      using share_request_for [of env ?src bi _ orig shared] request_for_None [of env ?src bi shared]
      by (cases "request_for env ?src bi") (simp_all add: own_source_def)
  qed
  show ?case
    by (cases "request_for env (own_source orig env shared (fst bi)) bi")
       (use step in \<open>simp_all add: IH split_step_requests map_filter_simps\<close>)
qed

lemma split_source:
  assumes "req_Source (ar_BidRequest (se_Request env)) \<noteq> None"
  shows "ss_Source (fold (split_step env) m s) = fold (\<lambda>bi. prepareSource (fst bi) (se_SChains env)) m (ss_Source s)"
  using assms by (induction m arbitrary: s) (auto simp: split_step_source)

lemma getAuctionBidderRequests_cases:
  assumes "getAuctionBidderRequests r requestExt m aliases = Some (brs, errs, orig')" and "brs \<noteq> []"
  obtains env uids user schains ext shared where
    "extractBuyerUIDs (req_User (ar_BidRequest r)) = Inr (uids, user)"
    "BidderToPrebidSChains requestExt = Ok schains"
    "getExtJson (req_Ext (ar_BidRequest r)) requestExt = Inr ext"
    "env = \<lparr>se_Request = r\<lparr>ar_BidRequest := (ar_BidRequest r)\<lparr>req_User := user\<rparr>\<rparr>, se_RequestExt = requestExt,
       se_Ext = ext, se_Aliases = aliases, se_BuyerUIDs = uids, se_SChains = schains, se_User = user\<rparr>"
    "brs = List.map_filter (\<lambda>bi. request_for env (own_source (ar_BidRequest r) env shared (fst bi)) bi) m"
    "req_Source (ar_BidRequest r) \<noteq> None \<longrightarrow>
       shared = fold (\<lambda>bi. prepareSource (fst bi) schains) m (req_Source (ar_BidRequest r))"
    "orig' = (ar_BidRequest r)\<lparr>req_User := user, req_Source := shared\<rparr>"
proof -
  let ?orig = "ar_BidRequest r"
  from assms obtain uids user where 1: "extractBuyerUIDs (req_User ?orig) = Inr (uids, user)"
    by (cases "extractBuyerUIDs (req_User ?orig)") (auto simp: getAuctionBidderRequests_def Let_def)
  from assms 1 obtain schains where 2: "BidderToPrebidSChains requestExt = Ok schains"
    by (cases "BidderToPrebidSChains requestExt") (auto simp: getAuctionBidderRequests_def Let_def)
  from assms 1 2 obtain ext where 3: "getExtJson (req_Ext ?orig) requestExt = Inr ext"
    by (cases "getExtJson (req_Ext ?orig) requestExt") (auto simp: getAuctionBidderRequests_def Let_def)
  define env where "env = \<lparr>se_Request = r\<lparr>ar_BidRequest := ?orig\<lparr>req_User := user\<rparr>\<rparr>, se_RequestExt = requestExt,
       se_Ext = ext, se_Aliases = aliases, se_BuyerUIDs = uids, se_SChains = schains, se_User = user\<rparr>"
  define s where "s = fold (split_step env) m \<lparr>ss_Source = req_Source ?orig, ss_Requests = [], ss_Errors = []\<rparr>"
  have eq: "brs = map (share_source ?orig (ss_Source s)) (ss_Requests s)"
      "orig' = ?orig\<lparr>req_User := user, req_Source := ss_Source s\<rparr>"
    using assms(1) 1 2 3 by (simp_all add: getAuctionBidderRequests_def Let_def env_def s_def)
  have "brs = List.map_filter (\<lambda>bi. request_for env (own_source ?orig env (ss_Source s) (fst bi)) bi) m"
    unfolding eq(1) s_def by (subst split_requests) (simp_all add: env_def)
  moreover have "req_Source ?orig \<noteq> None \<longrightarrow> ss_Source s = fold (\<lambda>bi. prepareSource (fst bi) schains) m (req_Source ?orig)"
    unfolding s_def by (auto simp: split_source env_def)
  ultimately show thesis using that [OF 1 2 3 env_def] eq(2) by blast
qed

lemma request_for_Some:
  assumes "request_for env src bi = Some br"
  shows "br_BidderName br = fst bi" "br_BidderCoreName br = resolveBidder (fst bi) (se_Aliases env)"
    "req_Imp (br_BidRequest br) = snd bi" "req_Ext (br_BidRequest br) = se_Ext env" "req_Source (br_BidRequest br) = src"
    "\<exists>u had. removeUnpermissionedEids (se_User env) (fst bi) (se_RequestExt env) = Inr u \<and>
      prepareUser u (fst bi) (resolveBidder (fst bi) (se_Aliases env)) (se_BuyerUIDs env) (ar_UserSyncs (se_Request env))
        = (req_User (br_BidRequest br), had)"
    "\<exists>u. br_BidRequest br = (ar_BidRequest (se_Request env))
       \<lparr>req_Imp := snd bi, req_Ext := se_Ext env, req_Source := src, req_User := u\<rparr>"
  using assms by (auto simp: request_for_def Let_def split: sum.splits prod.splits)

lemma lower_prebid_names [simp]:
  "to_lower ''aliases'' = ''aliases''" "to_lower ''bidadjustmentfactors'' = ''bidadjustmentfactors''"
  "to_lower ''cache'' = ''cache''" "to_lower ''data'' = ''data''" "to_lower ''debug'' = ''debug''"
  "to_lower ''events'' = ''events''" "to_lower ''schains'' = ''schains''"
  "to_lower ''storedrequest'' = ''storedrequest''" "to_lower ''supportdeals'' = ''supportdeals''"
  "to_lower ''targeting'' = ''targeting''" "to_lower ''nosale'' = ''nosale''" "to_lower ''currency'' = ''currency''"
  by code_simp+




lemma map_filter_fst_distinct:
  assumes "wf_map m" and "\<And>bi br. f bi = Some br \<Longrightarrow> g br = fst bi"
  shows "distinct (map g (List.map_filter f m)) \<and> set (map g (List.map_filter f m)) \<subseteq> fst ` set m"
  using assms(1)
proof (induction m)
  case Nil
  then show ?case by (simp add: map_filter_simps)
next
  case (Cons bi m)
  then have "wf_map m" "fst bi \<notin> fst ` set m" by (auto simp: wf_map_def)
  with Cons.IH assms(2) [of bi] show ?case by (cases "f bi") (auto simp: map_filter_simps)
qed







text \<open>
  Supply chains. When the request has no source, every bidder that has a supply chain (its own or
  the one for all bidders) gets a source of its own with that chain. When the request has a source,
  all bidders share it: each of them ends up with the chain of the last bidder in the order of the
  loop that has one, whichever bidder that chain was meant for.
\<close>

theorem bidder_sources:
  assumes "getAuctionBidderRequests r requestExt m aliases = Some (brs, errs, orig')"
    and "BidderToPrebidSChains requestExt = Ok schains" and "br \<in> set brs"
  shows "req_Source (br_BidRequest br) =
    (if req_Source (ar_BidRequest r) = None then prepareSource (br_BidderName br) schains None
     else fold (\<lambda>b. prepareSource b schains) (map fst m) (req_Source (ar_BidRequest r)))"
proof -
  from assms(3) have "brs \<noteq> []" by auto
  with assms(1) obtain env uids' user' schains' ext shared where
    s: "BidderToPrebidSChains requestExt = Ok schains'"
    and env: "env = \<lparr>se_Request = r\<lparr>ar_BidRequest := (ar_BidRequest r)\<lparr>req_User := user'\<rparr>\<rparr>, se_RequestExt = requestExt,
       se_Ext = ext, se_Aliases = aliases, se_BuyerUIDs = uids', se_SChains = schains', se_User = user'\<rparr>"
    and brs: "brs = List.map_filter (\<lambda>bi. request_for env (own_source (ar_BidRequest r) env shared (fst bi)) bi) m"
    and shared: "req_Source (ar_BidRequest r) \<noteq> None \<longrightarrow>
       shared = fold (\<lambda>bi. prepareSource (fst bi) schains') m (req_Source (ar_BidRequest r))"
    by (rule getAuctionBidderRequests_cases)
  from s assms(2) have [simp]: "schains' = schains" by simp
  from assms(3) obtain bi where br: "request_for env (own_source (ar_BidRequest r) env shared (fst bi)) bi = Some br"
    unfolding brs by (auto simp: List.map_filter_def)
  note c = request_for_Some [OF br]
  show ?thesis
    using c(1,5) shared by (cases "req_Source (ar_BidRequest r)") (auto simp: own_source_def env fold_map comp_def)
qed

definition example_schain :: "int \<Rightarrow> SChain" where
  "example_schain n = zeroSChain\<lparr>sc_Complete := n, sc_Ver := ''1.0''\<rparr>"

definition example_schains :: ExtRequestPrebid where
  "example_schains = zeroPrebid\<lparr>xp_SChains :=
     [Some \<lparr>ps_Bidders = [''rubicon''], ps_SChain = example_schain 0\<rparr>, Some \<lparr>ps_Bidders = [''appnexus''], ps_SChain = example_schain 1\<rparr>]\<rparr>"

definition example_auction_request :: "Source option \<Rightarrow> AuctionRequest" where
  "example_auction_request src = \<lparr>ar_BidRequest = \<lparr>req_ID = ''r'', req_Imp = [example_imp], req_Site = Some emptySite, req_App = None,
       req_Device = None, req_User = Some example_user, req_Test = 0, req_TMax = 0, req_Cur = [], req_Source = src,
       req_Regs = None, req_Ext = RawEmpty, req_AT = 0, req_other = JNull\<rparr>,
     ar_Account = example_account, ar_UserSyncs = (\<lambda>b. if b = ''rubicon'' then (''cookie'', True) else ([], False)),
     ar_LegacyLabels = \<lparr>lb_Source = ''web'', lb_RType = ReqTypeORTB2Web, lb_PubID = ''pub'', lb_CookieFlag = CookieFlagYes\<rparr>\<rparr>"

definition example_result :: "Source option \<Rightarrow> (BidderRequest list \<times> go_error list \<times> BidRequest) option" where
  "example_result src = getAuctionBidderRequests (example_auction_request src) (Some example_schains) example_split []"

lemma example_result_bidders:
  "map_option (map br_BidderName \<circ> fst) (example_result None) = Some [''rubicon'', ''appnexus'']"
  "map_option (map br_BidderName \<circ> fst) (example_result (Some emptySource)) = Some [''rubicon'', ''appnexus'']"
  by code_simp+


theorem bidder_sources_witness:
  "\<exists>brs errs orig'. example_result (Some emptySource) = Some (brs, errs, orig') \<and> br_BidderName (brs ! 0) = ''rubicon'' \<and>
     req_Source (br_BidRequest (brs ! 0)) = prepareSource ''appnexus'' [(''appnexus'', example_schain 1)] (Some emptySource)"
proof -
  from example_result_bidders(2) obtain brs errs orig' where res: "example_result (Some emptySource) = Some (brs, errs, orig')"
    and names: "map br_BidderName brs = [''rubicon'', ''appnexus'']" by auto
  from names have b: "brs ! 0 \<in> set brs" "br_BidderName (brs ! 0) = ''rubicon''" by auto
  have ch: "BidderToPrebidSChains (Some example_schains) = Ok [(''rubicon'', example_schain 0), (''appnexus'', example_schain 1)]"
    by code_simp
  have "fold (\<lambda>b. prepareSource b [(''rubicon'', example_schain 0), (''appnexus'', example_schain 1)]) (map fst example_split) (Some emptySource)
      = prepareSource ''appnexus'' [(''appnexus'', example_schain 1)] (Some emptySource)" by code_simp
  with bidder_sources [OF res [unfolded example_result_def] ch b(1)] res b show ?thesis
    by (auto simp: example_auction_request_def)
qed

end
