(* ===== verification/Bidders.thy ===== *)
theory Bidders
  imports Prelude
begin

text \<open>
  The names of the bidders (\<open>openrtb_ext/bidders.go\<close>): the core bidders, the reserved names, and the
  lookups built from them.
\<close>

definition CoreBidderNames :: "bidderName list" where
  "CoreBidderNames =
    [''33across'', ''acuityads'', ''adf'', ''adform'', ''adgeneration'', ''adhese'', ''adkernel'',
     ''adkernelAdn'', ''adman'', ''admixer'', ''adocean'', ''adoppler'', ''adot'', ''adpone'',
     ''adprime'', ''adtarget'', ''adtelligent'', ''advangelists'', ''adxcg'', ''adyoulike'', ''aja'',
     ''algorix'', ''amx'', ''applogy'', ''appnexus'', ''audienceNetwork'', ''avocet'', ''beachfront'',
     ''beintoo'', ''between'', ''bidmachine'', ''bidscube'', ''bmtm'', ''brightroll'', ''colossus'',
     ''connectad'', ''consumable'', ''conversant'', ''cpmstar'', ''criteo'', ''crossinstall'',
     ''datablocks'', ''decenterads'', ''deepintent'', ''dmx'', ''dv360'', ''emx_digital'', ''engagebdr'',
     ''eplanning'', ''epom'', ''e_volution'', ''gamma'', ''gamoshi'', ''grid'', ''gumgum'',
     ''improvedigital'', ''inmobi'', ''interactiveoffers'', ''invibes'', ''ix'', ''jixie'', ''kayzen'',
     ''kidoz'', ''krushmedia'', ''kubient'', ''liftoff'', ''lockerdome'', ''logicad'', ''lunamedia'',
     ''madvertise'', ''marsmedia'', ''mediafuse'', ''mgid'', ''mobfoxpb'', ''mobilefuse'', ''moloco'',
     ''molococloud'', ''nanointeractive'', ''ninthdecimal'', ''nobid'', ''onetag'', ''openx'',
     ''orbidder'', ''outbrain'', ''pangle'', ''pubmatic'', ''pubnative'', ''pulsepoint'', ''revcontent'',
     ''rhythmone'', ''rtbhouse'', ''rubicon'', ''rubiconmraid'', ''sharethrough'', ''silvermob'',
     ''smaato'', ''smartadserver'', ''smartrtb'', ''smartyads'', ''smilewanted'', ''somoaudience'',
     ''sonobi'', ''sovrn'', ''synacormedia'', ''tappx'', ''taurusx'', ''telaria'', ''triplelift'',
     ''triplelift_native'', ''trustx'', ''ucfunnel'', ''unicorn'', ''unruly'', ''valueimpression'',
     ''verizonmedia'', ''viewdeos'', ''visx'', ''vrtcal'', ''yeahmobi'', ''yieldlab'', ''yieldmo'',
     ''yieldone'', ''zeroclickfraud'']"

definition reservedNames :: "bidderName list" where
  "reservedNames = [''all'', ''context'', ''data'', ''general'', ''skadn'', ''prebid'']"

definition IsBidderNameReserved :: "string \<Rightarrow> bool" where
  "IsBidderNameReserved name = list_ex (\<lambda>r. equal_fold name r) reservedNames"

definition BuildBidderMap :: "(string, bidderName) gomap" where
  "BuildBidderMap = fold (\<lambda>name m. put name name m) CoreBidderNames []"

definition BuildBidderNameHashSet :: "string list" where
  "BuildBidderNameHashSet = fold List.insert CoreBidderNames []"

definition bidderNameLookup :: "(string, bidderName) gomap" where
  "bidderNameLookup = fold (\<lambda>name m. put (to_lower name) name m) CoreBidderNames []"

definition NormalizeBidderName :: "string \<Rightarrow> bidderName option" where
  "NormalizeBidderName name = lookup bidderNameLookup (to_lower name)"

section \<open>Properties\<close>

lemma set_hash_set [simp]: "set BuildBidderNameHashSet = set CoreBidderNames"
proof -
  have "set (fold List.insert xs ys) = set xs \<union> set ys" for xs ys :: "string list"
    by (induction xs arbitrary: ys) auto
  then show ?thesis by (simp add: BuildBidderNameHashSet_def)
qed

lemma lower_names_distinct: "distinct (map to_lower CoreBidderNames)"
  by code_simp

text \<open>The names are distinct, so the set has them all; evaluation need not compare them.\<close>

lemma BuildBidderNameHashSet_code [code]: "BuildBidderNameHashSet = rev CoreBidderNames"
proof -
  have "fold List.insert xs acc = rev xs @ acc" if "distinct xs" "set xs \<inter> set acc = {}" for xs acc :: "string list"
    using that by (induction xs arbitrary: acc) auto
  moreover have "distinct CoreBidderNames" using lower_names_distinct distinct_map by blast
  ultimately show ?thesis by (simp add: BuildBidderNameHashSet_def)
qed

lemma core_not_reserved: "list_all (\<lambda>n. n \<notin> set reservedNames) (map to_lower CoreBidderNames)"
  by code_simp

lemma reserved_lower: "list_all (\<lambda>r. to_lower r = r) reservedNames"
  by code_simp

lemma lookup_fold_lower:
  "distinct (map to_lower xs) \<Longrightarrow>
   lookup (fold (\<lambda>name m. put (to_lower name) name m) xs m) k =
     (case filter (\<lambda>n. to_lower n = k) xs of [] \<Rightarrow> lookup m k | n # _ \<Rightarrow> Some n)"
proof (induction xs arbitrary: m)
  case (Cons x xs)
  then have d: "distinct (map to_lower xs)" and x: "to_lower x \<notin> to_lower ` set xs" by auto
  show ?case
  proof (cases "to_lower x = k")
    case True
    with x have "filter (\<lambda>n. to_lower n = k) xs = []" by (auto simp: filter_empty_conv image_iff)
    with True d show ?thesis by (simp add: Cons.IH)
  next
    case False
    with d show ?thesis by (simp add: Cons.IH split: list.splits)
  qed
qed simp

text \<open>
  Bidder names are recognised in any case and only as themselves. A name is accepted exactly if
  it is the name of a core bidder up to case, and then that one name is returned; no core bidder has a
  reserved name, in any case.
\<close>

theorem NormalizeBidderName_exact:
  "(NormalizeBidderName name = Some b \<longleftrightarrow> b \<in> set CoreBidderNames \<and> to_lower b = to_lower name) \<and>
   list_all (\<lambda>c. \<not> IsBidderNameReserved c) CoreBidderNames"
proof
  let ?xs = "filter (\<lambda>n. to_lower n = to_lower name) CoreBidderNames"
  have l: "NormalizeBidderName name = (case ?xs of [] \<Rightarrow> None | n # _ \<Rightarrow> Some n)"
    by (simp add: NormalizeBidderName_def bidderNameLookup_def lookup_fold_lower [OF lower_names_distinct]
        split: list.splits)
  have inj: "b = c" if "b \<in> set CoreBidderNames" "c \<in> set CoreBidderNames" "to_lower b = to_lower c" for b c
    using lower_names_distinct that by (auto simp: distinct_map dest: inj_onD)
  show "NormalizeBidderName name = Some b \<longleftrightarrow> b \<in> set CoreBidderNames \<and> to_lower b = to_lower name"
  proof (cases ?xs)
    case Nil
    then show ?thesis using l by (auto simp: filter_empty_conv)
  next
    case (Cons n ns)
    then have "n \<in> set ?xs" by simp
    then have n: "n \<in> set CoreBidderNames" "to_lower n = to_lower name" by simp_all
    then show ?thesis using l Cons inj [of b n] by auto
  qed
  show "list_all (\<lambda>c. \<not> IsBidderNameReserved c) CoreBidderNames"
    using core_not_reserved reserved_lower
    by (fastforce simp: IsBidderNameReserved_def list_all_iff list_ex_iff equal_fold_def)
qed

end
