(* ===== verification/Privacy.thy ===== *)
theory Privacy
  imports OpenRTB Errortypes
begin

text \<open>
  Package \<open>privacy\<close>: the scrubber that removes personal data from the device and user of a bid
  request, the enforcement record that says which policies apply and derives the scrubbing
  strategies from them, and the \<open>PolicyEnforcer\<close> interface of the single policies.
\<close>

section \<open>Scrubbing strategies\<close>

datatype ScrubStrategyIPV4 = ScrubStrategyIPV4None | ScrubStrategyIPV4Lowest8

datatype ScrubStrategyIPV6 = ScrubStrategyIPV6None | ScrubStrategyIPV6Lowest16 | ScrubStrategyIPV6Lowest32

datatype ScrubStrategyGeo = ScrubStrategyGeoNone | ScrubStrategyGeoFull | ScrubStrategyGeoReducedPrecision

datatype ScrubStrategyUser = ScrubStrategyUserNone | ScrubStrategyUserIDAndDemographic | ScrubStrategyUserID

datatype ScrubStrategyDeviceID = ScrubStrategyDeviceIDNone | ScrubStrategyDeviceIDAll

section \<open>The scrubber\<close>

text \<open>\<open>s[0:strings.LastIndex(s, c)]\<close>, or None when the index is -1.\<close>

definition before_last :: "char \<Rightarrow> string \<Rightarrow> string option" where
  "before_last c s =
     (if c \<in> set s then Some (rev (tl (dropWhile (\<lambda>x. x \<noteq> c) (rev s)))) else None)"

definition scrubIPV4Lowest8 :: "string \<Rightarrow> string" where
  "scrubIPV4Lowest8 ip = (case before_last (CHR ''.'') ip of None \<Rightarrow> [] | Some p \<Rightarrow> p @ ''.0'')"

definition removeLowestIPV6Segment :: "string \<Rightarrow> string" where
  "removeLowestIPV6Segment ip = (case before_last (CHR '':'') ip of None \<Rightarrow> [] | Some p \<Rightarrow> p)"

definition scrubIPV6Lowest16Bits :: "string \<Rightarrow> string" where
  "scrubIPV6Lowest16Bits ip =
     (let ip' = removeLowestIPV6Segment ip in if ip' \<noteq> [] then ip' @ '':0'' else ip')"

definition scrubIPV6Lowest32Bits :: "string \<Rightarrow> string" where
  "scrubIPV6Lowest32Bits ip =
     (let ip' = removeLowestIPV6Segment (removeLowestIPV6Segment ip)
      in if ip' \<noteq> [] then ip' @ '':0:0'' else ip')"

definition scrubGeoFull :: "Geo option \<Rightarrow> Geo option" where
  "scrubGeoFull geo = map_option (\<lambda>_. emptyGeo) geo"

text \<open>
  \<open>float64(int(x * 100.0 + 0.5)) / 100.0\<close>: the conversion to \<open>int\<close> drops the fraction towards
  zero; a value outside the 64-bit range converts to an unspecified integer in Go, here to the
  smallest one as on amd64.
\<close>

definition int_of_float :: "float64 \<Rightarrow> int" where
  "int_of_float x = (case x of
     Fin q \<Rightarrow> (let i = (if 0 \<le> q then \<lfloor>q\<rfloor> else \<lceil>q\<rceil>) in if is_int64 i then i else - (2 ^ 63))
   | _ \<Rightarrow> - (2 ^ 63))"

definition round_coordinate :: "float64 \<Rightarrow> float64" where
  "round_coordinate x =
     fdiv (rnd (of_int (int_of_float (fadd (fmul x (Fin 100)) (Fin (1 / 2)))))) (Fin 100)"

definition scrubGeoPrecision :: "Geo option \<Rightarrow> Geo option" where
  "scrubGeoPrecision geo = map_option (\<lambda>g.
     g\<lparr>geo_Lat := round_coordinate (geo_Lat g), geo_Lon := round_coordinate (geo_Lon g)\<rparr>) geo"

text \<open>
  \<open>user.ext\<close> without \<open>eids\<close> and \<open>digitrust\<close>; an ext that is not a JSON object stays as it is.
  JSON null decodes into a nil map, which has neither key. Marshalling a map of raw values that
  were just parsed cannot fail, and writes every key once.
\<close>

definition scrubUserExtIDs :: "raw \<Rightarrow> raw" where
  "scrubUserExtIDs userExt = (case userExt of
     Raw (JObj kvs) \<Rightarrow>
       (let m = dedup kvs
        in if lookup m ''eids'' \<noteq> None \<or> lookup m ''digitrust'' \<noteq> None
           then Raw (encode_map (del ''digitrust'' (del ''eids'' m))) else userExt)
   | _ \<Rightarrow> userExt)"

definition ScrubDevice ::
  "Device option \<Rightarrow> ScrubStrategyDeviceID \<Rightarrow> ScrubStrategyIPV4 \<Rightarrow> ScrubStrategyIPV6 \<Rightarrow> ScrubStrategyGeo \<Rightarrow> Device option" where
  "ScrubDevice device sid ipv4 ipv6 geo = (case device of None \<Rightarrow> None | Some d \<Rightarrow>
     let d1 = (case sid of
            ScrubStrategyDeviceIDAll \<Rightarrow>
              d\<lparr>dev_DIDMD5 := [], dev_DIDSHA1 := [], dev_DPIDMD5 := [], dev_DPIDSHA1 := [], dev_IFA := [],
                dev_MACMD5 := [], dev_MACSHA1 := []\<rparr>
          | ScrubStrategyDeviceIDNone \<Rightarrow> d);
         d2 = (case ipv4 of
            ScrubStrategyIPV4Lowest8 \<Rightarrow> d1\<lparr>dev_IP := scrubIPV4Lowest8 (dev_IP d)\<rparr>
          | ScrubStrategyIPV4None \<Rightarrow> d1);
         d3 = (case ipv6 of
            ScrubStrategyIPV6Lowest16 \<Rightarrow> d2\<lparr>dev_IPv6 := scrubIPV6Lowest16Bits (dev_IPv6 d)\<rparr>
          | ScrubStrategyIPV6Lowest32 \<Rightarrow> d2\<lparr>dev_IPv6 := scrubIPV6Lowest32Bits (dev_IPv6 d)\<rparr>
          | ScrubStrategyIPV6None \<Rightarrow> d2)
     in Some (case geo of
            ScrubStrategyGeoFull \<Rightarrow> d3\<lparr>dev_Geo := scrubGeoFull (dev_Geo d)\<rparr>
          | ScrubStrategyGeoReducedPrecision \<Rightarrow> d3\<lparr>dev_Geo := scrubGeoPrecision (dev_Geo d)\<rparr>
          | ScrubStrategyGeoNone \<Rightarrow> d3))"

definition ScrubUser :: "User option \<Rightarrow> ScrubStrategyUser \<Rightarrow> ScrubStrategyGeo \<Rightarrow> User option" where
  "ScrubUser user strategy geo = (case user of None \<Rightarrow> None | Some u \<Rightarrow>
     let u1 = (case strategy of
            ScrubStrategyUserIDAndDemographic \<Rightarrow>
              u\<lparr>user_BuyerUID := [], user_ID := [], user_Ext := scrubUserExtIDs (user_Ext u),
                user_Yob := 0, user_Gender := []\<rparr>
          | ScrubStrategyUserID \<Rightarrow>
              u\<lparr>user_BuyerUID := [], user_ID := [], user_Ext := scrubUserExtIDs (user_Ext u)\<rparr>
          | ScrubStrategyUserNone \<Rightarrow> u)
     in Some (case geo of
            ScrubStrategyGeoFull \<Rightarrow> u1\<lparr>user_Geo := scrubGeoFull (user_Geo u)\<rparr>
          | ScrubStrategyGeoReducedPrecision \<Rightarrow> u1\<lparr>user_Geo := scrubGeoPrecision (user_Geo u)\<rparr>
          | ScrubStrategyGeoNone \<Rightarrow> u1))"

section \<open>Enforcement\<close>

record Enforcement =
  CCPA :: bool
  COPPA :: bool
  GDPRGeo :: bool
  GDPRID :: bool
  LMT :: bool

definition Any :: "Enforcement \<Rightarrow> bool" where
  "Any e = (CCPA e \<or> COPPA e \<or> GDPRGeo e \<or> GDPRID e \<or> LMT e)"

definition getDeviceIDScrubStrategy :: "Enforcement \<Rightarrow> ScrubStrategyDeviceID" where
  "getDeviceIDScrubStrategy e =
     (if COPPA e \<or> GDPRID e \<or> CCPA e \<or> LMT e then ScrubStrategyDeviceIDAll else ScrubStrategyDeviceIDNone)"

definition getIPv4ScrubStrategy :: "Enforcement \<Rightarrow> ScrubStrategyIPV4" where
  "getIPv4ScrubStrategy e =
     (if COPPA e \<or> GDPRGeo e \<or> CCPA e \<or> LMT e then ScrubStrategyIPV4Lowest8 else ScrubStrategyIPV4None)"

definition getIPv6ScrubStrategy :: "Enforcement \<Rightarrow> ScrubStrategyIPV6" where
  "getIPv6ScrubStrategy e =
     (if COPPA e then ScrubStrategyIPV6Lowest32
      else if GDPRGeo e \<or> CCPA e \<or> LMT e then ScrubStrategyIPV6Lowest16
      else ScrubStrategyIPV6None)"

definition getGeoScrubStrategy :: "Enforcement \<Rightarrow> ScrubStrategyGeo" where
  "getGeoScrubStrategy e =
     (if COPPA e then ScrubStrategyGeoFull
      else if GDPRGeo e \<or> CCPA e \<or> LMT e then ScrubStrategyGeoReducedPrecision
      else ScrubStrategyGeoNone)"

definition getUserScrubStrategy :: "Enforcement \<Rightarrow> ScrubStrategyUser" where
  "getUserScrubStrategy e =
     (if COPPA e then ScrubStrategyUserIDAndDemographic
      else if CCPA e \<or> LMT e then ScrubStrategyUserID
      else if GDPRID e then ScrubStrategyUserID
      else ScrubStrategyUserNone)"

definition Apply :: "Enforcement \<Rightarrow> BidRequest \<Rightarrow> BidRequest" where
  "Apply e req =
     (if Any e
      then req\<lparr>req_Device := ScrubDevice (req_Device req) (getDeviceIDScrubStrategy e) (getIPv4ScrubStrategy e)
                 (getIPv6ScrubStrategy e) (getGeoScrubStrategy e),
               req_User := ScrubUser (req_User req) (getUserScrubStrategy e) (getGeoScrubStrategy e)\<rparr>
      else req)"

lemmas strategy_defs =
  getDeviceIDScrubStrategy_def getIPv4ScrubStrategy_def getIPv6ScrubStrategy_def
  getGeoScrubStrategy_def getUserScrubStrategy_def

section \<open>Addresses\<close>

lemma before_last_append [simp]: "c \<notin> set y \<Longrightarrow> before_last c (x @ c # y) = Some x"
proof -
  assume "c \<notin> set y"
  then have "dropWhile (\<lambda>d. d \<noteq> c) (rev y @ c # rev x) = c # rev x"
    by (subst dropWhile_append2) auto
  then show ?thesis by (simp add: before_last_def)
qed

lemma before_last_None [simp]: "before_last c s = None \<longleftrightarrow> c \<notin> set s"
  by (simp add: before_last_def)

lemma split_at_last:
  assumes "c \<in> set s"
  obtains x y where "s = x @ c # y" and "c \<notin> set y"
  using split_list_last [OF assms] by blast

lemma scrubIPV4_octet: "CHR ''.'' \<notin> set y \<Longrightarrow> scrubIPV4Lowest8 (x @ CHR ''.'' # y) = x @ ''.0''"
  by (simp add: scrubIPV4Lowest8_def)

lemma scrubIPV4_idem: "scrubIPV4Lowest8 (scrubIPV4Lowest8 ip) = scrubIPV4Lowest8 ip"
proof (cases "CHR ''.'' \<in> set ip")
  case True
  then obtain x y where "ip = x @ CHR ''.'' # y" "CHR ''.'' \<notin> set y" by (rule split_at_last)
  then show ?thesis using scrubIPV4_octet [of y x] scrubIPV4_octet [of "''0''" x] by simp
next
  case False
  then have "before_last (CHR ''.'') ip = None" by simp
  then show ?thesis by (simp add: scrubIPV4Lowest8_def before_last_def)
qed

lemma scrubIPV6_16_segment:
  "CHR '':'' \<notin> set y \<Longrightarrow> x \<noteq> [] \<Longrightarrow> scrubIPV6Lowest16Bits (x @ CHR '':'' # y) = x @ '':0''"
  by (simp add: scrubIPV6Lowest16Bits_def removeLowestIPV6Segment_def)

lemma scrubIPV6_32_segments:
  assumes "CHR '':'' \<notin> set y" and "CHR '':'' \<notin> set z" and "x \<noteq> []"
  shows "scrubIPV6Lowest32Bits (x @ CHR '':'' # y @ CHR '':'' # z) = x @ '':0:0''"
proof -
  have "removeLowestIPV6Segment ((x @ CHR '':'' # y) @ CHR '':'' # z) = x @ CHR '':'' # y"
    unfolding removeLowestIPV6Segment_def using assms before_last_append [of _ z "x @ CHR '':'' # y"] by simp
  then show ?thesis using assms by (simp add: scrubIPV6Lowest32Bits_def removeLowestIPV6Segment_def)
qed

section \<open>Extensions\<close>

definition ext_field :: "string \<Rightarrow> raw \<Rightarrow> json option" where
  "ext_field k r = (case r of Raw (JObj kvs) \<Rightarrow> lookup (dedup kvs) k | _ \<Rightarrow> None)"

lemma scrubUserExtIDs_field:
  "ext_field k (scrubUserExtIDs r) = (if k = ''eids'' \<or> k = ''digitrust'' then None else ext_field k r)"
proof (cases "\<exists>kvs. r = Raw (JObj kvs)")
  case True
  then obtain kvs where r: "r = Raw (JObj kvs)" by blast
  then show ?thesis
    by (auto simp: scrubUserExtIDs_def ext_field_def Let_def dedup_id encode_map_def)
next
  case False
  then show ?thesis by (auto simp: scrubUserExtIDs_def ext_field_def split: raw.splits json.splits)
qed

section \<open>What a scrubbed request reveals\<close>

definition device_ids_removed :: "Device \<Rightarrow> bool" where
  "device_ids_removed d =
     (dev_IFA d = [] \<and> dev_DIDSHA1 d = [] \<and> dev_DIDMD5 d = [] \<and> dev_DPIDSHA1 d = []
      \<and> dev_DPIDMD5 d = [] \<and> dev_MACSHA1 d = [] \<and> dev_MACMD5 d = [])"

definition user_ids_removed :: "User \<Rightarrow> bool" where
  "user_ids_removed u =
     (user_ID u = [] \<and> user_BuyerUID u = [] \<and> ext_field ''eids'' (user_Ext u) = None
      \<and> ext_field ''digitrust'' (user_Ext u) = None)"

lemma Scrub_None [simp]: "ScrubDevice None a b c g = None" "ScrubUser None s g = None"
  by (simp_all add: ScrubDevice_def ScrubUser_def)

lemma ScrubDevice_ids:
  "ScrubDevice (Some d) ScrubStrategyDeviceIDAll i4 i6 g = Some d' \<Longrightarrow> device_ids_removed d'"
  by (auto simp: ScrubDevice_def Let_def device_ids_removed_def
      split: ScrubStrategyIPV4.splits ScrubStrategyIPV6.splits ScrubStrategyGeo.splits)

lemma ScrubUser_ids:
  "s \<noteq> ScrubStrategyUserNone \<Longrightarrow> ScrubUser (Some u) s g = Some u' \<Longrightarrow> user_ids_removed u'"
  by (auto simp: ScrubUser_def Let_def user_ids_removed_def scrubUserExtIDs_field
      split: ScrubStrategyUser.splits ScrubStrategyGeo.splits)

lemma Apply_removes_ids:
  assumes "COPPA e \<or> CCPA e \<or> LMT e \<or> GDPRID e"
  shows "(\<forall>d. req_Device (Apply e req) = Some d \<longrightarrow> device_ids_removed d)
    \<and> (\<forall>u. req_User (Apply e req) = Some u \<longrightarrow> user_ids_removed u)
    \<and> (req_Device (Apply e req) = None \<longleftrightarrow> req_Device req = None)
    \<and> (req_User (Apply e req) = None \<longleftrightarrow> req_User req = None)"
proof -
  have any: "Any e" using assms by (auto simp: Any_def)
  have sid: "getDeviceIDScrubStrategy e = ScrubStrategyDeviceIDAll"
    and su: "getUserScrubStrategy e \<noteq> ScrubStrategyUserNone"
    using assms by (auto simp: strategy_defs)
  have none: "ScrubDevice x a b c g = None \<longleftrightarrow> x = None" "ScrubUser y s g = None \<longleftrightarrow> y = None"
    for x a b c y s g by (auto simp: ScrubDevice_def ScrubUser_def Let_def split: option.splits)
  show ?thesis
    using any ScrubDevice_ids ScrubUser_ids [OF su] none
    by (cases "req_Device req"; cases "req_User req") (auto simp: Apply_def sid)
qed

text \<open>
  Identifiers. Whenever COPPA, CCPA, LMT or the identifier part of GDPR is enforced, the
  request sent on carries no device identifier, no user id, no buyer id and no extended user
  ids, whatever it carried before, and it still has a device and a user exactly if it had one.
\<close>

theorem enforcement_removes_ids:
  assumes "COPPA e \<or> CCPA e \<or> LMT e \<or> GDPRID e"
  shows "(\<forall>d. req_Device (Apply e req) = Some d \<longrightarrow> device_ids_removed d)
    \<and> (\<forall>u. req_User (Apply e req) = Some u \<longrightarrow> user_ids_removed u)
    \<and> (req_Device (Apply e req) = None \<longleftrightarrow> req_Device req = None)
    \<and> (req_User (Apply e req) = None \<longleftrightarrow> req_User req = None)"
  using assms by (rule Apply_removes_ids)

definition strict_enforcement :: Enforcement where
  "strict_enforcement = \<lparr>CCPA = False, COPPA = True, GDPRGeo = False, GDPRID = False, LMT = False\<rparr>"

definition example_device :: Device where
  "example_device = \<lparr>dev_Geo = None, dev_Lmt = None, dev_IP = ''10.1.2.3'', dev_IPv6 = [], dev_OS = [],
     dev_OSV = [], dev_H = 0, dev_W = 0, dev_IFA = ''abc'', dev_DIDSHA1 = [], dev_DIDMD5 = [],
     dev_DPIDSHA1 = [], dev_DPIDMD5 = [], dev_MACSHA1 = [], dev_MACMD5 = [], dev_Ext = RawEmpty, dev_UA = [], dev_DNT = None, dev_PPI = 0, dev_other = JNull\<rparr>"

definition example_request :: BidRequest where
  "example_request = \<lparr>req_ID = ''r'', req_Imp = [], req_Site = None, req_App = None,
     req_Device = Some example_device, req_User = Some (emptyUser\<lparr>user_ID := ''u''\<rparr>), req_Test = 0,
     req_TMax = 0, req_Cur = [], req_Source = None, req_Regs = None, req_Ext = RawEmpty, req_AT = 0, req_other = JNull\<rparr>"

theorem enforcement_removes_ids_witness:
  "\<exists>d. req_Device (Apply strict_enforcement example_request) = Some d \<and> device_ids_removed d"
proof -
  obtain d where d: "req_Device (Apply strict_enforcement example_request) = Some d"
    by (simp add: Apply_def Any_def strict_enforcement_def example_request_def ScrubDevice_def Let_def)
  with enforcement_removes_ids [of strict_enforcement example_request] show ?thesis
    by (auto simp: strict_enforcement_def)
qed

text \<open>
  Non-interference under COPPA. Two requests that differ only in device identifiers, the last
  octet of the IPv4 address, the last two segments of the IPv6 address, the location, the user
  and buyer id, the year of birth and the gender are the same request for the bidder.
\<close>

theorem coppa_noninterference:
  assumes "COPPA e" and "CHR ''.'' \<notin> set o1" and "CHR ''.'' \<notin> set o2"
    and "CHR '':'' \<notin> set a1 \<union> set b1" and "CHR '':'' \<notin> set a2 \<union> set b2" and "p6 \<noteq> []"
  shows "Apply e (req\<lparr>req_Device := Some (d\<lparr>dev_IFA := i1, dev_DIDSHA1 := j1, dev_MACSHA1 := k1,
             dev_IP := p4 @ CHR ''.'' # o1, dev_IPv6 := p6 @ CHR '':'' # a1 @ CHR '':'' # b1, dev_Geo := Some g1\<rparr>),
           req_User := Some (u\<lparr>user_ID := n1, user_BuyerUID := m1, user_Yob := y1, user_Gender := x1, user_Geo := Some h1\<rparr>)\<rparr>)
       = Apply e (req\<lparr>req_Device := Some (d\<lparr>dev_IFA := i2, dev_DIDSHA1 := j2, dev_MACSHA1 := k2,
             dev_IP := p4 @ CHR ''.'' # o2, dev_IPv6 := p6 @ CHR '':'' # a2 @ CHR '':'' # b2, dev_Geo := Some g2\<rparr>),
           req_User := Some (u\<lparr>user_ID := n2, user_BuyerUID := m2, user_Yob := y2, user_Gender := x2, user_Geo := Some h2\<rparr>)\<rparr>)"
  using assms
  by (simp add: Apply_def Any_def strategy_defs ScrubDevice_def ScrubUser_def scrubGeoFull_def
      scrubIPV4_octet scrubIPV6_32_segments)

theorem coppa_noninterference_witness:
  "Apply strict_enforcement (example_request\<lparr>req_Device := Some (example_device\<lparr>dev_IFA := ''1'', dev_DIDSHA1 := ''a'', dev_MACSHA1 := [],
        dev_IP := ''10.1'' @ CHR ''.'' # ''7'', dev_IPv6 := ''fe80'' @ CHR '':'' # ''1'' @ CHR '':'' # ''2'', dev_Geo := Some emptyGeo\<rparr>),
      req_User := Some (emptyUser\<lparr>user_ID := ''x'', user_BuyerUID := ''y'', user_Yob := 1990, user_Gender := ''F'', user_Geo := Some emptyGeo\<rparr>)\<rparr>)
   = Apply strict_enforcement (example_request\<lparr>req_Device := Some (example_device\<lparr>dev_IFA := ''2'', dev_DIDSHA1 := ''b'', dev_MACSHA1 := ''m'',
        dev_IP := ''10.1'' @ CHR ''.'' # ''200'', dev_IPv6 := ''fe80'' @ CHR '':'' # ''3'' @ CHR '':'' # ''4'', dev_Geo := Some (emptyGeo\<lparr>geo_City := ''Oslo''\<rparr>)\<rparr>),
      req_User := Some (emptyUser\<lparr>user_ID := ''z'', user_BuyerUID := [], user_Yob := 2012, user_Gender := ''M'', user_Geo := Some (emptyGeo\<lparr>geo_ZIP := ''1''\<rparr>)\<rparr>)\<rparr>)"
  by (rule coppa_noninterference) (simp_all add: strict_enforcement_def)

text \<open>
  Frame. Enforcement touches the device and the user only; with no policy in force the
  request is sent as it came; and enforcing twice is the same as enforcing once for everything
  but the rounded coordinates, shown here for COPPA, which leaves no coordinates.
\<close>

theorem enforcement_frame:
  "(Apply e req)\<lparr>req_Device := req_Device req, req_User := req_User req\<rparr> = req
   \<and> (\<not> Any e \<longrightarrow> Apply e req = req)
   \<and> req_Imp (Apply e req) = req_Imp req \<and> req_Ext (Apply e req) = req_Ext req"
  by (simp add: Apply_def)

theorem enforcement_frame_witness:
  "Apply \<lparr>CCPA = False, COPPA = False, GDPRGeo = False, GDPRID = False, LMT = False\<rparr> example_request = example_request"
  using enforcement_frame [where req = example_request and e = "\<lparr>CCPA = False, COPPA = False, GDPRGeo = False, GDPRID = False, LMT = False\<rparr>"]
  by (simp add: Any_def)

text \<open>
  The rounding of coordinates adds one half and drops the fraction towards zero. It leaves a
  two-decimal coordinate of the northern and eastern hemispheres alone but moves one of the
  southern and western hemispheres by a hundredth of a degree.
\<close>

lemma round_coordinate_north: "round_coordinate (flit (3387 / 100)) = flit (3387 / 100)"
  by code_simp

lemma round_coordinate_south: "round_coordinate (flit (- 3387 / 100)) = flit (- 3386 / 100)"
  by code_simp

section \<open>Policy enforcers\<close>

text \<open>
  The interface \<open>PolicyEnforcer\<close>: a policy is enforced for a bidder only if the publisher
  provided it. \<open>EnabledPolicyEnforcer\<close> wraps any enforcer with a configuration flag.
\<close>

definition enabled_ShouldEnforce :: "bool \<Rightarrow> (string \<Rightarrow> bool) \<Rightarrow> string \<Rightarrow> bool" where
  "enabled_ShouldEnforce enabled should bidder = (if enabled then should bidder else False)"

definition nil_CanEnforce :: bool where
  "nil_CanEnforce = False"

definition nil_ShouldEnforce :: "string \<Rightarrow> bool" where
  "nil_ShouldEnforce bidder = False"

locale policy_enforcer =
  fixes canEnforce :: bool and shouldEnforce :: "string \<Rightarrow> bool"
  assumes provided: "shouldEnforce bidder \<Longrightarrow> canEnforce"
begin

lemma enabled_provided: "enabled_ShouldEnforce enabled shouldEnforce bidder \<Longrightarrow> canEnforce"
  using provided by (auto simp: enabled_ShouldEnforce_def split: if_splits)

lemma enabled_enforcer: "policy_enforcer canEnforce (enabled_ShouldEnforce enabled shouldEnforce)"
  by unfold_locales (rule enabled_provided)

lemma not_provided: "\<not> canEnforce \<Longrightarrow> \<not> shouldEnforce bidder"
  using provided by blast

end

interpretation nil_enforcer: policy_enforcer nil_CanEnforce nil_ShouldEnforce
  by unfold_locales (simp add: nil_ShouldEnforce_def)

end
