(* ===== verification/Privacy_Policies.thy ===== *)
theory Privacy_Policies
  imports Privacy Request_Ext
begin

text \<open>
  The policies that decide which regulations are in effect for a request: limit ad tracking with
  the iOS rules (\<open>privacy/lmt\<close>, \<open>util/iosutil\<close>), CCPA (\<open>privacy/ccpa\<close>) and the writer of
  the GDPR consent (\<open>privacy/gdpr\<close>). \<open>jsonparser.GetInt\<close>, which reads the tracking status of an
  iOS device, is the parameter \<open>getATTS\<close>: it returns an error, no value when the key is missing, or
  the number. A nil and an empty \<open>json.RawMessage\<close> are not told apart.
\<close>

section \<open>iOS versions\<close>

record Version =
  Major :: int
  Minor :: int

definition ParseVersion :: "string \<Rightarrow> go_error + Version" where
  "ParseVersion v = (case split_on (CHR ''.'') v of
     [p0, p1] \<Rightarrow>
       (case atoi p0 of
          None \<Rightarrow> Inl (OtherError ''major version is not an integer'')
        | Some major \<Rightarrow>
            (case atoi p1 of
               None \<Rightarrow> Inl (OtherError ''minor version is not an integer'')
             | Some minor \<Rightarrow> Inr \<lparr>Major = major, Minor = minor\<rparr>))
   | _ \<Rightarrow> Inl (OtherError ''expected major.minor format''))"

definition EqualOrGreater :: "Version \<Rightarrow> int \<Rightarrow> int \<Rightarrow> bool" where
  "EqualOrGreater v major minor = (if Major v = major then Minor v \<ge> minor else Major v > major)"

datatype VersionClassification = VersionUnknown | Version140 | Version141 | Version142OrGreater

definition DetectVersionClassification :: "string \<Rightarrow> VersionClassification" where
  "DetectVersionClassification v =
     (if v = ''14.0'' then Version140
      else if v = ''14.1'' then Version141
      else (case ParseVersion v of
              Inr iosVersion \<Rightarrow> if EqualOrGreater iosVersion 14 2 then Version142OrGreater else VersionUnknown
            | Inl e \<Rightarrow> VersionUnknown))"

section \<open>Limit ad tracking\<close>

datatype IOSAppTrackingStatus = NotDetermined | Restricted | Denied | Authorized

definition tracking_status :: "int \<Rightarrow> IOSAppTrackingStatus option" where
  "tracking_status v =
     (if v = 0 then Some NotDetermined else if v = 1 then Some Restricted
      else if v = 2 then Some Denied else if v = 3 then Some Authorized else None)"

type_synonym get_int = "raw \<Rightarrow> go_error + int option"

definition ParseDeviceExtATTS :: "get_int \<Rightarrow> raw \<Rightarrow> go_error + IOSAppTrackingStatus option" where
  "ParseDeviceExtATTS getATTS deviceExt = (case getATTS deviceExt of
     Inr None \<Rightarrow> Inr None
   | Inl e \<Rightarrow> Inl e
   | Inr (Some v) \<Rightarrow> (case tracking_status v of
        None \<Rightarrow> Inl (OtherError ''invalid status'') | Some s \<Rightarrow> Inr (Some s)))"

definition isRequestForIOS :: "BidRequest \<Rightarrow> bool" where
  "isRequestForIOS req = (req_App req \<noteq> None \<and>
     (case req_Device req of None \<Rightarrow> False | Some d \<Rightarrow> equal_fold (dev_OS d) ''ios''))"

definition modifyForIOS14X :: "Device \<Rightarrow> Device" where
  "modifyForIOS14X d =
     (if dev_IFA d = [] \<or> dev_IFA d = ''00000000-0000-0000-0000-000000000000''
      then d\<lparr>dev_Lmt := Some 1\<rparr> else d\<lparr>dev_Lmt := Some 0\<rparr>)"

definition modifyForIOS142OrGreater :: "get_int \<Rightarrow> Device \<Rightarrow> Device" where
  "modifyForIOS142OrGreater getATTS d = (case ParseDeviceExtATTS getATTS (dev_Ext d) of
     Inl e \<Rightarrow> d
   | Inr None \<Rightarrow> d
   | Inr (Some NotDetermined) \<Rightarrow> d\<lparr>dev_Lmt := Some 0\<rparr>
   | Inr (Some Restricted) \<Rightarrow> d\<lparr>dev_Lmt := Some 1\<rparr>
   | Inr (Some Denied) \<Rightarrow> d\<lparr>dev_Lmt := Some 1\<rparr>
   | Inr (Some Authorized) \<Rightarrow> d\<lparr>dev_Lmt := Some 0\<rparr>)"

text \<open>The table of modifiers by version class, applied to the device.\<close>

definition ModifyForIOS :: "get_int \<Rightarrow> BidRequest \<Rightarrow> BidRequest" where
  "ModifyForIOS getATTS req =
     (if \<not> isRequestForIOS req then req
      else (case req_Device req of
              None \<Rightarrow> req
            | Some d \<Rightarrow> req\<lparr>req_Device := Some
                (case DetectVersionClassification (dev_OSV d) of
                   Version140 \<Rightarrow> modifyForIOS14X d
                 | Version141 \<Rightarrow> modifyForIOS14X d
                 | Version142OrGreater \<Rightarrow> modifyForIOS142OrGreater getATTS d
                 | VersionUnknown \<Rightarrow> d)\<rparr>))"

record LmtPolicy =
  Signal :: int
  SignalProvided :: bool

definition lmt_ReadFromRequest :: "BidRequest \<Rightarrow> LmtPolicy" where
  "lmt_ReadFromRequest req = (case req_Device req of
     None \<Rightarrow> \<lparr>Signal = 0, SignalProvided = False\<rparr>
   | Some d \<Rightarrow> (case dev_Lmt d of
        None \<Rightarrow> \<lparr>Signal = 0, SignalProvided = False\<rparr>
      | Some l \<Rightarrow> \<lparr>Signal = l, SignalProvided = True\<rparr>))"

definition lmt_CanEnforce :: "LmtPolicy \<Rightarrow> bool" where
  "lmt_CanEnforce p = SignalProvided p"

definition lmt_ShouldEnforce :: "LmtPolicy \<Rightarrow> string \<Rightarrow> bool" where
  "lmt_ShouldEnforce p bidder = (SignalProvided p \<and> Signal p = 1)"

interpretation lmt: policy_enforcer "lmt_CanEnforce p" "lmt_ShouldEnforce p" for p
  by unfold_locales (simp add: lmt_CanEnforce_def lmt_ShouldEnforce_def)

section \<open>CCPA: parsing\<close>

record CcpaPolicy =
  Consent :: string
  NoSaleBidders :: "string list"

record ParsedPolicy =
  consentSpecified :: bool
  consentOptOutSale :: bool
  noSaleForAllBidders :: bool
  noSaleSpecificBidders :: "string list"

definition ccpa_flag :: "char \<Rightarrow> bool" where
  "ccpa_flag c = (c = CHR ''N'' \<or> c = CHR ''Y'' \<or> c = CHR ''-'')"

definition parseConsent :: "string \<Rightarrow> go_error + bool" where
  "parseConsent consent =
     (if consent = [] then Inr False
      else if length consent \<noteq> 4 then Inl (OtherError ''must contain 4 characters'')
      else if consent ! 0 \<noteq> CHR ''1'' then Inl (OtherError ''must specify version 1'')
      else if \<not> ccpa_flag (consent ! 1)
      then Inl (OtherError ''must specify 'N', 'Y', or '-' for the explicit notice'')
      else if \<not> ccpa_flag (consent ! 2)
      then Inl (OtherError ''must specify 'N', 'Y', or '-' for the opt-out sale'')
      else if \<not> ccpa_flag (consent ! 3)
      then Inl (OtherError ''must specify 'N', 'Y', or '-' for the limited service provider agreement'')
      else Inr (consent ! 2 = CHR ''Y''))"

definition ccpa_ValidateConsent :: "string \<Rightarrow> bool" where
  "ccpa_ValidateConsent consent = (case parseConsent consent of Inr _ \<Rightarrow> True | Inl _ \<Rightarrow> False)"

definition allBiddersMarker :: string where
  "allBiddersMarker = ''*''"

fun parseNoSaleLoop :: "string list \<Rightarrow> (string \<Rightarrow> bool) \<Rightarrow> string list \<Rightarrow> go_error + string list" where
  "parseNoSaleLoop [] valid acc = Inr acc"
| "parseNoSaleLoop (bidder # bs) valid acc =
     (if bidder = allBiddersMarker
      then Inl (OtherError ''can only specify all bidders if no other bidders are provided'')
      else if valid bidder then parseNoSaleLoop bs valid (List.insert bidder acc)
      else Inl (OtherError (''unrecognized bidder '' @ [CHR 0x27] @ bidder @ [CHR 0x27])))"

definition parseNoSaleBidders :: "string list \<Rightarrow> (string \<Rightarrow> bool) \<Rightarrow> go_error + (bool \<times> string list)" where
  "parseNoSaleBidders bidders valid =
     (if bidders = [allBiddersMarker] then Inr (True, [])
      else (case parseNoSaleLoop bidders valid [] of Inl e \<Rightarrow> Inl e | Inr bs \<Rightarrow> Inr (False, bs)))"

definition ccpa_Parse :: "CcpaPolicy \<Rightarrow> (string \<Rightarrow> bool) \<Rightarrow> go_error + ParsedPolicy" where
  "ccpa_Parse p valid = (case parseConsent (Consent p) of
     Inl e \<Rightarrow> Inl (Warning (''request.regs.ext.us_privacy '' @ Error e) InvalidPrivacyConsentWarningCode)
   | Inr optOut \<Rightarrow>
       (case parseNoSaleBidders (NoSaleBidders p) valid of
          Inl e \<Rightarrow> Inl (OtherError (''request.ext.prebid.nosale is invalid: '' @ Error e))
        | Inr (all_bidders, bs) \<Rightarrow>
            Inr \<lparr>consentSpecified = (Consent p \<noteq> []), consentOptOutSale = optOut,
                 noSaleForAllBidders = all_bidders, noSaleSpecificBidders = bs\<rparr>))"

definition ccpa_CanEnforce :: "ParsedPolicy \<Rightarrow> bool" where
  "ccpa_CanEnforce p = consentSpecified p"

definition isNoSaleForBidder :: "ParsedPolicy \<Rightarrow> string \<Rightarrow> bool" where
  "isNoSaleForBidder p bidder = (if noSaleForAllBidders p then True else bidder \<in> set (noSaleSpecificBidders p))"

definition ccpa_ShouldEnforce :: "ParsedPolicy \<Rightarrow> string \<Rightarrow> bool" where
  "ccpa_ShouldEnforce p bidder = (\<not> isNoSaleForBidder p bidder \<and> consentOptOutSale p)"

section \<open>CCPA: reading and writing\<close>

definition ccpa_ReadFromRequest :: "BidRequest \<Rightarrow> go_error + CcpaPolicy" where
  "ccpa_ReadFromRequest req =
     (case (case req_Regs req of
              None \<Rightarrow> Inr []
            | Some regs \<Rightarrow> (if regs_Ext regs = RawEmpty then Inr []
                else (case unmarshal dec_ExtRegs (regs_Ext regs) zeroRegs of
                        None \<Rightarrow> Inl (OtherError ''error reading request.regs.ext'')
                      | Some ext \<Rightarrow> Inr (er_USPrivacy ext)))) of
        Inl e \<Rightarrow> Inl e
      | Inr consent \<Rightarrow>
          (if req_Ext req = RawEmpty then Inr \<lparr>Consent = consent, NoSaleBidders = []\<rparr>
           else (case unmarshal dec_ExtRequest (req_Ext req) zeroPrebid of
                   None \<Rightarrow> Inl (OtherError ''error reading request.ext.prebid'')
                 | Some p \<Rightarrow> Inr \<lparr>Consent = consent, NoSaleBidders = xp_NoSale p\<rparr>)))"

definition buildRegsClear :: "Regs option \<Rightarrow> Regs option outcome" where
  "buildRegsClear regs = (case regs of
     None \<Rightarrow> Ok None
   | Some r \<Rightarrow>
       (if regs_Ext r = RawEmpty then Ok (Some r)
        else (case unmarshal_ext_map (regs_Ext r) of
                None \<Rightarrow> Err (OtherError ''json: cannot unmarshal'')
              | Some ext \<Rightarrow>
                  (let m = del ''us_privacy'' (case ext of None \<Rightarrow> [] | Some m \<Rightarrow> m)
                   in if m = [] then Ok (Some (r\<lparr>regs_Ext := RawEmpty\<rparr>))
                      else Ok (Some (r\<lparr>regs_Ext := Raw (encode_map m)\<rparr>))))))"

text \<open>An assignment to the nil map, which \<open>null\<close> decodes to, panics.\<close>

definition buildRegsWrite :: "string \<Rightarrow> Regs option \<Rightarrow> Regs option outcome" where
  "buildRegsWrite consent regs = (case regs of
     None \<Rightarrow> Ok (Some \<lparr>regs_COPPA = 0, regs_Ext = Raw (JObj [(''us_privacy'', JStr consent)])\<rparr>)
   | Some r \<Rightarrow>
       (if regs_Ext r = RawEmpty
        then Ok (Some (r\<lparr>regs_Ext := Raw (JObj [(''us_privacy'', JStr consent)])\<rparr>))
        else (case unmarshal_ext_map (regs_Ext r) of
                None \<Rightarrow> Err (OtherError ''json: cannot unmarshal'')
              | Some None \<Rightarrow> Panic
              | Some (Some m) \<Rightarrow>
                  Ok (Some (r\<lparr>regs_Ext := Raw (encode_map (put ''us_privacy'' (JStr consent) m))\<rparr>)))))"

definition buildRegs :: "string \<Rightarrow> Regs option \<Rightarrow> Regs option outcome" where
  "buildRegs consent regs = (if consent = [] then buildRegsClear regs else buildRegsWrite consent regs)"

definition buildExtClear :: "raw \<Rightarrow> raw outcome" where
  "buildExtClear ext =
     (if ext = RawEmpty then Ok ext
      else (case unmarshal_ext_map ext of
              None \<Rightarrow> Err (OtherError ''json: cannot unmarshal'')
            | Some extMap \<Rightarrow>
                (let m = (case extMap of None \<Rightarrow> [] | Some m \<Rightarrow> m)
                 in case lookup m ''prebid'' of
                      None \<Rightarrow> Ok ext
                    | Some (JObj prebid) \<Rightarrow>
                        (let prebid' = del ''nosale'' prebid;
                             m' = (if prebid' = [] then del ''prebid'' m else put ''prebid'' (encode_map prebid') m)
                         in if m' = [] then Ok RawEmpty else Ok (Raw (encode_map m')))
                    | Some _ \<Rightarrow> Err (OtherError ''request.ext.prebid is not a json object''))))"

definition buildExtWrite :: "string list \<Rightarrow> raw \<Rightarrow> raw outcome" where
  "buildExtWrite bidders ext =
     (if ext = RawEmpty
      then Ok (Raw (JObj [(''prebid'', JObj [(''nosale'', JArr (map JStr bidders))])]))
      else (case unmarshal_ext_map ext of
              None \<Rightarrow> Err (OtherError ''json: cannot unmarshal'')
            | Some None \<Rightarrow> Panic
            | Some (Some m) \<Rightarrow>
                (case (case lookup m ''prebid'' of None \<Rightarrow> Some [] | Some (JObj prebid) \<Rightarrow> Some prebid | Some _ \<Rightarrow> None) of
                   None \<Rightarrow> Err (OtherError ''request.ext.prebid is not a json object'')
                 | Some prebid \<Rightarrow>
                     Ok (Raw (encode_map (put ''prebid''
                       (encode_map (put ''nosale'' (JArr (map JStr bidders)) prebid)) m))))))"

definition buildExt :: "string list \<Rightarrow> raw \<Rightarrow> raw outcome" where
  "buildExt bidders ext = (if bidders = [] then buildExtClear ext else buildExtWrite bidders ext)"

definition ccpa_Write :: "CcpaPolicy \<Rightarrow> BidRequest \<Rightarrow> BidRequest outcome" where
  "ccpa_Write p req = (case buildRegs (Consent p) (req_Regs req) of
     Err e \<Rightarrow> Err e
   | Panic \<Rightarrow> Panic
   | Ok regs \<Rightarrow> (case buildExt (NoSaleBidders p) (req_Ext req) of
        Err e \<Rightarrow> Err e
      | Panic \<Rightarrow> Panic
      | Ok ext \<Rightarrow> Ok (req\<lparr>req_Regs := regs, req_Ext := ext\<rparr>)))"

text \<open>The \<open>ConsentWriter\<close>s of the two packages.\<close>

definition ccpa_ConsentWriter_Write :: "string \<Rightarrow> BidRequest \<Rightarrow> BidRequest outcome" where
  "ccpa_ConsentWriter_Write consent req = (case buildRegs consent (req_Regs req) of
     Err e \<Rightarrow> Err e | Panic \<Rightarrow> Panic | Ok regs \<Rightarrow> Ok (req\<lparr>req_Regs := regs\<rparr>))"

definition gdpr_ConsentWriter_Write :: "string \<Rightarrow> BidRequest \<Rightarrow> BidRequest outcome" where
  "gdpr_ConsentWriter_Write consent req =
     (if consent = [] then Ok req
      else (let user = (case req_User req of None \<Rightarrow> emptyUser | Some u \<Rightarrow> u)
            in if user_Ext user = RawEmpty
               then Ok (req\<lparr>req_User := Some (user\<lparr>user_Ext := Raw (JObj [(''consent'', JStr consent)])\<rparr>)\<rparr>)
               else (case unmarshal_ext_map (user_Ext user) of
                       None \<Rightarrow> Err (OtherError ''json: cannot unmarshal'')
                     | Some None \<Rightarrow> Panic
                     | Some (Some m) \<Rightarrow>
                         Ok (req\<lparr>req_User := Some (user\<lparr>user_Ext :=
                           Raw (encode_map (put ''consent'' (JStr consent) m))\<rparr>)\<rparr>))))"

section \<open>When a policy is in effect\<close>

text \<open>The policy value \<open>Parse\<close> returns, the zero value along with an error.\<close>

definition parsed_policy :: "CcpaPolicy \<Rightarrow> (string \<Rightarrow> bool) \<Rightarrow> ParsedPolicy" where
  "parsed_policy p valid = (case ccpa_Parse p valid of
     Inr q \<Rightarrow> q
   | Inl e \<Rightarrow> \<lparr>consentSpecified = False, consentOptOutSale = False, noSaleForAllBidders = False, noSaleSpecificBidders = []\<rparr>)"

lemma parseConsent_Inr:
  "parseConsent c = Inr b \<longleftrightarrow>
     (c = [] \<and> \<not> b) \<or>
     (length c = 4 \<and> c ! 0 = CHR ''1'' \<and> (\<forall>i \<in> {1, 2, 3}. ccpa_flag (c ! i)) \<and> b = (c ! 2 = CHR ''Y''))"
  by (auto simp: parseConsent_def split: if_splits)

lemma parseNoSaleLoop_Inr:
  "parseNoSaleLoop bs valid acc = Inr r \<Longrightarrow>
     set r = set bs \<union> set acc \<and> allBiddersMarker \<notin> set bs \<and> (\<forall>b \<in> set bs. valid b)"
  by (induction bs arbitrary: acc) (auto split: if_splits)

lemma parseNoSaleBidders_Inr:
  assumes "parseNoSaleBidders bs valid = Inr (a, r)"
  shows "a \<longleftrightarrow> bs = [allBiddersMarker]" and "\<not> a \<Longrightarrow> set r = set bs"
  using assms parseNoSaleLoop_Inr [of bs valid "[]"]
  by (auto simp: parseNoSaleBidders_def split: if_splits sum.splits)

lemma ccpa_Parse_Inr:
  assumes "ccpa_Parse p valid = Inr q"
  shows "ccpa_CanEnforce q \<longleftrightarrow> Consent p \<noteq> []"
    and "ccpa_ShouldEnforce q bidder \<longleftrightarrow>
           parseConsent (Consent p) = Inr True \<and> NoSaleBidders p \<noteq> [allBiddersMarker] \<and> bidder \<notin> set (NoSaleBidders p)"
proof -
  from assms obtain out a bs where c: "parseConsent (Consent p) = Inr out"
    and n: "parseNoSaleBidders (NoSaleBidders p) valid = Inr (a, bs)"
    and q: "q = \<lparr>consentSpecified = (Consent p \<noteq> []), consentOptOutSale = out,
                 noSaleForAllBidders = a, noSaleSpecificBidders = bs\<rparr>"
    by (auto simp: ccpa_Parse_def split: sum.splits)
  show "ccpa_CanEnforce q \<longleftrightarrow> Consent p \<noteq> []"
    by (simp add: q ccpa_CanEnforce_def)
  show "ccpa_ShouldEnforce q bidder \<longleftrightarrow>
      parseConsent (Consent p) = Inr True \<and> NoSaleBidders p \<noteq> [allBiddersMarker] \<and> bidder \<notin> set (NoSaleBidders p)"
    using parseNoSaleBidders_Inr [OF n] by (auto simp: q c ccpa_ShouldEnforce_def isNoSaleForBidder_def)
qed

interpretation ccpa: policy_enforcer "ccpa_CanEnforce (parsed_policy p v)" "ccpa_ShouldEnforce (parsed_policy p v)" for p v
proof
  fix bidder
  assume "ccpa_ShouldEnforce (parsed_policy p v) bidder"
  then show "ccpa_CanEnforce (parsed_policy p v)"
    using ccpa_Parse_Inr [of p v] parseConsent_Inr [of "Consent p" True]
    by (auto simp: parsed_policy_def ccpa_ShouldEnforce_def split: sum.splits)
qed

text \<open>
  CCPA. When the policy of a request parses, sale of data to a bidder is restricted exactly when
  the consent string has the four characters of version 1 with \<open>Y\<close> as the third, the request does
  not exempt all bidders with a star, and it does not name the bidder among the exempted ones. The
  policy can be enforced exactly when a consent string is given, and a restriction implies that.
\<close>

theorem ccpa_enforcement:
  assumes "ccpa_Parse p valid = Inr q"
  shows "(ccpa_ShouldEnforce q bidder \<longleftrightarrow>
            length (Consent p) = 4 \<and> Consent p ! 0 = CHR ''1'' \<and> Consent p ! 2 = CHR ''Y''
            \<and> NoSaleBidders p \<noteq> [''*''] \<and> bidder \<notin> set (NoSaleBidders p)) \<and>
         (ccpa_CanEnforce q \<longleftrightarrow> Consent p \<noteq> []) \<and>
         (ccpa_ShouldEnforce q bidder \<longrightarrow> ccpa_CanEnforce q)"
proof -
  from assms obtain b where "parseConsent (Consent p) = Inr b"
    by (auto simp: ccpa_Parse_def split: sum.splits)
  then have "parseConsent (Consent p) = Inr True \<longleftrightarrow>
      length (Consent p) = 4 \<and> Consent p ! 0 = CHR ''1'' \<and> Consent p ! 2 = CHR ''Y''"
    using parseConsent_Inr [of "Consent p" b] by auto
  moreover have "ccpa_ShouldEnforce q bidder \<Longrightarrow> ccpa_CanEnforce q"
    using ccpa.provided [of p valid bidder] assms by (simp add: parsed_policy_def)
  ultimately show ?thesis
    using ccpa_Parse_Inr [OF assms] by (auto simp: allBiddersMarker_def)
qed

theorem ccpa_enforcement_witness:
  "\<exists>q. ccpa_Parse \<lparr>Consent = ''1NYN'', NoSaleBidders = [''rubicon'']\<rparr> (\<lambda>b. b \<in> {''rubicon'', ''appnexus''}) = Inr q
     \<and> ccpa_ShouldEnforce q ''appnexus'' \<and> \<not> ccpa_ShouldEnforce q ''rubicon''"
proof -
  let ?p = "\<lparr>Consent = ''1NYN'', NoSaleBidders = [''rubicon'']\<rparr>"
  obtain q where q: "ccpa_Parse ?p (\<lambda>b. b \<in> {''rubicon'', ''appnexus''}) = Inr q"
    by (simp add: ccpa_Parse_def parseConsent_def ccpa_flag_def parseNoSaleBidders_def allBiddersMarker_def)
  show ?thesis
    using q ccpa_enforcement [OF q, of "''appnexus''"] ccpa_enforcement [OF q, of "''rubicon''"] by simp
qed

section \<open>Writing a policy and reading it back\<close>

lemma json_field_put:
  "wf_map m \<Longrightarrow> to_lower k = k \<Longrightarrow> json_field k (sort_key fst (put k v m)) = Some v"
  by (rule json_field_encoded) auto

lemma json_field_single: "json_field k [(k, v)] = Some v"
  by (simp add: json_field_def)

lemma lower_names:
  "to_lower ''us_privacy'' = ''us_privacy''" "to_lower ''prebid'' = ''prebid''" "to_lower ''nosale'' = ''nosale''"
  "to_lower ''consent'' = ''consent''"
  by code_simp+

lemma dec_ExtRegs_consent:
  assumes "unmarshal dec_ExtRegs (Raw (JObj kvs)) old = Some ext" and "json_field ''us_privacy'' kvs = Some (JStr c)"
  shows "er_USPrivacy ext = c"
  using assms by (auto simp: unmarshal_def dec_ExtRegs_def dec_struct_def field_def dec_field_def split: option.splits)

lemma buildRegsWrite_reads:
  assumes "buildRegsWrite c regs = Ok regs'"
  shows "\<exists>r kvs. regs' = Some r \<and> regs_Ext r = Raw (JObj kvs) \<and> json_field ''us_privacy'' kvs = Some (JStr c)"
proof -
  have "json_field ''us_privacy'' (sort_key fst (put ''us_privacy'' (JStr c) m)) = Some (JStr c)"
    if "unmarshal_ext_map r = Some (Some m)" for r m
    using unmarshal_ext_map_wf [OF that] by (simp add: json_field_put lower_names)
  with assms show ?thesis
    by (auto simp: buildRegsWrite_def encode_map_def json_field_single split: option.splits if_splits)
qed

lemma dec_ExtRequest_nosale:
  assumes "unmarshal dec_ExtRequest (Raw (JObj kvs)) old = Some p"
    and "json_field ''prebid'' kvs = Some (JObj pkvs)"
    and "json_field ''nosale'' pkvs = Some (JArr (map JStr bs))"
  shows "xp_NoSale p = bs"
  using assms
  by (auto simp: unmarshal_def dec_ExtRequest_def dec_ExtRequestPrebid_def dec_struct_def field_def
      dec_field_def [of "''prebid''"] dec_field_def [of "''nosale''"] simp del: dec_list.simps split: option.splits)

lemma buildExtWrite_reads:
  assumes "buildExtWrite bs ext = Ok ext'"
  shows "\<exists>kvs pkvs. ext' = Raw (JObj kvs) \<and> json_field ''prebid'' kvs = Some (JObj pkvs)
           \<and> json_field ''nosale'' pkvs = Some (JArr (map JStr bs))"
proof (cases "ext = RawEmpty")
  case True
  with assms show ?thesis by (auto simp: buildExtWrite_def json_field_single)
next
  case False
  with assms obtain m where m: "unmarshal_ext_map ext = Some (Some m)"
    by (auto simp: buildExtWrite_def split: option.splits)
  with False assms obtain prebid where
    p: "(case lookup m ''prebid'' of None \<Rightarrow> Some [] | Some (JObj prebid) \<Rightarrow> Some prebid | Some _ \<Rightarrow> None) = Some prebid"
    and e: "ext' = Raw (encode_map (put ''prebid'' (encode_map (put ''nosale'' (JArr (map JStr bs)) prebid)) m))"
    by (auto simp: buildExtWrite_def split: option.splits)
  have "wf_map m" by (rule unmarshal_ext_map_wf [OF m])
  moreover have "wf_map prebid"
    using p unmarshal_ext_map_wf_json [OF m, of "''prebid''"] by (auto split: option.splits json.splits)
  ultimately show ?thesis
    by (simp add: e encode_map_def json_field_put lower_names)
qed

text \<open>
  A CCPA policy written into a request is the policy read back: when both parts are present and
  the write succeeds, a read of the new request that succeeds gives the same consent string and the
  same exempted bidders, whatever the request held before.
\<close>

theorem ccpa_write_read:
  assumes "ccpa_Write p req = Ok req'" and "Consent p \<noteq> []" and "NoSaleBidders p \<noteq> []"
    and "ccpa_ReadFromRequest req' = Inr q"
  shows "q = p"
proof -
  from assms obtain regs ext where r: "buildRegsWrite (Consent p) (req_Regs req) = Ok regs"
    and x: "buildExtWrite (NoSaleBidders p) (req_Ext req) = Ok ext"
    and req': "req' = req\<lparr>req_Regs := regs, req_Ext := ext\<rparr>"
    by (auto simp: ccpa_Write_def buildRegs_def buildExt_def split: outcome.splits)
  from buildRegsWrite_reads [OF r] obtain g kvs where
    g: "regs = Some g" "regs_Ext g = Raw (JObj kvs)" "json_field ''us_privacy'' kvs = Some (JStr (Consent p))" by auto
  from buildExtWrite_reads [OF x] obtain xkvs pkvs where
    e: "ext = Raw (JObj xkvs)" "json_field ''prebid'' xkvs = Some (JObj pkvs)"
       "json_field ''nosale'' pkvs = Some (JArr (map JStr (NoSaleBidders p)))" by auto
  from assms(4) g e obtain er xp where
    "unmarshal dec_ExtRegs (Raw (JObj kvs)) zeroRegs = Some er"
    "unmarshal dec_ExtRequest (Raw (JObj xkvs)) zeroPrebid = Some xp"
    "q = \<lparr>Consent = er_USPrivacy er, NoSaleBidders = xp_NoSale xp\<rparr>"
    by (auto simp: ccpa_ReadFromRequest_def req' split: option.splits sum.splits)
  with dec_ExtRegs_consent [OF _ g(3)] dec_ExtRequest_nosale [OF _ e(2,3)] show ?thesis by simp
qed

definition example_ccpa :: CcpaPolicy where
  "example_ccpa = \<lparr>Consent = ''1NYN'', NoSaleBidders = [''rubicon'']\<rparr>"

definition ccpa_request :: BidRequest where
  "ccpa_request = example_request\<lparr>req_Regs := Some \<lparr>regs_COPPA = 0, regs_Ext = Raw (JObj [(''gdpr'', JInt 0), (''US_PRIVACY'', JStr ''1YNN'')])\<rparr>,
     req_Ext := Raw (JObj [(''prebid'', JObj [(''debug'', JBool True)])])\<rparr>"

theorem ccpa_write_read_witness:
  "\<exists>req'. ccpa_Write example_ccpa ccpa_request = Ok req' \<and> ccpa_ReadFromRequest req' = Inr example_ccpa"
proof -
  obtain req' where w: "ccpa_Write example_ccpa ccpa_request = Ok req'"
    and k: "(case ccpa_Write example_ccpa ccpa_request of Ok r \<Rightarrow> (case ccpa_ReadFromRequest r of Inr _ \<Rightarrow> True | _ \<Rightarrow> False) | _ \<Rightarrow> False)"
  proof -
    have "(case ccpa_Write example_ccpa ccpa_request of Ok r \<Rightarrow> (case ccpa_ReadFromRequest r of Inr _ \<Rightarrow> True | _ \<Rightarrow> False) | _ \<Rightarrow> False)"
      by code_simp
    then show thesis using that by (auto split: outcome.splits)
  qed
  then obtain q where q: "ccpa_ReadFromRequest req' = Inr q" by (auto split: sum.splits)
  have "q = example_ccpa"
    by (rule ccpa_write_read [OF w _ _ q]) (simp_all add: example_ccpa_def)
  with w q show ?thesis by blast
qed

text \<open>
  The same encoding makes the GDPR consent readable. An extension that is the JSON value null makes
  both writers panic, since it decodes to the nil map.
\<close>

lemma gdpr_consent_written:
  assumes "gdpr_ConsentWriter_Write c req = Ok req'" and "c \<noteq> []"
  shows "\<exists>u kvs. req_User req' = Some u \<and> user_Ext u = Raw (JObj kvs) \<and> json_field ''consent'' kvs = Some (JStr c)"
proof -
  have "json_field ''consent'' (sort_key fst (put ''consent'' (JStr c) m)) = Some (JStr c)"
    if "unmarshal_ext_map r = Some (Some m)" for r m
    using unmarshal_ext_map_wf [OF that] by (simp add: json_field_put lower_names)
  with assms show ?thesis
    by (auto simp: gdpr_ConsentWriter_Write_def Let_def encode_map_def json_field_single split: option.splits if_splits)
qed

lemma gdpr_writer_panics:
  "c \<noteq> [] \<Longrightarrow> req_User req = Some u \<Longrightarrow> user_Ext u = Raw JNull \<Longrightarrow> gdpr_ConsentWriter_Write c req = Panic"
  by (simp add: gdpr_ConsentWriter_Write_def unmarshal_ext_map_def)

lemma ccpa_writer_panics:
  "c \<noteq> [] \<Longrightarrow> req_Regs req = Some r \<Longrightarrow> regs_Ext r = Raw JNull \<Longrightarrow> ccpa_ConsentWriter_Write c req = Panic"
  by (simp add: ccpa_ConsentWriter_Write_def buildRegs_def buildRegsWrite_def unmarshal_ext_map_def)

section \<open>Limit ad tracking on iOS\<close>

lemma classify_142:
  assumes "is_int64 a" and "is_int64 b"
    and "CHR ''.'' \<notin> set (itoa a)" and "CHR ''.'' \<notin> set (itoa b)"
    and "itoa a @ ''.'' @ itoa b \<noteq> ''14.0''" and "itoa a @ ''.'' @ itoa b \<noteq> ''14.1''"
  shows "DetectVersionClassification (itoa a @ ''.'' @ itoa b) =
     (if a > 14 \<or> (a = 14 \<and> b \<ge> 2) then Version142OrGreater else VersionUnknown)"
  using assms
  by (auto simp: DetectVersionClassification_def ParseVersion_def split_on_append split_on_no_sep
      atoi_itoa EqualOrGreater_def)

text \<open>
  Limit ad tracking after the iOS correction of an app request on an iOS device. On 14.0 and 14.1
  tracking is limited exactly when the advertising id is missing or all zeros; from 14.2 on it
  is limited for a restricted or denied tracking status, allowed for the other two, and as the
  request says when there is no readable status; on other versions as the request says. Nothing but
  the flag of the device changes.
\<close>

theorem ios_limit_ad_tracking:
  assumes "isRequestForIOS req" and "req_Device req = Some d"
  shows "lmt_ShouldEnforce (lmt_ReadFromRequest (ModifyForIOS getATTS req)) bidder =
      (case DetectVersionClassification (dev_OSV d) of
         VersionUnknown \<Rightarrow> dev_Lmt d = Some 1
       | Version142OrGreater \<Rightarrow> (case ParseDeviceExtATTS getATTS (dev_Ext d) of
            Inr (Some s) \<Rightarrow> s \<in> {Restricted, Denied}
          | _ \<Rightarrow> dev_Lmt d = Some 1)
       | _ \<Rightarrow> dev_IFA d \<in> {[], ''00000000-0000-0000-0000-000000000000''}) \<and>
    (\<exists>l. ModifyForIOS getATTS req = req\<lparr>req_Device := Some (d\<lparr>dev_Lmt := l\<rparr>)\<rparr>)"
proof -
  define d' where "d' = (case DetectVersionClassification (dev_OSV d) of
      Version140 \<Rightarrow> modifyForIOS14X d | Version141 \<Rightarrow> modifyForIOS14X d
    | Version142OrGreater \<Rightarrow> modifyForIOS142OrGreater getATTS d | VersionUnknown \<Rightarrow> d)"
  have m: "ModifyForIOS getATTS req = req\<lparr>req_Device := Some d'\<rparr>"
    using assms by (simp add: ModifyForIOS_def d'_def)
  have "\<exists>l. d' = d\<lparr>dev_Lmt := l\<rparr>"
  proof -
    have self: "\<exists>l. d = d\<lparr>dev_Lmt := l\<rparr>" by (rule exI [of _ "dev_Lmt d"]) simp
    show ?thesis
      unfolding d'_def modifyForIOS14X_def modifyForIOS142OrGreater_def
      by (auto split: VersionClassification.splits sum.splits option.splits IOSAppTrackingStatus.splits intro: self)
  qed
  moreover have "lmt_ShouldEnforce (lmt_ReadFromRequest (req\<lparr>req_Device := Some d'\<rparr>)) bidder \<longleftrightarrow> dev_Lmt d' = Some 1"
    by (auto simp: lmt_ShouldEnforce_def lmt_ReadFromRequest_def split: option.splits)
  moreover have "dev_Lmt d' = Some 1 \<longleftrightarrow> (case DetectVersionClassification (dev_OSV d) of
         VersionUnknown \<Rightarrow> dev_Lmt d = Some 1
       | Version142OrGreater \<Rightarrow> (case ParseDeviceExtATTS getATTS (dev_Ext d) of
            Inr (Some s) \<Rightarrow> s \<in> {Restricted, Denied}
          | _ \<Rightarrow> dev_Lmt d = Some 1)
       | _ \<Rightarrow> dev_IFA d \<in> {[], ''00000000-0000-0000-0000-000000000000''})"
    unfolding d'_def modifyForIOS14X_def modifyForIOS142OrGreater_def
    by (simp split: VersionClassification.split sum.split option.split IOSAppTrackingStatus.split)
  ultimately show ?thesis unfolding m by metis
qed

theorem ios_limit_ad_tracking_witness:
  "lmt_ShouldEnforce (lmt_ReadFromRequest (ModifyForIOS (\<lambda>_. Inr (Some 2))
     (example_request\<lparr>req_App := Some emptyApp, req_Device := Some (example_device\<lparr>dev_OS := ''iOS'', dev_OSV := ''15.1'', dev_Lmt := Some 0\<rparr>)\<rparr>))) ''appnexus''"
proof -
  let ?d = "example_device\<lparr>dev_OS := ''iOS'', dev_OSV := ''15.1'', dev_Lmt := Some 0\<rparr>"
  let ?r = "example_request\<lparr>req_App := Some emptyApp, req_Device := Some ?d\<rparr>"
  have "isRequestForIOS ?r" by code_simp
  moreover have "DetectVersionClassification (dev_OSV ?d) = Version142OrGreater" by code_simp
  moreover have "ParseDeviceExtATTS (\<lambda>_. Inr (Some 2)) (dev_Ext ?d) = Inr (Some Denied)" by code_simp
  ultimately show ?thesis
    using ios_limit_ad_tracking [of ?r ?d "\<lambda>_. Inr (Some 2)" "''appnexus''"] by simp
qed

end
