(* ===== verification/Gdpr.thy ===== *)
theory Gdpr
  imports Request_Ext
begin

text \<open>
  Package \<open>gdpr\<close>: the permissions that decide about cookies, user syncs and auctions under GDPR, and
  the vendor lists they consult. The consent strings and vendor lists are those of the library
  \<open>github.com/prebid/go-gdpr\<close>: its interfaces are the records \<open>Tcf2Consent\<close>, \<open>VendorConsents\<close>,
  \<open>Vendor\<close> and \<open>VendorList\<close> of the answers the code asks for, and its parsers are the parameters
  \<open>parseString\<close> and \<open>parseEagerly\<close>. The calls of one vendor list fetcher are taken one after the other.
\<close>

section \<open>Signals and parsed consents\<close>

text \<open>A signal is any integer a request holds; three values have names.\<close>

type_synonym Signal = int

definition SignalAmbiguous :: Signal where [simp]: "SignalAmbiguous = - 1"
definition SignalNo :: Signal where [simp]: "SignalNo = 0"
definition SignalYes :: Signal where [simp]: "SignalYes = 1"

definition SignalParse :: "string \<Rightarrow> Signal \<times> go_error option" where
  "SignalParse rawSignal =
     (if rawSignal = [] then (SignalAmbiguous, None)
      else (case atoi rawSignal of
              None \<Rightarrow> (SignalAmbiguous, Some (OtherError ''strconv.Atoi: parsing''))
            | Some i \<Rightarrow>
                if i \<noteq> 0 \<and> i \<noteq> 1
                then (SignalAmbiguous, Some (BadInput ''GDPR signal should be integer 0 or 1''))
                else (i, None)))"

record Tcf2Consent =
  PurposeOneTreatment :: bool
  CheckPubRestriction :: "int \<Rightarrow> int \<Rightarrow> int \<Rightarrow> bool"
  PurposeAllowed :: "int \<Rightarrow> bool"
  PurposeLITransparency :: "int \<Rightarrow> bool"
  VendorConsent :: "int \<Rightarrow> bool"
  VendorLegitInterest :: "int \<Rightarrow> bool"
  SpecialFeatureOptIn :: "int \<Rightarrow> bool"

record VendorConsents =
  ConsentVersion :: int
  VendorListVersion :: int
  tcf2_metadata :: "Tcf2Consent option"

record Vendor =
  Purpose :: "int \<Rightarrow> bool"
  LegitimateInterest :: "int \<Rightarrow> bool"
  SpecialPurpose :: "int \<Rightarrow> bool"

record VendorList =
  ListVersion :: int
  ListVendor :: "int \<Rightarrow> Vendor option"

definition vendorTrue :: Vendor where
  "vendorTrue = \<lparr>Purpose = (\<lambda>_. True), LegitimateInterest = (\<lambda>_. True), SpecialPurpose = (\<lambda>_. True)\<rparr>"

section \<open>Permissions\<close>

record GdprConfig =
  Enabled :: bool
  HostVendorID :: int
  DefaultValue :: string
  NonStandardPublishers :: "string list"
  NonStandardPublisherMap :: "string list"
  EEACountries :: "string list"
  EEACountriesMap :: "string list"
  TCF2_Enabled :: bool
  Purpose1_Enabled :: bool
  Purpose2_Enabled :: bool
  SpecialPurpose1_Enabled :: bool
  P1T_Enabled :: bool
  P1T_AccessAllowed :: bool

text \<open>
  The fetcher of vendor lists is called with a version and may change its cache; what it answers in
  one call of the permissions is the argument \<open>fetchVendorList\<close>.
\<close>

record permissionsImpl =
  cfg :: GdprConfig
  gdprDefaultValue :: Signal
  vendorIDs :: "(bidderName, int) gomap"
  fetchVendorList :: "int \<Rightarrow> go_error + VendorList"

type_synonym parse_string = "string \<Rightarrow> go_error + VendorConsents"

definition normalizeGDPR :: "permissionsImpl \<Rightarrow> Signal \<Rightarrow> Signal" where
  "normalizeGDPR p gdprSignal =
     (if gdprSignal \<noteq> SignalAmbiguous then gdprSignal
      else if gdprDefaultValue p = SignalNo then SignalNo else SignalYes)"

definition parseVendor ::
  "parse_string \<Rightarrow> permissionsImpl \<Rightarrow> int \<Rightarrow> string \<Rightarrow> go_error + (VendorConsents \<times> Vendor option)" where
  "parseVendor parseString p vendorID consent = (case parseString consent of
     Inl e \<Rightarrow> Inl (OtherError (''malformed consent string '' @ consent @ '': '' @ Error e))
   | Inr parsed \<Rightarrow>
       if ConsentVersion parsed \<noteq> 2 then Inr (parsed, None)
       else (case fetchVendorList p (VendorListVersion parsed) of
               Inl e \<Rightarrow> Inl e
             | Inr vl \<Rightarrow> Inr (parsed, ListVendor vl vendorID)))"

definition checkPurpose :: "permissionsImpl \<Rightarrow> Tcf2Consent \<Rightarrow> Vendor \<Rightarrow> int \<Rightarrow> int \<Rightarrow> bool \<Rightarrow> bool" where
  "checkPurpose p consent vendor vendorID purpose weak =
     (if purpose = 1 \<and> P1T_Enabled (cfg p) \<and> PurposeOneTreatment consent then P1T_AccessAllowed (cfg p)
      else if CheckPubRestriction consent purpose 0 vendorID then False
      else (let purposeAllowed = (PurposeAllowed consent purpose
                  \<and> (weak \<or> (Purpose vendor purpose \<and> VendorConsent consent vendorID)));
                legitInterest = (PurposeLITransparency consent purpose
                  \<and> (weak \<or> (LegitimateInterest vendor purpose \<and> VendorLegitInterest consent vendorID)))
            in if CheckPubRestriction consent purpose 1 vendorID then purposeAllowed
               else if CheckPubRestriction consent purpose 2 vendorID then legitInterest
               else purposeAllowed \<or> legitInterest))"

definition allowSync :: "parse_string \<Rightarrow> permissionsImpl \<Rightarrow> int \<Rightarrow> string \<Rightarrow> go_error + bool" where
  "allowSync parseString p vendorID consent =
     (if consent = [] then Inr False
      else (case parseVendor parseString p vendorID consent of
              Inl e \<Rightarrow> Inl e
            | Inr (parsed, None) \<Rightarrow> Inr False
            | Inr (parsed, Some vendor) \<Rightarrow>
                if \<not> Purpose1_Enabled (cfg p) then Inr True
                else (case tcf2_metadata parsed of
                        None \<Rightarrow> Inl (OtherError ''Unable to access TCF2 parsed consent'')
                      | Some meta \<Rightarrow> Inr (checkPurpose p meta vendor vendorID 1 False))))"

text \<open>The first purpose of 2 to 10 that is allowed lets the id pass.\<close>

definition allowActivities ::
  "parse_string \<Rightarrow> permissionsImpl \<Rightarrow> int \<Rightarrow> string \<Rightarrow> bool \<Rightarrow> go_error + (bool \<times> bool \<times> bool)" where
  "allowActivities parseString p vendorID consent weak =
     (case parseVendor parseString p vendorID consent of
        Inl e \<Rightarrow> Inl e
      | Inr (parsed, v) \<Rightarrow>
          (case (case v of Some w \<Rightarrow> Some w | None \<Rightarrow> if weak \<and> ConsentVersion parsed = 2 then Some vendorTrue else None) of
             None \<Rightarrow> Inr (False, False, False)
           | Some vendor \<Rightarrow>
               if \<not> TCF2_Enabled (cfg p) then Inr (True, False, False)
               else (case tcf2_metadata parsed of
                       None \<Rightarrow> Inl (OtherError ''Unable to access TCF2 parsed consent'')
                     | Some meta \<Rightarrow>
                         Inr (if Purpose2_Enabled (cfg p) then checkPurpose p meta vendor vendorID 2 weak else True,
                              if SpecialPurpose1_Enabled (cfg p)
                              then SpecialFeatureOptIn meta 1 \<and> (SpecialPurpose vendor 1 \<or> weak) else True,
                              list_ex (\<lambda>i. checkPurpose p meta vendor vendorID i weak) [2, 3, 4, 5, 6, 7, 8, 9, 10]))))"

definition impl_HostCookiesAllowed :: "parse_string \<Rightarrow> permissionsImpl \<Rightarrow> Signal \<Rightarrow> string \<Rightarrow> go_error + bool" where
  "impl_HostCookiesAllowed parseString p gdprSignal consent =
     (if normalizeGDPR p gdprSignal = SignalNo then Inr True
      else allowSync parseString p (HostVendorID (cfg p) mod 65536) consent)"

definition impl_BidderSyncAllowed :: "parse_string \<Rightarrow> permissionsImpl \<Rightarrow> bidderName \<Rightarrow> Signal \<Rightarrow> string \<Rightarrow> go_error + bool" where
  "impl_BidderSyncAllowed parseString p bidder gdprSignal consent =
     (if normalizeGDPR p gdprSignal = SignalNo then Inr True
      else (case lookup (vendorIDs p) bidder of
              Some vid \<Rightarrow> allowSync parseString p vid consent
            | None \<Rightarrow> Inr False))"

text \<open>
  What an auction may do, as (send the request, pass geo, pass ids). The TCF 2 check of
  \<open>allowActivities\<close> is disabled in the code: only the consent string \<open>1\<close> counts.
\<close>

definition impl_AuctionActivitiesAllowed ::
  "permissionsImpl \<Rightarrow> bidderName \<Rightarrow> string \<Rightarrow> Signal \<Rightarrow> string \<Rightarrow> bool \<Rightarrow> go_error + (bool \<times> bool \<times> bool)" where
  "impl_AuctionActivitiesAllowed p bidder publisherID gdprSignal consent weak =
     (if publisherID \<in> set (NonStandardPublisherMap (cfg p)) then Inr (True, True, True)
      else (let signal = normalizeGDPR p gdprSignal
            in if signal = SignalNo then Inr (True, True, True)
               else if consent = ''1'' \<and> signal = SignalYes then Inr (True, True, True)
               else Inr (True, False, False)))"

section \<open>The Permissions interface\<close>

datatype Permissions = AlwaysAllow | AllowHostCookies permissionsImpl | PermissionsImpl permissionsImpl

definition NewPermissions :: "GdprConfig \<Rightarrow> (bidderName, int) gomap \<Rightarrow> (int \<Rightarrow> go_error + VendorList) \<Rightarrow> Permissions" where
  "NewPermissions c ids fetcher =
     (if \<not> Enabled c then AlwaysAllow
      else (let impl = \<lparr>cfg = c, gdprDefaultValue = (if DefaultValue c = ''0'' then SignalNo else SignalYes),
                        vendorIDs = ids, fetchVendorList = fetcher\<rparr>
            in if HostVendorID c = 0 then AllowHostCookies impl else PermissionsImpl impl))"

fun HostCookiesAllowed :: "parse_string \<Rightarrow> Permissions \<Rightarrow> Signal \<Rightarrow> string \<Rightarrow> go_error + bool" where
  "HostCookiesAllowed parseString AlwaysAllow gdprSignal consent = Inr True"
| "HostCookiesAllowed parseString (AllowHostCookies p) gdprSignal consent = Inr True"
| "HostCookiesAllowed parseString (PermissionsImpl p) gdprSignal consent =
     impl_HostCookiesAllowed parseString p gdprSignal consent"

fun BidderSyncAllowed :: "parse_string \<Rightarrow> Permissions \<Rightarrow> bidderName \<Rightarrow> Signal \<Rightarrow> string \<Rightarrow> go_error + bool" where
  "BidderSyncAllowed parseString AlwaysAllow bidder gdprSignal consent = Inr True"
| "BidderSyncAllowed parseString (AllowHostCookies p) bidder gdprSignal consent =
     impl_BidderSyncAllowed parseString p bidder gdprSignal consent"
| "BidderSyncAllowed parseString (PermissionsImpl p) bidder gdprSignal consent =
     impl_BidderSyncAllowed parseString p bidder gdprSignal consent"

fun AuctionActivitiesAllowed ::
  "Permissions \<Rightarrow> bidderName \<Rightarrow> string \<Rightarrow> Signal \<Rightarrow> string \<Rightarrow> bool \<Rightarrow> go_error + (bool \<times> bool \<times> bool)" where
  "AuctionActivitiesAllowed AlwaysAllow bidder pub gdprSignal consent weak = Inr (True, True, True)"
| "AuctionActivitiesAllowed (AllowHostCookies p) bidder pub gdprSignal consent weak =
     impl_AuctionActivitiesAllowed p bidder pub gdprSignal consent weak"
| "AuctionActivitiesAllowed (PermissionsImpl p) bidder pub gdprSignal consent weak =
     impl_AuctionActivitiesAllowed p bidder pub gdprSignal consent weak"

text \<open>
  What every implementation promises its callers: without GDPR everything is allowed, and the
  auction is never blocked.
\<close>

locale gdpr_permissions =
  fixes hostCookies :: "Signal \<Rightarrow> string \<Rightarrow> go_error + bool"
    and bidderSync :: "bidderName \<Rightarrow> Signal \<Rightarrow> string \<Rightarrow> go_error + bool"
    and activities :: "bidderName \<Rightarrow> string \<Rightarrow> Signal \<Rightarrow> string \<Rightarrow> bool \<Rightarrow> go_error + (bool \<times> bool \<times> bool)"
  assumes host_no_gdpr: "hostCookies SignalNo consent = Inr True"
    and sync_no_gdpr: "bidderSync bidder SignalNo consent = Inr True"
    and activities_no_gdpr: "activities bidder pub SignalNo consent weak = Inr (True, True, True)"
    and activities_total: "\<exists>pass. activities bidder pub s consent weak = Inr (True, pass, pass)"
begin

lemma activities_cases:
  obtains "activities bidder pub s consent weak = Inr (True, True, True)"
    | "activities bidder pub s consent weak = Inr (True, False, False)" and "s \<noteq> SignalNo"
  using activities_total [of bidder pub s consent weak] activities_no_gdpr [of bidder pub consent weak]
  by (cases "s = SignalNo"; metis (full_types))

lemma activities_no_error: "activities bidder pub s consent weak \<noteq> Inl e"
  using activities_total [of bidder pub s consent weak] by auto

end

interpretation perms: gdpr_permissions
  "HostCookiesAllowed parseString p" "BidderSyncAllowed parseString p" "AuctionActivitiesAllowed p" for parseString p
  by unfold_locales
     (cases p; auto simp: impl_HostCookiesAllowed_def impl_BidderSyncAllowed_def
        impl_AuctionActivitiesAllowed_def normalizeGDPR_def Let_def)+

section \<open>Vendor lists\<close>

text \<open>
  The cache of vendor lists by version and the time (in nanoseconds) of the last download; Go's
  zero time is the start of year 1.
\<close>

record vendor_fetcher =
  vl_cache :: "int \<Rightarrow> VendorList option"
  lastSaved :: int

definition zero_time :: int where
  "zero_time = - 62135596800 * 1000000000"

text \<open>The result of a GET: an error, or the status and the body that could be read.\<close>

type_synonym 'b http_get = "string \<Rightarrow> (int \<times> 'b) option"

definition saveOne ::
  "'b http_get \<Rightarrow> ('b \<Rightarrow> VendorList option) \<Rightarrow> string \<Rightarrow> (int \<Rightarrow> VendorList option) \<Rightarrow> (int \<Rightarrow> VendorList option) \<times> int" where
  "saveOne http parseEagerly url cache = (case http url of
     None \<Rightarrow> (cache, 0)
   | Some (status, body) \<Rightarrow>
       if status \<noteq> 200 then (cache, 0)
       else (case parseEagerly body of
               None \<Rightarrow> (cache, 0)
             | Some newList \<Rightarrow> (cache(ListVersion newList \<mapsto> newList), ListVersion newList)))"

definition vendorListURLMaker :: "int \<Rightarrow> string" where
  "vendorListURLMaker v =
     (if v = 0 then ''https://vendor-list.consensu.org/v2/vendor-list.json''
      else ''https://vendor-list.consensu.org/v2/archives/vendor-list-v'' @ itoa v @ ''.json'')"

fun preload_from :: "'b http_get \<Rightarrow> ('b \<Rightarrow> VendorList option) \<Rightarrow> nat \<Rightarrow> int \<Rightarrow> (int \<Rightarrow> VendorList option) \<Rightarrow> (int \<Rightarrow> VendorList option)" where
  "preload_from http parseEagerly 0 i cache = cache"
| "preload_from http parseEagerly (Suc n) i cache =
     preload_from http parseEagerly n (i + 1) (fst (saveOne http parseEagerly (vendorListURLMaker i) cache))"

text \<open>Versions 2 up to the one before the latest.\<close>

definition preloadCache :: "'b http_get \<Rightarrow> ('b \<Rightarrow> VendorList option) \<Rightarrow> (int \<Rightarrow> VendorList option) \<Rightarrow> (int \<Rightarrow> VendorList option)" where
  "preloadCache http parseEagerly cache =
     (case saveOne http parseEagerly (vendorListURLMaker 0) cache of
        (c, latest) \<Rightarrow> preload_from http parseEagerly (nat (latest - 2)) 2 c)"

definition newVendorListFetcher :: "'b http_get \<Rightarrow> ('b \<Rightarrow> VendorList option) \<Rightarrow> vendor_fetcher" where
  "newVendorListFetcher http parseEagerly =
     \<lparr>vl_cache = preloadCache http parseEagerly (\<lambda>_. None), lastSaved = zero_time\<rparr>"

text \<open>\<open>Duration.Minutes\<close>: the whole minutes and the fraction.\<close>

definition duration_minutes :: "int \<Rightarrow> float64" where
  "duration_minutes d =
     (let m = sgn d * (\<bar>d\<bar> div 60000000000); nsec = sgn d * (\<bar>d\<bar> mod 60000000000)
      in fadd (rnd (of_int m)) (fdiv (rnd (of_int nsec)) (Fin 60000000000)))"

definition occasional_save ::
  "'b http_get \<Rightarrow> ('b \<Rightarrow> VendorList option) \<Rightarrow> int \<Rightarrow> string \<Rightarrow> vendor_fetcher \<Rightarrow> vendor_fetcher" where
  "occasional_save http parseEagerly now url st =
     (if flt (Fin 10) (duration_minutes (time_sub now (lastSaved st)))
      then \<lparr>vl_cache = fst (saveOne http parseEagerly url (vl_cache st)), lastSaved = now\<rparr>
      else st)"

definition fetch_vendor_list ::
  "'b http_get \<Rightarrow> ('b \<Rightarrow> VendorList option) \<Rightarrow> int \<Rightarrow> int \<Rightarrow> vendor_fetcher \<Rightarrow> (go_error + VendorList) \<times> vendor_fetcher" where
  "fetch_vendor_list http parseEagerly now version st = (case vl_cache st version of
     Some vl \<Rightarrow> (Inr vl, st)
   | None \<Rightarrow>
       (let st' = occasional_save http parseEagerly now (vendorListURLMaker version) st
        in case vl_cache st' version of
             Some vl \<Rightarrow> (Inr vl, st')
           | None \<Rightarrow> (Inl (OtherError (''gdpr vendor list version '' @ itoa version @
               '' does not exist, or has not been loaded yet. Try again in a few minutes'')), st')))"

section \<open>What the permissions grant\<close>

lemma checkPurpose_one:
  "checkPurpose p meta vendor vid 1 False \<longleftrightarrow>
     (if P1T_Enabled (cfg p) \<and> PurposeOneTreatment meta then P1T_AccessAllowed (cfg p)
      else \<not> CheckPubRestriction meta 1 0 vid \<and>
        (PurposeAllowed meta 1 \<and> Purpose vendor 1 \<and> VendorConsent meta vid \<and>
           (CheckPubRestriction meta 1 1 vid \<or> \<not> CheckPubRestriction meta 1 2 vid)
         \<or> PurposeLITransparency meta 1 \<and> LegitimateInterest vendor 1 \<and> VendorLegitInterest meta vid \<and> \<not> CheckPubRestriction meta 1 1 vid))"
  by (auto simp: checkPurpose_def Let_def)

lemma allowSync_granted:
  "allowSync parseString p vid consent = Inr True \<longleftrightarrow>
     consent \<noteq> [] \<and> (\<exists>parsed vl vendor. parseString consent = Inr parsed \<and> ConsentVersion parsed = 2
       \<and> fetchVendorList p (VendorListVersion parsed) = Inr vl \<and> ListVendor vl vid = Some vendor
       \<and> (Purpose1_Enabled (cfg p) \<longrightarrow> (\<exists>meta. tcf2_metadata parsed = Some meta \<and> checkPurpose p meta vendor vid 1 False)))"
  by (auto simp: allowSync_def parseVendor_def split: if_splits sum.splits option.splits)

text \<open>
  C35. Under GDPR a bidder may sync users only with consent. When GDPR is enabled and applies, the sync of a bidder
  is allowed exactly when there is a consent string of version 2 whose vendor list knows the bidder's vendor
  and, with purpose 1 enforced, the user has granted purpose 1 to the vendor: by consent, unless
  the publisher asks for a legitimate interest, or by a legitimate interest, unless the publisher asks for consent; and never when
  the publisher forbids purpose 1 to the vendor. The one exception is the special treatment of purpose 1: when the host
  enables it and the consent string asks for it, the setting of the host alone decides.
\<close>

theorem sync_requires_consent:
  assumes "Enabled c" and "signal = SignalYes \<or> signal = SignalAmbiguous \<and> DefaultValue c \<noteq> ''0''"
  shows "BidderSyncAllowed parseString (NewPermissions c ids fetcher) bidder signal consent = Inr True \<longleftrightarrow>
    consent \<noteq> [] \<and> (\<exists>vid parsed vl vendor. lookup ids bidder = Some vid
    \<and> parseString consent = Inr parsed \<and> ConsentVersion parsed = 2
    \<and> fetcher (VendorListVersion parsed) = Inr vl \<and> ListVendor vl vid = Some vendor
    \<and> (Purpose1_Enabled c \<longrightarrow> (\<exists>meta. tcf2_metadata parsed = Some meta \<and>
        (if P1T_Enabled c \<and> PurposeOneTreatment meta then P1T_AccessAllowed c
         else \<not> CheckPubRestriction meta 1 0 vid \<and>
           (PurposeAllowed meta 1 \<and> Purpose vendor 1 \<and> VendorConsent meta vid \<and>
              (CheckPubRestriction meta 1 1 vid \<or> \<not> CheckPubRestriction meta 1 2 vid)
            \<or> PurposeLITransparency meta 1 \<and> LegitimateInterest vendor 1 \<and> VendorLegitInterest meta vid \<and>
              \<not> CheckPubRestriction meta 1 1 vid)))))"
proof -
  define p where "p = \<lparr>cfg = c, gdprDefaultValue = (if DefaultValue c = ''0'' then SignalNo else SignalYes),
                        vendorIDs = ids, fetchVendorList = fetcher\<rparr>"
  have "BidderSyncAllowed parseString (NewPermissions c ids fetcher) bidder signal consent =
      impl_BidderSyncAllowed parseString p bidder signal consent"
    using assms(1) by (auto simp: NewPermissions_def p_def Let_def)
  moreover have "normalizeGDPR p signal \<noteq> SignalNo"
    using assms(2) by (auto simp: normalizeGDPR_def p_def)
  ultimately have "BidderSyncAllowed parseString (NewPermissions c ids fetcher) bidder signal consent = Inr True \<longleftrightarrow>
      (\<exists>vid. lookup ids bidder = Some vid \<and> allowSync parseString p vid consent = Inr True)"
    by (auto simp: impl_BidderSyncAllowed_def p_def split: option.splits)
  moreover have "cfg p = c" "fetchVendorList p = fetcher" by (simp_all add: p_def)
  ultimately show ?thesis unfolding allowSync_granted checkPurpose_one by auto
qed

definition example_gdpr_config :: GdprConfig where
  "example_gdpr_config = \<lparr>Enabled = True, HostVendorID = 52, DefaultValue = ''1'',
     NonStandardPublishers = [], NonStandardPublisherMap = [], EEACountries = [''FRA''], EEACountriesMap = [],
     TCF2_Enabled = True, Purpose1_Enabled = True, Purpose2_Enabled = True, SpecialPurpose1_Enabled = True,
     P1T_Enabled = False, P1T_AccessAllowed = False\<rparr>"

definition example_meta :: Tcf2Consent where
  "example_meta = \<lparr>PurposeOneTreatment = False, CheckPubRestriction = (\<lambda>_ _ _. False), PurposeAllowed = (\<lambda>n. n = 1),
     PurposeLITransparency = (\<lambda>_. False), VendorConsent = (\<lambda>v. v = 32), VendorLegitInterest = (\<lambda>_. False),
     SpecialFeatureOptIn = (\<lambda>_. False)\<rparr>"

definition example_parse :: parse_string where
  "example_parse s = (if s = ''CO'' then Inr \<lparr>ConsentVersion = 2, VendorListVersion = 7, tcf2_metadata = Some example_meta\<rparr>
     else Inl (OtherError ''bad''))"

definition example_fetcher :: "int \<Rightarrow> go_error + VendorList" where
  "example_fetcher v = Inr \<lparr>ListVersion = v, ListVendor = (\<lambda>i. if i = 32 then Some vendorTrue else None)\<rparr>"

theorem sync_requires_consent_witness:
  "BidderSyncAllowed example_parse (NewPermissions example_gdpr_config [(''appnexus'', 32)] example_fetcher)
     ''appnexus'' SignalYes ''CO'' = Inr True
   \<and> (\<exists>parsed. example_parse ''CO'' = Inr parsed \<and> ConsentVersion parsed = 2)"
proof -
  have b: "BidderSyncAllowed example_parse (NewPermissions example_gdpr_config [(''appnexus'', 32)] example_fetcher)
     ''appnexus'' SignalYes ''CO'' = Inr True"
    by (simp add: NewPermissions_def example_gdpr_config_def impl_BidderSyncAllowed_def normalizeGDPR_def allowSync_def
        parseVendor_def example_parse_def example_fetcher_def checkPurpose_def example_meta_def vendorTrue_def)
  have "Enabled example_gdpr_config" by (simp add: example_gdpr_config_def)
  from sync_requires_consent [OF this, of SignalYes example_parse "[(''appnexus'', 32)]" example_fetcher "''appnexus''" "''CO''"] b
  show ?thesis by blast
qed

section \<open>Rate-limited downloads\<close>

lemma fadd_le:
  assumes "fle x (Fin a)" and "fle y (Fin b)" and "x \<noteq> NaN" and "y \<noteq> NaN"
  shows "fle (fadd x y) (rnd (a + b))"
  using assms by (cases x; cases y) (auto intro: rnd_mono)

lemma ten_minutes: "d \<le> 600000000000 \<Longrightarrow> fle (duration_minutes d) (Fin 10)"
proof (cases "d = 600000000000")
  case True
  have "fle (duration_minutes 600000000000) (Fin 10)" by code_simp
  with True show ?thesis by simp
next
  case False
  assume "d \<le> 600000000000"
  with False have d: "d < 600000000000" by simp
  let ?m = "sgn d * (\<bar>d\<bar> div 60000000000)" and ?n = "sgn d * (\<bar>d\<bar> mod 60000000000)"
  have m: "?m \<le> 9" and n: "?n \<le> 60000000000"
  proof -
    have dm: "0 \<le> \<bar>d\<bar> mod 60000000000" "\<bar>d\<bar> mod 60000000000 < 60000000000" "0 \<le> \<bar>d\<bar> div 60000000000"
      by (simp_all add: pos_imp_zdiv_nonneg_iff)
    show "?n \<le> 60000000000" using dm by (cases "d > 0"; cases "d = 0") (simp_all add: sgn_if)
    show "?m \<le> 9" using dm d by (cases "d > 0"; cases "d = 0") (simp_all add: sgn_if)
  qed
  have r: "rnd 9 = Fin 9" "rnd 60000000000 = Fin 60000000000" "rnd 1 = Fin 1" "rnd 10 = Fin 10"
    using rnd_int_exact [of 9] rnd_int_exact [of 60000000000] rnd_int_exact [of 1] rnd_int_exact [of 10] by simp_all
  have "(of_int ?m :: rat) \<le> of_int 9" using m by (simp only: of_int_le_iff)
  then have 1: "fle (rnd (of_int ?m)) (Fin 9)" using rnd_mono [of "of_int ?m" 9] r by simp
  have "(of_int ?n :: rat) \<le> of_int 60000000000" using n by (simp only: of_int_le_iff)
  then have "fle (rnd (of_int ?n)) (Fin 60000000000)" using rnd_mono [of "of_int ?n" 60000000000] r by simp
  then have 2: "fle (fdiv (rnd (of_int ?n)) (Fin 60000000000)) (Fin 1)"
    using fdiv_mono [of 60000000000 "rnd (of_int ?n)" "Fin 60000000000"] r by simp
  have "fdiv (rnd (of_int ?n)) (Fin 60000000000) \<noteq> NaN" using 2 by auto
  with fadd_le [OF 1 2] r show ?thesis by (simp add: duration_minutes_def Let_def)
qed

lemma save_waits:
  assumes "occasional_save http parseEagerly now url st \<noteq> st"
  shows "now - lastSaved st > 600000000000" and "lastSaved (occasional_save http parseEagerly now url st) = now"
proof -
  have "\<not> time_sub now (lastSaved st) \<le> 600000000000"
    using assms ten_minutes [of "time_sub now (lastSaved st)"] flt_fle_trans [of "Fin 10" _ "Fin 10"]
    by (auto simp: occasional_save_def split: if_splits)
  then show "now - lastSaved st > 600000000000" by (auto simp: time_sub_def)
  show "lastSaved (occasional_save http parseEagerly now url st) = now"
    using assms by (auto simp: occasional_save_def split: if_splits)
qed

text \<open>The states a fetcher goes through, with the times at which it downloaded a list, latest first.\<close>

inductive fetched :: "('b \<Rightarrow> VendorList option) \<Rightarrow> int list \<Rightarrow> vendor_fetcher \<Rightarrow> bool"
  for parseEagerly :: "'b \<Rightarrow> VendorList option" where
  start: "fetched parseEagerly [] (newVendorListFetcher http parseEagerly)"
| call: "fetched parseEagerly ts st \<Longrightarrow> snd (fetch_vendor_list http parseEagerly now version st) = st' \<Longrightarrow>
     ts' = (if st' = st then ts else now # ts) \<Longrightarrow> fetched parseEagerly ts' st'"

definition cache_ok :: "(int \<Rightarrow> VendorList option) \<Rightarrow> bool" where
  "cache_ok c = (\<forall>v vl. c v = Some vl \<longrightarrow> ListVersion vl = v)"

lemma saveOne_cache_ok: "cache_ok c \<Longrightarrow> cache_ok (fst (saveOne http parseEagerly url c))"
  by (auto simp: saveOne_def cache_ok_def split: option.splits)

lemma preload_from_cache_ok: "cache_ok c \<Longrightarrow> cache_ok (preload_from http parseEagerly n i c)"
  by (induction n arbitrary: i c) (auto intro: saveOne_cache_ok)

lemma preloadCache_ok: "cache_ok (preloadCache http parseEagerly (\<lambda>_. None))"
proof -
  have "cache_ok (\<lambda>_. None)" by (simp add: cache_ok_def)
  then have "cache_ok (fst (saveOne http parseEagerly (vendorListURLMaker 0) (\<lambda>_. None)))" by (rule saveOne_cache_ok)
  then show ?thesis by (auto simp: preloadCache_def intro: preload_from_cache_ok split: prod.splits)
qed

lemma occasional_save_ok: "cache_ok (vl_cache st) \<Longrightarrow> cache_ok (vl_cache (occasional_save http parseEagerly now url st))"
  by (simp add: occasional_save_def saveOne_cache_ok)

lemma fetch_state:
  "snd (fetch_vendor_list http parseEagerly now version st) \<in>
     {st, occasional_save http parseEagerly now (vendorListURLMaker version) st}"
  by (auto simp: fetch_vendor_list_def Let_def split: option.splits)

definition spaced :: "int list \<Rightarrow> bool" where
  "spaced ts = sorted_wrt (\<lambda>t u. t - u > 600000000000) ts"

lemma fetched_invariant:
  assumes "fetched parseEagerly ts st"
  shows "cache_ok (vl_cache st) \<and> spaced ts \<and> (ts \<noteq> [] \<longrightarrow> lastSaved st = hd ts)"
  using assms
proof induction
  case (start http)
  show ?case by (simp add: newVendorListFetcher_def preloadCache_ok spaced_def)
next
  case (call ts st http now version st' ts')
  show ?case
  proof (cases "st' = st")
    case True
    with call show ?thesis by simp
  next
    case False
    with call(2) fetch_state [of http parseEagerly now version st]
    have st': "st' = occasional_save http parseEagerly now (vendorListURLMaker version) st" by auto
    with False save_waits [of http parseEagerly now _ st] have "now - lastSaved st > 600000000000" "lastSaved st' = now" by auto
    moreover have "cache_ok (vl_cache st')" using call.IH by (simp add: st' occasional_save_ok)
    moreover have "spaced ts'"
    proof (cases ts)
      case (Cons t us)
      then have "now - t > 600000000000" using call.IH calculation(1) by simp
      moreover have "\<forall>u \<in> set us. t - u > 600000000000" using call.IH by (simp add: Cons spaced_def)
      ultimately show ?thesis using call.IH call(3) False by (fastforce simp: Cons spaced_def)
    qed (use call(3) False in \<open>simp add: spaced_def\<close>)
    ultimately show ?thesis using call(3) False by simp
  qed
qed

text \<open>
  A vendor list fetcher returns a list of exactly the version asked for, or the error that
  names it, and leaves the lists it has in place; after the preloading it downloads
  only at times more than ten minutes apart, however often it is asked for missing versions.
\<close>

theorem vendor_list_fetcher:
  assumes "fetched parseEagerly ts st"
  shows "(case fetch_vendor_list http parseEagerly now version st of
       (Inr vl, st') \<Rightarrow> ListVersion vl = version \<and> vl_cache st' version = Some vl
     | (Inl e, st') \<Rightarrow> vl_cache st version = None \<and> vl_cache st' version = None) \<and> spaced ts"
proof -
  have ok: "cache_ok (vl_cache st)" and sp: "spaced ts" using fetched_invariant [OF assms] by auto
  then have "cache_ok (vl_cache (occasional_save http parseEagerly now (vendorListURLMaker version) st))"
    by (intro occasional_save_ok)
  with ok sp show ?thesis
    by (auto simp: fetch_vendor_list_def Let_def cache_ok_def split: option.splits)
qed

text \<open>A web server that has the lists of versions 2 and 3 only.\<close>

definition example_http :: "int http_get" where
  "example_http url =
     (if url = vendorListURLMaker 0 then Some (200, 3)
      else if url = vendorListURLMaker 2 then Some (200, 2)
      else Some (404, 0))"

definition example_eager :: "int \<Rightarrow> VendorList option" where
  "example_eager v = Some \<lparr>ListVersion = v, ListVendor = (\<lambda>_. None)\<rparr>"

theorem vendor_list_fetcher_witness:
  "\<exists>vl. fst (fetch_vendor_list example_http example_eager 5 2 (newVendorListFetcher example_http example_eager)) = Inr vl
     \<and> ListVersion vl = 2"
proof -
  let ?st = "newVendorListFetcher example_http example_eager"
  have "vl_cache ?st 2 \<noteq> None" by code_simp
  then obtain vl where f: "fetch_vendor_list example_http example_eager 5 2 ?st = (Inr vl, ?st)"
    by (auto simp: fetch_vendor_list_def)
  have "fetched example_eager [] ?st" by (rule fetched.start)
  from vendor_list_fetcher [OF this, where http = example_http and now = 5 and version = 2] f show ?thesis by simp
qed

end
