(* ===== verification/Request_Cleaning.thy ===== *)
theory Request_Cleaning
  imports Bidder_Requests Bidders Privacy_Policies Gdpr
begin

text \<open>
  \<open>cleanOpenRTBRequests\<close> of \<open>exchange/utils.go\<close>: the request is split by bidder, the privacy
  policies in force are read from it, and each bidder request is blocked or scrubbed accordingly. The
  code ranges over the Go map of impressions by bidder; the order it meets is the argument
  \<open>iter\<close>, any permutation of the map. \<open>jsonparser.Get\<close> on \<open>prebid.aliases\<close> is the argument
  \<open>getAliases\<close>: the type of the value found, the value and the error. \<open>vendorconsent.ParseString\<close>
  is \<open>parseString\<close> as in Gdpr. Recording a blocked request in the metrics is the list
  \<open>cr_Blocked\<close>.
\<close>

section \<open>Reading the request\<close>

definition dec_regsExt :: "int option decoder" where
  "dec_regsExt = dec_struct [field ''gdpr'' (dec_ptr dec_int 0) (\<lambda>r. r) (\<lambda>v r. v)]"

definition dec_userExt :: "string decoder" where
  "dec_userExt = dec_struct [field ''consent'' dec_string (\<lambda>r. r) (\<lambda>v r. v)]"

definition json_error :: go_error where
  "json_error = OtherError ''json: cannot unmarshal''"

definition extractGDPR :: "BidRequest \<Rightarrow> Signal \<times> go_error option" where
  "extractGDPR req =
     (case (case req_Regs req of
              None \<Rightarrow> Some None
            | Some regs \<Rightarrow> if regs_Ext regs = RawEmpty then Some None else unmarshal dec_regsExt (regs_Ext regs) None) of
        None \<Rightarrow> (SignalAmbiguous, Some json_error)
      | Some None \<Rightarrow> (SignalAmbiguous, None)
      | Some (Some i) \<Rightarrow> (i, None))"

definition extractConsent :: "BidRequest \<Rightarrow> string \<times> go_error option" where
  "extractConsent req =
     (case (case req_User req of
              None \<Rightarrow> Some []
            | Some u \<Rightarrow> if user_Ext u = RawEmpty then Some [] else unmarshal dec_userExt (user_Ext u) []) of
        None \<Rightarrow> ([], Some json_error)
      | Some c \<Rightarrow> (c, None))"

datatype jp_type = JpNotExist | JpObject | JpOther

datatype jp_error = JpNoError | KeyPathNotFoundError | JpError go_error

type_synonym get_aliases = "raw \<Rightarrow> jp_type \<times> raw \<times> jp_error"

text \<open>The errors of \<open>parseAliases\<close> are \<open>err\<close> as it stands, which may be nil.\<close>

fun jp_go_error :: "jp_error \<Rightarrow> go_error option" where
  "jp_go_error JpNoError = None"
| "jp_go_error KeyPathNotFoundError = Some (OtherError ''Key path not found'')"
| "jp_go_error (JpError e) = Some e"

definition parseAliases :: "get_aliases \<Rightarrow> raw \<Rightarrow> go_error option list + (string, string) gomap" where
  "parseAliases getAliases ext = (case getAliases ext of (dataType, val, err) \<Rightarrow>
     if dataType = JpObject \<and> err = JpNoError
     then (case unmarshal (dec_map dec_string []) val [] of None \<Rightarrow> Inl [Some json_error] | Some m \<Rightarrow> Inr m)
     else if dataType \<noteq> JpNotExist \<and> err \<noteq> KeyPathNotFoundError then Inl [jp_go_error err]
     else Inr [])"

definition GetValidBidders :: "(string, string) gomap \<Rightarrow> string list" where
  "GetValidBidders aliases = fold (\<lambda>e s. List.insert (fst e) s) aliases BuildBidderNameHashSet"

section \<open>Policies\<close>

record PrivacyConfig =
  pv_CCPA_Enforce :: bool
  pv_GDPR :: GdprConfig
  pv_LMT_Enforce :: bool

definition integrationTypeMap :: "RequestType \<Rightarrow> IntegrationType option" where
  "integrationTypeMap t = (case t of
     ReqTypeAMP \<Rightarrow> Some IntegrationTypeAMP
   | ReqTypeORTB2App \<Rightarrow> Some IntegrationTypeApp
   | ReqTypeVideo \<Rightarrow> Some IntegrationTypeVideo
   | ReqTypeORTB2Web \<Rightarrow> Some IntegrationTypeWeb
   | ReqTypeLegacy \<Rightarrow> None)"

definition gdprEnabled :: "Account \<Rightarrow> PrivacyConfig \<Rightarrow> IntegrationType option \<Rightarrow> bool" where
  "gdprEnabled account pc t =
     (case gdpr_EnabledForIntegrationType (acc_GDPR account) t of Some b \<Rightarrow> b | None \<Rightarrow> Enabled (pv_GDPR pc))"

definition ccpaEnabled :: "Account \<Rightarrow> PrivacyConfig \<Rightarrow> IntegrationType option \<Rightarrow> bool" where
  "ccpaEnabled account pc t =
     (case ccpa_EnabledForIntegrationType (acc_CCPA account) t of Some b \<Rightarrow> b | None \<Rightarrow> pv_CCPA_Enforce pc)"

text \<open>A policy enforcer is whether it can enforce, for which bidders it should, and the error.\<close>

definition extractCCPA ::
  "BidRequest \<Rightarrow> PrivacyConfig \<Rightarrow> Account \<Rightarrow> (string, string) gomap \<Rightarrow> IntegrationType option
     \<Rightarrow> (bool \<times> (string \<Rightarrow> bool)) \<times> go_error option" where
  "extractCCPA orig pc account aliases t = (case ccpa_ReadFromRequest orig of
     Inl e \<Rightarrow> ((nil_CanEnforce, nil_ShouldEnforce), Some e)
   | Inr policy \<Rightarrow>
       (case ccpa_Parse policy (\<lambda>b. b \<in> set (GetValidBidders aliases)) of
          Inl e \<Rightarrow> ((nil_CanEnforce, nil_ShouldEnforce), Some e)
        | Inr parsed \<Rightarrow>
            ((ccpa_CanEnforce parsed, enabled_ShouldEnforce (ccpaEnabled account pc t) (ccpa_ShouldEnforce parsed)), None)))"

definition extractLMT :: "BidRequest \<Rightarrow> PrivacyConfig \<Rightarrow> string \<Rightarrow> bool" where
  "extractLMT orig pc = enabled_ShouldEnforce (pv_LMT_Enforce pc) (lmt_ShouldEnforce (lmt_ReadFromRequest orig))"

datatype TCFVersionValue = TCFVersionErr | TCFVersionV2

definition TCFVersionToValue :: "int \<Rightarrow> TCFVersionValue" where
  "TCFVersionToValue version = (if version = 2 then TCFVersionV2 else TCFVersionErr)"

record PrivacyLabels =
  pl_CCPAEnforced :: bool
  pl_CCPAProvided :: bool
  pl_COPPAEnforced :: bool
  pl_GDPREnforced :: bool
  pl_GDPRTCFVersion :: "TCFVersionValue option"
  pl_LMTEnforced :: bool

definition noPrivacyLabels :: PrivacyLabels where
  "noPrivacyLabels = \<lparr>pl_CCPAEnforced = False, pl_CCPAProvided = False, pl_COPPAEnforced = False,
     pl_GDPREnforced = False, pl_GDPRTCFVersion = None, pl_LMTEnforced = False\<rparr>"

section \<open>Enforcement for each bidder\<close>

text \<open>The policies read from the request, once for all bidders.\<close>

record policies =
  po_COPPA :: bool
  po_LMT :: bool
  po_CCPA :: "string \<Rightarrow> bool"
  po_GDPREnforced :: bool
  po_Signal :: Signal
  po_Consent :: string

text \<open>
  Whether the bidder may be asked at all, and the enforcement for its request. When GDPR is not
  enforced its two flags keep the value false they start with. No implementation of the permissions
  returns an error; beside one the zero value would block the bidder.
\<close>

definition bidder_enforcement ::
  "Permissions \<Rightarrow> Account option \<Rightarrow> string \<Rightarrow> policies \<Rightarrow> BidderRequest \<Rightarrow> bool \<times> Enforcement" where
  "bidder_enforcement perm account pubID po br =
     (let base = \<lparr>CCPA = po_CCPA po (br_BidderName br), COPPA = po_COPPA po, GDPRGeo = False, GDPRID = False, LMT = po_LMT po\<rparr>
      in if po_GDPREnforced po
         then (let weak = (case account of None \<Rightarrow> False
                     | Some a \<Rightarrow> br_BidderCoreName br \<in> set (ag_BasicEnforcementVendors (acc_GDPR a)))
               in case AuctionActivitiesAllowed perm (br_BidderCoreName br) pubID (po_Signal po) (po_Consent po) weak of
                    Inl e \<Rightarrow> (False, base\<lparr>GDPRGeo := True, GDPRID := True\<rparr>)
                  | Inr (bidReq, geo, ident) \<Rightarrow> (bidReq, base\<lparr>GDPRGeo := \<not> geo, GDPRID := \<not> ident\<rparr>))
         else (True, base))"

record clean_result =
  cr_Requests :: "BidderRequest list"
  cr_Labels :: PrivacyLabels
  cr_Errors :: "go_error option list"
  cr_Request :: BidRequest
  cr_Blocked :: "bidderName list"

fun enforce_all ::
  "Permissions \<Rightarrow> Account option \<Rightarrow> string \<Rightarrow> policies \<Rightarrow> BidderRequest list \<Rightarrow> BidderRequest list \<times> bidderName list" where
  "enforce_all perm account pubID po [] = ([], [])"
| "enforce_all perm account pubID po (br # brs) =
     (case bidder_enforcement perm account pubID po br of (allowed, e) \<Rightarrow>
        (case enforce_all perm account pubID po brs of (ok, blocked) \<Rightarrow>
           if allowed then (br\<lparr>br_BidRequest := Apply e (br_BidRequest br)\<rparr> # ok, blocked)
           else (ok, br_BidderCoreName br # blocked)))"

definition read_policies ::
  "BidRequest \<Rightarrow> AuctionRequest \<Rightarrow> PrivacyConfig \<Rightarrow> Signal \<Rightarrow> (string, string) gomap \<Rightarrow> policies \<times> bool \<times> go_error option list" where
  "read_policies req r pc gdprDefault aliases =
     (let (gdprSignal, e1) = extractGDPR req; (consent, e2) = extractConsent req;
          t = integrationTypeMap (lb_RType (ar_LegacyLabels r));
          ((ccpaCan, ccpaShould), e3) = extractCCPA req pc (ar_Account r) aliases t
      in (\<lparr>po_COPPA = (case req_Regs req of None \<Rightarrow> False | Some regs \<Rightarrow> regs_COPPA regs = 1),
           po_LMT = extractLMT req pc [],
           po_CCPA = ccpaShould,
           po_GDPREnforced = ((gdprSignal = SignalYes \<or> gdprSignal = SignalAmbiguous \<and> gdprDefault = SignalYes)
             \<and> gdprEnabled (ar_Account r) pc t),
           po_Signal = gdprSignal, po_Consent = consent\<rparr>,
          ccpaCan, filter (\<lambda>e. e \<noteq> None) [e1, e2, e3]))"

definition privacy_labels :: "parse_string \<Rightarrow> policies \<Rightarrow> bool \<Rightarrow> PrivacyLabels" where
  "privacy_labels parseString po ccpaCan =
     \<lparr>pl_CCPAEnforced = po_CCPA po [], pl_CCPAProvided = ccpaCan, pl_COPPAEnforced = po_COPPA po,
      pl_GDPREnforced = po_GDPREnforced po,
      pl_GDPRTCFVersion = (if po_GDPREnforced po
        then (case parseString (po_Consent po) of Inl e \<Rightarrow> None | Inr c \<Rightarrow> Some (TCFVersionToValue (ConsentVersion c))) else None),
      pl_LMTEnforced = po_LMT po\<rparr>"

definition failed_clean :: "BidRequest \<Rightarrow> go_error option list \<Rightarrow> clean_result" where
  "failed_clean req errs = \<lparr>cr_Requests = [], cr_Labels = noPrivacyLabels, cr_Errors = errs, cr_Request = req, cr_Blocked = []\<rparr>"

definition cleanOpenRTBRequests ::
  "get_aliases \<Rightarrow> parse_string \<Rightarrow> ((bidderName, Imp list) gomap \<Rightarrow> (bidderName, Imp list) gomap)
     \<Rightarrow> AuctionRequest \<Rightarrow> ExtRequestPrebid option \<Rightarrow> Permissions \<Rightarrow> Signal \<Rightarrow> PrivacyConfig \<Rightarrow> Account option \<Rightarrow> clean_result option" where
  "cleanOpenRTBRequests getAliases parseString iter r requestExt perm gdprDefault pc account =
     (let req = ar_BidRequest r
      in case splitImps (req_Imp req) of
           Inl e \<Rightarrow> Some (failed_clean req [Some e])
         | Inr impsByBidder \<Rightarrow>
             (case parseAliases getAliases (req_Ext req) of
                Inl errs \<Rightarrow> Some (failed_clean req errs)
              | Inr aliases \<Rightarrow>
                  (case getAuctionBidderRequests r requestExt (iter impsByBidder) aliases of
                     None \<Rightarrow> None
                   | Some (brs, errs, req') \<Rightarrow>
                       if brs = [] then Some (failed_clean req' (map Some errs))
                       else (case read_policies req' r pc gdprDefault aliases of (po, ccpaCan, errs') \<Rightarrow>
                               (case enforce_all perm account (lb_PubID (ar_LegacyLabels r)) po brs of (ok, blocked) \<Rightarrow>
                                  Some \<lparr>cr_Requests = ok, cr_Labels = privacy_labels parseString po ccpaCan,
                                        cr_Errors = map Some errs @ errs', cr_Request = req', cr_Blocked = blocked\<rparr>)))))"

section \<open>The default of the GDPR signal\<close>

text \<open>
  The lookup tables that \<open>config.New\<close> derives from the configured lists. The second loop runs up to
  the length of the table that was just created, which is 0; an index beyond the list would panic.
\<close>

fun fill_publishers :: "nat list \<Rightarrow> string list \<Rightarrow> string list \<Rightarrow> string list option" where
  "fill_publishers [] xs m = Some m"
| "fill_publishers (i # is) xs m = (if i < length xs then fill_publishers is xs (List.insert (xs ! i) m) else None)"

definition derive_gdpr_tables :: "GdprConfig \<Rightarrow> GdprConfig option" where
  "derive_gdpr_tables c =
     (case fill_publishers [0..<length (NonStandardPublishers c)] (NonStandardPublishers c) [] of
        None \<Rightarrow> None
      | Some pubs \<Rightarrow>
          (let countries = []
           in case fill_publishers [0..<length countries] (EEACountries c) pubs of
                None \<Rightarrow> None
              | Some pubs' \<Rightarrow> Some (c\<lparr>NonStandardPublisherMap := pubs', EEACountriesMap := countries\<rparr>)))"

definition request_geo :: "BidRequest \<Rightarrow> Geo option" where
  "request_geo req =
     (case Option.bind (req_User req) user_Geo of Some g \<Rightarrow> Some g | None \<Rightarrow> Option.bind (req_Device req) dev_Geo)"

definition parseGDPRDefaultValue :: "GdprConfig \<Rightarrow> Signal \<Rightarrow> BidRequest \<Rightarrow> Signal" where
  "parseGDPRDefaultValue c dflt req = (case request_geo req of
     None \<Rightarrow> dflt
   | Some geo \<Rightarrow>
       if to_upper (geo_Country geo) \<in> set (EEACountriesMap c) then SignalYes
       else if length (geo_Country geo) = 3 then SignalNo else dflt)"

section \<open>What the bidders get to see\<close>

lemma enforce_all_mem:
  assumes "br \<in> set (fst (enforce_all perm account pubID po brs))"
  shows "\<exists>br0 e. br0 \<in> set brs \<and> bidder_enforcement perm account pubID po br0 = (True, e) \<and>
    br = br0\<lparr>br_BidRequest := Apply e (br_BidRequest br0)\<rparr>"
  using assms
  by (induction perm account pubID po brs rule: enforce_all.induct) (auto split: prod.splits if_splits)

lemma never_blocked: "fst (bidder_enforcement perm account pubID po br)"
proof (cases "po_GDPREnforced po")
  case True
  let ?weak = "case account of None \<Rightarrow> False | Some a \<Rightarrow> br_BidderCoreName br \<in> set (ag_BasicEnforcementVendors (acc_GDPR a))"
  obtain pass where "AuctionActivitiesAllowed perm (br_BidderCoreName br) pubID (po_Signal po) (po_Consent po) ?weak = Inr (True, pass, pass)"
    using perms.activities_total by blast
  with True show ?thesis by (simp add: bidder_enforcement_def Let_def)
qed (simp add: bidder_enforcement_def)

lemma enforce_all_complete:
  "map br_BidderName (fst (enforce_all perm account pubID po bs)) = map br_BidderName bs \<and>
   snd (enforce_all perm account pubID po bs) = [] \<and>
   map (req_Imp \<circ> br_BidRequest) (fst (enforce_all perm account pubID po bs)) = map (req_Imp \<circ> br_BidRequest) bs"
proof (induction bs)
  case (Cons b bs)
  obtain e where "bidder_enforcement perm account pubID po b = (True, e)"
    using never_blocked [of perm account pubID po b] by (cases "bidder_enforcement perm account pubID po b") auto
  with Cons.IH show ?case by (cases "enforce_all perm account pubID po bs") (simp add: Apply_def)
qed simp

lemma clean_result:
  assumes "splitImps (req_Imp (ar_BidRequest r)) = Inr m" and "parseAliases getAliases (req_Ext (ar_BidRequest r)) = Inr aliases"
    and "getAuctionBidderRequests r requestExt (iter m) aliases = Some (brs, errs, req')" and "brs \<noteq> []"
    and "read_policies req' r pc dflt aliases = (po, can, errs')"
  shows "cleanOpenRTBRequests getAliases parseString iter r requestExt perm dflt pc account =
    Some \<lparr>cr_Requests = fst (enforce_all perm account (lb_PubID (ar_LegacyLabels r)) po brs),
          cr_Labels = privacy_labels parseString po can, cr_Errors = map Some errs @ errs', cr_Request = req',
          cr_Blocked = snd (enforce_all perm account (lb_PubID (ar_LegacyLabels r)) po brs)\<rparr>"
  using assms by (simp add: cleanOpenRTBRequests_def split: prod.splits)

lemma clean_cases:
  assumes "cleanOpenRTBRequests getAliases parseString iter r requestExt perm dflt pc account = Some res"
    and "cr_Requests res \<noteq> []"
  obtains m aliases brs errs po can errs' blocked where
    "splitImps (req_Imp (ar_BidRequest r)) = Inr m" "parseAliases getAliases (req_Ext (ar_BidRequest r)) = Inr aliases"
    "getAuctionBidderRequests r requestExt (iter m) aliases = Some (brs, errs, cr_Request res)"
    "read_policies (cr_Request res) r pc dflt aliases = (po, can, errs')"
    "enforce_all perm account (lb_PubID (ar_LegacyLabels r)) po brs = (cr_Requests res, blocked)"
proof -
  let ?req = "ar_BidRequest r"
  from assms obtain m where 1: "splitImps (req_Imp ?req) = Inr m"
    by (cases "splitImps (req_Imp ?req)") (auto simp: cleanOpenRTBRequests_def Let_def failed_clean_def)
  from assms 1 obtain aliases where 2: "parseAliases getAliases (req_Ext ?req) = Inr aliases"
    by (cases "parseAliases getAliases (req_Ext ?req)") (auto simp: cleanOpenRTBRequests_def Let_def failed_clean_def)
  from assms 1 2 obtain brs errs req' where 3: "getAuctionBidderRequests r requestExt (iter m) aliases = Some (brs, errs, req')"
    by (cases "getAuctionBidderRequests r requestExt (iter m) aliases") (auto simp: cleanOpenRTBRequests_def Let_def)
  obtain po can errs' where 4: "read_policies req' r pc dflt aliases = (po, can, errs')" by (cases "read_policies req' r pc dflt aliases")
  obtain ok blocked where 5: "enforce_all perm account (lb_PubID (ar_LegacyLabels r)) po brs = (ok, blocked)" by fastforce
  have "cr_Request res = req'" "cr_Requests res = ok"
    using assms 1 2 3 4 5
    by (auto simp: cleanOpenRTBRequests_def Let_def failed_clean_def split: if_splits)
  with that 1 2 3 4 5 show thesis by blast
qed

text \<open>
  C7. Privacy of the whole pipeline. Whatever the request and its extensions contain, if COPPA, limit
  ad tracking, CCPA for this bidder, or GDPR without permission to use ids is in force, the request
  that leaves for the bidder carries no device id, no user id, no buyer id and no extended ids. This
  covers the buyer id that was filled in from the user's cookie or from \<open>prebid.buyeruids\<close>.
\<close>

theorem cleaned_requests_private:
  assumes "cleanOpenRTBRequests getAliases parseString iter r requestExt perm dflt pc account = Some res"
    and "br \<in> set (cr_Requests res)"
    and "parseAliases getAliases (req_Ext (ar_BidRequest r)) = Inr aliases"
    and "read_policies (cr_Request res) r pc dflt aliases = (po, can, errs')"
    and "po_COPPA po \<or> po_LMT po \<or> po_CCPA po (br_BidderName br) \<or>
      po_GDPREnforced po \<and> (\<forall>weak. AuctionActivitiesAllowed perm (br_BidderCoreName br) (lb_PubID (ar_LegacyLabels r))
          (po_Signal po) (po_Consent po) weak = Inr (True, False, False))"
  shows "(\<forall>d. req_Device (br_BidRequest br) = Some d \<longrightarrow> device_ids_removed d)
    \<and> (\<forall>u. req_User (br_BidRequest br) = Some u \<longrightarrow> user_ids_removed u)"
proof -
  from assms(2) have "cr_Requests res \<noteq> []" by auto
  with assms(1) obtain m aliases' brs errs po' can' errs2 blocked where
    a: "parseAliases getAliases (req_Ext (ar_BidRequest r)) = Inr aliases'"
    and p: "read_policies (cr_Request res) r pc dflt aliases' = (po', can', errs2)"
    and e: "enforce_all perm account (lb_PubID (ar_LegacyLabels r)) po' brs = (cr_Requests res, blocked)"
    by (rule clean_cases)
  from a p assms(3,4) have [simp]: "po' = po" by simp
  from assms(2) e obtain br0 en where
    en: "bidder_enforcement perm account (lb_PubID (ar_LegacyLabels r)) po br0 = (True, en)"
    and br: "br = br0\<lparr>br_BidRequest := Apply en (br_BidRequest br0)\<rparr>"
    using enforce_all_mem [of br perm account "lb_PubID (ar_LegacyLabels r)" po brs] by auto
  have "COPPA en \<or> CCPA en \<or> LMT en \<or> GDPRID en"
  proof (cases "po_GDPREnforced po")
    case False
    with en assms(5) show ?thesis by (auto simp: bidder_enforcement_def br)
  next
    case True
    show ?thesis
      using en assms(5) True perms.activities_no_error
      by (auto simp: bidder_enforcement_def br Let_def split: sum.splits)
  qed
  from Apply_removes_ids [OF this, of "br_BidRequest br0"] show ?thesis by (simp add: br)
qed

text \<open>
  No bidder is dropped by the privacy rules and every bidder with impressions is asked: the
  implementations of the GDPR permissions never block the auction, so the bidders of the cleaned
  requests are exactly those of the bidder requests, and none is reported as blocked.
\<close>

theorem cleaned_requests_complete:
  assumes "cleanOpenRTBRequests getAliases parseString iter r requestExt perm dflt pc account = Some res"
    and "getAuctionBidderRequests r requestExt (iter m) aliases = Some (brs, errs, req')"
    and "splitImps (req_Imp (ar_BidRequest r)) = Inr m" and "parseAliases getAliases (req_Ext (ar_BidRequest r)) = Inr aliases"
  shows "map br_BidderName (cr_Requests res) = map br_BidderName brs \<and> cr_Blocked res = [] \<and>
    map (req_Imp \<circ> br_BidRequest) (cr_Requests res) = map (req_Imp \<circ> br_BidRequest) brs"
proof -
  obtain po can errs' where 4: "read_policies req' r pc dflt aliases = (po, can, errs')"
    by (cases "read_policies req' r pc dflt aliases")
  obtain ok blocked where 5: "enforce_all perm account (lb_PubID (ar_LegacyLabels r)) po brs = (ok, blocked)" by fastforce
  from enforce_all_complete [of perm account "lb_PubID (ar_LegacyLabels r)" po brs] 5 assms 4 show ?thesis
    by (cases "brs = []") (auto simp: cleanOpenRTBRequests_def Let_def failed_clean_def)
qed

definition example_get_aliases :: get_aliases where
  "example_get_aliases r = (JpNotExist, RawEmpty, KeyPathNotFoundError)"

definition example_privacy :: PrivacyConfig where
  "example_privacy = \<lparr>pv_CCPA_Enforce = True, pv_GDPR = example_gdpr_config, pv_LMT_Enforce = True\<rparr>"

definition example_coppa_request :: AuctionRequest where
  "example_coppa_request = (example_auction_request None)\<lparr>ar_BidRequest :=
     (ar_BidRequest (example_auction_request None))\<lparr>req_Regs := Some \<lparr>regs_COPPA = 1, regs_Ext = RawEmpty\<rparr>,
       req_Device := Some example_device\<rparr>\<rparr>"

definition example_clean :: "clean_result option" where
  "example_clean = cleanOpenRTBRequests example_get_aliases example_parse (\<lambda>m. m) example_coppa_request None AlwaysAllow
     SignalNo example_privacy (Some example_account)"

lemma example_requests:
  "map_option (\<lambda>(brs, errs, req'). (map br_BidderName brs, map (map_option user_BuyerUID \<circ> req_User \<circ> br_BidRequest) brs, req_Regs req'))
     (getAuctionBidderRequests example_coppa_request None example_split [])
   = Some ([''rubicon'', ''appnexus''], [Some ''cookie'', Some ''b1''], Some \<lparr>regs_COPPA = 1, regs_Ext = RawEmpty\<rparr>)"
  by code_simp

lemma example_clean_result:
  "\<exists>res po can errs'. example_clean = Some res \<and> map br_BidderName (cr_Requests res) = [''rubicon'', ''appnexus''] \<and>
     read_policies (cr_Request res) example_coppa_request example_privacy SignalNo [] = (po, can, errs') \<and> po_COPPA po \<and>
     (\<exists>brs errs. getAuctionBidderRequests example_coppa_request None example_split [] = Some (brs, errs, cr_Request res))"
proof -
  from example_requests obtain brs errs req' where
    g: "getAuctionBidderRequests example_coppa_request None example_split [] = Some (brs, errs, req')"
    and names: "map br_BidderName brs = [''rubicon'', ''appnexus'']"
    and regs: "req_Regs req' = Some \<lparr>regs_COPPA = 1, regs_Ext = RawEmpty\<rparr>" by auto
  obtain po can errs' where po: "read_policies req' example_coppa_request example_privacy SignalNo [] = (po, can, errs')"
    by (cases "read_policies req' example_coppa_request example_privacy SignalNo []")
  then have coppa: "po_COPPA po" using regs by (auto simp: read_policies_def Let_def split: prod.splits)
  have sp: "splitImps (req_Imp (ar_BidRequest example_coppa_request)) = Inr example_split" by code_simp
  have al: "parseAliases example_get_aliases (req_Ext (ar_BidRequest example_coppa_request)) = Inr []"
    by (simp add: parseAliases_def example_get_aliases_def)
  from names have "brs \<noteq> []" by auto
  from clean_result [OF sp al _ this po, where iter = "\<lambda>m. m" and requestExt = None and errs = errs] g
  show ?thesis
    using enforce_all_complete [of AlwaysAllow "Some example_account" "lb_PubID (ar_LegacyLabels example_coppa_request)" po brs] names coppa po
    by (simp add: example_clean_def)
qed

theorem cleaned_requests_private_witness:
  "\<exists>res br. example_clean = Some res \<and> br \<in> set (cr_Requests res) \<and> br_BidderName br = ''rubicon'' \<and>
     {user_ID u |u. req_User (br_BidRequest br) = Some u} \<subseteq> {[]}"
proof -
  from example_clean_result obtain res po can errs' where res: "example_clean = Some res"
    and names: "map br_BidderName (cr_Requests res) = [''rubicon'', ''appnexus'']"
    and po: "read_policies (cr_Request res) example_coppa_request example_privacy SignalNo [] = (po, can, errs')" "po_COPPA po"
    by (elim exE conjE)
  from names obtain br brs where br: "cr_Requests res = br # brs" "br_BidderName br = ''rubicon''"
    by (cases "cr_Requests res") auto
  have al: "parseAliases example_get_aliases (req_Ext (ar_BidRequest example_coppa_request)) = Inr []"
    by (simp add: parseAliases_def example_get_aliases_def)
  from cleaned_requests_private [OF res [unfolded example_clean_def] _ al po(1), of br] br po(2)
  have "{user_ID u |u. req_User (br_BidRequest br) = Some u} \<subseteq> {[]}"
    by (auto simp: user_ids_removed_def)
  with br res show ?thesis by (intro exI [of _ res] exI [of _ br]) simp
qed

theorem cleaned_requests_complete_witness:
  "\<exists>res. example_clean = Some res \<and> cr_Requests res \<noteq> [] \<and> cr_Blocked res = []"
proof -
  from example_clean_result obtain res brs errs where res: "example_clean = Some res"
    and names: "map br_BidderName (cr_Requests res) = [''rubicon'', ''appnexus'']"
    and g: "getAuctionBidderRequests example_coppa_request None ((\<lambda>m. m) example_split) [] = Some (brs, errs, cr_Request res)"
    by auto
  have al: "parseAliases example_get_aliases (req_Ext (ar_BidRequest example_coppa_request)) = Inr []"
    by (simp add: parseAliases_def example_get_aliases_def)
  have sp: "splitImps (req_Imp (ar_BidRequest example_coppa_request)) = Inr example_split" by code_simp
  from cleaned_requests_complete [OF res [unfolded example_clean_def] g sp al] res names show ?thesis by auto
qed

section \<open>Where GDPR is assumed\<close>

text \<open>
  The list of EEA countries has no effect, against the comment at \<open>config.go:231\<close>. The table of EEA countries that \<open>config.New\<close> builds
  is empty whatever countries are configured, so a request without a GDPR signal whose location names
  any country by a three-letter code, an EEA country included, is treated as outside of GDPR; and the
  table of non-standard publishers holds exactly the configured publishers.
\<close>

lemma eea_countries_ignored:
  "\<exists>c'. derive_gdpr_tables c = Some c' \<and> set (NonStandardPublisherMap c') = set (NonStandardPublishers c) \<and>
     EEACountriesMap c' = [] \<and>
     parseGDPRDefaultValue c' dflt req =
       (case request_geo req of None \<Rightarrow> dflt | Some geo \<Rightarrow> if length (geo_Country geo) = 3 then SignalNo else dflt)"
proof -
  have fill: "\<exists>m'. fill_publishers is xs m = Some m' \<and> set m' = set m \<union> (\<lambda>i. xs ! i) ` set is"
    if "\<forall>i\<in>set is. i < length xs" for "is" and xs m :: "string list"
    using that
  proof (induction "is" arbitrary: m)
    case (Cons i "is")
    then show ?case using Cons.IH [of "List.insert (xs ! i) m"] by auto
  qed simp
  obtain m' where m': "fill_publishers [0..<length (NonStandardPublishers c)] (NonStandardPublishers c) [] = Some m'"
    "set m' = (\<lambda>i. NonStandardPublishers c ! i) ` set [0..<length (NonStandardPublishers c)]"
    using fill [of "[0..<length (NonStandardPublishers c)]" "NonStandardPublishers c" "[]"] by auto
  have "set m' = set (NonStandardPublishers c)" using m'(2) by (metis list.set_map map_nth)
  with m'(1) show ?thesis
    by (auto simp: derive_gdpr_tables_def parseGDPRDefaultValue_def split: option.splits)
qed

end
