(* ===== verification/Cache_Client.thy ===== *)
theory Cache_Client
  imports Errortypes
begin

text \<open>
  Package \<open>prebid_cache_client\<close>: the request body for Prebid Cache and the ids it answers with. The
  HTTP exchange is an argument of \<open>PutJson\<close>: a failure, a status, or a body, which
  \<open>jsonparser.ArrayEach\<close> (the argument \<open>arrayEach\<close>) splits into the elements of \<open>responses\<close> up to
  its first error. For each element the library reports an error, a value that is no string, or a
  string that can or cannot be unescaped. The texts of the logged errors are shortened to their
  first words. None is the panic of an index out of range.
\<close>

record Cacheable =
  Type :: string
  Data :: string
  TTLSeconds :: int
  Key :: string
  BidID :: string
  Bidder :: string
  Timestamp :: int

definition quote :: string where
  "quote = [CHR 0x22]"

definition encodeValueToBuffer :: "Cacheable \<Rightarrow> bool \<Rightarrow> string \<Rightarrow> string" where
  "encodeValueToBuffer v leadingComma buffer =
     buffer @ (if leadingComma then '','' else [])
       @ ''{'' @ quote @ ''type'' @ quote @ '':'' @ quote @ Type v
       @ (if TTLSeconds v > 0
          then quote @ '','' @ quote @ ''ttlseconds'' @ quote @ '':'' @ itoa (TTLSeconds v) @ '','' @ quote @ ''value'' @ quote @ '':''
          else quote @ '','' @ quote @ ''value'' @ quote @ '':'')
       @ Data v
       @ (if Key v \<noteq> [] then '','' @ quote @ ''key'' @ quote @ '':'' @ quote @ Key v @ quote else [])
       @ (if BidID v \<noteq> [] then '','' @ quote @ ''bidid'' @ quote @ '':'' @ quote @ BidID v @ quote else [])
       @ (if Bidder v \<noteq> [] then '','' @ quote @ ''bidder'' @ quote @ '':'' @ quote @ Bidder v @ quote else [])
       @ (if Timestamp v > 0 then '','' @ quote @ ''timestamp'' @ quote @ '':'' @ itoa (Timestamp v) else [])
       @ ''}''"

fun encode_from :: "bool \<Rightarrow> Cacheable list \<Rightarrow> string \<Rightarrow> string" where
  "encode_from comma [] buf = buf"
| "encode_from comma (v # vs) buf = encode_from True vs (encodeValueToBuffer v comma buf)"

definition encodeValues :: "Cacheable list \<Rightarrow> string" where
  "encodeValues vs = encode_from False vs (''{'' @ quote @ ''puts'' @ quote @ '':['') @ '']}''"

datatype uuid_value = BadEntry | NotAString | BadString | UuidString string

datatype cache_response = SendFailed | CacheStatus int | CacheBody string

text \<open>The callback of \<open>ArrayEach\<close>, on the index, the ids and the errors.\<close>

definition processResponse :: "uuid_value \<Rightarrow> nat \<times> string list \<times> go_error list \<Rightarrow> (nat \<times> string list \<times> go_error list) option" where
  "processResponse u acc = (case acc of (i, ids, errs) \<Rightarrow>
     (case u of
        BadEntry \<Rightarrow> Some (Suc i, ids, errs @ [OtherError ''Prebid Cache returned a bad value''])
      | NotAString \<Rightarrow> Some (Suc i, ids, errs @ [OtherError ''Prebid Cache returned a value that is no string''])
      | BadString \<Rightarrow>
          if i < length ids
          then Some (Suc i, ids[i := []], errs @ [OtherError ''Prebid Cache response could not be parsed as string''])
          else None
      | UuidString s \<Rightarrow> if i < length ids then Some (Suc i, ids[i := s], errs) else None))"

definition PutJson ::
  "(string \<Rightarrow> cache_response) \<Rightarrow> (string \<Rightarrow> uuid_value list \<times> bool) \<Rightarrow> Cacheable list \<Rightarrow> (string list \<times> go_error list) option" where
  "PutJson send arrayEach vals =
     (if length vals < 1 then Some ([], [])
      else (let uuidsToReturn = replicate (length vals) []
            in case send (encodeValues vals) of
                 SendFailed \<Rightarrow> Some (uuidsToReturn, [OtherError ''Error sending the request to Prebid Cache''])
               | CacheStatus status \<Rightarrow> Some (uuidsToReturn, [OtherError ''Prebid Cache call returned an error status''])
               | CacheBody body \<Rightarrow>
                   (case arrayEach body of (entries, ok) \<Rightarrow>
                      (case fold_opt processResponse entries (0, uuidsToReturn, []) of
                         None \<Rightarrow> None
                       | Some (i, ids, errs) \<Rightarrow>
                           Some (ids, if ok then errs else errs @ [OtherError ''Error interpreting Prebid Cache response''])))))"

definition GetExtCacheData :: "string \<Rightarrow> string \<Rightarrow> string \<Rightarrow> string \<times> string \<times> string" where
  "GetExtCacheData scheme host path =
     (scheme, host,
      if path = ''/'' then [] else if path \<noteq> [] \<and> \<not> has_prefix path ''/'' then ''/'' @ path else path)"

section \<open>The contract of a cache client\<close>

text \<open>One id for each value, empty for a value that was not stored.\<close>

locale cache_client =
  fixes putJson :: "Cacheable list \<Rightarrow> (string list \<times> go_error list) option"
  assumes one_id_each: "putJson vals = Some (ids, errs) \<Longrightarrow> length ids = length vals"
begin

lemma id_in_range: "putJson vals = Some (ids, errs) \<Longrightarrow> i < length vals \<Longrightarrow> i < length ids"
  by (simp add: one_id_each)

end

lemma processResponse_length:
  "processResponse u (i, ids, errs) = Some (i', ids', errs') \<Longrightarrow> length ids' = length ids \<and> i' = Suc i"
  by (auto simp: processResponse_def split: uuid_value.splits if_splits)

lemma fold_processResponse_length:
  "fold_opt processResponse us (i, ids, errs) = Some (i', ids', errs') \<Longrightarrow> length ids' = length ids"
proof (induction us arbitrary: i ids errs)
  case (Cons u us)
  then obtain j js es where p: "processResponse u (i, ids, errs) = Some (j, js, es)"
    and f: "fold_opt processResponse us (j, js, es) = Some (i', ids', errs')"
    by (auto split: option.splits)
  from Cons.IH [OF f] processResponse_length [OF p] show ?case by simp
qed simp

lemma PutJson_length: "PutJson send arrayEach vals = Some (ids, errs) \<Longrightarrow> length ids = length vals"
  by (auto simp: PutJson_def Let_def dest: fold_processResponse_length
      split: if_splits cache_response.splits prod.splits option.splits)

interpretation prebid_cache: cache_client "PutJson send arrayEach" for send arrayEach
  by unfold_locales (rule PutJson_length)

lemma processResponse_total:
  "i < length ids \<Longrightarrow> \<exists>ids' errs'. processResponse u (i, ids, errs) = Some (Suc i, ids', errs') \<and> length ids' = length ids"
  by (auto simp: processResponse_def split: uuid_value.splits)

lemma fold_processResponse_total:
  "i + length us \<le> length ids \<Longrightarrow> fold_opt processResponse us (i, ids, errs) \<noteq> None"
proof (induction us arbitrary: i ids errs)
  case (Cons u us)
  then obtain ids' errs' where "processResponse u (i, ids, errs) = Some (Suc i, ids', errs')" "length ids' = length ids"
    using processResponse_total [of i ids u errs] by auto
  with Cons show ?case by simp
qed simp

text \<open>
  The Prebid Cache client answers with exactly one id for each value, whatever the cache service
  sends back, as long as it sends no more answers than it got values: it does not panic then. With
  one string too many it does.
\<close>

theorem PutJson_ids:
  assumes "\<And>body. length (fst (arrayEach body)) \<le> length vals"
  shows "\<exists>ids errs. PutJson send arrayEach vals = Some (ids, errs) \<and> length ids = length vals"
proof -
  have "fold_opt processResponse (fst (arrayEach body)) (0, replicate (length vals) [], []) \<noteq> None" for body
    using assms [of body] by (intro fold_processResponse_total) simp
  then have "PutJson send arrayEach vals \<noteq> None"
    by (auto simp: PutJson_def Let_def case_prod_beta split: cache_response.split option.split) (metis option.distinct(1))
  then show ?thesis using PutJson_length by fastforce
qed

theorem PutJson_ids_witness:
  "\<exists>ids errs. PutJson (\<lambda>_. CacheBody ''b'') (\<lambda>_. ([UuidString ''u1''], False))
      [\<lparr>Type = ''xml'', Data = ''d'', TTLSeconds = 0, Key = [], BidID = [], Bidder = [], Timestamp = 0\<rparr>,
       \<lparr>Type = ''xml'', Data = ''d'', TTLSeconds = 0, Key = [], BidID = [], Bidder = [], Timestamp = 0\<rparr>] = Some (ids, errs)
      \<and> length ids = 2"
  using PutJson_ids [where arrayEach = "\<lambda>_. ([UuidString ''u1''], False)" and send = "\<lambda>_. CacheBody ''b''"
      and vals = "[\<lparr>Type = ''xml'', Data = ''d'', TTLSeconds = 0, Key = [], BidID = [], Bidder = [], Timestamp = 0\<rparr>,
       \<lparr>Type = ''xml'', Data = ''d'', TTLSeconds = 0, Key = [], BidID = [], Bidder = [], Timestamp = 0\<rparr>]"]
  by (simp add: numeral_2_eq_2)

lemma PutJson_extra_answer_panics:
  "PutJson (\<lambda>_. CacheBody ''b'') (\<lambda>_. ([UuidString ''u1'', UuidString ''u2''], True))
     [\<lparr>Type = ''xml'', Data = ''d'', TTLSeconds = 0, Key = [], BidID = [], Bidder = [], Timestamp = 0\<rparr>] = None"
  by (simp add: PutJson_def processResponse_def)

end
