(* ===== verification/Request_Validation.thy ===== *)
theory Request_Validation
  imports Request_Cleaning Cache_Client "HOL-Library.Signed_Division" "HOL-Library.Monad_Syntax"
begin

text \<open>
  The checks that the auction endpoint makes of a request (\<open>endpoints/openrtb2/auction.go\<close>, from \<open>validateRequest\<close>
  down) and the sizes of interstitial impressions (\<open>endpoints/openrtb2/interstitial.go\<close>). A check returns an error or
  None; \<open>validateRequest\<close> also writes to the request (currency, transaction id, consent, native assets, impression
  extensions), so it returns the request too, and None when it panics. An error in decoding JSON is \<open>json_error\<close>,
  without its text.

  Parameters: reading and writing a native request and the enumerations of the package \<open>native1\<close>, the JSON schemas of
  the bidder parameters, \<open>uuid.NewV4\<close>, \<open>currency.ParseISO\<close>, \<open>jsonparser.Get\<close>, and the order in which Go ranges over
  the keys of a map.
\<close>

section \<open>Checks\<close>

text \<open>A run of \<open>if ... { return err }\<close>, and a loop that returns at the first error.\<close>

fun checks :: "(bool \<times> go_error) list \<Rightarrow> go_error option" where
  "checks [] = None"
| "checks ((wrong, err) # cs) = (if wrong then Some err else checks cs)"

fun check_each :: "(int \<Rightarrow> 'a \<Rightarrow> go_error option) \<Rightarrow> int \<Rightarrow> 'a list \<Rightarrow> go_error option" where
  "check_each f i [] = None"
| "check_each f i (x # xs) = (case f i x of Some err \<Rightarrow> Some err | None \<Rightarrow> check_each f (i + 1) xs)"

definition orelse :: "go_error option \<Rightarrow> go_error option \<Rightarrow> go_error option" where
  "orelse a b = (case a of Some err \<Rightarrow> Some err | None \<Rightarrow> b)"

text \<open>\<open>for k, v := range m\<close>, for the order \<open>range_keys\<close> of the keys.\<close>

type_synonym key_order = "string list \<Rightarrow> string list"

definition ranged :: "key_order \<Rightarrow> (string, 'v) gomap \<Rightarrow> (string, 'v) gomap" where
  "ranged range_keys m = List.map_filter (\<lambda>k. map_option (Pair k) (lookup m k)) (range_keys (map fst m))"

definition imp_error :: "int \<Rightarrow> string \<Rightarrow> go_error" where
  "imp_error i s = OtherError (''request.imp['' @ itoa i @ '']'' @ s)"

definition quoted_text :: "string \<Rightarrow> string" where
  "quoted_text s = quote @ s @ quote"

section \<open>Banners, video and audio\<close>

definition format_error :: "int \<Rightarrow> int \<Rightarrow> string \<Rightarrow> go_error" where
  "format_error i j s = imp_error i (''.banner.format['' @ itoa j @ '']'' @ s)"

definition format_shape_error :: "int \<Rightarrow> int \<Rightarrow> string \<Rightarrow> go_error" where
  "format_shape_error i j s = OtherError (''Request imp['' @ itoa i @ ''].banner.format['' @ itoa j @ '']'' @ s)"

definition validateFormat :: "int \<Rightarrow> int \<Rightarrow> Format \<Rightarrow> go_error option" where
  "validateFormat impIndex formatIndex f =
     (let usesHW = (fmt_W f \<noteq> 0 \<or> fmt_H f \<noteq> 0);
          usesRatios = (fmt_WMin f \<noteq> 0 \<or> fmt_WRatio f \<noteq> 0 \<or> fmt_HRatio f \<noteq> 0);
          err = format_error impIndex formatIndex; shape = format_shape_error impIndex formatIndex
      in checks
        [(fmt_W f < 0, err ''.w must be a positive number''),
         (fmt_H f < 0, err ''.h must be a positive number''),
         (fmt_WRatio f < 0, err ''.wratio must be a positive number''),
         (fmt_HRatio f < 0, err ''.hratio must be a positive number''),
         (fmt_WMin f < 0, err ''.wmin must be a positive number''),
         (usesHW \<and> usesRatios, shape ('' should define *either* {w, h} *or* {wmin, wratio, hratio}, but not both. If both are valid, send two '' @
            quoted_text ''format'' @ '' objects in the request.'')),
         (\<not> usesHW \<and> \<not> usesRatios, shape '' should define *either* {w, h} (for static size requirements) *or* {wmin, wratio, hratio} (for flexible sizes) to be non-zero.''),
         (usesHW \<and> (fmt_W f = 0 \<or> fmt_H f = 0), shape ('' must define non-zero '' @ quoted_text ''h'' @ '' and '' @ quoted_text ''w'' @ '' properties.'')),
         (usesRatios \<and> (fmt_WMin f = 0 \<or> fmt_WRatio f = 0 \<or> fmt_HRatio f = 0),
            shape ('' must define non-zero '' @ quoted_text ''wmin'' @ '', '' @ quoted_text ''wratio'' @ '', and '' @ quoted_text ''hratio'' @ '' properties.''))])"

definition unsupported_property :: "int \<Rightarrow> string \<Rightarrow> go_error" where
  "unsupported_property i p = imp_error i (''.banner uses unsupported property: '' @ quoted_text p @ ''. Use the '' @ quoted_text ''format'' @ '' array instead.'')"

definition hasRootSize :: "Banner \<Rightarrow> bool" where
  "hasRootSize b = (case (ban_H b, ban_W b) of (Some h, Some w) \<Rightarrow> h > 0 \<and> w > 0 | _ \<Rightarrow> False)"

definition negative_size :: "int option \<Rightarrow> bool" where
  "negative_size s = (case s of Some n \<Rightarrow> n < 0 | None \<Rightarrow> False)"

definition validateBanner :: "Banner option \<Rightarrow> int \<Rightarrow> go_error option" where
  "validateBanner banner impIndex = (case banner of None \<Rightarrow> None | Some b \<Rightarrow>
     orelse (checks
       [(negative_size (ban_W b), imp_error impIndex ''.banner.w must be a positive number''),
        (negative_size (ban_H b), imp_error impIndex ''.banner.h must be a positive number''),
        (ban_WMin b \<noteq> 0, unsupported_property impIndex ''wmin''),
        (ban_WMax b \<noteq> 0, unsupported_property impIndex ''wmax''),
        (ban_HMin b \<noteq> 0, unsupported_property impIndex ''hmin''),
        (ban_HMax b \<noteq> 0, unsupported_property impIndex ''hmax''),
        (\<not> hasRootSize b \<and> ban_Format b = [],
           imp_error impIndex (''.banner has no sizes. Define '' @ quoted_text ''w'' @ '' and '' @ quoted_text ''h'' @ '', or include '' @ quoted_text ''format'' @ '' elements.''))])
       (check_each (validateFormat impIndex) 0 (ban_Format b)))"

definition validateVideo :: "Video option \<Rightarrow> int \<Rightarrow> go_error option" where
  "validateVideo video impIndex = (case video of None \<Rightarrow> None | Some v \<Rightarrow> checks
     [(vid_MIMEs v = [], imp_error impIndex ''.video.mimes must contain at least one supported MIME type''),
      (vid_W v < 0, imp_error impIndex ''.video.w must be a positive number''),
      (vid_H v < 0, imp_error impIndex ''.video.h must be a positive number''),
      (vid_MinBitRate v < 0, imp_error impIndex ''.video.minbitrate must be a positive number''),
      (vid_MaxBitRate v < 0, imp_error impIndex ''.video.maxbitrate must be a positive number'')])"

definition validateAudio :: "Audio option \<Rightarrow> int \<Rightarrow> go_error option" where
  "validateAudio audio impIndex = (case audio of None \<Rightarrow> None | Some a \<Rightarrow> checks
     [(aud_MIMEs a = [], imp_error impIndex ''.audio.mimes must contain at least one supported MIME type''),
      (aud_Sequence a < 0, imp_error impIndex ''.audio.sequence must be a positive number''),
      (aud_MaxSeq a < 0, imp_error impIndex ''.audio.maxseq must be a positive number''),
      (aud_MinBitrate a < 0, imp_error impIndex ''.audio.minbitrate must be a positive number''),
      (aud_MaxBitrate a < 0, imp_error impIndex ''.audio.maxbitrate must be a positive number'')])"

definition validatePmp :: "PMP option \<Rightarrow> int \<Rightarrow> go_error option" where
  "validatePmp pmp impIndex = (case pmp of None \<Rightarrow> None | Some p \<Rightarrow>
     check_each (\<lambda>dealIndex deal. checks [(deal_ID deal = [],
       imp_error impIndex (''.pmp.deals['' @ itoa dealIndex @ ''] missing required field: '' @ quoted_text ''id''))]) 0 (pmp_Deals p))"

section \<open>Native requests\<close>

text \<open>
  The payload of \<open>imp.native.request\<close> (package \<open>native1/request\<close>), with the fields that are checked; \<open>nq_other\<close> and
  \<open>na_other\<close> keep the rest.
\<close>

record NativeImage =
  ni_W :: int
  ni_H :: int
  ni_WMin :: int
  ni_HMin :: int

record NativeVideo =
  nv_MIMEs :: "string list"
  nv_MinDuration :: int
  nv_MaxDuration :: int
  nv_Protocols :: "int list"

record NativeAsset =
  na_ID :: int
  na_Title :: "int option"
  na_Img :: "NativeImage option"
  na_Video :: "NativeVideo option"
  na_Data :: "int option"
  na_other :: json

record EventTracker =
  et_Event :: int
  et_Methods :: "int list"

record NativePayload =
  nq_Context :: int
  nq_ContextSubType :: int
  nq_PlcmtType :: int
  nq_Assets :: "NativeAsset list"
  nq_EventTrackers :: "EventTracker list"
  nq_other :: json

text \<open>The constants of the package \<open>native1\<close>: first and last value of each enumeration.\<close>

record native1_constants =
  ContextTypeContent :: int
  ContextTypeSocial :: int
  ContextTypeProduct :: int
  ContextSubTypeGeneral :: int
  ContextSubTypeUserGenerated :: int
  ContextSubTypeSocial :: int
  ContextSubTypeChat :: int
  ContextSubTypeSelling :: int
  ContextSubTypeProductReview :: int
  PlacementTypeFeed :: int
  PlacementTypeRecommendationWidget :: int
  EventTypeImpression :: int
  EventTypeViewableVideo50 :: int
  EventTrackingMethodImage :: int
  EventTrackingMethodJS :: int
  DataAssetTypeSponsored :: int
  DataAssetTypeCTAText :: int
  ProtocolVAST10 :: int
  ProtocolDAAST10Wrapper :: int

definition NativeExchangeSpecificLowerBound :: int where
  "NativeExchangeSpecificLowerBound = 500"

definition native_spec :: "string \<Rightarrow> string" where
  "native_spec page = ''https://iabtechlab.com/wp-content/uploads/2016/07/OpenRTB-Native-Ads-Specification-Final-1.2.pdf#page='' @ page"

text \<open>A value outside an enumeration that is not specific to an exchange either.\<close>

definition outside :: "int \<Rightarrow> int \<Rightarrow> int \<Rightarrow> bool" where
  "outside v lo hi = (v < lo \<or> (v > hi \<and> v < NativeExchangeSpecificLowerBound))"

definition subtype_error :: "int \<Rightarrow> int \<Rightarrow> int \<Rightarrow> go_error" where
  "subtype_error impIndex cType cSubtype = imp_error impIndex (''.native.request.context is '' @ itoa cType @ '', but contextsubtype is '' @
     itoa cSubtype @ ''. This is an invalid combination. See '' @ native_spec ''39'')"

definition subtype_check :: "int \<Rightarrow> int \<Rightarrow> int \<Rightarrow> int \<Rightarrow> go_error option" where
  "subtype_check impIndex cType cSubtype wanted =
     (if cType \<noteq> wanted \<and> cType < NativeExchangeSpecificLowerBound then Some (subtype_error impIndex cType cSubtype) else None)"

definition validateNativeContextTypes :: "native1_constants \<Rightarrow> int \<Rightarrow> int \<Rightarrow> int \<Rightarrow> go_error option" where
  "validateNativeContextTypes n1 cType cSubtype impIndex =
     (if cType = 0 then None
      else if outside cType (ContextTypeContent n1) (ContextTypeProduct n1)
      then Some (imp_error impIndex (''.native.request.context is invalid. See '' @ native_spec ''39''))
      else if cSubtype < 0
      then Some (imp_error impIndex (''.native.request.contextsubtype value can'' @ [CHR 0x27] @ ''t be less than 0. See '' @ native_spec ''39''))
      else if cSubtype = 0 then None
      else if cSubtype \<ge> ContextSubTypeGeneral n1 \<and> cSubtype \<le> ContextSubTypeUserGenerated n1
      then subtype_check impIndex cType cSubtype (ContextTypeContent n1)
      else if cSubtype \<ge> ContextSubTypeSocial n1 \<and> cSubtype \<le> ContextSubTypeChat n1
      then subtype_check impIndex cType cSubtype (ContextTypeSocial n1)
      else if cSubtype \<ge> ContextSubTypeSelling n1 \<and> cSubtype \<le> ContextSubTypeProductReview n1
      then subtype_check impIndex cType cSubtype (ContextTypeProduct n1)
      else if cSubtype \<ge> NativeExchangeSpecificLowerBound then None
      else Some (imp_error impIndex (''.native.request.contextsubtype is invalid. See '' @ native_spec ''39'')))"

definition validateNativePlacementType :: "native1_constants \<Rightarrow> int \<Rightarrow> int \<Rightarrow> go_error option" where
  "validateNativePlacementType n1 pt impIndex =
     (if pt = 0 then None
      else checks [(outside pt (PlacementTypeFeed n1) (PlacementTypeRecommendationWidget n1),
        imp_error impIndex (''.native.request.plcmttype is invalid. See '' @ native_spec ''40''))])"

definition asset_error :: "int \<Rightarrow> int \<Rightarrow> string \<Rightarrow> go_error" where
  "asset_error impIndex assetIndex s = imp_error impIndex (''.native.request.assets['' @ itoa assetIndex @ '']'' @ s)"

definition validateNativeAssetTitle :: "int \<Rightarrow> int \<Rightarrow> int \<Rightarrow> go_error option" where
  "validateNativeAssetTitle impIndex assetIndex len = checks [(len < 1, asset_error impIndex assetIndex ''.title.len must be a positive number'')]"

definition validateNativeAssetImage :: "int \<Rightarrow> int \<Rightarrow> NativeImage \<Rightarrow> go_error option" where
  "validateNativeAssetImage impIndex assetIndex img = checks
     [(ni_W img < 0, asset_error impIndex assetIndex ''.img.w must be a positive integer''),
      (ni_H img < 0, asset_error impIndex assetIndex ''.img.h must be a positive integer''),
      (ni_WMin img < 0, asset_error impIndex assetIndex ''.img.wmin must be a positive integer''),
      (ni_HMin img < 0, asset_error impIndex assetIndex ''.img.hmin must be a positive integer'')]"

definition validateNativeVideoProtocol :: "native1_constants \<Rightarrow> int \<Rightarrow> int \<Rightarrow> int \<Rightarrow> int \<Rightarrow> go_error option" where
  "validateNativeVideoProtocol n1 impIndex assetIndex protocolIndex protocol = checks
     [(protocol < ProtocolVAST10 n1 \<or> protocol > ProtocolDAAST10Wrapper n1,
       asset_error impIndex assetIndex (''.video.protocols['' @ itoa protocolIndex @
         ''] is invalid. See Section 5.8: https://www.iab.com/wp-content/uploads/2016/03/OpenRTB-API-Specification-Version-2-5-FINAL.pdf#page=52''))]"

definition validateNativeVideoProtocols :: "native1_constants \<Rightarrow> int list \<Rightarrow> int \<Rightarrow> int \<Rightarrow> go_error option" where
  "validateNativeVideoProtocols n1 protocols impIndex assetIndex =
     orelse (checks [(protocols = [], asset_error impIndex assetIndex ''.video.protocols must be an array with at least one element'')])
       (check_each (validateNativeVideoProtocol n1 impIndex assetIndex) 0 protocols)"

definition validateNativeAssetVideo :: "native1_constants \<Rightarrow> int \<Rightarrow> int \<Rightarrow> NativeVideo \<Rightarrow> go_error option" where
  "validateNativeAssetVideo n1 impIndex assetIndex v =
     orelse (checks
       [(nv_MIMEs v = [], asset_error impIndex assetIndex ''.video.mimes must be an array with at least one MIME type''),
        (nv_MinDuration v < 1, asset_error impIndex assetIndex ''.video.minduration must be a positive integer''),
        (nv_MaxDuration v < 1, asset_error impIndex assetIndex ''.video.maxduration must be a positive integer'')])
       (validateNativeVideoProtocols n1 (nv_Protocols v) impIndex assetIndex)"

definition validateNativeAssetData :: "native1_constants \<Rightarrow> int \<Rightarrow> int \<Rightarrow> int \<Rightarrow> go_error option" where
  "validateNativeAssetData n1 impIndex assetIndex typ = checks
     [(typ < DataAssetTypeSponsored n1 \<or> (typ > DataAssetTypeCTAText n1 \<and> typ < 500),
       asset_error impIndex assetIndex (''.data.type is invalid. See section 7.4: '' @ native_spec ''40''))]"

text \<open>One of the four parts of an asset, after the flag \<open>foundType\<close>.\<close>

definition asset_part :: "go_error \<Rightarrow> 'p option \<Rightarrow> ('p \<Rightarrow> go_error option) \<Rightarrow> bool \<Rightarrow> go_error + bool" where
  "asset_part assetErr part validate foundType = (case part of
     None \<Rightarrow> Inr foundType
   | Some p \<Rightarrow> if foundType then Inl assetErr else (case validate p of Some err \<Rightarrow> Inl err | None \<Rightarrow> Inr True))"

definition and_then :: "'e + 'a \<Rightarrow> ('a \<Rightarrow> 'e + 'b) \<Rightarrow> 'e + 'b" where
  "and_then r f = (case r of Inl e \<Rightarrow> Inl e | Inr x \<Rightarrow> f x)"

definition validateNativeAsset :: "native1_constants \<Rightarrow> int \<Rightarrow> int \<Rightarrow> NativeAsset \<Rightarrow> go_error option" where
  "validateNativeAsset n1 impIndex assetIndex asset =
     (let assetErr = asset_error impIndex assetIndex '' must define exactly one of {title, img, video, data}''
      in case and_then (asset_part assetErr (na_Title asset) (validateNativeAssetTitle impIndex assetIndex) False)
           (\<lambda>t. and_then (asset_part assetErr (na_Img asset) (validateNativeAssetImage impIndex assetIndex) t)
           (\<lambda>i. and_then (asset_part assetErr (na_Video asset) (validateNativeAssetVideo n1 impIndex assetIndex) i)
           (\<lambda>v. asset_part assetErr (na_Data asset) (validateNativeAssetData n1 impIndex assetIndex) v))) of
           Inl err \<Rightarrow> Some err
         | Inr foundType \<Rightarrow> if \<not> foundType then Some assetErr else None)"

fun assets_loop :: "native1_constants \<Rightarrow> int \<Rightarrow> bool \<Rightarrow> int \<Rightarrow> int list \<Rightarrow> NativeAsset list \<Rightarrow> go_error + NativeAsset list" where
  "assets_loop n1 impIndex assign i assetIDs [] = Inr []"
| "assets_loop n1 impIndex assign i assetIDs (a # as) = (case validateNativeAsset n1 impIndex i a of
     Some err \<Rightarrow> Inl err
   | None \<Rightarrow>
       if assign then (case assets_loop n1 impIndex assign (i + 1) assetIDs as of Inl err \<Rightarrow> Inl err | Inr as' \<Rightarrow> Inr (a\<lparr>na_ID := i\<rparr> # as'))
       else if na_ID a \<in> set assetIDs
       then Inl (asset_error impIndex i ''.id is already being used by another asset. Each asset ID must be unique.'')
       else (case assets_loop n1 impIndex assign (i + 1) (na_ID a # assetIDs) as of Inl err \<Rightarrow> Inl err | Inr as' \<Rightarrow> Inr (a # as')))"

definition fillAndValidateNativeAssets :: "native1_constants \<Rightarrow> NativeAsset list \<Rightarrow> int \<Rightarrow> go_error + NativeAsset list" where
  "fillAndValidateNativeAssets n1 assets impIndex =
     (if assets = [] then Inl (imp_error impIndex ''.native.request.assets must be an array containing at least one object'')
      else assets_loop n1 impIndex (list_all (\<lambda>a. na_ID a = 0) assets) 0 [] assets)"

definition tracker_error :: "int \<Rightarrow> int \<Rightarrow> string \<Rightarrow> go_error" where
  "tracker_error impIndex eventIndex s = imp_error impIndex (''.native.request.eventtrackers['' @ itoa eventIndex @ '']'' @ s)"

definition validateNativeEventTracker :: "native1_constants \<Rightarrow> int \<Rightarrow> int \<Rightarrow> EventTracker \<Rightarrow> go_error option" where
  "validateNativeEventTracker n1 impIndex eventIndex tracker =
     orelse (checks
       [(outside (et_Event tracker) (EventTypeImpression n1) (EventTypeViewableVideo50 n1),
         tracker_error impIndex eventIndex (''.event is invalid. See section 7.6: '' @ native_spec ''43'')),
        (et_Methods tracker = [], tracker_error impIndex eventIndex (''.method is required. See section 7.7: '' @ native_spec ''43''))])
       (check_each (\<lambda>methodIndex m. checks [(outside m (EventTrackingMethodImage n1) (EventTrackingMethodJS n1),
         tracker_error impIndex eventIndex (''.methods['' @ itoa methodIndex @ ''] is invalid. See section 7.7: '' @ native_spec ''43''))]) 0 (et_Methods tracker))"

definition validateNativeEventTrackers :: "native1_constants \<Rightarrow> EventTracker list \<Rightarrow> int \<Rightarrow> go_error option" where
  "validateNativeEventTrackers n1 trackers impIndex = check_each (validateNativeEventTracker n1 impIndex) 0 trackers"

record native_requests =
  nr_constants :: native1_constants
  nr_decode :: "string \<Rightarrow> NativePayload option"
  nr_encode :: "NativePayload \<Rightarrow> string option"

definition json_result :: "'a option \<Rightarrow> go_error + 'a" where
  "json_result r = (case r of None \<Rightarrow> Inl json_error | Some x \<Rightarrow> Inr x)"

definition fillAndValidateNative :: "native_requests \<Rightarrow> Native option \<Rightarrow> int \<Rightarrow> go_error + Native option" where
  "fillAndValidateNative nr native impIndex = (case native of
     None \<Rightarrow> Inr None
   | Some n \<Rightarrow>
       if nat_Request n = [] then Inl (imp_error impIndex (''.native missing required property '' @ quoted_text ''request''))
       else and_then (json_result (nr_decode nr (nat_Request n))) (\<lambda>payload.
         case orelse (validateNativeContextTypes (nr_constants nr) (nq_Context payload) (nq_ContextSubType payload) impIndex)
                (validateNativePlacementType (nr_constants nr) (nq_PlcmtType payload) impIndex) of
           Some err \<Rightarrow> Inl err
         | None \<Rightarrow> and_then (fillAndValidateNativeAssets (nr_constants nr) (nq_Assets payload) impIndex) (\<lambda>assets.
             case validateNativeEventTrackers (nr_constants nr) (nq_EventTrackers payload) impIndex of
               Some err \<Rightarrow> Inl err
             | None \<Rightarrow> and_then (json_result (nr_encode nr (payload\<lparr>nq_Assets := assets\<rparr>))) (\<lambda>serialized.
                 Inr (Some (n\<lparr>nat_Request := serialized\<rparr>))))))"

section \<open>Extensions of the request\<close>

text \<open>\<open>jsonparser.Get\<close>: the type of the value under a key and its text.\<close>

datatype jp_kind = JfNotExist | JfNumber | JfString | JfObject | JfArray | JfOther

type_synonym jp_found = "jp_kind \<times> string"

record validation_env =
  ve_bidderMap :: "(string, bidderName) gomap"
  ve_disabledBidders :: "(string, string) gomap"
  ve_Validate :: "bidderName \<Rightarrow> json \<Rightarrow> go_error option"
  ve_BlacklistedAppMap :: "string list"
  ve_AutoGenSourceTID :: bool
  ve_NewV4 :: "string option"
  ve_parseISO :: iso_parser
  ve_native :: native_requests
  ve_get :: "json \<Rightarrow> string \<Rightarrow> jp_found"
  ve_range :: key_order

definition validateAndFillSourceTID :: "string option \<Rightarrow> BidRequest \<Rightarrow> go_error option \<times> BidRequest" where
  "validateAndFillSourceTID newV4 req =
     (let src = (case req_Source req of None \<Rightarrow> emptySource | Some s \<Rightarrow> s); req1 = req\<lparr>req_Source := Some src\<rparr>
      in if src_TID src \<noteq> [] then (None, req1)
         else (case newV4 of
            Some rawUUID \<Rightarrow> (None, req\<lparr>req_Source := Some (src\<lparr>src_TID := rawUUID\<rparr>)\<rparr>)
          | None \<Rightarrow> (Some (OtherError ''req.Source.TID missing in the req and error creating a random UID''), req1)))"

definition known_bidder :: "validation_env \<Rightarrow> (string, string) gomap \<Rightarrow> string \<Rightarrow> bool" where
  "known_bidder env aliases b = (lookup (ve_bidderMap env) b \<noteq> None \<or> lookup aliases b \<noteq> None)"

definition validateBidAdjustmentFactors :: "validation_env \<Rightarrow> (string, float64) gomap \<Rightarrow> (string, string) gomap \<Rightarrow> go_error option" where
  "validateBidAdjustmentFactors env adjustmentFactors aliases = check_each (\<lambda>_ (bidderToAdjust, adjustmentFactor). checks
     [(fle adjustmentFactor (Fin 0), OtherError (''request.ext.prebid.bidadjustmentfactors.'' @ bidderToAdjust @
         '' must be a positive number. Got '' @ format_float adjustmentFactor 6)),
      (\<not> known_bidder env aliases bidderToAdjust,
       OtherError (''request.ext.prebid.bidadjustmentfactors.'' @ bidderToAdjust @ '' is not a known bidder or alias''))])
     0 (ranged (ve_range env) adjustmentFactors)"

definition validateSChains :: "ExtRequestPrebid \<Rightarrow> go_error option outcome" where
  "validateSChains req = (case BidderToPrebidSChains (Some req) of Ok _ \<Rightarrow> Ok None | Err err \<Rightarrow> Ok (Some err) | Panic \<Rightarrow> Panic)"

definition currency_check :: "iso_parser \<Rightarrow> string \<Rightarrow> go_error option" where
  "currency_check parseISO code = (case parseISO code of
     Inl _ \<Rightarrow> Some (BadInput (''currency code '' @ code @ '' is not recognized or malformed'')) | Inr _ \<Rightarrow> None)"

definition validateCustomRates :: "validation_env \<Rightarrow> ExtRequestCurrency option \<Rightarrow> go_error option" where
  "validateCustomRates env bidReqCurrencyRates = (case bidReqCurrencyRates of
     None \<Rightarrow> None
   | Some c \<Rightarrow> check_each (\<lambda>_ (fromCurrency, rates).
       orelse (currency_check (ve_parseISO env) fromCurrency)
         (check_each (\<lambda>_ (toCurrency, rate). currency_check (ve_parseISO env) toCurrency) 0
            (ranged (ve_range env) rates)))
       0 (ranged (ve_range env) (case ConversionRates c of None \<Rightarrow> [] | Some m \<Rightarrow> m)))"

definition validateBidders :: "string list \<Rightarrow> validation_env \<Rightarrow> (string, string) gomap \<Rightarrow> go_error option" where
  "validateBidders bidders env knownAliases = check_each (\<lambda>_ bidder.
     if bidder = ''*''
     then checks [(length bidders > 1, OtherError (''bidder wildcard '' @ quoted_text ''*'' @ '' mixed with specific bidders''))]
     else checks [(\<not> known_bidder env knownAliases bidder, OtherError (''unrecognized bidder '' @ quoted_text bidder))]) 0 bidders"

definition eid_error :: "int \<Rightarrow> string \<Rightarrow> go_error" where
  "eid_error i s = OtherError (''request.ext.prebid.data.eidpermissions['' @ itoa i @ '']'' @ s)"

fun eid_loop :: "validation_env \<Rightarrow> (string, string) gomap \<Rightarrow> int \<Rightarrow> string list \<Rightarrow> EidPermission list \<Rightarrow> go_error option" where
  "eid_loop env aliases i uniqueSources [] = None"
| "eid_loop env aliases i uniqueSources (eid # eids) =
     (if ep_Source eid = [] then Some (eid_error i ('' missing required field: '' @ quoted_text ''source''))
      else if ep_Source eid \<in> set uniqueSources then Some (eid_error i ('' duplicate entry with field: '' @ quoted_text ''source''))
      else if ep_Bidders eid = [] then Some (eid_error i ('' missing or empty required field: '' @ quoted_text ''bidders''))
      else (case validateBidders (ep_Bidders eid) env aliases of
         Some err \<Rightarrow> Some (eid_error i ('' contains '' @ Error err))
       | None \<Rightarrow> eid_loop env aliases (i + 1) (ep_Source eid # uniqueSources) eids))"

definition validateEidPermissions :: "validation_env \<Rightarrow> ExtRequestPrebid \<Rightarrow> (string, string) gomap \<Rightarrow> go_error option" where
  "validateEidPermissions env req aliases = (case xp_Data req of None \<Rightarrow> None | Some eids \<Rightarrow> eid_loop env aliases 0 [] eids)"

definition parseBidExt :: "raw \<Rightarrow> go_error + ExtRequestPrebid option" where
  "parseBidExt ext =
     (if ext = RawEmpty then Inr None
      else (case unmarshal dec_ExtRequest ext zeroPrebid of
         None \<Rightarrow> Inl (OtherError (''request.ext is invalid: '' @ Error json_error)) | Some p \<Rightarrow> Inr (Some p)))"

definition alias_error :: "string \<Rightarrow> string \<Rightarrow> go_error" where
  "alias_error alias s = OtherError (''request.ext.prebid.aliases.'' @ alias @ s)"

definition validateAliases :: "validation_env \<Rightarrow> (string, string) gomap \<Rightarrow> go_error option" where
  "validateAliases env aliases = check_each (\<lambda>_ (alias, coreBidder). checks
     [(lookup (ve_disabledBidders env) coreBidder \<noteq> None, alias_error alias ('' refers to disabled bidder: '' @ coreBidder)),
      (lookup (ve_bidderMap env) coreBidder = None, alias_error alias ('' refers to unknown bidder: '' @ coreBidder)),
      (alias = coreBidder, alias_error alias '' defines a no-op alias. Choose a different alias, or remove this entry.'')])
     0 (ranged (ve_range env) aliases)"

text \<open>The checks of \<open>request.ext\<close>, in the order of \<open>validateRequest\<close>; the result is the first error and the aliases.\<close>

definition validateRequestExt :: "validation_env \<Rightarrow> raw \<Rightarrow> (go_error + (string, string) gomap) outcome" where
  "validateRequestExt env ext = (case parseBidExt ext of
     Inl err \<Rightarrow> Ok (Inl err)
   | Inr None \<Rightarrow> Ok (Inr [])
   | Inr (Some p) \<Rightarrow>
       (let aliases = xp_Aliases p
        in case orelse (validateAliases env aliases) (validateBidAdjustmentFactors env (xp_BidAdjustmentFactors p) aliases) of
             Some err \<Rightarrow> Ok (Inl err)
           | None \<Rightarrow> (case validateSChains p of
                Panic \<Rightarrow> Panic
              | Err err \<Rightarrow> Err err
              | Ok (Some err) \<Rightarrow> Ok (Inl err)
              | Ok None \<Rightarrow>
                  (case orelse (validateEidPermissions env p aliases) (validateCustomRates env (xp_CurrencyConversions p)) of
                     Some err \<Rightarrow> Ok (Inl err)
                   | None \<Rightarrow> Ok (Inr aliases)))))"

section \<open>Site, app, user, regulations and device\<close>

text \<open>\<open>ExtSite.UnmarshalJSON\<close> (\<open>openrtb_ext/site.go\<close>) reads one byte of the number \<open>amp\<close>.\<close>

definition dec_ExtSite :: "(json \<Rightarrow> string \<Rightarrow> jp_found) \<Rightarrow> json \<Rightarrow> go_error + int" where
  "dec_ExtSite get b =
     (let wrong = OtherError ''request.site.ext.amp must be either 1, 0, or undefined''; (dataType, v) = get b ''amp''
      in if (dataType \<noteq> JfNotExist \<and> dataType \<noteq> JfNumber) \<or> length v \<noteq> 1 then Inl wrong
         else if v = ''0'' then Inr 0 else if v = ''1'' then Inr 1 else Inl wrong)"

definition validateSite :: "validation_env \<Rightarrow> Site option \<Rightarrow> go_error option" where
  "validateSite env site = (case site of None \<Rightarrow> None | Some s \<Rightarrow>
     if site_ID s = [] \<and> site_Page s = []
     then Some (OtherError ''request.site should include at least one of request.site.id or request.site.page.'')
     else (case site_Ext s of
        RawEmpty \<Rightarrow> None
      | RawBad \<Rightarrow> Some json_error
      | Raw j \<Rightarrow> (case dec_ExtSite (ve_get env) j of Inl err \<Rightarrow> Some err | Inr _ \<Rightarrow> None)))"

definition dec_ExtApp :: "(string \<times> string) decoder" where
  "dec_ExtApp = dec_struct [field ''prebid'' (dec_struct
     [field ''source'' dec_string fst (\<lambda>v r. (v, snd r)), field ''version'' dec_string snd (\<lambda>v r. (fst r, v))]) (\<lambda>r. r) (\<lambda>v r. v)]"

definition validateApp :: "validation_env \<Rightarrow> App option \<Rightarrow> go_error option" where
  "validateApp env app = (case app of None \<Rightarrow> None | Some a \<Rightarrow>
     checks [(app_ID a \<noteq> [] \<and> app_ID a \<in> set (ve_BlacklistedAppMap env),
                BlacklistedApp (''Prebid-server does not process requests from App ID: '' @ app_ID a)),
             (app_Ext a \<noteq> RawEmpty \<and> unmarshal dec_ExtApp (app_Ext a) ([], []) = None, json_error)])"

text \<open>
  The eids of \<open>user.ext\<close> once more: the check tells an absent list from an empty one, which
  \<open>ExtUser\<close> does not need. An eid is its source, its id and the ids of its uids.
\<close>

fun dec_slice :: "'a decoder \<Rightarrow> 'a \<Rightarrow> 'a list option decoder" where
  "dec_slice d zero JNull old = Some None"
| "dec_slice d zero (JArr js) old = map_option Some (dec_elems d zero js)"
| "dec_slice d zero j old = None"

type_synonym checked_eid = "string \<times> string \<times> (string \<times> int \<times> raw) list option"

definition dec_checked_eid :: "checked_eid decoder" where
  "dec_checked_eid = dec_struct
     [field ''source'' dec_string fst (\<lambda>v r. (v, snd r)),
      field ''id'' dec_string (\<lambda>r. fst (snd r)) (\<lambda>v r. (fst r, v, snd (snd r))),
      field ''uids'' (dec_slice dec_Uid ([], 0, RawEmpty)) (\<lambda>r. snd (snd r)) (\<lambda>v r. (fst r, fst (snd r), v))]"

definition user_eids :: "raw \<Rightarrow> checked_eid list option" where
  "user_eids ext = (case unmarshal (dec_struct [field ''eids'' (dec_slice dec_checked_eid ([], [], None)) (\<lambda>r. r) (\<lambda>v r. v)]) ext None of
     None \<Rightarrow> None | Some eids \<Rightarrow> eids)"

definition user_eid_error :: "int \<Rightarrow> string \<Rightarrow> go_error" where
  "user_eid_error i s = OtherError (''request.user.ext.eids['' @ itoa i @ '']'' @ s)"

fun user_eid_loop :: "int \<Rightarrow> string list \<Rightarrow> checked_eid list \<Rightarrow> go_error option" where
  "user_eid_loop i uniqueSources [] = None"
| "user_eid_loop i uniqueSources ((src, ident, uids) # eids) =
     (if src = [] then Some (user_eid_error i ('' missing required field: '' @ quoted_text ''source''))
      else if src \<in> set uniqueSources then Some (OtherError ''request.user.ext.eids must contain unique sources'')
      else if ident = [] \<and> uids = None
      then Some (user_eid_error i ('' must contain either '' @ quoted_text ''id'' @ '' or '' @ quoted_text ''uids'' @ '' field''))
      else (case (if ident \<noteq> [] then None
                  else if uids = Some [] then Some (user_eid_error i ''.uids must contain at least one element or be undefined'')
                  else check_each (\<lambda>uidIndex uid. checks [(fst uid = [],
                    user_eid_error i (''.uids['' @ itoa uidIndex @ ''] missing required field: '' @ quoted_text ''id''))]) 0 (case uids of Some us \<Rightarrow> us | None \<Rightarrow> [])) of
         Some err \<Rightarrow> Some err
       | None \<Rightarrow> user_eid_loop (i + 1) (src # uniqueSources) eids))"

definition validateUser :: "validation_env \<Rightarrow> User option \<Rightarrow> (string, string) gomap \<Rightarrow> go_error option" where
  "validateUser env user aliases = (case user of None \<Rightarrow> None | Some u \<Rightarrow>
     if (case user_Geo u of None \<Rightarrow> False | Some g \<Rightarrow> geo_Accuracy g < 0)
     then Some (OtherError ''request.user.geo.accuracy must be a positive number'')
     else if user_Ext u = RawEmpty then None
     else (case unmarshal dec_ExtUser (user_Ext u) zeroExtUser of
        None \<Rightarrow> Some (OtherError (''request.user.ext object is not valid: '' @ Error json_error))
      | Some userExt \<Rightarrow>
          if (case eu_DigiTrust userExt of None \<Rightarrow> False | Some (_, _, pref) \<Rightarrow> pref \<noteq> 0)
          then Some (OtherError ''request.user contains a digitrust object that is not valid.'')
          else orelse
            (case eu_Prebid userExt of
               None \<Rightarrow> None
             | Some buyerUIDs \<Rightarrow>
                 if buyerUIDs = []
                 then Some (OtherError (''request.user.ext.prebid requires a '' @ quoted_text ''buyeruids'' @
                   '' property with at least one ID defined. If none exist, then request.user.ext.prebid should not be defined.''))
                 else check_each (\<lambda>_ (b, uid). checks [(\<not> known_bidder env aliases b, OtherError (''request.user.ext.'' @ b @
                   '' is neither a known bidder name nor an alias in request.ext.prebid.aliases.''))]) 0 (ranged (ve_range env) buyerUIDs))
            (case user_eids (user_Ext u) of
               None \<Rightarrow> None
             | Some [] \<Rightarrow> Some (OtherError ''request.user.ext.eids must contain at least one element or be undefined'')
             | Some eids \<Rightarrow> user_eid_loop 0 [] eids)))"

definition validateRegs :: "Regs option \<Rightarrow> go_error option" where
  "validateRegs regs = (case regs of None \<Rightarrow> None | Some r \<Rightarrow>
     if regs_Ext r = RawEmpty then None
     else (case unmarshal dec_ExtRegs (regs_Ext r) zeroRegs of
        None \<Rightarrow> Some (OtherError (''request.regs.ext is invalid: '' @ Error json_error))
      | Some regsExt \<Rightarrow> (case er_GDPR regsExt of
           None \<Rightarrow> None
         | Some g \<Rightarrow> checks [(g < 0 \<or> g > 1, OtherError ''request.regs.ext.gdpr must be either 0 or 1.'')])))"

definition validateDevice :: "Device option \<Rightarrow> go_error option" where
  "validateDevice device = (case device of None \<Rightarrow> None | Some d \<Rightarrow> checks
     [(dev_W d < 0, OtherError ''request.device.w must be a positive number''),
      (dev_H d < 0, OtherError ''request.device.h must be a positive number''),
      (dev_PPI d < 0, OtherError ''request.device.ppi must be a positive number''),
      (case dev_Geo d of None \<Rightarrow> False | Some g \<Rightarrow> geo_Accuracy g < 0, OtherError ''request.device.geo.accuracy must be a positive number'')])"

section \<open>The bidders of an impression\<close>

definition isBidderToValidate :: "string \<Rightarrow> bool" where
  "isBidderToValidate bidder = (bidder \<notin> {''context'', ''data'', ''prebid'', ''skadn''})"

text \<open>\<open>ExtImpPrebid\<close> (\<open>openrtb_ext/imp.go\<close>): what its decoding yields is the map of bidder parameters.\<close>

definition dec_SKADN :: "(string \<times> string list \<times> string \<times> string list) decoder" where
  "dec_SKADN = dec_struct
     [field ''version'' dec_string fst (\<lambda>v r. (v, snd r)),
      field ''versions'' (dec_list dec_string []) (\<lambda>r. fst (snd r)) (\<lambda>v r. (fst r, v, snd (snd r))),
      field ''sourceapp'' dec_string (\<lambda>r. fst (snd (snd r))) (\<lambda>v r. (fst r, fst (snd r), v, snd (snd (snd r)))),
      field ''skadnetids'' (dec_list dec_string []) (\<lambda>r. snd (snd (snd r))) (\<lambda>v r. (fst r, fst (snd r), fst (snd (snd r)), v))]"

record ExtImpPrebid =
  ip_StoredRequest :: "string option"
  ip_IsRewardedInventory :: int
  ip_SKADN :: "string \<times> string list \<times> string \<times> string list"
  ip_Bidder :: "(string, json) gomap"

definition dec_message :: "json decoder" where
  "dec_message j old = Some j"

definition zeroImpPrebid :: ExtImpPrebid where
  "zeroImpPrebid = \<lparr>ip_StoredRequest = None, ip_IsRewardedInventory = 0, ip_SKADN = ([], [], [], []), ip_Bidder = []\<rparr>"

definition dec_ExtImpPrebid :: "ExtImpPrebid decoder" where
  "dec_ExtImpPrebid = dec_struct
     [field ''storedrequest'' (dec_ptr dec_StoredRequest []) ip_StoredRequest (\<lambda>v r. r\<lparr>ip_StoredRequest := v\<rparr>),
      field ''is_rewarded_inventory'' dec_int8 ip_IsRewardedInventory (\<lambda>v r. r\<lparr>ip_IsRewardedInventory := v\<rparr>),
      field ''skadn'' dec_SKADN ip_SKADN (\<lambda>v r. r\<lparr>ip_SKADN := v\<rparr>),
      field ''bidder'' (dec_map dec_message JNull) ip_Bidder (\<lambda>v r. r\<lparr>ip_Bidder := v\<rparr>)]"

text \<open>The bidder parameters that are validated: those of \<open>prebid.bidder\<close> over those of the impression itself.\<close>

definition merged_exts :: "(string, json) gomap \<Rightarrow> (string, json) gomap" where
  "merged_exts bidderExts = (case lookup bidderExts PrebidExtKey of
     None \<Rightarrow> bidderExts
   | Some extPrebidJSON \<Rightarrow> (case dec_ExtImpPrebid extPrebidJSON zeroImpPrebid of
        None \<Rightarrow> bidderExts
      | Some extPrebid \<Rightarrow> fold (\<lambda>e m. put (fst e) (snd e) m) (ip_Bidder extPrebid) bidderExts))"

definition core_bidder :: "(string, string) gomap \<Rightarrow> string \<Rightarrow> string" where
  "core_bidder aliases bidder = (case lookup aliases bidder of Some tmp \<Rightarrow> tmp | None \<Rightarrow> bidder)"

text \<open>One turn of the loop over the bidders: a fatal error, or a warning and the name of a disabled bidder.\<close>

definition ext_check :: "validation_env \<Rightarrow> (string, string) gomap \<Rightarrow> int \<Rightarrow> string \<times> json \<Rightarrow> go_error + (go_error \<times> string) option" where
  "ext_check env aliases impIndex e = (case e of (bidder, ext) \<Rightarrow>
     (let coreBidder = core_bidder aliases bidder
      in case lookup (ve_bidderMap env) coreBidder of
           Some name \<Rightarrow> (case ve_Validate env name ext of
              Some err \<Rightarrow> Inl (imp_error impIndex (''.ext.'' @ coreBidder @ '' failed validation.'' @ [CHR 10] @ Error err))
            | None \<Rightarrow> Inr None)
         | None \<Rightarrow> (case lookup (ve_disabledBidders env) bidder of
              Some msg \<Rightarrow> Inr (Some (BidderTemporarilyDisabled msg, bidder))
            | None \<Rightarrow> Inl (imp_error impIndex (''.ext contains unknown bidder: '' @ bidder @ ''. Did you forget an alias in request.ext.prebid.aliases?'')))))"

fun ext_loop :: "validation_env \<Rightarrow> (string, string) gomap \<Rightarrow> int \<Rightarrow> (string, json) gomap \<Rightarrow> go_error + (go_error \<times> string) list" where
  "ext_loop env aliases impIndex [] = Inr []"
| "ext_loop env aliases impIndex (e # es) =
     (if isBidderToValidate (fst e)
      then and_then (ext_check env aliases impIndex e) (\<lambda>d.
        and_then (ext_loop env aliases impIndex es) (\<lambda>ds. Inr ((case d of None \<Rightarrow> [] | Some w \<Rightarrow> [w]) @ ds)))
      else ext_loop env aliases impIndex es)"

definition validateImpExt :: "validation_env \<Rightarrow> Imp \<Rightarrow> (string, string) gomap \<Rightarrow> int \<Rightarrow> go_error list \<times> Imp" where
  "validateImpExt env imp aliases impIndex =
     (if imp_Ext imp = RawEmpty then ([imp_error impIndex ''.ext is required''], imp)
      else (case raw_map (imp_Ext imp) of
         None \<Rightarrow> ([json_error], imp)
       | Some exts \<Rightarrow>
           (let bidderExts = ranged (ve_range env) (merged_exts exts)
            in case ext_loop env aliases impIndex bidderExts of
                 Inl err \<Rightarrow> ([err], imp)
               | Inr disabled \<Rightarrow>
                   (let otherExtElements = length (filter (\<lambda>e. \<not> isBidderToValidate (fst e)) bidderExts);
                        left = fold (\<lambda>w m. del (snd w) m) disabled bidderExts;
                        imp' = (if disabled \<noteq> [] then imp\<lparr>imp_Ext := Raw (encode_map left)\<rparr> else imp)
                    in (map fst disabled @ (if length left - otherExtElements = 0
                          then [imp_error impIndex ''.ext must contain at least one bidder''] else []), imp')))))"

definition validateImp :: "validation_env \<Rightarrow> Imp \<Rightarrow> (string, string) gomap \<Rightarrow> int \<Rightarrow> go_error list \<times> Imp" where
  "validateImp env imp aliases index =
     (case orelse (checks
        [(imp_ID imp = [], imp_error index ('' missing required field: '' @ quoted_text ''id'')),
         (imp_Metric imp \<noteq> [], imp_error index ''.metric is not yet supported by prebid-server. Support may be added in the future''),
         (imp_Banner imp = None \<and> imp_Video imp = None \<and> imp_Audio imp = None \<and> imp_Native imp = None,
            imp_error index ('' must contain at least one of '' @ quoted_text ''banner'' @ '', '' @ quoted_text ''video'' @ '', '' @
              quoted_text ''audio'' @ '', or '' @ quoted_text ''native''))])
        (orelse (validateBanner (imp_Banner imp) index)
        (orelse (validateVideo (imp_Video imp) index)
          (validateAudio (imp_Audio imp) index))) of
        Some err \<Rightarrow> ([err], imp)
      | None \<Rightarrow> (case fillAndValidateNative (ve_native env) (imp_Native imp) index of
           Inl err \<Rightarrow> ([err], imp)
         | Inr native \<Rightarrow>
             (let imp1 = imp\<lparr>imp_Native := native\<rparr>
              in case validatePmp (imp_PMP imp1) index of
                   Some err \<Rightarrow> ([err], imp1)
                 | None \<Rightarrow> validateImpExt env imp1 aliases index)))"

text \<open>
  The loop over the impressions. \<open>impIDs\<close> maps an id to the last index it was seen at. Only the errors of
  \<open>validateImp\<close> end the loop; a repeated id does not.
\<close>

fun validateImps :: "validation_env \<Rightarrow> (string, string) gomap \<Rightarrow> int \<Rightarrow> (string, int) gomap \<Rightarrow> Imp list \<Rightarrow> go_error list \<times> Imp list" where
  "validateImps env aliases index impIDs [] = ([], [])"
| "validateImps env aliases index impIDs (imp # imps) =
     (let dup = (case lookup impIDs (imp_ID imp) of
            None \<Rightarrow> []
          | Some firstIndex \<Rightarrow> [OtherError (''request.imp['' @ itoa firstIndex @ ''].id and request.imp['' @ itoa index @ ''].id are both '' @
              quoted_text (imp_ID imp) @ ''. Imp IDs must be unique.'')]);
          (errs, imp') = validateImp env imp aliases index
      in if ContainsFatalError errs then (dup @ errs, imp' # imps)
         else (let (errs', imps') = validateImps env aliases (index + 1) (put (imp_ID imp) index impIDs) imps
               in (dup @ errs @ errs', imp' # imps')))"

section \<open>The request\<close>

definition limit_currencies :: "BidRequest \<Rightarrow> go_error list \<times> BidRequest" where
  "limit_currencies req = (case req_Cur req of
     c # _ # _ \<Rightarrow> ([Warning (''A prebid request can only process one currency. Taking the first currency in the list, '' @ c @
        '', as the active currency'') 0], req\<lparr>req_Cur := [c]\<rparr>)
   | _ \<Rightarrow> ([], req))"

definition validate_objects :: "validation_env \<Rightarrow> (string, string) gomap \<Rightarrow> BidRequest \<Rightarrow> go_error option" where
  "validate_objects env aliases req =
     orelse (checks [((req_Site req = None \<and> req_App req = None) \<or> (req_Site req \<noteq> None \<and> req_App req \<noteq> None),
               OtherError ''request.site or request.app must be defined, but not both.'')])
     (orelse (validateSite env (req_Site req))
     (orelse (validateApp env (req_App req))
     (orelse (validateUser env (req_User req) aliases)
     (orelse (validateRegs (req_Regs req))
       (validateDevice (req_Device req))))))"

text \<open>The CCPA string: a malformed one is removed with a warning, another error ends the validation.\<close>

definition validate_ccpa :: "(string, string) gomap \<Rightarrow> BidRequest \<Rightarrow> (go_error + go_error list \<times> BidRequest) outcome" where
  "validate_ccpa aliases req = (case ccpa_ReadFromRequest req of
     Inl err \<Rightarrow> Ok (Inl err)
   | Inr policy \<Rightarrow> (case ccpa_Parse policy (\<lambda>b. b \<in> set (GetValidBidders aliases)) of
        Inr _ \<Rightarrow> Ok (Inr ([], req))
      | Inl (Warning m c) \<Rightarrow>
          (let w = Warning (''CCPA consent is invalid and will be ignored. ('' @ Error (Warning m c) @ '')'') InvalidPrivacyConsentWarningCode
           in case ccpa_ConsentWriter_Write [] req of
                Panic \<Rightarrow> Panic
              | Err err \<Rightarrow> Ok (Inr ([w, OtherError (''Unable to remove invalid CCPA consent from the request. ('' @ Error err @ '')'')], req))
              | Ok req' \<Rightarrow> Ok (Inr ([w], req')))
      | Inl err \<Rightarrow> Ok (Inl err)))"

definition validateRequest :: "validation_env \<Rightarrow> BidRequest \<Rightarrow> (go_error list \<times> BidRequest) option" where
  "validateRequest env req =
     (if req_ID req = [] then Some ([OtherError (''request missing required field: '' @ quoted_text ''id'')], req)
      else if req_TMax req < 0 then Some ([OtherError (''request.tmax must be nonnegative. Got '' @ itoa (req_TMax req))], req)
      else if req_Imp req = [] then Some ([OtherError ''request.imp must contain at least one element.''], req)
      else (let (errL, req1) = limit_currencies req;
                (tidErr, req2) = (if ve_AutoGenSourceTID env then validateAndFillSourceTID (ve_NewV4 env) req1 else (None, req1))
            in case tidErr of Some err \<Rightarrow> Some ([err], req2) | None \<Rightarrow>
               (case validateRequestExt env (req_Ext req2) of
                  Panic \<Rightarrow> None
                | Err err \<Rightarrow> Some ([err], req2)
                | Ok (Inl err) \<Rightarrow> Some ([err], req2)
                | Ok (Inr aliases) \<Rightarrow>
                    (case validate_objects env aliases req2 of Some err \<Rightarrow> Some (errL @ [err], req2) | None \<Rightarrow>
                      (case validate_ccpa aliases req2 of
                         Panic \<Rightarrow> None
                       | Err err \<Rightarrow> Some (errL @ [err], req2)
                       | Ok (Inl err) \<Rightarrow> Some (errL @ [err], req2)
                       | Ok (Inr (ccpaErrs, req3)) \<Rightarrow>
                           if ContainsFatalError ccpaErrs then Some (errL @ ccpaErrs, req3)
                           else (let (impErrs, imps) = validateImps env aliases 0 [] (req_Imp req3)
                                 in Some (errL @ ccpaErrs @ impErrs, req3\<lparr>req_Imp := imps\<rparr>)))))))"

section \<open>Interstitials\<close>

definition ResolvedInterstitialSizes :: "(int \<times> int) list" where
  "ResolvedInterstitialSizes = [
    (300, 250), (728, 90), (160, 600), (320, 50), (300, 600), (970, 250), (2000, 1400), (1920, 1200),
    (1800, 1000), (1920, 1080), (1600, 1150), (1696, 900), (1600, 900), (1270, 800), (970, 1000), (1920, 480),
    (320, 320), (1600, 500), (768, 1024), (1024, 768), (828, 910), (728, 970), (120, 600), (640, 960),
    (980, 600), (620, 891), (930, 600), (980, 552), (1272, 328), (300, 50), (500, 1000), (900, 550),
    (980, 500), (970, 500), (800, 600), (336, 280), (1250, 360), (980, 400), (320, 250), (320, 480),
    (980, 240), (580, 400), (970, 415), (480, 820), (620, 620), (980, 300), (970, 90), (600, 600), (1800, 200),
    (970, 310), (720, 480), (1295, 250), (300, 1050), (1272, 250), (300, 300), (640, 480), (320, 100),
    (580, 500), (1000, 300), (1250, 240), (600, 500), (300, 1000), (728, 410), (800, 250), (970, 300),
    (950, 300), (994, 250), (940, 300), (640, 320), (468, 600), (970, 200), (930, 180), (250, 600), (491, 555),
    (550, 480), (750, 300), (980, 250), (1000, 260), (980, 150), (350, 240), (970, 210), (640, 360),
    (580, 415), (480, 300), (750, 200), (360, 640), (624, 368), (900, 250), (468, 400), (608, 226), (690, 300),
    (605, 340), (320, 640), (450, 450), (300, 480), (250, 800), (640, 300), (320, 160), (980, 200), (950, 200),
    (480, 400), (740, 250), (336, 544), (303, 603), (320, 568), (301, 601), (300, 601), (600, 300), (180, 500),
    (980, 120), (950, 180), (935, 180), (994, 170), (468, 360), (320, 400), (320, 240), (320, 500), (316, 513),
    (630, 250), (480, 320), (320, 481), (520, 290), (250, 250), (300, 500), (1000, 150), (320, 460),
    (970, 150), (800, 180), (468, 60), (482, 282), (680, 200), (320, 416), (480, 280), (300, 431), (728, 180),
    (300, 430), (180, 701), (840, 150), (600, 200), (768, 150), (200, 600), (350, 350), (202, 600), (400, 300),
    (414, 286), (656, 180), (994, 118), (638, 180), (650, 170), (1000, 90), (300, 360), (600, 180), (240, 400),
    (161, 601), (610, 138), (164, 601), (980, 100), (970, 100), (468, 200), (250, 360), (320, 180), (605, 150),
    (600, 150), (980, 90), (750, 100), (150, 600), (630, 140), (696, 120), (307, 254), (303, 253), (703, 110),
    (550, 140), (300, 251), (298, 250), (500, 150), (413, 180), (728, 100), (269, 269), (640, 106), (768, 90),
    (320, 200), (728, 93), (729, 90), (727, 90), (640, 100), (720, 90), (300, 100), (970, 66), (480, 110),
    (300, 200), (707, 83), (900, 65), (467, 120), (200, 200), (450, 121), (320, 150), (600, 90), (300, 170),
    (468, 100), (300, 169), (500, 100), (300, 150), (990, 50), (140, 350), (160, 300), (300, 158), (190, 240),
    (180, 150), (300, 145), (310, 122), (468, 90), (594, 70), (480, 80), (600, 65), (484, 80), (320, 75),
    (335, 100), (375, 80), (300, 75), (120, 240), (480, 60), (300, 90), (120, 60), (100, 200), (320, 80),
    (160, 160), (400, 63), (300, 81), (1, 1), (300, 80), (375, 58), (232, 90), (321, 51), (320, 63), (319, 49),
    (300, 65), (360, 50), (125, 125), (298, 60), (300, 60), (299, 60), (301, 50), (234, 60), (280, 47),
    (120, 90), (13, 13), (17, 17), (168, 50), (140, 50), (120, 20)]"

text \<open>\<open>ExtDeviceInt.UnmarshalJSON\<close> (\<open>openrtb_ext/device.go\<close>): two whole percentages.\<close>

definition dec_percentage :: "(json \<Rightarrow> string \<Rightarrow> jp_found) \<Rightarrow> json \<Rightarrow> string \<Rightarrow> int option" where
  "dec_percentage get b key = (let (dataType, v) = get b key
     in if dataType \<noteq> JfNumber then None
        else (case atoi v of None \<Rightarrow> None | Some perc \<Rightarrow> if perc < 0 \<or> perc > 100 then None else Some perc))"

definition dec_ExtDeviceInt :: "(json \<Rightarrow> string \<Rightarrow> jp_found) \<Rightarrow> (int \<times> int) decoder" where
  "dec_ExtDeviceInt get b old = (case (dec_percentage get b ''minwidthperc'', dec_percentage get b ''minheightperc'') of
     (Some w, Some h) \<Rightarrow> Some (w, h) | _ \<Rightarrow> None)"

text \<open>\<open>ExtDevice\<close>: of its fields, \<open>prebid.interstitial\<close> is used and \<open>atts\<close> only has to be an integer.\<close>

definition dec_ExtDevice :: "(json \<Rightarrow> string \<Rightarrow> jp_found) \<Rightarrow> (int option \<times> (int \<times> int) option) decoder" where
  "dec_ExtDevice get = dec_struct
     [field ''atts'' (dec_ptr dec_int 0) fst (\<lambda>v r. (v, snd r)),
      field ''prebid'' (dec_struct [field ''interstitial'' (dec_ptr (dec_ExtDeviceInt get) (0, 0)) (\<lambda>r. r) (\<lambda>v r. v)]) snd (\<lambda>v r. (fst r, v))]"

fun take_sizes :: "nat \<Rightarrow> (int \<times> int \<Rightarrow> bool) \<Rightarrow> (int \<times> int) list \<Rightarrow> (int \<times> int) list" where
  "take_sizes n fits [] = []"
| "take_sizes n fits (s # ss) =
     (if fits s then s # (if n + 1 \<ge> 10 then [] else take_sizes (n + 1) fits ss) else take_sizes n fits ss)"

definition genInterstitialFormat :: "int \<Rightarrow> int \<Rightarrow> int \<Rightarrow> int \<Rightarrow> Format list" where
  "genInterstitialFormat minWidth maxWidth minHeight maxHeight =
     map (\<lambda>(w, h). \<lparr>fmt_W = w, fmt_H = h, fmt_WRatio = 0, fmt_HRatio = 0, fmt_WMin = 0\<rparr>)
       (take_sizes 0 (\<lambda>(w, h). w \<ge> minWidth \<and> w \<le> maxWidth \<and> h \<ge> minHeight \<and> h \<le> maxHeight) ResolvedInterstitialSizes)"

text \<open>Go's division truncates; a product beyond 64 bits wraps.\<close>

definition percent_of :: "int \<Rightarrow> int \<Rightarrow> int" where
  "percent_of n perc = wrap64 (n * perc) sdiv 100"

definition max_interstitial :: "Banner \<Rightarrow> Device \<Rightarrow> int \<times> int" where
  "max_interstitial b device =
     (let (maxWidth, maxHeight) = (case ban_Format b of [] \<Rightarrow> (0, 0) | f # _ \<Rightarrow> (fmt_W f, fmt_H f))
      in if maxWidth < 2 \<and> maxHeight < 2 then (dev_W device, dev_H device) else (maxWidth, maxHeight))"

definition processInterstitialsForImp :: "Imp \<Rightarrow> int \<times> int \<Rightarrow> Device \<Rightarrow> go_error option \<times> Imp" where
  "processInterstitialsForImp imp perc device = (case imp_Banner imp of
     None \<Rightarrow> (None, imp)
   | Some b \<Rightarrow>
       (let (maxWidth, maxHeight) = max_interstitial b device;
            minWidth = percent_of maxWidth (fst perc); minHeight = percent_of maxHeight (snd perc);
            formats = genInterstitialFormat minWidth maxWidth minHeight maxHeight
        in (if formats = []
            then Some (BadInput (''Unable to set interstitial size list for Imp id='' @ imp_ID imp @ '' (No valid sizes between '' @ itoa minWidth @ ''x'' @
              itoa minHeight @ '' and '' @ itoa maxWidth @ ''x'' @ itoa maxHeight @ '')''))
            else None, imp\<lparr>imp_Banner := Some (b\<lparr>ban_Format := formats\<rparr>)\<rparr>)))"

text \<open>
  The loop over the impressions. The extension of the device is read again for each interstitial. No
  device is a nil dereference (None), so that the check for it in \<open>processInterstitialsForImp\<close> is never reached;
  an extension without \<open>interstitial\<close> ends the loop.
\<close>

fun interstitial_loop :: "(json \<Rightarrow> string \<Rightarrow> jp_found) \<Rightarrow> Device option \<Rightarrow> Imp list \<Rightarrow> (go_error option \<times> Imp list) option" where
  "interstitial_loop get dev [] = Some (None, [])"
| "interstitial_loop get dev (imp # imps) =
     (if imp_Instl imp \<noteq> 1
      then map_option (\<lambda>(err, imps'). (err, imp # imps')) (interstitial_loop get dev imps)
      else (case dev of
         None \<Rightarrow> None
       | Some device \<Rightarrow>
           if dev_Ext device = RawEmpty then Some (None, imp # imps)
           else (case unmarshal (dec_ExtDevice get) (dev_Ext device) (None, None) of
              None \<Rightarrow> Some (Some json_error, imp # imps)
            | Some (_, None) \<Rightarrow> Some (None, imp # imps)
            | Some (_, Some perc) \<Rightarrow>
                (case processInterstitialsForImp imp perc device of
                   (Some err, imp') \<Rightarrow> Some (Some err, imp' # imps)
                 | (None, imp') \<Rightarrow> map_option (\<lambda>(err, imps'). (err, imp' # imps')) (interstitial_loop get dev imps)))))"

definition processInterstitials :: "(json \<Rightarrow> string \<Rightarrow> jp_found) \<Rightarrow> BidRequest \<Rightarrow> (go_error option \<times> BidRequest) option" where
  "processInterstitials get req =
     map_option (\<lambda>(err, imps). (err, req\<lparr>req_Imp := imps\<rparr>)) (interstitial_loop get (req_Device req) (req_Imp req))"

section \<open>What the checks accept\<close>

lemma checks_None: "checks cs = None \<longleftrightarrow> (\<forall>c \<in> set cs. \<not> fst c)"
  by (induction cs rule: checks.induct) auto

declare checks.simps [simp del]

lemma check_each_None: "check_each f i xs = None \<longleftrightarrow> (\<forall>k < length xs. f (i + int k) (xs ! k) = None)"
proof (induction xs arbitrary: i)
  case (Cons x xs)
  show ?case using Cons.IH [of "i + 1"]
    by (auto simp: less_Suc_eq_0_disj nth_Cons' algebra_simps split: option.splits)
qed simp

lemma check_each_None_set: "(\<And>i. f i = g) \<Longrightarrow> check_each f i xs = None \<longleftrightarrow> (\<forall>x \<in> set xs. g x = None)"
  by (auto simp: check_each_None all_set_conv_all_nth)

lemma orelse_None [simp]: "orelse a b = None \<longleftrightarrow> a = None \<and> b = None"
  by (simp add: orelse_def split: option.splits)

lemma and_then_Inr [simp]: "and_then r f = Inr y \<longleftrightarrow> (\<exists>x. r = Inr x \<and> f x = Inr y)"
  by (simp add: and_then_def split: sum.splits)

text \<open>A size is given by its width and height, or by a minimal width and a ratio, never by both.\<close>

definition sized_format :: "Format \<Rightarrow> bool" where
  "sized_format f =
     ((0 < fmt_W f \<and> 0 < fmt_H f \<and> fmt_WMin f = 0 \<and> fmt_WRatio f = 0 \<and> fmt_HRatio f = 0) \<or>
      (fmt_W f = 0 \<and> fmt_H f = 0 \<and> 0 < fmt_WMin f \<and> 0 < fmt_WRatio f \<and> 0 < fmt_HRatio f))"

lemma validateFormat_None: "validateFormat i j f = None \<longleftrightarrow> sized_format f"
  by (auto simp: validateFormat_def checks_None sized_format_def Let_def)

definition sized_banner :: "Banner \<Rightarrow> bool" where
  "sized_banner b =
     (\<not> negative_size (ban_W b) \<and> \<not> negative_size (ban_H b) \<and>
      ban_WMin b = 0 \<and> ban_WMax b = 0 \<and> ban_HMin b = 0 \<and> ban_HMax b = 0 \<and>
      (hasRootSize b \<or> ban_Format b \<noteq> []) \<and> list_all sized_format (ban_Format b))"

lemma validateBanner_None: "validateBanner (Some b) i = None \<longleftrightarrow> sized_banner b"
  by (auto simp: validateBanner_def checks_None sized_banner_def check_each_None validateFormat_None list_all_length)

definition playable_video :: "Video \<Rightarrow> bool" where
  "playable_video v = (vid_MIMEs v \<noteq> [] \<and> 0 \<le> vid_W v \<and> 0 \<le> vid_H v \<and> 0 \<le> vid_MinBitRate v \<and> 0 \<le> vid_MaxBitRate v)"

definition playable_audio :: "Audio \<Rightarrow> bool" where
  "playable_audio a = (aud_MIMEs a \<noteq> [] \<and> 0 \<le> aud_Sequence a \<and> 0 \<le> aud_MaxSeq a \<and> 0 \<le> aud_MinBitrate a \<and> 0 \<le> aud_MaxBitrate a)"

definition usable_imp :: "Imp \<Rightarrow> bool" where
  "usable_imp imp =
     (imp_ID imp \<noteq> [] \<and> imp_Metric imp = [] \<and>
      (imp_Banner imp \<noteq> None \<or> imp_Video imp \<noteq> None \<or> imp_Audio imp \<noteq> None \<or> imp_Native imp \<noteq> None) \<and>
      pred_option sized_banner (imp_Banner imp) \<and> pred_option playable_video (imp_Video imp) \<and>
      pred_option playable_audio (imp_Audio imp) \<and>
      pred_option (\<lambda>p. list_all (\<lambda>d. deal_ID d \<noteq> []) (pmp_Deals p)) (imp_PMP imp))"

lemma validateBanner_option: "validateBanner b i = None \<longleftrightarrow> pred_option sized_banner b"
  by (cases b) (simp_all add: validateBanner_None, simp add: validateBanner_def)

lemma validateVideo_option: "validateVideo v i = None \<longleftrightarrow> pred_option playable_video v"
  by (cases v) (auto simp: validateVideo_def playable_video_def checks_None)

lemma validateAudio_option: "validateAudio a i = None \<longleftrightarrow> pred_option playable_audio a"
  by (cases a) (auto simp: validateAudio_def playable_audio_def checks_None)

lemma validatePmp_option: "validatePmp p i = None \<longleftrightarrow> pred_option (\<lambda>p. list_all (\<lambda>d. deal_ID d \<noteq> []) (pmp_Deals p)) p"
  by (cases p) (auto simp: validatePmp_def checks_None check_each_None list_all_length)

lemmas media_checks = validateBanner_option validateVideo_option validateAudio_option validatePmp_option

section \<open>Native assets\<close>

definition asset_parts :: "NativeAsset \<Rightarrow> nat" where
  "asset_parts a = of_bool (na_Title a \<noteq> None) + of_bool (na_Img a \<noteq> None) + of_bool (na_Video a \<noteq> None) + of_bool (na_Data a \<noteq> None)"

lemma asset_parts_id [simp]: "asset_parts (a\<lparr>na_ID := k\<rparr>) = asset_parts a"
  by (simp add: asset_parts_def)

lemma asset_part_Inr:
  "asset_part e p v found = Inr found' \<longleftrightarrow>
     (case p of None \<Rightarrow> found' = found | Some x \<Rightarrow> \<not> found \<and> v x = None \<and> found')"
  by (auto simp: asset_part_def split: option.splits)

lemma validateNativeAsset_one: "validateNativeAsset n1 i j a = None \<Longrightarrow> asset_parts a = 1"
  by (auto simp: validateNativeAsset_def Let_def asset_part_Inr asset_parts_def split: sum.splits option.splits if_splits)

lemma assets_loop_assigned:
  assumes "assets_loop n1 impIndex True i seen as = Inr as'"
  shows "as' = map (\<lambda>(k, a). a\<lparr>na_ID := k\<rparr>) (zip (map (\<lambda>k. i + int k) [0..<length as]) as) \<and> (\<forall>a \<in> set as. asset_parts a = 1)"
  using assms
proof (induction as arbitrary: i as')
  case (Cons a as)
  from Cons.prems obtain bs where v: "validateNativeAsset n1 impIndex i a = None"
    and l: "assets_loop n1 impIndex True (i + 1) seen as = Inr bs" and r: "as' = a\<lparr>na_ID := i\<rparr> # bs"
    by (auto split: option.splits sum.splits)
  have "map (\<lambda>k. i + int k) [0..<length (a # as)] = i # map (\<lambda>k. i + 1 + int k) [0..<length as]"
    by (simp add: upt_conv_Cons map_Suc_upt [symmetric] del: upt_Suc)
  with Cons.IH [OF l] r validateNativeAsset_one [OF v] show ?case by simp
qed simp

lemma assets_loop_kept:
  assumes "assets_loop n1 impIndex False i seen as = Inr as'"
  shows "as' = as \<and> distinct (map na_ID as) \<and> na_ID ` set as \<inter> set seen = {} \<and> (\<forall>a \<in> set as. asset_parts a = 1)"
  using assms
proof (induction as arbitrary: i seen as')
  case (Cons a as)
  from Cons.prems obtain bs where v: "validateNativeAsset n1 impIndex i a = None" and new: "na_ID a \<notin> set seen"
    and l: "assets_loop n1 impIndex False (i + 1) (na_ID a # seen) as = Inr bs" and r: "as' = a # bs"
    by (auto split: option.splits sum.splits if_splits)
  from Cons.IH [OF l] r validateNativeAsset_one [OF v] new show ?case by auto
qed simp

text \<open>The ids of the assets after validation: those of the caller if it gave any, else their positions.\<close>

lemma fillAndValidateNativeAssets_ids:
  assumes "fillAndValidateNativeAssets n1 assets impIndex = Inr assets'"
  shows "assets \<noteq> [] \<and> length assets' = length assets \<and> distinct (map na_ID assets') \<and>
    (\<forall>a \<in> set assets'. asset_parts a = 1) \<and>
    map (\<lambda>a. a\<lparr>na_ID := 0\<rparr>) assets' = map (\<lambda>a. a\<lparr>na_ID := 0\<rparr>) assets \<and>
    (if \<exists>a \<in> set assets. na_ID a \<noteq> 0 then assets' = assets else map na_ID assets' = map int [0..<length assets])"
proof (cases "list_all (\<lambda>a. na_ID a = 0) assets")
  case True
  with assms have ne: "assets \<noteq> []" and l: "assets_loop n1 impIndex True 0 [] assets = Inr assets'"
    by (auto simp: fillAndValidateNativeAssets_def split: if_splits)
  from assets_loop_assigned [OF l]
  have a': "assets' = map (\<lambda>(k, a). a\<lparr>na_ID := k\<rparr>) (zip (map int [0..<length assets]) assets)" and p: "\<forall>a \<in> set assets. asset_parts a = 1"
    by simp_all
  have ids: "map na_ID assets' = map int [0..<length assets]" by (simp add: a' case_prod_beta comp_def map_fst_zip [unfolded comp_def])
  then have "distinct (map na_ID assets')" by (simp add: distinct_map)
  moreover have "map (\<lambda>a. a\<lparr>na_ID := 0\<rparr>) assets' = map (\<lambda>a. a\<lparr>na_ID := 0\<rparr>) assets"
    by (rule nth_equalityI) (simp_all add: a')
  moreover have "\<forall>a \<in> set assets'. asset_parts a = 1"
    using p by (auto simp: a' dest: set_zip_rightD)
  moreover have "length assets' = length assets" using ids by (metis length_map length_upt minus_nat.diff_0)
  moreover have "\<not> (\<exists>a \<in> set assets. na_ID a \<noteq> 0)" using True by (simp add: list_all_iff)
  ultimately show ?thesis using ne ids by simp
next
  case False
  with assms have ne: "assets \<noteq> []" and l: "assets_loop n1 impIndex False 0 [] assets = Inr assets'"
    by (auto simp: fillAndValidateNativeAssets_def split: if_splits)
  have "\<exists>a \<in> set assets. na_ID a \<noteq> 0" using False by (simp add: list_all_iff)
  with assets_loop_kept [OF l] ne show ?thesis by simp
qed

section \<open>Accepted requests\<close>

lemma fatal_append [simp]: "ContainsFatalError (xs @ ys) \<longleftrightarrow> ContainsFatalError xs \<or> ContainsFatalError ys"
  by (induction xs) auto

lemma fatal_other [simp]: "isFatal (OtherError m)"
  by (simp add: isFatal_def)

lemma fatal_blacklisted [simp]: "isFatal (BlacklistedApp m)"
  by (simp add: isFatal_def)

lemma fatal_imp_error [simp]: "isFatal (imp_error i s)"
  by (simp add: imp_error_def)

lemma validateImpExt_frame:
  assumes "validateImpExt env imp aliases i = (errs, imp')"
  shows "imp' = imp\<lparr>imp_Ext := imp_Ext imp'\<rparr>"
  using assms by (auto simp: validateImpExt_def Let_def split: if_splits option.splits sum.splits)

lemma checks_fatal: "checks cs = Some e \<Longrightarrow> \<forall>c \<in> set cs. isFatal (snd c) \<Longrightarrow> isFatal e"
  by (induction cs rule: checks.induct) (auto simp: checks.simps split: if_splits)

lemma check_each_fatal: "check_each f i xs = Some e \<Longrightarrow> (\<And>i x e. f i x = Some e \<Longrightarrow> isFatal e) \<Longrightarrow> isFatal e"
  by (induction f i xs rule: check_each.induct) (auto split: option.splits)

lemma orelse_fatal: "orelse a b = Some e \<Longrightarrow> (a = Some e \<Longrightarrow> isFatal e) \<Longrightarrow> (b = Some e \<Longrightarrow> isFatal e) \<Longrightarrow> isFatal e"
  by (auto simp: orelse_def split: option.splits)

lemma validateFormat_fatal: "validateFormat i j f = Some e \<Longrightarrow> isFatal e"
  unfolding validateFormat_def Let_def by (erule checks_fatal) (simp add: format_error_def format_shape_error_def)

lemma media_fatal:
  "validateBanner b i = Some e \<Longrightarrow> isFatal e"
  "validateVideo v i = Some e \<Longrightarrow> isFatal e"
  "validateAudio a i = Some e \<Longrightarrow> isFatal e"
  "validatePmp p i = Some e \<Longrightarrow> isFatal e"
proof -
  show "validateBanner b i = Some e \<Longrightarrow> isFatal e"
    unfolding validateBanner_def
    by (cases b) (auto simp: unsupported_property_def elim!: orelse_fatal checks_fatal check_each_fatal intro: validateFormat_fatal)
  show "validateVideo v i = Some e \<Longrightarrow> isFatal e"
    by (cases v) (auto simp: validateVideo_def elim!: checks_fatal)
  show "validateAudio a i = Some e \<Longrightarrow> isFatal e"
    by (cases a) (auto simp: validateAudio_def elim!: checks_fatal)
  show "validatePmp p i = Some e \<Longrightarrow> isFatal e"
    by (auto simp: validatePmp_def split: option.splits if_splits elim!: check_each_fatal checks_fatal)
qed

lemma asset_error_fatal [simp]: "isFatal (asset_error i j s)" "isFatal (tracker_error i j s)" "isFatal (subtype_error i c d)" "isFatal json_error"
  by (simp_all add: asset_error_def tracker_error_def subtype_error_def json_error_def)

lemma native_context_fatal:
  "validateNativeContextTypes n1 a b i = Some e \<Longrightarrow> isFatal e" "validateNativePlacementType n1 a i = Some e \<Longrightarrow> isFatal e"
  by (auto simp: validateNativeContextTypes_def validateNativePlacementType_def subtype_check_def split: if_splits elim!: checks_fatal)

lemma validateNativeAsset_fatal: "validateNativeAsset n1 i j a = Some e \<Longrightarrow> isFatal e"
  unfolding validateNativeAsset_def validateNativeAssetTitle_def validateNativeAssetImage_def validateNativeAssetVideo_def validateNativeAssetData_def
    validateNativeVideoProtocols_def validateNativeVideoProtocol_def and_then_def asset_part_def Let_def
  by (auto split: sum.splits option.splits if_splits elim!: checks_fatal check_each_fatal orelse_fatal)

lemma assets_loop_fatal: "assets_loop n1 i assign k seen as = Inl e \<Longrightarrow> isFatal e"
  by (induction n1 i assign k seen as rule: assets_loop.induct)
     (auto split: option.splits if_splits sum.splits dest: validateNativeAsset_fatal)

lemma validateNativeEventTrackers_fatal: "validateNativeEventTrackers n1 ts i = Some e \<Longrightarrow> isFatal e"
  unfolding validateNativeEventTrackers_def validateNativeEventTracker_def
  by (auto elim!: checks_fatal check_each_fatal orelse_fatal)

lemma json_result_fatal: "json_result r = Inl e \<Longrightarrow> isFatal e"
  by (auto simp: json_result_def split: option.splits)

lemma fillAndValidateNative_fatal: "fillAndValidateNative nr n i = Inl e \<Longrightarrow> isFatal e"
  unfolding fillAndValidateNative_def fillAndValidateNativeAssets_def and_then_def
  by (auto split: option.splits if_splits sum.splits elim!: orelse_fatal
      intro: native_context_fatal assets_loop_fatal validateNativeEventTrackers_fatal json_result_fatal)

text \<open>What the validation of an impression leaves alone, and what a non-fatal result says of it.\<close>

lemma validateImp_accepted:
  assumes "validateImp env imp aliases i = (errs, imp')" and "\<not> ContainsFatalError errs"
  shows "usable_imp imp' \<and> imp_ID imp' = imp_ID imp \<and> imp' = imp\<lparr>imp_Native := imp_Native imp', imp_Ext := imp_Ext imp'\<rparr> \<and>
    fillAndValidateNative (ve_native env) (imp_Native imp) i = Inr (imp_Native imp') \<and>
    validateImpExt env (imp\<lparr>imp_Native := imp_Native imp'\<rparr>) aliases i = (errs, imp')"
proof -
  let ?c = "orelse (checks
        [(imp_ID imp = [], imp_error i ('' missing required field: '' @ quoted_text ''id'')),
         (imp_Metric imp \<noteq> [], imp_error i ''.metric is not yet supported by prebid-server. Support may be added in the future''),
         (imp_Banner imp = None \<and> imp_Video imp = None \<and> imp_Audio imp = None \<and> imp_Native imp = None,
            imp_error i ('' must contain at least one of '' @ quoted_text ''banner'' @ '', '' @ quoted_text ''video'' @ '', '' @
              quoted_text ''audio'' @ '', or '' @ quoted_text ''native''))])
        (orelse (validateBanner (imp_Banner imp) i) (orelse (validateVideo (imp_Video imp) i) (validateAudio (imp_Audio imp) i)))"
  have "isFatal e" if "?c = Some e" for e
    using that by (auto elim!: orelse_fatal checks_fatal intro: media_fatal)
  with assms have c: "?c = None" by (auto simp: validateImp_def split: option.splits)
  with assms obtain native where n: "fillAndValidateNative (ve_native env) (imp_Native imp) i = Inr native"
    by (auto simp: validateImp_def simp del: orelse_None split: sum.splits dest: fillAndValidateNative_fatal)
  have p: "validatePmp (imp_PMP imp) i = None"
    using assms c n by (cases "validatePmp (imp_PMP imp) i") (auto simp: validateImp_def media_fatal(4) simp del: orelse_None)
  have v: "validateImpExt env (imp\<lparr>imp_Native := native\<rparr>) aliases i = (errs, imp')"
    using assms(1) c n p by (simp add: validateImp_def del: orelse_None)
  have imp': "imp' = imp\<lparr>imp_Native := native, imp_Ext := imp_Ext imp'\<rparr>" using validateImpExt_frame [OF v] by simp
  then have native: "imp_Native imp' = native" by (metis Imp.select_convs(5) Imp.surjective Imp.update_convs(5) Imp.update_convs(8))
  have "(imp_Native imp = None) = (native = None)"
    using n by (auto simp: fillAndValidateNative_def split: option.splits if_splits)
  with c p have "usable_imp (imp\<lparr>imp_Native := native, imp_Ext := imp_Ext imp'\<rparr>)"
    by (auto simp: usable_imp_def checks_None media_checks)
  then have "usable_imp imp'" using imp' by simp
  moreover have "imp_ID imp' = imp_ID imp" by (subst imp') simp
  ultimately show ?thesis using n v imp' native by simp
qed

lemma validateImps_accepted:
  assumes "validateImps env aliases k ids imps = (errs, imps')" and "\<not> ContainsFatalError errs"
  shows "map imp_ID imps' = map imp_ID imps \<and> distinct (map imp_ID imps) \<and> (\<forall>imp \<in> set imps. lookup ids (imp_ID imp) = None) \<and>
    list_all2 (\<lambda>imp imp'. \<exists>i es. validateImp env imp aliases i = (es, imp') \<and> \<not> ContainsFatalError es) imps imps'"
  using assms
proof (induction imps arbitrary: k ids errs imps')
  case (Cons imp imps)
  obtain es imp' where v: "validateImp env imp aliases k = (es, imp')" by fastforce
  with Cons.prems have es: "\<not> ContainsFatalError es" and new: "lookup ids (imp_ID imp) = None"
    by (auto simp: Let_def split: if_splits prod.splits option.splits)
  obtain errs' rest where l: "validateImps env aliases (k + 1) (put (imp_ID imp) k ids) imps = (errs', rest)" by fastforce
  with Cons.prems v es have r: "imps' = imp' # rest" and e: "\<not> ContainsFatalError errs'" by (auto simp: Let_def split: option.splits)
  from validateImp_accepted [OF v es] have "imp_ID imp' = imp_ID imp" by simp
  moreover from Cons.IH [OF l e] have "distinct (map imp_ID imps)" "map imp_ID rest = map imp_ID imps"
    "\<forall>i \<in> set imps. imp_ID i \<noteq> imp_ID imp \<and> lookup ids (imp_ID i) = None"
    "list_all2 (\<lambda>imp imp'. \<exists>i es. validateImp env imp aliases i = (es, imp') \<and> \<not> ContainsFatalError es) imps rest"
    by (auto split: if_splits)
  ultimately show ?case using r new v es by auto
qed simp

lemma schains_fatal: "BidderToPrebidSChains p = Err e \<Longrightarrow> isFatal e"
proof -
  have b: "isFatal e" if "schain_bidders s bs m = Err e" for s bs m
    using that by (induction s bs m rule: schain_bidders.induct) (auto split: if_splits)
  have "isFatal e" if "schain_wrappers ws m = Err e" for ws m
    using that by (induction ws m rule: schain_wrappers.induct) (auto split: outcome.splits dest: b)
  then show "BidderToPrebidSChains p = Err e \<Longrightarrow> isFatal e" by (auto simp: BidderToPrebidSChains_def split: option.splits)
qed

lemma eid_loop_fatal: "eid_loop env al i seen es = Some e \<Longrightarrow> isFatal e"
  by (induction env al i seen es rule: eid_loop.induct) (auto simp: eid_error_def split: if_splits option.splits)

lemma currency_check_fatal: "currency_check p c = Some e \<Longrightarrow> isFatal e"
  by (auto simp: currency_check_def isFatal_def split: sum.splits)

lemma alias_error_fatal [simp]: "isFatal (alias_error a s)"
  by (simp add: alias_error_def)

lemma ext_checks_fatal:
  "validateAliases env al = Some e \<Longrightarrow> isFatal e"
  "validateBidAdjustmentFactors env fs al = Some e \<Longrightarrow> isFatal e"
  "validateEidPermissions env p al = Some e \<Longrightarrow> isFatal e"
  "validateCustomRates env c = Some e \<Longrightarrow> isFatal e"
proof -
  show "validateAliases env al = Some e \<Longrightarrow> isFatal e"
    unfolding validateAliases_def by (erule check_each_fatal) (auto elim!: checks_fatal split: prod.splits)
  show "validateBidAdjustmentFactors env fs al = Some e \<Longrightarrow> isFatal e"
    unfolding validateBidAdjustmentFactors_def by (erule check_each_fatal) (auto elim!: checks_fatal split: prod.splits)
  show "validateEidPermissions env p al = Some e \<Longrightarrow> isFatal e"
    by (auto simp: validateEidPermissions_def split: option.splits dest: eid_loop_fatal)
  show "validateCustomRates env c = Some e \<Longrightarrow> isFatal e"
    unfolding validateCustomRates_def
    by (cases c) (auto elim!: check_each_fatal orelse_fatal intro: currency_check_fatal)
qed

lemma validateRequestExt_fatal: "validateRequestExt env x = Ok (Inl e) \<Longrightarrow> isFatal e"
  unfolding validateRequestExt_def parseBidExt_def validateSChains_def
  by (auto simp: Let_def split: sum.splits option.splits outcome.splits if_splits
      elim!: orelse_fatal dest: ext_checks_fatal schains_fatal)

lemma validateRequestExt_no_Err: "validateRequestExt env x \<noteq> Err e"
  unfolding validateRequestExt_def validateSChains_def
  by (auto simp: Let_def split: sum.splits option.splits outcome.splits)

lemma user_eid_loop_fatal: "user_eid_loop i seen es = Some e \<Longrightarrow> isFatal e"
  by (induction i seen es rule: user_eid_loop.induct)
     (auto simp: user_eid_error_def split: if_splits option.splits elim!: check_each_fatal checks_fatal)

lemma object_checks_fatal:
  "validateSite env s = Some e \<Longrightarrow> isFatal e" "validateApp env a = Some e \<Longrightarrow> isFatal e"
  "validateUser env u al = Some e \<Longrightarrow> isFatal e" "validateRegs r = Some e \<Longrightarrow> isFatal e" "validateDevice d = Some e \<Longrightarrow> isFatal e"
proof -
  show "validateSite env s = Some e \<Longrightarrow> isFatal e"
    by (auto simp: validateSite_def dec_ExtSite_def Let_def split: option.splits if_splits raw.splits sum.splits prod.splits)
  show "validateApp env a = Some e \<Longrightarrow> isFatal e"
    unfolding validateApp_def by (cases a) (auto elim!: checks_fatal)
  show "validateUser env u al = Some e \<Longrightarrow> isFatal e"
    unfolding validateUser_def
    by (auto split: option.splits if_splits list.splits prod.splits elim!: orelse_fatal check_each_fatal checks_fatal dest: user_eid_loop_fatal)
  show "validateRegs r = Some e \<Longrightarrow> isFatal e"
    unfolding validateRegs_def by (auto split: option.splits if_splits elim!: checks_fatal)
  show "validateDevice d = Some e \<Longrightarrow> isFatal e"
    unfolding validateDevice_def by (cases d) (auto elim!: checks_fatal)
qed

lemma validate_objects_fatal: "validate_objects env al req = Some e \<Longrightarrow> isFatal e"
  unfolding validate_objects_def by (auto elim!: orelse_fatal checks_fatal intro: object_checks_fatal)

lemma validate_ccpa_fatal: "validate_ccpa al req = Ok (Inl e) \<Longrightarrow> isFatal e"
  unfolding validate_ccpa_def ccpa_ReadFromRequest_def ccpa_Parse_def
  by (auto simp: Let_def split: sum.splits option.splits outcome.splits if_splits go_error.splits prod.splits)

lemma validate_ccpa_no_Err: "validate_ccpa al req \<noteq> Err e"
  unfolding validate_ccpa_def by (auto simp: Let_def split: sum.splits outcome.splits go_error.splits)

text \<open>The request that the auction is held for.\<close>

definition acceptable_request :: "validation_env \<Rightarrow> BidRequest \<Rightarrow> bool" where
  "acceptable_request env req =
     (req_ID req \<noteq> [] \<and> 0 \<le> req_TMax req \<and> length (req_Cur req) \<le> 1 \<and>
      req_Imp req \<noteq> [] \<and> distinct (map imp_ID (req_Imp req)) \<and> list_all usable_imp (req_Imp req) \<and>
      (req_Site req = None) \<noteq> (req_App req = None) \<and>
      pred_option (\<lambda>s. site_ID s \<noteq> [] \<or> site_Page s \<noteq> []) (req_Site req) \<and>
      pred_option (\<lambda>a. app_ID a \<notin> set (ve_BlacklistedAppMap env) \<or> app_ID a = []) (req_App req) \<and>
      pred_option (\<lambda>d. 0 \<le> dev_W d \<and> 0 \<le> dev_H d \<and> 0 \<le> dev_PPI d) (req_Device req))"

lemma limit_currencies_frame:
  assumes "limit_currencies req = (errs, req')"
  shows "\<not> ContainsFatalError errs" and "req' = req\<lparr>req_Cur := take 1 (req_Cur req)\<rparr>"
  using assms by (auto simp: limit_currencies_def isFatal_def split: list.splits)

lemma validateAndFillSourceTID_frame:
  "validateAndFillSourceTID u req = (err, req') \<Longrightarrow> req' = req\<lparr>req_Source := req_Source req'\<rparr>"
  by (auto simp: validateAndFillSourceTID_def Let_def split: if_splits option.splits)

lemma validateAndFillSourceTID_fatal: "validateAndFillSourceTID u req = (Some e, req') \<Longrightarrow> isFatal e"
  by (auto simp: validateAndFillSourceTID_def Let_def split: if_splits option.splits)

lemma ccpa_ConsentWriter_frame: "ccpa_ConsentWriter_Write c req = Ok req' \<Longrightarrow> req' = req\<lparr>req_Regs := req_Regs req'\<rparr>"
  by (auto simp: ccpa_ConsentWriter_Write_def split: outcome.splits)

lemma validate_ccpa_frame: "validate_ccpa al req = Ok (Inr (errs, req')) \<Longrightarrow> req' = req\<lparr>req_Regs := req_Regs req'\<rparr>"
  by (auto simp: validate_ccpa_def Let_def split: sum.splits outcome.splits go_error.splits dest: ccpa_ConsentWriter_frame)

lemma validateRequest_accepted:
  assumes "validateRequest env req = Some (errs, req')" and "\<not> ContainsFatalError errs"
  obtains aliases req3 impErrs where
    "req_ID req \<noteq> []" "0 \<le> req_TMax req" "req_Imp req \<noteq> []"
    "validateRequestExt env (req_Ext req) = Ok (Inr aliases)"
    "req3 = req\<lparr>req_Cur := take 1 (req_Cur req), req_Source := req_Source req3, req_Regs := req_Regs req3\<rparr>"
    "validate_objects env aliases (req3\<lparr>req_Regs := req_Regs req\<rparr>) = None"
    "validateImps env aliases 0 [] (req_Imp req) = (impErrs, req_Imp req')" "\<not> ContainsFatalError impErrs"
    "req' = req3\<lparr>req_Imp := req_Imp req'\<rparr>"
proof -
  obtain errL req1 where l: "limit_currencies req = (errL, req1)" by fastforce
  obtain tidErr req2 where t: "(if ve_AutoGenSourceTID env then validateAndFillSourceTID (ve_NewV4 env) req1 else (None, req1)) = (tidErr, req2)" by fastforce
  have r1: "req1 = req\<lparr>req_Cur := take 1 (req_Cur req)\<rparr>" by (rule limit_currencies_frame(2) [OF l])
  have r2: "req2 = req1\<lparr>req_Source := req_Source req2\<rparr>"
    using t validateAndFillSourceTID_frame [of "ve_NewV4 env" req1 tidErr req2] by (auto split: if_splits)
  have tf: "isFatal e" if "tidErr = Some e" for e using t that by (auto split: if_splits dest: validateAndFillSourceTID_fatal)
  have basics: "req_ID req \<noteq> []" "0 \<le> req_TMax req" "req_Imp req \<noteq> []"
    using assms by (auto simp: validateRequest_def split: if_splits)
  have 1: "tidErr = None" using assms basics l t tf by (cases tidErr) (auto simp: validateRequest_def)
  then have 2: "(case validateRequestExt env (req_Ext req2) of
                  Panic \<Rightarrow> None | Err err \<Rightarrow> Some ([err], req2) | Ok (Inl err) \<Rightarrow> Some ([err], req2)
                | Ok (Inr aliases) \<Rightarrow>
                    (case validate_objects env aliases req2 of Some err \<Rightarrow> Some (errL @ [err], req2) | None \<Rightarrow>
                      (case validate_ccpa aliases req2 of
                         Panic \<Rightarrow> None | Err err \<Rightarrow> Some (errL @ [err], req2) | Ok (Inl err) \<Rightarrow> Some (errL @ [err], req2)
                       | Ok (Inr (ccpaErrs, req3)) \<Rightarrow>
                           if ContainsFatalError ccpaErrs then Some (errL @ ccpaErrs, req3)
                           else (let (impErrs, imps) = validateImps env aliases 0 [] (req_Imp req3)
                                 in Some (errL @ ccpaErrs @ impErrs, req3\<lparr>req_Imp := imps\<rparr>))))) = Some (errs, req')"
    using assms(1) basics l t by (simp add: validateRequest_def)
  from 2 assms(2) obtain aliases where x: "validateRequestExt env (req_Ext req2) = Ok (Inr aliases)"
    using validateRequestExt_no_Err [of env "req_Ext req2"]
    by (auto split: outcome.splits sum.splits dest: validateRequestExt_fatal)
  with 2 assms(2) have o: "validate_objects env aliases req2 = None"
    by (auto split: option.splits dest: validate_objects_fatal)
  from 2 assms(2) x o obtain ccpaErrs req3 where c: "validate_ccpa aliases req2 = Ok (Inr (ccpaErrs, req3))" and cf: "\<not> ContainsFatalError ccpaErrs"
    using validate_ccpa_no_Err [of aliases req2] by (auto split: outcome.splits sum.splits if_splits dest: validate_ccpa_fatal)
  obtain impErrs imps where i: "validateImps env aliases 0 [] (req_Imp req3) = (impErrs, imps)" by fastforce
  from 2 x o c cf i have e: "errs = errL @ ccpaErrs @ impErrs" and r': "req' = req3\<lparr>req_Imp := imps\<rparr>" by auto
  have r3: "req3 = req2\<lparr>req_Regs := req_Regs req3\<rparr>" by (rule validate_ccpa_frame [OF c])
  have r3': "req3 = req\<lparr>req_Cur := take 1 (req_Cur req), req_Source := req_Source req3, req_Regs := req_Regs req3\<rparr>"
    using r1 r2 r3 by (cases req, cases req1, cases req2, cases req3) simp
  have q: "req_Imp req3 = req_Imp req" "req_Ext req2 = req_Ext req" "req3\<lparr>req_Regs := req_Regs req\<rparr> = req2" "req_Imp req' = imps"
    using r1 r2 r3 r' by (cases req, cases req1, cases req2, cases req3, simp)+
  show thesis
  proof (rule that [OF basics _ r3'])
    show "validateRequestExt env (req_Ext req) = Ok (Inr aliases)" using x q(2) by simp
    show "validate_objects env aliases (req3\<lparr>req_Regs := req_Regs req\<rparr>) = None" unfolding q(3) by (rule o)
    show "validateImps env aliases 0 [] (req_Imp req) = (impErrs, req_Imp req')" using i q(1) unfolding q(4) by simp
    show "\<not> ContainsFatalError impErrs" using e assms(2) by simp
    show "req' = req3\<lparr>req_Imp := req_Imp req'\<rparr>" unfolding q(4) by (rule r')
  qed
qed

lemma validateImps_usable:
  assumes "validateImps env aliases k ids imps = (errs, imps')" and "\<not> ContainsFatalError errs"
  shows "distinct (map imp_ID imps') \<and> list_all usable_imp imps' \<and> length imps' = length imps"
proof -
  from validateImps_accepted [OF assms] have 1: "map imp_ID imps' = map imp_ID imps" "distinct (map imp_ID imps)"
    and 2: "list_all2 (\<lambda>imp imp'. \<exists>i es. validateImp env imp aliases i = (es, imp') \<and> \<not> ContainsFatalError es) imps imps'" by auto
  from 2 have "usable_imp (imps' ! n)" if "n < length imps'" for n
    using that by (auto simp: list_all2_conv_all_nth dest!: validateImp_accepted)
  with 1 2 show ?thesis by (simp add: list_all_length list_all2_lengthD [OF 2])
qed

lemma validateRequest_acceptable:
  assumes "validateRequest env req = Some (errs, req')" and "\<not> ContainsFatalError errs"
  shows "acceptable_request env req' \<and> req_ID req' = req_ID req \<and> map imp_ID (req_Imp req') = map imp_ID (req_Imp req)"
proof (rule validateRequest_accepted [OF assms])
  fix aliases req3 impErrs
  assume b: "req_ID req \<noteq> []" "0 \<le> req_TMax req" "req_Imp req \<noteq> []"
    and r3: "req3 = req\<lparr>req_Cur := take 1 (req_Cur req), req_Source := req_Source req3, req_Regs := req_Regs req3\<rparr>"
    and o: "validate_objects env aliases (req3\<lparr>req_Regs := req_Regs req\<rparr>) = None"
    and i: "validateImps env aliases 0 [] (req_Imp req) = (impErrs, req_Imp req')" "\<not> ContainsFatalError impErrs"
    and r': "req' = req3\<lparr>req_Imp := req_Imp req'\<rparr>"
  have f3: "req_ID req3 = req_ID req" "req_TMax req3 = req_TMax req" "req_Cur req3 = take 1 (req_Cur req)"
    "req_Site req3 = req_Site req" "req_App req3 = req_App req" "req_Device req3 = req_Device req"
    by (subst r3, simp)+
  have f: "req_ID req' = req_ID req" "req_TMax req' = req_TMax req" "req_Cur req' = take 1 (req_Cur req)"
    "req_Site req' = req_Site req" "req_App req' = req_App req" "req_Device req' = req_Device req"
    by (subst r', simp add: f3)+
  show ?thesis using b o validateImps_usable [OF i] validateImps_accepted [OF i]
    by (auto simp: acceptable_request_def f f3 validate_objects_def validateSite_def validateApp_def validateDevice_def checks_None
        split: option.splits if_splits)
qed

text \<open>
  C5. A request for which validation reports no fatal error is fit for an auction: it has an id, at most one currency,
  either a site or an app, an app that is not blacklisted, and impressions with distinct non-empty ids, each
  with some media type whose sizes, MIME types and deals are well formed. The ids are those of the request.
\<close>

theorem accepted_request:
  assumes "validateRequest env req = Some (errs, req')" and "\<not> ContainsFatalError errs"
  shows "acceptable_request env req' \<and> req_ID req' = req_ID req \<and> map imp_ID (req_Imp req') = map imp_ID (req_Imp req)"
  using assms by (rule validateRequest_acceptable)

section \<open>Which bidders get an accepted impression\<close>










text \<open>The parameters of a bidder that validation has passed.\<close>

definition passes :: "validation_env \<Rightarrow> (string, string) gomap \<Rightarrow> string \<Rightarrow> json \<Rightarrow> bool" where
  "passes env aliases b j = (case lookup (ve_bidderMap env) (core_bidder aliases b) of
     Some name \<Rightarrow> ve_Validate env name j = None | None \<Rightarrow> False)"





lemma wf_fold_del [simp]: "wf_map m \<Longrightarrow> wf_map (fold (\<lambda>w m. del (snd w) m) ds m)"
  by (induction ds arbitrary: m) auto






section \<open>The sizes of interstitials\<close>

lemma take_sizes_take: "n < 10 \<Longrightarrow> take_sizes n fits ss = take (10 - n) (filter fits ss)"
proof (induction n fits ss rule: take_sizes.induct)
  case (2 n fits s ss)
  show ?case
  proof (cases "n + 1 \<ge> 10")
    case True
    with 2 have "10 - n = 1" by simp
    with 2 True show ?thesis by simp
  next
    case False
    then have "10 - n = Suc (10 - (n + 1))" by simp
    with 2 False show ?thesis by simp
  qed
qed simp

lemma sizes_positive: "list_all (\<lambda>(w, h). 0 < w \<and> 0 < h) ResolvedInterstitialSizes"
  by (simp add: ResolvedInterstitialSizes_def)

lemma percent_of_bounds:
  assumes "0 \<le> n" "n < 2 ^ 56" "0 \<le> p" "p \<le> 100"
  shows "percent_of n p = n * p div 100"
proof -
  have "is_int64 x" if "0 \<le> x" "x \<le> n * 100" for x using that assms by (simp add: is_int64_def)
  moreover have "n * p \<le> n * 100" "n * p \<ge> 0" using assms by (auto intro: mult_left_mono)
  ultimately show ?thesis by (simp add: percent_of_def wrap64_id signed_divide_int_def sgn_if)
qed

lemma percent_between: "(k :: int) div 100 \<le> w \<longleftrightarrow> k < 100 * w + 100"
  by linarith

definition fitting_sizes :: "int \<Rightarrow> int \<Rightarrow> int \<times> int \<Rightarrow> (int \<times> int) list" where
  "fitting_sizes w h perc = filter (\<lambda>(x, y). x \<le> w \<and> y \<le> h \<and> w * fst perc < 100 * x + 100 \<and> h * snd perc < 100 * y + 100) ResolvedInterstitialSizes"

text \<open>
  C17. An interstitial banner is offered, in the order of the table, the first ten sizes that are no larger than its
  maximal size and cover the wanted percentage of each side; it is an error exactly if there is none, and every
  size offered passes the validation that follows.
\<close>

theorem interstitial_sizes:
  assumes "processInterstitialsForImp imp perc device = (err, imp')" and "imp_Banner imp = Some b"
    and "max_interstitial b device = (w, h)" and "0 \<le> w" "w < 2 ^ 56" "0 \<le> h" "h < 2 ^ 56"
    and "0 \<le> fst perc" "fst perc \<le> 100" "0 \<le> snd perc" "snd perc \<le> 100"
  shows "(err = None \<longleftrightarrow> fitting_sizes w h perc \<noteq> []) \<and>
    (\<exists>b'. imp_Banner imp' = Some b' \<and> map (\<lambda>f. (fmt_W f, fmt_H f)) (ban_Format b') = take 10 (fitting_sizes w h perc) \<and>
       (\<forall>f \<in> set (ban_Format b'). validateFormat i j f = None))"
proof -
  let ?F = "genInterstitialFormat (percent_of w (fst perc)) w (percent_of h (snd perc)) h"
  have "(\<lambda>(x, y). percent_of w (fst perc) \<le> x \<and> x \<le> w \<and> percent_of h (snd perc) \<le> y \<and> y \<le> h) =
    (\<lambda>(x, y). x \<le> w \<and> y \<le> h \<and> w * fst perc < 100 * x + 100 \<and> h * snd perc < 100 * y + 100)"
    using assms(4-11) by (auto simp: percent_of_bounds percent_between fun_eq_iff)
  then have F: "?F = map (\<lambda>(w, h). \<lparr>fmt_W = w, fmt_H = h, fmt_WRatio = 0, fmt_HRatio = 0, fmt_WMin = 0\<rparr>) (take 10 (fitting_sizes w h perc))"
    by (simp add: genInterstitialFormat_def take_sizes_take fitting_sizes_def)
  have pos: "0 < fst s \<and> 0 < snd s" if "s \<in> set (take 10 (fitting_sizes w h perc))" for s
    using in_set_takeD [OF that] sizes_positive by (auto simp: fitting_sizes_def list_all_iff)
  have "imp_Banner imp' = Some (b\<lparr>ban_Format := ?F\<rparr>)" and "err = None \<longleftrightarrow> ?F \<noteq> []"
    using assms(1-3) by (auto simp: processInterstitialsForImp_def Let_def split: if_splits)
  moreover have "?F \<noteq> [] \<longleftrightarrow> fitting_sizes w h perc \<noteq> []" by (simp add: F)
  moreover have "map (\<lambda>f. (fmt_W f, fmt_H f)) ?F = take 10 (fitting_sizes w h perc)" by (simp add: F comp_def case_prod_beta)
  moreover have "\<forall>f \<in> set ?F. validateFormat i j f = None"
    using pos by (fastforce simp: F validateFormat_None sized_format_def case_prod_beta)
  ultimately show ?thesis by simp
qed

text \<open>
  C18. A native request that is accepted is the decoded payload with its assets renumbered: there is at least one
  asset, each has exactly one of title, image, video and data, the ids are distinct, and all
  else of the assets is the caller's. If the caller gave any id, so are the ids; else they are the positions, from 0.
\<close>

theorem native_request_filled:
  assumes "fillAndValidateNative nr (Some n) i = Inr n'"
  shows "\<exists>payload assets serialized. nr_decode nr (nat_Request n) = Some payload \<and> nr_encode nr (payload\<lparr>nq_Assets := assets\<rparr>) = Some serialized \<and>
    n' = Some (n\<lparr>nat_Request := serialized\<rparr>) \<and> assets \<noteq> [] \<and> distinct (map na_ID assets) \<and> (\<forall>a \<in> set assets. asset_parts a = 1) \<and>
    map (\<lambda>a. a\<lparr>na_ID := 0\<rparr>) assets = map (\<lambda>a. a\<lparr>na_ID := 0\<rparr>) (nq_Assets payload) \<and>
    (if \<exists>a \<in> set (nq_Assets payload). na_ID a \<noteq> 0 then assets = nq_Assets payload else map na_ID assets = map int [0..<length (nq_Assets payload)])"
proof -
  from assms obtain payload assets serialized where p: "nr_decode nr (nat_Request n) = Some payload"
    and a: "fillAndValidateNativeAssets (nr_constants nr) (nq_Assets payload) i = Inr assets"
    and s: "nr_encode nr (payload\<lparr>nq_Assets := assets\<rparr>) = Some serialized" "n' = Some (n\<lparr>nat_Request := serialized\<rparr>)"
    by (auto simp: fillAndValidateNative_def json_result_def split: if_splits option.splits)
  from fillAndValidateNativeAssets_ids [OF a] have "assets \<noteq> []" by auto
  with fillAndValidateNativeAssets_ids [OF a] p s show ?thesis by blast
qed

section \<open>Examples\<close>

text \<open>The IAB's numbers of the native enumerations, one active and one disabled bidder, and parameters that must be objects.\<close>

definition iab_native1 :: native1_constants where
  "iab_native1 = \<lparr>ContextTypeContent = 1, ContextTypeSocial = 2, ContextTypeProduct = 3, ContextSubTypeGeneral = 10,
     ContextSubTypeUserGenerated = 15, ContextSubTypeSocial = 20, ContextSubTypeChat = 22, ContextSubTypeSelling = 30,
     ContextSubTypeProductReview = 32, PlacementTypeFeed = 1, PlacementTypeRecommendationWidget = 4, EventTypeImpression = 1,
     EventTypeViewableVideo50 = 4, EventTrackingMethodImage = 1, EventTrackingMethodJS = 2, DataAssetTypeSponsored = 1,
     DataAssetTypeCTAText = 12, ProtocolVAST10 = 1, ProtocolDAAST10Wrapper = 10\<rparr>"

definition example_payload :: NativePayload where
  "example_payload = \<lparr>nq_Context = 1, nq_ContextSubType = 11, nq_PlcmtType = 1,
     nq_Assets = [\<lparr>na_ID = 0, na_Title = Some 25, na_Img = None, na_Video = None, na_Data = None, na_other = JNull\<rparr>,
                  \<lparr>na_ID = 0, na_Title = None, na_Img = None, na_Video = None, na_Data = Some 1, na_other = JNull\<rparr>],
     nq_EventTrackers = [\<lparr>et_Event = 1, et_Methods = [1]\<rparr>], nq_other = JNull\<rparr>"

definition example_native :: native_requests where
  "example_native = \<lparr>nr_constants = iab_native1, nr_decode = (\<lambda>s. Some example_payload),
     nr_encode = (\<lambda>p. Some (concat (map (itoa \<circ> na_ID) (nq_Assets p))))\<rparr>"

definition example_validation :: validation_env where
  "example_validation = \<lparr>ve_bidderMap = [(''appnexus'', ''appnexus'')], ve_disabledBidders = [(''lifestreet'', ''gone'')],
     ve_Validate = (\<lambda>name ext. case ext of JObj _ \<Rightarrow> None | _ \<Rightarrow> Some (OtherError ''not an object'')), ve_BlacklistedAppMap = [],
     ve_AutoGenSourceTID = False, ve_NewV4 = None, ve_parseISO = (\<lambda>c. Inr c), ve_native = example_native,
     ve_get = (\<lambda>j k. (JfNotExist, [])), ve_range = (\<lambda>ks. ks)\<rparr>"

definition example_banner :: Banner where
  "example_banner = \<lparr>ban_Format = [\<lparr>fmt_W = 320, fmt_H = 480, fmt_WRatio = 0, fmt_HRatio = 0, fmt_WMin = 0\<rparr>], ban_W = None, ban_H = None,
     ban_WMin = 0, ban_WMax = 0, ban_HMin = 0, ban_HMax = 0, ban_other = JNull\<rparr>"

definition banner_imp :: "json \<Rightarrow> Imp" where
  "banner_imp ext = \<lparr>imp_ID = ''i'', imp_Banner = Some example_banner, imp_Video = None, imp_Audio = None, imp_Native = None,
     imp_Instl = 0, imp_Exp = 0, imp_Ext = Raw ext, imp_TagID = [], imp_Metric = [], imp_PMP = None, imp_Secure = None, imp_other = JNull\<rparr>"

definition banner_ext :: json where
  "banner_ext = JObj [(''appnexus'', JObj [(''placementId'', JInt 7)]), (''lifestreet'', JObj [])]"

definition banner_request :: BidRequest where
  "banner_request = \<lparr>req_ID = ''r'', req_Imp = [banner_imp banner_ext], req_Site = Some (emptySite\<lparr>site_Page := ''p''\<rparr>), req_App = None, req_Device = None,
     req_User = None, req_Test = 0, req_TMax = 0, req_Cur = [''USD'', ''EUR''], req_Source = None, req_Regs = None, req_Ext = RawEmpty, req_AT = 1,
     req_other = JNull\<rparr>"

lemma banner_request_accepted:
  "(case validateRequest example_validation banner_request of
      Some (errs, req') \<Rightarrow> \<not> ContainsFatalError errs \<and> map imp_Ext (req_Imp req') = [Raw (JObj [(''appnexus'', JObj [(''placementId'', JInt 7)])])]
    | None \<Rightarrow> False)"
  by code_simp

theorem accepted_request_witness:
  "\<exists>errs req'. validateRequest example_validation banner_request = Some (errs, req') \<and> \<not> ContainsFatalError errs \<and>
     acceptable_request example_validation req'"
proof -
  from banner_request_accepted obtain errs req' where "validateRequest example_validation banner_request = Some (errs, req')" "\<not> ContainsFatalError errs"
    by (auto split: option.splits)
  with accepted_request [OF this] show ?thesis by blast
qed



text \<open>
  The two ways around validation: a disabled bidder under \<open>prebid.bidder\<close> is reported and removed from the impression, but
  not from \<open>prebid.bidder\<close>, where the exchange finds it again; and the parameters under \<open>prebid.bidder\<close> are not looked at
  if another field of \<open>prebid\<close> has the wrong type, although the exchange uses them.
\<close>

lemma disabled_bidder_kept:
  "(let (errs, imp') = validateImp example_validation (banner_imp (JObj [(''appnexus'', JObj []),
      (''prebid'', JObj [(''bidder'', JObj [(''lifestreet'', JObj [])])])])) [] 0
    in errs = [BidderTemporarilyDisabled ''gone''] \<and> imp_for ''lifestreet'' imp' \<noteq> None)"
  by code_simp

lemma unvalidated_params:
  "(let (errs, imp') = validateImp example_validation (banner_imp (JObj [(''appnexus'', JObj []),
      (''prebid'', JObj [(''is_rewarded_inventory'', JStr ''1''), (''bidder'', JObj [(''appnexus'', JInt 3), (''nobody'', JNull)])])])) [] 0
    in errs = [] \<and> imp_for ''appnexus'' imp' \<noteq> None \<and> imp_for ''nobody'' imp' \<noteq> None \<and> \<not> passes example_validation [] ''appnexus'' (JInt 3))"
  by code_simp

theorem native_request_filled_witness:
  "\<exists>assets. fillAndValidateNative example_native (Some \<lparr>nat_Request = ''{}'', nat_other = JNull\<rparr>) 0 = Inr (Some \<lparr>nat_Request = ''01'', nat_other = JNull\<rparr>) \<and>
     nr_encode example_native (example_payload\<lparr>nq_Assets := assets\<rparr>) = Some ''01'' \<and> map na_ID assets = [0, 1] \<and>
     map (\<lambda>a. a\<lparr>na_ID := 0\<rparr>) assets = nq_Assets example_payload"
proof -
  have n: "fillAndValidateNative example_native (Some \<lparr>nat_Request = ''{}'', nat_other = JNull\<rparr>) 0 = Inr (Some \<lparr>nat_Request = ''01'', nat_other = JNull\<rparr>)"
    by code_simp
  obtain payload assets serialized where
    p: "nr_decode example_native (nat_Request \<lparr>nat_Request = ''{}'', nat_other = JNull\<rparr>) = Some payload"
    and a: "nr_encode example_native (payload\<lparr>nq_Assets := assets\<rparr>) = Some serialized"
      "Some \<lparr>nat_Request = ''01'', nat_other = JNull\<rparr> = Some (\<lparr>nat_Request = ''{}'', nat_other = JNull\<rparr>\<lparr>nat_Request := serialized\<rparr>)"
      "map (\<lambda>a. a\<lparr>na_ID := 0\<rparr>) assets = map (\<lambda>a. a\<lparr>na_ID := 0\<rparr>) (nq_Assets payload)"
      "if \<exists>a \<in> set (nq_Assets payload). na_ID a \<noteq> 0 then assets = nq_Assets payload else map na_ID assets = map int [0..<length (nq_Assets payload)]"
    using native_request_filled [OF n] by (elim exE conjE) (rule that, assumption+)
  have "serialized = ''01''" using a(2) by simp
  have payload: "payload = example_payload" using p by (simp add: example_native_def)
  have "map na_ID assets = [0, 1]" "map (\<lambda>a. a\<lparr>na_ID := 0\<rparr>) assets = nq_Assets example_payload"
    using a(3,4) unfolding payload by (simp_all add: example_payload_def)
  with n a(1) \<open>serialized = ''01''\<close> show ?thesis unfolding payload by (intro exI [of _ assets] conjI) simp_all
qed

theorem interstitial_sizes_witness:
  "\<exists>err imp'. processInterstitialsForImp (banner_imp banner_ext) (80, 50) emptyDevice = (err, imp') \<and> err = None \<and>
     (\<exists>b'. imp_Banner imp' = Some b' \<and> map (\<lambda>f. (fmt_W f, fmt_H f)) (ban_Format b') = take 10 (fitting_sizes 320 480 (80, 50)))"
proof -
  obtain err imp' where p: "processInterstitialsForImp (banner_imp banner_ext) (80, 50) emptyDevice = (err, imp')" by fastforce
  have m: "max_interstitial example_banner emptyDevice = (320, 480)" by code_simp
  have b: "imp_Banner (banner_imp banner_ext) = Some example_banner" by (simp add: banner_imp_def)
  have "fitting_sizes 320 480 (80, 50) \<noteq> []" by code_simp
  with interstitial_sizes [OF p b m, of 0 0] p show ?thesis by auto
qed

end
