(* ===== verification/Seat_Bids.thy ===== *)
theory Seat_Bids
  imports OpenRTB
begin

text \<open>
  The bids inside the exchange (\<open>exchange/bidder.go\<close>). The code shares them by pointer: seats, the
  tables of the auction and the cache indices hold the same \<open>*pbsOrtbBid\<close>, which points to an
  \<open>*openrtb2.Bid\<close>. Pointers are numbers into a store of both kinds of objects; a nil or dangling
  pointer has no object, and a dereference of it is the panic None.
\<close>

type_synonym ptr = nat

record BidVideo =
  bv_Duration :: int
  bv_PrimaryCategory :: string

record BidEvents =
  be_Win :: string
  be_Imp :: string

record pbsOrtbBid =
  pb_bid :: "ptr option"
  pb_bidType :: string
  pb_bidTargets :: "(string, string) gomap"
  pb_bidVideo :: "BidVideo option"
  pb_bidEvents :: "BidEvents option"
  pb_dealPriority :: int
  pb_dealTierSatisfied :: bool
  pb_generatedBidID :: string

record ExtHttpCall =
  xh_Uri :: string
  xh_RequestBody :: string
  xh_RequestHeaders :: "(string, string list) gomap"
  xh_ResponseBody :: string
  xh_Status :: int

record pbsOrtbSeatBid =
  sb_bids :: "ptr list"
  sb_currency :: string
  sb_httpCalls :: "ExtHttpCall list"

record store =
  st_pbs :: "ptr \<Rightarrow> pbsOrtbBid option"
  st_bid :: "ptr \<Rightarrow> Bid option"

type_synonym seats = "(bidderName, pbsOrtbSeatBid option) gomap"

text \<open>\<open>p.bid\<close> and \<open>*p.bid\<close>.\<close>

definition bid_ptr :: "store \<Rightarrow> ptr \<Rightarrow> ptr option" where
  "bid_ptr H p = (case st_pbs H p of None \<Rightarrow> None | Some b \<Rightarrow> pb_bid b)"

definition bid_at :: "store \<Rightarrow> ptr \<Rightarrow> Bid option" where
  "bid_at H p = (case bid_ptr H p of None \<Rightarrow> None | Some q \<Rightarrow> st_bid H q)"

definition seat_bids :: "pbsOrtbSeatBid option \<Rightarrow> ptr list" where
  "seat_bids sb = (case sb of None \<Rightarrow> [] | Some s \<Rightarrow> sb_bids s)"

text \<open>Every bid of the seats, with its bidder, in the order of iteration.\<close>

definition all_bids :: "seats \<Rightarrow> (bidderName \<times> ptr) list" where
  "all_bids seats = concat (map (\<lambda>(b, sb). map (\<lambda>p. (b, p)) (seat_bids sb)) seats)"

definition valid_seats :: "store \<Rightarrow> seats \<Rightarrow> bool" where
  "valid_seats H seats = (\<forall>(b, p) \<in> set (all_bids seats). bid_at H p \<noteq> None)"

lemma all_bids_Nil [simp]: "all_bids [] = []"
  by (simp add: all_bids_def)

lemma all_bids_Cons [simp]: "all_bids ((b, sb) # seats) = map (\<lambda>p. (b, p)) (seat_bids sb) @ all_bids seats"
  by (simp add: all_bids_def)

lemma set_all_bids: "set (all_bids seats) = {(b, p). \<exists>sb. (b, sb) \<in> set seats \<and> p \<in> set (seat_bids sb)}"
  by (auto simp: all_bids_def)

definition makeVAST :: "Bid \<Rightarrow> string" where
  "makeVAST bid =
     (if bid_AdM bid = []
      then ''<VAST version='' @ [CHR 0x22] @ ''3.0'' @ [CHR 0x22] @ ''><Ad><Wrapper><AdSystem>prebid.org wrapper</AdSystem><VASTAdTagURI><![CDATA[''
        @ bid_NURL bid @ '']]></VASTAdTagURI><Impression></Impression><Creatives></Creatives></Wrapper></Ad></VAST>''
      else bid_AdM bid)"

end
