(* ===== verification/Events.thy ===== *)
theory Events
  imports Seat_Bids Account Cache_Client
begin

text \<open>
  Win and impression events: the event URLs and the \<open>/event\<close> endpoint that receives them
  (\<open>endpoints/events/event.go\<close>), the injection of the impression URL into VAST and the \<open>/vtrack\<close>
  endpoint (\<open>endpoints/events/vtrack.go\<close>), and the event tracking of an auction
  (\<open>exchange/events.go\<close>). An HTTP request is its query string or its decoded body; a response is
  its status and body. \<open>patchWurl\<close> stands for the merge patch (\<open>jsonpatch.MergePatch\<close>) that adds the win
  URL to the JSON of a bid.
\<close>

section \<open>Query strings\<close>

definition hex_digit :: "int \<Rightarrow> char" where
  "hex_digit n = (if n < 10 then char_of (48 + n) else char_of (55 + n))"

definition unreserved :: "char \<Rightarrow> bool" where
  "unreserved c = (let n = of_char c :: int in
     (48 \<le> n \<and> n \<le> 57) \<or> (65 \<le> n \<and> n \<le> 90) \<or> (97 \<le> n \<and> n \<le> 122) \<or> n \<in> {45, 46, 95, 126})"

text \<open>\<open>url.QueryEscape\<close> and \<open>url.QueryUnescape\<close>.\<close>

definition escape_char :: "char \<Rightarrow> string" where
  "escape_char c =
     (if c = CHR '' '' then ''+'' else if unreserved c then [c]
      else (let n = of_char c :: int in [CHR ''%'', hex_digit (n div 16), hex_digit (n mod 16)]))"

definition query_escape :: "string \<Rightarrow> string" where
  "query_escape s = concat (map escape_char s)"

definition unhex :: "char \<Rightarrow> int option" where
  "unhex c = (let n = of_char c :: int in
     if 48 \<le> n \<and> n \<le> 57 then Some (n - 48)
     else if 97 \<le> n \<and> n \<le> 102 then Some (n - 87)
     else if 65 \<le> n \<and> n \<le> 70 then Some (n - 55) else None)"

fun query_unescape :: "string \<Rightarrow> string option" where
  "query_unescape [] = Some []"
| "query_unescape (c # cs) =
     (if c = CHR ''%''
      then (case cs of
              a # b # rest \<Rightarrow>
                (case (unhex a, unhex b) of
                   (Some x, Some y) \<Rightarrow> map_option (\<lambda>t. char_of (16 * x + y) # t) (query_unescape rest)
                 | _ \<Rightarrow> None)
            | _ \<Rightarrow> None)
      else map_option (\<lambda>t. (if c = CHR ''+'' then CHR '' '' else c) # t) (query_unescape cs))"

text \<open>\<open>strings.Index\<close> for one byte, as the parts around it.\<close>

fun cut :: "char \<Rightarrow> string \<Rightarrow> (string \<times> string) option" where
  "cut c [] = None"
| "cut c (x # xs) = (if x = c then Some ([], xs) else map_option (\<lambda>(a, b). (x # a, b)) (cut c xs))"

text \<open>\<open>url.ParseQuery\<close>: pairs that cannot be unescaped are dropped, as \<open>URL.Query\<close> does.\<close>

definition parse_pair :: "string \<Rightarrow> (string \<times> string) option" where
  "parse_pair p =
     (if p = [] then None
      else (let (k, v) = (case cut (CHR ''='') p of None \<Rightarrow> (p, []) | Some kv \<Rightarrow> kv)
            in case (query_unescape k, query_unescape v) of (Some k', Some v') \<Rightarrow> Some (k', v') | _ \<Rightarrow> None))"

definition parse_query :: "string \<Rightarrow> (string \<times> string) list" where
  "parse_query q = List.map_filter parse_pair (split_on (CHR ''&'') q)"

definition query_get :: "string \<Rightarrow> string \<Rightarrow> string" where
  "query_get q k = (case map_of (parse_query q) k of None \<Rightarrow> [] | Some v \<Rightarrow> v)"

section \<open>Event requests and their URLs\<close>

record EventRequest =
  er_Type :: string
  er_Format :: string
  er_Analytics :: string
  er_BidID :: string
  er_AccountID :: string
  er_Bidder :: string
  er_Timestamp :: int

text \<open>\<open>url.Values.Encode\<close> sorts by key: \<open>bidder\<close>, \<open>f\<close>, \<open>ts\<close>, \<open>x\<close>.\<close>

definition optionalParameters :: "EventRequest \<Rightarrow> string" where
  "optionalParameters r =
     (let pairs = (if er_Bidder r \<noteq> [] then [(''bidder'', er_Bidder r)] else [])
            @ (if er_Format r = ''b'' \<or> er_Format r = ''i'' then [(''f'', er_Format r)] else [])
            @ (if er_Timestamp r > 0 then [(''ts'', itoa (er_Timestamp r))] else [])
            @ (if er_Analytics r = ''1'' \<or> er_Analytics r = ''0'' then [(''x'', er_Analytics r)] else []);
          opt = join ''&'' (map (\<lambda>(k, v). query_escape k @ ''='' @ query_escape v) pairs)
      in if opt \<noteq> [] then ''&'' @ opt else opt)"

text \<open>The type, the bid id and the account id are printed as they are.\<close>

definition event_query :: "EventRequest \<Rightarrow> string" where
  "event_query r = ''t='' @ er_Type r @ ''&b='' @ er_BidID r @ ''&a='' @ er_AccountID r @ optionalParameters r"

definition EventRequestToUrl :: "string \<Rightarrow> EventRequest \<Rightarrow> string" where
  "EventRequestToUrl externalUrl r = externalUrl @ ''/event?'' @ event_query r"

definition checkRequiredParameter :: "string \<Rightarrow> string \<Rightarrow> go_error + string" where
  "checkRequiredParameter q k =
     (let t = query_get q k
      in if t = [] then Inl (BadInput (''parameter '' @ [CHR 0x27] @ k @ [CHR 0x27] @ '' is required'')) else Inr t)"

definition quoted :: "string \<Rightarrow> string" where
  "quoted s = [CHR 0x27] @ s @ [CHR 0x27]"

definition readType :: "string \<Rightarrow> go_error + string" where
  "readType q = (case checkRequiredParameter q ''t'' of
     Inl e \<Rightarrow> Inl e
   | Inr t \<Rightarrow> if t = ''imp'' \<or> t = ''win'' then Inr t else Inl (BadInput (''unknown type: '' @ quoted t)))"

definition readFormat :: "string \<Rightarrow> go_error + string" where
  "readFormat q = (let f = query_get q ''f'' in
     if f = [] then Inr [] else if f = ''b'' \<or> f = ''i'' then Inr f
     else Inl (BadInput (''unknown format: '' @ quoted f)))"

definition readAnalytics :: "string \<Rightarrow> go_error + string" where
  "readAnalytics q = (let a = query_get q ''x'' in
     if a = [] then Inr ''1'' else if a = ''1'' \<or> a = ''0'' then Inr a
     else Inl (BadInput (''unknown analytics: '' @ quoted a)))"

definition readTimestamp :: "string \<Rightarrow> go_error + int" where
  "readTimestamp q = (let t = query_get q ''ts'' in
     if t = [] then Inr 0
     else (case atoi t of
             None \<Rightarrow> Inl (BadInput (''invalid request: error parsing timestamp '' @ quoted t))
           | Some ts \<Rightarrow> Inr ts))"

definition err_of :: "go_error + 'a \<Rightarrow> go_error list" where
  "err_of r = (case r of Inl e \<Rightarrow> [e] | Inr _ \<Rightarrow> [])"

definition val_of :: "'a \<Rightarrow> go_error + 'a \<Rightarrow> 'a" where
  "val_of d r = (case r of Inl _ \<Rightarrow> d | Inr v \<Rightarrow> v)"

definition ParseEventRequest :: "string \<Rightarrow> EventRequest \<times> go_error list" where
  "ParseEventRequest q =
     (\<lparr>er_Type = val_of [] (readType q), er_Format = val_of [] (readFormat q), er_Analytics = val_of [] (readAnalytics q),
       er_BidID = val_of [] (checkRequiredParameter q ''b''), er_AccountID = [], er_Bidder = query_get q ''bidder'',
       er_Timestamp = val_of 0 (readTimestamp q)\<rparr>,
      err_of (readType q) @ err_of (checkRequiredParameter q ''b'') @ err_of (readTimestamp q)
        @ err_of (readFormat q) @ err_of (readAnalytics q))"

record response =
  rs_status :: int
  rs_body :: string

text \<open>The \<open>/event\<close> handler: the response, and the event passed to the analytics module.\<close>

definition event_Handle ::
  "(string \<Rightarrow> go_error list + Account) \<Rightarrow> (go_error \<Rightarrow> bool) \<Rightarrow> string \<Rightarrow> string \<Rightarrow> response \<times> (EventRequest \<times> Account) option" where
  "event_Handle getAccount isDeadline pixel q =
     (let (ev, errs) = ParseEventRequest q
      in if errs \<noteq> []
         then (\<lparr>rs_status = 400, rs_body = concat (map (\<lambda>e. ''invalid request: '' @ Error e @ [CHR 10]) errs)\<rparr>, None)
         else (case checkRequiredParameter q ''a'' of
                 Inl e \<Rightarrow> (\<lparr>rs_status = 401, rs_body = ''Account '' @ quoted ''a'' @ '' is required query parameter and can't be empty''\<rparr>, None)
               | Inr accountId \<Rightarrow>
                   (let ev' = ev\<lparr>er_AccountID := accountId\<rparr>
                    in if er_Analytics ev' \<noteq> ''1'' then (\<lparr>rs_status = 204, rs_body = []\<rparr>, None)
                       else (case getAccount accountId of
                               Inl aerrs \<Rightarrow>
                                 (let (status, messages) = HandleAccountServiceErrors isDeadline aerrs
                                  in (\<lparr>rs_status = status, rs_body = concat (map (\<lambda>m. ''Invalid request: '' @ m @ [CHR 10]) messages)\<rparr>, None))
                             | Inr account \<Rightarrow>
                                 if \<not> acc_EventsEnabled account
                                 then (\<lparr>rs_status = 401, rs_body = ''Account '' @ quoted accountId @ '' doesn't support events''\<rparr>, None)
                                 else (if er_Format ev' = ''i'' then \<lparr>rs_status = 200, rs_body = pixel\<rparr>
                                       else \<lparr>rs_status = 204, rs_body = []\<rparr>, Some (ev', account))))))"

section \<open>VAST\<close>

text \<open>\<open>strings.Index\<close> as the parts around the first occurrence, and \<open>strings.Replace(s, x, y, 1)\<close>.\<close>

fun split_sub :: "string \<Rightarrow> string \<Rightarrow> (string \<times> string) option" where
  "split_sub sub [] = (if sub = [] then Some ([], []) else None)"
| "split_sub sub (c # cs) =
     (if has_prefix (c # cs) sub then Some ([], drop (length sub) (c # cs))
      else map_option (\<lambda>(a, b). (c # a, b)) (split_sub sub cs))"

definition str_index :: "string \<Rightarrow> string \<Rightarrow> int" where
  "str_index s sub = (case split_sub sub s of None \<Rightarrow> - 1 | Some (a, b) \<Rightarrow> int (length a))"

definition replace_first :: "string \<Rightarrow> string \<Rightarrow> string \<Rightarrow> string" where
  "replace_first s x y = (case split_sub x s of None \<Rightarrow> s | Some (a, b) \<Rightarrow> a @ y @ b)"

definition ImpressionCloseTag :: string where "ImpressionCloseTag = ''</Impression>''"
definition ImpressionOpenTag :: string where "ImpressionOpenTag = ''<Impression>''"

definition GetVastUrlTracking :: "string \<Rightarrow> string \<Rightarrow> string \<Rightarrow> string \<Rightarrow> int \<Rightarrow> string" where
  "GetVastUrlTracking externalUrl bidid bidder accountId timestamp =
     EventRequestToUrl externalUrl \<lparr>er_Type = ''imp'', er_Format = ''b'', er_Analytics = [], er_BidID = bidid,
       er_AccountID = accountId, er_Bidder = bidder, er_Timestamp = timestamp\<rparr>"

definition ModifyVastXmlString :: "string \<Rightarrow> string \<Rightarrow> string \<Rightarrow> string \<Rightarrow> string \<Rightarrow> int \<Rightarrow> string \<times> bool" where
  "ModifyVastXmlString externalUrl vast bidid bidder accountID timestamp =
     (let ci = str_index vast ImpressionCloseTag
      in if ci = - 1 then (vast, False)
         else (let impressionUrl = ''<![CDATA['' @ GetVastUrlTracking externalUrl bidid bidder accountID timestamp @ '']]>'';
                   oi = str_index vast ImpressionOpenTag
               in if ci - oi = int (length ImpressionOpenTag)
                  then (replace_first vast ImpressionOpenTag (ImpressionOpenTag @ impressionUrl), True)
                  else (replace_first vast ImpressionCloseTag
                          (ImpressionCloseTag @ ImpressionOpenTag @ impressionUrl @ ImpressionCloseTag), True)))"

text \<open>\<open>decode\<close> is the decoding of the data as a JSON string.\<close>

definition ModifyVastXmlJSON ::
  "(string \<Rightarrow> string option) \<Rightarrow> string \<Rightarrow> string \<Rightarrow> string \<Rightarrow> string \<Rightarrow> string \<Rightarrow> int \<Rightarrow> string" where
  "ModifyVastXmlJSON decode externalUrl data bidid bidder accountId timestamp =
     (let vast = (case decode data of None \<Rightarrow> data | Some v \<Rightarrow> v);
          (vast', ok) = ModifyVastXmlString externalUrl vast bidid bidder accountId timestamp
      in if ok then vast' else data)"

text \<open>The fields of a bidder's configuration the events look at: enabled, and VAST may be modified.\<close>

record BidderInfo =
  bi_Enabled :: bool
  bi_ModifyingVastXmlAllowed :: bool

definition isAllowVastForBidder :: "string \<Rightarrow> (string, BidderInfo) gomap \<Rightarrow> bool \<Rightarrow> bool" where
  "isAllowVastForBidder bidder infos allowUnknownBidder = (case lookup infos bidder of
     Some b \<Rightarrow> bi_Enabled b \<and> bi_ModifyingVastXmlAllowed b
   | None \<Rightarrow> allowUnknownBidder)"

definition getBiddersAllowingVastUpdate :: "Cacheable list \<Rightarrow> (string, BidderInfo) gomap \<Rightarrow> bool \<Rightarrow> string list" where
  "getBiddersAllowingVastUpdate puts infos allowUnknownBidder =
     fold (\<lambda>c bl. if isAllowVastForBidder (Bidder c) infos allowUnknownBidder \<and> Bidder c \<notin> set bl then bl @ [Bidder c] else bl) puts []"

definition vtrack_cacheable :: "(string \<Rightarrow> string option) \<Rightarrow> string \<Rightarrow> string list \<Rightarrow> string \<Rightarrow> Cacheable \<Rightarrow> Cacheable" where
  "vtrack_cacheable decode externalUrl allowed accountId c =
     \<lparr>Type = Type c,
      Data = (if Bidder c \<in> set allowed \<and> Data c \<noteq> []
              then ModifyVastXmlJSON decode externalUrl (Data c) (BidID c) (Bidder c) accountId (Timestamp c) else Data c),
      TTLSeconds = TTLSeconds c, Key = Key c, BidID = [], Bidder = [], Timestamp = 0\<rparr>"

definition handleVTrackRequest ::
  "(Cacheable list \<Rightarrow> (string list \<times> go_error list) option) \<Rightarrow> (string \<Rightarrow> string option) \<Rightarrow> string
     \<Rightarrow> (string, BidderInfo) gomap \<Rightarrow> bool \<Rightarrow> string \<Rightarrow> Cacheable list \<Rightarrow> (go_error list + string list) option" where
  "handleVTrackRequest putJson decode externalUrl infos allowUnknown accountId puts =
     (case putJson (map (vtrack_cacheable decode externalUrl (getBiddersAllowingVastUpdate puts infos allowUnknown) accountId) puts) of
        None \<Rightarrow> None
      | Some (ids, errs) \<Rightarrow> Some (if errs \<noteq> [] then Inl errs else Inr ids))"

fun check_puts :: "Cacheable list \<Rightarrow> go_error option" where
  "check_puts [] = None"
| "check_puts (c # cs) =
     (if BidID c = [] then Some (BadInput (quoted ''bidid'' @ '' is required field and can't be empty''))
      else if Bidder c = [] then Some (BadInput (quoted ''bidder'' @ '' is required field and can't be empty''))
      else check_puts cs)"

text \<open>
  \<open>ParseVTrackRequest\<close> on a body that was read: at most \<open>maxRequestSize\<close> bytes of it are looked at.
\<close>

definition ParseVTrackRequest :: "(string \<Rightarrow> Cacheable list option) \<Rightarrow> int \<Rightarrow> string \<Rightarrow> go_error + Cacheable list" where
  "ParseVTrackRequest decodePuts maxRequestSize body =
     (if maxRequestSize - int (length body) \<le> 0
      then Inl (BadInput (''request size exceeded max size of '' @ itoa (maxRequestSize - 1) @ '' bytes''))
      else if body = [] then Inl (BadInput ''request body is empty'')
      else (case decodePuts body of
              None \<Rightarrow> Inl (OtherError ''json: cannot unmarshal'')
            | Some puts \<Rightarrow> (case check_puts puts of Some e \<Rightarrow> Inl e | None \<Rightarrow> Inr puts)))"

section \<open>Event tracking of an auction\<close>

record eventTracking =
  ev_accountID :: string
  ev_enabledForAccount :: bool
  ev_enabledForRequest :: bool
  ev_auctionTimestampMs :: int
  ev_bidderInfos :: "(string, BidderInfo) gomap"
  ev_externalURL :: string

definition ev_enabled :: "eventTracking \<Rightarrow> bool" where
  "ev_enabled ev = (ev_enabledForAccount ev \<or> ev_enabledForRequest ev)"

definition isModifyingVASTXMLAllowed :: "eventTracking \<Rightarrow> string \<Rightarrow> bool" where
  "isModifyingVASTXMLAllowed ev bidder =
     ((case lookup (ev_bidderInfos ev) bidder of None \<Rightarrow> False | Some i \<Rightarrow> bi_ModifyingVastXmlAllowed i) \<and> ev_enabled ev)"

definition event_bid_id :: "pbsOrtbBid \<Rightarrow> Bid \<Rightarrow> string" where
  "event_bid_id p b = (if pb_generatedBidID p \<noteq> [] then pb_generatedBidID p else bid_ID b)"

definition makeEventURL :: "eventTracking \<Rightarrow> string \<Rightarrow> pbsOrtbBid \<Rightarrow> Bid \<Rightarrow> bidderName \<Rightarrow> string" where
  "makeEventURL ev evType p b bidder =
     EventRequestToUrl (ev_externalURL ev) \<lparr>er_Type = evType, er_Format = [], er_Analytics = [], er_BidID = event_bid_id p b,
       er_AccountID = ev_accountID ev, er_Bidder = bidder, er_Timestamp = ev_auctionTimestampMs ev\<rparr>"

definition modifyBidVAST :: "eventTracking \<Rightarrow> pbsOrtbBid \<Rightarrow> Bid \<Rightarrow> bidderName \<Rightarrow> Bid" where
  "modifyBidVAST ev p b bidder =
     (if pb_bidType p \<noteq> ''video'' \<or> bid_AdM b = [] \<and> bid_NURL b = [] then b
      else (case ModifyVastXmlString (ev_externalURL ev) (makeVAST b) (event_bid_id p b) bidder (ev_accountID ev) (ev_auctionTimestampMs ev) of
              (newVast, ok) \<Rightarrow> if ok then b\<lparr>bid_AdM := newVast\<rparr> else b))"

definition makeBidExtEvents :: "eventTracking \<Rightarrow> pbsOrtbBid \<Rightarrow> Bid \<Rightarrow> bidderName \<Rightarrow> BidEvents option" where
  "makeBidExtEvents ev p b bidder =
     (if \<not> ev_enabled ev \<or> pb_bidType p = ''video'' then None
      else Some \<lparr>be_Win = makeEventURL ev ''win'' p b bidder, be_Imp = makeEventURL ev ''imp'' p b bidder\<rparr>)"

text \<open>
  One bid of the loop in \<open>modifyBidsForEvents\<close>. Without events and VAST modification the bid
  object itself is not dereferenced.
\<close>

definition modify_bid_for_events :: "eventTracking \<Rightarrow> bidderName \<Rightarrow> ptr \<Rightarrow> store \<Rightarrow> store option" where
  "modify_bid_for_events ev bidder p H = (case st_pbs H p of
     None \<Rightarrow> None
   | Some pb \<Rightarrow>
       (case bid_at H p of
          None \<Rightarrow> if (isModifyingVASTXMLAllowed ev bidder \<and> pb_bidType pb = ''video'') \<or> (ev_enabled ev \<and> pb_bidType pb \<noteq> ''video'')
                  then None else Some (H\<lparr>st_pbs := (st_pbs H)(p \<mapsto> pb\<lparr>pb_bidEvents := None\<rparr>)\<rparr>)
        | Some b \<Rightarrow>
            (let b' = (if isModifyingVASTXMLAllowed ev bidder then modifyBidVAST ev pb b bidder else b);
                 H' = H\<lparr>st_bid := (st_bid H)(the (pb_bid pb) \<mapsto> b')\<rparr>
             in Some (H'\<lparr>st_pbs := (st_pbs H)(p \<mapsto> pb\<lparr>pb_bidEvents := makeBidExtEvents ev pb b' bidder\<rparr>)\<rparr>))))"

text \<open>A nil seat bid is dereferenced by the loop over its bids.\<close>

definition modifyBidsForEvents :: "eventTracking \<Rightarrow> seats \<Rightarrow> store \<Rightarrow> store option" where
  "modifyBidsForEvents ev = fold_opt (\<lambda>(bidder, sb) H. (case sb of
     None \<Rightarrow> None | Some s \<Rightarrow> fold_opt (modify_bid_for_events ev bidder) (sb_bids s) H))"

definition modifyBidJSON ::
  "(string \<Rightarrow> string \<Rightarrow> go_error + string) \<Rightarrow> eventTracking \<Rightarrow> pbsOrtbBid \<Rightarrow> Bid \<Rightarrow> bidderName \<Rightarrow> string \<Rightarrow> string \<times> go_error option" where
  "modifyBidJSON patchWurl ev p b bidder jsonBytes =
     (if \<not> ev_enabled ev \<or> pb_bidType p = ''video'' then (jsonBytes, None)
      else (let winEventURL = (case pb_bidEvents p of Some e \<Rightarrow> be_Win e | None \<Rightarrow> makeEventURL ev ''win'' p b bidder)
            in case patchWurl jsonBytes winEventURL of
                 Inl e \<Rightarrow> (jsonBytes, Some e)
               | Inr modified \<Rightarrow> (modified, None)))"

section \<open>Escaping\<close>

lemma unhex_hex_digit: "0 \<le> n \<Longrightarrow> n < 16 \<Longrightarrow> unhex (hex_digit n) = Some n"
  by (auto simp: unhex_def hex_digit_def Let_def)

lemma hex_digit_unreserved: "0 \<le> n \<Longrightarrow> n < 16 \<Longrightarrow> unreserved (hex_digit n)"
  by (auto simp: unreserved_def hex_digit_def Let_def)

lemma of_char_bounds: "0 \<le> (of_char c :: int)" "(of_char c :: int) < 256"
proof -
  have "(of_char c :: int) = int (of_char c)" by (rule of_nat_of_char [symmetric])
  then show "0 \<le> (of_char c :: int)" "(of_char c :: int) < 256"
    using nat_of_char_less_256 [of c] by linarith+
qed

lemma char_hex: "char_of (16 * ((of_char c :: int) div 16) + (of_char c :: int) mod 16) = c"
  by simp

lemma unreserved_plain:
  assumes "unreserved c"
  shows "c \<noteq> CHR ''%''" and "c \<noteq> CHR ''+''" and "c \<noteq> CHR ''&''" and "c \<noteq> CHR ''=''" and "c \<noteq> CHR '' ''"
proof -
  have "\<not> unreserved (CHR ''%'')" "\<not> unreserved (CHR ''+'')" "\<not> unreserved (CHR ''&'')" "\<not> unreserved (CHR ''='')" "\<not> unreserved (CHR '' '')"
    by code_simp+
  with assms show "c \<noteq> CHR ''%''" "c \<noteq> CHR ''+''" "c \<noteq> CHR ''&''" "c \<noteq> CHR ''=''" "c \<noteq> CHR '' ''" by auto
qed

lemma unescape_char: "query_unescape (escape_char c @ t) = map_option (\<lambda>u. c # u) (query_unescape t)"
proof -
  consider "c = CHR '' ''" | "c \<noteq> CHR '' ''" "unreserved c" | "c \<noteq> CHR '' ''" "\<not> unreserved c" by blast
  then show ?thesis
  proof cases
    case 1
    then show ?thesis by (simp add: escape_char_def)
  next
    case 2
    then show ?thesis using unreserved_plain [of c] by (simp add: escape_char_def)
  next
    case 3
    then show ?thesis
      using unhex_hex_digit [of "(of_char c :: int) div 16"] unhex_hex_digit [of "(of_char c :: int) mod 16"]
        of_char_bounds [of c] char_hex [of c]
      by (simp add: escape_char_def Let_def)
  qed
qed

lemma query_unescape_escape [simp]: "query_unescape (query_escape s) = Some s"
  by (induction s) (simp_all add: query_escape_def unescape_char)

lemma escape_chars: "d \<in> set (escape_char c) \<Longrightarrow> unreserved d \<or> d = CHR ''+'' \<or> d = CHR ''%''"
proof -
  assume d: "d \<in> set (escape_char c)"
  have "0 \<le> (of_char c :: int) div 16" "(of_char c :: int) div 16 < 16"
    using of_char_bounds [of c] by (simp_all add: pos_imp_zdiv_nonneg_iff)
  with d hex_digit_unreserved [of "(of_char c :: int) div 16"] hex_digit_unreserved [of "(of_char c :: int) mod 16"]
  show ?thesis by (auto simp: escape_char_def Let_def split: if_splits)
qed

lemma query_escape_safe: "CHR ''&'' \<notin> set (query_escape s)" "CHR ''='' \<notin> set (query_escape s)"
  using escape_chars unreserved_plain by (fastforce simp: query_escape_def)+

lemma query_escape_plain: "list_all unreserved s \<Longrightarrow> query_escape s = s"
  using unreserved_plain by (induction s) (auto simp: query_escape_def escape_char_def)

lemma cut_append: "c \<notin> set a \<Longrightarrow> cut c (a @ c # b) = Some (a, b)"
  by (induction a) auto

lemma parse_pair_encoded: "parse_pair (query_escape k @ ''='' @ query_escape v) = Some (k, v)"
  using cut_append [OF query_escape_safe(2), of k "query_escape v"] by (simp add: parse_pair_def)

lemma parse_query_encoded:
  "pairs \<noteq> [] \<Longrightarrow> parse_query (join ''&'' (map (\<lambda>(k, v). query_escape k @ ''='' @ query_escape v) pairs)) = pairs"
proof (induction pairs rule: induct_list012)
  case (2 p)
  obtain k v where p: "p = (k, v)" by (cases p)
  have "CHR ''&'' \<notin> set (query_escape k @ ''='' @ query_escape v)"
    using query_escape_safe by auto
  then show ?case using parse_pair_encoded [of k v] by (simp add: p parse_query_def split_on_no_sep map_filter_simps)
next
  case (3 p p' ps)
  obtain k v where p: "p = (k, v)" by (cases p)
  have "CHR ''&'' \<notin> set (query_escape k @ ''='' @ query_escape v)"
    using query_escape_safe by auto
  from split_on_append [OF this] 3 parse_pair_encoded [of k v]
  show ?case by (simp add: p parse_query_def map_filter_simps)
qed simp

section \<open>An event URL leads back to its event\<close>

definition event_pairs :: "EventRequest \<Rightarrow> (string \<times> string) list" where
  "event_pairs r = [(''t'', er_Type r), (''b'', er_BidID r), (''a'', er_AccountID r)]
     @ (if er_Bidder r \<noteq> [] then [(''bidder'', er_Bidder r)] else [])
     @ (if er_Format r = ''b'' \<or> er_Format r = ''i'' then [(''f'', er_Format r)] else [])
     @ (if er_Timestamp r > 0 then [(''ts'', itoa (er_Timestamp r))] else [])
     @ (if er_Analytics r = ''1'' \<or> er_Analytics r = ''0'' then [(''x'', er_Analytics r)] else [])"

definition plain :: "string \<Rightarrow> bool" where
  "plain s = (s \<noteq> [] \<and> list_all unreserved s)"

lemma join_Nil_iff: "\<forall>x \<in> set xs. x \<noteq> [] \<Longrightarrow> join sep xs = [] \<longleftrightarrow> xs = []"
  by (induction xs rule: induct_list012) auto

lemma key_escapes: "query_escape ''t'' = ''t''" "query_escape ''b'' = ''b''" "query_escape ''a'' = ''a''"
  by code_simp+

lemma event_query_pairs:
  assumes "plain (er_Type r)" and "plain (er_BidID r)" and "plain (er_AccountID r)"
  shows "event_query r = join ''&'' (map (\<lambda>(k, v). query_escape k @ ''='' @ query_escape v) (event_pairs r))"
proof -
  let ?enc = "\<lambda>(k, v). query_escape k @ ''='' @ query_escape v"
  define opt where "opt = drop 3 (event_pairs r)"
  have pairs: "event_pairs r = [(''t'', er_Type r), (''b'', er_BidID r), (''a'', er_AccountID r)] @ opt"
    by (simp add: opt_def event_pairs_def)
  have "join ''&'' (map ?enc opt) = [] \<longleftrightarrow> opt = []"
    by (subst join_Nil_iff) auto
  then have "optionalParameters r = (if opt = [] then [] else ''&'' @ join ''&'' (map ?enc opt))"
    by (auto simp: optionalParameters_def Let_def opt_def event_pairs_def)
  moreover have "query_escape (er_Type r) = er_Type r" "query_escape (er_BidID r) = er_BidID r"
    "query_escape (er_AccountID r) = er_AccountID r"
    using assms by (simp_all add: plain_def query_escape_plain)
  ultimately show ?thesis
    by (cases opt) (simp_all add: pairs event_query_def key_escapes)
qed

definition wf_event :: "EventRequest \<Rightarrow> bool" where
  "wf_event r =
     (er_Type r \<in> {''imp'', ''win''} \<and> plain (er_BidID r) \<and> plain (er_AccountID r)
      \<and> er_Format r \<in> {[], ''b'', ''i''} \<and> er_Analytics r \<in> {[], ''1'', ''0''}
      \<and> 0 \<le> er_Timestamp r \<and> is_int64 (er_Timestamp r))"

lemma query_get_event:
  assumes "wf_event r"
  shows "query_get (event_query r) k = (case map_of (event_pairs r) k of None \<Rightarrow> [] | Some v \<Rightarrow> v)"
proof -
  have "plain ''imp''" "plain ''win''" by code_simp+
  with assms have "plain (er_Type r)" "plain (er_BidID r)" "plain (er_AccountID r)" by (auto simp: wf_event_def)
  moreover have "event_pairs r \<noteq> []" by (simp add: event_pairs_def)
  ultimately have "parse_query (event_query r) = event_pairs r"
    by (metis event_query_pairs parse_query_encoded)
  then show ?thesis by (simp add: query_get_def)
qed

lemma itoa_nonempty [simp]: "itoa i \<noteq> []"
  by (simp add: itoa_def)

lemma set_join: "set (join sep xs) \<subseteq> set sep \<union> (\<Union>x\<in>set xs. set x)"
  by (induction xs rule: induct_list012) auto

lemma no_fragment:
  assumes "wf_event r"
  shows "CHR ''#'' \<notin> set (event_query r)"
proof -
  have e: "CHR ''#'' \<notin> set (query_escape s)" for s
    using escape_chars by (fastforce simp: query_escape_def unreserved_def)
  have "plain ''imp''" "plain ''win''" by code_simp+
  with assms have "plain (er_Type r)" "plain (er_BidID r)" "plain (er_AccountID r)" by (auto simp: wf_event_def)
  then show ?thesis using e set_join [of "''&''" "map (\<lambda>(k, v). query_escape k @ ''='' @ query_escape v) (event_pairs r)"]
    by (auto simp: event_query_pairs)
qed

text \<open>
  C37. The event URLs the server hands out lead back to it. For an event of a known type whose bid id
  and account id are plain (letters, digits and \<open>-._~\<close>), with any bidder name and an external URL without a question mark, the query string
  of the URL is parsed without an error into the same event and account id, analytics on unless it was switched off; and the handler passes exactly that
  event to the analytics module when analytics is on and the account is found and has events enabled, and nothing otherwise.
\<close>

theorem event_url_roundtrip:
  assumes "wf_event r" and "CHR ''?'' \<notin> set externalUrl"
  shows "\<exists>q. cut CHR ''?'' (EventRequestToUrl externalUrl r) = Some (externalUrl @ ''/event'', q) \<and> CHR ''#'' \<notin> set q \<and>
    ParseEventRequest q = (r\<lparr>er_Analytics := (if er_Analytics r = ''0'' then ''0'' else ''1''), er_AccountID := []\<rparr>, []) \<and>
    checkRequiredParameter q ''a'' = Inr (er_AccountID r) \<and>
    snd (event_Handle getAccount isDeadline pixel q) =
      (if er_Analytics r = ''0'' then None
       else (case getAccount (er_AccountID r) of
               Inl errs \<Rightarrow> None
             | Inr account \<Rightarrow> if acc_EventsEnabled account then Some (r\<lparr>er_Analytics := ''1''\<rparr>, account) else None))"
proof -
  note get = query_get_event [OF assms(1)]
  have t: "readType (event_query r) = Inr (er_Type r)"
    using assms(1) by (auto simp: readType_def checkRequiredParameter_def get event_pairs_def wf_event_def)
  have b: "checkRequiredParameter (event_query r) ''b'' = Inr (er_BidID r)"
    and a: "checkRequiredParameter (event_query r) ''a'' = Inr (er_AccountID r)"
    using assms(1) by (auto simp: checkRequiredParameter_def get event_pairs_def wf_event_def plain_def)
  have bidder: "query_get (event_query r) ''bidder'' = er_Bidder r"
    by (simp add: get event_pairs_def)
  have f: "readFormat (event_query r) = Inr (er_Format r)"
    using assms(1) by (auto simp: readFormat_def get event_pairs_def wf_event_def)
  have x: "readAnalytics (event_query r) = Inr (if er_Analytics r = ''0'' then ''0'' else ''1'')"
    using assms(1) by (auto simp: readAnalytics_def get event_pairs_def wf_event_def)
  have ts: "readTimestamp (event_query r) = Inr (er_Timestamp r)"
    using assms(1) by (auto simp: readTimestamp_def get event_pairs_def wf_event_def atoi_itoa)
  have p: "ParseEventRequest (event_query r) = (r\<lparr>er_Analytics := (if er_Analytics r = ''0'' then ''0'' else ''1''), er_AccountID := []\<rparr>, [])"
    by (simp add: ParseEventRequest_def t b a bidder f x ts val_of_def err_of_def)
  have "cut CHR ''?'' (EventRequestToUrl externalUrl r) = Some (externalUrl @ ''/event'', event_query r)"
    using cut_append [of "CHR ''?''" "externalUrl @ ''/event''" "event_query r"] assms(2) by (simp add: EventRequestToUrl_def)
  with p no_fragment [OF assms(1)] show ?thesis
    by (intro exI [of _ "event_query r"]) (simp add: event_Handle_def a Let_def split: sum.split prod.split)
qed

definition example_event :: EventRequest where
  "example_event = \<lparr>er_Type = ''win'', er_Format = ''i'', er_Analytics = [], er_BidID = ''bid-1'', er_AccountID = ''acc'',
     er_Bidder = ''a&b=c d'', er_Timestamp = 1625000000000\<rparr>"

theorem event_url_roundtrip_witness:
  "\<exists>q. cut CHR ''?'' (EventRequestToUrl ''https://h'' example_event) = Some (''https://h/event'', q) \<and>
     snd (event_Handle (\<lambda>_. Inr example_account) (\<lambda>_. False) ''png'' q) = Some (example_event\<lparr>er_Analytics := ''1''\<rparr>, example_account)"
proof -
  have "wf_event example_event" by code_simp
  from event_url_roundtrip [OF this, of "''https://h''" "\<lambda>_. Inr example_account" "\<lambda>_. False" "''png''"]
  show ?thesis by (auto simp: example_account_def example_event_def)
qed

text \<open>
  The bid id is not escaped: an id with an ampersand adds parameters to the URL. Here it switches the
  analytics of its own event off.
\<close>

lemma bid_id_injection:
  "snd (event_Handle (\<lambda>_. Inr example_account) (\<lambda>_. False) ''png''
     (event_query (example_event\<lparr>er_BidID := ''1&x=0''\<rparr>))) = None"
  by code_simp

section \<open>Impression tracking in VAST\<close>

lemma split_sub_Some: "split_sub sub s = Some (a, b) \<Longrightarrow> s = a @ sub @ b"
proof (induction s arbitrary: a)
  case Nil
  then show ?case by (auto split: if_splits)
next
  case (Cons c cs)
  show ?case
  proof (cases "has_prefix (c # cs) sub")
    case True
    with Cons.prems show ?thesis
      by (auto simp: has_prefix_def) (metis append_take_drop_id)
  next
    case False
    with Cons show ?thesis by auto
  qed
qed

definition tracked_vast :: "string \<Rightarrow> string \<Rightarrow> string \<Rightarrow> bool" where
  "tracked_vast url old new = ((\<exists>x y. old = x @ ImpressionCloseTag @ y \<and>
     (new = x @ ImpressionCloseTag @ ImpressionOpenTag @ ''<![CDATA['' @ url @ '']]>'' @ ImpressionCloseTag @ y))
   \<or> (\<exists>x y. old = x @ ImpressionOpenTag @ y \<and> new = x @ ImpressionOpenTag @ ''<![CDATA['' @ url @ '']]>'' @ y))"

lemma ModifyVastXmlString_tracked:
  assumes "ModifyVastXmlString externalUrl vast bidid bidder acct ts = (vast', True)"
    and "str_index vast ImpressionCloseTag \<noteq> 11"
  shows "tracked_vast (GetVastUrlTracking externalUrl bidid bidder acct ts) vast vast'"
proof -
  from assms obtain x y where xy: "split_sub ImpressionCloseTag vast = Some (x, y)"
    by (auto simp: ModifyVastXmlString_def str_index_def Let_def split: option.splits if_splits)
  note close = split_sub_Some [OF xy]
  show ?thesis
  proof (cases "str_index vast ImpressionCloseTag - str_index vast ImpressionOpenTag = int (length ImpressionOpenTag)")
    case False
    with assms xy close show ?thesis
      by (auto simp: ModifyVastXmlString_def tracked_vast_def str_index_def replace_first_def Let_def split: option.splits)
  next
    case True
    show ?thesis
    proof (cases "split_sub ImpressionOpenTag vast")
      case None
      with True assms(2) show ?thesis by (simp add: str_index_def ImpressionOpenTag_def)
    next
      case (Some p)
      then obtain u v where uv: "split_sub ImpressionOpenTag vast = Some (u, v)" by (cases p) auto
      with True assms xy split_sub_Some [OF uv] show ?thesis
        by (auto simp: ModifyVastXmlString_def tracked_vast_def str_index_def replace_first_def Let_def)
    qed
  qed
qed

lemma modifyBidVAST_frame: "\<exists>v. modifyBidVAST ev p b bidder = b\<lparr>bid_AdM := v\<rparr>"
proof -
  have self: "\<exists>v. b = b\<lparr>bid_AdM := v\<rparr>" by (rule exI [of _ "bid_AdM b"]) simp
  then show ?thesis by (auto simp: modifyBidVAST_def split: prod.splits)
qed

end
