(* ===== verification/Auction.thy ===== *)
theory Auction
  imports Events Price_Granularity
begin

text \<open>
  \<open>exchange/auction.go\<close>: the winning bids of an auction, their rounded prices, and what is stored in
  Prebid Cache. The tables of an auction hold pointers to bids, as in the code. Parameters are the
  JSON encoders of a bid and of a string, the merge patch of the event tracking, the UUID generator
  (its result, or none when it fails) and the cache client. None is a panic.
\<close>

section \<open>Winning bids\<close>

record auction =
  winningBids :: "(string, ptr) gomap"
  winningBidsByBidder :: "(string, (bidderName, ptr) gomap) gomap"
  roundedPrices :: "(ptr, string) gomap"
  cacheIds :: "(ptr, string) gomap"
  vastCacheIds :: "(ptr, string) gomap"

definition isNewWinningBid :: "Bid \<Rightarrow> Bid \<Rightarrow> bool \<Rightarrow> bool" where
  "isNewWinningBid bid wbid preferDeals =
     (if preferDeals \<and> bid_DealID wbid \<noteq> [] \<and> bid_DealID bid = [] then False
      else if preferDeals \<and> bid_DealID wbid = [] \<and> bid_DealID bid \<noteq> [] then True
      else flt (bid_Price wbid) (bid_Price bid))"

definition update_winner :: "store \<Rightarrow> bool \<Rightarrow> ptr \<Rightarrow> Bid \<Rightarrow> auction \<Rightarrow> auction option" where
  "update_winner H preferDeals p b a = (case lookup (winningBids a) (bid_ImpID b) of
     None \<Rightarrow> Some (a\<lparr>winningBids := put (bid_ImpID b) p (winningBids a)\<rparr>)
   | Some w \<Rightarrow> (case bid_at H w of
        None \<Rightarrow> None
      | Some wb \<Rightarrow> Some (if isNewWinningBid b wb preferDeals
                         then a\<lparr>winningBids := put (bid_ImpID b) p (winningBids a)\<rparr> else a)))"

definition update_top :: "store \<Rightarrow> bidderName \<Rightarrow> ptr \<Rightarrow> Bid \<Rightarrow> auction \<Rightarrow> auction option" where
  "update_top H bidder p b a = (case lookup (winningBidsByBidder a) (bid_ImpID b) of
     None \<Rightarrow> Some (a\<lparr>winningBidsByBidder := put (bid_ImpID b) [(bidder, p)] (winningBidsByBidder a)\<rparr>)
   | Some bidMap \<Rightarrow> (case lookup bidMap bidder of
        None \<Rightarrow> Some (a\<lparr>winningBidsByBidder := put (bid_ImpID b) (put bidder p bidMap) (winningBidsByBidder a)\<rparr>)
      | Some best \<Rightarrow> (case bid_at H best of
           None \<Rightarrow> None
         | Some bb \<Rightarrow> Some (if flt (bid_Price bb) (bid_Price b)
              then a\<lparr>winningBidsByBidder := put (bid_ImpID b) (put bidder p bidMap) (winningBidsByBidder a)\<rparr> else a))))"

definition auction_step :: "store \<Rightarrow> bool \<Rightarrow> bidderName \<Rightarrow> ptr \<Rightarrow> auction \<Rightarrow> auction option" where
  "auction_step H preferDeals bidder p a = (case bid_at H p of
     None \<Rightarrow> None
   | Some b \<Rightarrow> (case update_winner H preferDeals p b a of
        None \<Rightarrow> None
      | Some a' \<Rightarrow> update_top H bidder p b a'))"

definition emptyAuction :: auction where
  "emptyAuction = \<lparr>winningBids = [], winningBidsByBidder = [], roundedPrices = [], cacheIds = [], vastCacheIds = []\<rparr>"

definition newAuction :: "store \<Rightarrow> seats \<Rightarrow> bool \<Rightarrow> auction option" where
  "newAuction H seatBids preferDeals =
     fold_opt (\<lambda>(bidder, seatBid) a. (case seatBid of
         None \<Rightarrow> Some a
       | Some sb \<Rightarrow> fold_opt (auction_step H preferDeals bidder) (sb_bids sb) a)) seatBids emptyAuction"

text \<open>The top bids, in the order of iteration over the two levels of the table.\<close>

definition top_bids :: "auction \<Rightarrow> (string \<times> bidderName \<times> ptr) list" where
  "top_bids a = concat (map (\<lambda>(imp, m). map (\<lambda>(b, p). (imp, b, p)) m) (winningBidsByBidder a))"

definition setRoundedPrices :: "store \<Rightarrow> PriceGranularity \<Rightarrow> auction \<Rightarrow> auction option" where
  "setRoundedPrices H pg a =
     (case fold_opt (\<lambda>(imp, m) acc. fold_opt (\<lambda>(bidder, p) acc'. (case bid_at H p of
              None \<Rightarrow> None
            | Some b \<Rightarrow> Some (put p (GetPriceBucket (bid_Price b) pg) acc'))) m acc) (winningBidsByBidder a) [] of
        None \<Rightarrow> None
      | Some prices \<Rightarrow> Some (a\<lparr>roundedPrices := prices\<rparr>))"

section \<open>Times to live\<close>

definition addBuffer :: "int \<Rightarrow> int \<Rightarrow> int" where
  "addBuffer base buffer = (if base \<le> 0 then 0 else wrap64 (base + buffer))"

definition cacheTTL :: "int \<Rightarrow> int \<Rightarrow> int \<Rightarrow> int \<Rightarrow> int" where
  "cacheTTL impTTL bidTTL defTTL buffer =
     (if impTTL \<le> 0 \<and> bidTTL \<le> 0 then addBuffer defTTL buffer
      else if impTTL \<le> 0 then addBuffer bidTTL buffer
      else if bidTTL \<le> 0 then addBuffer impTTL buffer
      else if impTTL < bidTTL then addBuffer impTTL buffer
      else addBuffer bidTTL buffer)"

definition defTTL :: "string \<Rightarrow> DefaultTTLs \<Rightarrow> int" where
  "defTTL bidType d =
     (if bidType = ''banner'' then ttl_Banner d else if bidType = ''video'' then ttl_Video d
      else if bidType = ''native'' then ttl_Native d else if bidType = ''audio'' then ttl_Audio d else 0)"

section \<open>The debug log\<close>

text \<open>
  \<open>scrub\<close> is the replacement of the regular expression followed by \<open>fmt.Sprintf\<close> on its result
  as a format, None when the log has no expression.
\<close>

record DebugLog =
  dl_Enabled :: bool
  dl_CacheType :: string
  dl_Request :: string
  dl_Headers :: string
  dl_Response :: string
  dl_TTL :: int
  dl_CacheKey :: string
  dl_CacheString :: string
  dl_DebugOverride :: bool
  dl_DebugEnabledOrOverridden :: bool

definition xml_header :: string where
  "xml_header = ''<?xml version='' @ quote @ ''1.0'' @ quote @ '' encoding='' @ quote @ ''UTF-8'' @ quote @ ''?>'' @ [CHR 10]"

definition BuildCacheString :: "(string \<Rightarrow> string) option \<Rightarrow> DebugLog \<Rightarrow> DebugLog" where
  "BuildCacheString scrub d =
     (let f = (case scrub of None \<Rightarrow> (\<lambda>s. s) | Some g \<Rightarrow> g);
          req = ''<Request>'' @ f (dl_Request d) @ ''</Request>'';
          hdr = ''<Headers>'' @ f (dl_Headers d) @ ''</Headers>'';
          rsp = ''<Response>'' @ f (dl_Response d) @ ''</Response>''
      in d\<lparr>dl_Request := req, dl_Headers := hdr, dl_Response := rsp,
           dl_CacheString := xml_header @ ''<Log>'' @ req @ hdr @ rsp @ ''</Log>''\<rparr>)"

definition IsDebugOverrideEnabled :: "string \<Rightarrow> string \<Rightarrow> bool" where
  "IsDebugOverrideEnabled debugHeader configOverrideToken =
     (configOverrideToken \<noteq> [] \<and> debugHeader = configOverrideToken)"

text \<open>The value to store, or the error; the cache is called with the list of this one value.\<close>

definition PutDebugLogError ::
  "(string \<Rightarrow> string) option \<Rightarrow> string option \<Rightarrow> (string \<Rightarrow> go_error + string) \<Rightarrow> go_error list \<Rightarrow> DebugLog
     \<Rightarrow> (go_error + Cacheable) \<times> DebugLog" where
  "PutDebugLogError scrub newUUID marshalString errors d =
     (let d1 = (if dl_Response d = [] \<and> errors = [] then d\<lparr>dl_Response := ''No response or errors created''\<rparr> else d);
          d2 = (if errors \<noteq> []
                then d1\<lparr>dl_Response := dl_Response d1 @ [CHR 10] @ ''Errors:'' @ [CHR 10] @ join [CHR 10] (map Error errors)\<rparr>
                else d1);
          d3 = BuildCacheString scrub d2
      in case (if dl_CacheKey d3 = [] then (case newUUID of None \<Rightarrow> None | Some u \<Rightarrow> Some (d3\<lparr>dl_CacheKey := u\<rparr>)) else Some d3) of
           None \<Rightarrow> (Inl (OtherError ''uuid: failed to read random bytes''), d3)
         | Some d4 \<Rightarrow>
             (case marshalString (dl_CacheString d4) of
                Inl e \<Rightarrow> (Inl e, d4)
              | Inr data \<Rightarrow>
                  (Inr \<lparr>Type = dl_CacheType d4, Data = data, TTLSeconds = dl_TTL d4, Key = ''log_'' @ dl_CacheKey d4,
                        BidID = [], Bidder = [], Timestamp = 0\<rparr>, d4)))"

section \<open>Caching\<close>

record targetData =
  priceGranularity :: PriceGranularity
  includeWinners :: bool
  includeBidderKeys :: bool
  includeCacheBids :: bool
  includeCacheVast :: bool
  includeFormat :: bool
  preferDeals :: bool
  cacheHost :: string
  cachePath :: string

text \<open>The functions the caching calls outside of the exchange.\<close>

record cache_env =
  ce_marshalBid :: "Bid \<Rightarrow> go_error + string"
  ce_marshalString :: "string \<Rightarrow> go_error + string"
  ce_patchWurl :: "string \<Rightarrow> string \<Rightarrow> go_error + string"
  ce_newUUID :: "string option"
  ce_putJson :: "Cacheable list \<Rightarrow> (string list \<times> go_error list) option"
  ce_scrub :: "(string \<Rightarrow> string) option"

record cache_acc =
  ca_toCache :: "Cacheable list"
  ca_bidIndices :: "(nat \<times> ptr) list"
  ca_vastIndices :: "(nat \<times> ptr) list"
  ca_errs :: "go_error list"

definition imp_exp :: "BidRequest \<Rightarrow> string \<Rightarrow> int" where
  "imp_exp req impID = fold (\<lambda>imp acc. if imp_ID imp = impID then imp_Exp imp else acc) (req_Imp req) 0"

definition cacheable :: "string \<Rightarrow> string \<Rightarrow> int \<Rightarrow> string \<Rightarrow> Cacheable" where
  "cacheable ty data ttl key = \<lparr>Type = ty, Data = data, TTLSeconds = ttl, Key = key, BidID = [], Bidder = [], Timestamp = 0\<rparr>"

text \<open>The body of the loop over the top bids.\<close>

definition cache_bid ::
  "cache_env \<Rightarrow> eventTracking \<Rightarrow> bidderName \<Rightarrow> pbsOrtbBid \<Rightarrow> Bid \<Rightarrow> ptr \<Rightarrow> int \<Rightarrow> bool \<Rightarrow> cache_acc \<Rightarrow> cache_acc" where
  "cache_bid env ev bidder pb b q ttl useCustomCacheKey acc = (case ce_marshalBid env b of
     Inl e \<Rightarrow> acc\<lparr>ca_errs := ca_errs acc @ [e]\<rparr>
   | Inr jsonBytes \<Rightarrow>
       (case modifyBidJSON (ce_patchWurl env) ev pb b bidder jsonBytes of (data, err) \<Rightarrow>
          acc\<lparr>ca_errs := ca_errs acc @ (case err of None \<Rightarrow> [] | Some e \<Rightarrow> [e])
                 @ (if useCustomCacheKey then [OtherError ''cannot use custom cache key for non-vast bids''] else []),
              ca_toCache := ca_toCache acc @ [cacheable ''json'' data ttl []],
              ca_bidIndices := ca_bidIndices acc @ [(length (ca_toCache acc), q)]\<rparr>))"

definition cache_vast :: "cache_env \<Rightarrow> Bid \<Rightarrow> ptr \<Rightarrow> int \<Rightarrow> string \<Rightarrow> cache_acc \<Rightarrow> cache_acc" where
  "cache_vast env b q ttl key acc = (case ce_marshalString env (makeVAST b) of
     Inl e \<Rightarrow> acc\<lparr>ca_errs := ca_errs acc @ [e]\<rparr>
   | Inr data \<Rightarrow>
       acc\<lparr>ca_toCache := ca_toCache acc @ [cacheable ''xml'' data ttl key],
           ca_vastIndices := ca_vastIndices acc @ [(length (ca_toCache acc), q)]\<rparr>)"

definition cache_step ::
  "cache_env \<Rightarrow> store \<Rightarrow> auction \<Rightarrow> targetData \<Rightarrow> eventTracking \<Rightarrow> BidRequest \<Rightarrow> int \<Rightarrow> DefaultTTLs
     \<Rightarrow> (string, string) gomap \<Rightarrow> string \<Rightarrow> bool \<Rightarrow> bidderName \<times> ptr \<Rightarrow> cache_acc \<Rightarrow> cache_acc option" where
  "cache_step env H a targData ev req ttlBuffer ttls bidCategory hbCacheID competitiveExclusion bp acc =
     (case bp of (bidder, p) \<Rightarrow>
        (case (st_pbs H p, bid_ptr H p, bid_at H p) of
           (Some pb, Some q, Some b) \<Rightarrow>
             (let isOverallWinner = (lookup (winningBids a) (bid_ImpID b) = Some p)
              in if \<not> includeBidderKeys targData \<and> \<not> isOverallWinner then Some acc
                 else (let catDur = (if competitiveExclusion \<and> isOverallWinner \<or> includeBidderKeys targData
                                     then (case lookup bidCategory (bid_ID b) of None \<Rightarrow> [] | Some c \<Rightarrow> c) else []);
                           useCustomCacheKey = (catDur \<noteq> []);
                           key = (if useCustomCacheKey then catDur @ ''_'' @ hbCacheID else []);
                           ttl = cacheTTL (imp_exp req (bid_ImpID b)) (bid_Exp b) (defTTL (pb_bidType pb) ttls) ttlBuffer;
                           acc1 = (if includeCacheBids targData then cache_bid env ev bidder pb b q ttl useCustomCacheKey acc else acc)
                       in Some (if includeCacheVast targData \<and> pb_bidType pb = ''video''
                                then cache_vast env b q ttl key acc1 else acc1)))
         | _ \<Rightarrow> None))"

text \<open>The tables of ids, filled from the answer of the cache; an index out of range panics.\<close>

definition record_ids :: "(string \<Rightarrow> string) \<Rightarrow> string list \<Rightarrow> (nat \<times> ptr) list \<Rightarrow> (ptr, string) gomap option" where
  "record_ids rename ids indices =
     fold_opt (\<lambda>(i, q) m. if i < length ids then Some (if ids ! i \<noteq> [] then put q (rename (ids ! i)) m else m) else None) indices []"

text \<open>The custom cache key: (its id, competitive exclusion, errors).\<close>

definition custom_key :: "cache_env \<Rightarrow> (string, string) gomap \<Rightarrow> string \<times> bool \<times> go_error list" where
  "custom_key env bidCategory =
     (if bidCategory = [] then ([], False, [])
      else (case ce_newUUID env of
              Some u \<Rightarrow> (u, True, [])
            | None \<Rightarrow> ([], False, [OtherError ''failed to create custom cache key''])))"

definition cache_loop ::
  "cache_env \<Rightarrow> store \<Rightarrow> targetData \<Rightarrow> eventTracking \<Rightarrow> BidRequest \<Rightarrow> int \<Rightarrow> DefaultTTLs \<Rightarrow> (string, string) gomap
     \<Rightarrow> string \<Rightarrow> bool \<Rightarrow> go_error list \<Rightarrow> auction \<Rightarrow> cache_acc option" where
  "cache_loop env H targData ev req ttlBuffer ttls bidCategory hbCacheID competitiveExclusion errs a =
     fold_opt (\<lambda>(imp, m) acc. fold_opt
         (cache_step env H a targData ev req ttlBuffer ttls bidCategory hbCacheID competitiveExclusion) m acc)
       (winningBidsByBidder a) \<lparr>ca_toCache = [], ca_bidIndices = [], ca_vastIndices = [], ca_errs = errs\<rparr>"

text \<open>The entry of the debug log, written only along with bids.\<close>

definition debug_entry :: "cache_env \<Rightarrow> string \<Rightarrow> Cacheable list \<Rightarrow> DebugLog option \<Rightarrow> DebugLog option \<times> Cacheable list" where
  "debug_entry env hbCacheID toCache debugLog = (case debugLog of
     None \<Rightarrow> (None, [])
   | Some d \<Rightarrow>
       if toCache \<noteq> [] \<and> dl_DebugEnabledOrOverridden d
       then (let d' = BuildCacheString (ce_scrub env) (d\<lparr>dl_CacheKey := hbCacheID\<rparr>)
             in (Some d', case ce_marshalString env (dl_CacheString d') of
                   Inl e \<Rightarrow> []
                 | Inr data \<Rightarrow> [cacheable (dl_CacheType d') data (dl_TTL d') (''log_'' @ dl_CacheKey d')]))
       else (Some d, []))"

definition set_ids :: "targetData \<Rightarrow> string \<Rightarrow> bool \<Rightarrow> string list \<Rightarrow> cache_acc \<Rightarrow> auction \<Rightarrow> auction option" where
  "set_ids targData hbCacheID competitiveExclusion ids acc a =
     (case (if includeCacheBids targData then record_ids (\<lambda>u. u) ids (ca_bidIndices acc) else Some (cacheIds a),
            if includeCacheVast targData
            then record_ids (\<lambda>u. if competitiveExclusion \<and> has_suffix u hbCacheID then hbCacheID else u) ids (ca_vastIndices acc)
            else Some (vastCacheIds a)) of
        (Some cids, Some vids) \<Rightarrow> Some (a\<lparr>cacheIds := cids, vastCacheIds := vids\<rparr>)
      | _ \<Rightarrow> None)"

definition caching :: "targetData \<Rightarrow> bool" where
  "caching targData = ((includeCacheBids targData \<or> includeCacheVast targData)
     \<and> (includeBidderKeys targData \<or> includeWinners targData))"

definition doCache ::
  "cache_env \<Rightarrow> store \<Rightarrow> targetData \<Rightarrow> eventTracking \<Rightarrow> BidRequest \<Rightarrow> int \<Rightarrow> DefaultTTLs \<Rightarrow> (string, string) gomap
     \<Rightarrow> DebugLog option \<Rightarrow> auction \<Rightarrow> (auction \<times> DebugLog option \<times> go_error list) option" where
  "doCache env H targData ev req ttlBuffer ttls bidCategory debugLog a =
     (if \<not> caching targData then Some (a, debugLog, [])
      else (case custom_key env bidCategory of (hbCacheID, competitiveExclusion, errs) \<Rightarrow>
        (case cache_loop env H targData ev req ttlBuffer ttls bidCategory hbCacheID competitiveExclusion errs a of
           None \<Rightarrow> None
         | Some acc \<Rightarrow>
             (case debug_entry env hbCacheID (ca_toCache acc) debugLog of (debugLog', extra) \<Rightarrow>
                (case ce_putJson env (ca_toCache acc @ extra) of
                   None \<Rightarrow> None
                 | Some (ids, cerrs) \<Rightarrow>
                     (case set_ids targData hbCacheID competitiveExclusion ids acc a of
                        None \<Rightarrow> None
                      | Some a' \<Rightarrow> Some (a', debugLog', ca_errs acc @ cerrs)))))))"

section \<open>The auction as one loop\<close>

lemma newAuction_flat:
  "newAuction H seats prefer = fold_opt (\<lambda>(b, p). auction_step H prefer b p) (all_bids seats) emptyAuction"
proof -
  have inner: "fold_opt (\<lambda>(b, p). auction_step H prefer b p) (map (\<lambda>p. (b, p)) ps) a = fold_opt (auction_step H prefer b) ps a" for b ps a
    by (induction ps arbitrary: a) (auto split: option.splits)
  have "fold_opt (\<lambda>(bidder, seatBid) a. (case seatBid of None \<Rightarrow> Some a
       | Some sb \<Rightarrow> fold_opt (auction_step H prefer bidder) (sb_bids sb) a)) seats a
     = fold_opt (\<lambda>(b, p). auction_step H prefer b p) (all_bids seats) a" for a
  proof (induction seats arbitrary: a)
    case (Cons s seats)
    obtain b sb where s: "s = (b, sb)" by (cases s)
    show ?case by (cases sb) (auto simp: s fold_opt_append inner Cons.IH seat_bids_def split: option.splits)
  qed simp
  then show ?thesis by (simp add: newAuction_def)
qed

text \<open>What is known of the bid behind a pointer.\<close>

abbreviation imp_of :: "store \<Rightarrow> ptr \<Rightarrow> string" where
  "imp_of H p \<equiv> bid_ImpID (the (bid_at H p))"

abbreviation price_of :: "store \<Rightarrow> ptr \<Rightarrow> float64" where
  "price_of H p \<equiv> bid_Price (the (bid_at H p))"

definition beats :: "store \<Rightarrow> bool \<Rightarrow> ptr \<Rightarrow> ptr \<Rightarrow> bool" where
  "beats H prefer p w = isNewWinningBid (the (bid_at H p)) (the (bid_at H w)) prefer"

lemma beats_trans: "beats H prefer p q \<Longrightarrow> beats H prefer q w \<Longrightarrow> beats H prefer p w"
  by (auto simp: beats_def isNewWinningBid_def intro: flt_trans split: if_splits)

lemma beats_irrefl: "\<not> beats H prefer p p"
  by (auto simp: beats_def isNewWinningBid_def)

lemma beats_no_deals [simp]: "beats H False p w = flt (price_of H w) (price_of H p)"
  by (simp add: beats_def isNewWinningBid_def)

text \<open>A best element of a list of bids: the best among the entries with a key, first come first served.\<close>

definition best_in :: "(ptr \<Rightarrow> ptr \<Rightarrow> bool) \<Rightarrow> ptr set \<Rightarrow> ptr option \<Rightarrow> bool" where
  "best_in better S w = (case w of None \<Rightarrow> S = {} | Some x \<Rightarrow> x \<in> S \<and> (\<forall>y \<in> S. \<not> better y x))"

lemma best_in_None: "best_in better {} None"
  by (simp add: best_in_def)

lemma best_in_insert:
  assumes "best_in better S w" and "\<And>x y z. better x y \<Longrightarrow> better y z \<Longrightarrow> better x z" and "\<And>x. \<not> better x x"
  shows "best_in better (insert p S)
     (case w of None \<Rightarrow> Some p | Some x \<Rightarrow> if better p x then Some p else Some x)"
  using assms by (auto simp: best_in_def split: option.splits)

section \<open>The invariant of the loop\<close>

text \<open>The bids on an impression, and those of one bidder.\<close>

definition bids_on :: "store \<Rightarrow> (bidderName \<times> ptr) list \<Rightarrow> string \<Rightarrow> ptr set" where
  "bids_on H bs imp = {p. \<exists>b. (b, p) \<in> set bs \<and> imp_of H p = imp}"

definition bids_by :: "store \<Rightarrow> (bidderName \<times> ptr) list \<Rightarrow> string \<Rightarrow> bidderName \<Rightarrow> ptr set" where
  "bids_by H bs imp b = {p. (b, p) \<in> set bs \<and> imp_of H p = imp}"

definition top_of :: "auction \<Rightarrow> string \<Rightarrow> bidderName \<Rightarrow> ptr option" where
  "top_of a imp b = (case lookup (winningBidsByBidder a) imp of None \<Rightarrow> None | Some m \<Rightarrow> lookup m b)"

definition auction_inv :: "store \<Rightarrow> bool \<Rightarrow> (bidderName \<times> ptr) list \<Rightarrow> auction \<Rightarrow> bool" where
  "auction_inv H prefer bs a =
     ((\<forall>imp. best_in (beats H prefer) (bids_on H bs imp) (lookup (winningBids a) imp)) \<and>
      (\<forall>imp b. best_in (beats H False) (bids_by H bs imp b) (top_of a imp b)) \<and>
      (\<forall>(b, p) \<in> set bs. bid_at H p \<noteq> None))"

lemma best_in_mem: "best_in better S (Some x) \<Longrightarrow> x \<in> S"
  by (simp add: best_in_def)

lemma bids_on_snoc: "bids_on H (bs @ [(b, p)]) imp = (if imp_of H p = imp then insert p (bids_on H bs imp) else bids_on H bs imp)"
  by (auto simp: bids_on_def)

lemma bids_by_snoc:
  "bids_by H (bs @ [(b, p)]) imp c = (if imp_of H p = imp \<and> c = b then insert p (bids_by H bs imp c) else bids_by H bs imp c)"
  by (auto simp: bids_by_def)

lemma auction_inv_winner: "auction_inv H prefer bs a \<Longrightarrow> lookup (winningBids a) imp = Some w \<Longrightarrow> w \<in> bids_on H bs imp"
  by (metis auction_inv_def best_in_mem)

lemma auction_inv_top: "auction_inv H prefer bs a \<Longrightarrow> top_of a imp b = Some w \<Longrightarrow> w \<in> bids_by H bs imp b"
  by (metis auction_inv_def best_in_mem)

lemma update_winner_eq:
  assumes "auction_inv H prefer bs a" and "bid_at H p = Some b"
  shows "update_winner H prefer p b a = Some (a\<lparr>winningBids :=
     (case lookup (winningBids a) (bid_ImpID b) of
        None \<Rightarrow> put (bid_ImpID b) p (winningBids a)
      | Some w \<Rightarrow> if beats H prefer p w then put (bid_ImpID b) p (winningBids a) else winningBids a)\<rparr>)"
proof (cases "lookup (winningBids a) (bid_ImpID b)")
  case None
  then show ?thesis by (simp add: update_winner_def)
next
  case (Some w)
  with assms(1) have "w \<in> bids_on H bs (bid_ImpID b)" by (rule auction_inv_winner)
  with assms(1) obtain wb where "bid_at H w = Some wb" by (auto simp: auction_inv_def bids_on_def)
  with Some assms(2) show ?thesis by (simp add: update_winner_def beats_def)
qed

lemma update_top_eq:
  assumes "auction_inv H prefer bs a'" and "bid_at H p = Some b"
    and "winningBidsByBidder a = winningBidsByBidder a'"
  shows "\<exists>t. update_top H bidder p b a = Some (a\<lparr>winningBidsByBidder := t\<rparr>) \<and>
     (\<forall>imp c. top_of (a\<lparr>winningBidsByBidder := t\<rparr>) imp c =
        (if imp = bid_ImpID b \<and> c = bidder
         then (case top_of a imp c of None \<Rightarrow> Some p | Some x \<Rightarrow> if beats H False p x then Some p else Some x)
         else top_of a imp c))"
proof (cases "top_of a (bid_ImpID b) bidder")
  case None
  then show ?thesis
    by (cases "lookup (winningBidsByBidder a) (bid_ImpID b)") (auto simp: update_top_def top_of_def)
next
  case (Some x)
  then obtain m where m: "lookup (winningBidsByBidder a) (bid_ImpID b) = Some m" "lookup m bidder = Some x"
    by (auto simp: top_of_def split: option.splits)
  from Some assms(3) have "top_of a' (bid_ImpID b) bidder = Some x" by (simp add: top_of_def)
  with assms(1) have "x \<in> bids_by H bs (bid_ImpID b) bidder" by (rule auction_inv_top)
  with assms(1) obtain xb where x: "bid_at H x = Some xb" by (auto simp: auction_inv_def bids_by_def)
  show ?thesis
  proof (cases "flt (bid_Price xb) (bid_Price b)")
    case True
    with m x assms(2) show ?thesis by (auto simp: update_top_def top_of_def)
  next
    case False
    have "update_top H bidder p b a = Some (a\<lparr>winningBidsByBidder := winningBidsByBidder a\<rparr>)"
      using m x False by (simp add: update_top_def)
    moreover have "top_of (a\<lparr>winningBidsByBidder := winningBidsByBidder a\<rparr>) imp c = top_of a imp c" for imp c
      by simp
    ultimately show ?thesis using m x False assms(2) Some by fastforce
  qed
qed

lemma auction_step_inv:
  assumes inv: "auction_inv H prefer bs a" and p: "bid_at H p \<noteq> None"
  shows "\<exists>a'. auction_step H prefer bidder p a = Some a' \<and> auction_inv H prefer (bs @ [(bidder, p)]) a' \<and>
     (\<forall>imp. lookup (winningBids a') imp =
        (if imp = imp_of H p
         then (case lookup (winningBids a) imp of None \<Rightarrow> Some p | Some x \<Rightarrow> if beats H prefer p x then Some p else Some x)
         else lookup (winningBids a) imp)) \<and>
     (\<forall>imp c. top_of a' imp c =
        (if imp = imp_of H p \<and> c = bidder
         then (case top_of a imp c of None \<Rightarrow> Some p | Some x \<Rightarrow> if beats H False p x then Some p else Some x)
         else top_of a imp c))"
proof -
  from p obtain b where b: "bid_at H p = Some b" by auto
  define a1 where "a1 = a\<lparr>winningBids :=
     (case lookup (winningBids a) (bid_ImpID b) of
        None \<Rightarrow> put (bid_ImpID b) p (winningBids a)
      | Some w \<Rightarrow> if beats H prefer p w then put (bid_ImpID b) p (winningBids a) else winningBids a)\<rparr>"
  have w: "update_winner H prefer p b a = Some a1"
    unfolding a1_def by (rule update_winner_eq [OF inv b])
  have same: "winningBidsByBidder a1 = winningBidsByBidder a" by (simp add: a1_def)
  then have top1: "top_of a1 imp c = top_of a imp c" for imp c by (simp add: top_of_def)
  from update_top_eq [OF inv b same, of bidder] obtain t where
    t: "update_top H bidder p b a1 = Some (a1\<lparr>winningBidsByBidder := t\<rparr>)"
    and tops: "\<And>imp c. top_of (a1\<lparr>winningBidsByBidder := t\<rparr>) imp c =
        (if imp = bid_ImpID b \<and> c = bidder
         then (case top_of a imp c of None \<Rightarrow> Some p | Some x \<Rightarrow> if beats H False p x then Some p else Some x)
         else top_of a imp c)" by (auto simp: top1)
  let ?a' = "a1\<lparr>winningBidsByBidder := t\<rparr>"
  have step: "auction_step H prefer bidder p a = Some ?a'" by (simp add: auction_step_def b w t)
  have wins: "lookup (winningBids ?a') imp =
        (if imp = imp_of H p
         then (case lookup (winningBids a) imp of None \<Rightarrow> Some p | Some x \<Rightarrow> if beats H prefer p x then Some p else Some x)
         else lookup (winningBids a) imp)" for imp
    by (auto simp: a1_def b split: option.splits)
  have "best_in (beats H prefer) (bids_on H (bs @ [(bidder, p)]) imp) (lookup (winningBids ?a') imp)" for imp
    using inv best_in_insert [of "beats H prefer" "bids_on H bs imp" "lookup (winningBids a) imp" p] beats_trans beats_irrefl
    unfolding wins bids_on_snoc by (auto simp: auction_inv_def)
  moreover have "best_in (beats H False) (bids_by H (bs @ [(bidder, p)]) imp c) (top_of ?a' imp c)" for imp c
    using inv best_in_insert [of "beats H False" "bids_by H bs imp c" "top_of a imp c" p] beats_trans [of H False] beats_irrefl [of H False]
    unfolding tops bids_by_snoc by (auto simp: auction_inv_def b)
  ultimately have "auction_inv H prefer (bs @ [(bidder, p)]) ?a'"
    using inv p by (auto simp: auction_inv_def)
  with step wins tops b show ?thesis by auto
qed

lemma auction_loop:
  assumes "\<forall>(b, p) \<in> set bs. bid_at H p \<noteq> None"
  shows "\<exists>a. fold_opt (\<lambda>(b, p). auction_step H prefer b p) bs emptyAuction = Some a \<and> auction_inv H prefer bs a"
  using assms
proof (induction bs rule: rev_induct)
  case Nil
  show ?case by (simp add: auction_inv_def emptyAuction_def top_of_def bids_on_def bids_by_def best_in_None)
next
  case (snoc bp bs)
  obtain b p where bp: "bp = (b, p)" by (cases bp)
  from snoc obtain a where a: "fold_opt (\<lambda>(b, p). auction_step H prefer b p) bs emptyAuction = Some a"
    "auction_inv H prefer bs a" by auto
  from snoc.prems have "bid_at H p \<noteq> None" by (auto simp: bp)
  from auction_step_inv [OF a(2) this, of b] a(1) show ?case by (auto simp: bp fold_opt_append)
qed

lemma newAuction_inv:
  assumes "valid_seats H seats"
  obtains a where "newAuction H seats prefer = Some a" and "auction_inv H prefer (all_bids seats) a"
  using auction_loop [of "all_bids seats" H "prefer"] assms by (auto simp: newAuction_flat valid_seats_def)

section \<open>Who wins\<close>

abbreviation has_deal :: "store \<Rightarrow> ptr \<Rightarrow> bool" where
  "has_deal H p \<equiv> bid_DealID (the (bid_at H p)) \<noteq> []"

lemma not_beats_iff:
  "\<not> beats H prefer p w \<longleftrightarrow>
     (if prefer \<and> has_deal H w \<noteq> has_deal H p then has_deal H w else \<not> flt (price_of H w) (price_of H p))"
  by (auto simp: beats_def isNewWinningBid_def)

text \<open>
  C22. The winner of each impression. For seats whose bids all exist, the auction is computed without a
  panic; an impression has no winner exactly when nobody bids on it, and otherwise the winner is one
  of the bids on it that no other one beats: no other bid on it has a greater price, and where deals
  are preferred no bid with a deal loses to one without.
\<close>

theorem auction_winners:
  assumes "valid_seats H seats"
  shows "\<exists>a. newAuction H seats prefer = Some a \<and>
    (\<forall>imp. case lookup (winningBids a) imp of
       None \<Rightarrow> \<forall>(b, p) \<in> set (all_bids seats). imp_of H p \<noteq> imp
     | Some w \<Rightarrow> (\<exists>b. (b, w) \<in> set (all_bids seats)) \<and> imp_of H w = imp \<and>
         (\<forall>(b, p) \<in> set (all_bids seats). imp_of H p = imp \<longrightarrow>
            (if prefer \<and> has_deal H w \<noteq> has_deal H p then has_deal H w else \<not> flt (price_of H w) (price_of H p))))"
proof -
  obtain a where a: "newAuction H seats prefer = Some a" "auction_inv H prefer (all_bids seats) a"
    using newAuction_inv [OF assms] by blast
  have "case lookup (winningBids a) imp of
       None \<Rightarrow> \<forall>(b, p) \<in> set (all_bids seats). imp_of H p \<noteq> imp
     | Some w \<Rightarrow> (\<exists>b. (b, w) \<in> set (all_bids seats)) \<and> imp_of H w = imp \<and>
         (\<forall>(b, p) \<in> set (all_bids seats). imp_of H p = imp \<longrightarrow> \<not> beats H prefer p w)" for imp
  proof -
    have "best_in (beats H prefer) (bids_on H (all_bids seats) imp) (lookup (winningBids a) imp)"
      using a(2) by (simp add: auction_inv_def)
    then show ?thesis by (auto simp: best_in_def bids_on_def split: option.splits)
  qed
  with a(1) show ?thesis unfolding not_beats_iff by blast
qed

text \<open>Two bidders, three bids on one impression: a deal at 1, and 5 and 3 without a deal.\<close>

definition example_bid :: "string \<Rightarrow> float64 \<Rightarrow> string \<Rightarrow> Bid" where
  "example_bid i price deal = \<lparr>bid_ID = i, bid_ImpID = ''imp1'', bid_Price = price, bid_NURL = [], bid_AdM = ''adm'', bid_CrID = ''cr'',
     bid_Cat = [], bid_DealID = deal, bid_W = 300, bid_H = 250, bid_Exp = 0, bid_Ext = RawEmpty, bid_other = JNull\<rparr>"

definition example_pbs :: "ptr \<Rightarrow> pbsOrtbBid" where
  "example_pbs q = \<lparr>pb_bid = Some q, pb_bidType = ''banner'', pb_bidTargets = [], pb_bidVideo = None, pb_bidEvents = None,
     pb_dealPriority = 0, pb_dealTierSatisfied = False, pb_generatedBidID = []\<rparr>"

definition example_store :: store where
  "example_store = \<lparr>st_pbs = map_of [(0, example_pbs 0), (1, example_pbs 1), (2, example_pbs 2)],
     st_bid = map_of [(0, example_bid ''a'' (Fin 1) ''deal''), (1, example_bid ''b'' (Fin 5) []), (2, example_bid ''c'' (Fin 3) [])]\<rparr>"

definition example_seats :: seats where
  "example_seats = [(''appnexus'', Some \<lparr>sb_bids = [0, 1], sb_currency = ''USD'', sb_httpCalls = []\<rparr>), (''rubicon'', None),
     (''pubmatic'', Some \<lparr>sb_bids = [2], sb_currency = ''USD'', sb_httpCalls = []\<rparr>)]"

lemma example_valid: "valid_seats example_store example_seats"
  by code_simp

theorem auction_winners_witness:
  "\<exists>a w. newAuction example_store example_seats True = Some a \<and>
     lookup (winningBids a) ''imp1'' = Some w \<and> has_deal example_store w"
proof -
  obtain a where a: "newAuction example_store example_seats True = Some a" and
    w: "\<And>imp. case lookup (winningBids a) imp of
       None \<Rightarrow> \<forall>(b, p) \<in> set (all_bids example_seats). imp_of example_store p \<noteq> imp
     | Some w \<Rightarrow> (\<exists>b. (b, w) \<in> set (all_bids example_seats)) \<and> imp_of example_store w = imp \<and>
         (\<forall>(b, p) \<in> set (all_bids example_seats). imp_of example_store p = imp \<longrightarrow>
            (if True \<and> has_deal example_store w \<noteq> has_deal example_store p then has_deal example_store w
             else \<not> flt (price_of example_store w) (price_of example_store p)))"
    using auction_winners [OF example_valid, of True] by blast
  have "has_deal example_store 0" "imp_of example_store 0 = ''imp1''" "(''appnexus'', 0) \<in> set (all_bids example_seats)"
    by code_simp+
  then show ?thesis using a w [of "''imp1''"] by (auto split: option.splits)
qed

text \<open>
  The top bid of each bidder on each impression. It exists exactly when the bidder bids on the
  impression, it is one of the bidder's bids on it, and no other bid of the bidder on it has a
  greater price, deals or not.
\<close>

theorem bidder_top_bids:
  assumes "valid_seats H seats"
  shows "\<exists>a. newAuction H seats prefer = Some a \<and>
    (\<forall>imp b. case top_of a imp b of
       None \<Rightarrow> \<forall>p. (b, p) \<in> set (all_bids seats) \<longrightarrow> imp_of H p \<noteq> imp
     | Some w \<Rightarrow> (b, w) \<in> set (all_bids seats) \<and> imp_of H w = imp \<and>
         (\<forall>p. (b, p) \<in> set (all_bids seats) \<and> imp_of H p = imp \<longrightarrow> \<not> flt (price_of H w) (price_of H p)))"
proof -
  obtain a where a: "newAuction H seats prefer = Some a" "auction_inv H prefer (all_bids seats) a"
    using newAuction_inv [OF assms] by blast
  have best: "best_in (beats H False) (bids_by H (all_bids seats) imp b) (top_of a imp b)" for imp b
    using a(2) by (simp add: auction_inv_def)
  have "case top_of a imp b of
       None \<Rightarrow> \<forall>p. (b, p) \<in> set (all_bids seats) \<longrightarrow> imp_of H p \<noteq> imp
     | Some w \<Rightarrow> (b, w) \<in> set (all_bids seats) \<and> imp_of H w = imp \<and>
         (\<forall>p. (b, p) \<in> set (all_bids seats) \<and> imp_of H p = imp \<longrightarrow> \<not> flt (price_of H w) (price_of H p))" for imp b
    using best [of imp b] by (cases "top_of a imp b") (auto simp: best_in_def bids_by_def)
  with a(1) show ?thesis by blast
qed

theorem bidder_top_bids_witness:
  "\<exists>a. newAuction example_store example_seats True = Some a \<and> top_of a ''imp1'' ''appnexus'' \<noteq> None"
proof -
  obtain a where a: "newAuction example_store example_seats True = Some a"
    and t: "case top_of a ''imp1'' ''appnexus'' of
       None \<Rightarrow> \<forall>p. (''appnexus'', p) \<in> set (all_bids example_seats) \<longrightarrow> imp_of example_store p \<noteq> ''imp1''
     | Some w \<Rightarrow> (''appnexus'', w) \<in> set (all_bids example_seats) \<and> imp_of example_store w = ''imp1'' \<and>
         (\<forall>p. (''appnexus'', p) \<in> set (all_bids example_seats) \<and> imp_of example_store p = ''imp1'' \<longrightarrow>
            \<not> flt (price_of example_store w) (price_of example_store p))"
    using bidder_top_bids [OF example_valid, of True] by blast
  have "imp_of example_store 0 = ''imp1''" "(''appnexus'', 0) \<in> set (all_bids example_seats)" by code_simp+
  then show ?thesis using a t by (auto split: option.splits)
qed

section \<open>The overall winner among the top bids\<close>

definition no_nan :: "store \<Rightarrow> (bidderName \<times> ptr) list \<Rightarrow> bool" where
  "no_nan H bs = (\<forall>(b, p) \<in> set bs. price_of H p \<noteq> NaN)"

lemma winner_step_top:
  assumes inv: "auction_inv H False bs a" and nn: "no_nan H (bs @ [(bidder, p)])"
    and top: "\<And>imp w. lookup (winningBids a) imp = Some w \<Longrightarrow> \<exists>b. top_of a imp b = Some w"
    and step: "auction_step H False bidder p a = Some a'" and p: "bid_at H p \<noteq> None"
    and w: "lookup (winningBids a') imp = Some w"
  shows "\<exists>b. top_of a' imp b = Some w"
proof -
  from auction_step_inv [OF inv p, of bidder] step have
    wins: "\<And>imp. lookup (winningBids a') imp =
        (if imp = imp_of H p
         then (case lookup (winningBids a) imp of None \<Rightarrow> Some p | Some x \<Rightarrow> if beats H False p x then Some p else Some x)
         else lookup (winningBids a) imp)"
    and tops: "\<And>imp c. top_of a' imp c =
        (if imp = imp_of H p \<and> c = bidder
         then (case top_of a imp c of None \<Rightarrow> Some p | Some x \<Rightarrow> if beats H False p x then Some p else Some x)
         else top_of a imp c)" by auto
  show ?thesis
  proof (cases "imp = imp_of H p")
    case False
    with w wins [of imp] have "lookup (winningBids a) imp = Some w" by simp
    from top [OF this] obtain b where "top_of a imp b = Some w" by blast
    with False tops show ?thesis by auto
  next
    case imp: True
    show ?thesis
    proof (cases "w = p \<and> (\<forall>x. lookup (winningBids a) imp = Some x \<longrightarrow> beats H False p x)")
      case True
      have "beats H False p x" if x: "top_of a imp bidder = Some x" for x
      proof -
        have xin: "x \<in> bids_by H bs imp bidder" by (rule auction_inv_top [OF inv x])
        then have "bids_on H bs imp \<noteq> {}" by (auto simp: bids_by_def bids_on_def)
        moreover have best: "best_in (beats H False) (bids_on H bs imp) (lookup (winningBids a) imp)"
          using inv by (simp add: auction_inv_def)
        ultimately obtain w0 where w0: "lookup (winningBids a) imp = Some w0" by (auto simp: best_in_def split: option.splits)
        have "x \<in> bids_on H bs imp" using xin by (auto simp: bids_by_def bids_on_def)
        with best w0 have "\<not> flt (price_of H w0) (price_of H x)" by (simp add: best_in_def)
        moreover have "price_of H x \<noteq> NaN" "price_of H w0 \<noteq> NaN"
          using nn xin auction_inv_winner [OF inv w0] by (auto simp: no_nan_def bids_by_def bids_on_def)
        ultimately have "fle (price_of H x) (price_of H w0)" using not_flt_fle by blast
        with True w0 show ?thesis using fle_flt_trans by auto
      qed
      with tops [of imp bidder] imp True show ?thesis by (auto split: option.splits)
    next
      case False
      with w wins [of imp] imp have w0: "lookup (winningBids a) imp = Some w" and nb: "\<not> beats H False p w"
        by (auto split: option.splits if_splits)
      from top [OF w0] obtain b where "top_of a imp b = Some w" by blast
      with tops [of imp b] nb have "top_of a' imp b = Some w"
        by (cases "imp = imp_of H p \<and> b = bidder") (simp_all only: option.case if_True if_False if_cancel)
      then show ?thesis by blast
    qed
  qed
qed

lemma winner_top_loop:
  assumes "\<forall>(b, p) \<in> set bs. bid_at H p \<noteq> None" and "no_nan H bs"
    and "fold_opt (\<lambda>(b, p). auction_step H False b p) bs emptyAuction = Some a"
    and "lookup (winningBids a) imp = Some w"
  shows "\<exists>b. top_of a imp b = Some w"
  using assms
proof (induction bs arbitrary: a imp w rule: rev_induct)
  case Nil
  then show ?case by (auto simp: emptyAuction_def)
next
  case (snoc bp bs)
  obtain b p where bp: "bp = (b, p)" by (cases bp)
  from snoc.prems(1) have ok: "\<forall>(b, p) \<in> set bs. bid_at H p \<noteq> None" and p: "bid_at H p \<noteq> None" by (auto simp: bp)
  from auction_loop [OF ok, of False] obtain a0 where a0:
    "fold_opt (\<lambda>(b, p). auction_step H False b p) bs emptyAuction = Some a0" "auction_inv H False bs a0" by blast
  from snoc.prems(3) a0(1) have step: "auction_step H False b p a0 = Some a" by (simp add: fold_opt_append bp split: option.splits)
  have "no_nan H bs" using snoc.prems(2) by (auto simp: no_nan_def)
  with snoc.IH [OF ok] a0(1) have "\<And>imp w. lookup (winningBids a0) imp = Some w \<Longrightarrow> \<exists>b. top_of a0 imp b = Some w" by blast
  from winner_step_top [OF a0(2) _ this step p snoc.prems(4)] snoc.prems(2) show ?case by (simp add: bp)
qed

text \<open>
  Without a preference for deals the winner of an impression is also the top bid of its bidder there,
  the same object, so that it gets the keys of an overall winner (prices that are numbers).
\<close>

theorem winner_is_a_top_bid:
  assumes "valid_seats H seats" and "\<forall>(b, p) \<in> set (all_bids seats). price_of H p \<noteq> NaN"
    and "newAuction H seats False = Some a" and "lookup (winningBids a) imp = Some w"
  shows "\<exists>b. top_of a imp b = Some w"
  using winner_top_loop [of "all_bids seats" H a imp w] assms
  by (simp add: newAuction_flat valid_seats_def no_nan_def)

theorem winner_is_a_top_bid_witness:
  "\<exists>a w b. newAuction example_store example_seats False = Some a \<and> lookup (winningBids a) ''imp1'' = Some w
     \<and> top_of a ''imp1'' b = Some w"
proof -
  have n: "\<forall>(b, p) \<in> set (all_bids example_seats). price_of example_store p \<noteq> NaN" by code_simp
  have "map_option (\<lambda>a. lookup (winningBids a) ''imp1'') (newAuction example_store example_seats False) = Some (Some 1)"
    by code_simp
  then obtain a where a: "newAuction example_store example_seats False = Some a" "lookup (winningBids a) ''imp1'' = Some 1" by auto
  with winner_is_a_top_bid [OF example_valid n a] show ?thesis by blast
qed

text \<open>
  With a preference for deals this fails: a bidder's cheaper bid with a deal can win the impression
  while the bidder's top bid there is the dearer one without. No top bid is then the overall winner.
\<close>

lemma deal_winner_is_no_top_bid:
  "map_option (\<lambda>a. (lookup (winningBids a) ''imp1'', top_bids a)) (newAuction example_store example_seats True)
     = Some (Some 0, [(''imp1'', ''appnexus'', 1), (''imp1'', ''pubmatic'', 2)])"
  by code_simp

section \<open>The order of the seats does not matter\<close>

lemma maximal_same_price:
  assumes "\<not> beats H prefer p w" and "\<not> beats H prefer w p" and "price_of H p \<noteq> NaN" and "price_of H w \<noteq> NaN"
  shows "price_of H p = price_of H w \<and> (prefer \<longrightarrow> has_deal H p = has_deal H w)"
proof -
  from assms(1,2) have "prefer \<longrightarrow> has_deal H p = has_deal H w"
    by (auto simp: not_beats_iff split: if_splits)
  moreover from this assms(1,2) have "\<not> flt (price_of H w) (price_of H p)" "\<not> flt (price_of H p) (price_of H w)"
    by (auto simp: not_beats_iff split: if_splits)
  ultimately show ?thesis using assms(3,4) not_flt_fle fle_antisym by metis
qed

text \<open>
  The order in which Go visits the map of seats does not change the outcome of an auction: with the
  same seats in two orders the same impressions are won, at the same prices, and where deals are
  preferred both winners have a deal or neither has.
\<close>

theorem auction_order_independent:
  assumes "valid_seats H seats" and "\<forall>(b, p) \<in> set (all_bids seats). price_of H p \<noteq> NaN"
    and "set seats = set seats'" and "newAuction H seats prefer = Some a" and "newAuction H seats' prefer = Some a'"
  shows "case (lookup (winningBids a) imp, lookup (winningBids a') imp) of
      (None, None) \<Rightarrow> True
    | (Some w, Some w') \<Rightarrow> price_of H w = price_of H w' \<and> (prefer \<longrightarrow> has_deal H w = has_deal H w')
    | _ \<Rightarrow> False"
proof -
  have same: "set (all_bids seats) = set (all_bids seats')" using assms(3) by (simp add: set_all_bids)
  with assms(1) have v: "valid_seats H seats'" by (simp add: valid_seats_def)
  have on: "bids_on H (all_bids seats) imp = bids_on H (all_bids seats') imp" using same by (simp add: bids_on_def)
  have b: "best_in (beats H prefer) (bids_on H (all_bids seats') imp) (lookup (winningBids a) imp)"
    using newAuction_inv [OF assms(1), of "prefer"] assms(4) by (metis auction_inv_def on option.inject)
  have b': "best_in (beats H prefer) (bids_on H (all_bids seats') imp) (lookup (winningBids a') imp)"
    using newAuction_inv [OF v, of "prefer"] assms(5) by (metis auction_inv_def option.inject)
  have nn: "price_of H p \<noteq> NaN" if "p \<in> bids_on H (all_bids seats') imp" for p
    using that assms(2) on by (auto simp: bids_on_def)
  show ?thesis
  proof (cases "lookup (winningBids a) imp")
    case None
    with b b' show ?thesis by (auto simp: best_in_def split: option.splits)
  next
    case (Some w)
    with b have w: "w \<in> bids_on H (all_bids seats') imp" by (simp add: best_in_def)
    with b' obtain w' where w': "lookup (winningBids a') imp = Some w'" by (auto simp: best_in_def split: option.splits)
    from b b' Some w' w have "\<not> beats H prefer w' w" "\<not> beats H prefer w w'" "w' \<in> bids_on H (all_bids seats') imp"
      by (auto simp: best_in_def)
    with maximal_same_price [of H "prefer" w w'] nn w have
      "price_of H w = price_of H w' \<and> (prefer \<longrightarrow> has_deal H w = has_deal H w')" by blast
    with Some w' show ?thesis by simp
  qed
qed

theorem auction_order_independent_witness:
  "\<exists>a a' w w'. newAuction example_store example_seats False = Some a \<and> newAuction example_store (rev example_seats) False = Some a'
     \<and> lookup (winningBids a) ''imp1'' = Some w \<and> lookup (winningBids a') ''imp1'' = Some w' \<and> price_of example_store w = price_of example_store w'"
proof -
  have n: "\<forall>(b, p) \<in> set (all_bids example_seats). price_of example_store p \<noteq> NaN" by code_simp
  have "map_option (\<lambda>a. lookup (winningBids a) ''imp1'') (newAuction example_store example_seats False) = Some (Some 1)"
    "map_option (\<lambda>a. lookup (winningBids a) ''imp1'') (newAuction example_store (rev example_seats) False) = Some (Some 1)"
    by code_simp+
  then obtain a a' where a: "newAuction example_store example_seats False = Some a" "lookup (winningBids a) ''imp1'' = Some 1"
    "newAuction example_store (rev example_seats) False = Some a'" "lookup (winningBids a') ''imp1'' = Some 1" by auto
  have "set example_seats = set (rev example_seats)" by simp
  from auction_order_independent [OF example_valid n this a(1,3), of "''imp1''"] a show ?thesis by simp
qed

section \<open>The tables of an auction\<close>

definition tables_wf :: "auction \<Rightarrow> bool" where
  "tables_wf a = (wf_map (winningBids a) \<and> wf_map (winningBidsByBidder a) \<and> (\<forall>(imp, m) \<in> set (winningBidsByBidder a). wf_map m))"

lemma put_tables:
  assumes "\<forall>(k, m) \<in> set t. wf_map m" and "wf_map m'"
  shows "\<forall>(k, m) \<in> set (put imp m' t). wf_map m"
  using assms set_put_subset [of imp m' t] by auto

lemma update_winner_wf: "update_winner H prefer p b a = Some a' \<Longrightarrow> tables_wf a \<Longrightarrow> tables_wf a'"
  by (auto simp: update_winner_def tables_wf_def split: option.splits if_splits)

lemma update_top_wf:
  assumes "update_top H bidder p b a = Some a'" and "tables_wf a"
  shows "tables_wf a'"
proof (cases "lookup (winningBidsByBidder a) (bid_ImpID b)")
  case None
  have "wf_map [(bidder, p)]" by (simp add: wf_map_def)
  with assms(2) have "\<forall>(k, m) \<in> set (put (bid_ImpID b) [(bidder, p)] (winningBidsByBidder a)). wf_map m"
    by (intro put_tables) (simp_all add: tables_wf_def)
  with assms None show ?thesis by (auto simp: update_top_def tables_wf_def)
next
  case (Some m)
  with assms(2) have "wf_map m" by (auto simp: tables_wf_def dest!: map_of_SomeD)
  then have "wf_map (put bidder p m)" by simp
  with assms(2) have "\<forall>(k, m) \<in> set (put (bid_ImpID b) (put bidder p m) (winningBidsByBidder a)). wf_map m"
    by (intro put_tables) (simp_all add: tables_wf_def)
  moreover from assms(1) Some have "a' = a \<or> a' = a\<lparr>winningBidsByBidder := put (bid_ImpID b) (put bidder p m) (winningBidsByBidder a)\<rparr>"
    by (auto simp: update_top_def split: option.splits if_splits)
  ultimately show ?thesis using assms(2) by (auto simp: tables_wf_def)
qed

lemma newAuction_wf: "newAuction H seats prefer = Some a \<Longrightarrow> tables_wf a"
  unfolding newAuction_flat
proof (erule fold_opt_invariant)
  show "tables_wf emptyAuction" by (simp add: tables_wf_def emptyAuction_def)
  show "tables_wf s'" if "tables_wf s" "(\<lambda>(b, p). auction_step H prefer b p) x s = Some s'" for x s s'
    using that by (auto simp: auction_step_def split: prod.splits option.splits intro: update_top_wf update_winner_wf)
qed

lemma set_top_bids: "(imp, b, p) \<in> set (top_bids a) \<longleftrightarrow> (\<exists>m. (imp, m) \<in> set (winningBidsByBidder a) \<and> (b, p) \<in> set m)"
  by (auto simp: top_bids_def)

lemma top_bids_iff: "tables_wf a \<Longrightarrow> (imp, b, p) \<in> set (top_bids a) \<longleftrightarrow> top_of a imp b = Some p"
  by (auto simp: tables_wf_def top_bids_def top_of_def wf_map_lookup_iff [symmetric] split: option.splits)
     (fastforce simp: wf_map_lookup_iff dest: map_of_SomeD)+

lemma newAuction_top_valid:
  assumes "valid_seats H seats" and "newAuction H seats prefer = Some a" and "(imp, b, p) \<in> set (top_bids a)"
  shows "bid_at H p \<noteq> None"
proof -
  from assms(2,3) have t: "top_of a imp b = Some p" by (simp add: top_bids_iff newAuction_wf)
  obtain a' where "newAuction H seats prefer = Some a'" and inv: "auction_inv H prefer (all_bids seats) a'"
    using newAuction_inv [OF assms(1)] by blast
  with assms(2) have "auction_inv H prefer (all_bids seats) a" by simp
  from auction_inv_top [OF this t] inv show ?thesis by (auto simp: bids_by_def auction_inv_def)
qed

section \<open>Rounded prices\<close>

lemma lookup_fold_put:
  "lookup (fold (\<lambda>(b, p). put p (f p)) m acc) q = (if q \<in> snd ` set m then Some (f q) else lookup acc q)"
  by (induction m arbitrary: acc) (auto split: prod.splits)

lemma lookup_fold_put2:
  "lookup (fold (\<lambda>(i, m). fold (\<lambda>(b, p). put p (f p)) m) t acc) q =
     (if \<exists>(i, m) \<in> set t. q \<in> snd ` set m then Some (f q) else lookup acc q)"
  by (induction t arbitrary: acc) (auto simp: lookup_fold_put split: prod.splits)

lemma setRoundedPrices_total:
  assumes "\<And>imp b p. (imp, b, p) \<in> set (top_bids a) \<Longrightarrow> bid_at H p \<noteq> None"
  shows "setRoundedPrices H pg a = Some (a\<lparr>roundedPrices :=
     fold (\<lambda>(i, m). fold (\<lambda>(b, p). put p (GetPriceBucket (price_of H p) pg)) m) (winningBidsByBidder a) []\<rparr>)"
proof -
  have inner: "fold_opt (\<lambda>(bidder, p) acc'. (case bid_at H p of None \<Rightarrow> None
        | Some b \<Rightarrow> Some (put p (GetPriceBucket (bid_Price b) pg) acc'))) m acc
      = Some (fold (\<lambda>(b, p). put p (GetPriceBucket (price_of H p) pg)) m acc)"
    if "(imp, m) \<in> set (winningBidsByBidder a)" for imp m acc
  proof (rule fold_opt_total)
    fix x :: "bidderName \<times> ptr" and s
    assume x: "x \<in> set m"
    obtain b p where bp: "x = (b, p)" by (cases x)
    with that x have "(imp, b, p) \<in> set (top_bids a)" by (fastforce simp: top_bids_def)
    with assms obtain bd where "bid_at H p = Some bd" by fastforce
    then show "(case x of (bidder, p) \<Rightarrow> \<lambda>acc'. case bid_at H p of None \<Rightarrow> None
        | Some b \<Rightarrow> Some (put p (GetPriceBucket (bid_Price b) pg) acc')) s
      = Some ((case x of (b, p) \<Rightarrow> put p (GetPriceBucket (price_of H p) pg)) s)" by (simp add: bp)
  qed
  have "fold_opt (\<lambda>(imp, m) acc. fold_opt (\<lambda>(bidder, p) acc'. (case bid_at H p of None \<Rightarrow> None
        | Some b \<Rightarrow> Some (put p (GetPriceBucket (bid_Price b) pg) acc'))) m acc) (winningBidsByBidder a) []
      = Some (fold (\<lambda>(i, m). fold (\<lambda>(b, p). put p (GetPriceBucket (price_of H p) pg)) m) (winningBidsByBidder a) [])"
    by (rule fold_opt_total) (auto simp: inner)
  then show ?thesis by (simp add: setRoundedPrices_def)
qed

text \<open>
  After an auction every top bid has its price bucket, and only top bids have one: the rounding of
  the prices of an auction does not panic and changes nothing else.
\<close>

theorem rounded_prices_of_top_bids:
  assumes "valid_seats H seats" and "newAuction H seats prefer = Some a"
  shows "\<exists>prices. setRoundedPrices H pg a = Some (a\<lparr>roundedPrices := prices\<rparr>) \<and>
    (\<forall>p. lookup prices p = (if \<exists>imp b. top_of a imp b = Some p then Some (GetPriceBucket (price_of H p) pg) else None))"
proof -
  let ?prices = "fold (\<lambda>(i, m). fold (\<lambda>(b, p). put p (GetPriceBucket (price_of H p) pg)) m) (winningBidsByBidder a) []"
  have "setRoundedPrices H pg a = Some (a\<lparr>roundedPrices := ?prices\<rparr>)"
    by (rule setRoundedPrices_total) (rule newAuction_top_valid [OF assms])
  moreover have "(\<exists>(i, m) \<in> set (winningBidsByBidder a). p \<in> snd ` set m) \<longleftrightarrow> (\<exists>imp b. top_of a imp b = Some p)" for p
    unfolding top_bids_iff [OF newAuction_wf [OF assms(2)], symmetric] set_top_bids by force
  ultimately show ?thesis by (intro exI [of _ ?prices]) (simp add: lookup_fold_put2)
qed

theorem rounded_prices_of_top_bids_witness:
  "\<exists>a prices. newAuction example_store example_seats False = Some a
     \<and> setRoundedPrices example_store priceGranularityMed a = Some (a\<lparr>roundedPrices := prices\<rparr>)
     \<and> lookup prices 1 = Some ''5.00''"
proof -
  have "map_option (\<lambda>a. top_of a ''imp1'' ''appnexus'') (newAuction example_store example_seats False) = Some (Some 1)"
    by code_simp
  then obtain a where a: "newAuction example_store example_seats False = Some a" "top_of a ''imp1'' ''appnexus'' = Some 1" by auto
  have "GetPriceBucket (price_of example_store 1) priceGranularityMed = ''5.00''" by code_simp
  moreover obtain prices where p: "setRoundedPrices example_store priceGranularityMed a = Some (a\<lparr>roundedPrices := prices\<rparr>)"
    "lookup prices 1 = (if \<exists>imp b. top_of a imp b = Some 1
       then Some (GetPriceBucket (price_of example_store 1) priceGranularityMed) else None)"
    using rounded_prices_of_top_bids [OF example_valid a(1), of priceGranularityMed] by blast
  moreover have "\<exists>imp b. top_of a imp b = Some 1" using a(2) by blast
  ultimately have "lookup prices 1 = Some ''5.00''" by simp
  with a(1) p(1) show ?thesis by blast
qed

section \<open>Cached values and their ids\<close>

text \<open>
  The value cached for a bid, and for the VAST of a video bid, of the top bid \<open>p\<close> with bid
  pointer \<open>q\<close>.
\<close>

definition bid_entry :: "cache_env \<Rightarrow> store \<Rightarrow> eventTracking \<Rightarrow> auction \<Rightarrow> Cacheable \<Rightarrow> ptr \<Rightarrow> bool" where
  "bid_entry env H ev a c q = (\<exists>imp bidder p pb b jsonBytes ttl.
     (imp, bidder, p) \<in> set (top_bids a) \<and> st_pbs H p = Some pb \<and> pb_bid pb = Some q \<and> st_bid H q = Some b
     \<and> ce_marshalBid env b = Inr jsonBytes
     \<and> c = cacheable ''json'' (fst (modifyBidJSON (ce_patchWurl env) ev pb b bidder jsonBytes)) ttl [])"

definition vast_entry :: "cache_env \<Rightarrow> store \<Rightarrow> auction \<Rightarrow> Cacheable \<Rightarrow> ptr \<Rightarrow> bool" where
  "vast_entry env H a c q = (\<exists>imp bidder p pb b data ttl key.
     (imp, bidder, p) \<in> set (top_bids a) \<and> st_pbs H p = Some pb \<and> pb_bid pb = Some q \<and> st_bid H q = Some b
     \<and> pb_bidType pb = ''video'' \<and> ce_marshalString env (makeVAST b) = Inr data \<and> c = cacheable ''xml'' data ttl key)"

definition acc_ok :: "cache_env \<Rightarrow> store \<Rightarrow> eventTracking \<Rightarrow> auction \<Rightarrow> cache_acc \<Rightarrow> bool" where
  "acc_ok env H ev a acc =
     ((\<forall>(i, q) \<in> set (ca_bidIndices acc). i < length (ca_toCache acc) \<and> bid_entry env H ev a (ca_toCache acc ! i) q) \<and>
      (\<forall>(i, q) \<in> set (ca_vastIndices acc). i < length (ca_toCache acc) \<and> vast_entry env H a (ca_toCache acc ! i) q))"

lemma acc_ok_append:
  assumes "acc_ok env H ev a acc"
  shows "acc_ok env H ev a (acc\<lparr>ca_toCache := ca_toCache acc @ [c], ca_errs := es\<rparr>)"
  using assms by (auto simp: acc_ok_def nth_append)

lemma cache_bid_ok:
  assumes "acc_ok env H ev a acc" and "(imp, bidder, p) \<in> set (top_bids a)" and "st_pbs H p = Some pb"
    and "pb_bid pb = Some q" and "st_bid H q = Some b"
  shows "acc_ok env H ev a (cache_bid env ev bidder pb b q ttl cust acc)"
proof (cases "ce_marshalBid env b")
  case (Inl e)
  with assms(1) show ?thesis by (simp add: cache_bid_def acc_ok_def)
next
  case (Inr j)
  let ?c = "cacheable ''json'' (fst (modifyBidJSON (ce_patchWurl env) ev pb b bidder j)) ttl []"
  have "bid_entry env H ev a ?c q" using assms Inr unfolding bid_entry_def by blast
  with assms(1) Inr show ?thesis
    by (auto simp: cache_bid_def acc_ok_def nth_append split: prod.splits)
qed

lemma cache_vast_ok:
  assumes "acc_ok env H ev a acc" and "(imp, bidder, p) \<in> set (top_bids a)" and "st_pbs H p = Some pb"
    and "pb_bid pb = Some q" and "st_bid H q = Some b" and "pb_bidType pb = ''video''"
  shows "acc_ok env H ev a (cache_vast env b q ttl key acc)"
proof (cases "ce_marshalString env (makeVAST b)")
  case (Inl e)
  with assms(1) show ?thesis by (simp add: cache_vast_def acc_ok_def)
next
  case (Inr d)
  have "vast_entry env H a (cacheable ''xml'' d ttl key) q" using assms Inr unfolding vast_entry_def by blast
  with assms(1) Inr show ?thesis by (auto simp: cache_vast_def acc_ok_def nth_append)
qed

lemma cache_step_ok:
  assumes "cache_step env H a targ ev req buf ttls cat hb ce (bidder, p) acc = Some acc'"
    and "(imp, bidder, p) \<in> set (top_bids a)" and "acc_ok env H ev a acc"
  shows "acc_ok env H ev a acc'"
proof -
  from assms(1) obtain pb q b where o: "st_pbs H p = Some pb" "pb_bid pb = Some q" "st_bid H q = Some b"
    by (auto simp: cache_step_def bid_at_def bid_ptr_def split: option.splits)
  note ok = cache_bid_ok [OF _ assms(2) o] cache_vast_ok [OF _ assms(2) o]
  from assms(1,3) o show ?thesis
    by (auto simp: cache_step_def Let_def bid_at_def bid_ptr_def intro!: ok split: if_splits)
qed

lemma cache_loop_ok:
  assumes "fold_opt (\<lambda>(imp, m) acc. fold_opt (cache_step env H a targ ev req buf ttls cat hb ce) m acc) (winningBidsByBidder a) acc0 = Some acc"
    and "acc_ok env H ev a acc0"
  shows "acc_ok env H ev a acc"
  using assms
proof (rule fold_opt_invariant)
  fix x s s'
  assume x: "x \<in> set (winningBidsByBidder a)" and s: "acc_ok env H ev a s"
    and f: "(\<lambda>(imp, m) acc. fold_opt (cache_step env H a targ ev req buf ttls cat hb ce) m acc) x s = Some s'"
  obtain imp m where im: "x = (imp, m)" by (cases x)
  from f have "fold_opt (cache_step env H a targ ev req buf ttls cat hb ce) m s = Some s'" by (simp add: im)
  then show "acc_ok env H ev a s'" using s
  proof (rule fold_opt_invariant)
    fix y t t'
    assume "y \<in> set m" "acc_ok env H ev a t" "cache_step env H a targ ev req buf ttls cat hb ce y t = Some t'"
    moreover have "(imp, y) \<in> set (top_bids a)" using x im \<open>y \<in> set m\<close> by (force simp: top_bids_def)
    ultimately show "acc_ok env H ev a t'" using cache_step_ok by (metis prod.collapse)
  qed
qed

lemma record_ids_lookup:
  assumes "record_ids rename ids indices = Some m" and "lookup m q = Some u"
  shows "\<exists>i. (i, q) \<in> set indices \<and> i < length ids \<and> ids ! i \<noteq> [] \<and> u = rename (ids ! i)"
proof -
  let ?P = "\<lambda>m. \<forall>q u. lookup m q = Some u \<longrightarrow> (\<exists>i. (i, q) \<in> set indices \<and> i < length ids \<and> ids ! i \<noteq> [] \<and> u = rename (ids ! i))"
  have "?P m"
    using assms(1) unfolding record_ids_def
    by (rule fold_opt_invariant [where P = ?P]) (fastforce split: if_splits)+
  with assms(2) show ?thesis by blast
qed

text \<open>A loop over the top bids that finds every object, and indices the cache answered for.\<close>

lemma cache_step_total:
  "bid_at H p \<noteq> None \<Longrightarrow> \<exists>acc'. cache_step env H a targ ev req buf ttls cat hb ce (bidder, p) acc = Some acc'"
  by (auto simp: cache_step_def Let_def bid_at_def bid_ptr_def split: option.splits)

lemma fold_opt_defined:
  assumes "\<And>x s. x \<in> set xs \<Longrightarrow> \<exists>s'. f x s = Some s'"
  shows "\<exists>s'. fold_opt f xs s = Some s'"
  using assms
proof (induction xs arbitrary: s)
  case (Cons x xs)
  obtain t where "f x s = Some t" using Cons.prems [of x s] by auto
  with Cons show ?case by auto
qed simp

lemma cache_loop_total:
  assumes "\<And>imp b p. (imp, b, p) \<in> set (top_bids a) \<Longrightarrow> bid_at H p \<noteq> None"
  shows "\<exists>acc. fold_opt (\<lambda>(imp, m) acc. fold_opt (cache_step env H a targ ev req buf ttls cat hb ce) m acc)
     (winningBidsByBidder a) acc0 = Some acc"
proof (rule fold_opt_defined)
  fix x s
  assume x: "x \<in> set (winningBidsByBidder a)"
  obtain imp m where im: "x = (imp, m)" by (cases x)
  have "\<exists>s'. fold_opt (cache_step env H a targ ev req buf ttls cat hb ce) m s = Some s'"
  proof (rule fold_opt_defined)
    fix y t
    assume "y \<in> set m"
    obtain b p where y: "y = (b, p)" by (cases y)
    have "(imp, b, p) \<in> set (top_bids a)" using x im \<open>y \<in> set m\<close> by (auto simp: set_top_bids y)
    from cache_step_total [OF assms [OF this]] show "\<exists>s'. cache_step env H a targ ev req buf ttls cat hb ce y t = Some s'"
      by (simp add: y)
  qed
  then show "\<exists>s'. (case x of (imp, m) \<Rightarrow> fold_opt (cache_step env H a targ ev req buf ttls cat hb ce) m) s = Some s'"
    by (simp add: im)
qed

lemma record_ids_total:
  "\<forall>(i, q) \<in> set indices. i < length ids \<Longrightarrow> \<exists>m. record_ids rename ids indices = Some m"
  unfolding record_ids_def by (rule fold_opt_defined) auto

lemma acc_ok_empty: "acc_ok env H ev a \<lparr>ca_toCache = [], ca_bidIndices = [], ca_vastIndices = [], ca_errs = es\<rparr>"
  by (simp add: acc_ok_def)

lemma cache_loop_acc_ok: "cache_loop env H targ ev req buf ttls cat hb ce errs a = Some acc \<Longrightarrow> acc_ok env H ev a acc"
  unfolding cache_loop_def by (rule cache_loop_ok) (auto simp: acc_ok_empty)

text \<open>
  C23. An id that the auction keeps for a bid is the id of that bid. When caching succeeds, an id recorded
  for a bid is a non-empty id which the cache answered for a value that is the JSON of that very bid, a
  top bid, with the win URL of the event tracking added; an id recorded for the VAST of a bid comes from
  such an id for a value that is the VAST of that bid, which is a video bid: it is that id, or the UUID of the auction if competitive exclusion is on
  and the id ends with it.
\<close>

theorem cache_ids_are_of_their_bids:
  assumes "doCache env H targ ev req buf ttls cat dbg a = Some (a', dbg', errs)" and "caching targ"
  shows "\<exists>vals ids cerrs. ce_putJson env vals = Some (ids, cerrs) \<and>
    (includeCacheBids targ \<longrightarrow> (\<forall>q u. lookup (cacheIds a') q = Some u \<longrightarrow>
       (\<exists>i < length ids. ids ! i = u \<and> u \<noteq> [] \<and> i < length vals \<and> bid_entry env H ev a (vals ! i) q))) \<and>
    (includeCacheVast targ \<longrightarrow> (\<forall>q u. lookup (vastCacheIds a') q = Some u \<longrightarrow>
       (\<exists>i < length ids. ids ! i \<noteq> [] \<and> i < length vals \<and> vast_entry env H a (vals ! i) q \<and>
         u = (case ce_newUUID env of Some uuid \<Rightarrow> if cat \<noteq> [] \<and> has_suffix (ids ! i) uuid then uuid else ids ! i | None \<Rightarrow> ids ! i))))"
proof -
  obtain hb ce errs0 where key: "custom_key env cat = (hb, ce, errs0)" by (cases "custom_key env cat")
  from assms key obtain acc extra ids cerrs where
    loop: "cache_loop env H targ ev req buf ttls cat hb ce errs0 a = Some acc"
    and p: "ce_putJson env (ca_toCache acc @ extra) = Some (ids, cerrs)"
    and s: "set_ids targ hb ce ids acc a = Some a'"
    by (auto simp: doCache_def split: option.splits prod.splits)
  have ok: "acc_ok env H ev a acc" by (rule cache_loop_acc_ok [OF loop])
  let ?vals = "ca_toCache acc @ extra"
  have nth: "?vals ! i = ca_toCache acc ! i \<and> i < length ?vals" if "i < length (ca_toCache acc)" for i
    using that by (simp add: nth_append)
  have "\<exists>i < length ids. ids ! i = u \<and> u \<noteq> [] \<and> i < length ?vals \<and> bid_entry env H ev a (?vals ! i) q"
    if "includeCacheBids targ" "lookup (cacheIds a') q = Some u" for q u
  proof -
    from s that(1) obtain m where "record_ids (\<lambda>u. u) ids (ca_bidIndices acc) = Some m" "cacheIds a' = m"
      by (auto simp: set_ids_def split: option.splits)
    with that(2) record_ids_lookup obtain i where "(i, q) \<in> set (ca_bidIndices acc)" "i < length ids" "ids ! i \<noteq> []" "u = ids ! i"
      by metis
    with ok nth show ?thesis by (fastforce simp: acc_ok_def)
  qed
  moreover have "\<exists>i < length ids. ids ! i \<noteq> [] \<and> i < length ?vals \<and> vast_entry env H a (?vals ! i) q \<and>
      u = (case ce_newUUID env of Some uuid \<Rightarrow> if cat \<noteq> [] \<and> has_suffix (ids ! i) uuid then uuid else ids ! i | None \<Rightarrow> ids ! i)"
    if "includeCacheVast targ" "lookup (vastCacheIds a') q = Some u" for q u
  proof -
    let ?f = "\<lambda>u. if ce \<and> has_suffix u hb then hb else u"
    note look = that(2)
    from s that(1) obtain m where m: "record_ids ?f ids (ca_vastIndices acc) = Some m" "vastCacheIds a' = m"
      by (auto simp: set_ids_def split: option.splits)
    obtain i where i: "(i, q) \<in> set (ca_vastIndices acc)" "i < length ids" "ids ! i \<noteq> []" "u = ?f (ids ! i)"
      using record_ids_lookup [OF m(1), of q u] m(2) look by auto
    have u: "u = (case ce_newUUID env of Some uuid \<Rightarrow> if cat \<noteq> [] \<and> has_suffix (ids ! i) uuid then uuid else ids ! i | None \<Rightarrow> ids ! i)"
      using i(4) key by (auto simp: custom_key_def split: if_splits option.splits)
    have "i < length (ca_toCache acc)" "vast_entry env H a (ca_toCache acc ! i) q" using ok i(1) by (auto simp: acc_ok_def)
    with i(2,3) nth u show ?thesis by (intro exI [of _ i]) simp
  qed
  ultimately show ?thesis using p by blast
qed

definition example_env :: cache_env where
  "example_env = \<lparr>ce_marshalBid = (\<lambda>b. Inr (''bid:'' @ bid_ID b)), ce_marshalString = (\<lambda>s. Inr s), ce_patchWurl = (\<lambda>j u. Inr j),
     ce_newUUID = Some ''uuid'', ce_putJson = (\<lambda>vs. Some (map (\<lambda>v. ''id-'' @ Data v) vs, [])), ce_scrub = None\<rparr>"

definition example_targeting :: targetData where
  "example_targeting = \<lparr>priceGranularity = priceGranularityMed, includeWinners = True, includeBidderKeys = True,
     includeCacheBids = True, includeCacheVast = False, includeFormat = False, preferDeals = False, cacheHost = [], cachePath = []\<rparr>"

definition example_tracking :: eventTracking where
  "example_tracking = \<lparr>ev_accountID = ''acc'', ev_enabledForAccount = False, ev_enabledForRequest = False,
     ev_auctionTimestampMs = 0, ev_bidderInfos = [], ev_externalURL = ''http://x''\<rparr>"

definition example_imp_request :: BidRequest where
  "example_imp_request = \<lparr>req_ID = ''r'', req_Imp = [], req_Site = None, req_App = None, req_Device = None, req_User = None,
     req_Test = 0, req_TMax = 0, req_Cur = [], req_Source = None, req_Regs = None, req_Ext = RawEmpty, req_AT = 0, req_other = JNull\<rparr>"

definition example_ttls :: DefaultTTLs where
  "example_ttls = \<lparr>ttl_Banner = 300, ttl_Video = 3600, ttl_Native = 300, ttl_Audio = 3600\<rparr>"

definition example_auction :: auction where
  "example_auction = emptyAuction\<lparr>winningBids := [(''imp1'', 1)], winningBidsByBidder := [(''imp1'', [(''appnexus'', 1), (''pubmatic'', 2)])]\<rparr>"

theorem cache_ids_are_of_their_bids_witness:
  "\<exists>a' vals ids cerrs. doCache example_env example_store example_targeting example_tracking example_imp_request 60 example_ttls [] None
       example_auction = Some (a', None, []) \<and> lookup (cacheIds a') 1 = Some ''id-bid:b'' \<and>
     ce_putJson example_env vals = Some (ids, cerrs) \<and>
     (\<exists>i < length ids. ids ! i = ''id-bid:b'' \<and> bid_entry example_env example_store example_tracking example_auction (vals ! i) 1)"
proof -
  have "map_option (\<lambda>(a', d, e). (lookup (cacheIds a') 1, case d of None \<Rightarrow> True | Some _ \<Rightarrow> False, e))
      (doCache example_env example_store example_targeting example_tracking example_imp_request 60 example_ttls [] None example_auction)
    = Some (Some ''id-bid:b'', True, [])"
    by code_simp
  then obtain a' where d: "doCache example_env example_store example_targeting example_tracking example_imp_request 60 example_ttls [] None
      example_auction = Some (a', None, [])" and l: "lookup (cacheIds a') 1 = Some ''id-bid:b''"
    by (auto split: option.splits)
  have "caching example_targeting" "includeCacheBids example_targeting" by (simp_all add: caching_def example_targeting_def)
  with cache_ids_are_of_their_bids [OF d] l d show ?thesis by blast
qed

lemma doCache_total:
  assumes "\<And>imp b p. (imp, b, p) \<in> set (top_bids a) \<Longrightarrow> bid_at H p \<noteq> None"
    and "\<And>vals. \<exists>ids errs. ce_putJson env vals = Some (ids, errs) \<and> length ids = length vals"
  shows "\<exists>a' dbg' errs. doCache env H targ ev req buf ttls cat dbg a = Some (a', dbg', errs) \<and> winningBidsByBidder a' = winningBidsByBidder a"
proof -
  obtain hb ce errs where key: "custom_key env cat = (hb, ce, errs)" by (cases "custom_key env cat")
  obtain acc where loop: "cache_loop env H targ ev req buf ttls cat hb ce errs a = Some acc"
    unfolding cache_loop_def using cache_loop_total assms(1) by blast
  obtain dbg' extra where dbg: "debug_entry env hb (ca_toCache acc) dbg = (dbg', extra)"
    by (cases "debug_entry env hb (ca_toCache acc) dbg")
  obtain ids cerrs where put: "ce_putJson env (ca_toCache acc @ extra) = Some (ids, cerrs)"
    "length ids = length (ca_toCache acc @ extra)" using assms(2) by blast
  have "\<forall>(i, q) \<in> set (ca_bidIndices acc). i < length ids" "\<forall>(i, q) \<in> set (ca_vastIndices acc). i < length ids"
    using cache_loop_acc_ok [OF loop] put(2) by (auto simp: acc_ok_def)
  from record_ids_total [OF this(1)] record_ids_total [OF this(2)]
  have "\<exists>a'. set_ids targ hb ce ids acc a = Some a' \<and> winningBidsByBidder a' = winningBidsByBidder a"
    by (auto simp: set_ids_def split: option.splits) (metis option.distinct(1))+
  then show ?thesis by (auto simp: doCache_def key loop dbg put)
qed

text \<open>
  Caching never panics on an auction of existing bids, as long as the cache client answers with one
  id for each value, which is its contract.
\<close>

theorem doCache_no_panic:
  assumes "valid_seats H seats" and "newAuction H seats prefer = Some a"
    and "\<And>vals. \<exists>ids errs. ce_putJson env vals = Some (ids, errs) \<and> length ids = length vals"
  shows "doCache env H targ ev req buf ttls cat dbg a \<noteq> None"
  using doCache_total [of a H env targ ev req buf ttls cat dbg] newAuction_top_valid [OF assms(1,2)] assms(3) by (metis option.distinct(1))

theorem doCache_no_panic_witness:
  "\<exists>a. newAuction example_store example_seats False = Some a \<and>
     doCache example_env example_store example_targeting example_tracking example_imp_request 60 example_ttls [] None a \<noteq> None"
proof -
  obtain a where a: "newAuction example_store example_seats False = Some a"
    using newAuction_inv [OF example_valid] by blast
  have "\<exists>ids errs. ce_putJson example_env vals = Some (ids, errs) \<and> length ids = length vals" for vals
    by (simp add: example_env_def)
  from doCache_no_panic [OF example_valid a this] a show ?thesis by blast
qed

section \<open>Bounds on the time to live\<close>

definition ttl_base :: "int \<Rightarrow> int \<Rightarrow> int \<Rightarrow> int" where
  "ttl_base impTTL bidTTL dflt =
     (if impTTL > 0 \<and> bidTTL > 0 then min impTTL bidTTL else if max impTTL bidTTL > 0 then max impTTL bidTTL else max 0 dflt)"

text \<open>
  The time to live of a cached value is the shorter of the positive ones that the impression and
  the bid ask for, the default when neither does, extended by the buffer, and 0 when nothing is
  positive. It is never negative while the sum fits into 64 bits; beyond that it wraps around.
\<close>

theorem cacheTTL_value:
  assumes "is_int64 (ttl_base impTTL bidTTL dflt + buffer)" and "0 \<le> buffer"
  shows "cacheTTL impTTL bidTTL dflt buffer =
      (if ttl_base impTTL bidTTL dflt = 0 then 0 else ttl_base impTTL bidTTL dflt + buffer) \<and>
    0 \<le> cacheTTL impTTL bidTTL dflt buffer"
proof -
  have "cacheTTL impTTL bidTTL dflt buffer = addBuffer (ttl_base impTTL bidTTL dflt) buffer"
    by (auto simp: cacheTTL_def addBuffer_def ttl_base_def min_def max_def)
  moreover have "0 \<le> ttl_base impTTL bidTTL dflt" by (auto simp: ttl_base_def)
  ultimately show ?thesis using assms by (auto simp: addBuffer_def wrap64_id)
qed

theorem cacheTTL_value_witness: "cacheTTL 600 300 3600 60 = 360"
  using cacheTTL_value [of 600 300 3600 60] by (simp add: ttl_base_def is_int64_def)

end
