(* ===== verification/Targeting.thy ===== *)
theory Targeting
  imports Auction
begin

text \<open>
  \<open>exchange/targeting.go\<close>: the ad server keys of the top bids, and the key names of
  \<open>openrtb_ext/bid.go\<close>. The keys are written into the bid objects of the store.
\<close>

section \<open>Key names\<close>

definition HbpbConstantKey :: string where "HbpbConstantKey = ''hb_pb''"
definition HbEnvKey :: string where "HbEnvKey = ''hb_env''"
definition HbConstantCacheHostKey :: string where "HbConstantCacheHostKey = ''hb_cache_host''"
definition HbConstantCachePathKey :: string where "HbConstantCachePathKey = ''hb_cache_path''"
definition HbBidderConstantKey :: string where "HbBidderConstantKey = ''hb_bidder''"
definition HbSizeConstantKey :: string where "HbSizeConstantKey = ''hb_size''"
definition HbDealIDConstantKey :: string where "HbDealIDConstantKey = ''hb_deal''"
definition HbFormatKey :: string where "HbFormatKey = ''hb_format''"
definition HbCacheKey :: string where "HbCacheKey = ''hb_cache_id''"
definition HbVastCacheKey :: string where "HbVastCacheKey = ''hb_uuid''"
definition HbEnvKeyApp :: string where "HbEnvKeyApp = ''mobile-app''"
definition HbCategoryDurationKey :: string where "HbCategoryDurationKey = ''hb_pb_cat_dur''"

lemmas key_defs = HbpbConstantKey_def HbEnvKey_def HbConstantCacheHostKey_def HbConstantCachePathKey_def
  HbBidderConstantKey_def HbSizeConstantKey_def HbDealIDConstantKey_def HbFormatKey_def HbCacheKey_def
  HbVastCacheKey_def HbCategoryDurationKey_def

definition MaxKeyLength :: int where
  "MaxKeyLength = 20"

definition BidderKey :: "string \<Rightarrow> bidderName \<Rightarrow> int \<Rightarrow> string" where
  "BidderKey key bidder maxLength =
     (let s = key @ ''_'' @ bidder
      in if maxLength \<noteq> 0 then take (nat (min (int (length s)) maxLength)) s else s)"

definition makeHbSize :: "Bid \<Rightarrow> string" where
  "makeHbSize bid = (if bid_W bid \<noteq> 0 \<and> bid_H bid \<noteq> 0 then itoa (bid_W bid) @ ''x'' @ itoa (bid_H bid) else [])"

section \<open>Setting the keys\<close>

definition addKeys :: "targetData \<Rightarrow> string \<Rightarrow> string \<Rightarrow> bidderName \<Rightarrow> bool \<Rightarrow> (string, string) gomap \<Rightarrow> (string, string) gomap" where
  "addKeys targData key val bidder overallWinner keys =
     (let keys1 = (if includeBidderKeys targData then put (BidderKey key bidder MaxKeyLength) val keys else keys)
      in if includeWinners targData \<and> overallWinner then put key val keys1 else keys1)"

text \<open>The keys of one bid with their values, in the order in which the code adds them; None is not added.\<close>

definition target_table ::
  "targetData \<Rightarrow> auction \<Rightarrow> bool \<Rightarrow> (string, string) gomap \<Rightarrow> bidderName \<Rightarrow> ptr \<Rightarrow> ptr \<Rightarrow> string \<Rightarrow> Bid \<Rightarrow> (string \<times> string option) list" where
  "target_table targData auc isApp categoryMapping bidder p q bidType bid =
     [(HbpbConstantKey, lookup (roundedPrices auc) p),
      (HbBidderConstantKey, Some bidder),
      (HbSizeConstantKey, if makeHbSize bid \<noteq> [] then Some (makeHbSize bid) else None),
      (HbCacheKey, lookup (cacheIds auc) q),
      (HbVastCacheKey, lookup (vastCacheIds auc) q),
      (HbFormatKey, if includeFormat targData then Some bidType else None),
      (HbConstantCacheHostKey, if cacheHost targData \<noteq> [] then Some (cacheHost targData) else None),
      (HbConstantCachePathKey, if cachePath targData \<noteq> [] then Some (cachePath targData) else None),
      (HbDealIDConstantKey, if bid_DealID bid \<noteq> [] then Some (bid_DealID bid) else None),
      (HbEnvKey, if isApp then Some HbEnvKeyApp else None),
      (HbCategoryDurationKey, if categoryMapping \<noteq> []
         then Some (case lookup categoryMapping (bid_ID bid) of None \<Rightarrow> [] | Some c \<Rightarrow> c) else None)]"

fun present :: "(string \<times> string option) list \<Rightarrow> (string \<times> string) list" where
  "present [] = []"
| "present ((k, None) # t) = present t"
| "present ((k, Some v) # t) = (k, v) # present t"

definition bid_targets ::
  "targetData \<Rightarrow> auction \<Rightarrow> bool \<Rightarrow> (string, string) gomap \<Rightarrow> bidderName \<Rightarrow> bool \<Rightarrow> ptr \<Rightarrow> ptr \<Rightarrow> string \<Rightarrow> Bid \<Rightarrow> (string, string) gomap" where
  "bid_targets targData auc isApp categoryMapping bidder isOverallWinner p q bidType bid =
     fold (\<lambda>(key, val). addKeys targData key val bidder isOverallWinner)
       (present (target_table targData auc isApp categoryMapping bidder p q bidType bid)) []"

definition target_step ::
  "targetData \<Rightarrow> auction \<Rightarrow> bool \<Rightarrow> (string, string) gomap \<Rightarrow> string \<Rightarrow> bidderName \<times> ptr \<Rightarrow> store \<Rightarrow> store option" where
  "target_step targData auc isApp categoryMapping impId bp H = (case bp of (bidder, p) \<Rightarrow>
     (case (st_pbs H p, bid_ptr H p, bid_at H p) of
        (Some pb, Some q, Some bid) \<Rightarrow>
          Some (H\<lparr>st_pbs := (st_pbs H)(p \<mapsto> pb\<lparr>pb_bidTargets :=
            bid_targets targData auc isApp categoryMapping bidder (lookup (winningBids auc) impId = Some p) p q (pb_bidType pb) bid\<rparr>)\<rparr>)
      | _ \<Rightarrow> None))"

definition setTargeting :: "targetData \<Rightarrow> auction \<Rightarrow> bool \<Rightarrow> (string, string) gomap \<Rightarrow> store \<Rightarrow> store option" where
  "setTargeting targData auc isApp categoryMapping =
     fold_opt (\<lambda>(impId, m). fold_opt (target_step targData auc isApp categoryMapping impId) m) (winningBidsByBidder auc)"

section \<open>Keys do not overwrite each other\<close>

definition target_keys :: "string list" where
  "target_keys = [''hb_pb'', ''hb_bidder'', ''hb_size'', ''hb_cache_id'', ''hb_uuid'', ''hb_format'', ''hb_cache_host'',
     ''hb_cache_path'', ''hb_deal'', ''hb_env'', ''hb_pb_cat_dur'']"

lemma BidderKey_take: "BidderKey key bidder MaxKeyLength = take 20 (key @ ''_'' @ bidder)"
proof (cases "int (length (key @ ''_'' @ bidder)) \<le> 20")
  case True
  then show ?thesis by (simp add: BidderKey_def MaxKeyLength_def)
next
  case False
  then have "min (int (length (key @ ''_'' @ bidder))) 20 = 20" by simp
  then show ?thesis by (simp add: BidderKey_def MaxKeyLength_def Let_def)
qed

lemma BidderKey_length: "length (BidderKey key bidder MaxKeyLength) \<le> 20"
  by (simp add: BidderKey_take)

text \<open>Two strings of which none is a prefix of the other stay different when something is appended.\<close>

lemma take_differ:
  assumes "\<not> has_prefix y x" and "\<not> has_prefix x y" and "length x \<le> n" and "length y \<le> n"
  shows "take n (x @ b) \<noteq> take n (y @ c)"
proof
  assume eq: "take n (x @ b) = take n (y @ c)"
  have "has_prefix y' x'" if "length x' \<le> length y'" "take n (x' @ b') = take n (y' @ c')" "length y' \<le> n" for x' y' b' c'
  proof -
    have "x' = take (length x') (take n (x' @ b'))" using that(1,3) by simp
    also have "\<dots> = take (length x') (take n (y' @ c'))" by (simp only: that(2))
    also have "\<dots> = take (length x') y'" using that(1,3) by (simp add: min_def)
    finally have "take (length x') y' = x'" by simp
    then show ?thesis by (simp add: has_prefix_def)
  qed
  from this [of x y b c] this [of y x c b] eq assms show False
    by (cases "length x \<le> length y") auto
qed

text \<open>A bidder whose name starts with \<open>cat_dur\<close> would mix up \<open>hb_pb\<close> and \<open>hb_pb_cat_dur\<close>.\<close>

lemma cat_dur_prefix:
  assumes "take 20 (''hb_pb_'' @ b) = ''hb_pb_cat_dur'' @ c"
  shows "has_prefix b ''cat_dur''"
proof -
  have "take 7 (drop 6 (take 20 (''hb_pb_'' @ b))) = ''cat_dur''" unfolding assms by simp
  then have "take 7 b = ''cat_dur''" by simp
  then show ?thesis by (simp add: has_prefix_def numeral_eq_Suc)
qed

lemma keys_apart:
  "\<forall>k \<in> set target_keys. \<forall>k' \<in> set target_keys. k = k' \<or> {k, k'} = {''hb_pb'', ''hb_pb_cat_dur''}
     \<or> \<not> has_prefix (k @ ''_'') (k' @ ''_'') \<and> \<not> has_prefix (k' @ ''_'') (k @ ''_'')"
  "\<forall>k \<in> set target_keys. \<forall>k' \<in> set target_keys. has_prefix k' (k @ ''_'') \<longrightarrow> k = ''hb_pb'' \<and> k' = ''hb_pb_cat_dur''"
  "\<forall>k \<in> set target_keys. length (k @ ''_'') \<le> 20"
  by code_simp+

lemma bidder_keys_differ:
  assumes k: "k \<in> set target_keys" "k' \<in> set target_keys" and "k \<noteq> k'" and b: "\<not> has_prefix b ''cat_dur''"
  shows "take 20 (k @ ''_'' @ b) \<noteq> take 20 (k' @ ''_'' @ b)"
proof (cases "{k, k'} = {''hb_pb'', ''hb_pb_cat_dur''}")
  case False
  with assms keys_apart(1) have "\<not> has_prefix (k @ ''_'') (k' @ ''_'')" "\<not> has_prefix (k' @ ''_'') (k @ ''_'')" by blast+
  moreover have "length (k @ ''_'') \<le> 20" "length (k' @ ''_'') \<le> 20" using keys_apart(3) k by blast+
  ultimately show ?thesis using take_differ [of "k' @ ''_''" "k @ ''_''" 20 b b] by simp
next
  case True
  have "take 20 (''hb_pb_'' @ b) \<noteq> take 20 (''hb_pb_cat_dur_'' @ b)"
    using b cat_dur_prefix [of b "CHR ''_'' # take 6 b"] by auto
  with True show ?thesis by (auto simp: doubleton_eq_iff)
qed

lemma bare_keys_differ:
  assumes "k \<in> set target_keys" and "k' \<in> set target_keys" and b: "\<not> has_prefix b ''cat_dur''"
  shows "take 20 (k @ ''_'' @ b) \<noteq> k'"
proof
  assume eq: "take 20 (k @ ''_'' @ b) = k'"
  have "length (k @ ''_'') \<le> 20" using keys_apart(3) assms(1) by blast
  then have "take (length (k @ ''_'')) k' = k @ ''_''" unfolding eq [symmetric] by (simp add: min_def)
  then have "has_prefix k' (k @ ''_'')" by (simp add: has_prefix_def)
  with assms keys_apart(2) have "k = ''hb_pb''" "k' = ''hb_pb_cat_dur''" by blast+
  with eq b cat_dur_prefix [of b "[]"] show False by simp
qed

lemma present_keys: "fst ` set (present t) \<subseteq> fst ` set t"
  by (induction t rule: present.induct) auto

lemma present_distinct: "distinct (map fst t) \<Longrightarrow> distinct (map fst (present t))"
proof (induction t rule: present.induct)
  case (3 k v t)
  with present_keys [of t] show ?case by auto
qed auto

lemma lookup_present: "distinct (map fst t) \<Longrightarrow> map_of (present t) k = (case map_of t k of None \<Rightarrow> None | Some v \<Rightarrow> v)"
proof (induction t rule: present.induct)
  case (2 k' t)
  then have "map_of t k' = None" by (simp add: map_of_eq_None_iff)
  with 2 show ?case by auto
qed auto

lemma target_table_keys: "map fst (target_table td a isApp cat b p q ty bid) = target_keys"
  by (simp add: target_table_def target_keys_def key_defs)

lemma target_keys_distinct: "distinct target_keys"
  by code_simp

text \<open>The writes of a list of entries, in order.\<close>

definition key_list :: "targetData \<Rightarrow> bidderName \<Rightarrow> bool \<Rightarrow> (string \<times> string) list \<Rightarrow> (string \<times> string) list" where
  "key_list td b w es = concat (map (\<lambda>(k, v). (if includeBidderKeys td then [(take 20 (k @ ''_'' @ b), v)] else [])
                     @ (if includeWinners td \<and> w then [(k, v)] else [])) es)"

lemma set_key_list:
  "(x, v) \<in> set (key_list td b w es) \<longleftrightarrow>
     (\<exists>k. (k, v) \<in> set es \<and> (includeBidderKeys td \<and> x = take 20 (k @ ''_'' @ b) \<or> includeWinners td \<and> w \<and> x = k))"
  by (auto simp: key_list_def split: if_splits)

lemma fold_addKeys: "fold (\<lambda>(k, v). addKeys td k v b w) es acc = fold (\<lambda>(k, v). put k v) (key_list td b w es) acc"
  by (induction es arbitrary: acc) (auto simp: key_list_def addKeys_def BidderKey_take)

lemma lookup_fold_puts:
  "distinct (map fst kvs) \<Longrightarrow> lookup (fold (\<lambda>(k, v). put k v) kvs acc) x = (case map_of kvs x of Some v \<Rightarrow> Some v | None \<Rightarrow> lookup acc x)"
proof (induction kvs arbitrary: acc)
  case (Cons kv kvs)
  obtain k v where kv: "kv = (k, v)" by (cases kv)
  from Cons.prems have "map_of kvs k = None" by (simp add: kv map_of_eq_None_iff)
  with Cons show ?case by (auto simp: kv split: option.splits)
qed simp

lemma key_list_distinct:
  assumes "\<not> has_prefix b ''cat_dur''" and "fst ` set es \<subseteq> set target_keys" and "distinct (map fst es)"
  shows "distinct (map fst (key_list td b w es))"
  using assms(2,3)
proof (induction es)
  case Nil
  then show ?case by (simp add: key_list_def)
next
  case (Cons e es)
  obtain k v where e: "e = (k, v)" by (cases e)
  have k: "k \<in> set target_keys" using Cons.prems(1) by (simp add: e)
  let ?b = "take 20 (k @ ''_'' @ b)"
  have rest: "\<exists>k' \<in> set target_keys. k' \<noteq> k \<and> (y = take 20 (k' @ ''_'' @ b) \<or> y = k')" if "y \<in> fst ` set (key_list td b w es)" for y
  proof -
    from that obtain k' v' where "(k', v') \<in> set es" "y = take 20 (k' @ ''_'' @ b) \<or> y = k'" by (auto simp: set_key_list)
    moreover from this(1) Cons.prems have "k' \<in> set target_keys" "k' \<noteq> k" by (auto simp: e image_iff)
    ultimately show ?thesis by blast
  qed
  have "?b \<notin> fst ` set (key_list td b w es)"
  proof
    assume "?b \<in> fst ` set (key_list td b w es)"
    from rest [OF this] obtain k' where k': "k' \<in> set target_keys" "k' \<noteq> k" "?b = take 20 (k' @ ''_'' @ b) \<or> ?b = k'" by blast
    from k'(3) bidder_keys_differ [OF k k'(1) k'(2) [symmetric] assms(1)] bare_keys_differ [OF k k'(1) assms(1)] show False by blast
  qed
  moreover have "k \<notin> fst ` set (key_list td b w es)"
  proof
    assume "k \<in> fst ` set (key_list td b w es)"
    from rest [OF this] obtain k' where k': "k' \<in> set target_keys" "k = take 20 (k' @ ''_'' @ b)" by blast
    from bare_keys_differ [OF k'(1) k assms(1)] k'(2) show False by simp
  qed
  moreover have "?b \<noteq> k" by (rule bare_keys_differ [OF k k assms(1)])
  moreover have "distinct (map fst (key_list td b w es))" using Cons by (simp add: e)
  moreover have "key_list td b w (e # es) = (if includeBidderKeys td then [(?b, v)] else [])
      @ (if includeWinners td \<and> w then [(k, v)] else []) @ key_list td b w es"
    by (simp add: key_list_def e)
  ultimately show ?case
    by (cases "includeBidderKeys td"; cases "includeWinners td \<and> w") (simp_all del: take_append)
qed

section \<open>The loop over the top bids\<close>

definition targets_at :: "targetData \<Rightarrow> auction \<Rightarrow> bool \<Rightarrow> (string, string) gomap \<Rightarrow> store \<Rightarrow> string \<Rightarrow> bidderName \<Rightarrow> ptr \<Rightarrow> (string, string) gomap" where
  "targets_at td a isApp cat H imp b p = bid_targets td a isApp cat b (lookup (winningBids a) imp = Some p) p
     (the (bid_ptr H p)) (pb_bidType (the (st_pbs H p))) (the (bid_at H p))"

definition targeted :: "targetData \<Rightarrow> auction \<Rightarrow> bool \<Rightarrow> (string, string) gomap \<Rightarrow> store \<Rightarrow> (string \<times> bidderName \<times> ptr) list \<Rightarrow> store \<Rightarrow> bool" where
  "targeted td a isApp cat H ts H' =
     (st_bid H' = st_bid H \<and>
      (\<forall>(imp, b, p) \<in> set ts. st_pbs H' p = Some ((the (st_pbs H p))\<lparr>pb_bidTargets := targets_at td a isApp cat H imp b p\<rparr>)) \<and>
      (\<forall>p. p \<notin> snd ` snd ` set ts \<longrightarrow> st_pbs H' p = st_pbs H p))"

lemma targeted_reads:
  assumes "targeted td a isApp cat H ts H'" and "bid_at H p \<noteq> None"
  shows "\<exists>t. st_pbs H' p = Some ((the (st_pbs H p))\<lparr>pb_bidTargets := t\<rparr>)" and "bid_ptr H' p = bid_ptr H p" and "bid_at H' p = bid_at H p"
proof -
  from assms(2) obtain pb where pb: "st_pbs H p = Some pb" by (auto simp: bid_at_def bid_ptr_def split: option.splits)
  show st: "\<exists>t. st_pbs H' p = Some ((the (st_pbs H p))\<lparr>pb_bidTargets := t\<rparr>)"
  proof (cases "p \<in> snd ` snd ` set ts")
    case True
    then obtain imp b where "(imp, b, p) \<in> set ts" by force
    with assms(1) show ?thesis unfolding targeted_def by blast
  next
    case False
    with assms(1) pb have "st_pbs H' p = Some (pb\<lparr>pb_bidTargets := pb_bidTargets pb\<rparr>)" by (simp add: targeted_def)
    with pb show ?thesis by (metis option.sel)
  qed
  with pb show ptr: "bid_ptr H' p = bid_ptr H p" by (auto simp: bid_ptr_def)
  from assms(1) have "st_bid H' = st_bid H" by (simp add: targeted_def)
  with ptr show "bid_at H' p = bid_at H p" by (simp add: bid_at_def split: option.split)
qed

lemma target_step_targeted:
  assumes T: "targeted td a isApp cat H ts H'" and v: "bid_at H p \<noteq> None"
    and own: "\<And>imp' b'. (imp', b', p) \<in> set ts \<Longrightarrow> imp' = imp \<and> b' = b"
  shows "\<exists>H''. target_step td a isApp cat imp (b, p) H' = Some H'' \<and> targeted td a isApp cat H (ts @ [(imp, b, p)]) H''"
proof -
  from targeted_reads [OF T v] obtain t where pb: "st_pbs H' p = Some ((the (st_pbs H p))\<lparr>pb_bidTargets := t\<rparr>)"
    and ptr: "bid_ptr H' p = bid_ptr H p" "bid_at H' p = bid_at H p" by blast
  from v obtain q bd where q: "bid_ptr H p = Some q" "bid_at H p = Some bd" by (auto simp: bid_at_def split: option.splits)
  let ?H = "H'\<lparr>st_pbs := (st_pbs H')(p \<mapsto> (the (st_pbs H p))\<lparr>pb_bidTargets := targets_at td a isApp cat H imp b p\<rparr>)\<rparr>"
  have "target_step td a isApp cat imp (b, p) H' = Some ?H"
    by (simp add: target_step_def pb ptr q targets_at_def)
  moreover have "targeted td a isApp cat H (ts @ [(imp, b, p)]) ?H"
    using T own by (fastforce simp: targeted_def)
  ultimately show ?thesis by blast
qed

lemma target_loop:
  assumes "\<And>imp b p. (imp, b, p) \<in> set ts \<Longrightarrow> bid_at H p \<noteq> None"
    and "\<And>imp b imp' b' p. (imp, b, p) \<in> set ts \<Longrightarrow> (imp', b', p) \<in> set ts \<Longrightarrow> imp' = imp \<and> b' = b"
  shows "\<exists>H'. fold_opt (\<lambda>(imp, b, p). target_step td a isApp cat imp (b, p)) ts H = Some H' \<and> targeted td a isApp cat H ts H'"
  using assms
proof (induction ts rule: rev_induct)
  case Nil
  show ?case by (simp add: targeted_def)
next
  case (snoc x ts)
  obtain imp b p where x: "x = (imp, b, p)" by (cases x)
  have "\<exists>H'. fold_opt (\<lambda>(imp, b, p). target_step td a isApp cat imp (b, p)) ts H = Some H' \<and> targeted td a isApp cat H ts H'"
    by (rule snoc.IH) (use snoc.prems in \<open>simp, metis Un_iff set_append\<close>)+
  then obtain H' where H': "fold_opt (\<lambda>(imp, b, p). target_step td a isApp cat imp (b, p)) ts H = Some H'" "targeted td a isApp cat H ts H'" by blast
  have "bid_at H p \<noteq> None" using snoc.prems(1) [of imp b p] by (simp add: x)
  moreover have "imp' = imp \<and> b' = b" if "(imp', b', p) \<in> set ts" for imp' b'
    using snoc.prems(2) [of imp b p imp' b'] that by (simp add: x)
  ultimately show ?case
    using target_step_targeted [OF H'(2), of p imp b] H'(1) by (auto simp: fold_opt_append x)
qed

lemma setTargeting_flat:
  "setTargeting td a isApp cat H = fold_opt (\<lambda>(imp, b, p). target_step td a isApp cat imp (b, p)) (top_bids a) H"
proof -
  have inner: "fold_opt (\<lambda>(x, y). target_step td a isApp cat x y) (map (Pair imp) m) H
      = fold_opt (target_step td a isApp cat imp) m H" for imp m H
    by (induction m arbitrary: H) (auto split: option.splits)
  have "fold_opt (\<lambda>(impId, m). fold_opt (target_step td a isApp cat impId) m) tbl H =
      fold_opt (\<lambda>(imp, b, p). target_step td a isApp cat imp (b, p)) (concat (map (\<lambda>(imp, m). map (\<lambda>(b, p). (imp, b, p)) m) tbl)) H" for tbl H
    by (induction tbl arbitrary: H) (auto simp: fold_opt_append inner split: option.splits)
  then show ?thesis by (simp add: setTargeting_def top_bids_def)
qed

lemma targets_at_lookup:
  assumes "\<not> has_prefix b ''cat_dur''"
    and "tbl = target_table td a isApp cat b p (the (bid_ptr H p)) (pb_bidType (the (st_pbs H p))) (the (bid_at H p))"
  shows "lookup (targets_at td a isApp cat H imp b p) x = Some v \<longleftrightarrow>
     (\<exists>k. map_of tbl k = Some (Some v) \<and>
        (includeBidderKeys td \<and> x = take 20 (k @ ''_'' @ b) \<or> includeWinners td \<and> lookup (winningBids a) imp = Some p \<and> x = k))"
proof -
  have keys: "map fst tbl = target_keys" unfolding assms(2) by (rule target_table_keys)
  then have dt: "distinct (map fst tbl)" by (simp add: target_keys_distinct)
  have "fst ` set (present tbl) \<subseteq> set target_keys" using present_keys [of tbl] keys by (metis list.set_map)
  moreover have d: "distinct (map fst (present tbl))" by (rule present_distinct [OF dt])
  ultimately have dk: "distinct (map fst (key_list td b (lookup (winningBids a) imp = Some p) (present tbl)))"
    by (rule key_list_distinct [OF assms(1)])
  have "lookup (targets_at td a isApp cat H imp b p) x = map_of (key_list td b (lookup (winningBids a) imp = Some p) (present tbl)) x"
    unfolding targets_at_def bid_targets_def assms(2) [symmetric] fold_addKeys lookup_fold_puts [OF dk] by (simp split: option.split)
  also have "\<dots> = Some v \<longleftrightarrow> (x, v) \<in> set (key_list td b (lookup (winningBids a) imp = Some p) (present tbl))"
    using dk by (rule map_of_eq_Some_iff)
  also have "\<dots> \<longleftrightarrow> (\<exists>k. map_of (present tbl) k = Some v \<and>
        (includeBidderKeys td \<and> x = take 20 (k @ ''_'' @ b) \<or> includeWinners td \<and> lookup (winningBids a) imp = Some p \<and> x = k))"
    unfolding set_key_list map_of_eq_Some_iff [OF d] by blast
  also have "\<dots> \<longleftrightarrow> (\<exists>k. map_of tbl k = Some (Some v) \<and>
        (includeBidderKeys td \<and> x = take 20 (k @ ''_'' @ b) \<or> includeWinners td \<and> lookup (winningBids a) imp = Some p \<and> x = k))"
  proof -
    have "map_of (present tbl) k = Some v \<longleftrightarrow> map_of tbl k = Some (Some v)" for k
      using lookup_present [OF dt, of k] by (simp split: option.splits)
    then show ?thesis by blast
  qed
  finally show ?thesis .
qed

text \<open>
  C28. The ad server keys of the top bids. Given the tables of an auction of existing bids none of which is
  shared by two bidders, the keys are set without a panic and change nothing else of the bids; for
  the top bid \<open>p\<close> of a bidder on an impression, its keys are exactly: every key of its table (price
  bucket, bidder, size, cache ids, ...) under the bidder's own name of the key when bidder keys are
  included, and under the plain name when winners are included and \<open>p\<close> is the overall winner of the
  impression. No key overwrites another, although the bidder's names are cut to 20 characters,
  unless the bidder is called \<open>cat_dur...\<close>.
\<close>

theorem top_bid_targeting:
  assumes "valid_seats H seats" and "newAuction H seats prefer = Some a0"
    and "\<forall>b b' p. (b, p) \<in> set (all_bids seats) \<and> (b', p) \<in> set (all_bids seats) \<longrightarrow> b = b'"
    and "a = a0\<lparr>roundedPrices := rp, cacheIds := cids, vastCacheIds := vids\<rparr>"
    and "top_of a imp b = Some p" and "\<not> has_prefix b ''cat_dur''"
  shows "\<exists>H' pb. setTargeting td a isApp cat H = Some H' \<and> st_bid H' = st_bid H \<and> st_pbs H p = Some pb \<and>
     (\<exists>targets. st_pbs H' p = Some (pb\<lparr>pb_bidTargets := targets\<rparr>) \<and>
      (\<forall>x v. lookup targets x = Some v \<longleftrightarrow>
         (\<exists>k. map_of (target_table td a isApp cat b p (the (bid_ptr H p)) (pb_bidType pb) (the (bid_at H p))) k = Some (Some v) \<and>
            (includeBidderKeys td \<and> x = take 20 (k @ ''_'' @ b) \<or>
             includeWinners td \<and> lookup (winningBids a) imp = Some p \<and> x = k))))"
proof -
  have tops: "top_bids a = top_bids a0" "\<And>i c. top_of a i c = top_of a0 i c"
    by (simp_all add: assms(4) top_bids_def top_of_def)
  have wf: "tables_wf a0" by (rule newAuction_wf [OF assms(2)])
  have inv: "auction_inv H prefer (all_bids seats) a0"
    using newAuction_inv [OF assms(1), of "prefer"] assms(2) by (metis option.inject)
  have valid: "bid_at H p' \<noteq> None" if "(i, c, p') \<in> set (top_bids a)" for i c p'
    using newAuction_top_valid [OF assms(1,2)] that tops by simp
  have own: "i' = i \<and> c' = c" if "(i, c, p') \<in> set (top_bids a)" "(i', c', p') \<in> set (top_bids a)" for i c i' c' p'
  proof -
    have "p' \<in> bids_by H (all_bids seats) i c" "p' \<in> bids_by H (all_bids seats) i' c'"
      using that tops wf by (auto simp: top_bids_iff intro: auction_inv_top [OF inv])
    with assms(3) show ?thesis by (auto simp: bids_by_def)
  qed
  have "\<exists>H'. setTargeting td a isApp cat H = Some H' \<and> targeted td a isApp cat H (top_bids a) H'"
    unfolding setTargeting_flat by (rule target_loop) (erule valid, erule (1) own)
  then obtain H' where H': "setTargeting td a isApp cat H = Some H'" "targeted td a isApp cat H (top_bids a) H'" by blast
  have mem: "(imp, b, p) \<in> set (top_bids a)" using assms(5) tops wf by (simp add: top_bids_iff)
  then obtain pb where pb: "st_pbs H p = Some pb"
    using valid by (fastforce simp: bid_at_def bid_ptr_def split: option.splits)
  let ?tbl = "target_table td a isApp cat b p (the (bid_ptr H p)) (pb_bidType pb) (the (bid_at H p))"
  let ?t = "targets_at td a isApp cat H imp b p"
  have "st_pbs H' p = Some (pb\<lparr>pb_bidTargets := ?t\<rparr>)" "st_bid H' = st_bid H"
    using H'(2) mem pb by (auto simp: targeted_def)
  moreover have "lookup ?t x = Some v \<longleftrightarrow> (\<exists>k. map_of ?tbl k = Some (Some v) \<and>
      (includeBidderKeys td \<and> x = take 20 (k @ ''_'' @ b) \<or> includeWinners td \<and> lookup (winningBids a) imp = Some p \<and> x = k))" for x v
    using targets_at_lookup [OF assms(6), of ?tbl td a isApp cat p H imp x v] pb by simp
  ultimately show ?thesis using H'(1) pb by blast
qed

theorem top_bid_targeting_witness:
  "\<exists>a H' pb'. newAuction example_store example_seats False = Some a \<and>
     setTargeting example_targeting a True [] example_store = Some H' \<and> st_pbs H' 1 = Some pb' \<and>
     lookup (pb_bidTargets pb') ''hb_bidder'' = Some ''appnexus'' \<and> lookup (pb_bidTargets pb') ''hb_bidder_appnexus'' = Some ''appnexus''"
proof -
  have "map_option (\<lambda>a. (top_of a ''imp1'' ''appnexus'', lookup (winningBids a) ''imp1'')) (newAuction example_store example_seats False)
      = Some (Some 1, Some 1)" by code_simp
  then obtain a where a: "newAuction example_store example_seats False = Some a" and t: "top_of a ''imp1'' ''appnexus'' = Some 1"
    and w: "lookup (winningBids a) ''imp1'' = Some 1" by auto
  have own: "\<forall>b b' p. (b, p) \<in> set (all_bids example_seats) \<and> (b', p) \<in> set (all_bids example_seats) \<longrightarrow> b = b'"
    by (auto simp: example_seats_def seat_bids_def)
  have self: "a = a\<lparr>roundedPrices := roundedPrices a, cacheIds := cacheIds a, vastCacheIds := vastCacheIds a\<rparr>" by simp
  have np: "\<not> has_prefix ''appnexus'' ''cat_dur''" by code_simp
  from top_bid_targeting [where td = example_targeting and isApp = True and cat = "[]", OF example_valid a own self t np]
  obtain H' pb targets where
    H': "setTargeting example_targeting a True [] example_store = Some H'" "st_pbs H' 1 = Some (pb\<lparr>pb_bidTargets := targets\<rparr>)"
    and l: "\<And>x v. lookup targets x = Some v \<longleftrightarrow>
         (\<exists>k. map_of (target_table example_targeting a True [] ''appnexus'' 1 (the (bid_ptr example_store 1)) (pb_bidType pb) (the (bid_at example_store 1))) k = Some (Some v) \<and>
            (includeBidderKeys example_targeting \<and> x = take 20 (k @ ''_'' @ ''appnexus'') \<or>
             includeWinners example_targeting \<and> lookup (winningBids a) ''imp1'' = Some 1 \<and> x = k))"
    by blast
  have "includeBidderKeys example_targeting" "includeWinners example_targeting" by (simp_all add: example_targeting_def)
  moreover have "map_of (target_table example_targeting a True [] ''appnexus'' 1 q ty bd) ''hb_bidder'' = Some (Some ''appnexus'')" for q ty bd
    by (simp add: target_table_def key_defs)
  ultimately have "lookup targets ''hb_bidder'' = Some ''appnexus''" "lookup targets ''hb_bidder_appnexus'' = Some ''appnexus''"
    unfolding l using w by (intro exI [of _ "''hb_bidder''"]; simp del: One_nat_def)+
  with a H' show ?thesis by force
qed

end
