(* ===== verification/Response.thy ===== *)
theory Response
  imports Targeting Ext_Encoding Imp_Split
begin

text \<open>
  The response of an auction: deal tiers (\<open>applyDealSupport\<close> of \<open>exchange/exchange.go\<close>, \<open>openrtb_ext/deal_tier.go\<close>),
  the instructions of the request extension (\<open>exchange/utils.go\<close>), the bids and seats with their extensions, and the extension
  of the response. Bids are pointers into the store; None is a panic. Parameters are the escaping of URL paths and
  the JSON form of the request that is shown for debugging.
\<close>

section \<open>Instructions of the request\<close>

text \<open>The extension of the request: an error, or the extension, None for the nil pointer that a JSON null leaves.\<close>

definition extractBidRequestExt :: "BidRequest \<Rightarrow> go_error + ExtRequestPrebid option" where
  "extractBidRequestExt req = (case req_Ext req of
     RawEmpty \<Rightarrow> Inr (Some zeroPrebid)
   | Raw JNull \<Rightarrow> Inr None
   | r \<Rightarrow> (case unmarshal dec_ExtRequest r zeroPrebid of
       None \<Rightarrow> Inl (OtherError ''Error decoding Request.ext : '')
     | Some x \<Rightarrow> Inr (Some x)))"

record extCacheInstructions =
  ei_cacheBids :: bool
  ei_cacheVAST :: bool
  ei_returnCreative :: bool

definition getExtCacheInstructions :: "ExtRequestPrebid option \<Rightarrow> extCacheInstructions" where
  "getExtCacheInstructions requestExt =
     (case Option.bind requestExt xp_Cache of
        None \<Rightarrow> \<lparr>ei_cacheBids = False, ei_cacheVAST = False, ei_returnCreative = True\<rparr>
      | Some c \<Rightarrow>
          (let bidsRC = Option.bind (pc_Bids c) ci_ReturnCreative; vastRC = Option.bind (pc_VastXML c) ci_ReturnCreative
           in \<lparr>ei_cacheBids = (pc_Bids c \<noteq> None), ei_cacheVAST = (pc_VastXML c \<noteq> None),
               ei_returnCreative = (case (bidsRC, vastRC) of
                  (Some b, Some v) \<Rightarrow> b \<or> v | (Some b, None) \<Rightarrow> b | (None, Some v) \<Rightarrow> v | (None, None) \<Rightarrow> True)\<rparr>))"

definition getExtTargetData :: "ExtRequestPrebid option \<Rightarrow> extCacheInstructions \<Rightarrow> targetData option" where
  "getExtTargetData requestExt i = map_option (\<lambda>t.
     \<lparr>priceGranularity = tg_PriceGranularity t, includeWinners = tg_IncludeWinners t, includeBidderKeys = tg_IncludeBidderKeys t,
      includeCacheBids = ei_cacheBids i, includeCacheVast = ei_cacheVAST i, includeFormat = tg_IncludeFormat t,
      preferDeals = tg_PreferDeals t, cacheHost = [], cachePath = []\<rparr>) (Option.bind requestExt xp_Targeting)"

definition getDebugInfo :: "BidRequest \<Rightarrow> ExtRequestPrebid option \<Rightarrow> bool" where
  "getDebugInfo req requestExt = (req_Test req = 1 \<or> (case requestExt of Some x \<Rightarrow> xp_Debug x | None \<Rightarrow> False))"

definition getExtBidAdjustmentFactors :: "ExtRequestPrebid option \<Rightarrow> (string, float64) gomap" where
  "getExtBidAdjustmentFactors requestExt = (case requestExt of Some x \<Rightarrow> xp_BidAdjustmentFactors x | None \<Rightarrow> [])"

section \<open>Deal tiers\<close>

record DealTier =
  dt_Prefix :: string
  dt_MinDealTier :: int

definition zeroDealTier :: DealTier where
  "zeroDealTier = \<lparr>dt_Prefix = [], dt_MinDealTier = 0\<rparr>"

definition dec_DealTier :: "DealTier decoder" where
  "dec_DealTier = dec_struct [field ''prefix'' dec_string dt_Prefix (\<lambda>v r. r\<lparr>dt_Prefix := v\<rparr>),
     field ''minDealTier'' dec_int dt_MinDealTier (\<lambda>v r. r\<lparr>dt_MinDealTier := v\<rparr>)]"

text \<open>An object of which only the tier is read, and a map of such objects.\<close>

definition dec_dealParams :: "DealTier option decoder" where
  "dec_dealParams = dec_struct [field ''dealTier'' (dec_ptr dec_DealTier zeroDealTier) (\<lambda>r. r) (\<lambda>v r. v)]"

definition add_tiers :: "(bidderName, DealTier option) gomap \<Rightarrow> (bidderName, DealTier) gomap \<Rightarrow> (bidderName, DealTier) gomap" where
  "add_tiers params tiers = fold (\<lambda>(b, t) m. case t of None \<Rightarrow> m | Some d \<Rightarrow> put b d m) params tiers"

definition ReadDealTiersFromImp :: "Imp \<Rightarrow> (bidderName, DealTier) gomap option" where
  "ReadDealTiersFromImp imp =
     (if imp_Ext imp = RawEmpty then Some []
      else (case unmarshal (dec_map dec_dealParams None) (imp_Ext imp) [] of
        None \<Rightarrow> None
      | Some impExt \<Rightarrow>
          (case unmarshal (dec_struct [field ''prebid'' (dec_struct [field ''bidder'' (dec_map dec_dealParams None) (\<lambda>r. r) (\<lambda>v r. v)])
               (\<lambda>r. r) (\<lambda>v r. v)]) (imp_Ext imp) [] of
             None \<Rightarrow> None
           | Some bidders \<Rightarrow> Some (add_tiers bidders (add_tiers impExt [])))))"

definition getDealTiers :: "BidRequest \<Rightarrow> (string, (bidderName, DealTier) gomap) gomap" where
  "getDealTiers req = fold (\<lambda>imp m. case ReadDealTiersFromImp imp of None \<Rightarrow> m | Some t \<Rightarrow> put (imp_ID imp) t m) (req_Imp req) []"

definition validateDealTier :: "DealTier \<Rightarrow> bool" where
  "validateDealTier t = (dt_Prefix t \<noteq> [] \<and> dt_MinDealTier t > 0)"

definition deal_category :: "DealTier \<Rightarrow> int \<Rightarrow> string \<Rightarrow> string" where
  "deal_category t priority old = concat ((dt_Prefix t @ itoa priority @ ''_'') # tl (split_after_first CHR ''_'' old))"

text \<open>The state of the deals: the bids and their categories with durations.\<close>

definition updateHbPbCatDur ::
  "ptr \<Rightarrow> pbsOrtbBid \<Rightarrow> DealTier \<Rightarrow> store \<times> (string, string) gomap \<Rightarrow> (store \<times> (string, string) gomap) option" where
  "updateHbPbCatDur p pb t s = (case s of (H, bidCategory) \<Rightarrow>
     if pb_dealPriority pb \<ge> dt_MinDealTier t
     then (case bid_at H p of
        None \<Rightarrow> None
      | Some b \<Rightarrow> Some (H\<lparr>st_pbs := (st_pbs H)(p \<mapsto> pb\<lparr>pb_dealTierSatisfied := True\<rparr>)\<rparr>,
          case lookup bidCategory (bid_ID b) of
            None \<Rightarrow> bidCategory
          | Some old \<Rightarrow> put (bid_ID b) (deal_category t (pb_dealPriority pb) old) bidCategory))
     else Some s)"

definition tier_of :: "(string, (bidderName, DealTier) gomap) gomap \<Rightarrow> string \<Rightarrow> bidderName \<Rightarrow> DealTier" where
  "tier_of tiers imp bidder = (case Option.bind (lookup tiers imp) (\<lambda>m. lookup m bidder) of Some t \<Rightarrow> t | None \<Rightarrow> zeroDealTier)"

definition deal_error :: "bidderName \<Rightarrow> string \<Rightarrow> go_error" where
  "deal_error bidder impID = OtherError (''dealTier configuration invalid for bidder '' @ [CHR 39] @ bidder @ [CHR 39] @
     '', imp ID '' @ [CHR 39] @ impID @ [CHR 39])"

definition deal_step ::
  "(string, (bidderName, DealTier) gomap) gomap \<Rightarrow> string \<times> bidderName \<times> ptr \<Rightarrow> (store \<times> (string, string) gomap) \<times> go_error list
     \<Rightarrow> ((store \<times> (string, string) gomap) \<times> go_error list) option" where
  "deal_step tiers e st = (case e of (impID, bidder, p) \<Rightarrow> (case st of (s, errs) \<Rightarrow>
     (case st_pbs (fst s) p of
        None \<Rightarrow> None
      | Some pb \<Rightarrow>
          if pb_dealPriority pb > 0
          then (if validateDealTier (tier_of tiers impID bidder)
                then map_option (\<lambda>s'. (s', errs)) (updateHbPbCatDur p pb (tier_of tiers impID bidder) s)
                else Some (s, errs @ [deal_error bidder impID]))
          else Some st)))"

definition applyDealSupport ::
  "BidRequest \<Rightarrow> auction \<Rightarrow> store \<times> (string, string) gomap \<Rightarrow> ((store \<times> (string, string) gomap) \<times> go_error list) option" where
  "applyDealSupport req auc s = fold_opt (deal_step (getDealTiers req)) (top_bids auc) (s, [])"

section \<open>The bids of a seat\<close>

record ExtBidPrebid =
  xb_Cache :: "(string \<times> string) option"
  xb_DealPriority :: int
  xb_DealTierSatisfied :: bool
  xb_Targeting :: "(string, string) gomap"
  xb_Type :: string
  xb_Video :: "BidVideo option"
  xb_Events :: "BidEvents option"
  xb_BidId :: string

text \<open>The cache entry is its URL and its id; the key and the URL beside it stay empty.\<close>

definition enc_cache :: "string \<times> string \<Rightarrow> json option" where
  "enc_cache c = enc_struct [(''key'', Member (JStr [])), (''url'', Member (JStr [])),
     (''bids'', nested (enc_struct [(''url'', Member (JStr (fst c))), (''cacheId'', Member (JStr (snd c)))]))]"

definition enc_video :: "BidVideo \<Rightarrow> json option" where
  "enc_video v = enc_struct [(''duration'', Member (JInt (bv_Duration v))), (''primary_category'', Member (JStr (bv_PrimaryCategory v)))]"

definition enc_events :: "BidEvents \<Rightarrow> json option" where
  "enc_events e = enc_struct [(''win'', omit_if (be_Win e = []) (Member (JStr (be_Win e)))), (''imp'', omit_if (be_Imp e = []) (Member (JStr (be_Imp e))))]"

definition enc_str :: "string \<Rightarrow> json option" where
  "enc_str s = Some (JStr s)"

definition enc_ExtBidPrebid :: "ExtBidPrebid \<Rightarrow> json option" where
  "enc_ExtBidPrebid x = enc_struct [
     (''cache'', opt_ptr enc_cache (xb_Cache x)),
     (''dealpriority'', omit_if (xb_DealPriority x = 0) (Member (JInt (xb_DealPriority x)))),
     (''dealtiersatisfied'', omit_if (\<not> xb_DealTierSatisfied x) (Member (JBool True))),
     (''targeting'', omit_if (xb_Targeting x = []) (nested (enc_map enc_str (xb_Targeting x)))),
     (''type'', Member (JStr (xb_Type x))),
     (''video'', opt_ptr enc_video (xb_Video x)),
     (''events'', opt_ptr enc_events (xb_Events x)),
     (''bidid'', omit_if (xb_BidId x = []) (Member (JStr (xb_BidId x))))]"

definition json_failure :: go_error where
  "json_failure = OtherError ''json: error''"

text \<open>An extension that is the JSON null leaves a nil map, and writing to it panics.\<close>

definition makeBidExtJSON :: "raw \<Rightarrow> ExtBidPrebid \<Rightarrow> (go_error + raw) option" where
  "makeBidExtJSON ext prebid =
     (if ext = RawEmpty then (case enc_struct [(PrebidExtKey, nested (enc_ExtBidPrebid prebid))] of
          Some j \<Rightarrow> Some (Inr (Raw j)) | None \<Rightarrow> Some (Inl json_failure))
      else (case unmarshal_ext_map ext of
        None \<Rightarrow> Some (Inl json_failure)
      | Some None \<Rightarrow> None
      | Some (Some m) \<Rightarrow> (case enc_ExtBidPrebid prebid of
           Some j \<Rightarrow> Some (Inr (Raw (encode_map (put PrebidExtKey j m)))) | None \<Rightarrow> Some (Inl json_failure))))"

definition findCacheID :: "ptr option \<Rightarrow> auction option \<Rightarrow> string option" where
  "findCacheID q auc = (case (q, auc) of
     (Some p, Some a) \<Rightarrow> (case lookup (cacheIds a) p of Some i \<Rightarrow> Some i | None \<Rightarrow> lookup (vastCacheIds a) p)
   | _ \<Rightarrow> None)"

text \<open>\<open>cacheData\<close> is what \<open>GetExtCacheData\<close> of the client gives: scheme, host and path.\<close>

definition buildCacheURL :: "(string \<Rightarrow> string) \<Rightarrow> string \<times> string \<times> string \<Rightarrow> string \<Rightarrow> string" where
  "buildCacheURL escapePath cacheData uuid = (case cacheData of (scheme, host, path) \<Rightarrow>
     if host = [] \<or> path = [] then []
     else (if scheme = [] then [] else scheme @ ''://'') @ host @ escapePath path @ ''?uuid='' @ query_escape uuid)"

definition getBidCacheInfo :: "(string \<Rightarrow> string) \<Rightarrow> string \<times> string \<times> string \<Rightarrow> ptr option \<Rightarrow> auction option \<Rightarrow> (string \<times> string) option" where
  "getBidCacheInfo escapePath cacheData q auc = map_option (\<lambda>uuid. (buildCacheURL escapePath cacheData uuid, uuid)) (findCacheID q auc)"

record response_env =
  re_escapePath :: "string \<Rightarrow> string"
  re_cacheData :: "string \<times> string \<times> string"
  re_marshalRequest :: "BidRequest \<Rightarrow> json option"

definition bid_prebid :: "response_env \<Rightarrow> auction option \<Rightarrow> pbsOrtbBid \<Rightarrow> ExtBidPrebid" where
  "bid_prebid env auc pb = \<lparr>xb_Cache = getBidCacheInfo (re_escapePath env) (re_cacheData env) (pb_bid pb) auc,
     xb_DealPriority = pb_dealPriority pb, xb_DealTierSatisfied = pb_dealTierSatisfied pb, xb_Targeting = pb_bidTargets pb,
     xb_Type = pb_bidType pb, xb_Video = pb_bidVideo pb, xb_Events = pb_bidEvents pb, xb_BidId = pb_generatedBidID pb\<rparr>"

definition bid_step :: "response_env \<Rightarrow> store \<Rightarrow> auction option \<Rightarrow> bool \<Rightarrow> ptr \<Rightarrow> Bid list \<times> go_error list \<Rightarrow> (Bid list \<times> go_error list) option" where
  "bid_step env H auc returnCreative p acc = (case (st_pbs H p, bid_at H p) of
     (Some pb, Some b) \<Rightarrow>
       (case makeBidExtJSON (bid_Ext b) (bid_prebid env auc pb) of
          None \<Rightarrow> None
        | Some (Inl e) \<Rightarrow> Some (fst acc, snd acc @ [e])
        | Some (Inr ext) \<Rightarrow> Some (fst acc @ [b\<lparr>bid_Ext := ext, bid_AdM := (if returnCreative then bid_AdM b else [])\<rparr>], snd acc))
   | _ \<Rightarrow> None)"

definition makeBid :: "response_env \<Rightarrow> store \<Rightarrow> auction option \<Rightarrow> bool \<Rightarrow> ptr list \<Rightarrow> (Bid list \<times> go_error list) option" where
  "makeBid env H auc returnCreative bids = fold_opt (bid_step env H auc returnCreative) bids ([], [])"

section \<open>Seats and the response\<close>

record seatResponseExtra =
  se_ResponseTimeMillis :: int
  se_Errors :: "ExtBidderMessage list"
  se_Warnings :: "ExtBidderMessage list"
  se_HttpCalls :: "ExtHttpCall list"

type_synonym extras = "(bidderName, seatResponseExtra) gomap"

record SeatBid =
  seat_Seat :: string
  seat_Bid :: "Bid list"
  seat_Group :: int

text \<open>The errors are added to the extra data of the bidder, which must be there.\<close>

definition makeSeatBid ::
  "response_env \<Rightarrow> store \<Rightarrow> auction option \<Rightarrow> bool \<Rightarrow> pbsOrtbSeatBid \<Rightarrow> bidderName \<Rightarrow> extras \<Rightarrow> (SeatBid \<times> extras) option" where
  "makeSeatBid env H auc returnCreative adapterBid adapter extra =
     (case makeBid env H auc returnCreative (sb_bids adapterBid) of
        None \<Rightarrow> None
      | Some (bids, errList) \<Rightarrow>
          (let seat = \<lparr>seat_Seat = adapter, seat_Bid = bids, seat_Group = 0\<rparr>
           in if errList = [] then Some (seat, extra)
              else (case lookup extra adapter of
                None \<Rightarrow> None
              | Some e \<Rightarrow> Some (seat, put adapter (e\<lparr>se_Errors := se_Errors e @ errsToBidderErrors errList\<rparr>) extra))))"

record ExtBidResponse =
  rx_Debug :: "((bidderName, ExtHttpCall list) gomap \<times> BidRequest) option"
  rx_Errors :: "(bidderName, ExtBidderMessage list) gomap"
  rx_Warnings :: "(bidderName, ExtBidderMessage list) gomap"
  rx_ResponseTimeMillis :: "(bidderName, int) gomap"
  rx_RequestTimeoutMillis :: int
  rx_Prebid :: "int option"

text \<open>\<open>start\<close> is the start of the auction in milliseconds, None for the zero time.\<close>

definition extra_step :: "bool \<Rightarrow> go_error list \<Rightarrow> bidderName \<times> seatResponseExtra \<Rightarrow> ExtBidResponse \<Rightarrow> ExtBidResponse" where
  "extra_step debugInfo errList e x = (case e of (bidder, r) \<Rightarrow>
     (let x1 = (if debugInfo \<and> se_HttpCalls r \<noteq> [] then x\<lparr>rx_Debug := map_option (\<lambda>(calls, req). (put bidder (se_HttpCalls r) calls, req)) (rx_Debug x)\<rparr> else x);
          x2 = (if se_Warnings r \<noteq> [] then x1\<lparr>rx_Warnings := put bidder (se_Warnings r) (rx_Warnings x1)\<rparr> else x1);
          x3 = (if se_Errors r \<noteq> [] then x2\<lparr>rx_Errors := put bidder (se_Errors r) (rx_Errors x2)\<rparr> else x2);
          x4 = (if errList \<noteq> [] then x3\<lparr>rx_Errors := put PrebidExtKey (errsToBidderErrors errList) (rx_Errors x3)\<rparr> else x3)
      in x4\<lparr>rx_ResponseTimeMillis := put bidder (se_ResponseTimeMillis r) (rx_ResponseTimeMillis x4)\<rparr>))"

definition makeExtBidResponse :: "extras \<Rightarrow> BidRequest \<Rightarrow> int option \<Rightarrow> bool \<Rightarrow> go_error list \<Rightarrow> ExtBidResponse" where
  "makeExtBidResponse extra req start debugInfo errList =
     fold (extra_step debugInfo errList) extra
       \<lparr>rx_Debug = (if debugInfo then Some ([], req) else None), rx_Errors = [], rx_Warnings = [], rx_ResponseTimeMillis = [],
        rx_RequestTimeoutMillis = req_TMax req, rx_Prebid = start\<rparr>"

definition enc_message :: "ExtBidderMessage \<Rightarrow> json option" where
  "enc_message m = enc_struct [(''code'', Member (JInt (Code m))), (''message'', Member (JStr (Message m)))]"

definition enc_httpCall :: "ExtHttpCall \<Rightarrow> json option" where
  "enc_httpCall c = enc_struct [(''uri'', Member (JStr (xh_Uri c))), (''requestbody'', Member (JStr (xh_RequestBody c))),
     (''requestheaders'', nested (enc_map (enc_slice enc_str) (xh_RequestHeaders c))),
     (''responsebody'', Member (JStr (xh_ResponseBody c))), (''status'', Member (JInt (xh_Status c)))]"

definition encodeBidResponseExt :: "(BidRequest \<Rightarrow> json option) \<Rightarrow> ExtBidResponse \<Rightarrow> json option" where
  "encodeBidResponseExt marshalRequest x = enc_struct [
     (''debug'', opt_ptr (\<lambda>(calls, req). enc_struct [(''httpcalls'', omit_if (calls = []) (nested (enc_map (enc_list enc_httpCall) calls))),
        (''resolvedrequest'', nested (marshalRequest req))]) (rx_Debug x)),
     (''errors'', omit_if (rx_Errors x = []) (nested (enc_map (enc_list enc_message) (rx_Errors x)))),
     (''warnings'', omit_if (rx_Warnings x = []) (nested (enc_map (enc_list enc_message) (rx_Warnings x)))),
     (''responsetimemillis'', omit_if (rx_ResponseTimeMillis x = []) (nested (enc_map (Some \<circ> JInt) (rx_ResponseTimeMillis x)))),
     (''tmaxrequest'', omit_if (rx_RequestTimeoutMillis x = 0) (Member (JInt (rx_RequestTimeoutMillis x)))),
     (''prebid'', opt_ptr (\<lambda>t. enc_struct [(''auctiontimestamp'', omit_if (t = 0) (Member (JInt t)))]) (rx_Prebid x))]"

record BidResponse =
  br_ID :: string
  br_SeatBid :: "SeatBid list"
  br_Cur :: string
  br_NBR :: "int option"
  br_Ext :: raw

definition NoBidReasonCodeInvalidRequest :: int where
  "NoBidReasonCodeInvalidRequest = 2"

definition seat_step ::
  "response_env \<Rightarrow> store \<Rightarrow> auction option \<Rightarrow> bool \<Rightarrow> seats \<Rightarrow> bidderName \<Rightarrow> SeatBid list \<times> string \<times> extras \<Rightarrow> (SeatBid list \<times> string \<times> extras) option" where
  "seat_step env H auc returnCreative adapterBids a st = (case st of (seatBids, cur, extra) \<Rightarrow>
     (case Option.bind (lookup adapterBids a) (\<lambda>s. s) of
        Some sb \<Rightarrow>
          if sb_bids sb \<noteq> []
          then map_option (\<lambda>(seat, extra'). (seatBids @ [seat], sb_currency sb, extra')) (makeSeatBid env H auc returnCreative sb a extra)
          else Some st
      | None \<Rightarrow> Some st))"

text \<open>The response with the error of its extension, and the extra data with the errors of the bids.\<close>

definition buildBidResponse ::
  "response_env \<Rightarrow> store \<Rightarrow> bidderName list \<Rightarrow> seats \<Rightarrow> BidRequest \<Rightarrow> extras \<Rightarrow> auction option \<Rightarrow> ExtBidResponse \<Rightarrow> bool
     \<Rightarrow> (BidResponse \<times> go_error option \<times> extras) option" where
  "buildBidResponse env H liveAdapters adapterBids req extra auc x returnCreative =
     (case fold_opt (seat_step env H auc returnCreative adapterBids) liveAdapters ([], [], extra) of
        None \<Rightarrow> None
      | Some (seatBids, cur, extra') \<Rightarrow>
          (case encodeBidResponseExt (re_marshalRequest env) x of
             Some j \<Rightarrow> Some (\<lparr>br_ID = req_ID req, br_SeatBid = seatBids, br_Cur = cur,
                 br_NBR = (if liveAdapters = [] then Some NoBidReasonCodeInvalidRequest else None), br_Ext = Raw j\<rparr>, None, extra')
           | None \<Rightarrow> Some (\<lparr>br_ID = req_ID req, br_SeatBid = seatBids, br_Cur = cur,
                 br_NBR = (if liveAdapters = [] then Some NoBidReasonCodeInvalidRequest else None), br_Ext = RawEmpty\<rparr>, Some json_failure, extra')))"

section \<open>Properties: deal tiers\<close>

text \<open>The bids that satisfy their tier, those without a usable tier, and what becomes of the store.\<close>

definition deal_of :: "store \<Rightarrow> string \<times> bidderName \<times> ptr \<Rightarrow> int" where
  "deal_of H e = pb_dealPriority (the (st_pbs H (snd (snd e))))"

text \<open>
  The tiers a request states, read off the JSON: \<open>imp.ext.prebid.bidder.<bidder>.dealTier\<close>, or else
  \<open>imp.ext.<bidder>.dealTier\<close>. Of two members of an object with the same name the last one counts, as does the last of two
  impressions with the same id; an impression with a member of the wrong type states no tiers.
\<close>

definition struct_member :: "string \<Rightarrow> json \<Rightarrow> json" where
  "struct_member k j = (case j of JObj kvs \<Rightarrow> (case json_field k kvs of Some v \<Rightarrow> v | None \<Rightarrow> JNull) | _ \<Rightarrow> JNull)"

definition map_member :: "string \<Rightarrow> json \<Rightarrow> json" where
  "map_member k j = (case j of JObj kvs \<Rightarrow> (case lookup (rev kvs) k of Some v \<Rightarrow> v | None \<Rightarrow> JNull) | _ \<Rightarrow> JNull)"

definition tier_in :: "json \<Rightarrow> DealTier option" where
  "tier_in params = (let t = struct_member ''dealTier'' params
     in if t = JNull then None
        else Some \<lparr>dt_Prefix = (case struct_member ''prefix'' t of JStr s \<Rightarrow> s | _ \<Rightarrow> []),
                   dt_MinDealTier = (case struct_member ''minDealTier'' t of JInt n \<Rightarrow> n | _ \<Rightarrow> 0)\<rparr>)"

fun is_object :: "json \<Rightarrow> bool" where
  "is_object (JObj kvs) = True"
| "is_object j = False"

fun ok_prefix :: "json \<Rightarrow> bool" where
  "ok_prefix JNull = True"
| "ok_prefix (JStr s) = True"
| "ok_prefix j = False"

fun ok_minimum :: "json \<Rightarrow> bool" where
  "ok_minimum JNull = True"
| "ok_minimum (JInt n) = is_int64 n"
| "ok_minimum j = False"

definition ok_tier :: "json \<Rightarrow> bool" where
  "ok_tier t = (t = JNull \<or> is_object t \<and> ok_prefix (struct_member ''prefix'' t) \<and> ok_minimum (struct_member ''minDealTier'' t))"

definition ok_params :: "json \<Rightarrow> bool" where
  "ok_params j = (j = JNull \<or> is_object j \<and> ok_tier (struct_member ''dealTier'' j))"

fun ok_bidders :: "json \<Rightarrow> bool" where
  "ok_bidders JNull = True"
| "ok_bidders (JObj kvs) = (\<forall>e\<in>set kvs. ok_params (snd e))"
| "ok_bidders j = False"

definition ok_prebid :: "json \<Rightarrow> bool" where
  "ok_prebid j = (j = JNull \<or> is_object j \<and> ok_bidders (struct_member ''bidder'' j))"

definition states_tiers :: "Imp \<Rightarrow> bool" where
  "states_tiers imp = (case imp_Ext imp of RawEmpty \<Rightarrow> True | Raw j \<Rightarrow> ok_bidders j \<and> ok_prebid (struct_member ''prebid'' j) | _ \<Rightarrow> False)"

definition imp_tier :: "Imp \<Rightarrow> bidderName \<Rightarrow> DealTier option" where
  "imp_tier imp bidder = (case imp_Ext imp of
     Raw j \<Rightarrow> (case tier_in (map_member bidder (struct_member ''bidder'' (struct_member ''prebid'' j))) of
                Some t \<Rightarrow> Some t
              | None \<Rightarrow> tier_in (map_member bidder j))
   | _ \<Rightarrow> None)"

definition request_tier :: "BidRequest \<Rightarrow> string \<Rightarrow> bidderName \<Rightarrow> DealTier option" where
  "request_tier req impID bidder =
     (case find (\<lambda>imp. imp_ID imp = impID \<and> states_tiers imp) (rev (req_Imp req)) of
        Some imp \<Rightarrow> imp_tier imp bidder
      | None \<Rightarrow> None)"

lemma struct_member_JNull [simp]: "struct_member k JNull = JNull" and map_member_JNull [simp]: "map_member k JNull = JNull"
  by (simp_all add: struct_member_def map_member_def)

lemma dec_DealTier_eq:
  "dec_ptr dec_DealTier zeroDealTier t None =
     (if ok_tier t then Some (if t = JNull then None else
        Some \<lparr>dt_Prefix = (case struct_member ''prefix'' t of JStr s \<Rightarrow> s | _ \<Rightarrow> []),
              dt_MinDealTier = (case struct_member ''minDealTier'' t of JInt n \<Rightarrow> n | _ \<Rightarrow> 0)\<rparr>) else None)"
proof (cases t)
  case (JObj kvs)
  have p: "dec_field ''prefix'' dec_string kvs [] = (if ok_prefix (struct_member ''prefix'' t)
      then Some (case struct_member ''prefix'' t of JStr s \<Rightarrow> s | _ \<Rightarrow> []) else None)"
    by (cases "struct_member ''prefix'' t") (auto simp: JObj dec_field_def struct_member_def split: option.splits)
  have m: "dec_field ''minDealTier'' dec_int kvs 0 = (if ok_minimum (struct_member ''minDealTier'' t)
      then Some (case struct_member ''minDealTier'' t of JInt n \<Rightarrow> n | _ \<Rightarrow> 0) else None)"
    by (cases "struct_member ''minDealTier'' t") (auto simp: JObj dec_field_def struct_member_def split: option.splits)
  show ?thesis using p m by (simp add: JObj dec_ptr_def dec_DealTier_def dec_struct_def field_def zeroDealTier_def ok_tier_def)
qed (simp_all add: dec_ptr_def dec_DealTier_def dec_struct_def ok_tier_def)

lemma dec_dealParams_eq: "dec_dealParams j None = (if ok_params j then Some (tier_in j) else None)"
proof (cases j)
  case (JObj kvs)
  have "dec_field ''dealTier'' (dec_ptr dec_DealTier zeroDealTier) kvs None = dec_ptr dec_DealTier zeroDealTier (struct_member ''dealTier'' j) None"
    by (auto simp: JObj dec_field_def struct_member_def dec_ptr_def split: option.splits)
  then show ?thesis
    by (simp add: JObj dec_dealParams_def dec_struct_def field_def ok_params_def tier_in_def Let_def dec_DealTier_eq)
qed (simp_all add: dec_dealParams_def dec_struct_def ok_params_def tier_in_def)

lemma dec_bidder_tiers:
  "(dec_map dec_dealParams None j [] = None \<longleftrightarrow> \<not> ok_bidders j)"
  "dec_map dec_dealParams None j [] = Some m \<Longrightarrow> Option.bind (lookup m b) (\<lambda>t. t) = tier_in (map_member b j)"
proof -
  have n: "dec_entries dec_dealParams None kvs m = None \<longleftrightarrow> (\<exists>e\<in>set kvs. \<not> ok_params (snd e))" for kvs m
    by (induction kvs arbitrary: m) (force simp: dec_dealParams_eq)+
  show "(dec_map dec_dealParams None j [] = None \<longleftrightarrow> \<not> ok_bidders j)" by (cases j) (auto simp: n)
  have l: "lookup m b = (case lookup (rev kvs) b of Some v \<Rightarrow> Some (tier_in v) | None \<Rightarrow> lookup m0 b)"
    if "dec_entries dec_dealParams None kvs m0 = Some m" for kvs m0
    using that
    by (induction kvs arbitrary: m0) (auto simp: dec_dealParams_eq map_add_def split: if_splits option.splits)
  show "Option.bind (lookup m b) (\<lambda>t. t) = tier_in (map_member b j)" if "dec_map dec_dealParams None j [] = Some m"
    using that by (cases j) (auto dest!: l simp: map_member_def tier_in_def split: option.splits)
qed

lemma lookup_add_tiers:
  "wf_map params \<Longrightarrow> lookup (add_tiers params m) b = (case Option.bind (lookup params b) (\<lambda>t. t) of Some d \<Rightarrow> Some d | None \<Rightarrow> lookup m b)"
proof (induction params arbitrary: m)
  case (Cons e params)
  obtain c t where e: "e = (c, t)" by (cases e)
  have w: "wf_map params" "lookup params c = None" using Cons.prems by (auto simp: e wf_map_def map_of_eq_None_iff)
  show ?case
    using Cons.IH [OF w(1), of "case t of None \<Rightarrow> m | Some d \<Rightarrow> put c d m"] w(2) by (auto simp: e add_tiers_def split: option.splits)
qed (simp add: add_tiers_def)

lemma dec_struct_one:
  "dec_struct [field k d (\<lambda>r. r) (\<lambda>v r. v)] j old = (case j of JNull \<Rightarrow> Some old | JObj kvs \<Rightarrow> dec_field k d kvs old | _ \<Rightarrow> None)"
  by (cases j) (simp_all add: dec_struct_def field_def option.map_ident split: option.split)

lemma dec_prebid_bidders:
  "dec_struct [field ''prebid'' (dec_struct [field ''bidder'' (dec_map dec_dealParams None) (\<lambda>r. r) (\<lambda>v r. v)]) (\<lambda>r. r) (\<lambda>v r. v)] j [] =
     (if (j = JNull \<or> is_object j) \<and> (struct_member ''prebid'' j = JNull \<or> is_object (struct_member ''prebid'' j))
      then dec_map dec_dealParams None (struct_member ''bidder'' (struct_member ''prebid'' j)) [] else None)"
proof -
  have b: "dec_struct [field ''bidder'' (dec_map dec_dealParams None) (\<lambda>r. r) (\<lambda>v r. v)] x [] =
      (if x = JNull \<or> is_object x then dec_map dec_dealParams None (struct_member ''bidder'' x) [] else None)" for x
    by (cases x) (auto simp: dec_struct_one dec_field_def struct_member_def split: option.splits)
  show ?thesis
  proof (cases j)
    case (JObj kvs)
    then show ?thesis
      by (cases "json_field ''prebid'' kvs") (simp_all add: dec_struct_one [of "''prebid''"] dec_field_def b struct_member_def [of "''prebid''"])
  qed (simp_all add: dec_struct_one [of "''prebid''"])
qed

lemma ReadDealTiersFromImp_eq:
  "ReadDealTiersFromImp imp = None \<longleftrightarrow> \<not> states_tiers imp"
  "ReadDealTiersFromImp imp = Some m \<Longrightarrow> lookup m b = imp_tier imp b"
proof -
  show "ReadDealTiersFromImp imp = None \<longleftrightarrow> \<not> states_tiers imp"
  proof (cases "imp_Ext imp")
    case (Raw j)
    have "ok_bidders j \<Longrightarrow> j = JNull \<or> is_object j" by (cases j) auto
    then show ?thesis
      using dec_bidder_tiers(1) [of j] dec_bidder_tiers(1) [of "struct_member ''bidder'' (struct_member ''prebid'' j)"]
      by (auto simp: Raw ReadDealTiersFromImp_def unmarshal_def dec_prebid_bidders states_tiers_def ok_prebid_def split: option.splits if_splits)
  qed (simp_all add: ReadDealTiersFromImp_def unmarshal_def states_tiers_def)
  show "lookup m b = imp_tier imp b" if m: "ReadDealTiersFromImp imp = Some m"
  proof (cases "imp_Ext imp")
    case (Raw j)
    with m obtain x y where x: "dec_map dec_dealParams None j [] = Some x"
      and y: "dec_map dec_dealParams None (struct_member ''bidder'' (struct_member ''prebid'' j)) [] = Some y" and m': "m = add_tiers y (add_tiers x [])"
      by (auto simp: ReadDealTiersFromImp_def unmarshal_def dec_prebid_bidders split: option.splits if_splits)
    have "wf_map x" "wf_map y" using dec_map_wf [OF x] dec_map_wf [OF y] by simp_all
    then show ?thesis
      by (simp add: m' Raw imp_tier_def lookup_add_tiers dec_bidder_tiers(2) [OF x] dec_bidder_tiers(2) [OF y] split: option.split)
  qed (use m in \<open>simp_all add: ReadDealTiersFromImp_def unmarshal_def imp_tier_def\<close>)
qed

lemma getDealTiers_eq: "Option.bind (lookup (getDealTiers req) i) (\<lambda>m. lookup m b) = request_tier req i b"
proof -
  have "Option.bind (lookup (fold (\<lambda>imp m. case ReadDealTiersFromImp imp of None \<Rightarrow> m | Some t \<Rightarrow> put (imp_ID imp) t m) imps m0) i) (\<lambda>m. lookup m b) =
      (case find (\<lambda>imp. imp_ID imp = i \<and> states_tiers imp) (rev imps) of Some imp \<Rightarrow> imp_tier imp b | None \<Rightarrow> Option.bind (lookup m0 i) (\<lambda>m. lookup m b))" for imps m0
  proof (induction imps rule: rev_induct)
    case (snoc imp imps)
    show ?case
    proof (cases "ReadDealTiersFromImp imp")
      case None
      then have "\<not> states_tiers imp" by (simp add: ReadDealTiersFromImp_eq(1) [symmetric])
      with None snoc show ?thesis by simp
    next
      case (Some t)
      then have "states_tiers imp" using ReadDealTiersFromImp_eq(1) [of imp] by auto
      with Some snoc show ?thesis by (simp add: ReadDealTiersFromImp_eq(2))
    qed
  qed simp
  then show ?thesis by (simp add: getDealTiers_def request_tier_def split: option.split)
qed

text \<open>A tier is usable when it has a prefix and a minimum above zero; a bid whose deal has that priority satisfies it.\<close>

definition usable_tier :: "BidRequest \<Rightarrow> string \<times> bidderName \<times> ptr \<Rightarrow> DealTier option" where
  "usable_tier req e = (case request_tier req (fst e) (fst (snd e)) of
     Some t \<Rightarrow> if dt_Prefix t \<noteq> [] \<and> dt_MinDealTier t > 0 then Some t else None
   | None \<Rightarrow> None)"

definition satisfies :: "BidRequest \<Rightarrow> store \<Rightarrow> string \<times> bidderName \<times> ptr \<Rightarrow> bool" where
  "satisfies req H e = (deal_of H e > 0 \<and> (case usable_tier req e of Some t \<Rightarrow> dt_MinDealTier t \<le> deal_of H e | None \<Rightarrow> False))"

definition untiered :: "BidRequest \<Rightarrow> store \<Rightarrow> string \<times> bidderName \<times> ptr \<Rightarrow> bool" where
  "untiered req H e = (deal_of H e > 0 \<and> usable_tier req e = None)"

lemma usable_tier_eq:
  "validateDealTier (tier_of (getDealTiers req) (fst e) (fst (snd e))) \<longleftrightarrow> usable_tier req e \<noteq> None"
  "usable_tier req e = Some t \<Longrightarrow> tier_of (getDealTiers req) (fst e) (fst (snd e)) = t"
  by (auto simp: usable_tier_def tier_of_def getDealTiers_eq validateDealTier_def zeroDealTier_def split: option.splits if_splits)

text \<open>The category of a bid in its tier: the prefix and the priority in place of all before the first underscore.\<close>

definition tier_category :: "string \<Rightarrow> int \<Rightarrow> string \<Rightarrow> string" where
  "tier_category prefix n old = prefix @ itoa n @ ''_'' @ tl (dropWhile (\<lambda>c. c \<noteq> CHR ''_'') old)"

lemma deal_category_eq: "deal_category t n old = tier_category (dt_Prefix t) n old"
proof -
  have "concat (tl (split_after_first CHR ''_'' old)) = tl (dropWhile (\<lambda>c. c \<noteq> CHR ''_'') old)"
    by (induction old) (auto split: list.splits)
  then show ?thesis by (simp add: deal_category_def tier_category_def)
qed

definition id_of :: "store \<Rightarrow> string \<times> bidderName \<times> ptr \<Rightarrow> string" where
  "id_of H e = bid_ID (the (bid_at H (snd (snd e))))"

definition mark_bids :: "ptr set \<Rightarrow> store \<Rightarrow> store" where
  "mark_bids S H = H\<lparr>st_pbs := (\<lambda>p. if p \<in> S then map_option (\<lambda>pb. pb\<lparr>pb_dealTierSatisfied := True\<rparr>) (st_pbs H p) else st_pbs H p)\<rparr>"

lemma mark_bids_simps [simp]:
  "bid_at (mark_bids S H) p = bid_at H p" "mark_bids {} H = H" "st_pbs H (snd (snd e)) \<noteq> None \<Longrightarrow> deal_of (mark_bids S H) e = deal_of H e"
  "mark_bids S (mark_bids T H) = mark_bids (S \<union> T) H" "st_pbs (mark_bids S H) p = None \<longleftrightarrow> st_pbs H p = None"
proof -
  show "bid_at (mark_bids S H) p = bid_at H p"
    by (auto simp: bid_at_def bid_ptr_def mark_bids_def split: option.splits)
  show "mark_bids S (mark_bids T H) = mark_bids (S \<union> T) H"
    by (auto simp: mark_bids_def option.map_comp comp_def intro!: arg_cong2 [where f = "\<lambda>f (r::store). r\<lparr>st_pbs := f\<rparr>"])
  show "st_pbs H (snd (snd e)) \<noteq> None \<Longrightarrow> deal_of (mark_bids S H) e = deal_of H e"
    by (cases "st_pbs H (snd (snd e))") (auto simp: deal_of_def mark_bids_def)
  show "st_pbs (mark_bids S H) p = None \<longleftrightarrow> st_pbs H p = None" by (simp add: mark_bids_def)
qed (simp add: mark_bids_def)

text \<open>The category of a bid after its tier has been applied.\<close>

definition tiered_category :: "BidRequest \<Rightarrow> store \<Rightarrow> string \<times> bidderName \<times> ptr \<Rightarrow> (string, string) gomap \<Rightarrow> (string, string) gomap" where
  "tiered_category req H e cat =
     (if satisfies req H e
      then (case lookup cat (id_of H e) of None \<Rightarrow> cat
            | Some old \<Rightarrow> put (id_of H e) (tier_category (dt_Prefix (the (usable_tier req e))) (deal_of H e) old) cat)
      else cat)"

lemma marked_same:
  assumes "st_pbs H (snd (snd e)) \<noteq> None"
  shows "satisfies req (mark_bids S H) e = satisfies req H e" "untiered req (mark_bids S H) e = untiered req H e" "id_of (mark_bids S H) e = id_of H e"
    and "tiered_category req (mark_bids S H) e cat = tiered_category req H e cat"
  using assms by (auto simp: satisfies_def untiered_def id_of_def tiered_category_def split: option.splits)

lemma deal_step_eq:
  assumes "st_pbs H (snd (snd e)) \<noteq> None" and "bid_at H (snd (snd e)) \<noteq> None"
  shows "deal_step (getDealTiers req) e ((H, cat), errs) =
    Some ((mark_bids (if satisfies req H e then {snd (snd e)} else {}) H, tiered_category req H e cat),
          errs @ (if untiered req H e then [deal_error (fst (snd e)) (fst e)] else []))"
proof -
  obtain imp b p where e: "e = (imp, b, p)" by (metis prod.exhaust)
  obtain pb x where "st_pbs H p = Some pb" "bid_at H p = Some x" using assms by (auto simp: e)
  moreover have "(st_pbs H)(p \<mapsto> pb\<lparr>pb_dealTierSatisfied := True\<rparr>) =
      (\<lambda>q. if q = p then map_option (\<lambda>pb. pb\<lparr>pb_dealTierSatisfied := True\<rparr>) (st_pbs H q) else st_pbs H q)"
    using calculation(1) by auto
  ultimately show ?thesis using usable_tier_eq [of req e]
    by (cases "usable_tier req e")
      (auto simp: e deal_step_def updateHbPbCatDur_def satisfies_def untiered_def deal_of_def mark_bids_def tiered_category_def
        id_of_def Let_def deal_category_eq split: option.split)
qed

lemma deal_loop:
  assumes "\<forall>e\<in>set es. st_pbs H (snd (snd e)) \<noteq> None \<and> bid_at H (snd (snd e)) \<noteq> None"
  shows "fold_opt (deal_step (getDealTiers req)) es ((H, cat), errs) =
    Some ((mark_bids {p. \<exists>e\<in>set es. satisfies req H e \<and> p = snd (snd e)} H, fold (tiered_category req H) es cat),
          errs @ map (\<lambda>e. deal_error (fst (snd e)) (fst e)) (filter (untiered req H) es))"
  using assms
proof (induction es arbitrary: H cat errs)
  case (Cons e es)
  let ?M = "if satisfies req H e then {snd (snd e)} else {}"
  have "fold_opt (deal_step (getDealTiers req)) es ((mark_bids ?M H, tiered_category req H e cat), errs @ (if untiered req H e then [deal_error (fst (snd e)) (fst e)] else [])) =
    Some ((mark_bids {p. \<exists>x\<in>set es. satisfies req H x \<and> p = snd (snd x)} (mark_bids ?M H), fold (tiered_category req H) es (tiered_category req H e cat)),
          (errs @ (if untiered req H e then [deal_error (fst (snd e)) (fst e)] else [])) @ map (\<lambda>e. deal_error (fst (snd e)) (fst e)) (filter (untiered req H) es))"
  proof -
    have same: "satisfies req (mark_bids ?M H) x = satisfies req H x" "untiered req (mark_bids ?M H) x = untiered req H x"
      "tiered_category req (mark_bids ?M H) x = tiered_category req H x" if "x \<in> set es" for x
    proof -
      have "st_pbs H (snd (snd x)) \<noteq> None" using Cons.prems that by auto
      then show "satisfies req (mark_bids ?M H) x = satisfies req H x" "untiered req (mark_bids ?M H) x = untiered req H x"
        "tiered_category req (mark_bids ?M H) x = tiered_category req H x" by (simp_all add: marked_same fun_eq_iff)
    qed
    have "filter (untiered req (mark_bids ?M H)) es = filter (untiered req H) es"
      "fold (tiered_category req (mark_bids ?M H)) es c = fold (tiered_category req H) es c"
      "{p. \<exists>x\<in>set es. satisfies req (mark_bids ?M H) x \<and> p = snd (snd x)} = {p. \<exists>x\<in>set es. satisfies req H x \<and> p = snd (snd x)}" for c
      using same by (auto intro: filter_cong fold_cong)
    then show ?thesis using Cons.IH [of "mark_bids ?M H"] Cons.prems by simp
  qed
  moreover have "{p. \<exists>x\<in>set es. satisfies req H x \<and> p = snd (snd x)} \<union> ?M = {p. \<exists>x\<in>set (e # es). satisfies req H x \<and> p = snd (snd x)}" by auto
  ultimately show ?case using deal_step_eq [of H e req cat errs] Cons.prems by simp
qed simp

lemma find_Some_unique:
  assumes "e \<in> set xs" and "P e" and "\<And>x. x \<in> set xs \<Longrightarrow> P x \<Longrightarrow> x = e"
  shows "find P xs = Some e"
proof (cases "find P xs")
  case None
  then show ?thesis using assms(1,2) by (simp add: find_None_iff)
next
  case (Some y)
  then have "y \<in> set xs" "P y" by (auto simp: find_Some_iff)
  with Some assms(3) show ?thesis by simp
qed

lemma tiered_categories:
  assumes "distinct (map (id_of H) es)"
  shows "lookup (fold (tiered_category req H) es cat) k =
    (case find (\<lambda>e. id_of H e = k \<and> satisfies req H e) es of None \<Rightarrow> lookup cat k
     | Some e \<Rightarrow> map_option (tier_category (dt_Prefix (the (usable_tier req e))) (deal_of H e)) (lookup cat k))"
  using assms
proof (induction es arbitrary: cat)
  case (Cons e es)
  have step: "lookup (tiered_category req H e cat) k = (if id_of H e = k \<and> satisfies req H e
      then map_option (tier_category (dt_Prefix (the (usable_tier req e))) (deal_of H e)) (lookup cat k) else lookup cat k)"
    by (auto simp: tiered_category_def split: option.splits)
  have "find (\<lambda>x. id_of H x = id_of H e \<and> satisfies req H x) es = None"
    using Cons.prems unfolding find_None_iff by (metis distinct.simps(2) image_eqI list.map(2) set_map)
  then show ?case using Cons.IH [of "tiered_category req H e cat"] Cons.prems step by (auto split: option.splits)
qed simp

text \<open>
  C26. With existing bids of different ids among the top bids, deal support marks exactly the top bids whose deal has
  at least the priority their tier asks for, the tier stated at imp.ext.prebid.bidder or else at imp.ext for the bidder,
  with a prefix and a minimum above zero. In their categories it writes the prefix of the tier and the priority in place of
  all before the first underscore. It reports the top bids with a deal but without a usable tier, in their order, and
  changes nothing else.
\<close>

theorem deal_tiers_applied:
  assumes "\<forall>e\<in>set (top_bids auc). st_pbs H (snd (snd e)) \<noteq> None \<and> bid_at H (snd (snd e)) \<noteq> None"
    and "distinct (map (id_of H) (top_bids auc))"
  shows "\<exists>cat'. applyDealSupport req auc (H, cat) =
      Some ((mark_bids {p. \<exists>e\<in>set (top_bids auc). satisfies req H e \<and> p = snd (snd e)} H, cat'),
            map (\<lambda>e. OtherError (''dealTier configuration invalid for bidder '' @ [CHR 39] @ fst (snd e) @ [CHR 39] @
                '', imp ID '' @ [CHR 39] @ fst e @ [CHR 39])) (filter (untiered req H) (top_bids auc))) \<and>
    (\<forall>e\<in>set (top_bids auc). satisfies req H e \<longrightarrow>
       (\<exists>t. request_tier req (fst e) (fst (snd e)) = Some t \<and> dt_Prefix t \<noteq> [] \<and> 0 < dt_MinDealTier t \<and> dt_MinDealTier t \<le> deal_of H e \<and>
          lookup cat' (id_of H e) = map_option (\<lambda>old. dt_Prefix t @ itoa (deal_of H e) @ ''_'' @ tl (dropWhile (\<lambda>c. c \<noteq> CHR ''_'') old))
            (lookup cat (id_of H e)))) \<and>
    (\<forall>k. (\<forall>e\<in>set (top_bids auc). satisfies req H e \<longrightarrow> id_of H e \<noteq> k) \<longrightarrow> lookup cat' k = lookup cat k)"
proof -
  let ?cat = "fold (tiered_category req H) (top_bids auc) cat"
  have run: "applyDealSupport req auc (H, cat) =
      Some ((mark_bids {p. \<exists>e\<in>set (top_bids auc). satisfies req H e \<and> p = snd (snd e)} H, ?cat),
            map (\<lambda>e. deal_error (fst (snd e)) (fst e)) (filter (untiered req H) (top_bids auc)))"
    using deal_loop [OF assms(1), of req cat "[]"] by (simp add: applyDealSupport_def)
  have tiers: "\<exists>t. request_tier req (fst e) (fst (snd e)) = Some t \<and> dt_Prefix t \<noteq> [] \<and> 0 < dt_MinDealTier t \<and> dt_MinDealTier t \<le> deal_of H e \<and>
      lookup ?cat (id_of H e) = map_option (tier_category (dt_Prefix t) (deal_of H e)) (lookup cat (id_of H e))"
    if e: "e \<in> set (top_bids auc)" "satisfies req H e" for e
  proof -
    have "x = e" if "x \<in> set (top_bids auc)" "id_of H x = id_of H e" for x
      using assms(2) that e(1) by (auto simp: distinct_map dest: inj_onD)
    then have "find (\<lambda>x. id_of H x = id_of H e \<and> satisfies req H x) (top_bids auc) = Some e"
      using e by (intro find_Some_unique) auto
    then show ?thesis using tiered_categories [OF assms(2), of req cat "id_of H e"] e(2)
      by (auto simp: satisfies_def usable_tier_def split: option.splits if_splits)
  qed
  have rest: "lookup ?cat k = lookup cat k" if "\<forall>e\<in>set (top_bids auc). satisfies req H e \<longrightarrow> id_of H e \<noteq> k" for k
  proof -
    have "find (\<lambda>e. id_of H e = k \<and> satisfies req H e) (top_bids auc) = None" using that by (auto simp: find_None_iff)
    then show ?thesis using tiered_categories [OF assms(2), of req cat k] by simp
  qed
  show ?thesis
    using run tiers rest unfolding deal_error_def tier_category_def by (intro exI [of _ ?cat] conjI ballI impI allI) simp_all
qed

section \<open>Properties: the extension of a bid\<close>

lemma enc_str_map: "\<exists>j. enc_map enc_str m = Some j"
proof -
  have "all_some (map (\<lambda>e. map_option (\<lambda>j. (fst e, j)) (enc_str (snd e))) m) = Some (map (\<lambda>e. (fst e, JStr (snd e))) m)"
    by (induction m) (auto simp: enc_str_def)
  then show ?thesis by (simp add: enc_map_def)
qed

lemma enc_parts: "enc_cache c \<noteq> None" "enc_video v \<noteq> None" "enc_events e \<noteq> None"
  by (simp_all add: enc_cache_def enc_video_def enc_events_def enc_struct_def nested_def omit_if_def)

lemma enc_ExtBidPrebid_total: "\<exists>j. enc_ExtBidPrebid x = Some j"
proof -
  let ?ms = "[(''cache'', opt_ptr enc_cache (xb_Cache x)),
     (''dealpriority'', omit_if (xb_DealPriority x = 0) (Member (JInt (xb_DealPriority x)))),
     (''dealtiersatisfied'', omit_if (\<not> xb_DealTierSatisfied x) (Member (JBool True))),
     (''targeting'', omit_if (xb_Targeting x = []) (nested (enc_map enc_str (xb_Targeting x)))),
     (''type'', Member (JStr (xb_Type x))),
     (''video'', opt_ptr enc_video (xb_Video x)),
     (''events'', opt_ptr enc_events (xb_Events x)),
     (''bidid'', omit_if (xb_BidId x = []) (Member (JStr (xb_BidId x))))]"
  have "\<exists>kvs. enc_members ?ms = Some kvs"
    unfolding enc_members_total using enc_str_map [of "xb_Targeting x"] enc_parts by auto
  then show ?thesis by (auto simp: enc_ExtBidPrebid_def enc_struct_def simp del: enc_members.simps)
qed

text \<open>
  The prebid section of a returned bid: the id its cached body has, or else the id of its cached VAST, with the URL it can be
  fetched from; the priority of its deal, its targeting, type, video, events and generated id, each left out when there is none.
\<close>

definition cached_id :: "auction option \<Rightarrow> pbsOrtbBid \<Rightarrow> string option" where
  "cached_id auc pb = Option.bind auc (\<lambda>a. Option.bind (pb_bid pb) (\<lambda>p.
     if lookup (cacheIds a) p \<noteq> None then lookup (cacheIds a) p else lookup (vastCacheIds a) p))"

definition cached_url :: "response_env \<Rightarrow> string \<Rightarrow> string" where
  "cached_url env uuid = (let (scheme, host, path) = re_cacheData env
     in if host = [] \<or> path = [] then []
        else (if scheme = [] then host else scheme @ ''://'' @ host) @ re_escapePath env path @ ''?uuid='' @ query_escape uuid)"

definition prebid_section :: "response_env \<Rightarrow> auction option \<Rightarrow> pbsOrtbBid \<Rightarrow> (string \<times> json) list" where
  "prebid_section env auc pb = concat
     [case cached_id auc pb of None \<Rightarrow> []
        | Some uuid \<Rightarrow> [(''cache'', JObj [(''key'', JStr []), (''url'', JStr []),
            (''bids'', JObj [(''url'', JStr (cached_url env uuid)), (''cacheId'', JStr uuid)])])],
      if pb_dealPriority pb = 0 then [] else [(''dealpriority'', JInt (pb_dealPriority pb))],
      if pb_dealTierSatisfied pb then [(''dealtiersatisfied'', JBool True)] else [],
      if pb_bidTargets pb = [] then [] else [(''targeting'', JObj (sort_key fst (map (\<lambda>(k, v). (k, JStr v)) (pb_bidTargets pb))))],
      [(''type'', JStr (pb_bidType pb))],
      case pb_bidVideo pb of None \<Rightarrow> []
        | Some v \<Rightarrow> [(''video'', JObj [(''duration'', JInt (bv_Duration v)), (''primary_category'', JStr (bv_PrimaryCategory v))])],
      case pb_bidEvents pb of None \<Rightarrow> []
        | Some e \<Rightarrow> [(''events'', JObj ((if be_Win e = [] then [] else [(''win'', JStr (be_Win e))]) @
            (if be_Imp e = [] then [] else [(''imp'', JStr (be_Imp e))])))],
      if pb_generatedBidID pb = [] then [] else [(''bidid'', JStr (pb_generatedBidID pb))]]"

definition member_part :: "string \<times> member \<Rightarrow> (string \<times> json) list" where
  "member_part m = (case snd m of Member j \<Rightarrow> [(fst m, j)] | _ \<Rightarrow> [])"

lemma enc_struct_parts: "\<forall>m\<in>set ms. snd m \<noteq> Bad \<Longrightarrow> enc_struct ms = Some (JObj (concat (map member_part ms)))"
  unfolding enc_struct_def by (induction ms rule: enc_members.induct) (auto simp: member_part_def)

lemma enc_parts_eq:
  "enc_cache c = Some (JObj [(''key'', JStr []), (''url'', JStr []), (''bids'', JObj [(''url'', JStr (fst c)), (''cacheId'', JStr (snd c))])])"
  "enc_video v = Some (JObj [(''duration'', JInt (bv_Duration v)), (''primary_category'', JStr (bv_PrimaryCategory v))])"
  "enc_events e = Some (JObj ((if be_Win e = [] then [] else [(''win'', JStr (be_Win e))]) @ (if be_Imp e = [] then [] else [(''imp'', JStr (be_Imp e))])))"
  "enc_map enc_str m = Some (JObj (sort_key fst (map (\<lambda>(k, v). (k, JStr v)) m)))"
proof -
  have "all_some (map (\<lambda>e. map_option (\<lambda>j. (fst e, j)) (enc_str (snd e))) m) = Some (map (\<lambda>(k, v). (k, JStr v)) m)"
    by (induction m) (auto simp: enc_str_def)
  then show "enc_map enc_str m = Some (JObj (sort_key fst (map (\<lambda>(k, v). (k, JStr v)) m)))" by (simp add: enc_map_def encode_map_def)
qed (simp_all add: enc_cache_def enc_video_def enc_events_def enc_struct_def nested_def omit_if_def)

lemma bid_prebid_section: "enc_ExtBidPrebid (bid_prebid env auc pb) = Some (JObj (prebid_section env auc pb))"
proof -
  have u: "buildCacheURL (re_escapePath env) (re_cacheData env) uuid = cached_url env uuid" for uuid
    by (cases "re_cacheData env") (simp add: cached_url_def buildCacheURL_def)
  have c: "getBidCacheInfo (re_escapePath env) (re_cacheData env) (pb_bid pb) auc = map_option (\<lambda>uuid. (cached_url env uuid, uuid)) (cached_id auc pb)"
    by (cases auc; cases "pb_bid pb") (auto simp: getBidCacheInfo_def findCacheID_def cached_id_def u split: option.splits)
  show ?thesis
    unfolding enc_ExtBidPrebid_def
    by (subst enc_struct_parts)
      (auto simp: bid_prebid_def prebid_section_def member_part_def opt_ptr_def nested_def omit_if_def enc_parts_eq c split: option.splits)
qed

text \<open>An extension that can be read: none, or an object.\<close>

definition readable_ext :: "raw \<Rightarrow> bool" where
  "readable_ext r = (r = RawEmpty \<or> (case unmarshal_ext_map r of Some (Some m) \<Rightarrow> True | _ \<Rightarrow> False))"

definition ext_members :: "raw \<Rightarrow> (string, json) gomap" where
  "ext_members r = (case unmarshal_ext_map r of Some (Some m) \<Rightarrow> m | _ \<Rightarrow> [])"

definition ext_with :: "raw \<Rightarrow> ExtBidPrebid \<Rightarrow> (string \<times> json) list" where
  "ext_with r x = sort_key fst (put PrebidExtKey (the (enc_ExtBidPrebid x)) (ext_members r))"

lemma makeBidExtJSON_readable:
  assumes "readable_ext ext"
  shows "makeBidExtJSON ext x = Some (Inr (Raw (JObj (ext_with ext x))))"
proof -
  from enc_ExtBidPrebid_total [of x] obtain j where j: "enc_ExtBidPrebid x = Some j" by blast
  show ?thesis
  proof (cases "ext = RawEmpty")
    case True
    then show ?thesis by (simp add: makeBidExtJSON_def enc_struct_def nested_def j ext_with_def ext_members_def unmarshal_ext_map_def)
  next
    case False
    with assms obtain m where "unmarshal_ext_map ext = Some (Some m)" by (auto simp: readable_ext_def split: option.splits)
    with False show ?thesis by (simp add: makeBidExtJSON_def j ext_with_def ext_members_def encode_map_def)
  qed
qed

lemma ext_with_fields:
  shows "lookup (ext_with ext x) PrebidExtKey = enc_ExtBidPrebid x" and "json_field PrebidExtKey (ext_with ext x) = enc_ExtBidPrebid x"
    and "k \<noteq> PrebidExtKey \<Longrightarrow> lookup (ext_with ext x) k = lookup (ext_members ext) k"
proof -
  have wf: "wf_map (ext_members ext)"
    using unmarshal_ext_map_wf [of ext] by (auto simp: ext_members_def split: option.splits)
  from enc_ExtBidPrebid_total [of x] obtain j where j: "enc_ExtBidPrebid x = Some j" by blast
  show "lookup (ext_with ext x) PrebidExtKey = enc_ExtBidPrebid x" using wf by (simp add: ext_with_def j)
  have "to_lower PrebidExtKey = PrebidExtKey" by (simp add: PrebidExtKey_def)
  then show "json_field PrebidExtKey (ext_with ext x) = enc_ExtBidPrebid x"
    unfolding ext_with_def using wf by (subst json_field_encoded [where v = j]) (simp_all add: j)
  show "k \<noteq> PrebidExtKey \<Longrightarrow> lookup (ext_with ext x) k = lookup (ext_members ext) k" using wf by (simp add: ext_with_def)
qed

text \<open>A bidder whose bid has the extension null makes the whole auction panic.\<close>

lemma null_bid_ext_panics:
  "st_pbs H p = Some pb \<Longrightarrow> bid_at H p = Some b \<Longrightarrow> bid_Ext b = Raw JNull \<Longrightarrow> makeBid env H auc rc (p # ps) = None"
  by (simp add: makeBid_def bid_step_def makeBidExtJSON_def unmarshal_ext_map_def)

section \<open>Properties: the response\<close>

definition readable_bids :: "store \<Rightarrow> ptr list \<Rightarrow> bool" where
  "readable_bids H ps = (\<forall>p\<in>set ps. st_pbs H p \<noteq> None \<and> (case bid_at H p of None \<Rightarrow> False | Some b \<Rightarrow> readable_ext (bid_Ext b)))"

definition returned_bid :: "response_env \<Rightarrow> store \<Rightarrow> auction option \<Rightarrow> bool \<Rightarrow> ptr \<Rightarrow> Bid" where
  "returned_bid env H auc returnCreative p =
     (let b = the (bid_at H p)
      in b\<lparr>bid_Ext := Raw (JObj (ext_with (bid_Ext b) (bid_prebid env auc (the (st_pbs H p))))),
           bid_AdM := (if returnCreative then bid_AdM b else [])\<rparr>)"

lemma makeBid_readable:
  assumes "readable_bids H ps"
  shows "makeBid env H auc rc ps = Some (map (returned_bid env H auc rc) ps, [])"
proof -
  have "fold_opt (bid_step env H auc rc) ps (acc, []) = Some (acc @ map (returned_bid env H auc rc) ps, [])" for acc
    using assms
  proof (induction ps arbitrary: acc)
    case (Cons p ps)
    from Cons.prems obtain pb b where p: "st_pbs H p = Some pb" "bid_at H p = Some b" "readable_ext (bid_Ext b)"
      by (auto simp: readable_bids_def split: option.splits)
    from Cons.prems have "readable_bids H ps" by (simp add: readable_bids_def)
    with Cons.IH p show ?case by (simp add: bid_step_def makeBidExtJSON_readable returned_bid_def Let_def)
  qed simp
  then show ?thesis by (simp add: makeBid_def)
qed

lemma returned_bids:
  assumes "readable_bids H ps"
  shows "list_all2 (\<lambda>p r. \<exists>b pb kvs. bid_at H p = Some b \<and> st_pbs H p = Some pb \<and>
         r = b\<lparr>bid_Ext := Raw (JObj kvs), bid_AdM := (if returnCreative then bid_AdM b else [])\<rparr> \<and>
         json_field PrebidExtKey kvs = Some (JObj (prebid_section env auc pb)) \<and>
         (\<forall>k. k \<noteq> PrebidExtKey \<longrightarrow> lookup kvs k = lookup (ext_members (bid_Ext b)) k))
    ps (map (returned_bid env H auc returnCreative) ps)"
proof -
  have "\<exists>b pb kvs. bid_at H p = Some b \<and> st_pbs H p = Some pb \<and>
      returned_bid env H auc returnCreative p = b\<lparr>bid_Ext := Raw (JObj kvs), bid_AdM := (if returnCreative then bid_AdM b else [])\<rparr> \<and>
      json_field PrebidExtKey kvs = Some (JObj (prebid_section env auc pb)) \<and>
      (\<forall>k. k \<noteq> PrebidExtKey \<longrightarrow> lookup kvs k = lookup (ext_members (bid_Ext b)) k)" if "p \<in> set ps" for p
  proof -
    from assms that obtain b pb where "bid_at H p = Some b" "st_pbs H p = Some pb" by (auto simp: readable_bids_def split: option.splits)
    then show ?thesis using ext_with_fields(2,3) [where ext = "bid_Ext b" and x = "bid_prebid env auc pb"]
      by (intro exI [of _ b] exI [of _ pb] exI [of _ "ext_with (bid_Ext b) (bid_prebid env auc pb)"])
        (simp add: returned_bid_def Let_def bid_prebid_section)
  qed
  then show ?thesis by (auto simp: list_all2_conv_all_nth)
qed

definition live_seat :: "seats \<Rightarrow> bidderName \<Rightarrow> bool" where
  "live_seat adapterBids a = (seat_bids (Option.bind (lookup adapterBids a) (\<lambda>s. s)) \<noteq> [])"

definition response_seat :: "response_env \<Rightarrow> store \<Rightarrow> auction option \<Rightarrow> bool \<Rightarrow> seats \<Rightarrow> bidderName \<Rightarrow> SeatBid" where
  "response_seat env H auc rc adapterBids a =
     \<lparr>seat_Seat = a, seat_Bid = map (returned_bid env H auc rc) (seat_bids (Option.bind (lookup adapterBids a) (\<lambda>s. s))), seat_Group = 0\<rparr>"

lemma seat_step_live:
  assumes "readable_bids H (seat_bids (Option.bind (lookup adapterBids a) (\<lambda>s. s)))"
  shows "seat_step env H auc rc adapterBids a (ss, cur, extra) =
    (if live_seat adapterBids a
     then Some (ss @ [response_seat env H auc rc adapterBids a], sb_currency (the (the (lookup adapterBids a))), extra)
     else Some (ss, cur, extra))"
proof (cases "Option.bind (lookup adapterBids a) (\<lambda>s. s)")
  case None
  then show ?thesis by (simp add: seat_step_def live_seat_def seat_bids_def)
next
  case (Some sb)
  then have "lookup adapterBids a = Some (Some sb)" by (cases "lookup adapterBids a") auto
  with Some assms show ?thesis
    by (simp add: seat_step_def live_seat_def seat_bids_def makeSeatBid_def makeBid_readable response_seat_def)
qed

lemma seat_loop:
  assumes "\<And>a. a \<in> set live \<Longrightarrow> readable_bids H (seat_bids (Option.bind (lookup adapterBids a) (\<lambda>s. s)))"
  shows "\<exists>cur'. fold_opt (seat_step env H auc rc adapterBids) live (ss, cur, extra) =
    Some (ss @ map (response_seat env H auc rc adapterBids) (filter (live_seat adapterBids) live), cur', extra) \<and>
    (filter (live_seat adapterBids) live = [] \<longrightarrow> cur' = cur) \<and>
    (filter (live_seat adapterBids) live \<noteq> [] \<longrightarrow> cur' = sb_currency (the (the (lookup adapterBids (last (filter (live_seat adapterBids) live))))))"
  using assms
proof (induction live arbitrary: ss cur)
  case (Cons a live)
  note step = seat_step_live [OF Cons.prems [of a], of env auc rc ss cur extra, simplified]
  show ?case
  proof (cases "live_seat adapterBids a")
    case True
    from Cons.IH [of "ss @ [response_seat env H auc rc adapterBids a]" "sb_currency (the (the (lookup adapterBids a)))"] Cons.prems
    show ?thesis using True step by (cases "filter (live_seat adapterBids) live = []") auto
  next
    case False
    with Cons.IH [of ss cur] Cons.prems step show ?thesis by auto
  qed
qed simp

text \<open>
  C27. When the extension of every bid is none or an object and the extension of the response can be encoded, the response
  of an auction has one seat for every bidder with bids, in the order of the bidders, and each
  seat holds exactly the bids of its bidder in their order: unchanged but for the creative, which is dropped when
  the request says so, and the extension, which keeps the other members the bidder sent and has the prebid section of
  the bid: its id in the cache with the URL, the priority of its deal, its targeting, type, video, events and generated id.
  The currency is that of the last seat; a request without bidders is answered as invalid.
\<close>

theorem response_complete:
  assumes "\<forall>a\<in>set live. readable_bids H (seat_bids (Option.bind (lookup adapterBids a) (\<lambda>s. s)))"
    and "encodeBidResponseExt (re_marshalRequest env) x = Some j"
  shows "\<exists>resp. buildBidResponse env H live adapterBids req extra auc x returnCreative = Some (resp, None, extra) \<and>
    br_ID resp = req_ID req \<and> br_Ext resp = Raw j \<and> br_NBR resp = (if live = [] then Some 2 else None) \<and>
    map seat_Seat (br_SeatBid resp) = filter (live_seat adapterBids) live \<and>
    (\<forall>s\<in>set (br_SeatBid resp). list_all2 (\<lambda>p r. \<exists>b pb kvs. bid_at H p = Some b \<and> st_pbs H p = Some pb \<and>
         r = b\<lparr>bid_Ext := Raw (JObj kvs), bid_AdM := (if returnCreative then bid_AdM b else [])\<rparr> \<and>
         json_field PrebidExtKey kvs = Some (JObj (prebid_section env auc pb)) \<and>
         (\<forall>k. k \<noteq> PrebidExtKey \<longrightarrow> lookup kvs k = lookup (ext_members (bid_Ext b)) k))
       (seat_bids (Option.bind (lookup adapterBids (seat_Seat s)) (\<lambda>s. s))) (seat_Bid s)) \<and>
    (filter (live_seat adapterBids) live \<noteq> [] \<longrightarrow>
       br_Cur resp = sb_currency (the (the (lookup adapterBids (last (filter (live_seat adapterBids) live))))))"
proof -
  obtain cur where loop: "fold_opt (seat_step env H auc returnCreative adapterBids) live ([], [], extra) =
      Some (map (response_seat env H auc returnCreative adapterBids) (filter (live_seat adapterBids) live), cur, extra)"
    and cur: "filter (live_seat adapterBids) live \<noteq> [] \<longrightarrow> cur = sb_currency (the (the (lookup adapterBids (last (filter (live_seat adapterBids) live)))))"
    using seat_loop [of live H adapterBids env auc returnCreative "[]" "[]" extra] assms(1) by auto
  let ?resp = "\<lparr>br_ID = req_ID req, br_SeatBid = map (response_seat env H auc returnCreative adapterBids) (filter (live_seat adapterBids) live),
      br_Cur = cur, br_NBR = (if live = [] then Some NoBidReasonCodeInvalidRequest else None), br_Ext = Raw j\<rparr>"
  have run: "buildBidResponse env H live adapterBids req extra auc x returnCreative = Some (?resp, None, extra)"
    by (simp add: buildBidResponse_def loop assms(2))
  have bids: "list_all2 (\<lambda>p r. \<exists>b pb kvs. bid_at H p = Some b \<and> st_pbs H p = Some pb \<and>
         r = b\<lparr>bid_Ext := Raw (JObj kvs), bid_AdM := (if returnCreative then bid_AdM b else [])\<rparr> \<and>
         json_field PrebidExtKey kvs = Some (JObj (prebid_section env auc pb)) \<and>
         (\<forall>k. k \<noteq> PrebidExtKey \<longrightarrow> lookup kvs k = lookup (ext_members (bid_Ext b)) k))
      (seat_bids (Option.bind (lookup adapterBids (seat_Seat s)) (\<lambda>s. s))) (seat_Bid s)" if s: "s \<in> set (br_SeatBid ?resp)" for s
  proof -
    from s obtain a where "a \<in> set live" "s = response_seat env H auc returnCreative adapterBids a" by auto
    then show ?thesis using returned_bids [of H "seat_bids (Option.bind (lookup adapterBids a) (\<lambda>s. s))" returnCreative env auc] assms(1)
      by (simp add: response_seat_def)
  qed
  show ?thesis
    using run bids cur by (intro exI [of _ ?resp] conjI ballI) (simp_all add: response_seat_def comp_def NoBidReasonCodeInvalidRequest_def)
qed

text \<open>The extension of the response, by what each bidder left.\<close>

lemma makeExtBidResponse_errors:
  assumes "wf_map extra" and "lookup extra PrebidExtKey = None"
  shows "lookup (rx_Errors (makeExtBidResponse extra req start dbg errs)) b =
    (if b = PrebidExtKey then (if errs \<noteq> [] \<and> extra \<noteq> [] then Some (errsToBidderErrors errs) else None)
     else (case lookup extra b of Some r \<Rightarrow> if se_Errors r \<noteq> [] then Some (se_Errors r) else None | None \<Rightarrow> None))"
proof -
  have step: "lookup (rx_Errors (extra_step dbg es (c, r) x)) k = (if k = PrebidExtKey \<and> es \<noteq> [] then Some (errsToBidderErrors es)
      else if k = c \<and> se_Errors r \<noteq> [] then Some (se_Errors r) else lookup (rx_Errors x) k)" for c r x k es
    by (simp add: extra_step_def Let_def)
  have "lookup (rx_Errors (fold (extra_step dbg errs) es x)) b =
      (if b = PrebidExtKey then (if errs \<noteq> [] \<and> es \<noteq> [] then Some (errsToBidderErrors errs) else lookup (rx_Errors x) b)
       else (case lookup es b of Some r \<Rightarrow> if se_Errors r \<noteq> [] then Some (se_Errors r) else lookup (rx_Errors x) b | None \<Rightarrow> lookup (rx_Errors x) b))"
    if "wf_map es" "lookup es PrebidExtKey = None" for es x
    using that
  proof (induction es arbitrary: x)
    case (Cons e es)
    obtain c r where e: "e = (c, r)" by (cases e)
    from Cons.prems have "wf_map es" "lookup es PrebidExtKey = None" "c \<noteq> PrebidExtKey" "c \<notin> fst ` set es"
      by (auto simp: e wf_map_def split: if_splits)
    moreover from this(4) have "lookup es c = None" by (simp add: map_of_eq_None_iff)
    ultimately show ?case using Cons.IH [of "extra_step dbg errs (c, r) x"] by (auto simp: e step split: option.splits)
  qed simp
  then show ?thesis using assms by (simp add: makeExtBidResponse_def split: option.split)
qed

text \<open>When no bidder was asked, the errors of the auction are in no response.\<close>

lemma errors_without_bidders_lost: "rx_Errors (makeExtBidResponse [] req start dbg errs) = []"
  by (simp add: makeExtBidResponse_def)

section \<open>Examples\<close>

definition deal_store :: store where
  "deal_store = \<lparr>st_pbs = [0 \<mapsto> \<lparr>pb_bid = Some 0, pb_bidType = ''video'', pb_bidTargets = [], pb_bidVideo = None, pb_bidEvents = None,
       pb_dealPriority = 5, pb_dealTierSatisfied = False, pb_generatedBidID = []\<rparr>],
     st_bid = [0 \<mapsto> \<lparr>bid_ID = ''b1'', bid_ImpID = ''i'', bid_Price = Fin 1, bid_NURL = [], bid_AdM = ''ad'', bid_CrID = ''c'', bid_Cat = [],
       bid_DealID = ''d'', bid_W = 0, bid_H = 0, bid_Exp = 0, bid_Ext = Raw (JObj [(''a'', JInt 1)]), bid_other = JNull\<rparr>]\<rparr>"

definition deal_request :: BidRequest where
  "deal_request = \<lparr>req_ID = ''r'', req_Imp = [\<lparr>imp_ID = ''i'', imp_Banner = None, imp_Video = None, imp_Audio = None, imp_Native = None,
       imp_Instl = 0, imp_Exp = 0, imp_Ext = Raw (JObj [(''x'', JObj [(''dealTier'', JObj [(''prefix'', JStr ''tier''), (''minDealTier'', JInt 5)])])]), imp_TagID = [], imp_Metric = [], imp_PMP = None, imp_Secure = None, imp_other = JNull\<rparr>],
     req_Site = None, req_App = None, req_Device = None, req_User = None, req_Test = 0, req_TMax = 0, req_Cur = [], req_Source = None,
     req_Regs = None, req_Ext = RawEmpty, req_AT = 0, req_other = JNull\<rparr>"

definition deal_auction :: auction where
  "deal_auction = emptyAuction\<lparr>winningBidsByBidder := [(''i'', [(''x'', 0)])]\<rparr>"

theorem deal_tiers_applied_witness:
  "(\<exists>cat'. applyDealSupport deal_request deal_auction (deal_store, [(''b1'', ''10.00_cat_30s'')]) = Some ((mark_bids {0} deal_store, cat'), []) \<and>
     lookup cat' ''b1'' = Some ''tier5_cat_30s'') \<and> satisfies deal_request deal_store (''i'', ''x'', 0)"
proof -
  have t: "top_bids deal_auction = [(''i'', ''x'', 0)]" by code_simp
  have s: "satisfies deal_request deal_store (''i'', ''x'', 0)" "\<not> untiered deal_request deal_store (''i'', ''x'', 0)" "id_of deal_store (''i'', ''x'', 0) = ''b1''"
    "request_tier deal_request ''i'' ''x'' = Some \<lparr>dt_Prefix = ''tier'', dt_MinDealTier = 5\<rparr>" "deal_of deal_store (''i'', ''x'', 0) = 5"
    "itoa 5 = ''5''" by code_simp+
  have "st_pbs deal_store 0 \<noteq> None" "bid_at deal_store 0 \<noteq> None" by code_simp+
  then have v: "\<forall>e\<in>set (top_bids deal_auction). st_pbs deal_store (snd (snd e)) \<noteq> None \<and> bid_at deal_store (snd (snd e)) \<noteq> None"
    "distinct (map (id_of deal_store) (top_bids deal_auction))" by (simp_all add: t)
  from deal_tiers_applied [OF v, of deal_request "[(''b1'', ''10.00_cat_30s'')]"]
  show ?thesis using s by (auto simp: t)
qed

definition response_example :: response_env where
  "response_example = \<lparr>re_escapePath = (\<lambda>s. s), re_cacheData = ([], [], []), re_marshalRequest = (\<lambda>_. Some (JObj []))\<rparr>"

definition example_ext_response :: ExtBidResponse where
  "example_ext_response = makeExtBidResponse [(''x'', \<lparr>se_ResponseTimeMillis = 7, se_Errors = [], se_Warnings = [], se_HttpCalls = []\<rparr>)] deal_request None False []"

theorem response_complete_witness:
  "\<exists>resp. buildBidResponse response_example deal_store [''y'', ''x''] [(''x'', Some \<lparr>sb_bids = [0], sb_currency = ''USD'', sb_httpCalls = []\<rparr>)]
      deal_request [] None example_ext_response False = Some (resp, None, []) \<and>
    map seat_Seat (br_SeatBid resp) = [''x''] \<and> br_Cur resp = ''USD'' \<and> br_ID resp = ''r'' \<and>
    map (map bid_AdM \<circ> seat_Bid) (br_SeatBid resp) = [[[]]]"
proof -
  let ?s = "[(''x'', Some \<lparr>sb_bids = [0], sb_currency = ''USD'', sb_httpCalls = []\<rparr>)]"
  have r: "readable_bids deal_store [0]" "readable_bids deal_store []" by code_simp+
  then have v: "\<forall>a\<in>set [''y'', ''x'']. readable_bids deal_store (seat_bids (Option.bind (lookup ?s a) (\<lambda>s. s)))"
    by (simp add: seat_bids_def)
  have j: "encodeBidResponseExt (re_marshalRequest response_example) example_ext_response = Some (JObj [(''responsetimemillis'', JObj [(''x'', JInt 7)])])"
    by code_simp
  have f: "filter (live_seat ?s) [''y'', ''x''] = [''x'']" by code_simp
  have m: "map_option (\<lambda>(resp, _). map (map bid_AdM \<circ> seat_Bid) (br_SeatBid resp))
      (buildBidResponse response_example deal_store [''y'', ''x''] ?s deal_request [] None example_ext_response False) = Some [[[]]]" by code_simp
  have i: "req_ID deal_request = ''r''" by code_simp
  from response_complete [OF v j, of deal_request "[]" None False] m show ?thesis unfolding f by (auto simp: i)
qed

end
