(* ===== verification/Category_Mapping.thy ===== *)
theory Category_Mapping
  imports Auction Request_Ext "HOL-Library.Multiset"
begin

text \<open>
  Competitive exclusion (\<open>applyCategoryMapping\<close> of \<open>exchange/exchange.go\<close>): every bid gets a category with its price bucket and
  duration, and of the bids with the same category only the dearest stays. The code removes bids from the seats while it
  goes through them, by index in the seat at hand and by id in the seats that are done. The mapping files
  (\<open>fetchCat\<close>) and the coin for bids of the same price (\<open>coin n\<close>, the n-th toss) are parameters; None is a panic.
\<close>

section \<open>Prices as text\<close>

text \<open>\<open>strconv.ParseFloat\<close> on the decimal numerals that price buckets are; 0 for other text, as the caller has it.\<close>

definition parse_decimal :: "string \<Rightarrow> rat option" where
  "parse_decimal s =
     (let whole = takeWhile (\<lambda>c. c \<noteq> CHR ''.'') s; frac = drop (Suc (length whole)) s
      in case (digits_value 0 whole, digits_value 0 frac) of
           (Some w, Some f) \<Rightarrow> if whole = [] \<and> frac = [] then None else Some (of_int w + of_int f / 10 ^ length frac)
         | _ \<Rightarrow> None)"

definition price_value :: "string \<Rightarrow> float64" where
  "price_value s =
     (let (neg, t) = (case s of c # cs \<Rightarrow> if c = CHR ''-'' then (True, cs) else (False, s) | [] \<Rightarrow> (False, []))
      in case Option.bind (parse_decimal t) (\<lambda>q. finite_float (if neg then - q else q)) of Some x \<Rightarrow> x | None \<Rightarrow> Fin 0)"

section \<open>The category of a bid\<close>

definition getPrimaryAdServer :: "int \<Rightarrow> go_error + string" where
  "getPrimaryAdServer adServerId =
     (if adServerId = 1 then Inr ''freewheel'' else if adServerId = 2 then Inr ''dfp''
      else Inl (OtherError (''Primary ad server '' @ itoa adServerId @ '' not recognized'')))"

definition rejection :: "string \<Rightarrow> string \<Rightarrow> string" where
  "rejection bidID reason = ''bid rejected [bid ID: '' @ bidID @ ''] reason: '' @ reason"

text \<open>The settings of the mapping, after the ad server has been resolved.\<close>

record cat_cfg =
  cc_withCategory :: bool
  cc_translate :: bool
  cc_adServer :: string
  cc_publisher :: string
  cc_durations :: "int list"
  cc_appendBidderNames :: bool
  cc_granularity :: PriceGranularity

definition bid_category_name :: "(string \<Rightarrow> string \<Rightarrow> string \<Rightarrow> go_error + string) \<Rightarrow> cat_cfg \<Rightarrow> pbsOrtbBid \<Rightarrow> Bid \<Rightarrow> string + string" where
  "bid_category_name fetchCat cfg pb b =
     (let category = (case pb_bidVideo pb of None \<Rightarrow> [] | Some v \<Rightarrow> bv_PrimaryCategory v)
      in if cc_withCategory cfg \<and> category = []
         then (case bid_Cat b of
             [c] \<Rightarrow>
               if cc_translate cfg
               then (case fetchCat (cc_adServer cfg) (cc_publisher cfg) c of
                  Inr (x # xs) \<Rightarrow> Inr (x # xs)
                | _ \<Rightarrow> Inl (''Category mapping file for primary ad server: '' @ [CHR 39] @ cc_adServer cfg @ [CHR 39] @ '', publisher: '' @
                         [CHR 39] @ cc_publisher cfg @ [CHR 39] @ '' not found''))
               else Inr c
           | _ \<Rightarrow> Inl ''Bid did not contain a category'')
         else Inr category)"

text \<open>The duration that counts: the first of the sorted ranges the bid fits into; none when it is longer than the last.\<close>

definition range_duration :: "int list \<Rightarrow> int \<Rightarrow> int option" where
  "range_duration ranges duration =
     (if ranges = [] then Some duration
      else if duration > last (sort ranges) then None
      else (case find (\<lambda>d. duration \<le> d) (sort ranges) of Some d \<Rightarrow> Some d | None \<Rightarrow> Some duration))"

text \<open>A reason to reject the bid, or its price bucket, the key for finding duplicates and its category with duration.\<close>

definition bid_candidate ::
  "(string \<Rightarrow> string \<Rightarrow> string \<Rightarrow> go_error + string) \<Rightarrow> cat_cfg \<Rightarrow> bidderName \<Rightarrow> pbsOrtbBid \<Rightarrow> Bid \<Rightarrow> string + (string \<times> string \<times> string)" where
  "bid_candidate fetchCat cfg bidder pb b = (case bid_category_name fetchCat cfg pb b of
     Inl reason \<Rightarrow> Inl reason
   | Inr category \<Rightarrow>
       (let price = GetPriceBucket (bid_Price b) (cc_granularity cfg);
            duration = (case pb_bidVideo pb of None \<Rightarrow> 0 | Some v \<Rightarrow> bv_Duration v)
        in case range_duration (cc_durations cfg) duration of
             None \<Rightarrow> Inl ''Bid duration exceeds maximum allowed''
           | Some newDur \<Rightarrow>
               (let catDur = (if cc_withCategory cfg then price @ ''_'' @ category @ ''_'' @ itoa newDur @ ''s'' else price @ ''_'' @ itoa newDur @ ''s'');
                    key = (if cc_withCategory cfg then category else catDur)
                in Inr (price, key, if cc_appendBidderNames cfg then catDur @ ''_'' @ bidder else catDur))))"

section \<open>The loop\<close>

record bidDedupe =
  bd_bidderName :: bidderName
  bd_bidIndex :: nat
  bd_bidID :: string
  bd_bidPrice :: string

record cat_state =
  ks_res :: "(string, string) gomap"
  ks_dedupe :: "(string, bidDedupe) gomap"
  ks_rejections :: "string list"
  ks_tosses :: nat

text \<open>The state with the seats, the seats to be emptied and the indices to be removed from the seat at hand.\<close>

record cat_loop = cat_state +
  kl_seats :: seats
  kl_seatsToRemove :: "bidderName list"
  kl_bidsToRemove :: "nat list"

fun removeBidById :: "store \<Rightarrow> string \<Rightarrow> ptr list \<Rightarrow> ptr list option" where
  "removeBidById H bidID [] = Some []"
| "removeBidById H bidID (p # ps) = (case bid_at H p of
     None \<Rightarrow> None
   | Some b \<Rightarrow> if bid_ID b = bidID then Some ps else map_option (\<lambda>qs. p # qs) (removeBidById H bidID ps))"

text \<open>Whether the bid at hand takes the place of the one before, and the tosses that have been used.\<close>

definition replaces :: "(nat \<Rightarrow> bool) \<Rightarrow> string \<Rightarrow> string \<Rightarrow> nat \<Rightarrow> bool \<times> nat" where
  "replaces coin old new n =
     (let d = price_value old; c = price_value new
      in if fle d c \<and> fle c d then (if coin n then flt (Fin (- 1)) c else flt d (Fin (- 1)), Suc n)
         else (flt d c, n))"

definition accept :: "bidderName \<Rightarrow> nat \<Rightarrow> string \<Rightarrow> string \<times> string \<times> string \<Rightarrow> 'a cat_state_scheme \<Rightarrow> 'a cat_state_scheme" where
  "accept bidder i bidID c st = (case c of (price, key, catDur) \<Rightarrow>
     st\<lparr>ks_res := put bidID catDur (ks_res st),
        ks_dedupe := put key \<lparr>bd_bidderName = bidder, bd_bidIndex = i, bd_bidID = bidID, bd_bidPrice = price\<rparr> (ks_dedupe st)\<rparr>)"

definition reject :: "string \<Rightarrow> string \<Rightarrow> 'a cat_state_scheme \<Rightarrow> 'a cat_state_scheme" where
  "reject bidID reason st = st\<lparr>ks_rejections := ks_rejections st @ [rejection bidID reason]\<rparr>"

text \<open>An older bid is removed: from the seat at hand by its index, from another seat by its id.\<close>

definition remove_old :: "store \<Rightarrow> bidderName \<Rightarrow> bidDedupe \<Rightarrow> cat_loop \<Rightarrow> cat_loop option" where
  "remove_old H bidder d st =
     (if bd_bidderName d = bidder then Some (st\<lparr>kl_bidsToRemove := kl_bidsToRemove st @ [bd_bidIndex d]\<rparr>)
      else (case lookup (kl_seats st) (bd_bidderName d) of
        Some (Some s) \<Rightarrow>
          if length (sb_bids s) = 1 then Some (st\<lparr>kl_seatsToRemove := kl_seatsToRemove st @ [bd_bidderName d]\<rparr>)
          else map_option (\<lambda>ps. st\<lparr>kl_seats := put (bd_bidderName d) (Some (s\<lparr>sb_bids := ps\<rparr>)) (kl_seats st)\<rparr>)
                 (removeBidById H (bd_bidID d) (sb_bids s))
      | _ \<Rightarrow> None))"

definition cat_step ::
  "(string \<Rightarrow> string \<Rightarrow> string \<Rightarrow> go_error + string) \<Rightarrow> (nat \<Rightarrow> bool) \<Rightarrow> cat_cfg \<Rightarrow> store \<Rightarrow> bidderName \<Rightarrow> nat \<times> ptr \<Rightarrow> cat_loop \<Rightarrow> cat_loop option" where
  "cat_step fetchCat coin cfg H bidder ip st = (case (st_pbs H (snd ip), bid_at H (snd ip)) of
     (Some pb, Some b) \<Rightarrow>
       (let drop_this = (\<lambda>reason s. (reject (bid_ID b) reason s)\<lparr>kl_bidsToRemove := kl_bidsToRemove s @ [fst ip]\<rparr>)
        in case bid_candidate fetchCat cfg bidder pb b of
             Inl reason \<Rightarrow> Some (drop_this reason st)
           | Inr c \<Rightarrow>
               (case lookup (ks_dedupe st) (fst (snd c)) of
                  None \<Rightarrow> Some (accept bidder (fst ip) (bid_ID b) c st)
                | Some d \<Rightarrow>
                    (case replaces coin (bd_bidPrice d) (fst c) (ks_tosses st) of (newer, n) \<Rightarrow>
                       (let st1 = st\<lparr>ks_tosses := n\<rparr>
                        in if newer
                           then map_option (\<lambda>s. accept bidder (fst ip) (bid_ID b) c
                                  ((reject (bd_bidID d) ''Bid was deduplicated'' s)\<lparr>ks_res := del (bd_bidID d) (ks_res s)\<rparr>)) (remove_old H bidder d st1)
                           else Some (drop_this ''Bid was deduplicated'' st1)))))
   | _ \<Rightarrow> None)"

definition remove_indices :: "nat list \<Rightarrow> ptr list \<Rightarrow> ptr list option" where
  "remove_indices idx ps = fold_opt (\<lambda>i xs. if i < length xs then Some (take i xs @ drop (Suc i) xs) else None) (rev (sort idx)) ps"

definition cat_seat ::
  "(string \<Rightarrow> string \<Rightarrow> string \<Rightarrow> go_error + string) \<Rightarrow> (nat \<Rightarrow> bool) \<Rightarrow> cat_cfg \<Rightarrow> store \<Rightarrow> bidderName \<Rightarrow> cat_loop \<Rightarrow> cat_loop option" where
  "cat_seat fetchCat coin cfg H bidder st = (case lookup (kl_seats st) bidder of
     Some (Some s) \<Rightarrow>
       (case fold_opt (cat_step fetchCat coin cfg H bidder) (enumerate 0 (sb_bids s)) (st\<lparr>kl_bidsToRemove := []\<rparr>) of
          None \<Rightarrow> None
        | Some st1 \<Rightarrow>
            if kl_bidsToRemove st1 = [] then Some st1
            else if length (kl_bidsToRemove st1) = length (sb_bids s)
            then Some (st1\<lparr>kl_seatsToRemove := kl_seatsToRemove st1 @ [bidder]\<rparr>)
            else map_option (\<lambda>ps. st1\<lparr>kl_seats := put bidder (Some (s\<lparr>sb_bids := ps\<rparr>)) (kl_seats st1)\<rparr>)
                   (remove_indices (kl_bidsToRemove st1) (sb_bids s)))
   | _ \<Rightarrow> None)"

definition empty_seat :: "bidderName \<Rightarrow> seats \<Rightarrow> seats option" where
  "empty_seat bidder seats = (case lookup seats bidder of
     Some (Some s) \<Rightarrow> Some (put bidder (Some (s\<lparr>sb_bids := []\<rparr>)) seats) | _ \<Rightarrow> None)"

definition category_settings :: "IncludeBrandCategory \<Rightarrow> Targeting \<Rightarrow> PriceGranularity \<Rightarrow> go_error + cat_cfg" where
  "category_settings brandCatExt t pg =
     (let translate = (if ibc_WithCategory brandCatExt then (case ibc_TranslateCategories brandCatExt of Some b \<Rightarrow> b | None \<Rightarrow> True) else True);
          cfg = (\<lambda>server publisher. \<lparr>cc_withCategory = ibc_WithCategory brandCatExt, cc_translate = translate, cc_adServer = server,
            cc_publisher = publisher, cc_durations = tg_DurationRangeSec t, cc_appendBidderNames = tg_AppendBidderNames t, cc_granularity = pg\<rparr>)
      in if ibc_WithCategory brandCatExt \<and> translate
         then (case getPrimaryAdServer (ibc_PrimaryAdServer brandCatExt) of Inl e \<Rightarrow> Inl e | Inr s \<Rightarrow> Inr (cfg s (ibc_Publisher brandCatExt)))
         else Inr (cfg [] []))"

text \<open>The categories by bid id, the seats, the rejections and the error.\<close>

definition applyCategoryMapping ::
  "(string \<Rightarrow> string \<Rightarrow> string \<Rightarrow> go_error + string) \<Rightarrow> (nat \<Rightarrow> bool) \<Rightarrow> IncludeBrandCategory \<Rightarrow> Targeting \<Rightarrow> PriceGranularity \<Rightarrow> store \<Rightarrow> seats
     \<Rightarrow> ((string, string) gomap \<times> seats \<times> string list \<times> go_error option) option" where
  "applyCategoryMapping fetchCat coin brandCatExt t pg H seats = (case category_settings brandCatExt t pg of
     Inl e \<Rightarrow> Some ([], seats, [], Some e)
   | Inr cfg \<Rightarrow>
       (case fold_opt (cat_seat fetchCat coin cfg H) (map fst seats)
               \<lparr>ks_res = [], ks_dedupe = [], ks_rejections = [], ks_tosses = 0, kl_seats = seats, kl_seatsToRemove = [], kl_bidsToRemove = []\<rparr> of
          None \<Rightarrow> None
        | Some st \<Rightarrow>
            map_option (\<lambda>seats'. (ks_res st, seats', ks_rejections st, None)) (fold_opt empty_seat (kl_seatsToRemove st) (kl_seats st))))"

section \<open>The same without removing bids on the way\<close>

text \<open>The reference goes through the bids once and only keeps the table of the bids that are best so far.\<close>

abbreviation pid :: "store \<Rightarrow> ptr \<Rightarrow> string" where
  "pid H p \<equiv> bid_ID (the (bid_at H p))"

definition candidate ::
  "(string \<Rightarrow> string \<Rightarrow> string \<Rightarrow> go_error + string) \<Rightarrow> cat_cfg \<Rightarrow> store \<Rightarrow> bidderName \<Rightarrow> ptr \<Rightarrow> string + (string \<times> string \<times> string)" where
  "candidate fetchCat cfg H bidder p = bid_candidate fetchCat cfg bidder (the (st_pbs H p)) (the (bid_at H p))"

definition ref_step ::
  "(string \<Rightarrow> string \<Rightarrow> string \<Rightarrow> go_error + string) \<Rightarrow> (nat \<Rightarrow> bool) \<Rightarrow> cat_cfg \<Rightarrow> store \<Rightarrow> bidderName \<times> nat \<times> ptr \<Rightarrow> cat_state \<Rightarrow> cat_state" where
  "ref_step fetchCat coin cfg H e st = (case e of (bidder, i, p) \<Rightarrow> (case candidate fetchCat cfg H bidder p of
     Inl reason \<Rightarrow> reject (pid H p) reason st
   | Inr c \<Rightarrow> (case lookup (ks_dedupe st) (fst (snd c)) of
        None \<Rightarrow> accept bidder i (pid H p) c st
      | Some d \<Rightarrow> (case replaces coin (bd_bidPrice d) (fst c) (ks_tosses st) of (newer, n) \<Rightarrow>
          if newer
          then accept bidder i (pid H p) c ((reject (bd_bidID d) ''Bid was deduplicated'' st)\<lparr>ks_tosses := n, ks_res := del (bd_bidID d) (ks_res st)\<rparr>)
          else (reject (pid H p) ''Bid was deduplicated'' st)\<lparr>ks_tosses := n\<rparr>))))"

definition seat_cands :: "bidderName \<Rightarrow> ptr list \<Rightarrow> (bidderName \<times> nat \<times> ptr) list" where
  "seat_cands b ps = map (\<lambda>(i, p). (b, i, p)) (enumerate 0 ps)"

definition all_cands :: "seats \<Rightarrow> (bidderName \<times> nat \<times> ptr) list" where
  "all_cands seats = concat (map (\<lambda>(b, s). seat_cands b (seat_bids s)) seats)"

definition no_cats :: cat_state where
  "no_cats = \<lparr>ks_res = [], ks_dedupe = [], ks_rejections = [], ks_tosses = 0\<rparr>"

definition ref_loop where
  "ref_loop fetchCat coin cfg H es = fold (ref_step fetchCat coin cfg H) es no_cats"

text \<open>A bid is kept when it is in the table.\<close>

definition kept :: "store \<Rightarrow> (string, bidDedupe) gomap \<Rightarrow> bidderName \<Rightarrow> ptr \<Rightarrow> bool" where
  "kept H D b p = (\<exists>k d. lookup D k = Some d \<and> bd_bidderName d = b \<and> bd_bidID d = pid H p)"

lemma kept_code [code]:
  "kept H D b p \<longleftrightarrow> list_ex (\<lambda>k. case lookup D k of None \<Rightarrow> False | Some d \<Rightarrow> bd_bidderName d = b \<and> bd_bidID d = pid H p) (map fst D)"
proof -
  have "k \<in> set (map fst D)" if "lookup D k = Some d" for k d using map_of_SomeD [OF that] by force
  then show ?thesis unfolding kept_def list_ex_iff by (fastforce split: option.splits)
qed

section \<open>The invariant of the reference\<close>

definition table_ok ::
  "(string \<Rightarrow> string \<Rightarrow> string \<Rightarrow> go_error + string) \<Rightarrow> cat_cfg \<Rightarrow> store \<Rightarrow> (bidderName \<times> nat \<times> ptr) list \<Rightarrow> cat_state \<Rightarrow> bool" where
  "table_ok fetchCat cfg H seen st =
     (wf_map (ks_dedupe st) \<and>
      (\<forall>k d. lookup (ks_dedupe st) k = Some d \<longrightarrow> (\<exists>p catDur. (bd_bidderName d, bd_bidIndex d, p) \<in> set seen \<and> bd_bidID d = pid H p \<and>
         candidate fetchCat cfg H (bd_bidderName d) p = Inr (bd_bidPrice d, k, catDur) \<and> lookup (ks_res st) (bd_bidID d) = Some catDur)) \<and>
      (\<forall>i. lookup (ks_res st) i \<noteq> None \<longrightarrow> (\<exists>k d. lookup (ks_dedupe st) k = Some d \<and> bd_bidID d = i)) \<and>
      (\<forall>b i p price k catDur. (b, i, p) \<in> set seen \<and> candidate fetchCat cfg H b p = Inr (price, k, catDur) \<longrightarrow>
         (\<exists>d. lookup (ks_dedupe st) k = Some d \<and> fle (price_value price) (price_value (bd_bidPrice d)))) \<and>
      length (ks_rejections st) + length (ks_dedupe st) = length seen)"

lemma price_value_Fin: "\<exists>v. price_value s = Fin v"
  unfolding price_value_def
  by (auto simp: Let_def split: prod.splits option.splits list.splits bind_splits dest: finite_float_Some)

lemma replaces_price:
  assumes "replaces coin old new n = (newer, n')"
  shows "newer \<Longrightarrow> fle (price_value old) (price_value new)" and "\<not> newer \<Longrightarrow> fle (price_value new) (price_value old)"
proof -
  obtain a b where "price_value old = Fin a" "price_value new = Fin b" using price_value_Fin by meson
  with assms show "newer \<Longrightarrow> fle (price_value old) (price_value new)" "\<not> newer \<Longrightarrow> fle (price_value new) (price_value old)"
    by (auto simp: replaces_def Let_def split: if_splits)
qed

lemma length_put: "length (put k v m) = (if lookup m k = None then Suc (length m) else length m)"
  by (induction m) auto

lemma table_okD:
  assumes "table_ok fetchCat cfg H seen st"
  shows "wf_map (ks_dedupe st)"
    and "lookup (ks_dedupe st) k = Some d \<Longrightarrow> \<exists>p catDur. (bd_bidderName d, bd_bidIndex d, p) \<in> set seen \<and> bd_bidID d = pid H p \<and>
         candidate fetchCat cfg H (bd_bidderName d) p = Inr (bd_bidPrice d, k, catDur) \<and> lookup (ks_res st) (bd_bidID d) = Some catDur"
    and "lookup (ks_res st) i = Some c \<Longrightarrow> \<exists>k d. lookup (ks_dedupe st) k = Some d \<and> bd_bidID d = i"
    and "(b, j, p) \<in> set seen \<Longrightarrow> candidate fetchCat cfg H b p = Inr (price, k, catDur) \<Longrightarrow>
         \<exists>d. lookup (ks_dedupe st) k = Some d \<and> fle (price_value price) (price_value (bd_bidPrice d))"
    and "length (ks_rejections st) + length (ks_dedupe st) = length seen"
  using assms unfolding table_ok_def by blast+

lemma table_okI:
  assumes "wf_map (ks_dedupe st)"
    and "\<And>k d. lookup (ks_dedupe st) k = Some d \<Longrightarrow> \<exists>p catDur. (bd_bidderName d, bd_bidIndex d, p) \<in> set seen \<and> bd_bidID d = pid H p \<and>
         candidate fetchCat cfg H (bd_bidderName d) p = Inr (bd_bidPrice d, k, catDur) \<and> lookup (ks_res st) (bd_bidID d) = Some catDur"
    and "\<And>i. lookup (ks_res st) i \<noteq> None \<Longrightarrow> \<exists>k d. lookup (ks_dedupe st) k = Some d \<and> bd_bidID d = i"
    and "\<And>b j p price k catDur. (b, j, p) \<in> set seen \<Longrightarrow> candidate fetchCat cfg H b p = Inr (price, k, catDur) \<Longrightarrow>
         \<exists>d. lookup (ks_dedupe st) k = Some d \<and> fle (price_value price) (price_value (bd_bidPrice d))"
    and "length (ks_rejections st) + length (ks_dedupe st) = length seen"
  shows "table_ok fetchCat cfg H seen st"
  using assms unfolding table_ok_def by blast

definition seen_ids :: "store \<Rightarrow> (bidderName \<times> nat \<times> ptr) list \<Rightarrow> string list" where
  "seen_ids H seen = map (\<lambda>e. pid H (snd (snd e))) seen"

lemma seen_same:
  assumes "distinct (seen_ids H seen)" and "e \<in> set seen" and "e' \<in> set seen" and "pid H (snd (snd e)) = pid H (snd (snd e'))"
  shows "e = e'"
  using assms unfolding seen_ids_def distinct_map by (meson inj_onD)

lemma entry_key_unique:
  assumes ok: "table_ok fetchCat cfg H seen st" and dist: "distinct (seen_ids H seen)"
    and "lookup (ks_dedupe st) k = Some d" and "lookup (ks_dedupe st) k' = Some d'" and "bd_bidID d = bd_bidID d'"
  shows "k = k'"
proof -
  from table_okD(2) [OF ok assms(3)] table_okD(2) [OF ok assms(4)] obtain p c p' c' where
    *: "(bd_bidderName d, bd_bidIndex d, p) \<in> set seen" "bd_bidID d = pid H p" "candidate fetchCat cfg H (bd_bidderName d) p = Inr (bd_bidPrice d, k, c)"
    "(bd_bidderName d', bd_bidIndex d', p') \<in> set seen" "bd_bidID d' = pid H p'" "candidate fetchCat cfg H (bd_bidderName d') p' = Inr (bd_bidPrice d', k', c')"
    by blast
  with seen_same [OF dist *(1,4)] assms(5) show ?thesis by auto
qed

lemma entry_seen:
  "table_ok fetchCat cfg H seen st \<Longrightarrow> lookup (ks_dedupe st) k = Some d \<Longrightarrow> bd_bidID d \<in> set (seen_ids H seen)"
  using table_okD(2) [of fetchCat cfg H seen st k d] by (force simp: seen_ids_def)

text \<open>The step that puts a bid into the table, when its key is free or its price is at least that of the bid before.\<close>

lemma accept_fields:
  "ks_res (accept b i j (price, k, c) st) = put j c (ks_res st)" "ks_rejections (accept b i j (price, k, c) st) = ks_rejections st"
  "ks_dedupe (accept b i j (price, k, c) st) = put k \<lparr>bd_bidderName = b, bd_bidIndex = i, bd_bidID = j, bd_bidPrice = price\<rparr> (ks_dedupe st)"
  "ks_tosses (accept b i j (price, k, c) st) = ks_tosses st"
  by (simp_all add: accept_def)

lemma table_ok_accept:
  assumes ok: "table_ok fetchCat cfg H seen st" and dist: "distinct (seen_ids H seen)" and fresh: "pid H p \<notin> set (seen_ids H seen)"
    and c: "candidate fetchCat cfg H b p = Inr (price, k, catDur)"
    and old: "\<And>d. lookup (ks_dedupe st) k = Some d \<Longrightarrow> fle (price_value (bd_bidPrice d)) (price_value price)"
    and res: "res' = (case lookup (ks_dedupe st) k of None \<Rightarrow> ks_res st | Some d \<Rightarrow> del (bd_bidID d) (ks_res st))"
    and rej: "length rej' = length (ks_rejections st) + (if lookup (ks_dedupe st) k = None then 0 else 1)"
  shows "table_ok fetchCat cfg H (seen @ [(b, i, p)])
    (accept b i (pid H p) (price, k, catDur) \<lparr>ks_res = res', ks_dedupe = ks_dedupe st, ks_rejections = rej', ks_tosses = n\<rparr>)"
proof -
  let ?new = "\<lparr>bd_bidderName = b, bd_bidIndex = i, bd_bidID = pid H p, bd_bidPrice = price\<rparr>"
  let ?D = "put k ?new (ks_dedupe st)" and ?R = "put (pid H p) catDur res'"
  have other: "lookup res' (bd_bidID d') = lookup (ks_res st) (bd_bidID d')" if "lookup (ks_dedupe st) k' = Some d'" "k' \<noteq> k" for k' d'
    using entry_key_unique [OF ok dist that(1)] that(2) by (auto simp: res split: option.splits)
  have old_id: "bd_bidID d' \<noteq> pid H p" if "lookup (ks_dedupe st) k' = Some d'" for k' d'
    using entry_seen [OF ok that] fresh by auto
  have entries: "\<exists>q cd. (bd_bidderName d, bd_bidIndex d, q) \<in> set (seen @ [(b, i, p)]) \<and> bd_bidID d = pid H q \<and>
       candidate fetchCat cfg H (bd_bidderName d) q = Inr (bd_bidPrice d, k', cd) \<and> lookup ?R (bd_bidID d) = Some cd"
    if "lookup ?D k' = Some d" for k' d
  proof (cases "k' = k")
    case True
    with that have "d = ?new" by simp
    with True c show ?thesis by auto
  next
    case False
    with that have "lookup (ks_dedupe st) k' = Some d" by simp
    with table_okD(2) [OF ok this] other [OF this False] old_id [OF this] show ?thesis by force
  qed
  moreover have "\<exists>k' d. lookup ?D k' = Some d \<and> bd_bidID d = j" if "lookup ?R j \<noteq> None" for j
  proof (cases "j = pid H p")
    case True
    then show ?thesis by (intro exI [of _ k] exI [of _ ?new]) simp
  next
    case False
    with that have "lookup res' j \<noteq> None" by simp
    then obtain x where "lookup (ks_res st) j = Some x" and gone: "\<And>d. lookup (ks_dedupe st) k = Some d \<Longrightarrow> bd_bidID d \<noteq> j"
      by (auto simp: res split: option.splits if_splits)
    from table_okD(3) [OF ok this(1)] obtain k' d where "lookup (ks_dedupe st) k' = Some d" "bd_bidID d = j" by blast
    with gone show ?thesis by (intro exI [of _ k'] exI [of _ d]) auto
  qed
  moreover have "\<exists>d. lookup ?D k' = Some d \<and> fle (price_value pr) (price_value (bd_bidPrice d))"
    if "(b', j, q) \<in> set (seen @ [(b, i, p)])" "candidate fetchCat cfg H b' q = Inr (pr, k', cd)" for b' j q pr k' cd
  proof (cases "(b', j, q) \<in> set seen")
    case True
    from table_okD(4) [OF ok True that(2)] obtain d where d: "lookup (ks_dedupe st) k' = Some d" "fle (price_value pr) (price_value (bd_bidPrice d))" by blast
    show ?thesis
    proof (cases "k' = k")
      case True
      with d(1) old have "fle (price_value (bd_bidPrice d)) (price_value price)" by simp
      with d(2) True show ?thesis by (auto intro: fle_trans)
    qed (use d in auto)
  next
    case False
    with that c have "pr = price" "k' = k" by auto
    moreover obtain v where "price_value price = Fin v" using price_value_Fin by blast
    ultimately show ?thesis by simp
  qed
  moreover have "length rej' + length ?D = length (seen @ [(b, i, p)])"
    using table_okD(5) [OF ok] rej by (auto simp: length_put)
  ultimately show ?thesis using table_okD(1) [OF ok] by (intro table_okI) (simp_all only: accept_fields wf_map_put cat_state.select_convs)
qed

lemma table_ok_skip:
  assumes ok: "table_ok fetchCat cfg H seen st"
    and skip: "\<And>price k catDur. candidate fetchCat cfg H b p = Inr (price, k, catDur) \<Longrightarrow>
      \<exists>d. lookup (ks_dedupe st) k = Some d \<and> fle (price_value price) (price_value (bd_bidPrice d))"
  shows "table_ok fetchCat cfg H (seen @ [(b, i, p)]) ((reject j r st)\<lparr>ks_tosses := n\<rparr>)"
proof (rule table_okI)
  show "wf_map (ks_dedupe ((reject j r st)\<lparr>ks_tosses := n\<rparr>))" using table_okD(1) [OF ok] by (simp add: reject_def)
  fix k d assume "lookup (ks_dedupe ((reject j r st)\<lparr>ks_tosses := n\<rparr>)) k = Some d"
  then have "lookup (ks_dedupe st) k = Some d" by (simp add: reject_def)
  from table_okD(2) [OF ok this] show "\<exists>q cd. (bd_bidderName d, bd_bidIndex d, q) \<in> set (seen @ [(b, i, p)]) \<and> bd_bidID d = pid H q \<and>
      candidate fetchCat cfg H (bd_bidderName d) q = Inr (bd_bidPrice d, k, cd) \<and> lookup (ks_res ((reject j r st)\<lparr>ks_tosses := n\<rparr>)) (bd_bidID d) = Some cd"
    by (auto simp: reject_def)
next
  fix x assume "lookup (ks_res ((reject j r st)\<lparr>ks_tosses := n\<rparr>)) x \<noteq> None"
  then obtain c where "lookup (ks_res st) x = Some c" by (auto simp: reject_def)
  from table_okD(3) [OF ok this] show "\<exists>k d. lookup (ks_dedupe ((reject j r st)\<lparr>ks_tosses := n\<rparr>)) k = Some d \<and> bd_bidID d = x"
    by (simp add: reject_def)
next
  fix b' j' q price k cd
  assume "(b', j', q) \<in> set (seen @ [(b, i, p)])" and "candidate fetchCat cfg H b' q = Inr (price, k, cd)"
  then show "\<exists>d. lookup (ks_dedupe ((reject j r st)\<lparr>ks_tosses := n\<rparr>)) k = Some d \<and> fle (price_value price) (price_value (bd_bidPrice d))"
    using table_okD(4) [OF ok] skip by (auto simp: reject_def)
next
  show "length (ks_rejections ((reject j r st)\<lparr>ks_tosses := n\<rparr>)) + length (ks_dedupe ((reject j r st)\<lparr>ks_tosses := n\<rparr>)) = length (seen @ [(b, i, p)])"
    using table_okD(5) [OF ok] by (simp add: reject_def)
qed

lemma table_ok_step:
  assumes ok: "table_ok fetchCat cfg H seen st" and dist: "distinct (seen_ids H (seen @ [(b, i, p)]))"
  shows "table_ok fetchCat cfg H (seen @ [(b, i, p)]) (ref_step fetchCat coin cfg H (b, i, p) st)"
proof -
  have d: "distinct (seen_ids H seen)" and fresh: "pid H p \<notin> set (seen_ids H seen)" using dist by (auto simp: seen_ids_def)
  show ?thesis
  proof (cases "candidate fetchCat cfg H b p")
    case (Inl reason)
    then have "ref_step fetchCat coin cfg H (b, i, p) st = (reject (pid H p) reason st)\<lparr>ks_tosses := ks_tosses st\<rparr>"
      by (simp add: ref_step_def reject_def)
    moreover have "table_ok fetchCat cfg H (seen @ [(b, i, p)]) ((reject (pid H p) reason st)\<lparr>ks_tosses := ks_tosses st\<rparr>)"
      by (rule table_ok_skip [OF ok]) (simp add: Inl)
    ultimately show ?thesis by simp
  next
    case (Inr c)
    obtain price k cd where c: "c = (price, k, cd)" by (metis prod.exhaust)
    note cand = Inr [unfolded c]
    show ?thesis
    proof (cases "lookup (ks_dedupe st) k")
      case None
      then have "ref_step fetchCat coin cfg H (b, i, p) st =
          accept b i (pid H p) (price, k, cd) \<lparr>ks_res = ks_res st, ks_dedupe = ks_dedupe st, ks_rejections = ks_rejections st, ks_tosses = ks_tosses st\<rparr>"
        by (cases st) (simp add: ref_step_def Inr c)
      with None show ?thesis using table_ok_accept [OF ok d fresh cand, of "ks_res st" "ks_rejections st" i "ks_tosses st"] by simp
    next
      case (Some old)
      obtain newer n where r: "replaces coin (bd_bidPrice old) price (ks_tosses st) = (newer, n)" by (metis prod.exhaust)
      show ?thesis
      proof (cases newer)
        case True
        then have "ref_step fetchCat coin cfg H (b, i, p) st = accept b i (pid H p) (price, k, cd)
            \<lparr>ks_res = del (bd_bidID old) (ks_res st), ks_dedupe = ks_dedupe st, ks_rejections = ks_rejections (reject (bd_bidID old) ''Bid was deduplicated'' st), ks_tosses = n\<rparr>"
          using Some r by (cases st) (simp add: ref_step_def Inr c reject_def)
        with Some True show ?thesis
          using table_ok_accept [OF ok d fresh cand, of "del (bd_bidID old) (ks_res st)" "ks_rejections (reject (bd_bidID old) ''Bid was deduplicated'' st)" i n]
            replaces_price(1) [OF r] by (simp add: reject_def)
      next
        case False
        then have "ref_step fetchCat coin cfg H (b, i, p) st = (reject (pid H p) ''Bid was deduplicated'' st)\<lparr>ks_tosses := n\<rparr>"
          using Some r by (simp add: ref_step_def Inr c)
        moreover have "\<exists>d. lookup (ks_dedupe st) k' = Some d \<and> fle (price_value price') (price_value (bd_bidPrice d))"
          if "candidate fetchCat cfg H b p = Inr (price', k', cd')" for price' k' cd'
          using that cand Some replaces_price(2) [OF r False] by auto
        then have "table_ok fetchCat cfg H (seen @ [(b, i, p)]) ((reject (pid H p) ''Bid was deduplicated'' st)\<lparr>ks_tosses := n\<rparr>)"
          by (rule table_ok_skip [OF ok])
        ultimately show ?thesis by simp
      qed
    qed
  qed
qed

lemma table_ok_loop:
  assumes "table_ok fetchCat cfg H seen st" and "distinct (seen_ids H (seen @ es))"
  shows "table_ok fetchCat cfg H (seen @ es) (fold (ref_step fetchCat coin cfg H) es st)"
  using assms
proof (induction es arbitrary: seen st)
  case (Cons e es)
  obtain b i p where e: "e = (b, i, p)" by (metis prod.exhaust)
  have "distinct (seen_ids H (seen @ [(b, i, p)]))" using Cons.prems(2) by (auto simp: seen_ids_def e)
  from Cons.IH [OF table_ok_step [OF Cons.prems(1) this, of coin]] Cons.prems(2) show ?case by (simp add: e)
qed simp

section \<open>The loop keeps what the reference keeps\<close>

text \<open>Seats as the auction has them: no nil seat, no dangling bid, and every bid with an id of its own.\<close>

definition good_seats :: "store \<Rightarrow> seats \<Rightarrow> bool" where
  "good_seats H seats = (wf_map seats \<and> (\<forall>(b, s)\<in>set seats. s \<noteq> None) \<and>
     (\<forall>(b, p)\<in>set (all_bids seats). st_pbs H p \<noteq> None \<and> bid_at H p \<noteq> None) \<and> distinct (seen_ids H (all_cands seats)))"

lemma in_all_cands:
  assumes "lookup seats b = Some (Some s)" and "i < length (sb_bids s)"
  shows "(b, i, sb_bids s ! i) \<in> set (all_cands seats)"
proof -
  have "(b, Some s) \<in> set seats" using assms(1) by (rule map_of_SomeD)
  moreover have "(b, i, sb_bids s ! i) \<in> set (seat_cands b (sb_bids s))"
    using assms(2) by (force simp: seat_cands_def in_set_enumerate_eq image_iff)
  ultimately show ?thesis by (force simp: all_cands_def seat_bids_def)
qed

lemma good_ids:
  assumes "good_seats H seats" and "lookup seats b = Some (Some s)" and "lookup seats b' = Some (Some s')"
    and "i < length (sb_bids s)" and "j < length (sb_bids s')" and "pid H (sb_bids s ! i) = pid H (sb_bids s' ! j)"
  shows "b = b' \<and> i = j"
proof -
  have "distinct (seen_ids H (all_cands seats))" using assms(1) by (simp add: good_seats_def)
  from seen_same [OF this in_all_cands [OF assms(2,4)] in_all_cands [OF assms(3,5)]] assms(6) show ?thesis by simp
qed

lemma good_bids:
  assumes "good_seats H seats" and "lookup seats b = Some (Some s)" and "p \<in> set (sb_bids s)"
  shows "st_pbs H p \<noteq> None" "bid_at H p \<noteq> None"
proof -
  have "(b, Some s) \<in> set seats" using assms(2) by (rule map_of_SomeD)
  then have "(b, p) \<in> set (all_bids seats)" using assms(3) by (force simp: set_all_bids seat_bids_def)
  with assms(1) show "st_pbs H p \<noteq> None" "bid_at H p \<noteq> None" by (auto simp: good_seats_def)
qed

lemma good_distinct:
  assumes "good_seats H seats" and "lookup seats b = Some (Some s)"
  shows "distinct (map (pid H) (sb_bids s))"
  unfolding distinct_conv_nth using good_ids [OF assms(1,2,2)] by (auto simp del: nth_map simp: nth_map)

lemma removeBidById_filter:
  assumes "\<forall>p\<in>set ps. bid_at H p \<noteq> None" and "distinct (map (pid H) ps)"
  shows "removeBidById H i ps = Some (filter (\<lambda>p. pid H p \<noteq> i) ps)"
  using assms
proof (induction ps)
  case (Cons p ps)
  then obtain b where b: "bid_at H p = Some b" by auto
  show ?case
  proof (cases "bid_ID b = i")
    case True
    have "pid H q \<noteq> i" if "q \<in> set ps" for q
      using Cons.prems(2) True b that by (auto simp: image_iff)
    with True b show ?thesis by simp
  qed (use Cons b in simp)
qed simp

definition finished :: "store \<Rightarrow> seats \<Rightarrow> (string, bidDedupe) gomap \<Rightarrow> seats \<Rightarrow> bidderName list \<Rightarrow> bidderName \<Rightarrow> bool" where
  "finished H seats D cs rm b = (\<exists>s0 s. lookup seats b = Some (Some s0) \<and> lookup cs b = Some (Some s) \<and> s\<lparr>sb_bids := []\<rparr> = s0\<lparr>sb_bids := []\<rparr> \<and>
     (if b \<in> set rm then \<forall>p\<in>set (sb_bids s0). \<not> kept H D b p else sb_bids s = filter (kept H D b) (sb_bids s0)))"

definition loop_ok :: "store \<Rightarrow> seats \<Rightarrow> bidderName list \<Rightarrow> cat_loop \<Rightarrow> bool" where
  "loop_ok H seats fin c = ((\<forall>b\<in>set fin. finished H seats (ks_dedupe c) (kl_seats c) (kl_seatsToRemove c) b) \<and>
     (\<forall>b. b \<notin> set fin \<longrightarrow> lookup (kl_seats c) b = lookup seats b \<and> b \<notin> set (kl_seatsToRemove c)) \<and>
     map fst (kl_seats c) = map fst seats)"

text \<open>The candidates seen so far are bids of the seats: of seats that are done or of the one at hand.\<close>

definition seen_in :: "seats \<Rightarrow> bidderName list \<Rightarrow> (bidderName \<times> nat \<times> ptr) list \<Rightarrow> bool" where
  "seen_in seats bs seen = (\<forall>(b, j, q)\<in>set seen. b \<in> set bs \<and> (\<exists>s. lookup seats b = Some (Some s) \<and> j < length (sb_bids s) \<and> q = sb_bids s ! j))"

lemma kept_accept:
  assumes ok: "table_ok fetchCat cfg H seen st" and dist: "distinct (seen_ids H seen)"
  shows "kept H (put k \<lparr>bd_bidderName = b, bd_bidIndex = i, bd_bidID = pid H p, bd_bidPrice = price\<rparr> (ks_dedupe st)) b' q \<longleftrightarrow>
    b' = b \<and> pid H q = pid H p \<or>
    kept H (ks_dedupe st) b' q \<and> (\<forall>d. lookup (ks_dedupe st) k = Some d \<longrightarrow> bd_bidID d \<noteq> pid H q)"
proof -
  have "(\<exists>k' d. k' \<noteq> k \<and> lookup (ks_dedupe st) k' = Some d \<and> bd_bidderName d = b' \<and> bd_bidID d = pid H q) \<longleftrightarrow>
    kept H (ks_dedupe st) b' q \<and> (\<forall>d. lookup (ks_dedupe st) k = Some d \<longrightarrow> bd_bidID d \<noteq> pid H q)"
    using entry_key_unique [OF ok dist] unfolding kept_def by (metis option.inject)
  then show ?thesis unfolding kept_def by (auto split: if_splits)
qed

text \<open>A seat that is done stays as the reference has it when an older bid gives way.\<close>

lemma remove_old_finished:
  assumes good: "good_seats H seats" and ok: "table_ok fetchCat cfg H seen st" and dist: "distinct (seen_ids H seen)"
    and seen: "seen_in seats (fin @ [b]) seen" and d: "lookup (ks_dedupe st) k = Some d" and other: "bd_bidderName d \<noteq> b"
    and c: "loop_ok H seats fin c" "ks_dedupe c = ks_dedupe st"
    and D': "\<And>b' q. kept H D' b' q \<longleftrightarrow> b' = b \<and> pid H q = pid H p \<or> kept H (ks_dedupe st) b' q \<and> bd_bidID d \<noteq> pid H q"
    and p: "lookup seats b = Some (Some s)" "n < length (sb_bids s)" "p = sb_bids s ! n" and b: "b \<notin> set fin"
  shows "\<exists>c'. remove_old H b d c = Some c' \<and> cat_state.truncate c' = cat_state.truncate c \<and> kl_bidsToRemove c' = kl_bidsToRemove c \<and>
    (\<forall>b'\<in>set fin. finished H seats D' (kl_seats c') (kl_seatsToRemove c') b') \<and>
    (\<forall>b'. b' \<notin> set fin \<longrightarrow> lookup (kl_seats c') b' = lookup seats b' \<and> b' \<notin> set (kl_seatsToRemove c')) \<and>
    map fst (kl_seats c') = map fst seats"
proof -
  let ?a = "bd_bidderName d"
  from table_okD(2) [OF ok d] obtain q cd where q: "(?a, bd_bidIndex d, q) \<in> set seen" "bd_bidID d = pid H q" by blast
  with seen other have a: "?a \<in> set fin" by (auto simp: seen_in_def)
  from q(1) seen obtain s0 where s0: "lookup seats ?a = Some (Some s0)" "q \<in> set (sb_bids s0)"
    by (auto simp: seen_in_def)
  have kq: "kept H (ks_dedupe st) ?a q" using d q(2) by (auto simp: kept_def)
  from c a have fin: "finished H seats (ks_dedupe st) (kl_seats c) (kl_seatsToRemove c) ?a" by (simp add: loop_ok_def)
  then obtain s1 where s1: "lookup (kl_seats c) ?a = Some (Some s1)" "s1\<lparr>sb_bids := []\<rparr> = s0\<lparr>sb_bids := []\<rparr>"
    "sb_bids s1 = filter (kept H (ks_dedupe st) ?a) (sb_bids s0)" and nrm: "?a \<notin> set (kl_seatsToRemove c)"
    using s0 kq by (auto simp: finished_def split: if_splits)
  have same: "kept H D' b' x = kept H (ks_dedupe st) b' x" if "b' \<in> set fin" "b' \<noteq> ?a" "lookup seats b' = Some (Some t)" "x \<in> set (sb_bids t)" for b' x t
  proof -
    from that(4) obtain j where j: "j < length (sb_bids t)" "x = sb_bids t ! j" by (auto simp: in_set_conv_nth)
    from s0(2) obtain m where m: "m < length (sb_bids s0)" "q = sb_bids s0 ! m" by (auto simp: in_set_conv_nth)
    from good_ids [OF good that(3) p(1) j(1) p(2)] j p(3) that(1) b have "pid H x \<noteq> pid H p" by auto
    moreover from good_ids [OF good that(3) s0(1) j(1) m(1)] j m that(2) q(2) have "bd_bidID d \<noteq> pid H x" by auto
    ultimately show ?thesis using D' by blast
  qed
  have here: "kept H D' ?a x \<longleftrightarrow> kept H (ks_dedupe st) ?a x \<and> bd_bidID d \<noteq> pid H x" for x using D' other by blast
  have rest: "finished H seats D' cs rm b'" if "b' \<in> set fin" "b' \<noteq> ?a" "lookup cs b' = lookup (kl_seats c) b'"
    "b' \<in> set rm \<longleftrightarrow> b' \<in> set (kl_seatsToRemove c)" for b' cs rm
  proof -
    from c that(1) have "finished H seats (ks_dedupe st) (kl_seats c) (kl_seatsToRemove c) b'" by (simp add: loop_ok_def)
    then obtain t0 t where t: "lookup seats b' = Some (Some t0)" "lookup (kl_seats c) b' = Some (Some t)" "t\<lparr>sb_bids := []\<rparr> = t0\<lparr>sb_bids := []\<rparr>"
      "if b' \<in> set (kl_seatsToRemove c) then \<forall>p\<in>set (sb_bids t0). \<not> kept H (ks_dedupe st) b' p else sb_bids t = filter (kept H (ks_dedupe st) b') (sb_bids t0)"
      unfolding finished_def by blast
    have "filter (kept H D' b') (sb_bids t0) = filter (kept H (ks_dedupe st) b') (sb_bids t0)"
      using same [OF that(1,2) t(1)] by (intro filter_cong) auto
    moreover have "(\<forall>p\<in>set (sb_bids t0). \<not> kept H D' b' p) = (\<forall>p\<in>set (sb_bids t0). \<not> kept H (ks_dedupe st) b' p)"
      using same [OF that(1,2) t(1)] by blast
    ultimately show ?thesis unfolding finished_def using t that(3,4) by (intro exI [of _ t0] exI [of _ t]) simp
  qed
  have spread: "\<forall>b'\<in>set fin. finished H seats D' cs rm b'"
    if "finished H seats D' cs rm ?a" "\<And>b'. b' \<noteq> ?a \<Longrightarrow> lookup cs b' = lookup (kl_seats c) b'"
      "\<And>b'. b' \<noteq> ?a \<Longrightarrow> b' \<in> set rm \<longleftrightarrow> b' \<in> set (kl_seatsToRemove c)" for cs rm
  proof
    fix b' assume "b' \<in> set fin"
    with that rest show "finished H seats D' cs rm b'" by (cases "b' = ?a") auto
  qed
  show ?thesis
  proof (cases "length (sb_bids s1) = 1")
    case True
    let ?c = "c\<lparr>kl_seatsToRemove := kl_seatsToRemove c @ [?a]\<rparr>"
    from True s1(3) obtain x where x: "filter (kept H (ks_dedupe st) ?a) (sb_bids s0) = [x]" by (auto simp: length_Suc_conv)
    moreover have "q \<in> set (filter (kept H (ks_dedupe st) ?a) (sb_bids s0))" using kq s0(2) by simp
    ultimately have only: "filter (kept H (ks_dedupe st) ?a) (sb_bids s0) = [q]" by simp
    have none: "\<not> kept H D' ?a x" if "x \<in> set (sb_bids s0)" for x
    proof
      assume k: "kept H D' ?a x"
      then have "x \<in> set (filter (kept H (ks_dedupe st) ?a) (sb_bids s0))" using here that by simp
      then have "x = q" unfolding only by simp
      with k here q(2) show False by simp
    qed
    have "finished H seats D' (kl_seats ?c) (kl_seatsToRemove ?c) ?a"
      unfolding finished_def using s0 s1 none by (intro exI [of _ s0] exI [of _ s1]) simp
    then have "\<forall>b'\<in>set fin. finished H seats D' (kl_seats ?c) (kl_seatsToRemove ?c) b'"
      by (rule spread) auto
    moreover have "remove_old H b d c = Some ?c" using True s1(1) other by (simp add: remove_old_def)
    ultimately show ?thesis using c(1) a by (intro exI [of _ ?c]) (auto simp: loop_ok_def cat_state.defs)
  next
    case False
    let ?s = "s1\<lparr>sb_bids := filter (kept H D' ?a) (sb_bids s0)\<rparr>"
    let ?c = "c\<lparr>kl_seats := put ?a (Some ?s) (kl_seats c)\<rparr>"
    have "removeBidById H (bd_bidID d) (sb_bids s1) = Some (filter (\<lambda>p. pid H p \<noteq> bd_bidID d) (sb_bids s1))"
      using good_bids(2) [OF good s0(1)] good_distinct [OF good s0(1)] unfolding s1(3)
      by (intro removeBidById_filter) (auto simp: distinct_map_filter)
    also have "filter (\<lambda>p. pid H p \<noteq> bd_bidID d) (sb_bids s1) = filter (kept H D' ?a) (sb_bids s0)"
    proof -
      have "(\<lambda>x. kept H (ks_dedupe st) ?a x \<and> pid H x \<noteq> bd_bidID d) = kept H D' ?a"
        by (rule ext) (simp only: here eq_commute [of "bd_bidID d"])
      then show ?thesis by (simp only: s1(3) filter_filter)
    qed
    finally have "remove_old H b d c = Some ?c" using False s1(1) other by (simp add: remove_old_def)
    moreover have "finished H seats D' (kl_seats ?c) (kl_seatsToRemove ?c) ?a"
      unfolding finished_def using s0 s1 nrm by (intro exI [of _ s0] exI [of _ ?s]) simp
    then have "\<forall>b'\<in>set fin. finished H seats D' (kl_seats ?c) (kl_seatsToRemove ?c) b'"
      by (rule spread) auto
    moreover have "map fst (put ?a (Some ?s) (kl_seats c)) = map fst (kl_seats c)"
    proof -
      have "?a \<in> fst ` set (kl_seats c)" using s1(1) by (metis domI dom_map_of_conv_image_fst)
      then show ?thesis by (simp add: update_keys)
    qed
    ultimately show ?thesis using c(1) a by (intro exI [of _ ?c]) (auto simp: loop_ok_def cat_state.defs)
  qed
qed

lemma truncate_fields [simp]:
  "ks_res (cat_state.truncate c) = ks_res c" "ks_dedupe (cat_state.truncate c) = ks_dedupe c"
  "ks_rejections (cat_state.truncate c) = ks_rejections c" "ks_tosses (cat_state.truncate c) = ks_tosses c"
  by (simp_all add: cat_state.defs)

lemma finished_cong:
  assumes "finished H seats D cs rm b" and "\<And>s q. lookup seats b = Some (Some s) \<Longrightarrow> q \<in> set (sb_bids s) \<Longrightarrow> kept H D' b q = kept H D b q"
  shows "finished H seats D' cs rm b"
proof -
  from assms(1) obtain s0 s where s: "lookup seats b = Some (Some s0)" "lookup cs b = Some (Some s)" "s\<lparr>sb_bids := []\<rparr> = s0\<lparr>sb_bids := []\<rparr>"
    "if b \<in> set rm then \<forall>p\<in>set (sb_bids s0). \<not> kept H D b p else sb_bids s = filter (kept H D b) (sb_bids s0)"
    unfolding finished_def by blast
  have "filter (kept H D' b) (sb_bids s0) = filter (kept H D b) (sb_bids s0)"
    "(\<forall>p\<in>set (sb_bids s0). \<not> kept H D' b p) = (\<forall>p\<in>set (sb_bids s0). \<not> kept H D b p)"
    using assms(2) [OF s(1)] by (auto intro: filter_cong)
  with s show ?thesis unfolding finished_def by (intro exI [of _ s0] exI [of _ s]) simp
qed

definition cur_ok :: "store \<Rightarrow> (string, bidDedupe) gomap \<Rightarrow> bidderName \<Rightarrow> ptr list \<Rightarrow> nat \<Rightarrow> nat list \<Rightarrow> bool" where
  "cur_ok H D b ps n rm = (distinct rm \<and> set rm = {j. j < n \<and> \<not> kept H D b (ps ! j)})"

lemma kept_seen:
  "table_ok fetchCat cfg H seen st \<Longrightarrow> kept H (ks_dedupe st) b p \<Longrightarrow> pid H p \<in> set (seen_ids H seen)"
  using entry_seen [of fetchCat cfg H seen st] by (force simp: kept_def)

text \<open>The loop at the \<open>n\<close>-th bid of the seat \<open>s\<close> of \<open>b\<close>, after the candidates \<open>seen\<close>.\<close>

definition at_bid ::
  "(string \<Rightarrow> string \<Rightarrow> string \<Rightarrow> go_error + string) \<Rightarrow> cat_cfg \<Rightarrow> store \<Rightarrow> seats \<Rightarrow> bidderName list \<Rightarrow> bidderName \<Rightarrow> pbsOrtbSeatBid \<Rightarrow> nat
     \<Rightarrow> (bidderName \<times> nat \<times> ptr) list \<Rightarrow> cat_loop \<Rightarrow> bool" where
  "at_bid fetchCat cfg H seats fin b s n seen c =
     (good_seats H seats \<and> table_ok fetchCat cfg H seen (cat_state.truncate c) \<and> distinct (seen_ids H (seen @ [(b, n, sb_bids s ! n)])) \<and>
      seen_in seats (fin @ [b]) seen \<and> loop_ok H seats fin c \<and> lookup seats b = Some (Some s) \<and> n < length (sb_bids s) \<and> b \<notin> set fin \<and>
      (\<forall>j q. (b, j, q) \<in> set seen \<longrightarrow> j < n) \<and> cur_ok H (ks_dedupe c) b (sb_bids s) n (kl_bidsToRemove c))"

definition step_done :: "store \<Rightarrow> seats \<Rightarrow> bidderName list \<Rightarrow> bidderName \<Rightarrow> pbsOrtbSeatBid \<Rightarrow> nat \<Rightarrow> cat_loop \<Rightarrow> bool" where
  "step_done H seats fin b s n c = (loop_ok H seats fin c \<and> cur_ok H (ks_dedupe c) b (sb_bids s) n (kl_bidsToRemove c))"

lemma at_bidD:
  assumes "at_bid fetchCat cfg H seats fin b s n seen c"
  shows "good_seats H seats" "table_ok fetchCat cfg H seen (cat_state.truncate c)" "distinct (seen_ids H seen)"
    "pid H (sb_bids s ! n) \<notin> set (seen_ids H seen)" "seen_in seats (fin @ [b]) seen" "loop_ok H seats fin c"
    "lookup seats b = Some (Some s)" "n < length (sb_bids s)" "b \<notin> set fin" "(b, j, q) \<in> set seen \<Longrightarrow> j < n"
    "distinct (kl_bidsToRemove c)" "i \<in> set (kl_bidsToRemove c) \<longleftrightarrow> i < n \<and> \<not> kept H (ks_dedupe c) b (sb_bids s ! i)"
  using assms by (auto simp: at_bid_def seen_ids_def cur_ok_def)

lemma at_bid_ids:
  assumes at: "at_bid fetchCat cfg H seats fin b s n seen c"
  shows "j < n \<Longrightarrow> pid H (sb_bids s ! j) \<noteq> pid H (sb_bids s ! n)"
    and "b' \<noteq> b \<Longrightarrow> lookup seats b' = Some (Some t) \<Longrightarrow> q \<in> set (sb_bids t) \<Longrightarrow> i < length (sb_bids s) \<Longrightarrow> pid H q \<noteq> pid H (sb_bids s ! i)"
  using good_ids [OF at_bidD(1,7,7) [OF at], of j n] good_ids [OF at_bidD(1) [OF at] _ at_bidD(7) [OF at], of b' t] at_bidD(8) [OF at]
  by (auto simp: in_set_conv_nth)

lemma at_bid_skip:
  assumes at: "at_bid fetchCat cfg H seats fin b s n seen c"
  shows "step_done H seats fin b s (Suc n) ((reject j r c)\<lparr>kl_bidsToRemove := kl_bidsToRemove c @ [n], ks_tosses := m\<rparr>)"
proof -
  have "\<not> kept H (ks_dedupe c) b (sb_bids s ! n)" using kept_seen [OF at_bidD(2) [OF at]] at_bidD(4) [OF at] by auto
  then have "cur_ok H (ks_dedupe c) b (sb_bids s) (Suc n) (kl_bidsToRemove c @ [n])"
    using at_bidD(11,12) [OF at] by (auto simp: cur_ok_def less_Suc_eq)
  with at_bidD(6) [OF at] show ?thesis by (simp add: step_done_def loop_ok_def reject_def)
qed

text \<open>The table after the bid at hand has been entered under the key \<open>k\<close>.\<close>

definition entered :: "store \<Rightarrow> bidderName \<Rightarrow> pbsOrtbSeatBid \<Rightarrow> nat \<Rightarrow> string \<Rightarrow> string \<Rightarrow> (string, bidDedupe) gomap \<Rightarrow> (string, bidDedupe) gomap" where
  "entered H b s n price k D = put k \<lparr>bd_bidderName = b, bd_bidIndex = n, bd_bidID = pid H (sb_bids s ! n), bd_bidPrice = price\<rparr> D"

lemma entered_kept:
  assumes at: "at_bid fetchCat cfg H seats fin b s n seen c"
  shows "kept H (entered H b s n price k (ks_dedupe c)) b' q \<longleftrightarrow> b' = b \<and> pid H q = pid H (sb_bids s ! n) \<or>
    kept H (ks_dedupe c) b' q \<and> (\<forall>d. lookup (ks_dedupe c) k = Some d \<longrightarrow> bd_bidID d \<noteq> pid H q)"
  using kept_accept [OF at_bidD(2,3) [OF at], of k b n "sb_bids s ! n" price b' q] by (simp add: entered_def)

text \<open>No bid of another seat loses its place: the seats that are done stay as they are.\<close>

lemma entered_finished:
  assumes at: "at_bid fetchCat cfg H seats fin b s n seen c" and b': "b' \<in> set fin"
    and here: "\<And>d. lookup (ks_dedupe c) k = Some d \<Longrightarrow> \<exists>i < length (sb_bids s). bd_bidID d = pid H (sb_bids s ! i)"
  shows "finished H seats (entered H b s n price k (ks_dedupe c)) (kl_seats c) (kl_seatsToRemove c) b'"
proof (rule finished_cong)
  show "finished H seats (ks_dedupe c) (kl_seats c) (kl_seatsToRemove c) b'" using at_bidD(6) [OF at] b' by (simp add: loop_ok_def)
  fix s' q' assume q': "lookup seats b' = Some (Some s')" "q' \<in> set (sb_bids s')"
  have "b' \<noteq> b" using b' at_bidD(9) [OF at] by auto
  moreover have "bd_bidID d \<noteq> pid H q'" if "lookup (ks_dedupe c) k = Some d" for d
    using here [OF that] at_bid_ids(2) [OF at \<open>b' \<noteq> b\<close> q'] by metis
  ultimately show "kept H (entered H b s n price k (ks_dedupe c)) b' q' = kept H (ks_dedupe c) b' q'"
    using entered_kept [OF at] by blast
qed

lemma at_bid_new:
  assumes at: "at_bid fetchCat cfg H seats fin b s n seen c" and none: "lookup (ks_dedupe c) k = None"
  shows "step_done H seats fin b s (Suc n) (accept b n (pid H (sb_bids s ! n)) (price, k, cd) c)"
proof -
  let ?D = "entered H b s n price k (ks_dedupe c)"
  have "finished H seats ?D (kl_seats c) (kl_seatsToRemove c) b'" if "b' \<in> set fin" for b'
    by (intro entered_finished [OF at that]) (simp add: none)
  moreover have "kept H ?D b (sb_bids s ! j) \<longleftrightarrow> kept H (ks_dedupe c) b (sb_bids s ! j)" if "j < n" for j
    using entered_kept [OF at] at_bid_ids(1) [OF at that] none by auto
  moreover have "kept H ?D b (sb_bids s ! n)" using entered_kept [OF at] by blast
  ultimately show ?thesis using at_bidD(6) [OF at] at_bidD(11,12) [OF at]
    by (auto simp: step_done_def loop_ok_def cur_ok_def less_Suc_eq accept_def entered_def)
qed

lemma at_bid_same_seat:
  assumes at: "at_bid fetchCat cfg H seats fin b s n seen c" and old: "lookup (ks_dedupe c) k = Some d" and same: "bd_bidderName d = b"
  shows "step_done H seats fin b s (Suc n) (accept b n (pid H (sb_bids s ! n)) (price, k, cd)
    (c\<lparr>ks_rejections := rej, ks_res := res, ks_tosses := m, kl_bidsToRemove := kl_bidsToRemove c @ [bd_bidIndex d]\<rparr>))"
proof -
  let ?D = "entered H b s n price k (ks_dedupe c)" and ?i = "bd_bidIndex d"
  from table_okD(2) [OF at_bidD(2) [OF at], unfolded truncate_fields, OF old] obtain q where
    q: "(b, ?i, q) \<in> set seen" "bd_bidID d = pid H q" using same by blast
  then have lt: "?i < n" using at_bidD(10) [OF at] by blast
  from q(1) at_bidD(5) [OF at] at_bidD(7) [OF at] have q': "q = sb_bids s ! ?i" by (auto simp: seen_in_def)
  have "finished H seats ?D (kl_seats c) (kl_seatsToRemove c) b'" if "b' \<in> set fin" for b'
  proof (intro entered_finished [OF at that])
    fix d' assume "lookup (ks_dedupe c) k = Some d'"
    with old q(2) q' lt at_bidD(8) [OF at] show "\<exists>i<length (sb_bids s). bd_bidID d' = pid H (sb_bids s ! i)" by (intro exI [of _ ?i]) auto
  qed
  moreover have "cur_ok H ?D b (sb_bids s) (Suc n) (kl_bidsToRemove c @ [?i])"
  proof -
    have "pid H (sb_bids s ! j) = bd_bidID d \<longleftrightarrow> j = ?i" if "j < n" for j
      using good_ids [OF at_bidD(1,7,7) [OF at], of j ?i] that lt at_bidD(8) [OF at] q(2) q' by auto
    then have "kept H ?D b (sb_bids s ! j) \<longleftrightarrow> kept H (ks_dedupe c) b (sb_bids s ! j) \<and> j \<noteq> ?i" if "j < n" for j
      using that entered_kept [OF at] at_bid_ids(1) [OF at that] old by (metis option.inject)
    moreover have "kept H ?D b (sb_bids s ! n)" using entered_kept [OF at] by blast
    moreover have "kept H (ks_dedupe c) b (sb_bids s ! ?i)" using old same q(2) q' by (auto simp: kept_def)
    ultimately show ?thesis using at_bidD(11,12) [OF at] lt by (auto simp: cur_ok_def less_Suc_eq)
  qed
  ultimately show ?thesis using at_bidD(6) [OF at] by (simp add: step_done_def loop_ok_def accept_def entered_def)
qed

lemma at_bid_other_seat:
  assumes at: "at_bid fetchCat cfg H seats fin b s n seen c" and old: "lookup (ks_dedupe c) k = Some d" and other: "bd_bidderName d \<noteq> b"
  shows "\<exists>c1. remove_old H b d (c\<lparr>ks_tosses := m\<rparr>) = Some c1 \<and> cat_state.truncate c1 = cat_state.truncate (c\<lparr>ks_tosses := m\<rparr>) \<and>
    step_done H seats fin b s (Suc n) (accept b n (pid H (sb_bids s ! n)) (price, k, cd) (c1\<lparr>ks_rejections := rej, ks_res := res\<rparr>))"
proof -
  let ?D = "entered H b s n price k (ks_dedupe c)"
  have c': "loop_ok H seats fin (c\<lparr>ks_tosses := m\<rparr>)" "ks_dedupe (c\<lparr>ks_tosses := m\<rparr>) = ks_dedupe (cat_state.truncate c)"
    "lookup (ks_dedupe (cat_state.truncate c)) k = Some d"
    using at_bidD(6) [OF at] old by (simp_all add: loop_ok_def)
  have K: "kept H ?D b' q \<longleftrightarrow> b' = b \<and> pid H q = pid H (sb_bids s ! n) \<or> kept H (ks_dedupe (cat_state.truncate c)) b' q \<and> bd_bidID d \<noteq> pid H q" for b' q
    using entered_kept [OF at] old by auto
  from remove_old_finished [OF at_bidD(1,2,3,5) [OF at] c'(3) other c'(1,2) K at_bidD(7,8) [OF at] refl at_bidD(9) [OF at]]
  obtain c1 where c1: "remove_old H b d (c\<lparr>ks_tosses := m\<rparr>) = Some c1" "cat_state.truncate c1 = cat_state.truncate (c\<lparr>ks_tosses := m\<rparr>)"
    "kl_bidsToRemove c1 = kl_bidsToRemove c" "\<forall>b'\<in>set fin. finished H seats ?D (kl_seats c1) (kl_seatsToRemove c1) b'"
    "\<forall>b'. b' \<notin> set fin \<longrightarrow> lookup (kl_seats c1) b' = lookup seats b' \<and> b' \<notin> set (kl_seatsToRemove c1)"
    "map fst (kl_seats c1) = map fst seats" by auto
  have D: "ks_dedupe c1 = ks_dedupe c" using arg_cong [OF c1(2), of ks_dedupe] by simp
  from table_okD(2) [OF at_bidD(2) [OF at], unfolded truncate_fields, OF old] obtain q where
    "(bd_bidderName d, bd_bidIndex d, q) \<in> set seen" and q: "bd_bidID d = pid H q" by blast
  with at_bidD(5) [OF at] obtain t where t: "lookup seats (bd_bidderName d) = Some (Some t)" "q \<in> set (sb_bids t)"
    by (auto simp: seen_in_def)
  have "cur_ok H ?D b (sb_bids s) (Suc n) (kl_bidsToRemove c)"
  proof -
    have "bd_bidID d \<noteq> pid H (sb_bids s ! j)" if "j < n" for j
      using at_bid_ids(2) [OF at other t, of j] that at_bidD(8) [OF at] q by auto
    then have "kept H ?D b (sb_bids s ! j) \<longleftrightarrow> kept H (ks_dedupe c) b (sb_bids s ! j)" if "j < n" for j
      using that entered_kept [OF at] at_bid_ids(1) [OF at that] old by (metis option.inject)
    moreover have "kept H ?D b (sb_bids s ! n)" using entered_kept [OF at] by blast
    ultimately show ?thesis using at_bidD(11,12) [OF at] by (auto simp: cur_ok_def less_Suc_eq)
  qed
  with c1 D show ?thesis by (intro exI [of _ c1]) (simp add: step_done_def loop_ok_def accept_def entered_def)
qed

text \<open>One bid: the loop does what the reference does.\<close>

lemma cat_step_ok:
  assumes at: "at_bid fetchCat cfg H seats fin b s n seen c"
  shows "\<exists>c'. cat_step fetchCat coin cfg H b (n, sb_bids s ! n) c = Some c' \<and> step_done H seats fin b s (Suc n) c' \<and>
    cat_state.truncate c' = ref_step fetchCat coin cfg H (b, n, sb_bids s ! n) (cat_state.truncate c)"
proof -
  let ?p = "sb_bids s ! n"
  from good_bids [OF at_bidD(1,7) [OF at], of ?p] at_bidD(8) [OF at] obtain pb x where x: "st_pbs H ?p = Some pb" "bid_at H ?p = Some x" by force
  have cand: "candidate fetchCat cfg H b ?p = bid_candidate fetchCat cfg b pb x" by (simp add: candidate_def x)
  note defs = cat_step_def ref_step_def cand x Let_def reject_def cat_state.defs
  show ?thesis
  proof (cases "bid_candidate fetchCat cfg b pb x")
    case (Inl reason)
    with at_bid_skip [OF at, where j = "bid_ID x" and r = reason and m = "ks_tosses c"] show ?thesis by (simp add: defs)
  next
    case (Inr e)
    obtain price k cd where e: "e = (price, k, cd)" by (metis prod.exhaust)
    show ?thesis
    proof (cases "lookup (ks_dedupe c) k")
      case None
      with at_bid_new [OF at None, where price = price and cd = cd] Inr e show ?thesis by (simp add: defs accept_def)
    next
      case (Some d)
      obtain newer m where r: "replaces coin (bd_bidPrice d) price (ks_tosses c) = (newer, m)" by (metis prod.exhaust)
      consider "\<not> newer" | "newer" "bd_bidderName d = b" | "newer" "bd_bidderName d \<noteq> b" by blast
      then show ?thesis
      proof cases
        case 1
        with at_bid_skip [OF at, where j = "bid_ID x" and r = "''Bid was deduplicated''" and m = m] Inr e Some r show ?thesis by (simp add: defs step_done_def loop_ok_def)
      next
        case 2
        with at_bid_same_seat [OF at Some 2(2), where price = price and cd = cd and m = m and rej = "ks_rejections c @ [rejection (bd_bidID d) ''Bid was deduplicated'']" and res = "del (bd_bidID d) (ks_res c)"] Inr e Some r
        show ?thesis by (simp add: defs accept_def remove_old_def step_done_def loop_ok_def)
      next
        case 3
        from at_bid_other_seat [OF at Some 3(2), where price = price and cd = cd and m = m and rej = "ks_rejections c @ [rejection (bd_bidID d) ''Bid was deduplicated'']" and res = "del (bd_bidID d) (ks_res c)"]
        obtain c1 where c1: "remove_old H b d (c\<lparr>ks_tosses := m\<rparr>) = Some c1" "cat_state.truncate c1 = cat_state.truncate (c\<lparr>ks_tosses := m\<rparr>)"
          "step_done H seats fin b s (Suc n) (accept b n (pid H ?p) (price, k, cd) (c1\<lparr>ks_rejections := ks_rejections c @ [rejection (bd_bidID d) ''Bid was deduplicated''], ks_res := del (bd_bidID d) (ks_res c)\<rparr>))"
          by blast
        have "ks_res c1 = ks_res c" "ks_rejections c1 = ks_rejections c" "ks_dedupe c1 = ks_dedupe c" "ks_tosses c1 = m"
          using arg_cong [OF c1(2), of ks_res] arg_cong [OF c1(2), of ks_rejections] arg_cong [OF c1(2), of ks_dedupe] arg_cong [OF c1(2), of ks_tosses] by simp_all
        with c1(1,3) 3 Inr e Some r show ?thesis by (simp add: defs accept_def)
      qed
    qed
  qed
qed

section \<open>A seat and all seats\<close>

lemma seat_steps_ok:
  assumes "good_seats H seats" and "table_ok fetchCat cfg H seen (cat_state.truncate c)"
    and "distinct (seen_ids H (seen @ map (\<lambda>i. (b, i, sb_bids s ! i)) [n..<length (sb_bids s)]))" and "seen_in seats (fin @ [b]) seen"
    and "lookup seats b = Some (Some s)" and "b \<notin> set fin" and "\<And>j q. (b, j, q) \<in> set seen \<Longrightarrow> j < n"
    and "n \<le> length (sb_bids s)" and "step_done H seats fin b s n c"
  shows "\<exists>c'. fold_opt (cat_step fetchCat coin cfg H b) (enumerate n (drop n (sb_bids s))) c = Some c' \<and> step_done H seats fin b s (length (sb_bids s)) c' \<and>
    cat_state.truncate c' = fold (ref_step fetchCat coin cfg H) (map (\<lambda>i. (b, i, sb_bids s ! i)) [n..<length (sb_bids s)]) (cat_state.truncate c)"
  using assms
proof (induction "length (sb_bids s) - n" arbitrary: n seen c)
  case 0
  then show ?case by simp
next
  case (Suc m)
  let ?p = "sb_bids s ! n"
  from Suc.hyps(2) have n: "n < length (sb_bids s)" by simp
  then have up: "[n..<length (sb_bids s)] = n # [Suc n..<length (sb_bids s)]" by (simp add: upt_conv_Cons)
  have dist: "distinct (seen_ids H (seen @ [(b, n, ?p)]))" using Suc.prems(3) by (auto simp: up seen_ids_def)
  have at: "at_bid fetchCat cfg H seats fin b s n seen c"
    using Suc.prems(1,2,4-7,9) dist n by (auto simp: at_bid_def step_done_def)
  from cat_step_ok [OF at, of coin] obtain c1 where c1: "cat_step fetchCat coin cfg H b (n, ?p) c = Some c1" "step_done H seats fin b s (Suc n) c1"
    "cat_state.truncate c1 = ref_step fetchCat coin cfg H (b, n, ?p) (cat_state.truncate c)" by blast
  have "\<exists>c'. fold_opt (cat_step fetchCat coin cfg H b) (enumerate (Suc n) (drop (Suc n) (sb_bids s))) c1 = Some c' \<and>
      step_done H seats fin b s (length (sb_bids s)) c' \<and>
      cat_state.truncate c' = fold (ref_step fetchCat coin cfg H) (map (\<lambda>i. (b, i, sb_bids s ! i)) [Suc n..<length (sb_bids s)]) (cat_state.truncate c1)"
  proof (rule Suc.hyps(1) [where seen = "seen @ [(b, n, ?p)]"])
    show "table_ok fetchCat cfg H (seen @ [(b, n, ?p)]) (cat_state.truncate c1)" using table_ok_step [OF Suc.prems(2) dist] c1(3) by simp
    show "seen_in seats (fin @ [b]) (seen @ [(b, n, ?p)])" using Suc.prems(4,5) n by (auto simp: seen_in_def)
    show "\<And>j q. (b, j, q) \<in> set (seen @ [(b, n, ?p)]) \<Longrightarrow> j < Suc n" using Suc.prems(7) by (auto dest: less_SucI)
  qed (use Suc n c1 up in \<open>auto simp: seen_ids_def\<close>)
  then show ?case using c1 n by (simp add: up Cons_nth_drop_Suc [symmetric] enumerate_simps)
qed

lemma nths_cong: "(\<And>i. i < length xs \<Longrightarrow> i \<in> A \<longleftrightarrow> i \<in> B) \<Longrightarrow> nths xs A = nths xs B"
  unfolding nths_def by (intro arg_cong [of _ _ "map fst"] filter_cong) (auto simp: set_zip)

lemma remove_index_nths:
  assumes "j < length ps" and "\<forall>i\<in>I. i < j"
  shows "nths (take j ps @ drop (Suc j) ps) (- I) = nths ps (- insert j I)"
proof -
  have ps: "ps = take j ps @ ps ! j # drop (Suc j) ps" using assms(1) by (simp add: id_take_nth_drop)
  have all: "{i. i + length (take j ps) \<in> - I} = UNIV" "{i. Suc i \<in> {i. i + length (take j ps) \<in> - insert j I}} = UNIV"
    "0 \<notin> {i. i + length (take j ps) \<in> - insert j I}"
    using assms by (auto simp: min_def)
  have "nths (take j ps) (- I) = nths (take j ps) (- insert j I)" using assms by (intro nths_cong) auto
  then show ?thesis
    by (subst (3) ps) (simp only: nths_append nths_Cons all, simp)
qed

lemma remove_indices_nths:
  assumes "distinct idx" and "\<forall>i\<in>set idx. i < length ps"
  shows "remove_indices idx ps = Some (nths ps (- set idx))"
proof -
  have "fold_opt (\<lambda>i xs. if i < length xs then Some (take i xs @ drop (Suc i) xs) else None) js ps = Some (nths ps (- set js))"
    if "sorted_wrt (>) js" "\<forall>i\<in>set js. i < length ps" for js :: "nat list" and ps :: "ptr list"
    using that
  proof (induction js arbitrary: ps)
    case (Cons j js)
    let ?ps = "take j ps @ drop (Suc j) ps"
    have "\<forall>i\<in>set js. i < length ?ps" using Cons.prems by fastforce
    with Cons.IH [of ?ps] Cons.prems show ?case using remove_index_nths [of j ps "set js"] by simp
  qed (simp add: nths_all)
  moreover have "sorted_wrt (>) (rev (sort idx))"
    using assms(1) by (simp add: sorted_wrt_rev strict_sorted_iff)
  ultimately show ?thesis using assms(2) by (simp add: remove_indices_def)
qed

lemma kept_nths:
  assumes "cur_ok H D b ps (length ps) rm"
  shows "nths ps (- set rm) = filter (kept H D b) ps"
  unfolding filter_eq_nths using assms by (intro nths_cong) (auto simp: cur_ok_def)

lemma filter_kept_cases:
  assumes "cur_ok H D b ps (length ps) rm"
  shows "rm = [] \<Longrightarrow> filter (kept H D b) ps = ps" and "length rm = length ps \<Longrightarrow> p \<in> set ps \<Longrightarrow> \<not> kept H D b p"
proof -
  show "rm = [] \<Longrightarrow> filter (kept H D b) ps = ps" using kept_nths [OF assms] by (simp add: nths_all)
  assume l: "length rm = length ps" and p: "p \<in> set ps"
  from assms have "distinct rm" "set rm \<subseteq> {..<length ps}" by (auto simp: cur_ok_def)
  then have "set rm = {..<length ps}" using l by (intro card_subset_eq) (auto simp: distinct_card)
  with assms p show "\<not> kept H D b p" by (auto simp: cur_ok_def in_set_conv_nth)
qed

text \<open>One seat.\<close>

lemma cat_seat_ok:
  assumes good: "good_seats H seats" and ok: "table_ok fetchCat cfg H seen (cat_state.truncate c)"
    and dist: "distinct (seen_ids H (seen @ seat_cands b (sb_bids s)))" and seen: "seen_in seats fin seen"
    and b: "lookup seats b = Some (Some s)" "b \<notin> set fin" and c: "loop_ok H seats fin c"
  shows "\<exists>c'. cat_seat fetchCat coin cfg H b c = Some c' \<and> loop_ok H seats (fin @ [b]) c' \<and>
    cat_state.truncate c' = fold (ref_step fetchCat coin cfg H) (seat_cands b (sb_bids s)) (cat_state.truncate c)"
proof -
  let ?c0 = "c\<lparr>kl_bidsToRemove := []\<rparr>" and ?ps = "sb_bids s"
  have cands: "seat_cands b ?ps = map (\<lambda>i. (b, i, ?ps ! i)) [0..<length ?ps]"
    by (rule nth_equalityI) (auto simp: seat_cands_def nth_enumerate_eq)
  have t0: "cat_state.truncate ?c0 = cat_state.truncate c" by (simp add: cat_state.defs)
  have fresh: "(b, j, q) \<in> set seen \<Longrightarrow> j < 0" for j q using seen b(2) by (auto simp: seen_in_def)
  have "seen_in seats (fin @ [b]) seen" using seen by (auto simp: seen_in_def)
  then obtain c1 where c1: "fold_opt (cat_step fetchCat coin cfg H b) (enumerate 0 ?ps) ?c0 = Some c1" "step_done H seats fin b s (length ?ps) c1"
    "cat_state.truncate c1 = fold (ref_step fetchCat coin cfg H) (seat_cands b ?ps) (cat_state.truncate c)"
    using seat_steps_ok [of H seats fetchCat cfg seen ?c0 b s 0 fin coin] good ok dist b c fresh t0
    by (auto simp: cands step_done_def loop_ok_def cur_ok_def)
  have l1: "loop_ok H seats fin c1" and cur: "cur_ok H (ks_dedupe c1) b ?ps (length ?ps) (kl_bidsToRemove c1)" using c1(2) by (auto simp: step_done_def)
  have here: "lookup (kl_seats c) b = Some (Some s)" "lookup (kl_seats c1) b = Some (Some s)" "b \<notin> set (kl_seatsToRemove c1)"
    using c l1 b by (auto simp: loop_ok_def)
  have grow: "loop_ok H seats (fin @ [b]) (c1\<lparr>kl_seats := cs, kl_seatsToRemove := rm\<rparr>)"
    if "finished H seats (ks_dedupe c1) cs rm b" "\<And>b'. b' \<noteq> b \<Longrightarrow> lookup cs b' = lookup (kl_seats c1) b'"
      "\<And>b'. b' \<noteq> b \<Longrightarrow> b' \<in> set rm \<longleftrightarrow> b' \<in> set (kl_seatsToRemove c1)" "map fst cs = map fst (kl_seats c1)" for cs rm
  proof -
    have "finished H seats (ks_dedupe c1) cs rm b'" if "b' \<in> set fin" for b'
      using l1 that \<open>finished H seats (ks_dedupe c1) cs rm b\<close> \<open>\<And>b'. b' \<noteq> b \<Longrightarrow> lookup cs b' = _\<close> \<open>\<And>b'. b' \<noteq> b \<Longrightarrow> b' \<in> set rm \<longleftrightarrow> _\<close>
      by (cases "b' = b") (auto simp: loop_ok_def finished_def)
    with that l1 show ?thesis by (auto simp: loop_ok_def)
  qed
  have t: "cat_state.truncate (c1\<lparr>kl_seats := cs, kl_seatsToRemove := rm\<rparr>) = cat_state.truncate c1" for cs rm by (simp add: cat_state.defs)
  consider "kl_bidsToRemove c1 = []" | "kl_bidsToRemove c1 \<noteq> []" "length (kl_bidsToRemove c1) = length ?ps"
    | "kl_bidsToRemove c1 \<noteq> []" "length (kl_bidsToRemove c1) \<noteq> length ?ps" by blast
  then show ?thesis
  proof cases
    case 1
    then have "cat_seat fetchCat coin cfg H b c = Some (c1\<lparr>kl_seats := kl_seats c1, kl_seatsToRemove := kl_seatsToRemove c1\<rparr>)"
      by (simp add: cat_seat_def here c1(1))
    moreover have "finished H seats (ks_dedupe c1) (kl_seats c1) (kl_seatsToRemove c1) b"
      using b here filter_kept_cases(1) [OF cur 1] by (auto simp: finished_def)
    ultimately show ?thesis using grow t c1(3) by metis
  next
    case 2
    then have "cat_seat fetchCat coin cfg H b c = Some (c1\<lparr>kl_seats := kl_seats c1, kl_seatsToRemove := kl_seatsToRemove c1 @ [b]\<rparr>)"
      by (simp add: cat_seat_def here c1(1))
    moreover have "finished H seats (ks_dedupe c1) (kl_seats c1) (kl_seatsToRemove c1 @ [b]) b"
      using b here filter_kept_cases(2) [OF cur 2(2)] by (auto simp: finished_def)
    ultimately show ?thesis using grow [where cs = "kl_seats c1" and rm = "kl_seatsToRemove c1 @ [b]"] t [where cs = "kl_seats c1" and rm = "kl_seatsToRemove c1 @ [b]"] c1(3)
      by (intro exI conjI) auto
  next
    case 3
    let ?s = "s\<lparr>sb_bids := filter (kept H (ks_dedupe c1) b) ?ps\<rparr>"
    have "remove_indices (kl_bidsToRemove c1) ?ps = Some (filter (kept H (ks_dedupe c1) b) ?ps)"
      using remove_indices_nths [of "kl_bidsToRemove c1" ?ps] kept_nths [OF cur] cur by (auto simp: cur_ok_def)
    with 3 have "cat_seat fetchCat coin cfg H b c = Some (c1\<lparr>kl_seats := put b (Some ?s) (kl_seats c1), kl_seatsToRemove := kl_seatsToRemove c1\<rparr>)"
      by (simp add: cat_seat_def here c1(1))
    moreover have "finished H seats (ks_dedupe c1) (put b (Some ?s) (kl_seats c1)) (kl_seatsToRemove c1) b"
      using b here by (auto simp: finished_def)
    moreover have "map fst (put b (Some ?s) (kl_seats c1)) = map fst (kl_seats c1)"
    proof -
      have "b \<in> fst ` set (kl_seats c1)" using here(2) by (metis domI dom_map_of_conv_image_fst)
      then show ?thesis by (simp add: update_keys)
    qed
    ultimately show ?thesis using grow [where cs = "put b (Some ?s) (kl_seats c1)" and rm = "kl_seatsToRemove c1"] t [where cs = "put b (Some ?s) (kl_seats c1)" and rm = "kl_seatsToRemove c1"] c1(3)
      by (intro exI conjI) auto
  qed
qed

lemma all_cands_simps:
  "all_cands [] = []" "all_cands ((b, s) # seats) = seat_cands b (seat_bids s) @ all_cands seats" "all_cands (xs @ ys) = all_cands xs @ all_cands ys"
  by (simp_all add: all_cands_def)

lemma seen_in_cands:
  assumes "wf_map seats" and "\<forall>(b, s)\<in>set seats. s \<noteq> None" and "set part \<subseteq> set seats"
  shows "seen_in seats (map fst part) (all_cands part)"
proof -
  have "\<exists>t. lookup seats b = Some (Some t) \<and> j < length (sb_bids t) \<and> q = sb_bids t ! j" if "(b, s) \<in> set part" "(b, j, q) \<in> set (seat_cands b (seat_bids s))" for b s j q
  proof -
    from that(1) assms(2,3) obtain t where t: "s = Some t" by fastforce
    then have "lookup seats b = Some (Some t)" using that(1) assms(1,3) by (auto simp: wf_map_lookup_iff)
    with that(2) t show ?thesis by (auto simp: seat_cands_def in_set_enumerate_eq seat_bids_def)
  qed
  moreover have "\<exists>s. (b, s) \<in> set part \<and> (b, j, q) \<in> set (seat_cands b (seat_bids s))" if "(b, j, q) \<in> set (all_cands part)" for b j q
    using that by (auto simp: all_cands_def seat_cands_def in_set_enumerate_eq)
  ultimately have "b \<in> set (map fst part) \<and> (\<exists>t. lookup seats b = Some (Some t) \<and> j < length (sb_bids t) \<and> q = sb_bids t ! j)"
    if "(b, j, q) \<in> set (all_cands part)" for b j q
    using that by (metis (no_types, lifting) fst_conv image_eqI set_map)
  then show ?thesis unfolding seen_in_def by blast
qed

lemma cat_seats_ok:
  assumes good: "good_seats H (dn @ todo)" and ok: "table_ok fetchCat cfg H (all_cands dn) (cat_state.truncate c)" and c: "loop_ok H (dn @ todo) (map fst dn) c"
  shows "\<exists>c'. fold_opt (cat_seat fetchCat coin cfg H) (map fst todo) c = Some c' \<and> loop_ok H (dn @ todo) (map fst (dn @ todo)) c' \<and>
    cat_state.truncate c' = fold (ref_step fetchCat coin cfg H) (all_cands todo) (cat_state.truncate c)"
  using assms
proof (induction todo arbitrary: dn c)
  case (Cons e todo)
  let ?seats = "dn @ e # todo"
  from Cons.prems(1) obtain b s where e: "e = (b, Some s)" by (cases e) (auto simp: good_seats_def)
  have wf: "wf_map ?seats" "\<forall>(b, s)\<in>set ?seats. s \<noteq> None" and dist: "distinct (seen_ids H (all_cands ?seats))"
    using Cons.prems(1) by (auto simp: good_seats_def)
  have b: "lookup ?seats b = Some (Some s)" "b \<notin> set (map fst dn)"
    using wf(1) wf_map_lookup_iff [OF wf(1), of b "Some s"] by (simp_all add: e) (auto simp: wf_map_def)
  have cands: "all_cands (dn @ [e]) = all_cands dn @ seat_cands b (sb_bids s)" by (simp add: all_cands_simps e seat_bids_def)
  have "distinct (seen_ids H (all_cands dn @ seat_cands b (sb_bids s)))"
    using dist by (auto simp: all_cands_simps e seen_ids_def seat_bids_def)
  note part = this
  from cat_seat_ok [OF Cons.prems(1,2) part seen_in_cands [OF wf] b Cons.prems(3), of coin]
  obtain c1 where c1: "cat_seat fetchCat coin cfg H b c = Some c1" "loop_ok H ?seats (map fst dn @ [b]) c1"
    "cat_state.truncate c1 = fold (ref_step fetchCat coin cfg H) (seat_cands b (sb_bids s)) (cat_state.truncate c)" by auto
  have "table_ok fetchCat cfg H (all_cands (dn @ [e])) (cat_state.truncate c1)"
    using table_ok_loop [OF Cons.prems(2) part, of coin] c1(3) cands by simp
  from Cons.IH [of "dn @ [e]" c1] Cons.prems(1) this c1(2,3) show ?case
    by (auto simp: e c1(1) all_cands_simps seat_bids_def)
qed (simp add: all_cands_simps)

text \<open>The seats without a bid left are emptied at the end.\<close>

definition exclude :: "store \<Rightarrow> (string, bidDedupe) gomap \<Rightarrow> seats \<Rightarrow> seats" where
  "exclude H D seats = map (\<lambda>(b, s). (b, map_option (\<lambda>t. t\<lparr>sb_bids := filter (kept H D b) (sb_bids t)\<rparr>) s)) seats"

lemma empty_seats_lookup:
  assumes "\<forall>b\<in>set rm. \<exists>s. lookup cs b = Some (Some s)"
  shows "\<exists>cs'. fold_opt empty_seat rm cs = Some cs' \<and> map fst cs' = map fst cs \<and>
    (\<forall>b. lookup cs' b = (if b \<in> set rm then map_option (map_option (\<lambda>s. s\<lparr>sb_bids := []\<rparr>)) (lookup cs b) else lookup cs b))"
  using assms
proof (induction rm arbitrary: cs)
  case (Cons b rm)
  then obtain s where s: "lookup cs b = Some (Some s)" by auto
  let ?cs = "put b (Some (s\<lparr>sb_bids := []\<rparr>)) cs"
  have "b \<in> fst ` set cs" using s by (metis domI dom_map_of_conv_image_fst)
  then have keys: "map fst ?cs = map fst cs" by (simp add: update_keys)
  have "\<forall>b'\<in>set rm. \<exists>s. lookup ?cs b' = Some (Some s)" using Cons.prems by auto
  from Cons.IH [OF this] obtain cs' where cs': "fold_opt empty_seat rm ?cs = Some cs'" "map fst cs' = map fst ?cs"
    "\<forall>b'. lookup cs' b' = (if b' \<in> set rm then map_option (map_option (\<lambda>s. s\<lparr>sb_bids := []\<rparr>)) (lookup ?cs b') else lookup ?cs b')" by blast
  have "fold_opt empty_seat (b # rm) cs = Some cs'" using cs'(1) s by (simp add: empty_seat_def [of b])
  with cs'(2,3) s keys show ?case by (intro exI [of _ cs']) auto
qed simp

lemma seats_eqI:
  assumes "map fst xs = map fst ys" and "distinct (map fst xs)" and "\<And>b. lookup xs b = lookup ys b"
  shows "xs = ys"
  using assms
proof (induction xs arbitrary: ys)
  case (Cons x xs)
  then obtain y zs where ys: "ys = y # zs" by (cases ys) auto
  have "snd x = snd y" using Cons.prems(3) [of "fst x"] Cons.prems(1) ys by (cases x; cases y) auto
  moreover have "lookup xs b = lookup zs b" for b
  proof (cases "b = fst x")
    case True
    with Cons.prems(1,2) ys show ?thesis by (metis list.inject list.simps(9) distinct.simps(2) map_of_eq_None_iff set_map)
  next
    case False
    with Cons.prems(3) [of b] Cons.prems(1) ys show ?thesis by (cases x; cases y) auto
  qed
  ultimately show ?case using Cons ys by (cases x; cases y) auto
qed simp

lemma lookup_exclude:
  "lookup (exclude H D seats) b = map_option (map_option (\<lambda>t. t\<lparr>sb_bids := filter (kept H D b) (sb_bids t)\<rparr>)) (lookup seats b)"
  by (induction seats) (auto simp: exclude_def)

lemma empty_seats_exclude:
  assumes "good_seats H seats" and c: "loop_ok H seats (map fst seats) c"
  shows "fold_opt empty_seat (kl_seatsToRemove c) (kl_seats c) = Some (exclude H (ks_dedupe c) seats)"
proof -
  from c have "\<forall>b\<in>set (kl_seatsToRemove c). \<exists>s. lookup (kl_seats c) b = Some (Some s)"
    unfolding loop_ok_def finished_def by blast
  from empty_seats_lookup [OF this] obtain cs' where cs': "fold_opt empty_seat (kl_seatsToRemove c) (kl_seats c) = Some cs'"
    "map fst cs' = map fst (kl_seats c)"
    "\<And>b. lookup cs' b = (if b \<in> set (kl_seatsToRemove c) then map_option (map_option (\<lambda>s. s\<lparr>sb_bids := []\<rparr>)) (lookup (kl_seats c) b) else lookup (kl_seats c) b)"
    by blast
  have "lookup cs' b = lookup (exclude H (ks_dedupe c) seats) b" for b
  proof (cases "b \<in> set (map fst seats)")
    case True
    with c have "finished H seats (ks_dedupe c) (kl_seats c) (kl_seatsToRemove c) b" unfolding loop_ok_def by blast
    then obtain s0 s where s: "lookup seats b = Some (Some s0)" "lookup (kl_seats c) b = Some (Some s)" "s\<lparr>sb_bids := []\<rparr> = s0\<lparr>sb_bids := []\<rparr>"
      "if b \<in> set (kl_seatsToRemove c) then \<forall>p\<in>set (sb_bids s0). \<not> kept H (ks_dedupe c) b p else sb_bids s = filter (kept H (ks_dedupe c) b) (sb_bids s0)"
      by (auto simp: finished_def)
    have "s\<lparr>sb_bids := ps\<rparr> = s0\<lparr>sb_bids := ps\<rparr>" for ps using arg_cong [OF s(3), of "\<lambda>s. s\<lparr>sb_bids := ps\<rparr>"] by simp
    note same = this
    show ?thesis
    proof (cases "b \<in> set (kl_seatsToRemove c)")
      case True
      with s(4) have "filter (kept H (ks_dedupe c) b) (sb_bids s0) = []" by (simp add: filter_empty_conv)
      with True show ?thesis by (simp add: cs'(3) lookup_exclude s(1,2) same)
    next
      case False
      then have "s = s0\<lparr>sb_bids := filter (kept H (ks_dedupe c) b) (sb_bids s0)\<rparr>" using s(3,4) by (cases s; cases s0) simp
      with False show ?thesis by (simp add: cs'(3) lookup_exclude s(1,2))
    qed
  next
    case False
    then have "lookup seats b = None" "lookup cs' b = None" using cs'(2) c by (simp_all add: loop_ok_def map_of_eq_None_iff flip: set_map)
    then show ?thesis by (simp add: lookup_exclude)
  qed
  moreover have "map fst cs' = map fst (exclude H (ks_dedupe c) seats)" "distinct (map fst cs')"
    using cs'(2) c assms(1) by (simp_all add: loop_ok_def exclude_def comp_def case_prod_beta good_seats_def wf_map_def)
  ultimately show ?thesis using seats_eqI cs'(1) by metis
qed

section \<open>Competitive exclusion\<close>

lemma table_ok_no_cats: "table_ok fetchCat cfg H [] no_cats"
  by (simp add: table_ok_def no_cats_def)

lemma ref_loop_table:
  assumes "good_seats H seats"
  shows "table_ok fetchCat cfg H (all_cands seats) (ref_loop fetchCat coin cfg H (all_cands seats))"
  using table_ok_loop [OF table_ok_no_cats, of H "all_cands seats" fetchCat cfg coin] assms by (simp add: ref_loop_def good_seats_def)

lemma applyCategoryMapping_ref:
  assumes good: "good_seats H seats" and cfg: "category_settings brandCatExt t pg = Inr cfg"
  shows "applyCategoryMapping fetchCat coin brandCatExt t pg H seats = (let st = ref_loop fetchCat coin cfg H (all_cands seats)
    in Some (ks_res st, exclude H (ks_dedupe st) seats, ks_rejections st, None))"
proof -
  let ?c = "\<lparr>ks_res = [], ks_dedupe = [], ks_rejections = [], ks_tosses = 0, kl_seats = seats, kl_seatsToRemove = [], kl_bidsToRemove = []\<rparr>"
  have t: "cat_state.truncate ?c = no_cats" by (simp add: no_cats_def cat_state.defs)
  have "loop_ok H ([] @ seats) (map fst []) ?c" by (simp add: loop_ok_def)
  from cat_seats_ok [where dn = "[]" and todo = seats and c = ?c and fetchCat = fetchCat and cfg = cfg and coin = coin and H = H] this good
  obtain c' where c': "fold_opt (cat_seat fetchCat coin cfg H) (map fst seats) ?c = Some c'" "loop_ok H seats (map fst seats) c'"
    "cat_state.truncate c' = ref_loop fetchCat coin cfg H (all_cands seats)"
    using table_ok_no_cats [of fetchCat cfg H] by (auto simp: t all_cands_simps ref_loop_def)
  have f: "ks_dedupe c' = ks_dedupe (ref_loop fetchCat coin cfg H (all_cands seats))" "ks_res c' = ks_res (ref_loop fetchCat coin cfg H (all_cands seats))"
    "ks_rejections c' = ks_rejections (ref_loop fetchCat coin cfg H (all_cands seats))"
    using arg_cong [OF c'(3), of ks_dedupe] arg_cong [OF c'(3), of ks_res] arg_cong [OF c'(3), of ks_rejections] by simp_all
  show ?thesis by (simp add: applyCategoryMapping_def cfg c'(1) empty_seats_exclude [OF good c'(2)] f Let_def)
qed

lemma all_bids_exclude: "all_bids (exclude H D seats) = filter (\<lambda>(b, p). kept H D b p) (all_bids seats)"
  by (induction seats) (auto simp: exclude_def all_bids_def seat_bids_def filter_map comp_def split: option.splits)

lemma all_bids_cands: "all_bids seats = map (\<lambda>(b, i, p). (b, p)) (all_cands seats)"
proof -
  have "map (Pair b) ps = map (\<lambda>(b, i, p). (b, p)) (seat_cands b ps)" for b and ps :: "ptr list"
    by (rule nth_equalityI) (auto simp: seat_cands_def nth_enumerate_eq)
  then show ?thesis by (simp add: all_cands_def all_bids_def map_concat comp_def) (simp add: case_prod_beta')
qed

lemma kept_ids:
  assumes good: "good_seats H seats" and ok: "table_ok fetchCat cfg H (all_cands seats) st"
  shows "mset (seen_ids H (filter (\<lambda>(b, i, p). kept H (ks_dedupe st) b p) (all_cands seats))) = mset (map (\<lambda>(k, d). bd_bidID d) (ks_dedupe st))"
proof -
  let ?D = "ks_dedupe st" and ?K = "filter (\<lambda>(b, i, p). kept H (ks_dedupe st) b p) (all_cands seats)"
  have dist: "distinct (seen_ids H (all_cands seats))" using good by (simp add: good_seats_def)
  have wf: "wf_map ?D" by (rule table_okD(1) [OF ok])
  have "distinct (seen_ids H ?K)" using dist by (simp add: seen_ids_def distinct_map_filter)
  moreover have "distinct (map (\<lambda>(k, d). bd_bidID d) ?D)"
  proof -
    have "inj_on (\<lambda>(k, d). bd_bidID d) (set ?D)"
    proof (rule inj_onI)
      fix e e' assume e: "e \<in> set ?D" "e' \<in> set ?D" "(\<lambda>(k, d). bd_bidID d) e = (\<lambda>(k, d). bd_bidID d) e'"
      then have l: "lookup ?D (fst e) = Some (snd e)" "lookup ?D (fst e') = Some (snd e')" using wf by (simp_all add: wf_map_lookup_iff)
      from entry_key_unique [OF ok dist l] e(3) have "fst e = fst e'" by (simp add: case_prod_beta)
      with l show "e = e'" by (simp add: prod_eq_iff)
    qed
    then show ?thesis using wf by (auto simp: distinct_map wf_map_def)
  qed
  moreover have "set (seen_ids H ?K) = set (map (\<lambda>(k, d). bd_bidID d) ?D)"
  proof (rule set_eqI)
    fix j
    have "j \<in> set (seen_ids H ?K) \<longleftrightarrow> (\<exists>k d. lookup ?D k = Some d \<and> bd_bidID d = j)"
    proof
      assume "j \<in> set (seen_ids H ?K)"
      then show "\<exists>k d. lookup ?D k = Some d \<and> bd_bidID d = j" by (auto simp: seen_ids_def kept_def) blast
    next
      assume "\<exists>k d. lookup ?D k = Some d \<and> bd_bidID d = j"
      then obtain k d where d: "lookup ?D k = Some d" "bd_bidID d = j" by blast
      with table_okD(2) [OF ok d(1)] obtain q where q: "(bd_bidderName d, bd_bidIndex d, q) \<in> set (all_cands seats)" "j = pid H q" by blast
      with d have "kept H ?D (bd_bidderName d) q" by (auto simp: kept_def)
      with q show "j \<in> set (seen_ids H ?K)" by (force simp: seen_ids_def)
    qed
    then show "j \<in> set (seen_ids H ?K) \<longleftrightarrow> j \<in> set (map (\<lambda>(k, d). bd_bidID d) ?D)" using wf by (force simp: wf_map_lookup_iff)
  qed
  ultimately show ?thesis by (simp only: set_eq_iff_mset_eq_distinct)
qed

lemma survivors:
  assumes good: "good_seats H seats" and ok: "table_ok fetchCat cfg H (all_cands seats) st"
    and p: "(b, p) \<in> set (all_bids (exclude H (ks_dedupe st) seats))"
  shows "\<exists>price k catDur. candidate fetchCat cfg H b p = Inr (price, k, catDur) \<and> lookup (ks_res st) (pid H p) = Some catDur \<and>
     (\<exists>d. lookup (ks_dedupe st) k = Some d \<and> bd_bidID d = pid H p \<and> bd_bidPrice d = price)"
proof -
  from p obtain i k d where i: "(b, i, p) \<in> set (all_cands seats)" and d: "lookup (ks_dedupe st) k = Some d" "bd_bidderName d = b" "bd_bidID d = pid H p"
    unfolding all_bids_exclude by (auto simp: all_bids_cands kept_def)
  from table_okD(2) [OF ok d(1)] obtain q catDur where q: "(b, bd_bidIndex d, q) \<in> set (all_cands seats)" "pid H p = pid H q"
    "candidate fetchCat cfg H b q = Inr (bd_bidPrice d, k, catDur)" "lookup (ks_res st) (pid H p) = Some catDur" using d by auto
  with seen_same [of H "all_cands seats" "(b, i, p)" "(b, bd_bidIndex d, q)"] i good have "q = p" by (simp add: good_seats_def)
  with q d show ?thesis by auto
qed

text \<open>What is reported of a bid that is removed.\<close>

definition removal :: "(string \<Rightarrow> string \<Rightarrow> string \<Rightarrow> go_error + string) \<Rightarrow> cat_cfg \<Rightarrow> store \<Rightarrow> bidderName \<Rightarrow> ptr \<Rightarrow> string" where
  "removal fetchCat cfg H b p = ''bid rejected [bid ID: '' @ pid H p @ ''] reason: '' @
     (case candidate fetchCat cfg H b p of Inl reason \<Rightarrow> reason | Inr _ \<Rightarrow> ''Bid was deduplicated'')"

lemma mset_put_new: "lookup m k = None \<Longrightarrow> mset (put k v m) = add_mset (k, v) (mset m)"
  by (induction m) (auto split: if_splits)

lemma mset_put_old: "wf_map m \<Longrightarrow> lookup m k = Some d \<Longrightarrow> add_mset (k, d) (mset (put k v m)) = add_mset (k, v) (mset m)"
  by (induction m) (auto simp: wf_map_def split: if_splits dest: map_of_SomeD)


definition entry_texts :: "(string, bidDedupe) gomap \<Rightarrow> string multiset" where
  "entry_texts D = image_mset (\<lambda>(k, d). rejection (bd_bidID d) ''Bid was deduplicated'') (mset D)"

lemma ref_step_removals:
  assumes "wf_map (ks_dedupe st)"
  shows "wf_map (ks_dedupe (ref_step fetchCat coin cfg H (b, i, p) st)) \<and>
    mset (ks_rejections (ref_step fetchCat coin cfg H (b, i, p) st)) + entry_texts (ks_dedupe (ref_step fetchCat coin cfg H (b, i, p) st)) =
      add_mset (removal fetchCat cfg H b p) (mset (ks_rejections st) + entry_texts (ks_dedupe st))"
proof (cases "candidate fetchCat cfg H b p")
  case (Inl reason)
  then show ?thesis using assms by (simp add: ref_step_def reject_def removal_def rejection_def)
next
  case (Inr c)
  obtain price k catDur where c: "c = (price, k, catDur)" by (metis prod.exhaust)
  have why: "removal fetchCat cfg H b p = rejection (pid H p) ''Bid was deduplicated''" using Inr by (simp add: removal_def rejection_def)
  show ?thesis
  proof (cases "lookup (ks_dedupe st) k")
    case None
    with Inr c assms why show ?thesis by (simp add: ref_step_def accept_def entry_texts_def mset_put_new)
  next
    case (Some d)
    obtain newer n where r: "replaces coin (bd_bidPrice d) price (ks_tosses st) = (newer, n)" by fastforce
    let ?d = "\<lparr>bd_bidderName = b, bd_bidIndex = i, bd_bidID = pid H p, bd_bidPrice = price\<rparr>"
    have "add_mset (rejection (bd_bidID d) ''Bid was deduplicated'') (entry_texts (put k ?d (ks_dedupe st))) =
        add_mset (rejection (pid H p) ''Bid was deduplicated'') (entry_texts (ks_dedupe st))"
      using arg_cong [OF mset_put_old [OF assms Some, of ?d], of "image_mset (\<lambda>(k, d). rejection (bd_bidID d) ''Bid was deduplicated'')"]
      by (simp add: entry_texts_def)
    with Inr c Some r assms why show ?thesis by (cases newer) (simp_all add: ref_step_def accept_def reject_def)
  qed
qed

lemma ref_loop_removals:
  "mset (ks_rejections (ref_loop fetchCat coin cfg H es)) + entry_texts (ks_dedupe (ref_loop fetchCat coin cfg H es)) =
    mset (map (\<lambda>(b, i, p). removal fetchCat cfg H b p) es)"
proof -
  have "mset (ks_rejections (fold (ref_step fetchCat coin cfg H) es st)) + entry_texts (ks_dedupe (fold (ref_step fetchCat coin cfg H) es st)) =
      mset (ks_rejections st) + entry_texts (ks_dedupe st) + mset (map (\<lambda>(b, i, p). removal fetchCat cfg H b p) es)" if "wf_map (ks_dedupe st)" for st
    using that
  proof (induction es arbitrary: st)
    case (Cons e es)
    obtain b i p where e: "e = (b, i, p)" by (metis prod.exhaust)
    note step = ref_step_removals [OF Cons.prems, of fetchCat coin cfg H b i p]
    show ?case using Cons.IH [of "ref_step fetchCat coin cfg H e st"] step by (simp add: e)
  qed simp
  from this [of no_cats] show ?thesis by (simp add: ref_loop_def no_cats_def wf_map_def entry_texts_def)
qed

lemma removals_exact:
  assumes good: "good_seats H seats" and st: "st = ref_loop fetchCat coin cfg H (all_cands seats)"
  shows "mset (ks_rejections st) = mset (map (\<lambda>(b, p). removal fetchCat cfg H b p) (filter (\<lambda>(b, p). \<not> kept H (ks_dedupe st) b p) (all_bids seats)))"
proof -
  let ?f = "\<lambda>(b, i, p). removal fetchCat cfg H b p" and ?k = "\<lambda>(b, i, p). kept H (ks_dedupe st) b p"
  have ok: "table_ok fetchCat cfg H (all_cands seats) st" unfolding st by (rule ref_loop_table [OF good])
  have f: "?f e = rejection (pid H (snd (snd e))) ''Bid was deduplicated''" if "e \<in> set (filter ?k (all_cands seats))" for e
  proof -
    obtain b i p where e: "e = (b, i, p)" by (metis prod.exhaust)
    with that have "(b, p) \<in> set (all_bids (exclude H (ks_dedupe st) seats))"
      unfolding all_bids_exclude by (force simp: all_bids_cands)
    from survivors [OF good ok this] show ?thesis by (auto simp: e removal_def rejection_def)
  qed
  have "entry_texts (ks_dedupe st) = image_mset (\<lambda>j. rejection j ''Bid was deduplicated'') (mset (map (\<lambda>(k, d). bd_bidID d) (ks_dedupe st)))"
    by (simp add: entry_texts_def image_mset.compositionality comp_def case_prod_beta')
  also have "\<dots> = image_mset (\<lambda>j. rejection j ''Bid was deduplicated'') (mset (seen_ids H (filter ?k (all_cands seats))))"
    by (simp only: kept_ids [OF good ok])
  also have "\<dots> = mset (map (\<lambda>e. rejection (pid H (snd (snd e))) ''Bid was deduplicated'') (filter ?k (all_cands seats)))"
    by (simp add: seen_ids_def image_mset.compositionality comp_def case_prod_beta')
  also have "\<dots> = mset (map ?f (filter ?k (all_cands seats)))"
    by (rule arg_cong [where f = mset], rule map_cong [OF refl], rule f [symmetric])
  finally have "mset (ks_rejections st) + mset (map ?f (filter ?k (all_cands seats))) = mset (map ?f (all_cands seats))"
    using ref_loop_removals [of fetchCat coin cfg H "all_cands seats"] by (simp add: st)
  also have "mset (map ?f (all_cands seats)) = mset (map ?f (filter (\<lambda>e. \<not> ?k e) (all_cands seats))) + mset (map ?f (filter ?k (all_cands seats)))"
    by (simp flip: image_mset_union mset_append add: union_filter_mset_complement)
  finally have "mset (ks_rejections st) = mset (map ?f (filter (\<lambda>e. \<not> ?k e) (all_cands seats)))" by simp
  then show ?thesis by (simp add: all_bids_cands filter_map comp_def case_prod_beta')
qed

text \<open>
  C25. \<open>applyCategoryMapping\<close>, which takes bids out of the seats while it goes through them (by index in the seat at hand, by id in
  the seats that are done, whole seats at the end), does what one pass over the bids without any removal does: the categories
  and the rejections are those of the pass, each seat keeps in its order the bids that are in the table at the end, and
  nothing is out of range and no seat is missed. The seats hold bids with different ids and no nil pointer.
\<close>

theorem category_refinement:
  assumes "good_seats H seats" and "category_settings brandCatExt t pg = Inr cfg"
  shows "applyCategoryMapping fetchCat coin brandCatExt t pg H seats = (let st = ref_loop fetchCat coin cfg H (all_cands seats)
    in Some (ks_res st, exclude H (ks_dedupe st) seats, ks_rejections st, None))"
  by (rule applyCategoryMapping_ref [OF assms])

text \<open>
  C24. Competitive exclusion, for seats whose bids all have different ids and no nil pointer: a bid that stays has a category, with which it is listed; no bid
  with the same key had a higher price bucket, and no other one with that key stays; every key that a bid had is still taken by a bid; and the
  rejections are those of the bids that were removed, each with the bid's id and the reason why it has no category, or that it was a duplicate.
\<close>

theorem competitive_exclusion:
  assumes good: "good_seats H seats" and cfg: "category_settings brandCatExt t pg = Inr cfg"
    and run: "applyCategoryMapping fetchCat coin brandCatExt t pg H seats = Some (res, seats', rejections, e)"
  shows "(\<forall>(b, p)\<in>set (all_bids seats'). (b, p) \<in> set (all_bids seats) \<and>
      (\<exists>price k catDur. candidate fetchCat cfg H b p = Inr (price, k, catDur) \<and> lookup res (pid H p) = Some catDur \<and>
        (\<forall>(b', p')\<in>set (all_bids seats). \<forall>price' catDur'. candidate fetchCat cfg H b' p' = Inr (price', k, catDur') \<longrightarrow>
           fle (price_value price') (price_value price) \<and> ((b', p') \<in> set (all_bids seats') \<longrightarrow> pid H p' = pid H p)))) \<and>
    (\<forall>(b, p)\<in>set (all_bids seats). \<forall>price k catDur. candidate fetchCat cfg H b p = Inr (price, k, catDur) \<longrightarrow>
      (\<exists>(b', p')\<in>set (all_bids seats'). \<exists>price' catDur'. candidate fetchCat cfg H b' p' = Inr (price', k, catDur'))) \<and>
    mset rejections = mset (map (\<lambda>(b, p). removal fetchCat cfg H b p) (filter (\<lambda>(b, p). (b, p) \<notin> set (all_bids seats')) (all_bids seats))) \<and> e = None"
proof -
  let ?st = "ref_loop fetchCat coin cfg H (all_cands seats)"
  note ok = ref_loop_table [OF good, of fetchCat cfg coin]
  from run applyCategoryMapping_ref [OF good cfg, of fetchCat coin]
  have out: "res = ks_res ?st" "seats' = exclude H (ks_dedupe ?st) seats" "rejections = ks_rejections ?st" and e: "e = None"
    by (simp_all add: Let_def)
  have best: "\<exists>d. lookup (ks_dedupe ?st) k = Some d \<and> fle (price_value price) (price_value (bd_bidPrice d))"
    if "(b, p) \<in> set (all_bids seats)" "candidate fetchCat cfg H b p = Inr (price, k, catDur)" for b p price k catDur
    using that table_okD(4) [OF ok _ that(2)] by (auto simp: all_bids_cands)
  have one: "(b, p) \<in> set (all_bids seats) \<and>
      (\<exists>price k catDur. candidate fetchCat cfg H b p = Inr (price, k, catDur) \<and> lookup res (pid H p) = Some catDur \<and>
        (\<forall>(b', p')\<in>set (all_bids seats). \<forall>price' catDur'. candidate fetchCat cfg H b' p' = Inr (price', k, catDur') \<longrightarrow>
           fle (price_value price') (price_value price) \<and> ((b', p') \<in> set (all_bids seats') \<longrightarrow> pid H p' = pid H p)))"
    if p: "(b, p) \<in> set (all_bids seats')" for b p
  proof -
    from survivors [OF good ok p [unfolded out(2)]] obtain price k catDur d where
      c: "candidate fetchCat cfg H b p = Inr (price, k, catDur)" "lookup res (pid H p) = Some catDur"
      and d: "lookup (ks_dedupe ?st) k = Some d" "bd_bidID d = pid H p" "bd_bidPrice d = price" unfolding out(1) by blast
    have "fle (price_value price') (price_value price)" if "(b', p') \<in> set (all_bids seats)" "candidate fetchCat cfg H b' p' = Inr (price', k, catDur')" for b' p' price' catDur'
      using best [OF that] d by simp
    moreover have "pid H p' = pid H p" if "(b', p') \<in> set (all_bids seats')" "candidate fetchCat cfg H b' p' = Inr (price', k, catDur')" for b' p' price' catDur'
      using survivors [OF good ok that(1) [unfolded out(2)]] that(2) d by auto
    moreover have "(b, p) \<in> set (all_bids seats)" using p unfolding out(2) all_bids_exclude by simp
    ultimately show ?thesis using c by blast
  qed
  have two: "\<exists>(b', p')\<in>set (all_bids seats'). \<exists>price' catDur'. candidate fetchCat cfg H b' p' = Inr (price', k, catDur')"
    if c: "(b, p) \<in> set (all_bids seats)" "candidate fetchCat cfg H b p = Inr (price, k, catDur)" for b p price k catDur
  proof -
    from best [OF c] obtain d where d: "lookup (ks_dedupe ?st) k = Some d" by blast
    from table_okD(2) [OF ok this] obtain q cd where q: "(bd_bidderName d, bd_bidIndex d, q) \<in> set (all_cands seats)" "bd_bidID d = pid H q"
      "candidate fetchCat cfg H (bd_bidderName d) q = Inr (bd_bidPrice d, k, cd)" by blast
    then have "(bd_bidderName d, q) \<in> set (all_bids seats)" by (force simp: all_bids_cands)
    moreover have "kept H (ks_dedupe ?st) (bd_bidderName d) q" using d q(2) by (auto simp: kept_def)
    ultimately have "(bd_bidderName d, q) \<in> set (all_bids seats')" unfolding out(2) all_bids_exclude by simp
    with q(3) show ?thesis by blast
  qed
  have "filter (\<lambda>(b, p). (b, p) \<notin> set (all_bids seats')) (all_bids seats) = filter (\<lambda>(b, p). \<not> kept H (ks_dedupe ?st) b p) (all_bids seats)"
    unfolding out(2) all_bids_exclude by (rule filter_cong) auto
  then have "mset rejections = mset (map (\<lambda>(b, p). removal fetchCat cfg H b p) (filter (\<lambda>(b, p). (b, p) \<notin> set (all_bids seats')) (all_bids seats)))"
    using removals_exact [OF good refl, of fetchCat coin cfg] by (simp add: out(3))
  with one two e show ?thesis by blast
qed

text \<open>Two bids of one category and one of another from a bidder, and a dearer one from a second bidder.\<close>

definition category_store :: store where
  "category_store = \<lparr>st_pbs = map_of [(0, example_pbs 0), (1, example_pbs 1), (2, example_pbs 2)],
     st_bid = map_of [(0, (example_bid ''a'' (Fin 1) [])\<lparr>bid_Cat := [''IAB1'']\<rparr>), (1, (example_bid ''b'' (Fin 5) [])\<lparr>bid_Cat := [''IAB2'']\<rparr>),
       (2, (example_bid ''c'' (Fin 3) [])\<lparr>bid_Cat := [''IAB1'']\<rparr>)]\<rparr>"

definition category_seats :: seats where
  "category_seats = [(''appnexus'', Some \<lparr>sb_bids = [0, 1], sb_currency = ''USD'', sb_httpCalls = []\<rparr>),
     (''pubmatic'', Some \<lparr>sb_bids = [2], sb_currency = ''USD'', sb_httpCalls = []\<rparr>)]"

definition category_ext :: IncludeBrandCategory where
  "category_ext = \<lparr>ibc_PrimaryAdServer = 0, ibc_Publisher = [], ibc_WithCategory = True, ibc_TranslateCategories = Some False\<rparr>"

definition category_targeting :: Targeting where
  "category_targeting = \<lparr>tg_PriceGranularity = priceGranularityMed, tg_IncludeWinners = True, tg_IncludeBidderKeys = True,
     tg_IncludeBrandCategory = Some category_ext, tg_IncludeFormat = False, tg_DurationRangeSec = [30, 15], tg_PreferDeals = False, tg_AppendBidderNames = False\<rparr>"

definition category_cfg :: cat_cfg where
  "category_cfg = \<lparr>cc_withCategory = True, cc_translate = False, cc_adServer = [], cc_publisher = [], cc_durations = [30, 15],
     cc_appendBidderNames = False, cc_granularity = priceGranularityMed\<rparr>"

lemma category_example:
  "good_seats category_store category_seats" "category_settings category_ext category_targeting priceGranularityMed = Inr category_cfg"
  by code_simp+

theorem category_refinement_witness:
  "applyCategoryMapping (\<lambda>_ _ _. Inr []) (\<lambda>_. True) category_ext category_targeting priceGranularityMed category_store category_seats =
     Some ([(''b'', ''5.00_IAB2_15s''), (''c'', ''3.00_IAB1_15s'')],
       [(''appnexus'', Some \<lparr>sb_bids = [1], sb_currency = ''USD'', sb_httpCalls = []\<rparr>), (''pubmatic'', Some \<lparr>sb_bids = [2], sb_currency = ''USD'', sb_httpCalls = []\<rparr>)],
       [''bid rejected [bid ID: a] reason: Bid was deduplicated''], None)"
proof -
  let ?st = "ref_loop (\<lambda>_ _ _. Inr []) (\<lambda>_. True) category_cfg category_store (all_cands category_seats)"
  have st: "?st = \<lparr>ks_res = [(''b'', ''5.00_IAB2_15s''), (''c'', ''3.00_IAB1_15s'')],
      ks_dedupe = [(''IAB1'', \<lparr>bd_bidderName = ''pubmatic'', bd_bidIndex = 0, bd_bidID = ''c'', bd_bidPrice = ''3.00''\<rparr>),
        (''IAB2'', \<lparr>bd_bidderName = ''appnexus'', bd_bidIndex = 1, bd_bidID = ''b'', bd_bidPrice = ''5.00''\<rparr>)],
      ks_rejections = [''bid rejected [bid ID: a] reason: Bid was deduplicated''], ks_tosses = 0\<rparr>" by code_simp
  have "kept category_store (ks_dedupe ?st) ''appnexus'' 1" "kept category_store (ks_dedupe ?st) ''pubmatic'' 2" "\<not> kept category_store (ks_dedupe ?st) ''appnexus'' 0"
    unfolding st by code_simp+
  then have "exclude category_store (ks_dedupe ?st) category_seats =
    [(''appnexus'', Some \<lparr>sb_bids = [1], sb_currency = ''USD'', sb_httpCalls = []\<rparr>), (''pubmatic'', Some \<lparr>sb_bids = [2], sb_currency = ''USD'', sb_httpCalls = []\<rparr>)]"
    by (simp add: exclude_def category_seats_def)
  note seats = this [unfolded st cat_state.simps]
  show ?thesis by (subst category_refinement [OF category_example]) (simp only: Let_def st cat_state.simps seats)
qed

theorem competitive_exclusion_witness:
  "\<exists>res seats' rejections. applyCategoryMapping (\<lambda>_ _ _. Inr []) (\<lambda>_. True) category_ext category_targeting priceGranularityMed category_store category_seats =
     Some (res, seats', rejections, None) \<and>
     mset rejections = mset (map (\<lambda>(b, p). removal (\<lambda>_ _ _. Inr []) category_cfg category_store b p) (filter (\<lambda>(b, p). (b, p) \<notin> set (all_bids seats')) (all_bids category_seats)))"
proof -
  obtain res seats' rejections e where r: "applyCategoryMapping (\<lambda>_ _ _. Inr []) (\<lambda>_. True) category_ext category_targeting priceGranularityMed category_store category_seats =
     Some (res, seats', rejections, e)"
    using applyCategoryMapping_ref [OF category_example, of "\<lambda>_ _ _. Inr []" "\<lambda>_. True"] by (auto simp: Let_def)
  show ?thesis
    by (intro exI [of _ res] exI [of _ seats'] exI [of _ rejections] conjI) (use competitive_exclusion [OF category_example r] r in auto)
qed

end
