(* ===== verification/Bidder_Adapter.thy ===== *)
theory Bidder_Adapter
  imports Seat_Bids Currency "HOL-Library.Sublist"
begin

text \<open>
  Asking one bidder: the wrapper that keeps requests within the capabilities of a bidder
  (\<open>adapters/infoawarebidder.go\<close>), \<open>requestBid\<close> of \<open>exchange/bidder.go\<close>, which turns the HTTP
  answers into a seat of bids, and the validation of the seat (\<open>exchange/bidder_validate_bids.go\<close>).
  The adapter of the bidder is the pair of functions \<open>makeRequests\<close> and \<open>makeBids\<close>, whose
  slices hold no nil elements as the interface demands, and whose bids are separate objects. HTTP is
  the function \<open>http\<close>; answers of parallel calls arrive in the order that \<open>arrival\<close> gives them.
  Reading and writing native markup are the functions of \<open>native_codec\<close>. A panic is None. Metrics
  and traces are left out.
\<close>

section \<open>Adapters\<close>

record RequestData =
  rq_Method :: string
  rq_Uri :: string
  rq_Body :: string
  rq_Headers :: "(string, string list) gomap option"

record ResponseData =
  rp_StatusCode :: int
  rp_Body :: string
  rp_Headers :: "(string, string list) gomap"

record TypedBid =
  tb_Bid :: "Bid option"
  tb_BidType :: string
  tb_BidVideo :: "BidVideo option"
  tb_DealPriority :: int

record BidderResponse =
  rs_Currency :: string
  rs_Bids :: "TypedBid list"

text \<open>\<open>MakeRequests\<close> may change the request it is given; the third component is the request it leaves.\<close>

record Bidder =
  makeRequests :: "BidRequest \<Rightarrow> RequestData list \<times> go_error list \<times> BidRequest"
  makeBids :: "BidRequest \<Rightarrow> RequestData \<Rightarrow> ResponseData \<Rightarrow> BidderResponse option \<times> go_error list"

section \<open>Capabilities\<close>

record parsedSupports =
  su_enabled :: bool
  su_banner :: bool
  su_video :: bool
  su_audio :: bool
  su_native :: bool

record parsedBidderInfo =
  bi_app :: parsedSupports
  bi_site :: parsedSupports

definition noSupports :: parsedSupports where
  "noSupports = \<lparr>su_enabled = False, su_banner = False, su_video = False, su_audio = False, su_native = False\<rparr>"

text \<open>The media types of \<open>bidder-info\<close> by platform; None where the platform is not supported.\<close>

record CapabilitiesInfo =
  cap_App :: "string list option"
  cap_Site :: "string list option"

definition parseAllowedTypes :: "string list \<Rightarrow> parsedSupports \<Rightarrow> parsedSupports" where
  "parseAllowedTypes types s = fold (\<lambda>t s.
     if t = BidType_string BidTypeBanner then s\<lparr>su_banner := True\<rparr>
     else if t = BidType_string BidTypeVideo then s\<lparr>su_video := True\<rparr>
     else if t = BidType_string BidTypeAudio then s\<lparr>su_audio := True\<rparr>
     else if t = BidType_string BidTypeNative then s\<lparr>su_native := True\<rparr> else s) types s"

definition parse_platform :: "string list option \<Rightarrow> parsedSupports" where
  "parse_platform types = (case types of
     None \<Rightarrow> noSupports | Some ts \<Rightarrow> parseAllowedTypes ts (noSupports\<lparr>su_enabled := True\<rparr>))"

definition parseBidderInfo :: "CapabilitiesInfo option \<Rightarrow> parsedBidderInfo" where
  "parseBidderInfo info = (case info of
     None \<Rightarrow> \<lparr>bi_app = noSupports, bi_site = noSupports\<rparr>
   | Some c \<Rightarrow> \<lparr>bi_app = parse_platform (cap_App c), bi_site = parse_platform (cap_Site c)\<rparr>)"

definition hasAnyTypes :: "Imp \<Rightarrow> bool" where
  "hasAnyTypes imp = (imp_Banner imp \<noteq> None \<or> imp_Video imp \<noteq> None \<or> imp_Audio imp \<noteq> None \<or> imp_Native imp \<noteq> None)"

definition unsupported :: "int \<Rightarrow> string \<Rightarrow> go_error" where
  "unsupported i media = BadInput (''request.imp['' @ itoa i @ ''] uses '' @ media @ '', but this bidder doesn'' @ [CHR 39] @ ''t support it'')"

definition pruneImp :: "parsedSupports \<Rightarrow> int \<Rightarrow> Imp \<Rightarrow> Imp \<times> go_error list" where
  "pruneImp s i imp =
     (imp\<lparr>imp_Banner := (if su_banner s then imp_Banner imp else None),
          imp_Video := (if su_video s then imp_Video imp else None),
          imp_Audio := (if su_audio s then imp_Audio imp else None),
          imp_Native := (if su_native s then imp_Native imp else None)\<rparr>,
      (if \<not> su_banner s \<and> imp_Banner imp \<noteq> None then [unsupported i ''banner''] else []) @
      (if \<not> su_video s \<and> imp_Video imp \<noteq> None then [unsupported i ''video''] else []) @
      (if \<not> su_audio s \<and> imp_Audio imp \<noteq> None then [unsupported i ''audio''] else []) @
      (if \<not> su_native s \<and> imp_Native imp \<noteq> None then [unsupported i ''native''] else []))"

text \<open>The pruned impressions, the number of those without a media type, and the errors.\<close>

fun pruneImps :: "parsedSupports \<Rightarrow> int \<Rightarrow> Imp list \<Rightarrow> Imp list \<times> int \<times> go_error list" where
  "pruneImps s i [] = ([], 0, [])"
| "pruneImps s i (imp # imps) =
     (case pruneImp s i imp of (imp', errs) \<Rightarrow> (case pruneImps s (i + 1) imps of (imps', n, errs') \<Rightarrow>
        (imp' # imps', if hasAnyTypes imp' then n else n + 1, errs @ errs')))"

fun filterImps :: "int \<Rightarrow> Imp list \<Rightarrow> Imp list \<times> go_error list" where
  "filterImps i [] = ([], [])"
| "filterImps i (imp # imps) = (case filterImps (i + 1) imps of (imps', errs) \<Rightarrow>
     if hasAnyTypes imp then (imp # imps', errs)
     else (imps', BadInput (''request.imp['' @ itoa i @ ''] has no supported MediaTypes. It will be ignored'') # errs))"

definition allowed_types :: "parsedBidderInfo \<Rightarrow> BidRequest \<Rightarrow> go_error list + parsedSupports" where
  "allowed_types info request =
     (if req_Site request \<noteq> None \<and> \<not> su_enabled (bi_site info)
      then Inl [BadInput ''this bidder does not support site requests'']
      else if req_App request \<noteq> None \<and> \<not> su_enabled (bi_app info)
      then Inl [BadInput ''this bidder does not support app requests'']
      else Inr (if req_App request \<noteq> None then bi_app info
                else if req_Site request \<noteq> None then bi_site info else noSupports))"

text \<open>
  Whether the delegate is called, the request as the wrapper leaves it, and the errors. Unsupported
  media types are removed from the impressions in place.
\<close>

definition infoaware_request :: "parsedBidderInfo \<Rightarrow> BidRequest \<Rightarrow> bool \<times> BidRequest \<times> go_error list" where
  "infoaware_request info request = (case allowed_types info request of
     Inl errs \<Rightarrow> (False, request, errs)
   | Inr s \<Rightarrow>
       (case pruneImps s 0 (req_Imp request) of (imps, n, errs) \<Rightarrow>
          if n = int (length (req_Imp request))
          then (False, request\<lparr>req_Imp := imps\<rparr>,
                errs @ [BadInput ''Bid request didn't contain media types supported by the bidder''])
          else if n \<noteq> 0
          then (case filterImps 0 imps of (imps', errs') \<Rightarrow> (True, request\<lparr>req_Imp := imps'\<rparr>, errs @ errs'))
          else (True, request\<lparr>req_Imp := imps\<rparr>, errs)))"

definition BuildInfoAwareBidder :: "parsedBidderInfo \<Rightarrow> Bidder \<Rightarrow> Bidder" where
  "BuildInfoAwareBidder info bidder = bidder\<lparr>makeRequests := (\<lambda>request.
     (case infoaware_request info request of (call, request', errs) \<Rightarrow>
        if call then (case makeRequests bidder request' of (reqs, delegateErrs, request'') \<Rightarrow>
                        (reqs, errs @ delegateErrs, request''))
        else ([], errs, request')))\<rparr>"

section \<open>HTTP\<close>

text \<open>
  What a call comes to: the request cannot be built, the deadline passes, another network error, a
  body that cannot be read, or a response.
\<close>

datatype http_result = NoRequest go_error | DeadlineExceeded string | NetworkError go_error | BodyError go_error
  | HttpResponse int string "(string, string list) gomap"

record httpCallInfo =
  hc_request :: RequestData
  hc_response :: "ResponseData option"
  hc_err :: "go_error option"

definition doRequest :: "(RequestData \<Rightarrow> http_result) \<Rightarrow> RequestData \<Rightarrow> httpCallInfo" where
  "doRequest http req = (case http req of
     NoRequest e \<Rightarrow> \<lparr>hc_request = req, hc_response = None, hc_err = Some e\<rparr>
   | DeadlineExceeded m \<Rightarrow> \<lparr>hc_request = req, hc_response = None, hc_err = Some (Timeout m)\<rparr>
   | NetworkError e \<Rightarrow> \<lparr>hc_request = req, hc_response = None, hc_err = Some e\<rparr>
   | BodyError e \<Rightarrow> \<lparr>hc_request = req, hc_response = None, hc_err = Some e\<rparr>
   | HttpResponse status body headers \<Rightarrow>
       \<lparr>hc_request = req, hc_response = Some \<lparr>rp_StatusCode = status, rp_Body = body, rp_Headers = headers\<rparr>,
        hc_err = (if status < 200 \<or> status \<ge> 400
          then Some (BadServerResponse (''Server responded with failure status: '' @ itoa status @ ''. Set request.test = 1 for debugging info.''))
          else None)\<rparr>)"

definition filterHeader :: "(string, string list) gomap option \<Rightarrow> (string, string list) gomap" where
  "filterHeader h = del ''Authorization'' (case h of None \<Rightarrow> [] | Some m \<Rightarrow> m)"

definition makeExt :: "httpCallInfo \<Rightarrow> ExtHttpCall" where
  "makeExt info =
     (let req = hc_request info;
          ext = \<lparr>xh_Uri = rq_Uri req, xh_RequestBody = rq_Body req, xh_RequestHeaders = filterHeader (rq_Headers req),
                 xh_ResponseBody = [], xh_Status = 0\<rparr>
      in case (hc_err info, hc_response info) of
           (None, Some r) \<Rightarrow> ext\<lparr>xh_ResponseBody := rp_Body r, xh_Status := rp_StatusCode r\<rparr>
         | _ \<Rightarrow> ext)"

text \<open>\<open>Header.Add\<close> with the canonical form of the key.\<close>

definition add_gpc :: "string \<Rightarrow> RequestData \<Rightarrow> RequestData" where
  "add_gpc gpc req = (if gpc = ''1''
     then (let h = (case rq_Headers req of None \<Rightarrow> [] | Some m \<Rightarrow> m);
               old = (case lookup h ''Sec-Gpc'' of None \<Rightarrow> [] | Some vs \<Rightarrow> vs)
           in req\<lparr>rq_Headers := Some (put ''Sec-Gpc'' (old @ [gpc]) h)\<rparr>)
     else req)"

section \<open>Native markup\<close>

record NativeAsset =
  as_ID :: "int option"
  as_Img :: "int option"
  as_Data :: "int option"
  as_other :: json

record RequestAsset =
  ra_ID :: int
  ra_Img :: "int option"
  ra_Data :: "int option"

record NativeResponse =
  nr_Assets :: "NativeAsset list"
  nr_other :: json

text \<open>
  Of an image or data object only the type is kept, 0 when it has none. \<open>null\<close> is read as the nil
  pointer, here \<open>Inr None\<close>. A native request that cannot be read leaves the assets read so far.
\<close>

record native_codec =
  nc_decode :: "string \<Rightarrow> go_error + NativeResponse option"
  nc_request :: "string \<Rightarrow> RequestAsset list \<times> go_error option"
  nc_encode :: "NativeResponse \<Rightarrow> go_error + string"

definition getNativeImpByImpID :: "string \<Rightarrow> BidRequest \<Rightarrow> go_error + Native" where
  "getNativeImpByImpID impID request =
     (case find (\<lambda>imp. imp_ID imp = impID \<and> imp_Native imp \<noteq> None) (req_Imp request) of
        Some imp \<Rightarrow> (case imp_Native imp of Some n \<Rightarrow> Inr n | None \<Rightarrow> Inl (OtherError ''Could not find native imp''))
      | None \<Rightarrow> Inl (OtherError ''Could not find native imp''))"

definition getAssetByID :: "int \<Rightarrow> RequestAsset list \<Rightarrow> go_error + RequestAsset" where
  "getAssetByID i assets = (case find (\<lambda>a. ra_ID a = i) assets of
     Some a \<Rightarrow> Inr a | None \<Rightarrow> Inl (OtherError (''Unable to find asset with ID:'' @ itoa i @ '' in the request'')))"

text \<open>One of the two halves of \<open>setAssetTypes\<close>: the type of an object, after that of the request.\<close>

definition asset_type ::
  "string \<Rightarrow> string \<Rightarrow> int option \<Rightarrow> (RequestAsset \<Rightarrow> int option) \<Rightarrow> RequestAsset list \<Rightarrow> int \<Rightarrow> go_error + int" where
  "asset_type kind article aid sel assets t = (case aid of
     None \<Rightarrow> Inl (OtherError (''Response '' @ kind @ '' asset doesn'' @ [CHR 39] @ ''t have an ID''))
   | Some i \<Rightarrow> (case getAssetByID i assets of
        Inl e \<Rightarrow> Inl e
      | Inr a \<Rightarrow> (case sel a of
           None \<Rightarrow> Inl (OtherError (''Response has '' @ article @ kind @ '' asset with ID:'' @ itoa i @
                     '' present that doesn'' @ [CHR 39] @ ''t exist in the request''))
         | Some t' \<Rightarrow> Inr (if t' \<noteq> 0 then t' else t))))"

definition setAssetTypes :: "RequestAsset list \<Rightarrow> NativeAsset \<Rightarrow> NativeAsset \<times> go_error option" where
  "setAssetTypes assets a =
     (case (case as_Img a of
              None \<Rightarrow> Inr a
            | Some t \<Rightarrow> (case asset_type ''Image'' ''an '' (as_ID a) ra_Img assets t of
                 Inl e \<Rightarrow> Inl e | Inr t' \<Rightarrow> Inr (a\<lparr>as_Img := Some t'\<rparr>))) of
        Inl e \<Rightarrow> (a, Some e)
      | Inr a' \<Rightarrow> (case as_Data a' of
           None \<Rightarrow> (a', None)
         | Some t \<Rightarrow> (case asset_type ''Data'' ''a '' (as_ID a) ra_Data assets t of
              Inl e \<Rightarrow> (a', Some e) | Inr t' \<Rightarrow> (a'\<lparr>as_Data := Some t'\<rparr>, None))))"

text \<open>The markup with types, or nil, and the errors; None is the dereference of a nil markup.\<close>

definition addNativeTypes :: "native_codec \<Rightarrow> Bid \<Rightarrow> BidRequest \<Rightarrow> (NativeResponse option \<times> go_error list) option" where
  "addNativeTypes nc bid request = (case nc_decode nc (bid_AdM bid) of
     Inl e \<Rightarrow> Some (None, [])
   | Inr None \<Rightarrow> None
   | Inr (Some markup) \<Rightarrow>
       if nr_Assets markup = [] then Some (None, [])
       else (case getNativeImpByImpID (bid_ImpID bid) request of
               Inl e \<Rightarrow> Some (None, [e])
             | Inr native \<Rightarrow>
                 (case nc_request nc (nat_Request native) of (assets, err) \<Rightarrow>
                    (let results = map (setAssetTypes assets) (nr_Assets markup);
                         errs = (case err of None \<Rightarrow> [] | Some e \<Rightarrow> [e]) @ List.map_filter snd results
                     in Some (Some (markup\<lparr>nr_Assets := map fst results\<rparr>), errs)))))"

definition native_bid :: "native_codec \<Rightarrow> BidRequest \<Rightarrow> TypedBid \<Rightarrow> (TypedBid \<times> go_error list) option" where
  "native_bid nc request tb =
     (if tb_BidType tb = BidType_string BidTypeNative
      then (case tb_Bid tb of
              None \<Rightarrow> None
            | Some bid \<Rightarrow> (case addNativeTypes nc bid request of
                 None \<Rightarrow> None
               | Some (None, errs) \<Rightarrow> Some (tb, errs)
               | Some (Some markup, errs) \<Rightarrow>
                   (case nc_encode nc markup of
                      Inl e \<Rightarrow> Some (tb, errs @ [e])
                    | Inr adm \<Rightarrow> Some (tb\<lparr>tb_Bid := Some (bid\<lparr>bid_AdM := adm\<rparr>)\<rparr>, errs))))
      else Some (tb, []))"

fun native_bids :: "native_codec \<Rightarrow> BidRequest \<Rightarrow> TypedBid list \<Rightarrow> (TypedBid list \<times> go_error list) option" where
  "native_bids nc request [] = Some ([], [])"
| "native_bids nc request (tb # tbs) = (case native_bid nc request tb of
     None \<Rightarrow> None
   | Some (tb', errs) \<Rightarrow> (case native_bids nc request tbs of
        None \<Rightarrow> None
      | Some (tbs', errs') \<Rightarrow> Some (tb' # tbs', errs @ errs')))"

section \<open>Requesting bids\<close>

record newBid =
  nb_bid :: "Bid option"
  nb_bidType :: string
  nb_bidVideo :: "BidVideo option"
  nb_dealPriority :: int

record newSeat =
  ns_bids :: "newBid list"
  ns_currency :: string
  ns_httpCalls :: "ExtHttpCall list"

record bid_env =
  be_Bidder :: Bidder
  be_GetRate :: "string \<Rightarrow> string \<Rightarrow> go_error + float64"
  be_Adjustment :: float64
  be_Native :: native_codec
  be_HeaderDebug :: bool
  be_DebugContext :: bool
  be_AccountDebug :: bool
  be_BidderDebug :: bool

record bid_state =
  bs_Request :: BidRequest
  bs_Seat :: newSeat
  bs_Errors :: "go_error list"

definition debug_step :: "bid_env \<Rightarrow> httpCallInfo \<Rightarrow> bid_state \<Rightarrow> bid_state" where
  "debug_step env info st =
     (let call = st\<lparr>bs_Seat := (bs_Seat st)\<lparr>ns_httpCalls := ns_httpCalls (bs_Seat st) @ [makeExt info]\<rparr>\<rparr>
      in if be_HeaderDebug env then call
         else if be_DebugContext env \<and> be_AccountDebug env
         then (if be_BidderDebug env then call
               else st\<lparr>bs_Errors := bs_Errors st @ [Warning ''debug turned off for bidder'' BidderLevelDebugDisabledWarningCode]\<rparr>)
         else st)"

definition converted_bid :: "float64 \<Rightarrow> float64 \<Rightarrow> TypedBid \<Rightarrow> newBid" where
  "converted_bid adjustment rate tb =
     \<lparr>nb_bid = map_option (\<lambda>b. b\<lparr>bid_Price := fmul (fmul (bid_Price b) adjustment) rate\<rparr>) (tb_Bid tb),
      nb_bidType = tb_BidType tb, nb_bidVideo = tb_BidVideo tb, nb_dealPriority = tb_DealPriority tb\<rparr>"

definition response_currency :: "BidderResponse \<Rightarrow> string" where
  "response_currency r = (if rs_Currency r = [] then ''USD'' else rs_Currency r)"

definition default_cur :: "BidRequest \<Rightarrow> BidRequest" where
  "default_cur req = (if req_Cur req = [] then req\<lparr>req_Cur := [''USD'']\<rparr> else req)"

definition add_response :: "bid_env \<Rightarrow> BidderResponse \<Rightarrow> bid_state \<Rightarrow> bid_state option" where
  "add_response env r st =
     (let req = default_cur (bs_Request st); seat = bs_Seat st;
          picked = pick_currency (be_GetRate env) (response_currency r) (req_Cur req);
          seat' = (case picked of Inr (Some c, _) \<Rightarrow> seat\<lparr>ns_currency := c\<rparr> | _ \<Rightarrow> seat)
      in case (if req_App req \<noteq> None then native_bids (be_Native env) req (rs_Bids r) else Some (rs_Bids r, [])) of
           None \<Rightarrow> None
         | Some (bids, errs) \<Rightarrow>
             (case picked of
                Inl e \<Rightarrow> Some (st\<lparr>bs_Request := req, bs_Seat := seat', bs_Errors := bs_Errors st @ errs @ [e]\<rparr>)
              | Inr (_, rate) \<Rightarrow>
                  Some (st\<lparr>bs_Request := req,
                      bs_Seat := seat'\<lparr>ns_bids := ns_bids seat' @ map (converted_bid (be_Adjustment env) rate) bids\<rparr>,
                      bs_Errors := bs_Errors st @ errs\<rparr>)))"

definition response_step :: "bid_env \<Rightarrow> httpCallInfo \<Rightarrow> bid_state \<Rightarrow> bid_state option" where
  "response_step env info st =
     (let st1 = debug_step env info st
      in case hc_err info of
           Some e \<Rightarrow> Some (st1\<lparr>bs_Errors := bs_Errors st1 @ [e]\<rparr>)
         | None \<Rightarrow> (case hc_response info of
              None \<Rightarrow> None
            | Some resp \<Rightarrow>
                (case makeBids (be_Bidder env) (bs_Request st1) (hc_request info) resp of (r, moreErrs) \<Rightarrow>
                   (let st2 = st1\<lparr>bs_Errors := bs_Errors st1 @ moreErrs\<rparr>
                    in case r of None \<Rightarrow> Some st2 | Some resp' \<Rightarrow> add_response env resp' st2))))"

definition requestBid ::
  "bid_env \<Rightarrow> (RequestData \<Rightarrow> http_result) \<Rightarrow> (httpCallInfo list \<Rightarrow> httpCallInfo list) \<Rightarrow> string \<Rightarrow> BidRequest
     \<Rightarrow> (newSeat option \<times> go_error list \<times> BidRequest) option" where
  "requestBid env http arrival gpc request =
     (case makeRequests (be_Bidder env) request of (reqData, errs, request') \<Rightarrow>
        if reqData = []
        then Some (None, if errs = [] then [FailedToRequestBids ''The adapter failed to generate any bid requests, but also failed to generate an error explaining why''] else errs, request')
        else map_option (\<lambda>st. (Some (bs_Seat st), bs_Errors st, bs_Request st))
               (fold_opt (response_step env) (arrival (map (doRequest http \<circ> add_gpc gpc) reqData))
                  \<lparr>bs_Request = request', bs_Seat = \<lparr>ns_bids = [], ns_currency = ''USD'', ns_httpCalls = []\<rparr>, bs_Errors = errs\<rparr>))"

section \<open>Validation\<close>

definition validateBid :: "newBid \<Rightarrow> go_error option" where
  "validateBid nb = (case nb_bid nb of
     None \<Rightarrow> Some (OtherError ''Empty bid object submitted.'')
   | Some b \<Rightarrow>
       (let q = [CHR 34]; this = ''Bid '' @ q @ bid_ID b @ q
        in if bid_ID b = [] then Some (OtherError (''Bid missing required field '' @ [CHR 39] @ ''id'' @ [CHR 39]))
           else if bid_ImpID b = [] then Some (OtherError (this @ '' missing required field '' @ [CHR 39] @ ''impid'' @ [CHR 39]))
           else if fle (bid_Price b) (Fin 0) then Some (OtherError (this @ '' does not contain a positive '' @ [CHR 39] @ ''price'' @ [CHR 39]))
           else if bid_CrID b = [] then Some (OtherError (this @ '' missing creative ID''))
           else None))"

text \<open>\<open>ParseISO\<close> of \<open>golang.org/x/text/currency\<close> is the argument \<open>parseISO\<close>, as in Currency.\<close>

definition validateCurrency :: "(string \<Rightarrow> go_error + string) \<Rightarrow> string list \<Rightarrow> string \<Rightarrow> go_error option" where
  "validateCurrency parseISO requestAllowed bidCurrency =
     (case parseISO (if bidCurrency = [] then ''USD'' else bidCurrency) of
        Inl e \<Rightarrow> Some e
      | Inr unit_ \<Rightarrow>
          (let allowed = (if requestAllowed = [] then [''USD''] else requestAllowed)
           in if list_ex (\<lambda>c. to_upper c = unit_) allowed then None
              else Some (OtherError (''Bid currency is not allowed. Was '' @ [CHR 39] @ unit_ @ [CHR 39] @ '', wants: ['' @
                     [CHR 39] @ join ([CHR 39] @ '', '' @ [CHR 39]) allowed @ [CHR 39] @ '']''))))"

definition removeInvalidBids :: "(string \<Rightarrow> go_error + string) \<Rightarrow> BidRequest \<Rightarrow> newSeat option \<Rightarrow> newSeat option \<times> go_error list" where
  "removeInvalidBids parseISO request seatBid = (case seatBid of
     None \<Rightarrow> (None, [])
   | Some s \<Rightarrow>
       if ns_bids s = [] then (Some s, [])
       else (case validateCurrency parseISO (req_Cur request) (ns_currency s) of
               Some e \<Rightarrow> (Some (s\<lparr>ns_bids := []\<rparr>), [e])
             | None \<Rightarrow> (Some (s\<lparr>ns_bids := filter (\<lambda>b. validateBid b = None) (ns_bids s)\<rparr>),
                        List.map_filter validateBid (ns_bids s))))"

definition validated_requestBid ::
  "(string \<Rightarrow> go_error + string) \<Rightarrow> bid_env \<Rightarrow> (RequestData \<Rightarrow> http_result) \<Rightarrow> (httpCallInfo list \<Rightarrow> httpCallInfo list)
     \<Rightarrow> string \<Rightarrow> BidRequest \<Rightarrow> (newSeat option \<times> go_error list \<times> BidRequest) option" where
  "validated_requestBid parseISO env http arrival gpc request =
     (case requestBid env http arrival gpc request of
        None \<Rightarrow> None
      | Some (seat, errs, request') \<Rightarrow>
          (case removeInvalidBids parseISO request' seat of (seat', errs') \<Rightarrow> Some (seat', errs @ errs', request')))"

section \<open>Properties: capabilities\<close>

definition pruned :: "parsedSupports \<Rightarrow> Imp \<Rightarrow> Imp" where
  "pruned s imp = fst (pruneImp s 0 imp)"

lemma fst_pruneImp: "fst (pruneImp s i imp) = pruned s imp"
  by (simp add: pruned_def pruneImp_def)

lemma pruneImps_imps: "fst (pruneImps s i imps) = map (pruned s) imps"
proof (induction s i imps rule: pruneImps.induct)
  case (2 s i imp imps)
  then show ?case using fst_pruneImp [of s i imp] by (auto split: prod.splits)
qed simp

lemma pruneImps_count:
  "fst (snd (pruneImps s i imps)) = int (length (filter (\<lambda>imp. \<not> hasAnyTypes (pruned s imp)) imps))"
proof (induction s i imps rule: pruneImps.induct)
  case (2 s i imp imps)
  then show ?case using fst_pruneImp [of s i imp] by (auto split: prod.splits)
qed simp

lemma filterImps_imps: "fst (filterImps i imps) = filter hasAnyTypes imps"
  by (induction i imps rule: filterImps.induct) (auto split: prod.splits)

lemma infoaware_imps:
  assumes "infoaware_request info request = (True, request', errs)"
  obtains s where "allowed_types info request = Inr s"
    "request' = request\<lparr>req_Imp := filter hasAnyTypes (map (pruned s) (req_Imp request))\<rparr>"
    "filter hasAnyTypes (map (pruned s) (req_Imp request)) \<noteq> []"
proof -
  from assms obtain s where s: "allowed_types info request = Inr s"
    by (auto simp: infoaware_request_def split: sum.splits)
  obtain imps n es where p: "pruneImps s 0 (req_Imp request) = (imps, n, es)" by (cases "pruneImps s 0 (req_Imp request)")
  have imps: "imps = map (pruned s) (req_Imp request)" using pruneImps_imps [of s 0 "req_Imp request"] p by simp
  have n: "n = int (length (filter (\<lambda>imp. \<not> hasAnyTypes imp) imps))"
    using pruneImps_count [of s 0 "req_Imp request"] p by (simp add: imps filter_map comp_def)
  have sum: "length (filter hasAnyTypes imps) + length (filter (\<lambda>imp. \<not> hasAnyTypes imp) imps) = length (req_Imp request)"
    using sum_length_filter_compl [of hasAnyTypes imps] by (simp add: imps)
  have ne: "n \<noteq> int (length (req_Imp request))" using assms s p by (auto simp: infoaware_request_def split: if_splits)
  have r: "request' = request\<lparr>req_Imp := filter hasAnyTypes imps\<rparr>"
  proof (cases "n = 0")
    case True
    then have "filter (\<lambda>imp. \<not> hasAnyTypes imp) imps = []" using n by simp
    then have "filter hasAnyTypes imps = imps" by (auto simp: filter_empty_conv filter_id_conv)
    with True assms s p ne show ?thesis by (simp add: infoaware_request_def)
  next
    case False
    with assms s p ne filterImps_imps [of 0 imps] show ?thesis
      by (auto simp: infoaware_request_def split: prod.splits)
  qed
  have "filter hasAnyTypes imps \<noteq> []" using ne n sum by auto
  with that [OF s] r show thesis by (simp add: imps)
qed

text \<open>The media types of the platform a request is for; a request for both platforms needs both and is treated as one for an app.\<close>

definition platform_types :: "CapabilitiesInfo option \<Rightarrow> BidRequest \<Rightarrow> string list option" where
  "platform_types info request =
     (if req_App request = None \<and> req_Site request = None then None
      else Option.bind info (\<lambda>c.
        if req_App request = None then cap_Site c
        else if req_Site request \<noteq> None \<and> cap_Site c = None then None else cap_App c))"

definition with_types :: "string list \<Rightarrow> Imp \<Rightarrow> Imp" where
  "with_types ts imp = imp\<lparr>imp_Banner := (if ''banner'' \<in> set ts then imp_Banner imp else None),
     imp_Video := (if ''video'' \<in> set ts then imp_Video imp else None), imp_Audio := (if ''audio'' \<in> set ts then imp_Audio imp else None),
     imp_Native := (if ''native'' \<in> set ts then imp_Native imp else None)\<rparr>"

lemma parseAllowedTypes_set:
  "su_banner (parseAllowedTypes ts s) \<longleftrightarrow> su_banner s \<or> ''banner'' \<in> set ts"
  "su_video (parseAllowedTypes ts s) \<longleftrightarrow> su_video s \<or> ''video'' \<in> set ts"
  "su_audio (parseAllowedTypes ts s) \<longleftrightarrow> su_audio s \<or> ''audio'' \<in> set ts"
  "su_native (parseAllowedTypes ts s) \<longleftrightarrow> su_native s \<or> ''native'' \<in> set ts"
  "su_enabled (parseAllowedTypes ts s) \<longleftrightarrow> su_enabled s"
  by (induction ts arbitrary: s) (auto simp: parseAllowedTypes_def)

lemma parse_platform_pruned:
  "su_enabled (parse_platform types) \<longleftrightarrow> types \<noteq> None" "pruned (parse_platform (Some ts)) = with_types ts"
  by (auto simp: parse_platform_def parseAllowedTypes_set noSupports_def pruned_def pruneImp_def with_types_def split: option.splits)

lemma pruned_noSupports: "\<not> hasAnyTypes (pruned noSupports imp)"
  by (simp add: hasAnyTypes_def pruned_def pruneImp_def noSupports_def)

lemma allowed_types_platform:
  "case platform_types info request of
     Some ts \<Rightarrow> \<exists>s. allowed_types (parseBidderInfo info) request = Inr s \<and> pruned s = with_types ts
   | None \<Rightarrow> (\<exists>e. allowed_types (parseBidderInfo info) request = Inl e) \<or> allowed_types (parseBidderInfo info) request = Inr noSupports"
  by (cases info; cases "req_App request"; cases "req_Site request")
     (auto simp: platform_types_def allowed_types_def parseBidderInfo_def parse_platform_pruned parse_platform_def [of None] noSupports_def
        split: option.splits)

lemma infoaware_call:
  assumes "allowed_types info request = Inr s"
  shows "fst (infoaware_request info request) \<longleftrightarrow> filter hasAnyTypes (map (pruned s) (req_Imp request)) \<noteq> []"
proof -
  obtain imps n es where p: "pruneImps s 0 (req_Imp request) = (imps, n, es)" by (cases "pruneImps s 0 (req_Imp request)")
  have n: "n = int (length (filter (\<lambda>imp. \<not> hasAnyTypes (pruned s imp)) (req_Imp request)))"
    using pruneImps_count [of s 0 "req_Imp request"] p by simp
  have "fst (infoaware_request info request) \<longleftrightarrow> n \<noteq> int (length (req_Imp request))"
    using assms p by (auto simp: infoaware_request_def split: prod.splits)
  also have "\<dots> \<longleftrightarrow> length (filter (\<lambda>imp. hasAnyTypes (pruned s imp)) (req_Imp request)) \<noteq> 0"
    using sum_length_filter_compl [of "\<lambda>imp. hasAnyTypes (pruned s imp)" "req_Imp request"] n by linarith
  finally show ?thesis by (simp add: filter_map comp_def)
qed

text \<open>
  C14. An adapter only sees what its bidder supports. The delegate is called exactly if the bidder's file lists the platform of the request (both, for a
  request with app and site) and some impression has a media type that is listed for that platform, the app's for a request with an app. It
  then gets the request with those impressions, in order, without the media types that are not listed, and with nothing else changed.
\<close>

theorem infoaware_supported:
  assumes "infoaware_request (parseBidderInfo info) request = (called, request', errs)"
  shows "case platform_types info request of
      None \<Rightarrow> \<not> called
    | Some ts \<Rightarrow>
        called = (filter hasAnyTypes (map (with_types ts) (req_Imp request)) \<noteq> []) \<and>
        (called \<longrightarrow> request' = request\<lparr>req_Imp := filter hasAnyTypes (map (with_types ts) (req_Imp request))\<rparr>)"
proof (cases "platform_types info request")
  case None
  with allowed_types_platform [of info request] consider (e) e where "allowed_types (parseBidderInfo info) request = Inl e"
    | (n) "allowed_types (parseBidderInfo info) request = Inr noSupports" by auto
  then show ?thesis
  proof cases
    case n
    from infoaware_call [OF n] assms None show ?thesis by (simp add: pruned_noSupports filter_map comp_def)
  qed (use assms None in \<open>simp add: infoaware_request_def\<close>)
next
  case (Some ts)
  with allowed_types_platform [of info request] obtain s where s: "allowed_types (parseBidderInfo info) request = Inr s" "pruned s = with_types ts" by auto
  have "request' = request\<lparr>req_Imp := filter hasAnyTypes (map (with_types ts) (req_Imp request))\<rparr>" if called
    using infoaware_imps [of "parseBidderInfo info" request request' errs] assms that s by auto
  with infoaware_call [OF s(1)] assms s(2) Some show ?thesis by simp
qed

section \<open>Properties: the answers of a bidder\<close>

text \<open>What one answer adds to the bids, the errors and the debug calls, whatever came before.\<close>

definition empty_state :: "BidRequest \<Rightarrow> bid_state" where
  "empty_state req = \<lparr>bs_Request = req, bs_Seat = \<lparr>ns_bids = [], ns_currency = ''USD'', ns_httpCalls = []\<rparr>, bs_Errors = []\<rparr>"

lemma default_cur_id [simp]: "req_Cur req \<noteq> [] \<Longrightarrow> default_cur req = req"
  by (simp add: default_cur_def)

definition extends :: "bid_state \<Rightarrow> bid_state \<Rightarrow> bid_state \<Rightarrow> bool" where
  "extends st d st' = (bs_Request st' = bs_Request st \<and>
     ns_bids (bs_Seat st') = ns_bids (bs_Seat st) @ ns_bids (bs_Seat d) \<and>
     ns_httpCalls (bs_Seat st') = ns_httpCalls (bs_Seat st) @ ns_httpCalls (bs_Seat d) \<and>
     bs_Errors st' = bs_Errors st @ bs_Errors d)"

lemma debug_step_extends: "extends st (debug_step env info (empty_state (bs_Request st))) (debug_step env info st)"
  by (simp add: extends_def debug_step_def empty_state_def Let_def)

lemma add_response_extends:
  assumes "req_Cur (bs_Request st) \<noteq> []"
  shows "rel_option (extends st) (add_response env r (empty_state (bs_Request st))) (add_response env r st)"
proof -
  let ?req = "bs_Request st"
  let ?n = "if req_App ?req \<noteq> None then native_bids (be_Native env) ?req (rs_Bids r) else Some (rs_Bids r, [])"
  obtain x where x: "?n = x" by blast
  show ?thesis
  proof (cases "pick_currency (be_GetRate env) (response_currency r) (req_Cur ?req)")
    case (Inl e)
    with x assms show ?thesis
      by (cases x) (auto simp: add_response_def empty_state_def extends_def Let_def)
  next
    case (Inr p)
    obtain c rate where p: "p = (c, rate)" by (cases p)
    with Inr x assms show ?thesis
      by (cases x; cases c) (auto simp: add_response_def empty_state_def extends_def Let_def)
  qed
qed

lemma extends_trans:
  assumes "extends st d1 st1" and "extends st1 d2 st2" and "extends d1 d2 d"
  shows "extends st d st2"
  using assms by (simp add: extends_def)

lemma response_step_extends:
  assumes "req_Cur (bs_Request st) \<noteq> []"
  shows "rel_option (extends st) (response_step env info (empty_state (bs_Request st))) (response_step env info st)"
proof -
  let ?e = "empty_state (bs_Request st)"
  let ?d = "debug_step env info ?e" and ?s = "debug_step env info st"
  have reqs: "bs_Request ?d = bs_Request st" "bs_Request ?s = bs_Request st"
    by (simp_all add: debug_step_def empty_state_def Let_def)
  have ds: "extends st ?d ?s" by (rule debug_step_extends)
  consider (err) e where "hc_err info = Some e" | (none) "hc_err info = None" "hc_response info = None"
    | (resp) resp where "hc_err info = None" "hc_response info = Some resp" by (cases "hc_err info"; cases "hc_response info") auto
  then show ?thesis
  proof cases
    case err
    with ds show ?thesis by (simp add: response_step_def Let_def extends_def)
  next
    case none
    then show ?thesis by (simp add: response_step_def)
  next
    case resp
    obtain r errs where mb: "makeBids (be_Bidder env) (bs_Request st) (hc_request info) resp = (r, errs)"
      by (cases "makeBids (be_Bidder env) (bs_Request st) (hc_request info) resp")
    let ?d2 = "?d\<lparr>bs_Errors := bs_Errors ?d @ errs\<rparr>" and ?s2 = "?s\<lparr>bs_Errors := bs_Errors ?s @ errs\<rparr>"
    have e2: "extends st ?d2 ?s2" using ds by (simp add: extends_def)
    show ?thesis
    proof (cases r)
      case None
      with resp mb reqs e2 show ?thesis by (simp add: response_step_def Let_def)
    next
      case (Some br)
      have d: "rel_option (extends ?d2) (add_response env br ?e) (add_response env br ?d2)"
        using add_response_extends [of ?d2 env br] assms reqs by simp
      have s: "rel_option (extends ?s2) (add_response env br ?e) (add_response env br ?s2)"
        using add_response_extends [of ?s2 env br] assms reqs by simp
      have "rel_option (extends st) (add_response env br ?d2) (add_response env br ?s2)"
      proof (cases "add_response env br ?e")
        case None
        with d s show ?thesis by simp
      next
        case (Some x)
        with d s obtain y z where "add_response env br ?d2 = Some y" "add_response env br ?s2 = Some z"
          "extends ?d2 x y" "extends ?s2 x z" by (auto simp: option_rel_Some1)
        with extends_trans [OF e2, of x z y] show ?thesis by simp
      qed
      with resp mb reqs Some show ?thesis by (simp add: response_step_def Let_def)
    qed
  qed
qed

definition answer :: "bid_env \<Rightarrow> BidRequest \<Rightarrow> httpCallInfo \<Rightarrow> bid_state option" where
  "answer env req info = response_step env info (empty_state req)"

definition collected :: "bid_env \<Rightarrow> httpCallInfo list \<Rightarrow> bid_state \<Rightarrow> bid_state \<Rightarrow> bool" where
  "collected env infos st st' =
     (bs_Request st' = bs_Request st \<and>
      ns_bids (bs_Seat st') = ns_bids (bs_Seat st) @ concat (map (\<lambda>i. ns_bids (bs_Seat (the (answer env (bs_Request st) i)))) infos) \<and>
      bs_Errors st' = bs_Errors st @ concat (map (\<lambda>i. bs_Errors (the (answer env (bs_Request st) i))) infos) \<and>
      ns_httpCalls (bs_Seat st') = ns_httpCalls (bs_Seat st) @ concat (map (\<lambda>i. ns_httpCalls (bs_Seat (the (answer env (bs_Request st) i)))) infos))"

lemma collected_Cons:
  assumes "answer env (bs_Request st) info = Some d" and "extends st d st1" and "collected env infos st1 st'"
  shows "collected env (info # infos) st st'"
proof -
  from assms(2) have "bs_Request st1 = bs_Request st" by (simp add: extends_def)
  with assms show ?thesis by (simp add: collected_def extends_def)
qed

lemma response_loop:
  assumes "req_Cur (bs_Request st) \<noteq> []"
  shows "if \<forall>info\<in>set infos. answer env (bs_Request st) info \<noteq> None
    then \<exists>st'. fold_opt (response_step env) infos st = Some st' \<and> collected env infos st st'
    else fold_opt (response_step env) infos st = None"
  using assms
proof (induction infos arbitrary: st)
  case Nil
  then show ?case by (simp add: collected_def)
next
  case (Cons info infos)
  have r: "rel_option (extends st) (answer env (bs_Request st) info) (response_step env info st)"
    unfolding answer_def using Cons.prems by (rule response_step_extends)
  show ?case
  proof (cases "response_step env info st")
    case None
    with r show ?thesis by simp
  next
    case (Some st1)
    with r obtain d where d: "answer env (bs_Request st) info = Some d" "extends st d st1"
      by (auto simp: option_rel_Some2)
    then have req: "bs_Request st1 = bs_Request st" by (simp add: extends_def)
    note IH = Cons.IH [of st1, unfolded req, OF Cons.prems]
    show ?thesis
    proof (cases "\<forall>info\<in>set infos. answer env (bs_Request st) info \<noteq> None")
      case True
      with IH obtain st' where "fold_opt (response_step env) infos st1 = Some st'" "collected env infos st1 st'"
        unfolding if_P [OF True] by blast
      with True Some d collected_Cons [OF d] show ?thesis by auto
    next
      case False
      with IH Some show ?thesis by auto
    qed
  qed
qed

lemma mset_concat_map:
  assumes "mset xs = mset ys"
  shows "mset (concat (map f xs)) = mset (concat (map f ys))"
proof -
  have "mset (concat (map f zs)) = sum_mset (image_mset (mset \<circ> f) (mset zs))" for zs by (induction zs) auto
  with assms show ?thesis by simp
qed

text \<open>
  C12. The order in which parallel answers arrive does not matter. For a request that names its
  currencies and any two orders of the same answers, either both runs panic or none does, and then the
  bids with their prices, the errors and the debug calls are the same up to their order.
\<close>

theorem arrival_order_irrelevant:
  assumes "makeRequests (be_Bidder env) request = (reqs, errs0, request')" and "req_Cur request' \<noteq> []" and "reqs \<noteq> []"
    and "\<forall>xs. mset (arrival1 xs) = mset xs" and "\<forall>xs. mset (arrival2 xs) = mset xs"
  shows "rel_option (\<lambda>(s1, e1, r1) (s2, e2, r2). r1 = r2 \<and> mset e1 = mset e2 \<and>
      rel_option (\<lambda>a b. mset (ns_bids a) = mset (ns_bids b) \<and> mset (ns_httpCalls a) = mset (ns_httpCalls b)) s1 s2)
    (requestBid env http arrival1 gpc request) (requestBid env http arrival2 gpc request)"
proof -
  let ?calls = "map (doRequest http \<circ> add_gpc gpc) reqs"
  let ?st = "(empty_state request')\<lparr>bs_Errors := errs0\<rparr>"
  have eq: "requestBid env http arr gpc request = map_option (\<lambda>st. (Some (bs_Seat st), bs_Errors st, bs_Request st))
      (fold_opt (response_step env) (arr ?calls) ?st)" for arr
    using assms(1,3) by (simp add: requestBid_def empty_state_def)
  have cur: "req_Cur (bs_Request ?st) \<noteq> []" using assms(2) by (simp add: empty_state_def)
  have m: "mset (arrival1 ?calls) = mset (arrival2 ?calls)" using assms(4,5) by metis
  then have st: "set (arrival1 ?calls) = set (arrival2 ?calls)" by (metis set_mset_mset)
  show ?thesis
  proof (cases "\<forall>info\<in>set (arrival1 ?calls). answer env (bs_Request ?st) info \<noteq> None")
    case False
    with response_loop [OF cur, where infos = "arrival1 ?calls"] response_loop [OF cur, where infos = "arrival2 ?calls"] st
    show ?thesis by (simp only: eq if_False option.map option.rel_inject simp_thms)
  next
    case True
    obtain s1 where s1: "fold_opt (response_step env) (arrival1 ?calls) ?st = Some s1" "collected env (arrival1 ?calls) ?st s1"
      using response_loop [OF cur, of "arrival1 ?calls" env] unfolding if_P [OF True] by blast
    from True have True2: "\<forall>info\<in>set (arrival2 ?calls). answer env (bs_Request ?st) info \<noteq> None" using st by simp
    obtain s2 where s2: "fold_opt (response_step env) (arrival2 ?calls) ?st = Some s2" "collected env (arrival2 ?calls) ?st s2"
      using response_loop [OF cur, of "arrival2 ?calls" env] unfolding if_P [OF True2] by blast
    have "mset (ns_bids (bs_Seat s1)) = mset (ns_bids (bs_Seat s2)) \<and> mset (bs_Errors s1) = mset (bs_Errors s2) \<and>
      mset (ns_httpCalls (bs_Seat s1)) = mset (ns_httpCalls (bs_Seat s2)) \<and> bs_Request s1 = bs_Request s2"
      using s1(2) s2(2) unfolding collected_def by (simp only: mset_append mset_concat_map [OF m] simp_thms)
    then show ?thesis by (simp add: eq s1(1) s2(1))
  qed
qed

definition example_bid :: Bid where
  "example_bid = \<lparr>bid_ID = ''b'', bid_ImpID = ''1'', bid_Price = Fin 2, bid_NURL = [], bid_AdM = ''<div>'', bid_CrID = ''c'',
     bid_Cat = [], bid_DealID = [], bid_W = 0, bid_H = 0, bid_Exp = 0, bid_Ext = RawEmpty, bid_other = JNull\<rparr>"

definition example_call :: "string \<Rightarrow> RequestData" where
  "example_call uri = \<lparr>rq_Method = ''POST'', rq_Uri = uri, rq_Body = [],
     rq_Headers = Some [(''Authorization'', [''secret'']), (''Accept'', [''json''])]\<rparr>"

definition example_adapter :: Bidder where
  "example_adapter = \<lparr>makeRequests = (\<lambda>r. ([example_call ''a'', example_call ''b''], [], r)),
     makeBids = (\<lambda>r q resp. (Some \<lparr>rs_Currency = (if rq_Uri q = ''a'' then ''USD'' else ''JPY''),
       rs_Bids = [\<lparr>tb_Bid = Some (example_bid\<lparr>bid_ID := rq_Uri q\<rparr>), tb_BidType = ''banner'', tb_BidVideo = None, tb_DealPriority = 0\<rparr>]\<rparr>, []))\<rparr>"

definition example_rate :: "string \<Rightarrow> string \<Rightarrow> go_error + float64" where
  "example_rate a b = (if a = b then Inr (Fin 1) else if a = ''JPY'' \<and> b = ''EUR'' then Inr (Fin (1 / 2))
     else Inl (ConversionRateNotFound a b))"

definition example_codec :: native_codec where
  "example_codec = \<lparr>nc_decode = (\<lambda>s. if s = ''null'' then Inr None else Inl (OtherError ''bad'')), nc_request = (\<lambda>_. ([], None)),
     nc_encode = (\<lambda>_. Inl (OtherError ''bad''))\<rparr>"

definition example_bid_env :: bid_env where
  "example_bid_env = \<lparr>be_Bidder = example_adapter, be_GetRate = example_rate, be_Adjustment = Fin 1, be_Native = example_codec,
     be_HeaderDebug = False, be_DebugContext = True, be_AccountDebug = True, be_BidderDebug = True\<rparr>"

definition example_bid_request :: BidRequest where
  "example_bid_request = \<lparr>req_ID = ''r'', req_Imp = [], req_Site = Some emptySite, req_App = None, req_Device = None, req_User = None,
     req_Test = 1, req_TMax = 0, req_Cur = [''USD'', ''EUR''], req_Source = None, req_Regs = None, req_Ext = RawEmpty, req_AT = 0, req_other = JNull\<rparr>"

definition example_requestBid :: "(httpCallInfo list \<Rightarrow> httpCallInfo list) \<Rightarrow> (newSeat option \<times> go_error list \<times> BidRequest) option" where
  "example_requestBid arrival = requestBid example_bid_env (\<lambda>_. HttpResponse 200 [] []) arrival ''1'' example_bid_request"

theorem arrival_order_irrelevant_witness:
  "\<exists>s1 s2. map_option fst (example_requestBid (\<lambda>xs. xs)) = Some (Some s1) \<and> map_option fst (example_requestBid rev) = Some (Some s2) \<and>
     mset (ns_bids s1) = mset (ns_bids s2)"
proof -
  have r: "makeRequests (be_Bidder example_bid_env) example_bid_request = ([example_call ''a'', example_call ''b''], [], example_bid_request)"
    by (simp add: example_bid_env_def example_adapter_def)
  have rel: "rel_option (\<lambda>(s1, e1, r1) (s2, e2, r2). r1 = r2 \<and> mset e1 = mset e2 \<and>
      rel_option (\<lambda>a b. mset (ns_bids a) = mset (ns_bids b) \<and> mset (ns_httpCalls a) = mset (ns_httpCalls b)) s1 s2)
    (example_requestBid (\<lambda>xs. xs)) (example_requestBid rev)"
    unfolding example_requestBid_def
    by (rule arrival_order_irrelevant [OF r]) (simp_all add: example_bid_request_def)
  have "map_option (\<lambda>x. fst x \<noteq> None) (example_requestBid (\<lambda>xs. xs)) = Some True" by code_simp
  then obtain s1 e1 r1 where 1: "example_requestBid (\<lambda>xs. xs) = Some (Some s1, e1, r1)" by auto
  with rel show ?thesis by (auto simp: option_rel_Some1)
qed

text \<open>
  The seat has one currency, that of the answer handled last; the bids of earlier answers may have
  been converted to another one. Here the bid of the first answer is in USD and that of the second
  in EUR.
\<close>

lemma seat_currency_of_last_answer:
  "map_option (map_option (\<lambda>s. (ns_currency s, map (\<lambda>nb. map_option bid_Price (nb_bid nb)) (ns_bids s))) \<circ> fst)
     (example_requestBid (\<lambda>xs. xs)) = Some (Some (''EUR'', [Some (Fin 2), Some (Fin 1)]))"
  "map_option (map_option ns_currency \<circ> fst) (example_requestBid rev) = Some (Some ''USD'')"
  by code_simp+

text \<open>A native bid in an app request whose markup is \<open>null\<close>, or without a bid, is dereferenced.\<close>

lemma null_native_markup_panics:
  "nc_decode nc (bid_AdM b) = Inr None \<Longrightarrow> addNativeTypes nc b request = None"
  "native_bid nc request \<lparr>tb_Bid = None, tb_BidType = ''native'', tb_BidVideo = None, tb_DealPriority = 0\<rparr> = None"
  by (simp_all add: addNativeTypes_def native_bid_def)

section \<open>Properties: validation and debugging\<close>

definition valid_bid :: "newBid \<Rightarrow> bool" where
  "valid_bid nb = (case nb_bid nb of
     None \<Rightarrow> False
   | Some b \<Rightarrow> bid_ID b \<noteq> [] \<and> bid_ImpID b \<noteq> [] \<and> \<not> fle (bid_Price b) (Fin 0) \<and> bid_CrID b \<noteq> [])"

lemma validateBid_None: "validateBid nb = None \<longleftrightarrow> valid_bid nb"
  by (simp add: validateBid_def valid_bid_def Let_def split: option.splits)

definition currency_allowed :: "(string \<Rightarrow> go_error + string) \<Rightarrow> string list \<Rightarrow> string \<Rightarrow> bool" where
  "currency_allowed parseISO allowed c =
     (\<exists>u. parseISO (if c = [] then ''USD'' else c) = Inr u \<and> u \<in> to_upper ` set (if allowed = [] then [''USD''] else allowed))"

lemma validateCurrency_None: "validateCurrency parseISO allowed c = None \<longleftrightarrow> currency_allowed parseISO allowed c"
proof -
  let ?c = "if c = [] then ''USD'' else c" and ?a = "if allowed = [] then [''USD''] else allowed"
  have "list_ex (\<lambda>c. to_upper c = u) ?a \<longleftrightarrow> u \<in> to_upper ` set ?a" for u by (auto simp: list_ex_iff)
  then show ?thesis
    unfolding validateCurrency_def currency_allowed_def Let_def by (cases "parseISO ?c") (simp_all del: if_image_distrib)
qed

text \<open>The first fault of a bid.\<close>

definition bid_fault :: "newBid \<Rightarrow> string" where
  "bid_fault nb = (case nb_bid nb of
     None \<Rightarrow> ''Empty bid object submitted.''
   | Some b \<Rightarrow>
       if bid_ID b = [] then ''Bid missing required field '' @ [CHR 39] @ ''id'' @ [CHR 39]
       else ''Bid '' @ [CHR 34] @ bid_ID b @ [CHR 34] @
         (if bid_ImpID b = [] then '' missing required field '' @ [CHR 39] @ ''impid'' @ [CHR 39]
          else if fle (bid_Price b) (Fin 0) then '' does not contain a positive '' @ [CHR 39] @ ''price'' @ [CHR 39]
          else '' missing creative ID''))"

lemma validateBid_fault: "validateBid nb = (if valid_bid nb then None else Some (OtherError (bid_fault nb)))"
  by (auto simp: validateBid_def valid_bid_def bid_fault_def Let_def split: option.splits)

lemma validateCurrency_fault:
  assumes "\<not> currency_allowed parseISO allowed c"
  shows "validateCurrency parseISO allowed c = Some (case parseISO (if c = [] then ''USD'' else c) of
    Inl e \<Rightarrow> e
  | Inr u \<Rightarrow> OtherError (''Bid currency is not allowed. Was '' @ [CHR 39] @ u @ [CHR 39] @ '', wants: ['' @
      [CHR 39] @ join ([CHR 39] @ '', '' @ [CHR 39]) (if allowed = [] then [''USD''] else allowed) @ [CHR 39] @ '']''))"
proof -
  from assms have "validateCurrency parseISO allowed c \<noteq> None" by (simp add: validateCurrency_None)
  then show ?thesis unfolding validateCurrency_def Let_def by (cases "parseISO (if c = [] then ''USD'' else c)") (auto split: if_splits)
qed

text \<open>
  C13. A publisher can trust the bids. In a seat that comes out of the validation every bid has an id, an impression id, a creative id and a
  price that is not zero or below, and the currency of a seat with bids is one the request allows. If the currency of the bidder's seat is allowed, the seat keeps
  exactly the valid bids, and every other bid gives, in order, the error of its first fault. Otherwise it keeps no bid and there is one error that tells the currency.
  Everything else of the seat is unchanged.
\<close>

theorem validated_bids:
  assumes "validated_requestBid parseISO env http arrival gpc request = Some (Some s, errs, request')"
  shows "\<exists>s0 errs0. requestBid env http arrival gpc request = Some (Some s0, errs0, request') \<and>
    list_all valid_bid (ns_bids s) \<and>
    (ns_bids s \<noteq> [] \<longrightarrow> currency_allowed parseISO (req_Cur request') (ns_currency s)) \<and>
    (if ns_bids s0 = [] \<or> currency_allowed parseISO (req_Cur request') (ns_currency s0)
     then s = s0\<lparr>ns_bids := filter valid_bid (ns_bids s0)\<rparr> \<and>
       errs = errs0 @ map (\<lambda>b. OtherError (bid_fault b)) (filter (\<lambda>b. \<not> valid_bid b) (ns_bids s0))
     else s = s0\<lparr>ns_bids := []\<rparr> \<and>
       errs = errs0 @ [case parseISO (if ns_currency s0 = [] then ''USD'' else ns_currency s0) of
         Inl e \<Rightarrow> e
       | Inr u \<Rightarrow> OtherError (''Bid currency is not allowed. Was '' @ [CHR 39] @ u @ [CHR 39] @ '', wants: ['' @
           [CHR 39] @ join ([CHR 39] @ '', '' @ [CHR 39]) (if req_Cur request' = [] then [''USD''] else req_Cur request') @ [CHR 39] @ '']'')])"
proof -
  from assms obtain seat errs0 errs1 where r0: "requestBid env http arrival gpc request = Some (seat, errs0, request')"
    and rm0: "removeInvalidBids parseISO request' seat = (Some s, errs1)" and e: "errs = errs0 @ errs1"
    by (auto simp: validated_requestBid_def split: option.splits prod.splits)
  from rm0 obtain s0 where s0: "seat = Some s0" by (cases seat) (auto simp: removeInvalidBids_def)
  note r = r0 [unfolded s0] and rm = rm0 [unfolded s0]
  have ok: "(\<lambda>b. validateBid b = None) = valid_bid" by (rule ext) (rule validateBid_None)
  have mf: "List.map_filter validateBid bs = map (\<lambda>b. OtherError (bid_fault b)) (filter (\<lambda>b. \<not> valid_bid b) bs)" for bs
    by (induction bs) (auto simp: map_filter_simps validateBid_fault)
  show ?thesis
  proof (cases "ns_bids s0 = [] \<or> currency_allowed parseISO (req_Cur request') (ns_currency s0)")
    case True
    with rm have "s = s0\<lparr>ns_bids := filter valid_bid (ns_bids s0)\<rparr>"
      "errs1 = map (\<lambda>b. OtherError (bid_fault b)) (filter (\<lambda>b. \<not> valid_bid b) (ns_bids s0))"
      by (auto simp: removeInvalidBids_def validateCurrency_None [symmetric] ok mf split: if_splits option.splits)
    with True r e show ?thesis by (intro exI [of _ s0] exI [of _ errs0]) (auto simp: list_all_iff)
  next
    case False
    with rm have "s = s0\<lparr>ns_bids := []\<rparr>" "[the (validateCurrency parseISO (req_Cur request') (ns_currency s0))] = errs1"
      by (auto simp: removeInvalidBids_def validateCurrency_None [symmetric])
    with False r e show ?thesis
      by (intro exI [of _ s0] exI [of _ errs0]) (simp add: validateCurrency_fault)
  qed
qed

definition example_parse_currency :: "string \<Rightarrow> go_error + string" where
  "example_parse_currency c = (if length c = 3 then Inr (to_upper c) else Inl (OtherError ''currency: tag is not well-formed''))"

theorem validated_bids_witness:
  "\<exists>s errs r. validated_requestBid example_parse_currency example_bid_env (\<lambda>_. HttpResponse 200 [] []) (\<lambda>xs. xs) ''1'' example_bid_request
     = Some (Some s, errs, r) \<and> list_all valid_bid (ns_bids s) \<and> length (ns_bids s) = 2"
proof -
  let ?v = "validated_requestBid example_parse_currency example_bid_env (\<lambda>_. HttpResponse 200 [] []) (\<lambda>xs. xs) ''1'' example_bid_request"
  have "map_option (map_option (\<lambda>s. length (ns_bids s)) \<circ> fst) ?v = Some (Some 2)" by code_simp
  then obtain s errs r where v: "?v = Some (Some s, errs, r)" and l: "length (ns_bids s) = 2" by auto
  from validated_bids [OF v] v l show ?thesis by auto
qed

text \<open>
  Debug output is given only where it is allowed and keeps credentials out. HTTP calls are
  recorded only with the debug override header, or when debugging is requested and both the account
  and the bidder allow it; and no recorded call has the authorization header of the request.
\<close>

theorem debug_calls_allowed:
  assumes "requestBid env http arrival gpc request = Some (Some s, errs, request')"
  shows "(ns_httpCalls s \<noteq> [] \<longrightarrow> be_HeaderDebug env \<or> be_DebugContext env \<and> be_AccountDebug env \<and> be_BidderDebug env) \<and>
    list_all (\<lambda>c. lookup (xh_RequestHeaders c) ''Authorization'' = None) (ns_httpCalls s)"
proof -
  define P where "P st = ((ns_httpCalls (bs_Seat st) \<noteq> [] \<longrightarrow>
      be_HeaderDebug env \<or> be_DebugContext env \<and> be_AccountDebug env \<and> be_BidderDebug env) \<and>
    list_all (\<lambda>c. lookup (xh_RequestHeaders c) ''Authorization'' = None) (ns_httpCalls (bs_Seat st)))" for st :: bid_state
  have ext: "lookup (xh_RequestHeaders (makeExt info)) ''Authorization'' = None" for info
    by (auto simp: makeExt_def filterHeader_def Let_def split: option.splits)
  have dbg: "P (debug_step env info st)" if "P st" for info st
    using that by (auto simp: P_def debug_step_def Let_def ext)
  have add: "ns_httpCalls (bs_Seat st') = ns_httpCalls (bs_Seat st)" if "add_response env r st = Some st'" for r st st'
    using that by (auto simp: add_response_def Let_def split: option.splits sum.splits prod.splits if_splits)
  have step: "P st'" if "P st" "response_step env info st = Some st'" for info st st'
  proof (cases "hc_err info")
    case (Some e)
    with that dbg [of st info] show ?thesis by (auto simp: response_step_def Let_def P_def)
  next
    case None
    with that(2) obtain resp r more where resp: "hc_response info = Some resp"
      and mb: "makeBids (be_Bidder env) (bs_Request (debug_step env info st)) (hc_request info) resp = (r, more)"
      by (cases "hc_response info") (auto simp: response_step_def Let_def split: prod.splits)
    let ?s = "(debug_step env info st)\<lparr>bs_Errors := bs_Errors (debug_step env info st) @ more\<rparr>"
    have "P ?s" using dbg [OF that(1), of info] by (simp add: P_def)
    moreover have "ns_httpCalls (bs_Seat st') = ns_httpCalls (bs_Seat ?s)"
      using that(2) None resp mb add [of _ ?s st'] by (auto simp: response_step_def Let_def split: option.splits)
    ultimately show ?thesis by (simp add: P_def)
  qed
  from assms obtain reqs errs0 r0 st where
    run: "fold_opt (response_step env) (arrival (map (doRequest http \<circ> add_gpc gpc) reqs))
        \<lparr>bs_Request = r0, bs_Seat = \<lparr>ns_bids = [], ns_currency = ''USD'', ns_httpCalls = []\<rparr>, bs_Errors = errs0\<rparr> = Some st"
    and s: "s = bs_Seat st"
    by (auto simp: requestBid_def split: prod.splits if_splits)
  have "P st" by (rule fold_opt_invariant [OF run]) (use step in \<open>auto simp: P_def\<close>)
  then show ?thesis by (simp add: P_def s)
qed

theorem debug_calls_allowed_witness:
  "\<exists>s errs r. example_requestBid rev = Some (Some s, errs, r) \<and> length (ns_httpCalls s) = 2 \<and>
     list_all (\<lambda>c. lookup (xh_RequestHeaders c) ''Authorization'' = None) (ns_httpCalls s)"
proof -
  have "map_option (map_option (\<lambda>s. length (ns_httpCalls s)) \<circ> fst) (example_requestBid rev) = Some (Some 2)" by code_simp
  then obtain s errs r where v: "example_requestBid rev = Some (Some s, errs, r)" and l: "length (ns_httpCalls s) = 2" by auto
  from debug_calls_allowed [OF v [unfolded example_requestBid_def]] v l show ?thesis by auto
qed

theorem infoaware_supported_witness:
  "\<exists>imp request' errs. infoaware_request (parseBidderInfo (Some \<lparr>cap_App = None, cap_Site = Some [''banner'']\<rparr>))
       (example_bid_request\<lparr>req_Imp := [imp]\<rparr>) = (True, request', errs) \<and> imp_Video imp \<noteq> None \<and>
     request' = example_bid_request\<lparr>req_Imp := [imp\<lparr>imp_Video := None\<rparr>]\<rparr>"
proof -
  let ?imp = "\<lparr>imp_ID = ''1'', imp_Banner = Some \<lparr>ban_Format = [], ban_W = None, ban_H = None, ban_WMin = 0,
          ban_WMax = 0, ban_HMin = 0, ban_HMax = 0, ban_other = JNull\<rparr>, imp_Video = Some \<lparr>vid_MIMEs = [], vid_W = 0, vid_H = 0, vid_MinBitRate = 0, vid_MaxBitRate = 0, vid_other = JNull\<rparr>,
          imp_Audio = None, imp_Native = None, imp_Instl = 0, imp_Exp = 0, imp_Ext = RawEmpty, imp_TagID = [], imp_Metric = [], imp_PMP = None, imp_Secure = None, imp_other = JNull\<rparr>"
  let ?c = "Some \<lparr>cap_App = None, cap_Site = Some [''banner'']\<rparr>" and ?q = "example_bid_request\<lparr>req_Imp := [?imp]\<rparr>"
  obtain called request' errs where r: "infoaware_request (parseBidderInfo ?c) ?q = (called, request', errs)" by (metis prod_cases3)
  have "platform_types ?c ?q = Some [''banner'']" by code_simp
  with infoaware_supported [OF r] have "called" "request' = example_bid_request\<lparr>req_Imp := [?imp\<lparr>imp_Video := None\<rparr>]\<rparr>"
    by (simp_all add: with_types_def hasAnyTypes_def)
  with r show ?thesis by (intro exI [of _ ?imp] exI [of _ request'] exI [of _ errs]) simp
qed

end
