(* ===== verification/Exchange.thy ===== *)
theory Exchange
  imports Response Category_Mapping Request_Cleaning Bidder_Adapter Bidders "HOL-Library.Monad_Syntax" "HOL-Library.Sublist"
begin

text \<open>
  The exchange (\<open>exchange/exchange.go\<close>): it asks the bidders, collects their bids and runs the auction over them by
  calling the components in turn. A panic in the goroutine of a bidder is caught; a panic in the goroutine of the
  request ends the auction and is None here. The order in which the bidders answer, the order in which Go visits a
  map of seats, random numbers, the answers over HTTP and the duration of a call are parameters.
\<close>

section \<open>The adapters\<close>

text \<open>
  \<open>BuildAdapters\<close> (\<open>exchange/adapter_util.go\<close>). A builder makes the adapter of a bidder from its configuration, of
  type \<open>'c\<close>; the adapters are wrapped so that they see only what they support. \<open>ds_Debug\<close> is the debug section of
  the bidder info.
\<close>

record bidder_description =
  ds_Enabled :: bool
  ds_Capabilities :: "CapabilitiesInfo option"
  ds_Debug :: "bool option"

definition build_error :: "string \<Rightarrow> string \<Rightarrow> go_error" where
  "build_error bidder what = OtherError (bidder @ '': '' @ what)"

definition build_step ::
  "(string, bidder_description) gomap \<Rightarrow> (bidderName, 'c \<Rightarrow> go_error + Bidder) gomap \<Rightarrow> string \<times> 'c
     \<Rightarrow> (bidderName, Bidder) gomap \<times> go_error list \<Rightarrow> (bidderName, Bidder) gomap \<times> go_error list" where
  "build_step infos builders e acc = (case e of (bidder, settings) \<Rightarrow>
     (case NormalizeBidderName bidder of
        None \<Rightarrow> (fst acc, snd acc @ [build_error bidder ''unknown bidder''])
      | Some name \<Rightarrow> (case lookup infos name of
          None \<Rightarrow> (fst acc, snd acc @ [build_error bidder ''bidder info not found''])
        | Some info \<Rightarrow> (case lookup builders name of
            None \<Rightarrow> (fst acc, snd acc @ [build_error bidder ''builder not registered''])
          | Some builder \<Rightarrow>
              if ds_Enabled info
              then (case builder settings of
                 Inl err \<Rightarrow> (fst acc, snd acc @ [build_error bidder (Error err)])
               | Inr b \<Rightarrow> (put name (BuildInfoAwareBidder (parseBidderInfo (ds_Capabilities info)) b) (fst acc), snd acc))
              else acc))))"

definition buildBidders ::
  "(string, 'c) gomap \<Rightarrow> (string, bidder_description) gomap \<Rightarrow> (bidderName, 'c \<Rightarrow> go_error + Bidder) gomap \<Rightarrow> (bidderName, Bidder) gomap \<times> go_error list" where
  "buildBidders adapterConfig infos builders = fold (build_step infos builders) adapterConfig ([], [])"

definition parseDebugInfo :: "bool option \<Rightarrow> bool" where
  "parseDebugInfo info = (case info of None \<Rightarrow> True | Some allow \<Rightarrow> allow)"

text \<open>The adapters with whether they may be debugged, or the errors.\<close>

definition BuildAdapters ::
  "(string, 'c) gomap \<Rightarrow> (string, bidder_description) gomap \<Rightarrow> (bidderName, 'c \<Rightarrow> go_error + Bidder) gomap
     \<Rightarrow> go_error list + (bidderName, Bidder \<times> bool) gomap" where
  "BuildAdapters adapterConfig infos builders = (case buildBidders adapterConfig infos builders of (bidders, errs) \<Rightarrow>
     if errs \<noteq> [] then Inl errs
     else Inr (map (\<lambda>(name, b). (name, b, case lookup infos name of Some info \<Rightarrow> parseDebugInfo (ds_Debug info) | None \<Rightarrow> True)) bidders))"

definition GetActiveBidders :: "(string, bidder_description) gomap \<Rightarrow> (string, bidderName) gomap" where
  "GetActiveBidders infos = map (\<lambda>(name, info). (name, name)) (filter (\<lambda>(name, info). ds_Enabled info) infos)"

definition disabled_message :: "string \<Rightarrow> string" where
  "disabled_message name = ''Bidder '' @ quote @ name @ quote @
     '' has been disabled on this instance of Prebid Server. Please work with the PBS host to enable this bidder again.''"

definition GetDisabledBiddersErrorMessages :: "(string, bidder_description) gomap \<Rightarrow> (string, string) gomap" where
  "GetDisabledBiddersErrorMessages infos =
     fold (\<lambda>(name, info) m. if ds_Enabled info then m else put name (disabled_message name) m) infos
       [(''lifestreet'', ''Bidder '' @ quote @ ''lifestreet'' @ quote @ '' is no longer available in Prebid Server. Please update your configuration.'')]"

section \<open>Asking the bidders\<close>

text \<open>
  \<open>xa_http\<close> and \<open>xa_arrival\<close> are the HTTP calls of the adapter up to a deadline and the order in which its answers
  arrive; \<open>xa_millis\<close> is how long the adapter takes.
\<close>

record exchange_adapter =
  xa_Bidder :: Bidder
  xa_DebugAllow :: bool
  xa_http :: "int option \<Rightarrow> RequestData \<Rightarrow> http_result"
  xa_arrival :: "httpCallInfo list \<Rightarrow> httpCallInfo list"
  xa_millis :: int

record bidResponseWrapper =
  bw_adapterBids :: "newSeat option"
  bw_adapterExtra :: seatResponseExtra
  bw_bidder :: bidderName

definition bidsToMetric :: "newSeat option \<Rightarrow> AdapterBid" where
  "bidsToMetric bids = (case bids of
     None \<Rightarrow> AdapterBidNone | Some s \<Rightarrow> if ns_bids s = [] then AdapterBidNone else AdapterBidPresent)"

text \<open>What does not depend on the bidder: conversions, adjustments and the flags of debugging.\<close>

record ask_env =
  ak_adapters :: "(bidderName, exchange_adapter) gomap"
  ak_native :: native_codec
  ak_parseISO :: iso_parser
  ak_conversions :: Conversions
  ak_adjustments :: "(string, float64) gomap"
  ak_accountDebug :: bool
  ak_debugContext :: bool
  ak_gpc :: string
  ak_headerDebug :: bool
  ak_deadline :: "int option"

definition adjustment_of :: "ask_env \<Rightarrow> bidderName \<Rightarrow> float64" where
  "adjustment_of k name = (case lookup (ak_adjustments k) name of Some f \<Rightarrow> f | None \<Rightarrow> Fin 1)"

definition adapter_env :: "ask_env \<Rightarrow> exchange_adapter \<Rightarrow> bidderName \<Rightarrow> bid_env" where
  "adapter_env k xa name = \<lparr>be_Bidder = xa_Bidder xa, be_GetRate = GetRate (ak_parseISO k) (ak_conversions k), be_Adjustment = adjustment_of k name,
     be_Native = ak_native k, be_HeaderDebug = ak_headerDebug k, be_DebugContext = ak_debugContext k, be_AccountDebug = ak_accountDebug k,
     be_BidderDebug = xa_DebugAllow xa\<rparr>"

text \<open>The goroutine of a bidder; None when it panics. A bidder without adapter is a call of a nil interface.\<close>

definition runBidder :: "ask_env \<Rightarrow> BidderRequest \<Rightarrow> bidResponseWrapper option" where
  "runBidder k br = (case lookup (ak_adapters k) (br_BidderCoreName br) of
     None \<Rightarrow> None
   | Some xa \<Rightarrow>
       (case validated_requestBid (ak_parseISO k) (adapter_env k xa (br_BidderName br)) (xa_http xa (ak_deadline k)) (xa_arrival xa) (ak_gpc k) (br_BidRequest br) of
          None \<Rightarrow> None
        | Some (bids, errs, request') \<Rightarrow>
            if list_ex (\<lambda>b. nb_bid b = None) (case bids of None \<Rightarrow> [] | Some s \<Rightarrow> ns_bids s) then None
            else Some \<lparr>bw_adapterBids = bids,
              bw_adapterExtra = \<lparr>se_ResponseTimeMillis = xa_millis xa, se_Errors = errsToBidderErrors errs, se_Warnings = errsToBidderWarnings errs,
                se_HttpCalls = (case bids of None \<Rightarrow> [] | Some s \<Rightarrow> ns_httpCalls s)\<rparr>,
              bw_bidder = br_BidderName br\<rparr>))"

text \<open>The wrapper that stands for a panic names no bidder.\<close>

definition noData :: bidResponseWrapper where
  "noData = \<lparr>bw_adapterBids = None, bw_adapterExtra = \<lparr>se_ResponseTimeMillis = 0, se_Errors = [], se_Warnings = [], se_HttpCalls = []\<rparr>, bw_bidder = []\<rparr>"

definition recoverSafely :: "(BidderRequest \<Rightarrow> bidResponseWrapper option) \<Rightarrow> BidderRequest \<Rightarrow> bidResponseWrapper" where
  "recoverSafely inner br = (case inner br of None \<Rightarrow> noData | Some w \<Rightarrow> w)"

text \<open>The bids of a seat become objects of the store, at the addresses from \<open>n\<close> on.\<close>

definition new_pbs :: "ptr \<Rightarrow> newBid \<Rightarrow> pbsOrtbBid" where
  "new_pbs q nb = \<lparr>pb_bid = (if nb_bid nb = None then None else Some q), pb_bidType = nb_bidType nb, pb_bidTargets = [], pb_bidVideo = nb_bidVideo nb,
     pb_bidEvents = None, pb_dealPriority = nb_dealPriority nb, pb_dealTierSatisfied = False, pb_generatedBidID = []\<rparr>"

fun alloc_bids :: "newBid list \<Rightarrow> store \<times> ptr \<Rightarrow> store \<times> ptr" where
  "alloc_bids [] s = s"
| "alloc_bids (nb # nbs) (H, n) = alloc_bids nbs (\<lparr>st_pbs = (st_pbs H)(n \<mapsto> new_pbs n nb), st_bid = (st_bid H)(n := nb_bid nb)\<rparr>, Suc n)"

record all_bids_state =
  gb_bids :: seats
  gb_extra :: extras
  gb_found :: bool
  gb_store :: store
  gb_next :: ptr

definition collect_step :: "bidResponseWrapper \<Rightarrow> all_bids_state \<Rightarrow> all_bids_state" where
  "collect_step w st =
     (let st1 = (case bw_adapterBids w of
            None \<Rightarrow> st
          | Some s \<Rightarrow>
              if ns_bids s = [] then st
              else (case alloc_bids (ns_bids s) (gb_store st, gb_next st) of (H, n) \<Rightarrow>
                st\<lparr>gb_bids := put (bw_bidder w) (Some \<lparr>sb_bids = [gb_next st..<gb_next st + length (ns_bids s)], sb_currency = ns_currency s,
                     sb_httpCalls = ns_httpCalls s\<rparr>) (gb_bids st), gb_store := H, gb_next := n\<rparr>));
          st2 = st1\<lparr>gb_extra := put (bw_bidder w) (bw_adapterExtra w) (gb_extra st1)\<rparr>
      in if \<not> gb_found st2 \<and> seat_bids (Option.bind (lookup (gb_bids st2) (bw_bidder w)) (\<lambda>s. s)) \<noteq> [] then st2\<lparr>gb_found := True\<rparr> else st2)"

definition emptyStore :: store where
  "emptyStore = \<lparr>st_pbs = (\<lambda>_. None), st_bid = (\<lambda>_. None)\<rparr>"

definition getAllBids :: "ask_env \<Rightarrow> (bidResponseWrapper list \<Rightarrow> bidResponseWrapper list) \<Rightarrow> BidderRequest list \<Rightarrow> all_bids_state" where
  "getAllBids k arrival brs = fold collect_step (arrival (map (recoverSafely (runBidder k)) brs))
     \<lparr>gb_bids = [], gb_extra = [], gb_found = False, gb_store = emptyStore, gb_next = 0\<rparr>"

text \<open>\<open>perm\<close> is the random permutation of the indices.\<close>

definition randomizeList :: "nat list \<Rightarrow> 'a list \<Rightarrow> 'a list" where
  "randomizeList perm list = fold (\<lambda>i xs. xs[i := xs ! (perm ! i), perm ! i := xs ! i]) [0..<length list] list"

definition listBiddersWithRequests :: "nat list \<Rightarrow> BidderRequest list \<Rightarrow> bidderName list" where
  "listBiddersWithRequests perm brs = randomizeList perm (map br_BidderName brs)"

definition makeAuctionContext :: "int \<Rightarrow> int option \<Rightarrow> bool \<Rightarrow> int option" where
  "makeAuctionContext cacheTime deadline needsCache = (if needsCache then map_option (\<lambda>d. d - cacheTime) deadline else deadline)"

section \<open>The auction\<close>

text \<open>
  What the exchange calls, and the parameters: \<open>xc_iter i\<close> is the order of the i-th loop over the seats, \<open>xc_newID\<close> the
  generated ids with whether there was an error, \<open>xc_marshalExt\<close> the text of an extension for the debug log.
\<close>

record exchange =
  xc_adapters :: "(bidderName, exchange_adapter) gomap"
  xc_native :: native_codec
  xc_parseISO :: iso_parser
  xc_rates :: RateConverter
  xc_gdpr :: Permissions
  xc_gdprDefault :: Signal
  xc_privacy :: PrivacyConfig
  xc_cache :: cache_env
  xc_cacheTime :: int
  xc_response :: response_env
  xc_generateIDs :: bool
  xc_bidderInfo :: "(string, BidderInfo) gomap"
  xc_externalURL :: string
  xc_fetchCategory :: "string \<Rightarrow> string \<Rightarrow> string \<Rightarrow> go_error + string"
  xc_marshalExt :: "ExtBidResponse \<Rightarrow> go_error + string"
  xc_getAliases :: get_aliases
  xc_parseConsent :: parse_string

record chance =
  ch_bidders :: "(bidderName, Imp list) gomap \<Rightarrow> (bidderName, Imp list) gomap"
  ch_perm :: "nat \<Rightarrow> nat list"
  ch_arrival :: "bidResponseWrapper list \<Rightarrow> bidResponseWrapper list"
  ch_iter :: "nat \<Rightarrow> seats \<Rightarrow> seats"
  ch_coin :: "nat \<Rightarrow> bool"
  ch_newID :: "nat \<Rightarrow> string \<times> bool"

record auction_call =
  rc_Request :: AuctionRequest
  rc_Start :: "int option"
  rc_Warnings :: "go_error list"
  rc_GPC :: string
  rc_Deadline :: "int option"

text \<open>\<open>time.Time{}.UnixNano() / 1e6\<close>, for an auction without a start time.\<close>

definition zeroTimeMs :: int where
  "zeroTimeMs = -6795364578871"

definition getEventTracking :: "ExtRequestPrebid \<Rightarrow> int option \<Rightarrow> Account \<Rightarrow> (string, BidderInfo) gomap \<Rightarrow> string \<Rightarrow> eventTracking" where
  "getEventTracking prebid ts account infos url = \<lparr>ev_accountID = acc_ID account, ev_enabledForAccount = acc_EventsEnabled account,
     ev_enabledForRequest = (xp_Events prebid \<noteq> RawEmpty), ev_auctionTimestampMs = (case ts of Some t \<Rightarrow> t | None \<Rightarrow> zeroTimeMs),
     ev_bidderInfos = infos, ev_externalURL = url\<rparr>"

text \<open>The generated ids: the seats are not nil, the objects exist.\<close>

definition id_step :: "(nat \<Rightarrow> string \<times> bool) \<Rightarrow> ptr \<Rightarrow> store \<times> nat \<times> go_error list \<Rightarrow> (store \<times> nat \<times> go_error list) option" where
  "id_step newID p s = (case s of (H, n, errs) \<Rightarrow> (case st_pbs H p of
     None \<Rightarrow> None
   | Some pb \<Rightarrow> Some (H\<lparr>st_pbs := (st_pbs H)(p \<mapsto> pb\<lparr>pb_generatedBidID := fst (newID n)\<rparr>)\<rparr>, Suc n,
       if snd (newID n) then errs @ [OtherError ''Error generating bid.ext.prebid.bidid''] else errs)))"

definition generateIDs :: "(nat \<Rightarrow> string \<times> bool) \<Rightarrow> seats \<Rightarrow> store \<Rightarrow> (store \<times> go_error list) option" where
  "generateIDs newID seats H = map_option (\<lambda>(H', n, errs). (H', errs)) (fold_opt (\<lambda>(b, s) acc. (case s of
     None \<Rightarrow> None | Some sb \<Rightarrow> fold_opt (id_step newID) (sb_bids sb) acc)) seats (H, 0, []))"

text \<open>Reporting a nil error calls a method of it.\<close>

definition ext_response :: "extras \<Rightarrow> BidRequest \<Rightarrow> int option \<Rightarrow> bool \<Rightarrow> go_error option list \<Rightarrow> ExtBidResponse option" where
  "ext_response extra req start debugInfo errs =
     (if extra \<noteq> [] \<and> None \<in> set errs then None
      else Some (makeExtBidResponse extra req start debugInfo (List.map_filter (\<lambda>e. e) errs)))"

definition log_response :: "exchange \<Rightarrow> ExtBidResponse \<Rightarrow> DebugLog \<times> go_error option list \<Rightarrow> DebugLog \<times> go_error option list" where
  "log_response x r s = (case s of (dl, errs) \<Rightarrow>
     if dl_DebugEnabledOrOverridden dl
     then (case xc_marshalExt x r of
        Inr t \<Rightarrow> (dl\<lparr>dl_Response := t\<rparr>, errs)
      | Inl e \<Rightarrow> (dl\<lparr>dl_Response := ''Unable to marshal response ext for debugging''\<rparr>, errs @ [Some e]))
     else (dl, errs))"

definition noDebugLog :: DebugLog where
  "noDebugLog = \<lparr>dl_Enabled = False, dl_CacheType = [], dl_Request = [], dl_Headers = [], dl_Response = [], dl_TTL = 0, dl_CacheKey = [],
     dl_CacheString = [], dl_DebugOverride = False, dl_DebugEnabledOrOverridden = False\<rparr>"

text \<open>The state that the steps after the bids have come in hand on.\<close>

record auction_state =
  as_seats :: seats
  as_store :: store
  as_category :: "(string, string) gomap"
  as_errs :: "go_error option list"
  as_log :: DebugLog
  as_auction :: "auction option"

text \<open>Competitive exclusion, when it is asked for.\<close>

definition exclusion_stage :: "exchange \<Rightarrow> chance \<Rightarrow> ExtRequestPrebid \<Rightarrow> targetData option \<Rightarrow> auction_state \<Rightarrow> (go_error + auction_state) option" where
  "exclusion_stage x ch prebid targData st =
     (case Option.bind (xp_Targeting prebid) (\<lambda>t. map_option (Pair t) (tg_IncludeBrandCategory t)) of
        None \<Rightarrow> Some (Inr st)
      | Some (t, brand) \<Rightarrow> (case targData of
          None \<Rightarrow> None
        | Some td \<Rightarrow>
            (case applyCategoryMapping (xc_fetchCategory x) (ch_coin ch) brand t (priceGranularity td) (as_store st) (ch_iter ch 0 (as_seats st)) of
               None \<Rightarrow> None
             | Some (category, seats, rejections, None) \<Rightarrow>
                 Some (Inr (st\<lparr>as_category := category, as_seats := seats, as_errs := as_errs st @ map (Some \<circ> OtherError) rejections\<rparr>))
             | Some (category, seats, rejections, Some e) \<Rightarrow> Some (Inl (OtherError (''Error in category mapping : '' @ Error e))))))"

definition id_stage :: "exchange \<Rightarrow> chance \<Rightarrow> auction_state \<Rightarrow> auction_state option" where
  "id_stage x ch st =
     (if xc_generateIDs x
      then map_option (\<lambda>(H, errs). st\<lparr>as_store := H, as_errs := as_errs st @ map Some errs\<rparr>) (generateIDs (ch_newID ch) (ch_iter ch 1 (as_seats st)) (as_store st))
      else Some st)"

definition event_stage :: "eventTracking \<Rightarrow> chance \<Rightarrow> auction_state \<Rightarrow> auction_state option" where
  "event_stage ev ch st = map_option (\<lambda>H. st\<lparr>as_store := H\<rparr>) (modifyBidsForEvents ev (ch_iter ch 2 (as_seats st)) (as_store st))"

definition deal_stage :: "ExtRequestPrebid \<Rightarrow> BidRequest \<Rightarrow> auction \<Rightarrow> auction_state \<Rightarrow> auction_state option" where
  "deal_stage prebid req auc st =
     (if xp_SupportDeals prebid
      then map_option (\<lambda>((H, category), errs). st\<lparr>as_store := H, as_category := category, as_errs := as_errs st @ map Some errs\<rparr>)
             (applyDealSupport req auc (as_store st, as_category st))
      else Some st)"

text \<open>The winners, their prices and deals, the cache and the targeting, when targeting is asked for.\<close>

definition targeting_stage ::
  "exchange \<Rightarrow> chance \<Rightarrow> ExtRequestPrebid \<Rightarrow> eventTracking \<Rightarrow> BidRequest \<Rightarrow> Account \<Rightarrow> int option \<Rightarrow> bool \<Rightarrow> extras \<Rightarrow> targetData option
     \<Rightarrow> auction_state \<Rightarrow> auction_state option" where
  "targeting_stage x ch prebid ev req account start debugInfo extra targData st = (case targData of
     None \<Rightarrow> Some st
   | Some td \<Rightarrow>
       do {
         auc0 \<leftarrow> newAuction (as_store st) (ch_iter ch 3 (as_seats st)) (preferDeals td);
         auc1 \<leftarrow> setRoundedPrices (as_store st) (priceGranularity td) auc0;
         st1 \<leftarrow> deal_stage prebid req auc1 st;
         r \<leftarrow> ext_response extra req start debugInfo (as_errs st1);
         let (dl, errs) = log_response x r (as_log st1, as_errs st1);
         (auc2, dl', cacheErrs) \<leftarrow> doCache (xc_cache x) (as_store st1) td ev req 60 (acc_CacheTTL account) (as_category st1) (Some dl) auc1;
         H \<leftarrow> setTargeting td auc2 (req_App req \<noteq> None) (as_category st1) (as_store st1);
         Some (st1\<lparr>as_store := H, as_errs := errs @ map Some cacheErrs, as_log := (case dl' of Some d \<Rightarrow> d | None \<Rightarrow> dl), as_auction := Some auc2\<rparr>)
       })"

text \<open>The general warnings of the response.\<close>

definition add_warning :: "ExtBidderMessage \<Rightarrow> ExtBidResponse \<Rightarrow> ExtBidResponse" where
  "add_warning m r = r\<lparr>rx_Warnings := put ''general'' ((case lookup (rx_Warnings r) ''general'' of Some ws \<Rightarrow> ws | None \<Rightarrow> []) @ [m]) (rx_Warnings r)\<rparr>"

definition final_warnings :: "bool \<Rightarrow> go_error list \<Rightarrow> ExtBidResponse \<Rightarrow> ExtBidResponse" where
  "final_warnings debugRefused warnings r =
     fold add_warning (map (\<lambda>w. \<lparr>Code = ReadCode w, Message = Error w\<rparr>) warnings)
       (if debugRefused then add_warning \<lparr>Code = AccountLevelDebugDisabledWarningCode, Message = ''debug turned off for account''\<rparr> r else r)"

text \<open>After the bids: an error, or the response with the error of its extension; and the debug log.\<close>

definition run_auction ::
  "exchange \<Rightarrow> chance \<Rightarrow> ExtRequestPrebid \<Rightarrow> eventTracking \<Rightarrow> BidRequest \<Rightarrow> Account \<Rightarrow> int option \<Rightarrow> bool \<Rightarrow> targetData option \<Rightarrow> all_bids_state
     \<Rightarrow> go_error option list \<Rightarrow> DebugLog \<Rightarrow> (go_error + auction_state \<times> ExtBidResponse) option" where
  "run_auction x ch prebid ev req account start debugInfo targData all errs dl =
     (let st = \<lparr>as_seats = gb_bids all, as_store = gb_store all, as_category = [], as_errs = errs, as_log = dl, as_auction = None\<rparr>
      in if gb_found all
         then (case exclusion_stage x ch prebid targData st of
            None \<Rightarrow> None
          | Some (Inl e) \<Rightarrow> Some (Inl e)
          | Some (Inr st1) \<Rightarrow>
              do {
                st2 \<leftarrow> id_stage x ch st1;
                st3 \<leftarrow> event_stage ev ch st2;
                st4 \<leftarrow> targeting_stage x ch prebid ev req account start debugInfo (gb_extra all) targData st3;
                r \<leftarrow> ext_response (gb_extra all) req start debugInfo (as_errs st4);
                Some (Inr (st4, r))
              })
         else do {
           r \<leftarrow> ext_response (gb_extra all) req start debugInfo errs;
           let (dl', errs') = log_response x r (dl, errs);
           Some (Inr (st\<lparr>as_log := dl', as_errs := errs'\<rparr>, r))
         })"

definition target_data :: "exchange \<Rightarrow> ExtRequestPrebid option \<Rightarrow> targetData option" where
  "target_data x requestExt = map_option (\<lambda>t. t\<lparr>cacheHost := fst (snd (re_cacheData (xc_response x))), cachePath := snd (snd (re_cacheData (xc_response x)))\<rparr>)
     (getExtTargetData requestExt (getExtCacheInstructions requestExt))"

text \<open>The cleaned requests, and what all bidders of the auction are asked with.\<close>

definition cleaned_requests :: "exchange \<Rightarrow> chance \<Rightarrow> AuctionRequest \<Rightarrow> ExtRequestPrebid option \<Rightarrow> clean_result option" where
  "cleaned_requests x ch r requestExt = cleanOpenRTBRequests (xc_getAliases x) (xc_parseConsent x) (ch_bidders ch) r requestExt (xc_gdpr x)
     (parseGDPRDefaultValue (pv_GDPR (xc_privacy x)) (xc_gdprDefault x) (ar_BidRequest r)) (xc_privacy x) (Some (ar_Account r))"

definition auction_asks :: "exchange \<Rightarrow> auction_call \<Rightarrow> ExtRequestPrebid \<Rightarrow> bool \<Rightarrow> bool \<Rightarrow> ask_env" where
  "auction_asks x rc prebid debugInfo headerDebug = \<lparr>ak_adapters = xc_adapters x, ak_native = xc_native x, ak_parseISO = xc_parseISO x,
     ak_conversions = getAuctionCurrencyRates (xc_rates x) (xp_CurrencyConversions prebid),
     ak_adjustments = getExtBidAdjustmentFactors (Some prebid), ak_accountDebug = acc_DebugAllow (ar_Account (rc_Request rc)), ak_debugContext = debugInfo,
     ak_gpc = rc_GPC rc, ak_headerDebug = headerDebug,
     ak_deadline = makeAuctionContext (xc_cacheTime x) (rc_Deadline rc) (ei_cacheBids (getExtCacheInstructions (Some prebid)))\<rparr>"

definition debug_info :: "auction_call \<Rightarrow> ExtRequestPrebid option \<Rightarrow> DebugLog \<Rightarrow> bool" where
  "debug_info rc requestExt dl =
     (dl_DebugEnabledOrOverridden dl \<or> getDebugInfo (ar_BidRequest (rc_Request rc)) requestExt \<and> acc_DebugAllow (ar_Account (rc_Request rc)))"

definition HoldAuction ::
  "exchange \<Rightarrow> chance \<Rightarrow> auction_call \<Rightarrow> DebugLog option \<Rightarrow> (go_error + BidResponse \<times> go_error option \<times> DebugLog) option" where
  "HoldAuction x ch rc debugLog =
     (let r = rc_Request rc; account = ar_Account r
      in case extractBidRequestExt (ar_BidRequest r) of
           Inl e \<Rightarrow> Some (Inl e)
         | Inr requestExt \<Rightarrow>
             (let dl0 = (case debugLog of None \<Rightarrow> noDebugLog | Some d \<Rightarrow> d);
                  debugInfo = debug_info rc requestExt dl0;
                  dl = dl0\<lparr>dl_Enabled := dl_DebugEnabledOrOverridden dl0 \<or> acc_DebugAllow account\<rparr>
              in case cleaned_requests x ch r requestExt of
                   None \<Rightarrow> None
                 | Some cr \<Rightarrow> (case requestExt of
                     None \<Rightarrow> None
                   | Some prebid \<Rightarrow>
                       (let liveAdapters = listBiddersWithRequests (ch_perm ch (length (cr_Requests cr))) (cr_Requests cr);
                            all = getAllBids (auction_asks x rc prebid debugInfo (dl_DebugOverride dl)) (ch_arrival ch) (cr_Requests cr);
                            ev = getEventTracking prebid (rc_Start rc) account (xc_bidderInfo x) (xc_externalURL x)
                        in case run_auction x ch prebid ev (cr_Request cr) account (rc_Start rc) debugInfo (target_data x requestExt) all (cr_Errors cr) dl of
                             None \<Rightarrow> None
                           | Some (Inl e) \<Rightarrow> Some (Inl e)
                           | Some (Inr (st, bidResponseExt)) \<Rightarrow>
                               map_option (\<lambda>(resp, e, extra'). Inr (resp, e, as_log st))
                                 (buildBidResponse (xc_response x) (as_store st) liveAdapters (as_seats st) (cr_Request cr) (gb_extra all) (as_auction st)
                                    (final_warnings (\<not> acc_DebugAllow account \<and> getDebugInfo (ar_BidRequest r) requestExt \<and> \<not> dl_DebugOverride dl) (rc_Warnings rc) bidResponseExt)
                                    (ei_returnCreative (getExtCacheInstructions requestExt)))))))"

section \<open>Properties: collecting the bids\<close>

text \<open>The objects of the bids that a seat gets.\<close>

lemma alloc_bids_fields:
  "snd (alloc_bids nbs (H, n)) = n + length nbs"
  "st_pbs (fst (alloc_bids nbs (H, n))) p = (if n \<le> p \<and> p < n + length nbs then Some (new_pbs p (nbs ! (p - n))) else st_pbs H p)"
  "st_bid (fst (alloc_bids nbs (H, n))) p = (if n \<le> p \<and> p < n + length nbs then nb_bid (nbs ! (p - n)) else st_bid H p)"
proof (induction nbs arbitrary: H n)
  case (Cons nb nbs)
  { case 1 show ?case using Cons.IH(1) by simp }
  { case 2 show ?case using Cons.IH(2) by (cases "p = n") (auto simp: nth_Cons') }
  { case 3 show ?case using Cons.IH(3) by (cases "p = n") (auto simp: nth_Cons') }
qed auto

text \<open>The seat holds exactly the bids \<open>s\<close> of an adapter.\<close>

definition holds_seat :: "store \<Rightarrow> pbsOrtbSeatBid \<Rightarrow> newSeat \<Rightarrow> bool" where
  "holds_seat H sb s = (sb_currency sb = ns_currency s \<and> sb_httpCalls sb = ns_httpCalls s \<and> distinct (sb_bids sb) \<and>
     list_all2 (\<lambda>p nb. st_pbs H p = Some (new_pbs p nb) \<and> st_bid H p = nb_bid nb) (sb_bids sb) (ns_bids s))"

text \<open>What a wrapper adds: its seat, unless it has no bids.\<close>

definition wrapper_seat :: "bidResponseWrapper \<Rightarrow> newSeat option" where
  "wrapper_seat w = (case bw_adapterBids w of None \<Rightarrow> None | Some s \<Rightarrow> if ns_bids s = [] then None else Some s)"

definition collected :: "bidResponseWrapper list \<Rightarrow> all_bids_state \<Rightarrow> bool" where
  "collected ws st =
     ((\<forall>b sb. lookup (gb_bids st) b = Some sb \<longrightarrow>
         (\<exists>w\<in>set ws. \<exists>s t. bw_bidder w = b \<and> wrapper_seat w = Some s \<and> sb = Some t \<and> holds_seat (gb_store st) t s \<and> (\<forall>p\<in>set (sb_bids t). p < gb_next st))) \<and>
      (\<forall>w\<in>set ws. wrapper_seat w \<noteq> None \<longrightarrow> lookup (gb_bids st) (bw_bidder w) \<noteq> None) \<and>
      (\<forall>b. lookup (gb_extra st) b = map_option bw_adapterExtra (find (\<lambda>w. bw_bidder w = b) (rev ws))) \<and>
      wf_map (gb_bids st) \<and> wf_map (gb_extra st) \<and>
      (gb_found st \<longleftrightarrow> (\<exists>w\<in>set ws. wrapper_seat w \<noteq> None)) \<and>
      (\<forall>b b' t t'. lookup (gb_bids st) b = Some (Some t) \<and> lookup (gb_bids st) b' = Some (Some t') \<and> set (sb_bids t) \<inter> set (sb_bids t') \<noteq> {} \<longrightarrow> b = b'))"

lemma collectedD:
  assumes "collected ws st" and "lookup (gb_bids st) b = Some sb"
  obtains w s t where "w \<in> set ws" "bw_bidder w = b" "wrapper_seat w = Some s" "sb = Some t" "holds_seat (gb_store st) t s" "\<forall>p\<in>set (sb_bids t). p < gb_next st"
  using assms unfolding collected_def by blast

lemma collected_none:
  assumes ok: "collected ws st" and none: "wrapper_seat w = None" "lookup (gb_bids st) (bw_bidder w) \<noteq> None \<longrightarrow> gb_found st"
  shows "collected (ws @ [w]) (st\<lparr>gb_extra := put (bw_bidder w) (bw_adapterExtra w) (gb_extra st)\<rparr>)"
  using assms by (auto simp: collected_def)


lemma collected_seat:
  assumes ok: "collected ws st" and s: "wrapper_seat w = Some s"
    and H': "alloc_bids (ns_bids s) (gb_store st, gb_next st) = (H', n')"
  shows "collected (ws @ [w]) (st\<lparr>gb_bids := put (bw_bidder w) (Some \<lparr>sb_bids = [gb_next st..<gb_next st + length (ns_bids s)], sb_currency = ns_currency s,
      sb_httpCalls = ns_httpCalls s\<rparr>) (gb_bids st), gb_store := H', gb_next := n', gb_extra := put (bw_bidder w) (bw_adapterExtra w) (gb_extra st), gb_found := True\<rparr>)"
proof -
  let ?n = "gb_next st" and ?t = "\<lparr>sb_bids = [gb_next st..<gb_next st + length (ns_bids s)], sb_currency = ns_currency s, sb_httpCalls = ns_httpCalls s\<rparr>"
  note f = alloc_bids_fields [of "ns_bids s" "gb_store st" ?n, unfolded H' fst_conv snd_conv]
  have new: "holds_seat H' ?t s" by (auto simp: holds_seat_def list_all2_conv_all_nth f)
  have old: "holds_seat H' t s'" if "holds_seat (gb_store st) t s'" "\<forall>p\<in>set (sb_bids t). p < ?n" for t s'
  proof -
    have "\<not> ?n \<le> sb_bids t ! i" if "i < length (sb_bids t)" for i using \<open>\<forall>p\<in>set (sb_bids t). p < ?n\<close> that by (auto simp: not_le)
    with that(1) show ?thesis by (auto simp: holds_seat_def f list_all2_conv_all_nth)
  qed
  have seats: "\<exists>w'\<in>set (ws @ [w]). \<exists>s t. bw_bidder w' = b \<and> wrapper_seat w' = Some s \<and> sb = Some t \<and> holds_seat H' t s \<and> (\<forall>p\<in>set (sb_bids t). p < n')"
    if "lookup (put (bw_bidder w) (Some ?t) (gb_bids st)) b = Some sb" for b sb
  proof (cases "b = bw_bidder w")
    case True
    with that s new f(1) show ?thesis by (intro bexI [of _ w]) auto
  next
    case False
    with that have "lookup (gb_bids st) b = Some sb" by simp
    from collectedD [OF ok this] old f(1) show ?thesis by (metis Un_iff set_append trans_less_add1)
  qed
  have small: "p < ?n" if "lookup (gb_bids st) b = Some (Some t)" "p \<in> set (sb_bids t)" for b t p
    using ok that unfolding collected_def by (metis option.inject)
  then have apart: "b = b'" if "lookup (put (bw_bidder w) (Some ?t) (gb_bids st)) b = Some (Some u)" "lookup (put (bw_bidder w) (Some ?t) (gb_bids st)) b' = Some (Some u')"
      "set (sb_bids u) \<inter> set (sb_bids u') \<noteq> {}" for b b' u u'
  proof -
    have old: "b = b'" if "lookup (gb_bids st) b = Some (Some u)" "lookup (gb_bids st) b' = Some (Some u')"
      using ok that \<open>set (sb_bids u) \<inter> set (sb_bids u') \<noteq> {}\<close> unfolding collected_def by blast
    from that(3) obtain p where p: "p \<in> set (sb_bids u)" "p \<in> set (sb_bids u')" by blast
    show ?thesis
    proof (cases "b = bw_bidder w"; cases "b' = bw_bidder w")
      assume "b = bw_bidder w" "b' \<noteq> bw_bidder w"
      with that(1,2) p small [of b' u' p] show ?thesis by auto
    next
      assume "b \<noteq> bw_bidder w" "b' = bw_bidder w"
      with that(1,2) p small [of b u p] show ?thesis by auto
    qed (use that(1,2) old in auto)
  qed
  have found: "\<forall>w'\<in>set (ws @ [w]). wrapper_seat w' \<noteq> None \<longrightarrow> lookup (put (bw_bidder w) (Some ?t) (gb_bids st)) (bw_bidder w') \<noteq> None"
    and extra: "\<forall>b. lookup (put (bw_bidder w) (bw_adapterExtra w) (gb_extra st)) b = map_option bw_adapterExtra (find (\<lambda>w. bw_bidder w = b) (rev (ws @ [w])))"
    and wf: "wf_map (gb_bids st)" "wf_map (gb_extra st)" and some: "\<exists>w'\<in>set (ws @ [w]). wrapper_seat w' \<noteq> None"
    using ok s by (simp_all add: collected_def)
  let ?st = "st\<lparr>gb_bids := put (bw_bidder w) (Some ?t) (gb_bids st), gb_store := H', gb_next := n', gb_extra := put (bw_bidder w) (bw_adapterExtra w) (gb_extra st), gb_found := True\<rparr>"
  have fields: "gb_bids ?st = put (bw_bidder w) (Some ?t) (gb_bids st)" "gb_store ?st = H'" "gb_next ?st = n'" "gb_found ?st"
    "gb_extra ?st = put (bw_bidder w) (bw_adapterExtra w) (gb_extra st)" by simp_all
  show ?thesis unfolding collected_def fields
    by (intro conjI allI impI wf_map_put wf found extra [rule_format]) (erule seats, simp add: some [simplified], elim conjE, rule apart, assumption+)
qed

lemma collected_step:
  assumes ok: "collected ws st"
  shows "collected (ws @ [w]) (collect_step w st)"
proof (cases "wrapper_seat w")
  case None
  then have "bw_adapterBids w = None \<or> (\<exists>s. bw_adapterBids w = Some s \<and> ns_bids s = [])" by (auto simp: wrapper_seat_def split: option.splits if_splits)
  moreover have "gb_found st" if "lookup (gb_bids st) (bw_bidder w) \<noteq> None" using ok that by (auto simp: collected_def)
  ultimately have "collect_step w st = st\<lparr>gb_extra := put (bw_bidder w) (bw_adapterExtra w) (gb_extra st)\<rparr>"
    by (cases "lookup (gb_bids st) (bw_bidder w)") (auto simp: collect_step_def Let_def seat_bids_def split: option.splits)
  then show ?thesis using collected_none [OF ok None] ok by (auto simp: collected_def)
next
  case (Some s)
  then have w: "bw_adapterBids w = Some s" "ns_bids s \<noteq> []" by (auto simp: wrapper_seat_def split: option.splits if_splits)
  obtain H' n' where a: "alloc_bids (ns_bids s) (gb_store st, gb_next st) = (H', n')" by (metis prod.exhaust)
  have "collect_step w st = st\<lparr>gb_bids := put (bw_bidder w) (Some \<lparr>sb_bids = [gb_next st..<gb_next st + length (ns_bids s)], sb_currency = ns_currency s,
      sb_httpCalls = ns_httpCalls s\<rparr>) (gb_bids st), gb_store := H', gb_next := n', gb_extra := put (bw_bidder w) (bw_adapterExtra w) (gb_extra st), gb_found := True\<rparr>"
    using w by (cases "gb_found st") (auto simp: collect_step_def Let_def a seat_bids_def)
  with collected_seat [OF ok Some a] show ?thesis by simp
qed

lemma getAllBids_collected:
  "collected (arrival (map (recoverSafely (runBidder k)) brs)) (getAllBids k arrival brs)"
proof -
  have "collected (us @ ws) (fold collect_step ws st)" if "collected us st" for us ws st
    using that
  proof (induction ws arbitrary: us st)
    case (Cons w ws)
    from Cons.IH [OF collected_step [OF Cons.prems, of w]] show ?case by simp
  qed simp
  moreover have "collected [] \<lparr>gb_bids = [], gb_extra = [], gb_found = False, gb_store = emptyStore, gb_next = 0\<rparr>" by (simp add: collected_def)
  ultimately show ?thesis unfolding getAllBids_def by (metis append_Nil)
qed

lemma runBidder_name: "runBidder k br = Some w \<Longrightarrow> bw_bidder w = br_BidderName br"
  by (auto simp: runBidder_def split: option.splits if_splits)

lemma recovered_name: "bw_bidder (recoverSafely (runBidder k) br) = (if runBidder k br = None then [] else br_BidderName br)"
  by (auto simp: recoverSafely_def noData_def runBidder_name split: option.splits)

lemma find_unique:
  assumes "x \<in> set xs" and "P x" and "\<And>y. y \<in> set xs \<Longrightarrow> P y \<Longrightarrow> y = x"
  shows "find P xs = Some x"
proof (cases "find P xs")
  case None
  with assms(1,2) show ?thesis by (simp add: find_None_iff)
next
  case (Some y)
  then have "y \<in> set xs" "P y" by (auto simp: find_Some_iff)
  with assms(3) Some show ?thesis by simp
qed

text \<open>
  C3. The bids of an auction are those of its bidders, whatever the order in which they answer and whether others panic: a bidder
  whose goroutine returns has its errors, warnings and calls recorded, and a seat with exactly its bids when it has any; a
  bidder whose goroutine panics has neither.
\<close>

theorem bids_collected:
  assumes "\<And>ws. mset (arrival ws) = mset ws" and "distinct (map br_BidderName brs)" and "[] \<notin> set (map br_BidderName brs)" and "br \<in> set brs"
  shows "(case runBidder k br of
      None \<Rightarrow> lookup (gb_bids (getAllBids k arrival brs)) (br_BidderName br) = None \<and> lookup (gb_extra (getAllBids k arrival brs)) (br_BidderName br) = None
    | Some w \<Rightarrow> lookup (gb_extra (getAllBids k arrival brs)) (br_BidderName br) = Some (bw_adapterExtra w) \<and>
        (case wrapper_seat w of
           None \<Rightarrow> lookup (gb_bids (getAllBids k arrival brs)) (br_BidderName br) = None
         | Some s \<Rightarrow> \<exists>t. lookup (gb_bids (getAllBids k arrival brs)) (br_BidderName br) = Some (Some t) \<and> holds_seat (gb_store (getAllBids k arrival brs)) t s))"
proof -
  let ?ws = "map (recoverSafely (runBidder k)) brs" and ?b = "br_BidderName br" and ?g = "getAllBids k arrival brs"
  note ok = getAllBids_collected [of arrival k brs]
  have set: "set (arrival ?ws) = set ?ws" using assms(1) [of ?ws] by (metis set_mset_mset)
  have own: "br' = br \<and> runBidder k br \<noteq> None" if "br' \<in> set brs" "bw_bidder (recoverSafely (runBidder k) br') = ?b" for br'
    using that assms(2-4) by (auto simp: recovered_name distinct_map split: if_splits dest: inj_onD)
  have extra: "lookup (gb_extra ?g) ?b = map_option bw_adapterExtra (find (\<lambda>w. bw_bidder w = ?b) (rev (arrival ?ws)))" using ok by (simp add: collected_def)
  show ?thesis
  proof (cases "runBidder k br")
    case None
    then have no: "bw_bidder w \<noteq> ?b" if "w \<in> set (arrival ?ws)" for w using that own unfolding set by auto
    then have "lookup (gb_bids ?g) ?b = None" using ok unfolding collected_def by (metis not_None_eq)
    moreover have "lookup (gb_extra ?g) ?b = None" using extra no by (auto simp: find_None_iff)
    ultimately show ?thesis using None by simp
  next
    case (Some w)
    then have w: "w \<in> set (arrival ?ws)" "bw_bidder w = ?b" using assms(4) runBidder_name [OF Some] by (auto simp: set recoverSafely_def intro!: image_eqI [of _ _ br])
    have one: "w' = w" if "w' \<in> set (arrival ?ws)" "bw_bidder w' = ?b" for w' 
    proof -
      from that(1) obtain br' where "br' \<in> set brs" "w' = recoverSafely (runBidder k) br'" unfolding set by auto
      with own [of br'] that(2) Some show ?thesis by (simp add: recoverSafely_def)
    qed
    have "find (\<lambda>w. bw_bidder w = ?b) (rev (arrival ?ws)) = Some w"
      by (rule find_unique) (use w in simp_all, intro one, simp_all)
    with extra have "lookup (gb_extra ?g) ?b = Some (bw_adapterExtra w)" by simp
    moreover have "case wrapper_seat w of None \<Rightarrow> lookup (gb_bids ?g) ?b = None | Some s \<Rightarrow> \<exists>t. lookup (gb_bids ?g) ?b = Some (Some t) \<and> holds_seat (gb_store ?g) t s"
    proof (cases "lookup (gb_bids ?g) ?b")
      case None
      have "wrapper_seat w = None" using ok w None unfolding collected_def by metis
      with None show ?thesis by simp
    next
      case (Some sb)
      from collectedD [OF ok Some] obtain w' s t where "w' \<in> set (arrival ?ws)" "bw_bidder w' = ?b" "wrapper_seat w' = Some s" "sb = Some t"
        "holds_seat (gb_store ?g) t s" by blast
      with one [of w'] Some show ?thesis by simp
    qed
    ultimately show ?thesis using Some by simp
  qed
qed

section \<open>Properties: where the bids of a response come from\<close>

text \<open>A bid with the same offer: only the markup may differ.\<close>

definition same_offer :: "Bid \<Rightarrow> Bid \<Rightarrow> bool" where
  "same_offer b b0 = (b\<lparr>bid_AdM := bid_AdM b0\<rparr> = b0)"

definition keeps :: "store \<Rightarrow> store \<Rightarrow> bool" where
  "keeps H0 H = (\<forall>p b0. bid_at H0 p = Some b0 \<longrightarrow> (\<exists>b. bid_at H p = Some b \<and> same_offer b b0))"

lemma same_offer_AdM: "same_offer (b\<lparr>bid_AdM := v\<rparr>) b0 = same_offer b b0"
  by (simp add: same_offer_def)

lemma keeps_refl: "bid_at H = bid_at H0 \<Longrightarrow> keeps H0 H"
  by (simp add: keeps_def same_offer_def)

lemma keeps_trans: "keeps H0 H1 \<Longrightarrow> keeps H1 H2 \<Longrightarrow> keeps H0 H2"
  unfolding keeps_def same_offer_def by (metis (no_types, lifting) Bid.surjective Bid.update_convs(5))

lemma bid_at_pbs: "st_pbs H p = Some pb \<Longrightarrow> pb_bid pb' = pb_bid pb \<Longrightarrow> bid_at (H\<lparr>st_pbs := (st_pbs H)(p \<mapsto> pb')\<rparr>) = bid_at H"
  by (rule ext) (auto simp: bid_at_def bid_ptr_def split: option.splits)

lemma keeps_fold:
  assumes "fold_opt f xs s = Some s'" and "\<And>x s s'. f x s = Some s' \<Longrightarrow> keeps (g s) (g s')"
  shows "keeps (g s) (g s')"
  using assms(1)
proof (induction xs arbitrary: s)
  case Nil
  then show ?case by (simp add: keeps_refl)
next
  case (Cons x xs)
  then obtain t where t: "f x s = Some t" "fold_opt f xs t = Some s'" by (auto split: option.splits)
  from keeps_trans [OF assms(2) [OF t(1)] Cons.IH [OF t(2)]] show ?case .
qed

lemma modify_bid_keeps: "modify_bid_for_events ev bidder p H = Some H' \<Longrightarrow> keeps H H'"
proof -
  assume run: "modify_bid_for_events ev bidder p H = Some H'"
  then obtain pb where pb: "st_pbs H p = Some pb" by (auto simp: modify_bid_for_events_def split: option.splits)
  show ?thesis
  proof (cases "bid_at H p")
    case None
    with run pb show ?thesis by (auto simp: modify_bid_for_events_def bid_at_pbs intro!: keeps_refl split: if_splits)
  next
    case (Some b)
    then obtain q where q: "pb_bid pb = Some q" "st_bid H q = Some b" using pb by (auto simp: bid_at_def bid_ptr_def split: option.splits)
    obtain v where v: "(if isModifyingVASTXMLAllowed ev bidder then modifyBidVAST ev pb b bidder else b) = b\<lparr>bid_AdM := v\<rparr>"
      using modifyBidVAST_frame [of ev pb b bidder] by (metis Bid.surjective Bid.update_convs(5))
    have "H' = H\<lparr>st_bid := (st_bid H)(q \<mapsto> b\<lparr>bid_AdM := v\<rparr>), st_pbs := (st_pbs H)(p \<mapsto> pb\<lparr>pb_bidEvents := makeBidExtEvents ev pb (b\<lparr>bid_AdM := v\<rparr>) bidder\<rparr>)\<rparr>"
      using run by (simp add: modify_bid_for_events_def pb Some Let_def v q)
    then have "bid_at H' p' = (if bid_ptr H p' = Some q then Some (b\<lparr>bid_AdM := v\<rparr>) else bid_at H p')" for p'
      using pb q by (auto simp: bid_at_def bid_ptr_def split: option.splits)
    then show ?thesis using q by (auto simp: keeps_def same_offer_AdM bid_at_def) (auto simp: same_offer_def)
  qed
qed

lemma modifyBids_keeps: "modifyBidsForEvents ev seats H = Some H' \<Longrightarrow> keeps H H'"
proof -
  assume run: "modifyBidsForEvents ev seats H = Some H'"
  have "keeps s s'" if "fold_opt (modify_bid_for_events ev bidder) ps s = Some s'" for bidder ps s s'
    by (rule keeps_fold [where g = "\<lambda>H. H", OF that modify_bid_keeps])
  then show ?thesis
    by (intro keeps_fold [where g = "\<lambda>H. H", OF run [unfolded modifyBidsForEvents_def]]) (auto split: prod.splits option.splits)
qed

lemma generateIDs_keeps: "generateIDs newID seats H = Some (H', errs) \<Longrightarrow> keeps H H'"
proof -
  assume "generateIDs newID seats H = Some (H', errs)"
  then obtain n where n: "fold_opt (\<lambda>(b, s) acc. (case s of None \<Rightarrow> None | Some sb \<Rightarrow> fold_opt (id_step newID) (sb_bids sb) acc)) seats (H, 0, []) = Some (H', n, errs)"
    by (auto simp: generateIDs_def)
  have one: "keeps (fst s) (fst s')" if "id_step newID p s = Some s'" for p s s'
    using that by (auto simp: id_step_def bid_at_pbs intro!: keeps_refl split: prod.splits option.splits)
  have "keeps (fst s) (fst s')" if "fold_opt (id_step newID) ps s = Some s'" for ps s s'
    by (rule keeps_fold [where g = fst, OF that one])
  then have "keeps (fst (H, 0 :: nat, [] :: go_error list)) (fst (H', n, errs))"
    by (intro keeps_fold [OF n, where g = fst]) (auto split: prod.splits option.splits)
  then show ?thesis by simp
qed

lemma setTargeting_keeps: "setTargeting td auc isApp category H = Some H' \<Longrightarrow> keeps H H'"
proof -
  assume run: "setTargeting td auc isApp category H = Some H'"
  have one: "keeps s s'" if "target_step td auc isApp category imp e s = Some s'" for imp e s s'
    using that by (auto simp: target_step_def bid_at_pbs intro!: keeps_refl split: prod.splits option.splits)
  have "keeps s s'" if "fold_opt (target_step td auc isApp category imp) es s = Some s'" for imp es s s'
    by (rule keeps_fold [where g = "\<lambda>H. H", OF that one])
  then show ?thesis
    by (intro keeps_fold [where g = "\<lambda>H. H", OF run [unfolded setTargeting_def]]) (auto split: prod.splits)
qed

lemma applyDealSupport_keeps: "applyDealSupport req auc (H, category) = Some ((H', category'), errs) \<Longrightarrow> keeps H H'"
proof -
  assume run: "applyDealSupport req auc (H, category) = Some ((H', category'), errs)"
  have "keeps (fst (fst s)) (fst (fst s'))" if "deal_step tiers e s = Some s'" for tiers e s s'
    using that by (auto simp: deal_step_def updateHbPbCatDur_def bid_at_pbs intro!: keeps_refl split: prod.splits option.splits if_splits)
  from keeps_fold [OF run [unfolded applyDealSupport_def], where g = "fst \<circ> fst"] this show ?thesis by simp
qed

text \<open>Seats that hold no other bids than those of \<open>seats0\<close>, in the same order.\<close>

definition narrowed :: "seats \<Rightarrow> seats \<Rightarrow> bool" where
  "narrowed seats0 seats = (\<forall>b s. lookup seats b = Some (Some s) \<longrightarrow> (\<exists>s0. lookup seats0 b = Some (Some s0) \<and> subseq (sb_bids s) (sb_bids s0) \<and> sb_currency s = sb_currency s0))"

lemma narrowed_refl: "(\<And>b. lookup seats b = lookup seats0 b) \<Longrightarrow> narrowed seats0 seats"
  by (simp add: narrowed_def)

lemma narrowed_put:
  assumes "narrowed seats0 seats" and "lookup seats b = Some (Some s)" and "subseq ps (sb_bids s)"
  shows "narrowed seats0 (put b (Some (s\<lparr>sb_bids := ps\<rparr>)) seats)"
proof -
  from assms(1,2) obtain s0 where "lookup seats0 b = Some (Some s0)" "subseq (sb_bids s) (sb_bids s0)" "sb_currency s = sb_currency s0"
    unfolding narrowed_def by blast
  with assms subseq_order.trans [OF assms(3), of "sb_bids s0"] show ?thesis by (auto simp: narrowed_def)
qed

lemma removeBidById_subseq: "removeBidById H i ps = Some qs \<Longrightarrow> subseq qs ps"
  by (induction ps arbitrary: qs) (auto split: option.splits if_splits)

lemma remove_indices_subseq: "remove_indices idx ps = Some qs \<Longrightarrow> subseq qs ps"
proof -
  assume run: "remove_indices idx ps = Some qs"
  have "subseq (take i xs @ drop (Suc i) xs) xs" if "i < length xs" for i and xs :: "ptr list"
    using that id_take_nth_drop [OF that] by (metis subseq_append_iff subseq_Cons' subseq_order.refl list_emb_append_mono)
  then show ?thesis
    by (intro fold_opt_invariant [OF run [unfolded remove_indices_def], where P = "\<lambda>xs. subseq xs ps"])
      (auto split: if_splits intro: subseq_order.trans)
qed

lemma cat_step_narrowed:
  assumes "cat_step fetchCat coin cc H bidder ip st = Some st'" and "narrowed seats (kl_seats st)"
  shows "narrowed seats (kl_seats st')"
proof -
  have old: "narrowed seats (kl_seats c')" if "remove_old H bidder d c = Some c'" "narrowed seats (kl_seats c)" for d c c'
    using that by (auto simp: remove_old_def intro!: narrowed_put dest: removeBidById_subseq split: if_splits option.splits)
  from assms show ?thesis
    by (auto simp: cat_step_def Let_def reject_def accept_def split: option.splits sum.splits prod.splits if_splits)
      (use old in fastforce)+
qed

lemma cat_seat_narrowed:
  assumes run: "cat_seat fetchCat coin cc H bidder st = Some st'" and n: "narrowed seats (kl_seats st)"
  shows "narrowed seats (kl_seats st')"
proof -
  from run obtain s st1 where s: "lookup (kl_seats st) bidder = Some (Some s)"
    and st1: "fold_opt (cat_step fetchCat coin cc H bidder) (enumerate 0 (sb_bids s)) (st\<lparr>kl_bidsToRemove := []\<rparr>) = Some st1"
    by (auto simp: cat_seat_def split: option.splits)
  have n1: "narrowed seats (kl_seats st1)"
    by (rule fold_opt_invariant [OF st1, where P = "\<lambda>c. narrowed seats (kl_seats c)"]) (use n cat_step_narrowed in \<open>simp, blast\<close>)
  from n s obtain s0 where s0: "lookup seats bidder = Some (Some s0)" "subseq (sb_bids s) (sb_bids s0)" "sb_currency s = sb_currency s0"
    unfolding narrowed_def by blast
  have "narrowed seats (put bidder (Some (s\<lparr>sb_bids := ps\<rparr>)) (kl_seats st1))" if "remove_indices rm (sb_bids s) = Some ps" for rm ps
    using n1 s0 subseq_order.trans [OF remove_indices_subseq [OF that] s0(2)] by (auto simp: narrowed_def)
  with run s st1 n1 show ?thesis by (auto simp: cat_seat_def split: if_splits)
qed

lemma wf_put_present: "lookup m k \<noteq> None \<Longrightarrow> map fst (put k v m) = map fst m"
  by (induction m) auto

lemma applyCategoryMapping_narrowed:
  assumes run: "applyCategoryMapping fetchCat coin brand t pg H seats = Some (res, seats', rej, e)"
  shows "narrowed seats seats'"
proof (cases "category_settings brand t pg")
  case (Inl err)
  with run show ?thesis by (auto simp: applyCategoryMapping_def intro: narrowed_refl)
next
  case (Inr cc)
  with run obtain st where st: "fold_opt (cat_seat fetchCat coin cc H) (map fst seats)
      \<lparr>ks_res = [], ks_dedupe = [], ks_rejections = [], ks_tosses = 0, kl_seats = seats, kl_seatsToRemove = [], kl_bidsToRemove = []\<rparr> = Some st"
    and emptied: "fold_opt empty_seat (kl_seatsToRemove st) (kl_seats st) = Some seats'"
    by (auto simp: applyCategoryMapping_def split: option.splits)
  have "narrowed seats (kl_seats st)"
    by (rule fold_opt_invariant [OF st, where P = "\<lambda>c. narrowed seats (kl_seats c)"]) (use cat_seat_narrowed narrowed_refl in \<open>simp, blast\<close>)
  then show ?thesis
    by (rule fold_opt_invariant [OF emptied, where P = "narrowed seats"])
      (auto simp: empty_seat_def intro!: narrowed_put split: option.splits)
qed

lemma narrowed_trans: "narrowed a b \<Longrightarrow> narrowed b c \<Longrightarrow> narrowed a c"
  unfolding narrowed_def by (fastforce intro: subseq_order.trans)

lemma lookup_same_mset:
  assumes "mset xs = mset ys" and "wf_map ys"
  shows "lookup xs = lookup ys"
proof -
  have "mset (map fst xs) = mset (map fst ys)" using assms(1) by simp
  then have wf: "wf_map xs" using assms(2) unfolding wf_map_def by (metis mset_eq_imp_distinct_iff)
  have "set xs = set ys" using assms(1) by (metis set_mset_mset)
  then show ?thesis using map_of_inject_set [of xs ys] wf assms(2) by (simp add: wf_map_def)
qed

section \<open>Properties: the stages\<close>

text \<open>What the stages after the bids do to the seats and the offers.\<close>

definition stage_ok :: "auction_state \<Rightarrow> auction_state \<Rightarrow> bool" where
  "stage_ok st st' = (keeps (as_store st) (as_store st') \<and> narrowed (as_seats st) (as_seats st'))"

lemma stage_ok_trans: "stage_ok a b \<Longrightarrow> stage_ok b c \<Longrightarrow> stage_ok a c"
  unfolding stage_ok_def using keeps_trans narrowed_trans by blast

lemma stage_okI: "keeps (as_store st) (as_store st') \<Longrightarrow> as_seats st' = as_seats st \<Longrightarrow> stage_ok st st'"
  by (simp add: stage_ok_def narrowed_refl)

lemma exclusion_stage_ok:
  assumes run: "exclusion_stage x ch prebid targData st = Some (Inr st')" and order: "mset (ch_iter ch 0 (as_seats st)) = mset (as_seats st)"
    and wf: "wf_map (as_seats st)"
  shows "stage_ok st st'"
proof -
  have "narrowed (as_seats st) seats'" if "applyCategoryMapping f c b t pg H (ch_iter ch 0 (as_seats st)) = Some (res, seats', rej, e)" for f c b t pg H res seats' rej e
    using applyCategoryMapping_narrowed [OF that] lookup_same_mset [OF order wf] by (simp add: narrowed_def)
  with run show ?thesis
    by (auto simp: exclusion_stage_def stage_ok_def keeps_refl narrowed_refl split: option.splits)
qed

lemma targeting_stage_ok: "targeting_stage x ch prebid ev req account start dbg extra targData st = Some st' \<Longrightarrow> stage_ok st st'"
proof -
  assume run: "targeting_stage x ch prebid ev req account start dbg extra targData st = Some st'"
  have deal: "keeps (as_store st) (as_store st1) \<and> as_seats st1 = as_seats st" if "deal_stage prebid req auc st = Some st1" for auc st1
    using that by (auto simp: deal_stage_def keeps_refl dest: applyDealSupport_keeps split: if_splits)
  show ?thesis
  proof (cases targData)
    case None
    with run show ?thesis by (auto simp: targeting_stage_def intro: stage_okI keeps_refl)
  next
    case (Some td)
    with run obtain auc1 st1 auc2 H where "deal_stage prebid req auc1 st = Some st1" "setTargeting td auc2 (req_App req \<noteq> None) (as_category st1) (as_store st1) = Some H"
      "as_store st' = H" "as_seats st' = as_seats st1"
      by (auto simp: targeting_stage_def Let_def split: bind_splits prod.splits)
    with deal setTargeting_keeps keeps_trans show ?thesis by (intro stage_okI) (blast, simp)
  qed
qed

lemma run_auction_ok:
  assumes run: "run_auction x ch prebid ev req account start dbg targData all errs dl = Some (Inr (st, r))"
    and order: "\<And>i s. mset (ch_iter ch i s) = mset s" and wf: "wf_map (gb_bids all)"
  shows "keeps (gb_store all) (as_store st) \<and> narrowed (gb_bids all) (as_seats st)"
proof (cases "gb_found all")
  case False
  with run show ?thesis by (auto simp: run_auction_def Let_def keeps_refl narrowed_refl split: bind_splits prod.splits)
next
  case True
  let ?st = "\<lparr>as_seats = gb_bids all, as_store = gb_store all, as_category = [], as_errs = errs, as_log = dl, as_auction = None\<rparr>"
  from run True obtain st1 st2 st3 where s: "exclusion_stage x ch prebid targData ?st = Some (Inr st1)" "id_stage x ch st1 = Some st2"
    "event_stage ev ch st2 = Some st3" "targeting_stage x ch prebid ev req account start dbg (gb_extra all) targData st3 = Some st"
    by (auto simp: run_auction_def Let_def split: option.splits sum.splits bind_splits)
  have "stage_ok ?st st1" using exclusion_stage_ok [OF s(1)] order wf by simp
  moreover have "stage_ok st1 st2" using s(2) by (auto simp: id_stage_def keeps_refl intro!: stage_okI dest: generateIDs_keeps split: if_splits)
  moreover have "stage_ok st2 st3" using s(3) by (auto simp: event_stage_def intro!: stage_okI dest: modifyBids_keeps)
  ultimately have "stage_ok ?st st" using targeting_stage_ok [OF s(4)] stage_ok_trans by blast
  then show ?thesis by (simp add: stage_ok_def)
qed

section \<open>Properties: the response\<close>

lemma makeBid_offers:
  assumes "makeBid env H auc rc ps = Some (bids, errs)" and "b \<in> set bids"
  shows "\<exists>p\<in>set ps. \<exists>b0. bid_at H p = Some b0 \<and> b\<lparr>bid_AdM := bid_AdM b0, bid_Ext := bid_Ext b0\<rparr> = b0"
proof -
  let ?P = "\<lambda>acc. \<forall>b\<in>set (fst acc). \<exists>p\<in>set ps. \<exists>b0. bid_at H p = Some b0 \<and> b\<lparr>bid_AdM := bid_AdM b0, bid_Ext := bid_Ext b0\<rparr> = b0"
  have new: "\<exists>p\<in>set ps. \<exists>b0. bid_at H p = Some b0 \<and> b1\<lparr>bid_AdM := bid_AdM b0, bid_Ext := bid_Ext b0\<rparr> = b0" if "p \<in> set ps" "bid_at H p = Some b1" for p b1
    using that by (intro bexI [of _ p] exI [of _ b1]) simp_all
  have "?P acc" if "fold_opt (bid_step env H auc rc) ps ([], []) = Some acc" for acc
    by (rule fold_opt_invariant [OF that, where P = ?P]) (auto simp: bid_step_def new split: option.splits sum.splits)
  with assms show ?thesis unfolding makeBid_def by fastforce
qed

lemma response_seats:
  assumes "buildBidResponse env H live adapterBids req extra auc x rc = Some (resp, e, extra')" and "seat \<in> set (br_SeatBid resp)"
  shows "\<exists>sb errs. lookup adapterBids (seat_Seat seat) = Some (Some sb) \<and> makeBid env H auc rc (sb_bids sb) = Some (seat_Bid seat, errs)"
proof -
  let ?P = "\<lambda>st. \<forall>s\<in>set (fst st). \<exists>sb errs. lookup adapterBids (seat_Seat s) = Some (Some sb) \<and> makeBid env H auc rc (sb_bids sb) = Some (seat_Bid s, errs)"
  have step: "?P st'" if "?P st" "seat_step env H auc rc adapterBids a st = Some st'" for a st st'
    using that by (auto simp: seat_step_def makeSeatBid_def Let_def bind_eq_Some_conv split: option.splits if_splits prod.splits)
  from assms(1) obtain st where st: "fold_opt (seat_step env H auc rc adapterBids) live ([], [], extra) = Some st" "br_SeatBid resp = fst st"
    by (auto simp: buildBidResponse_def split: option.splits prod.splits)
  have "?P st" by (rule fold_opt_invariant [OF st(1), where P = ?P]) (simp, use step in blast)
  with assms(2) st(2) show ?thesis by simp
qed

lemma runBidder_valid:
  assumes "runBidder k br = Some w" and "wrapper_seat w = Some s" and "nb \<in> set (ns_bids s)"
  shows "validateBid nb = None"
proof -
  from assms(2) have w: "bw_adapterBids w = Some s" by (auto simp: wrapper_seat_def split: option.splits if_splits)
  with assms(1) obtain seat errs errs' request' parseISO where "removeInvalidBids parseISO request' seat = (Some s, errs')"
    by (auto simp: runBidder_def validated_requestBid_def split: option.splits prod.splits if_splits)
  with assms(3) show ?thesis by (auto simp: removeInvalidBids_def split: option.splits if_splits)
qed

text \<open>
  C1. Every bid of a response comes from the bidder whose seat it is in: the bidder was asked, after its request was cleaned,
  and its adapter answered with a valid bid that has the same id, impression, price, deal, creative and all other fields
  but the markup and the extension. So the whole auction, competitive exclusion, generated ids, events, deals, caching and
  targeting included, invents no bid, moves none to another seat and changes no price.
\<close>

theorem response_from_bidders:
  assumes "HoldAuction x ch rc dl = Some (Inr (resp, e, dl'))" and "\<And>ws. set (ch_arrival ch ws) = set ws" and "\<And>i s. mset (ch_iter ch i s) = mset s"
    and "seat \<in> set (br_SeatBid resp)"
  shows "\<exists>prebid cr k br w s. extractBidRequestExt (ar_BidRequest (rc_Request rc)) = Inr (Some prebid) \<and>
    cleaned_requests x ch (rc_Request rc) (Some prebid) = Some cr \<and> br \<in> set (cr_Requests cr) \<and> br_BidderName br = seat_Seat seat \<and>
    (\<exists>debugInfo override. k = auction_asks x rc prebid debugInfo override) \<and> runBidder k br = Some w \<and> wrapper_seat w = Some s \<and>
    (\<forall>b\<in>set (seat_Bid seat). \<exists>nb\<in>set (ns_bids s). \<exists>b0. nb_bid nb = Some b0 \<and> validateBid nb = None \<and> b\<lparr>bid_AdM := bid_AdM b0, bid_Ext := bid_Ext b0\<rparr> = b0)"
proof -
  from assms(1) obtain prebid cr debugInfo override targData ev errs log st r where
    ext: "extractBidRequestExt (ar_BidRequest (rc_Request rc)) = Inr (Some prebid)" and cr: "cleaned_requests x ch (rc_Request rc) (Some prebid) = Some cr"
    and run: "run_auction x ch prebid ev (cr_Request cr) (ar_Account (rc_Request rc)) (rc_Start rc) debugInfo targData
      (getAllBids (auction_asks x rc prebid debugInfo override) (ch_arrival ch) (cr_Requests cr)) (cr_Errors cr) log = Some (Inr (st, r))"
    and resp: "\<exists>live extra auc rx rcv extra'. buildBidResponse (xc_response x) (as_store st) live (as_seats st) (cr_Request cr) extra auc rx rcv = Some (resp, e, extra')"
    by (auto simp: HoldAuction_def Let_def split: sum.splits option.splits prod.splits) blast+
  let ?k = "auction_asks x rc prebid debugInfo override"
  let ?g = "getAllBids ?k (ch_arrival ch) (cr_Requests cr)"
  have col: "collected (ch_arrival ch (map (recoverSafely (runBidder ?k)) (cr_Requests cr))) ?g" by (rule getAllBids_collected)
  then have "wf_map (gb_bids ?g)" by (simp add: collected_def)
  from run_auction_ok [OF run assms(3) this] have keep: "keeps (gb_store ?g) (as_store st)" and nar: "narrowed (gb_bids ?g) (as_seats st)" by simp_all
  from resp obtain live extra auc rx rcv extra' where "buildBidResponse (xc_response x) (as_store st) live (as_seats st) (cr_Request cr) extra auc rx rcv = Some (resp, e, extra')"
    by blast
  from response_seats [OF this assms(4)] obtain sb errs' where sb: "lookup (as_seats st) (seat_Seat seat) = Some (Some sb)"
    "makeBid (xc_response x) (as_store st) auc rcv (sb_bids sb) = Some (seat_Bid seat, errs')" by blast
  from nar sb(1) obtain s0 where s0: "lookup (gb_bids ?g) (seat_Seat seat) = Some (Some s0)" "subseq (sb_bids sb) (sb_bids s0)" unfolding narrowed_def by blast
  from collectedD [OF col s0(1)] obtain w s where w: "w \<in> set (ch_arrival ch (map (recoverSafely (runBidder ?k)) (cr_Requests cr)))" "bw_bidder w = seat_Seat seat"
    "wrapper_seat w = Some s" "holds_seat (gb_store ?g) s0 s" by blast
  from w(1) obtain br where br: "br \<in> set (cr_Requests cr)" "w = recoverSafely (runBidder ?k) br" unfolding assms(2) by auto
  then have wr: "runBidder ?k br = Some w" using w(3) by (auto simp: recoverSafely_def noData_def wrapper_seat_def split: option.splits)
  have "\<exists>nb\<in>set (ns_bids s). \<exists>b0. nb_bid nb = Some b0 \<and> validateBid nb = None \<and> b\<lparr>bid_AdM := bid_AdM b0, bid_Ext := bid_Ext b0\<rparr> = b0" if "b \<in> set (seat_Bid seat)" for b
  proof -
    from makeBid_offers [OF sb(2) that] obtain p b1 where p: "p \<in> set (sb_bids sb)" "bid_at (as_store st) p = Some b1" "b\<lparr>bid_AdM := bid_AdM b1, bid_Ext := bid_Ext b1\<rparr> = b1" by blast
    have "p \<in> set (sb_bids s0)" using list_emb_set [OF s0(2) p(1)] by auto
    with w(4) obtain nb where nb: "nb \<in> set (ns_bids s)" "st_pbs (gb_store ?g) p = Some (new_pbs p nb)" "st_bid (gb_store ?g) p = nb_bid nb"
      unfolding holds_seat_def list_all2_conv_all_nth by (metis in_set_conv_nth)
    with runBidder_valid [OF wr w(3) nb(1)] obtain b0 where b0: "nb_bid nb = Some b0" "validateBid nb = None" by (auto simp: validateBid_def split: option.splits)
    then have "bid_at (gb_store ?g) p = Some b0" using nb by (simp add: bid_at_def bid_ptr_def new_pbs_def)
    with keep p(2) have "same_offer b1 b0" unfolding keeps_def by fastforce
    with p(3) have "b\<lparr>bid_AdM := bid_AdM b0, bid_Ext := bid_Ext b0\<rparr> = b0" by (cases b; cases b0; cases b1) (auto simp: same_offer_def)
    with nb(1) b0 show ?thesis by blast
  qed
  with ext cr br(1) wr w(3) w(2) runBidder_name [OF wr] show ?thesis by metis
qed

section \<open>Properties: an auction ends with a response\<close>

lemma fold_opt_exists:
  assumes "P s" and "\<And>x s. x \<in> set xs \<Longrightarrow> P s \<Longrightarrow> \<exists>s'. f x s = Some s' \<and> P s'"
  shows "\<exists>s'. fold_opt f xs s = Some s' \<and> P s'"
  using assms
proof (induction xs arbitrary: s)
  case (Cons x xs)
  from Cons.prems(2) [of x s] Cons.prems(1) obtain t where "f x s = Some t" "P t" by auto
  with Cons.IH [of t] Cons.prems(2) show ?case by auto
qed simp

text \<open>No seat is nil and every bid exists.\<close>

definition sound_seats :: "store \<Rightarrow> seats \<Rightarrow> bool" where
  "sound_seats H seats = ((\<forall>(b, s)\<in>set seats. s \<noteq> None) \<and> valid_seats H seats)"

lemma sound_seats_iff: "sound_seats H seats \<longleftrightarrow> (\<forall>(b, s)\<in>set seats. \<exists>t. s = Some t \<and> (\<forall>p\<in>set (sb_bids t). bid_at H p \<noteq> None))"
  unfolding sound_seats_def valid_seats_def all_bids_def seat_bids_def by (fastforce split: option.splits)

lemma sound_set: "set seats' \<subseteq> set seats \<Longrightarrow> sound_seats H seats \<Longrightarrow> sound_seats H seats'"
  unfolding sound_seats_iff by blast

lemma sound_keeps: "sound_seats H seats \<Longrightarrow> keeps H H' \<Longrightarrow> sound_seats H' seats"
  unfolding sound_seats_iff keeps_def by fastforce

lemma alive_pbs: "bid_at H p \<noteq> None \<Longrightarrow> st_pbs H p \<noteq> None"
  by (auto simp: bid_at_def bid_ptr_def split: option.splits)

lemma alive_keeps: "bid_at H p \<noteq> None \<Longrightarrow> keeps H H' \<Longrightarrow> bid_at H' p \<noteq> None"
  unfolding keeps_def by fastforce

lemma id_step_keeps: "id_step newID p s = Some s' \<Longrightarrow> keeps (fst s) (fst s')"
  by (auto simp: id_step_def bid_at_pbs intro!: keeps_refl split: prod.splits option.splits)

lemma seat_loops_total:
  assumes "\<And>b p s. bid_at (g s) p \<noteq> None \<Longrightarrow> \<exists>s'. f b p s = Some s' \<and> keeps (g s) (g s')" and "sound_seats (g s) seats"
  shows "\<exists>s'. fold_opt (\<lambda>(b, sb) s. (case sb of None \<Rightarrow> None | Some t \<Rightarrow> fold_opt (f b) (sb_bids t) s)) seats s = Some s'"
proof -
  let ?P = "\<lambda>s. sound_seats (g s) seats"
  have seat: "\<exists>s'. (case sb of None \<Rightarrow> None | Some t \<Rightarrow> fold_opt (f b) (sb_bids t) s) = Some s' \<and> ?P s'" if "(b, sb) \<in> set seats" "?P s" for b sb s
  proof -
    from that obtain t where t: "sb = Some t" unfolding sound_seats_iff by blast
    have "\<exists>s'. fold_opt (f b) (sb_bids t) s = Some s' \<and> ?P s'"
    proof (rule fold_opt_exists [where P = ?P, OF that(2)])
      fix p u assume "p \<in> set (sb_bids t)" and u: "?P u"
      with that(1) t have "bid_at (g u) p \<noteq> None" unfolding sound_seats_iff by fastforce
      from assms(1) [OF this] sound_keeps [OF u] show "\<exists>u'. f b p u = Some u' \<and> ?P u'" by blast
    qed
    with t show ?thesis by simp
  qed
  have "\<exists>s'. fold_opt (\<lambda>(b, sb) s. (case sb of None \<Rightarrow> None | Some t \<Rightarrow> fold_opt (f b) (sb_bids t) s)) seats s = Some s' \<and> ?P s'"
    by (rule fold_opt_exists [where P = ?P]) (use assms(2) seat in auto)
  then show ?thesis by blast
qed

lemma generateIDs_total:
  assumes "sound_seats H seats"
  shows "\<exists>H' errs. generateIDs newID seats H = Some (H', errs)"
proof -
  have "\<exists>s'. id_step newID p s = Some s' \<and> keeps (fst s) (fst s')" if "bid_at (fst s) p \<noteq> None" for p s
  proof -
    from alive_pbs [OF that] obtain s' where "id_step newID p s = Some s'" by (cases s) (auto simp: id_step_def)
    with id_step_keeps show ?thesis by blast
  qed
  from seat_loops_total [where g = fst and f = "\<lambda>_. id_step newID" and s = "(H, 0, [])" and seats = seats, OF this] assms show ?thesis by (auto simp: generateIDs_def)
qed

lemma modifyBids_total:
  assumes "sound_seats H seats"
  shows "\<exists>H'. modifyBidsForEvents ev seats H = Some H'"
proof -
  have "\<exists>s'. modify_bid_for_events ev b p s = Some s' \<and> keeps s s'" if "bid_at s p \<noteq> None" for b p s
  proof -
    from that alive_pbs [OF that] obtain s' where "modify_bid_for_events ev b p s = Some s'" by (auto simp: modify_bid_for_events_def Let_def)
    with modify_bid_keeps show ?thesis by blast
  qed
  from seat_loops_total [where g = "\<lambda>s. s" and f = "modify_bid_for_events ev", OF this assms] show ?thesis by (simp add: modifyBidsForEvents_def)
qed

lemma setTargeting_total:
  assumes "\<And>imp b p. (imp, b, p) \<in> set (top_bids a) \<Longrightarrow> bid_at H p \<noteq> None"
  shows "\<exists>H'. setTargeting td a isApp cat H = Some H'"
proof -
  have "\<exists>H'. fold_opt (\<lambda>(imp, b, p). target_step td a isApp cat imp (b, p)) (top_bids a) H = Some H' \<and> bid_at H' = bid_at H"
  proof (rule fold_opt_exists [where P = "\<lambda>H'. bid_at H' = bid_at H"])
    fix e s assume e: "e \<in> set (top_bids a)" and s: "bid_at s = bid_at H"
    obtain imp b p where e': "e = (imp, b, p)" by (metis prod.exhaust)
    with assms e s obtain x where x: "bid_at s p = Some x" by fastforce
    then obtain pb q where "st_pbs s p = Some pb" "bid_ptr s p = Some q" by (auto simp: bid_at_def bid_ptr_def split: option.splits)
    with x s show "\<exists>s'. (\<lambda>(imp, b, p). target_step td a isApp cat imp (b, p)) e s = Some s' \<and> bid_at s' = bid_at H"
      by (simp add: e' target_step_def bid_at_pbs)
  qed simp
  then show ?thesis unfolding setTargeting_flat by blast
qed

text \<open>The stages. The cache answers with an id, maybe empty, for each value.\<close>

definition cache_answers :: "cache_env \<Rightarrow> bool" where
  "cache_answers env = (\<forall>vals. \<exists>ids errs. ce_putJson env vals = Some (ids, errs) \<and> length ids = length vals)"

definition no_nil_error :: "extras \<Rightarrow> auction_state \<Rightarrow> bool" where
  "no_nil_error extra st = (extra = [] \<or> None \<notin> set (as_errs st))"

lemma ext_response_total: "extra = [] \<or> None \<notin> set errs \<Longrightarrow> \<exists>r. ext_response extra req start dbg errs = Some r"
  by (simp add: ext_response_def)

lemma in_all_bids: "(b, Some t) \<in> set seats \<Longrightarrow> p \<in> set (sb_bids t) \<Longrightarrow> (b, p) \<in> set (all_bids seats)"
  by (force simp: all_bids_def seat_bids_def)

lemma good_seats_perm:
  assumes "mset seats' = mset seats" and "good_seats H seats"
  shows "good_seats H seats'"
proof -
  have "mset (map fst seats') = mset (map fst seats)" using assms(1) by simp
  then have wf: "wf_map seats'" using assms(2) unfolding good_seats_def wf_map_def by (metis mset_eq_imp_distinct_iff)
  have set: "set seats' = set seats" using assms(1) by (metis set_mset_mset)
  then have bids: "set (all_bids seats') = set (all_bids seats)" by (simp add: all_bids_def)
  have "mset (all_cands seats') = mset (all_cands seats)" using assms(1) by (simp add: all_cands_def mset_concat flip: sum_mset_sum_list)
  then have "mset (seen_ids H (all_cands seats')) = mset (seen_ids H (all_cands seats))" by (simp add: seen_ids_def)
  from mset_eq_imp_distinct_iff [OF this] assms(2) wf set bids show ?thesis by (simp add: good_seats_def)
qed

lemma good_sound: "good_seats H seats \<Longrightarrow> sound_seats H seats"
  unfolding good_seats_def sound_seats_def valid_seats_def by blast

lemma sound_exclude: "sound_seats H seats \<Longrightarrow> sound_seats H (exclude H D seats)"
  unfolding sound_seats_iff by (fastforce simp: exclude_def)

lemma exclusion_stage_total:
  assumes order: "mset (ch_iter ch 0 (as_seats st)) = mset (as_seats st)" and good: "good_seats (as_store st) (as_seats st)"
    and td: "targData = None \<Longrightarrow> xp_Targeting prebid = None" and nil: "no_nil_error extra st"
  shows "\<exists>out. exclusion_stage x ch prebid targData st = Some out \<and> (case out of
      Inl e \<Rightarrow> \<exists>t brand pg e'. xp_Targeting prebid = Some t \<and> tg_IncludeBrandCategory t = Some brand \<and> category_settings brand t pg = Inl e'
    | Inr st' \<Rightarrow> sound_seats (as_store st') (as_seats st') \<and> no_nil_error extra st')"
proof (cases "Option.bind (xp_Targeting prebid) (\<lambda>t. map_option (Pair t) (tg_IncludeBrandCategory t))")
  case None
  then show ?thesis using good_sound [OF good] nil by (auto simp: exclusion_stage_def)
next
  case (Some tb)
  then obtain t brand where t: "tb = (t, brand)" "xp_Targeting prebid = Some t" "tg_IncludeBrandCategory t = Some brand" by (auto simp: bind_eq_Some_conv)
  then obtain d where d: "targData = Some d" using td by fastforce
  note g = good_seats_perm [OF order good]
  show ?thesis
  proof (cases "category_settings brand t (priceGranularity d)")
    case (Inl e)
    then have "applyCategoryMapping (xc_fetchCategory x) (ch_coin ch) brand t (priceGranularity d) (as_store st) (ch_iter ch 0 (as_seats st)) =
      Some ([], ch_iter ch 0 (as_seats st), [], Some e)" by (simp add: applyCategoryMapping_def)
    then show ?thesis using Some t d Inl by (auto simp: exclusion_stage_def)
  next
    case (Inr cc)
    let ?r = "ref_loop (xc_fetchCategory x) (ch_coin ch) cc (as_store st) (all_cands (ch_iter ch 0 (as_seats st)))"
    have "sound_seats (as_store st) (exclude (as_store st) (ks_dedupe ?r) (ch_iter ch 0 (as_seats st)))" by (intro sound_exclude good_sound g)
    then show ?thesis using applyCategoryMapping_ref [OF g Inr, of "xc_fetchCategory x" "ch_coin ch"] Some t d nil
      by (auto simp: exclusion_stage_def Let_def no_nil_error_def)
  qed
qed

lemma targeting_stage_total:
  assumes order: "mset (ch_iter ch 3 (as_seats st)) = mset (as_seats st)" and sound: "sound_seats (as_store st) (as_seats st)"
    and cache: "cache_answers (xc_cache x)" and nil: "no_nil_error extra st"
  shows "\<exists>st'. targeting_stage x ch prebid ev req account start dbg extra targData st = Some st' \<and> no_nil_error extra st'"
proof (cases targData)
  case None
  then show ?thesis using nil by (simp add: targeting_stage_def)
next
  case (Some td)
  let ?seats = "ch_iter ch 3 (as_seats st)" and ?H = "as_store st"
  have "set ?seats = set (as_seats st)" using order by (metis set_mset_mset)
  then have valid: "valid_seats ?H ?seats" using sound_set [OF _ sound] by (simp add: sound_seats_def)
  obtain a0 where a0: "newAuction ?H ?seats (preferDeals td) = Some a0" using newAuction_inv [OF valid] by blast
  have top: "bid_at ?H p \<noteq> None" if "(imp, b, p) \<in> set (top_bids a0)" for imp b p by (rule newAuction_top_valid [OF valid a0 that])
  obtain prices where a1: "setRoundedPrices ?H (priceGranularity td) a0 = Some (a0\<lparr>roundedPrices := prices\<rparr>)"
    using setRoundedPrices_total [of a0 ?H "priceGranularity td"] top by blast
  let ?a1 = "a0\<lparr>roundedPrices := prices\<rparr>"
  have tops: "top_bids ?a1 = top_bids a0" by (simp add: top_bids_def)
  have "\<forall>e\<in>set (top_bids ?a1). st_pbs ?H (snd (snd e)) \<noteq> None \<and> bid_at ?H (snd (snd e)) \<noteq> None" unfolding tops using top alive_pbs by (metis prod.collapse)
  from deal_loop [OF this, of req "as_category st" "[]"] obtain H1 cat1 derrs where
    deal: "applyDealSupport req ?a1 (?H, as_category st) = Some ((H1, cat1), derrs)" by (simp add: applyDealSupport_def)
  obtain st1 where st1: "deal_stage prebid req ?a1 st = Some st1" "keeps ?H (as_store st1)" "no_nil_error extra st1"
    using deal applyDealSupport_keeps [OF deal] nil by (cases "xp_SupportDeals prebid") (auto simp: deal_stage_def no_nil_error_def keeps_refl)
  have alive: "bid_at (as_store st1) p \<noteq> None" if "(imp, b, p) \<in> set (top_bids ?a1)" for imp b p
    using top that alive_keeps [OF _ st1(2)] unfolding tops by blast
  obtain r where r: "ext_response extra req start dbg (as_errs st1) = Some r" using ext_response_total st1(3) unfolding no_nil_error_def by metis
  obtain dl errs where log: "log_response x r (as_log st1, as_errs st1) = (dl, errs)" by (metis prod.exhaust)
  then have errs: "extra = [] \<or> None \<notin> set errs" using st1(3) by (auto simp: log_response_def no_nil_error_def split: if_splits sum.splits)
  obtain a2 dl' cerrs where c: "doCache (xc_cache x) (as_store st1) td ev req 60 (acc_CacheTTL account) (as_category st1) (Some dl) ?a1 = Some (a2, dl', cerrs)"
    "winningBidsByBidder a2 = winningBidsByBidder ?a1"
    using doCache_total [of ?a1 "as_store st1" "xc_cache x" td ev req 60 "acc_CacheTTL account" "as_category st1" "Some dl"] alive cache unfolding cache_answers_def by blast
  have "top_bids a2 = top_bids ?a1" using c(2) by (simp add: top_bids_def)
  then obtain H2 where "setTargeting td a2 (req_App req \<noteq> None) (as_category st1) (as_store st1) = Some H2" using setTargeting_total alive by metis
  then show ?thesis using Some a0 a1 st1(1) r log c(1) errs by (auto simp: targeting_stage_def no_nil_error_def)
qed

lemma run_auction_total:
  assumes order: "\<And>i s. mset (ch_iter ch i s) = mset s" and good: "good_seats (gb_store all) (gb_bids all)" and cache: "cache_answers (xc_cache x)"
    and td: "targData = None \<Longrightarrow> xp_Targeting prebid = None" and nil: "gb_extra all = [] \<or> None \<notin> set errs"
  shows "\<exists>out. run_auction x ch prebid ev req account start dbg targData all errs dl = Some out \<and>
    (\<forall>e. out = Inl e \<longrightarrow> (\<exists>t brand pg e'. xp_Targeting prebid = Some t \<and> tg_IncludeBrandCategory t = Some brand \<and> category_settings brand t pg = Inl e'))"
proof (cases "gb_found all")
  case False
  from ext_response_total [OF nil] obtain r where "ext_response (gb_extra all) req start dbg errs = Some r" by blast
  with False show ?thesis by (auto simp: run_auction_def Let_def split: prod.splits)
next
  case True
  let ?st = "\<lparr>as_seats = gb_bids all, as_store = gb_store all, as_category = [], as_errs = errs, as_log = dl, as_auction = None\<rparr>" and ?x = "gb_extra all"
  have "no_nil_error ?x ?st" using nil by (simp add: no_nil_error_def)
  from exclusion_stage_total [where st = ?st and ch = ch and targData = targData and prebid = prebid and x = x, OF _ _ td this] order good
  obtain out where out: "exclusion_stage x ch prebid targData ?st = Some out" "case out of
      Inl e \<Rightarrow> \<exists>t brand pg e'. xp_Targeting prebid = Some t \<and> tg_IncludeBrandCategory t = Some brand \<and> category_settings brand t pg = Inl e'
    | Inr st' \<Rightarrow> sound_seats (as_store st') (as_seats st') \<and> no_nil_error ?x st'" by auto
  have same: "set (ch_iter ch i s) = set s" for i s using order by (metis set_mset_mset)
  show ?thesis
  proof (cases out)
    case (Inl e)
    with out True show ?thesis by (auto simp: run_auction_def)
  next
    case (Inr st1)
    with out have s1: "sound_seats (as_store st1) (as_seats st1)" "no_nil_error ?x st1" by simp_all
    have "\<exists>H errs. generateIDs (ch_newID ch) (ch_iter ch 1 (as_seats st1)) (as_store st1) = Some (H, errs)"
      by (rule generateIDs_total [OF sound_set [OF _ s1(1)]]) (simp add: same)
    then obtain st2 where s2: "id_stage x ch st1 = Some st2" "sound_seats (as_store st2) (as_seats st2)" "no_nil_error ?x st2"
      using s1 by (cases "xc_generateIDs x") (auto simp: id_stage_def no_nil_error_def dest: sound_keeps generateIDs_keeps)
    obtain H where H: "modifyBidsForEvents ev (ch_iter ch 2 (as_seats st2)) (as_store st2) = Some H"
      using modifyBids_total [OF sound_set [OF _ s2(2)]] same by blast
    then obtain st3 where s3: "event_stage ev ch st2 = Some st3" "sound_seats (as_store st3) (as_seats st3)" "no_nil_error ?x st3"
      using s2(2,3) sound_keeps [OF s2(2) modifyBids_keeps [OF H]] by (auto simp: event_stage_def no_nil_error_def)
    from targeting_stage_total [OF order s3(2) cache s3(3), of prebid ev req account start dbg targData] obtain st4 where
      s4: "targeting_stage x ch prebid ev req account start dbg ?x targData st3 = Some st4" "no_nil_error ?x st4" by blast
    obtain r where "ext_response ?x req start dbg (as_errs st4) = Some r" using ext_response_total s4(2) unfolding no_nil_error_def by metis
    with True out(1) Inr s2(1) s3(1) s4(1) show ?thesis by (simp add: run_auction_def)
  qed
qed

lemma clean_no_nil_error:
  assumes "cleaned_requests x ch r requestExt = Some cr" and "cr_Requests cr \<noteq> []"
  shows "None \<notin> set (cr_Errors cr)"
proof -
  from clean_cases [OF assms(1) [unfolded cleaned_requests_def] assms(2)] obtain m aliases brs errs po can errs' blocked where
    c: "splitImps (req_Imp (ar_BidRequest r)) = Inr m" "parseAliases (xc_getAliases x) (req_Ext (ar_BidRequest r)) = Inr aliases"
    "getAuctionBidderRequests r requestExt (ch_bidders ch m) aliases = Some (brs, errs, cr_Request cr)"
    "read_policies (cr_Request cr) r (xc_privacy x) (parseGDPRDefaultValue (pv_GDPR (xc_privacy x)) (xc_gdprDefault x) (ar_BidRequest r)) aliases = (po, can, errs')"
    "enforce_all (xc_gdpr x) (Some (ar_Account r)) (lb_PubID (ar_LegacyLabels r)) po brs = (cr_Requests cr, blocked)" by metis
  have "brs \<noteq> []" using c(5) assms(2) by auto
  from clean_result [where iter = "ch_bidders ch", OF c(1-3) this c(4), of "xc_parseConsent x" "xc_gdpr x" "Some (ar_Account r)"]
  have "map_option cr_Errors (cleaned_requests x ch r requestExt) = Some (map Some errs @ errs')" by (simp add: cleaned_requests_def)
  then have "cr_Errors cr = map Some errs @ errs'" using assms(1) by simp
  moreover have "None \<notin> set errs'"
  proof -
    from c(4) obtain es where "errs' = filter (\<lambda>e. e \<noteq> None) es" unfolding read_policies_def Let_def by (auto split: prod.splits simp del: filter.simps)
    then show ?thesis by auto
  qed
  ultimately show ?thesis by auto
qed

lemma getAllBids_sound:
  assumes "\<And>ws. set (arrival ws) = set ws" and "lookup (gb_bids (getAllBids k arrival brs)) b = Some sb"
  shows "\<exists>t. sb = Some t \<and> (\<forall>p\<in>set (sb_bids t). bid_at (gb_store (getAllBids k arrival brs)) p \<noteq> None)"
proof -
  obtain w s t where w: "w \<in> set (arrival (map (recoverSafely (runBidder k)) brs))" "wrapper_seat w = Some s" "sb = Some t"
    "holds_seat (gb_store (getAllBids k arrival brs)) t s" by (rule collectedD [OF getAllBids_collected [of arrival k brs] assms(2)])
  from w(1) have "w \<in> set (map (recoverSafely (runBidder k)) brs)" unfolding assms(1) .
  then obtain br where "w = recoverSafely (runBidder k) br" by auto
  with w(2) have br: "runBidder k br = Some w" by (auto simp: recoverSafely_def noData_def wrapper_seat_def split: option.splits)
  have "bid_at (gb_store (getAllBids k arrival brs)) p \<noteq> None" if p: "p \<in> set (sb_bids t)" for p
  proof -
    from w(4) p obtain nb where nb: "nb \<in> set (ns_bids s)" "st_pbs (gb_store (getAllBids k arrival brs)) p = Some (new_pbs p nb)"
      "st_bid (gb_store (getAllBids k arrival brs)) p = nb_bid nb" unfolding holds_seat_def list_all2_conv_all_nth by (metis in_set_conv_nth)
    with runBidder_valid [OF br w(2) nb(1)] show ?thesis by (auto simp: bid_at_def bid_ptr_def new_pbs_def validateBid_def split: option.splits)
  qed
  with w(3) show ?thesis by blast
qed

lemma getAllBids_good:
  assumes "\<And>ws. set (arrival ws) = set ws"
    and "distinct (seen_ids (gb_store (getAllBids k arrival brs)) (all_cands (gb_bids (getAllBids k arrival brs))))"
  shows "good_seats (gb_store (getAllBids k arrival brs)) (gb_bids (getAllBids k arrival brs))"
proof -
  let ?g = "getAllBids k arrival brs"
  have wf: "wf_map (gb_bids ?g)" using getAllBids_collected [of arrival k brs] by (simp add: collected_def)
  have "\<exists>t. s = Some t \<and> (\<forall>p\<in>set (sb_bids t). bid_at (gb_store ?g) p \<noteq> None)" if "(b, s) \<in> set (gb_bids ?g)" for b s
    using getAllBids_sound [OF assms(1)] that wf by (simp add: wf_map_lookup_iff)
  then have "sound_seats (gb_store ?g) (gb_bids ?g)" unfolding sound_seats_iff by blast
  with wf assms(2) show ?thesis unfolding good_seats_def sound_seats_def valid_seats_def using alive_pbs by blast
qed

lemma response_total:
  assumes sound: "\<And>b t p. lookup seats b = Some (Some t) \<Longrightarrow> p \<in> set (sb_bids t) \<Longrightarrow> bid_at H p \<noteq> None \<and> readable_ext (bid_Ext (the (bid_at H p)))"
  shows "\<exists>resp e extra'. buildBidResponse env H live seats req extra auc x rc = Some (resp, e, extra')"
proof -
  have "readable_bids H (seat_bids (Option.bind (lookup seats a) (\<lambda>s. s)))" for a
  proof (cases "Option.bind (lookup seats a) (\<lambda>s. s)")
    case (Some t)
    then have "lookup seats a = Some (Some t)" by (auto simp: bind_eq_Some_conv)
    then have "st_pbs H p \<noteq> None \<and> (case bid_at H p of None \<Rightarrow> False | Some b \<Rightarrow> readable_ext (bid_Ext b))" if "p \<in> set (sb_bids t)" for p
      using sound [OF _ that] alive_pbs by fastforce
    with Some show ?thesis unfolding readable_bids_def seat_bids_def by simp
  qed (simp add: readable_bids_def seat_bids_def)
  from seat_loop [where live = live and env = env and auc = auc and rc = rc and ss = "[]" and cur = "[]" and extra = extra, OF this] show ?thesis by (auto simp: buildBidResponse_def split: option.splits)
qed

text \<open>
  C2. An auction ends: when the extension of the request is not null, the request can be split and cleaned, no two bids have the same
  id, the extension of every bid is an object and the cache answers every value, \<open>HoldAuction\<close> does not panic whatever the bidders
  answer, in any order. It gives an error only for settings of competitive exclusion that name no known ad server, and
  otherwise a response.
\<close>

theorem auction_returns:
  assumes ext: "extractBidRequestExt (ar_BidRequest (rc_Request rc)) = Inr (Some prebid)" and clean: "cleaned_requests x ch (rc_Request rc) (Some prebid) = Some cr"
    and dl: "dl = (case debugLog of None \<Rightarrow> noDebugLog | Some d \<Rightarrow> d)"
    and g: "g = getAllBids (auction_asks x rc prebid (debug_info rc (Some prebid) dl) (dl_DebugOverride dl)) (ch_arrival ch) (cr_Requests cr)"
    and ids: "distinct (seen_ids (gb_store g) (all_cands (gb_bids g)))"
    and exts: "\<forall>(b, p)\<in>set (all_bids (gb_bids g)). readable_ext (bid_Ext (the (bid_at (gb_store g) p)))"
    and cache: "cache_answers (xc_cache x)" and order: "\<And>i s. mset (ch_iter ch i s) = mset s" "\<And>ws. set (ch_arrival ch ws) = set ws"
  shows "\<exists>out. HoldAuction x ch rc debugLog = Some out \<and>
    (\<forall>e. out = Inl e \<longrightarrow> (\<exists>t brand pg e'. xp_Targeting prebid = Some t \<and> tg_IncludeBrandCategory t = Some brand \<and> category_settings brand t pg = Inl e'))"
proof -
  let ?debug = "debug_info rc (Some prebid) dl" and ?td = "target_data x (Some prebid)" and ?account = "ar_Account (rc_Request rc)"
  let ?dl = "dl\<lparr>dl_Enabled := dl_DebugEnabledOrOverridden dl \<or> acc_DebugAllow ?account\<rparr>"
  let ?ev = "getEventTracking prebid (rc_Start rc) ?account (xc_bidderInfo x) (xc_externalURL x)"
  have good: "good_seats (gb_store g) (gb_bids g)" using getAllBids_good [OF order(2)] ids unfolding g by blast
  have td: "?td = None \<Longrightarrow> xp_Targeting prebid = None" by (simp add: target_data_def getExtTargetData_def)
  have "gb_extra g = []" if "cr_Requests cr = []" using that order(2) [of "[]"] by (simp add: g getAllBids_def)
  then have nil: "gb_extra g = [] \<or> None \<notin> set (cr_Errors cr)" using clean_no_nil_error [OF clean] by blast
  from run_auction_total [where ev = ?ev and req = "cr_Request cr" and account = ?account and start = "rc_Start rc" and dbg = ?debug and dl = ?dl, OF order(1) good cache td nil] obtain out where
    out: "run_auction x ch prebid ?ev (cr_Request cr) ?account (rc_Start rc) ?debug ?td g (cr_Errors cr) ?dl = Some out"
      "\<forall>e. out = Inl e \<longrightarrow> (\<exists>t brand pg e'. xp_Targeting prebid = Some t \<and> tg_IncludeBrandCategory t = Some brand \<and> category_settings brand t pg = Inl e')"
    by blast
  show ?thesis
  proof (cases out)
    case (Inl e)
    then show ?thesis using out by (simp add: HoldAuction_def ext clean Let_def flip: dl g)
  next
    case (Inr sr)
    obtain st r where sr: "sr = (st, r)" by (metis prod.exhaust)
    have wf: "wf_map (gb_bids g)" using good by (simp add: good_seats_def)
    from run_auction_ok [OF out(1) [unfolded Inr sr] order(1) wf] have k: "keeps (gb_store g) (as_store st)" and n: "narrowed (gb_bids g) (as_seats st)" by simp_all
    have "bid_at (as_store st) p \<noteq> None \<and> readable_ext (bid_Ext (the (bid_at (as_store st) p)))" if "lookup (as_seats st) b = Some (Some t)" "p \<in> set (sb_bids t)" for b t p
    proof -
      from n that(1) obtain t0 where t0: "lookup (gb_bids g) b = Some (Some t0)" "subseq (sb_bids t) (sb_bids t0)" unfolding narrowed_def by blast
      have "p \<in> set (sb_bids t0)" using list_emb_set [OF t0(2) that(2)] by auto
      with t0(1) wf have "(b, p) \<in> set (all_bids (gb_bids g))" by (intro in_all_bids [of b t0]) (simp_all add: wf_map_lookup_iff)
      with exts good obtain b0 where "bid_at (gb_store g) p = Some b0" "readable_ext (bid_Ext b0)" unfolding good_seats_def by fastforce
      with k obtain b1 where "bid_at (as_store st) p = Some b1" "same_offer b1 b0" unfolding keeps_def by blast
      with \<open>readable_ext (bid_Ext b0)\<close> show ?thesis by (cases b1; cases b0) (simp add: same_offer_def)
    qed
    then obtain resp e extra' where "buildBidResponse (xc_response x) (as_store st) (listBiddersWithRequests (ch_perm ch (length (cr_Requests cr))) (cr_Requests cr))
        (as_seats st) (cr_Request cr) (gb_extra g) (as_auction st)
        (final_warnings (\<not> acc_DebugAllow ?account \<and> getDebugInfo (ar_BidRequest (rc_Request rc)) (Some prebid) \<and> \<not> dl_DebugOverride dl) (rc_Warnings rc) r)
        (ei_returnCreative (getExtCacheInstructions (Some prebid))) = Some (resp, e, extra')"
      using response_total [where seats = "as_seats st" and H = "as_store st"] by metis
    with out Inr sr
    show ?thesis by (auto simp: HoldAuction_def ext clean Let_def simp flip: dl g)
  qed
qed

section \<open>Further properties\<close>

lemma randomizeList_perm:
  assumes "length perm = length xs" and "\<forall>j\<in>set perm. j < length xs"
  shows "mset (randomizeList perm xs) = mset xs"
proof -
  let ?P = "\<lambda>ys. length ys = length xs \<and> mset ys = mset xs"
  have "?P (randomizeList perm xs)" unfolding randomizeList_def
  proof (rule fold_invariant_set [where P = ?P])
    fix i ys assume "i \<in> set [0..<length xs]" and ys: "?P ys"
    then have "i < length ys" "perm ! i < length ys" using assms by simp_all
    with ys show "?P (ys[i := ys ! (perm ! i), perm ! i := ys ! i])" using mset_swap [of "perm ! i" ys i] by simp
  qed simp
  then show ?thesis by simp
qed

text \<open>Every adapter of the exchange is enabled and wrapped so that it sees only what it supports; every enabled bidder of the configuration has one.\<close>

lemma buildBidders_exact:
  assumes "buildBidders adapterConfig infos builders = (bidders, [])"
  shows "lookup bidders name = Some b \<Longrightarrow> \<exists>info b0. lookup infos name = Some info \<and> ds_Enabled info \<and> b = BuildInfoAwareBidder (parseBidderInfo (ds_Capabilities info)) b0"
    and "(bidder, c) \<in> set adapterConfig \<Longrightarrow> \<exists>name info. NormalizeBidderName bidder = Some name \<and> lookup infos name = Some info \<and>
      (ds_Enabled info \<longrightarrow> lookup bidders name \<noteq> None)"
proof -
  let ?P = "\<lambda>acc :: (bidderName, Bidder) gomap \<times> go_error list. \<forall>name b. lookup (fst acc) name = Some b \<longrightarrow>
    (\<exists>info b0. lookup infos name = Some info \<and> ds_Enabled info \<and> b = BuildInfoAwareBidder (parseBidderInfo (ds_Capabilities info)) b0)"
  have "?P (fold (build_step infos builders) adapterConfig ([], []))"
    by (rule fold_invariant_set) (auto simp: build_step_def split: prod.splits option.splits sum.splits)
  then show "lookup bidders name = Some b \<Longrightarrow> \<exists>info b0. lookup infos name = Some info \<and> ds_Enabled info \<and> b = BuildInfoAwareBidder (parseBidderInfo (ds_Capabilities info)) b0"
    using assms by (auto simp: buildBidders_def)
  have step: "snd acc = [] \<and> (\<forall>n. lookup (fst acc) n \<noteq> None \<longrightarrow> lookup (fst (build_step infos builders e acc)) n \<noteq> None) \<and>
      (\<exists>name info. NormalizeBidderName (fst e) = Some name \<and> lookup infos name = Some info \<and> (ds_Enabled info \<longrightarrow> lookup (fst (build_step infos builders e acc)) name \<noteq> None))"
    if "snd (build_step infos builders e acc) = []" for e acc
    using that by (auto simp: build_step_def split: prod.splits option.splits sum.splits if_splits)
  have grow: "snd acc = [] \<and> (\<forall>n. lookup (fst acc) n \<noteq> None \<longrightarrow> lookup (fst (fold (build_step infos builders) es acc)) n \<noteq> None)"
    if "snd (fold (build_step infos builders) es acc) = []" for es acc
    using that
  proof (induction es arbitrary: acc)
    case (Cons e es)
    from Cons.IH [of "build_step infos builders e acc"] Cons.prems step [of e acc] show ?case by simp
  qed simp
  assume "(bidder, c) \<in> set adapterConfig"
  then obtain xs ys where c: "adapterConfig = xs @ (bidder, c) # ys" by (meson split_list)
  let ?acc = "fold (build_step infos builders) xs ([], [])"
  have b: "bidders = fst (fold (build_step infos builders) ys (build_step infos builders (bidder, c) ?acc))"
    "snd (fold (build_step infos builders) ys (build_step infos builders (bidder, c) ?acc)) = []" using assms by (simp_all add: buildBidders_def c)
  from grow [OF b(2)] step [of "(bidder, c)" ?acc] show "\<exists>name info. NormalizeBidderName bidder = Some name \<and> lookup infos name = Some info \<and>
      (ds_Enabled info \<longrightarrow> lookup bidders name \<noteq> None)" unfolding b(1) by (metis fst_conv)
qed

text \<open>A panic in the goroutine of a bidder is recorded under the empty name, without an error.\<close>

lemma panic_unnamed:
  assumes "runBidder k br = None"
  shows "gb_extra (getAllBids k (\<lambda>ws. ws) [br]) = [([], bw_adapterExtra noData)]"
  using assms by (simp add: getAllBids_def recoverSafely_def collect_step_def noData_def Let_def seat_bids_def)

text \<open>An extension that is the JSON value null leaves a nil pointer, which the auction dereferences.\<close>

lemma null_ext_panics:
  "req_Ext (ar_BidRequest (rc_Request rc)) = Raw JNull \<Longrightarrow> HoldAuction x ch rc dl = None"
  by (simp add: HoldAuction_def extractBidRequestExt_def Let_def split: option.splits)

section \<open>An auction\<close>

text \<open>Two bidders are asked; the one without an adapter panics, the other offers one bid.\<close>

definition simple_adapter :: Bidder where
  "simple_adapter = \<lparr>makeRequests = (\<lambda>request. ([\<lparr>rq_Method = ''POST'', rq_Uri = ''u'', rq_Body = [], rq_Headers = None\<rparr>], [], request)),
     makeBids = (\<lambda>request call answer. (Some \<lparr>rs_Currency = ''USD'', rs_Bids = [\<lparr>tb_Bid = Some (Auction.example_bid ''a'' (Fin 1) []), tb_BidType = ''banner'',
       tb_BidVideo = None, tb_DealPriority = 0\<rparr>]\<rparr>, []))\<rparr>"

definition simple_exchange :: exchange where
  "simple_exchange = \<lparr>xc_adapters = [(''appnexus'', \<lparr>xa_Bidder = simple_adapter, xa_DebugAllow = True, xa_http = (\<lambda>_ _. HttpResponse 200 [] []),
       xa_arrival = (\<lambda>cs. cs), xa_millis = 7\<rparr>)],
     xc_native = example_codec, xc_parseISO = example_parse_currency, xc_rates = NewRateConverter [] 0, xc_gdpr = AlwaysAllow, xc_gdprDefault = SignalNo,
     xc_privacy = example_privacy, xc_cache = example_env, xc_cacheTime = 0, xc_response = response_example, xc_generateIDs = False, xc_bidderInfo = [],
     xc_externalURL = [], xc_fetchCategory = (\<lambda>_ _ _. Inr []), xc_marshalExt = (\<lambda>_. Inr []), xc_getAliases = example_get_aliases, xc_parseConsent = example_parse\<rparr>"

definition simple_chance :: chance where
  "simple_chance = \<lparr>ch_bidders = (\<lambda>m. m), ch_perm = (\<lambda>n. [0..<n]), ch_arrival = rev, ch_iter = (\<lambda>_ s. s), ch_coin = (\<lambda>_. True), ch_newID = (\<lambda>_. ([], False))\<rparr>"

definition simple_call :: auction_call where
  "simple_call = \<lparr>rc_Request = example_auction_request None, rc_Start = None, rc_Warnings = [], rc_GPC = [], rc_Deadline = None\<rparr>"

lemma simple_auction:
  "map_option (map_sum (\<lambda>e. ()) (\<lambda>(resp, e, dl). map (\<lambda>s. (seat_Seat s, map bid_ID (seat_Bid s))) (br_SeatBid resp))) (HoldAuction simple_exchange simple_chance simple_call None)
   = Some (Inr [(''appnexus'', [''a''])])"
  by code_simp

definition simple_requests :: "BidderRequest list" where
  "simple_requests = map (\<lambda>b. \<lparr>br_BidRequest = example_bid_request, br_BidderName = b, br_BidderCoreName = b, br_BidderLabels = \<lparr>al_Source = [],
     al_RType = ReqTypeORTB2Web, al_Adapter = b, al_PubID = [], al_CookieFlag = CookieFlagYes, al_AdapterBids = AdapterBidNone\<rparr>\<rparr>) [''rubicon'', ''appnexus'']"

abbreviation simple_asks :: ask_env where
  "simple_asks \<equiv> auction_asks simple_exchange simple_call zeroPrebid False False"

theorem bids_collected_witness:
  "lookup (gb_extra (getAllBids simple_asks rev simple_requests)) ''rubicon'' = None \<and>
   (\<exists>t. lookup (gb_bids (getAllBids simple_asks rev simple_requests)) ''appnexus'' = Some (Some t) \<and> length (sb_bids t) = 1)"
proof -
  let ?r = "simple_requests ! 0" and ?a = "simple_requests ! 1"
  have names: "map br_BidderName simple_requests = [''rubicon'', ''appnexus'']" by (simp add: simple_requests_def)
  have mem: "?r \<in> set simple_requests" "?a \<in> set simple_requests" by (simp_all add: simple_requests_def)
  have own: "br_BidderName ?r = ''rubicon''" "br_BidderName ?a = ''appnexus''" by (simp_all add: simple_requests_def)
  have d: "distinct (map br_BidderName simple_requests)" "[] \<notin> set (map br_BidderName simple_requests)" by (simp_all add: names)
  have "runBidder simple_asks ?r = None" by code_simp
  moreover have "map_option (\<lambda>w. map_option (length \<circ> ns_bids) (wrapper_seat w)) (runBidder simple_asks ?a) = Some (Some 1)" by code_simp
  then obtain w s where "runBidder simple_asks ?a = Some w" "wrapper_seat w = Some s" "length (ns_bids s) = 1" by auto
  ultimately show ?thesis
    using bids_collected [OF mset_rev d mem(1), of simple_asks] bids_collected [OF mset_rev d mem(2), of simple_asks]
    by (auto simp: own [simplified] holds_seat_def dest: list_all2_lengthD)
qed

theorem response_from_bidders_witness:
  "\<exists>resp e dl seat prebid cr br. HoldAuction simple_exchange simple_chance simple_call None = Some (Inr (resp, e, dl)) \<and> seat \<in> set (br_SeatBid resp) \<and>
     cleaned_requests simple_exchange simple_chance (rc_Request simple_call) (Some prebid) = Some cr \<and> br \<in> set (cr_Requests cr) \<and> br_BidderName br = ''appnexus''"
proof -
  from simple_auction obtain resp e dl where h: "HoldAuction simple_exchange simple_chance simple_call None = Some (Inr (resp, e, dl))"
    and s: "map (\<lambda>s. (seat_Seat s, map bid_ID (seat_Bid s))) (br_SeatBid resp) = [(''appnexus'', [''a''])]" 
    by (cases "the (HoldAuction simple_exchange simple_chance simple_call None)") auto
  from s obtain seat where seat: "seat \<in> set (br_SeatBid resp)" "seat_Seat seat = ''appnexus''" by (cases "br_SeatBid resp") auto
  have "set (ch_arrival simple_chance ws) = set ws" "mset (ch_iter simple_chance i t) = mset t" for ws i t by (simp_all add: simple_chance_def)
  from response_from_bidders [OF h this seat(1)] h seat show ?thesis by metis
qed

lemma simple_cleaned:
  "extractBidRequestExt (ar_BidRequest (rc_Request simple_call)) = Inr (Some zeroPrebid)"
  "map_option (\<lambda>cr. let g = getAllBids (auction_asks simple_exchange simple_call zeroPrebid (debug_info simple_call (Some zeroPrebid) noDebugLog) (dl_DebugOverride noDebugLog))
       (ch_arrival simple_chance) (cr_Requests cr)
     in distinct (seen_ids (gb_store g) (all_cands (gb_bids g))) \<and> (\<forall>(b, p)\<in>set (all_bids (gb_bids g)). readable_ext (bid_Ext (the (bid_at (gb_store g) p)))))
     (cleaned_requests simple_exchange simple_chance (rc_Request simple_call) (Some zeroPrebid)) = Some True"
  by code_simp+

theorem auction_returns_witness:
  "\<exists>resp. HoldAuction simple_exchange simple_chance simple_call None = Some (Inr resp)"
proof -
  let ?g = "\<lambda>cr. getAllBids (auction_asks simple_exchange simple_call zeroPrebid (debug_info simple_call (Some zeroPrebid) noDebugLog) (dl_DebugOverride noDebugLog))
       (ch_arrival simple_chance) (cr_Requests cr)"
  from simple_cleaned(2) obtain cr where cr: "cleaned_requests simple_exchange simple_chance (rc_Request simple_call) (Some zeroPrebid) = Some cr"
    and ok: "distinct (seen_ids (gb_store (?g cr)) (all_cands (gb_bids (?g cr))))" "\<forall>(b, p)\<in>set (all_bids (gb_bids (?g cr))). readable_ext (bid_Ext (the (bid_at (gb_store (?g cr)) p)))"
    by (auto simp: Let_def)
  have cache: "cache_answers (xc_cache simple_exchange)" by (simp add: cache_answers_def simple_exchange_def example_env_def)
  have dl: "noDebugLog = (case None of None \<Rightarrow> noDebugLog | Some d \<Rightarrow> d)" by simp
  have order: "mset (ch_iter simple_chance i s) = mset s" "set (ch_arrival simple_chance ws) = set ws" for i s ws by (simp_all add: simple_chance_def)
  from auction_returns [OF simple_cleaned(1) cr dl refl ok cache order]
  obtain out where "HoldAuction simple_exchange simple_chance simple_call None = Some out"
    "\<forall>e. out = Inl e \<longrightarrow> (\<exists>t brand pg e'. xp_Targeting zeroPrebid = Some t \<and> tg_IncludeBrandCategory t = Some brand \<and> category_settings brand t pg = Inl e')"
    by blast
  moreover have "xp_Targeting zeroPrebid = None" by (simp add: zeroPrebid_def)
  ultimately show ?thesis by (cases out) auto
qed

end
