(* ===== verification/Stored_Cache.thy ===== *)
theory Stored_Cache
  imports Prelude
begin

text \<open>
  The caches of stored requests: the interface \<open>CacheJSON\<close> and \<open>ComposedCache\<close> of
  \<open>stored_requests/fetcher.go\<close>, the memory caches of \<open>caches/memory\<close> over a map-like store, and
  \<open>caches/nil_cache\<close>. A cached value is of an arbitrary type, since no cache looks into it. The state of
  a cache is passed explicitly; reading may change it, because an LRU cache notes the access and drops
  what has expired. The package freecache is the argument of the LRU wrapper. What a cache promises is
  the locale \<open>json_cache\<close>: \<open>holds s c\<close> says that the state \<open>s\<close> holds no value other than those of
  the contents \<open>c\<close>.
\<close>

type_synonym 'v data = "(string, 'v) gomap"

record ('s, 'v) CacheJSON =
  cache_Get :: "'s \<Rightarrow> string list \<Rightarrow> 'v data \<times> 's"
  cache_Invalidate :: "string list \<Rightarrow> 's \<Rightarrow> 's"
  cache_Save :: "'v data \<Rightarrow> 's \<Rightarrow> 's"

section \<open>Composed caches\<close>

text \<open>The data and the ids that remain; a cache that gives nothing leaves the ids as they are.\<close>

definition updateFromCache :: "'v data \<Rightarrow> string list \<Rightarrow> 'v data \<Rightarrow> 'v data \<times> string list" where
  "updateFromCache dat ids newData =
     (if newData = [] then (dat, ids)
      else (fold (\<lambda>i d. case lookup newData i of Some v \<Rightarrow> put i v d | None \<Rightarrow> d) ids dat,
            filter (\<lambda>i. lookup newData i = None) ids))"

fun composed_loop :: "('s, 'v) CacheJSON \<Rightarrow> 's list \<Rightarrow> 'v data \<Rightarrow> string list \<Rightarrow> 'v data \<times> 's list" where
  "composed_loop c [] dat ids = (dat, [])"
| "composed_loop c (s # ss) dat ids =
     (let (cached, s') = cache_Get c s ids; (dat', rest) = updateFromCache dat ids cached
      in if rest = [] then (dat', s' # ss)
         else (let (dat'', ss') = composed_loop c ss dat' rest in (dat'', s' # ss')))"

definition ComposedCache :: "('s, 'v) CacheJSON \<Rightarrow> ('s list, 'v) CacheJSON" where
  "ComposedCache c = \<lparr>cache_Get = (\<lambda>ss ids. composed_loop c ss [] ids),
     cache_Invalidate = (\<lambda>ids. map (cache_Invalidate c ids)),
     cache_Save = (\<lambda>d. map (cache_Save c d))\<rparr>"

section \<open>Memory caches\<close>

record ('m, 'v) mapLike =
  ml_Get :: "'m \<Rightarrow> string \<Rightarrow> 'v option \<times> 'm"
  ml_Set :: "string \<Rightarrow> 'v \<Rightarrow> 'm \<Rightarrow> 'm"
  ml_Delete :: "string \<Rightarrow> 'm \<Rightarrow> 'm"

definition pbsSyncMap :: "('v data, 'v) mapLike" where
  "pbsSyncMap = \<lparr>ml_Get = (\<lambda>m i. (lookup m i, m)), ml_Set = put, ml_Delete = del\<rparr>"

text \<open>\<open>freecache.Cache\<close>: a get gives a value or an error, a set may fail, for instance on a value too large.\<close>

datatype freecache_error = ErrNotFound | ErrLargeKey | ErrLargeEntry

record ('f, 'v) freecache =
  fc_Get :: "'f \<Rightarrow> string \<Rightarrow> (freecache_error + 'v) \<times> 'f"
  fc_Set :: "'f \<Rightarrow> string \<Rightarrow> 'v \<Rightarrow> int \<Rightarrow> freecache_error option \<times> 'f"
  fc_Del :: "'f \<Rightarrow> string \<Rightarrow> 'f"

definition pbsLRUCache :: "('f, 'v) freecache \<Rightarrow> int \<Rightarrow> ('f, 'v) mapLike" where
  "pbsLRUCache fc ttlSeconds = \<lparr>
     ml_Get = (\<lambda>f i. case fc_Get fc f i of (Inr v, f') \<Rightarrow> (Some v, f') | (Inl e, f') \<Rightarrow> (None, f')),
     ml_Set = (\<lambda>i v f. snd (fc_Set fc f i v ttlSeconds)),
     ml_Delete = (\<lambda>i f. fc_Del fc f i)\<rparr>"

fun memory_Get :: "('m, 'v) mapLike \<Rightarrow> 'm \<Rightarrow> string list \<Rightarrow> 'v data \<Rightarrow> 'v data \<times> 'm" where
  "memory_Get ml m [] dat = (dat, m)"
| "memory_Get ml m (i # ids) dat =
     (case ml_Get ml m i of
        (Some v, m') \<Rightarrow> memory_Get ml m' ids (put i v dat)
      | (None, m') \<Rightarrow> memory_Get ml m' ids dat)"

definition memory_cache :: "('m, 'v) mapLike \<Rightarrow> ('m, 'v) CacheJSON" where
  "memory_cache ml = \<lparr>cache_Get = (\<lambda>m ids. memory_Get ml m ids []),
     cache_Invalidate = fold (ml_Delete ml),
     cache_Save = fold (\<lambda>kv. ml_Set ml (fst kv) (snd kv))\<rparr>"

definition NilCache :: "('s, 'v) CacheJSON" where
  "NilCache = \<lparr>cache_Get = (\<lambda>s ids. ([], s)), cache_Invalidate = (\<lambda>ids s. s), cache_Save = (\<lambda>d s. s)\<rparr>"

text \<open>
  What \<open>NewCache\<close> sets up. It ends the process for a time to live without a size.
\<close>

datatype cache_kind = LRU int int | Unbounded

definition NewCache :: "int \<Rightarrow> int \<Rightarrow> cache_kind option" where
  "NewCache maxSize ttl =
     (if ttl > 0 \<and> maxSize \<le> 0 then None
      else if maxSize > 0 then Some (LRU maxSize ttl) else Some Unbounded)"

section \<open>The contract of a map-like store\<close>

locale map_like =
  fixes ml :: "('m, 'v) mapLike" and holds :: "'m \<Rightarrow> (string \<Rightarrow> 'v option) \<Rightarrow> bool"
  assumes get_holds: "holds m c \<Longrightarrow> ml_Get ml m i = (r, m') \<Longrightarrow> holds m' c"
    and get_sound: "holds m c \<Longrightarrow> ml_Get ml m i = (Some v, m') \<Longrightarrow> c i = Some v"
    and set_holds: "holds m c \<Longrightarrow> holds (ml_Set ml i v m) (c(i \<mapsto> v))"
    and delete_holds: "holds m c \<Longrightarrow> holds (ml_Delete ml i m) (c(i := None))"
begin

lemma memory_Get_ok:
  assumes "holds m c" and "wf_map dat" and "memory_Get ml m ids dat = (dat', m')"
  shows "holds m' c \<and> wf_map dat' \<and>
    (\<forall>k v. lookup dat' k = Some v \<longrightarrow> lookup dat k = Some v \<or> k \<in> set ids \<and> c k = Some v)"
  using assms
proof (induction ids arbitrary: m dat)
  case Nil
  then show ?case by simp
next
  case (Cons i ids)
  obtain r m1 where g: "ml_Get ml m i = (r, m1)" by (cases "ml_Get ml m i")
  have m1: "holds m1 c" using get_holds [OF Cons.prems(1) g] .
  show ?case
  proof (cases r)
    case None
    with Cons.IH [OF m1 Cons.prems(2)] Cons.prems(3) g show ?thesis by fastforce
  next
    case (Some v)
    have "c i = Some v" using get_sound [OF Cons.prems(1)] g Some by simp
    have "holds m' c \<and> wf_map dat' \<and>
      (\<forall>k w. lookup dat' k = Some w \<longrightarrow> lookup (put i v dat) k = Some w \<or> k \<in> set ids \<and> c k = Some w)"
      by (rule Cons.IH [OF m1]) (use Cons.prems Some g in simp_all)
    with \<open>c i = Some v\<close> show ?thesis by (auto split: if_splits)
  qed
qed

lemma save_holds:
  assumes "holds m c" and "wf_map d"
  shows "holds (fold (\<lambda>kv. ml_Set ml (fst kv) (snd kv)) d m) (c ++ lookup d)"
  using assms
proof (induction d arbitrary: m c)
  case Nil
  then show ?case by simp
next
  case (Cons kv d)
  obtain k v where kv: "kv = (k, v)" by (cases kv)
  have d: "lookup d k = None" "wf_map d" using Cons.prems(2) kv by (auto simp: wf_map_def map_of_eq_None_iff)
  have "(c(k \<mapsto> v)) ++ lookup d = c ++ lookup (kv # d)"
    using d(1) by (auto simp: kv map_add_def fun_eq_iff split: option.splits)
  with Cons.IH [OF set_holds [OF Cons.prems(1)] d(2), of k v] show ?case by (simp only: kv fold_simps fst_conv snd_conv)
qed

lemma invalidate_holds:
  assumes "holds m c"
  shows "holds (fold (ml_Delete ml) ids m) (c |` (- set ids))"
  using assms
proof (induction ids arbitrary: m c)
  case Nil
  then show ?case by (simp add: restrict_map_def)
next
  case (Cons i ids)
  have "(c(i := None)) |` (- set ids) = c |` (- set (i # ids))" by (auto simp: restrict_map_def fun_eq_iff)
  with Cons.IH [OF delete_holds [OF Cons.prems], of i] show ?case by (simp only: fold_simps)
qed

end

section \<open>The contract of a cache\<close>

locale json_cache =
  fixes cache :: "('s, 'v) CacheJSON" and holds :: "'s \<Rightarrow> (string \<Rightarrow> 'v option) \<Rightarrow> bool"
  assumes Get_holds: "holds s c \<Longrightarrow> cache_Get cache s ids = (d, s') \<Longrightarrow> holds s' c \<and> wf_map d"
    and Get_sound: "holds s c \<Longrightarrow> cache_Get cache s ids = (d, s') \<Longrightarrow> lookup d k = Some v \<Longrightarrow> k \<in> set ids \<and> c k = Some v"
    and Save_holds: "holds s c \<Longrightarrow> wf_map d \<Longrightarrow> holds (cache_Save cache d s) (c ++ lookup d)"
    and Invalidate_holds: "holds s c \<Longrightarrow> holds (cache_Invalidate cache ids s) (c |` (- set ids))"
begin

lemma updateFromCache_ok:
  assumes "holds s c" and "cache_Get cache s ids = (cached, s')" and "wf_map dat"
    and "updateFromCache dat ids cached = (dat', rest)"
  shows "wf_map dat' \<and> set rest \<subseteq> set ids \<and>
    (\<forall>k v. lookup dat' k = Some v \<longrightarrow> lookup dat k = Some v \<or> k \<in> set ids \<and> c k = Some v)"
proof -
  have step: "wf_map d' \<and> (\<forall>k v. lookup d' k = Some v \<longrightarrow> lookup d k = Some v \<or> k \<in> set is \<and> lookup cached k = Some v)"
    if "wf_map d" "d' = fold (\<lambda>i d. case lookup cached i of Some v \<Rightarrow> put i v d | None \<Rightarrow> d) is d" for d d' "is"
    using that
  proof (induction "is" arbitrary: d)
    case Nil
    then show ?case by simp
  next
    case (Cons i ids')
    show ?case
    proof (cases "lookup cached i")
      case None
      with Cons.IH [OF Cons.prems(1)] Cons.prems(2) show ?thesis by fastforce
    next
      case (Some w)
      have "wf_map d' \<and> (\<forall>k v. lookup d' k = Some v \<longrightarrow> lookup (put i w d) k = Some v \<or> k \<in> set ids' \<and> lookup cached k = Some v)"
        by (rule Cons.IH) (use Cons.prems Some in simp_all)
      with Some show ?thesis by (auto split: if_splits)
    qed
  qed
  from assms Get_sound [OF assms(1,2)] step [OF assms(3), of _ ids] show ?thesis
    by (auto simp: updateFromCache_def split: if_splits)
qed

lemma composed_loop_ok:
  assumes "list_all (\<lambda>s. holds s c) ss" and "wf_map dat" and "composed_loop cache ss dat ids = (dat', ss')"
  shows "list_all (\<lambda>s. holds s c) ss' \<and> wf_map dat' \<and>
    (\<forall>k v. lookup dat' k = Some v \<longrightarrow> lookup dat k = Some v \<or> k \<in> set ids \<and> c k = Some v)"
  using assms
proof (induction ss arbitrary: dat ids dat' ss')
  case Nil
  then show ?case by simp
next
  case (Cons s ss)
  obtain cached s1 where g: "cache_Get cache s ids = (cached, s1)" by (cases "cache_Get cache s ids")
  obtain d1 rest where u: "updateFromCache dat ids cached = (d1, rest)" by (cases "updateFromCache dat ids cached")
  have s: "holds s c" using Cons.prems(1) by simp
  have s1: "holds s1 c" using Get_holds [OF s g] by simp
  note u_ok = updateFromCache_ok [OF s g Cons.prems(2) u]
  show ?case
  proof (cases "rest = []")
    case True
    with Cons.prems g u s1 u_ok show ?thesis by auto
  next
    case False
    obtain d2 ss2 where l: "composed_loop cache ss d1 rest = (d2, ss2)" by (cases "composed_loop cache ss d1 rest")
    have "list_all (\<lambda>s. holds s c) ss" using Cons.prems(1) by simp
    from Cons.IH [OF this conjunct1 [OF u_ok] l] have l_ok: "list_all (\<lambda>s. holds s c) ss2 \<and> wf_map d2 \<and>
      (\<forall>k v. lookup d2 k = Some v \<longrightarrow> lookup d1 k = Some v \<or> k \<in> set rest \<and> c k = Some v)" .
    have r: "dat' = d2" "ss' = s1 # ss2" using Cons.prems(3) False g u l by simp_all
    show ?thesis unfolding r using l_ok s1 u_ok by (auto dest!: subsetD)
  qed
qed

lemma composed_json_cache: "json_cache (ComposedCache cache) (\<lambda>ss c. list_all (\<lambda>s. holds s c) ss)"
proof unfold_locales
  fix ss c ids d ss'
  assume a: "list_all (\<lambda>s. holds s c) ss" "cache_Get (ComposedCache cache) ss ids = (d, ss')"
  then have l: "composed_loop cache ss [] ids = (d, ss')" by (simp add: ComposedCache_def)
  show "list_all (\<lambda>s. holds s c) ss' \<and> wf_map d" using composed_loop_ok [OF a(1) wf_map_Nil l] by simp
  show "lookup d k = Some v \<Longrightarrow> k \<in> set ids \<and> c k = Some v" for k v
    using composed_loop_ok [OF a(1) wf_map_Nil l] by simp
qed (auto simp: ComposedCache_def list_all_iff Save_holds Invalidate_holds)

end

section \<open>The caches of the server keep the contract\<close>

sublocale map_like \<subseteq> mem: json_cache "memory_cache ml" holds
  by unfold_locales (auto simp: memory_cache_def save_holds invalidate_holds dest: memory_Get_ok [OF _ wf_map_Nil])

text \<open>An unbounded cache holds what was saved and not invalidated since.\<close>

definition sync_holds :: "'v data \<Rightarrow> (string \<Rightarrow> 'v option) \<Rightarrow> bool" where
  "sync_holds m c = (lookup m \<subseteq>\<^sub>m c)"

interpretation sync: map_like pbsSyncMap sync_holds
  by unfold_locales (auto simp: pbsSyncMap_def sync_holds_def map_le_def dom_def split: if_splits)

interpretation composed: json_cache "ComposedCache (memory_cache pbsSyncMap)" "\<lambda>ss c. list_all (\<lambda>s. sync_holds s c) ss"
  by (rule sync.mem.composed_json_cache)

interpretation nilc: json_cache "NilCache :: (unit, 'v) CacheJSON" "\<lambda>s c. True"
  by unfold_locales (auto simp: NilCache_def)

text \<open>
  The LRU cache, for a freecache that returns only values that were set under the key and not deleted
  or overwritten since, and that stores every value it is given; it may lose any value at any time. Without the
  second condition the law of \<open>ml_Set\<close> fails: the wrapper only logs the error for a value that is too large,
  and the former value of the id stays.
\<close>

lemma lru_map_like:
  assumes "\<And>f c i r f'. fholds f c \<Longrightarrow> fc_Get fc f i = (r, f') \<Longrightarrow> fholds f' c \<and> (\<forall>v. r = Inr v \<longrightarrow> c i = Some v)"
    and "\<And>f c i v e f'. fholds f c \<Longrightarrow> fc_Set fc f i v ttl = (e, f') \<Longrightarrow> fholds f' (if e = None then c(i \<mapsto> v) else c)"
    and "\<And>f i v. fst (fc_Set fc f i v ttl) = None"
    and "\<And>f c i. fholds f c \<Longrightarrow> fholds (fc_Del fc f i) (c(i := None))"
  shows "map_like (pbsLRUCache fc ttl) fholds"
proof unfold_locales
  show "fholds (ml_Set (pbsLRUCache fc ttl) i v f) (c(i \<mapsto> v))" if "fholds f c" for f c i v
    using assms(2) [OF that surjective_pairing] assms(3) by (simp add: pbsLRUCache_def)
qed (use assms(1,4) in \<open>auto simp: pbsLRUCache_def split: prod.splits sum.splits\<close>)

end
