(* ===== verification/Stored_Fetch.thy ===== *)
theory Stored_Fetch
  imports Account Stored_Cache
begin

text \<open>
  Fetching stored requests, impressions, accounts and categories: \<open>fetcherWithCache\<close> of
  \<open>stored_requests/fetcher.go\<close>, \<open>MultiFetcher\<close>, and the backends for the file system, a database, an
  HTTP endpoint and nothing at all. A fetcher passes its state on explicitly. The directory tree is the
  value that reading it gives; the database and the HTTP endpoint are arguments. The promise of a
  fetcher is the locale \<open>stored_source\<close>.
\<close>

section \<open>The interface\<close>

record ('w, 'v) AllFetcher =
  fetchRequests :: "'w \<Rightarrow> string list \<Rightarrow> string list \<Rightarrow> ('v data \<times> 'v data \<times> fetch_error list) \<times> 'w"
  fetchAccount :: "'w \<Rightarrow> string \<Rightarrow> ('v option \<times> fetch_error list) \<times> 'w"
  fetchCategories :: "'w \<Rightarrow> string \<Rightarrow> string \<Rightarrow> string \<Rightarrow> (string \<times> fetch_error option) \<times> 'w"

record Category =
  cat_Id :: string
  cat_Name :: string

section \<open>Fetching through a cache\<close>

text \<open>The cache of accounts may hold the nil message, here None.\<close>

record ('s, 'a, 'v) Cache =
  Requests :: "('s, 'v) CacheJSON"
  Imps :: "('s, 'v) CacheJSON"
  Accounts :: "('a, 'v option) CacheJSON"

record ('s, 'a, 'w) cached_world =
  cw_Requests :: 's
  cw_Imps :: 's
  cw_Accounts :: 'a
  cw_Backend :: 'w

definition findLeftovers :: "string list \<Rightarrow> 'v data \<Rightarrow> string list" where
  "findLeftovers ids dat = filter (\<lambda>i. lookup dat i = None) ids"

definition mergeData :: "'v data \<Rightarrow> 'v data \<Rightarrow> 'v data" where
  "mergeData cachedData fetchedData = fold (\<lambda>kv. put (fst kv) (snd kv)) fetchedData cachedData"

definition cached_FetchRequests ::
  "('w, 'v) AllFetcher \<Rightarrow> ('s, 'a, 'v) Cache \<Rightarrow> ('s, 'a, 'w) cached_world \<Rightarrow> string list \<Rightarrow> string list
     \<Rightarrow> ('v data \<times> 'v data \<times> fetch_error list) \<times> ('s, 'a, 'w) cached_world" where
  "cached_FetchRequests f cache w requestIDs impIDs =
     (let (requestData, sr) = cache_Get (Requests cache) (cw_Requests w) requestIDs;
          (impData, si) = cache_Get (Imps cache) (cw_Imps w) impIDs;
          leftoverImps = findLeftovers impIDs impData;
          leftoverReqs = findLeftovers requestIDs requestData;
          w1 = w\<lparr>cw_Requests := sr, cw_Imps := si\<rparr>
      in if leftoverReqs \<noteq> [] \<or> leftoverImps \<noteq> []
         then (let ((fetcherReqData, fetcherImpData, errs), b) = fetchRequests f (cw_Backend w) leftoverReqs leftoverImps
               in ((mergeData requestData fetcherReqData, mergeData impData fetcherImpData, errs),
                   w1\<lparr>cw_Requests := cache_Save (Requests cache) fetcherReqData sr,
                      cw_Imps := cache_Save (Imps cache) fetcherImpData si, cw_Backend := b\<rparr>))
         else ((requestData, impData, []), w1))"

definition cached_FetchAccount ::
  "('w, 'v) AllFetcher \<Rightarrow> ('s, 'a, 'v) Cache \<Rightarrow> ('s, 'a, 'w) cached_world \<Rightarrow> string
     \<Rightarrow> ('v option \<times> fetch_error list) \<times> ('s, 'a, 'w) cached_world" where
  "cached_FetchAccount f cache w accountID =
     (let (accountData, sa) = cache_Get (Accounts cache) (cw_Accounts w) [accountID];
          w1 = w\<lparr>cw_Accounts := sa\<rparr>
      in case lookup accountData accountID of
           Some account \<Rightarrow> ((account, []), w1)
         | None \<Rightarrow>
             (let ((account, errs), b) = fetchAccount f (cw_Backend w) accountID; w2 = w1\<lparr>cw_Backend := b\<rparr>
              in ((account, errs),
                  if errs = [] then w2\<lparr>cw_Accounts := cache_Save (Accounts cache) [(accountID, account)] sa\<rparr> else w2)))"

definition WithCache :: "('w, 'v) AllFetcher \<Rightarrow> ('s, 'a, 'v) Cache \<Rightarrow> (('s, 'a, 'w) cached_world, 'v) AllFetcher" where
  "WithCache f cache = \<lparr>fetchRequests = cached_FetchRequests f cache, fetchAccount = cached_FetchAccount f cache,
     fetchCategories = (\<lambda>w primaryAdServer publisherId iabCategory. (([], None), w))\<rparr>"

section \<open>Several fetchers\<close>

definition is_not_found :: "fetch_error \<Rightarrow> bool" where
  "is_not_found e = (case e of NotFoundError i t \<Rightarrow> True | FetchError g \<Rightarrow> False)"

definition dropMissingIDs :: "fetch_error list \<Rightarrow> fetch_error list" where
  "dropMissingIDs errs = filter (\<lambda>e. \<not> is_not_found e) errs"

definition addAll :: "'v data \<Rightarrow> 'v data \<Rightarrow> 'v data" where
  "addAll dat toAdd = fold (\<lambda>kv. put (fst kv) (snd kv)) toAdd dat"

definition filter_ids :: "string list \<Rightarrow> 'v data \<Rightarrow> string list" where
  "filter_ids original exclude = (if exclude = [] then original else filter (\<lambda>i. lookup exclude i = None) original)"

definition appendNotFoundErrors :: "string \<Rightarrow> string list \<Rightarrow> 'v data \<Rightarrow> fetch_error list \<Rightarrow> fetch_error list" where
  "appendNotFoundErrors dataType expected contains errs =
     errs @ map (\<lambda>i. NotFoundError i dataType) (filter (\<lambda>i. lookup contains i = None) expected)"

fun multi_loop ::
  "('w, 'v) AllFetcher list \<Rightarrow> string list \<Rightarrow> string list \<Rightarrow> 'v data \<Rightarrow> 'v data \<Rightarrow> fetch_error list \<Rightarrow> 'w
     \<Rightarrow> (string list \<times> string list \<times> 'v data \<times> 'v data \<times> fetch_error list) \<times> 'w" where
  "multi_loop [] requestIDs impIDs requestData impData errs w = ((requestIDs, impIDs, requestData, impData, errs), w)"
| "multi_loop (f # mf) requestIDs impIDs requestData impData errs w =
     (let remainingRequestIDs = filter_ids requestIDs requestData; remainingImpIDs = filter_ids impIDs impData;
          ((theseRequestData, theseImpData, rerrs), w') = fetchRequests f w remainingRequestIDs remainingImpIDs
      in multi_loop mf remainingRequestIDs remainingImpIDs (addAll requestData theseRequestData) (addAll impData theseImpData)
           (errs @ dropMissingIDs rerrs) w')"

definition multi_FetchRequests ::
  "('w, 'v) AllFetcher list \<Rightarrow> 'w \<Rightarrow> string list \<Rightarrow> string list \<Rightarrow> ('v data \<times> 'v data \<times> fetch_error list) \<times> 'w" where
  "multi_FetchRequests mf w requestIDs impIDs =
     (let ((rids, iids, requestData, impData, errs), w') = multi_loop mf requestIDs impIDs [] [] [] w;
          errs1 = appendNotFoundErrors ''Request'' rids requestData errs
      in ((requestData, impData, appendNotFoundErrors ''Imp'' iids impData errs1), w'))"

fun multi_FetchAccount :: "('w, 'v) AllFetcher list \<Rightarrow> 'w \<Rightarrow> string \<Rightarrow> ('v option \<times> fetch_error list) \<times> 'w" where
  "multi_FetchAccount [] w accountID = ((None, [NotFoundError accountID ''Account'']), w)"
| "multi_FetchAccount (f # mf) w accountID =
     (let ((account, accErrs), w') = fetchAccount f w accountID
      in if accErrs = [] then ((account, []), w')
         else (let ((account', errs), w'') = multi_FetchAccount mf w' accountID
               in ((account', if errs = [] then [] else dropMissingIDs accErrs @ errs), w'')))"

fun multi_FetchCategories ::
  "('w, 'v) AllFetcher list \<Rightarrow> 'w \<Rightarrow> string \<Rightarrow> string \<Rightarrow> string \<Rightarrow> (string \<times> fetch_error option) \<times> 'w" where
  "multi_FetchCategories [] w primaryAdServer publisherId iabCategory =
     (([], Some (NotFoundError (primaryAdServer @ ''_'' @ publisherId @ ''.'' @ iabCategory) ''Category'')), w)"
| "multi_FetchCategories (f # mf) w primaryAdServer publisherId iabCategory =
     (let ((category, e), w') = fetchCategories f w primaryAdServer publisherId iabCategory
      in if category \<noteq> [] then ((category, None), w')
         else multi_FetchCategories mf w' primaryAdServer publisherId iabCategory)"

definition MultiFetcher :: "('w, 'v) AllFetcher list \<Rightarrow> ('w, 'v) AllFetcher" where
  "MultiFetcher mf = \<lparr>fetchRequests = multi_FetchRequests mf, fetchAccount = multi_FetchAccount mf,
     fetchCategories = multi_FetchCategories mf\<rparr>"

section \<open>Backends\<close>

definition EmptyFetcher :: "('w, 'v) AllFetcher" where
  "EmptyFetcher = \<lparr>
     fetchRequests = (\<lambda>w requestIDs impIDs. (([], [], map (\<lambda>i. NotFoundError i ''Request'') requestIDs @ map (\<lambda>i. NotFoundError i ''Imp'') impIDs), w)),
     fetchAccount = (\<lambda>w accountID. ((None, [NotFoundError accountID ''Account'']), w)),
     fetchCategories = (\<lambda>w primaryAdServer publisherId iabCategory. (([], None), w))\<rparr>"

definition appendErrors :: "string \<Rightarrow> string list \<Rightarrow> 'v data \<Rightarrow> fetch_error list \<Rightarrow> fetch_error list" where
  "appendErrors dataType ids dat errs = errs @ map (\<lambda>i. NotFoundError i dataType) (filter (\<lambda>i. lookup dat i = None) ids)"

subsection \<open>Database\<close>

text \<open>
  The errors of a query: the deadline, an error of Postgres with its code, any other. A result set is
  what scanning each row gives, and the error after the last row.
\<close>

datatype db_error = DbDeadline go_error | PqError string go_error | DbError go_error

type_synonym 'v rows = "(go_error + string \<times> 'v \<times> string) list \<times> go_error option"

definition isDeadline :: "db_error \<Rightarrow> bool" where
  "isDeadline e = (case e of DbDeadline g \<Rightarrow> True | _ \<Rightarrow> False)"

definition isBadInput :: "db_error \<Rightarrow> bool" where
  "isBadInput e = (case e of PqError code g \<Rightarrow> code = ''22P02'' | _ \<Rightarrow> False)"

fun read_rows :: "(go_error + string \<times> 'v \<times> string) list \<Rightarrow> 'v data \<Rightarrow> 'v data \<Rightarrow> go_error + 'v data \<times> 'v data" where
  "read_rows [] reqData impData = Inr (reqData, impData)"
| "read_rows (Inl e # rs) reqData impData = Inl e"
| "read_rows (Inr (i, dat, dataType) # rs) reqData impData =
     (if dataType = ''request'' then read_rows rs (put i dat reqData) impData
      else if dataType = ''imp'' then read_rows rs reqData (put i dat impData)
      else read_rows rs reqData impData)"

definition db_FetchRequests ::
  "(int \<Rightarrow> int \<Rightarrow> string) \<Rightarrow> (string \<Rightarrow> string list \<Rightarrow> db_error + 'v rows) \<Rightarrow> string list \<Rightarrow> string list
     \<Rightarrow> 'v data \<times> 'v data \<times> fetch_error list" where
  "db_FetchRequests queryMaker db requestIDs impIDs =
     (if requestIDs = [] \<and> impIDs = [] then ([], [], [])
      else (case db (queryMaker (int (length requestIDs)) (int (length impIDs))) (requestIDs @ impIDs) of
              Inl err \<Rightarrow>
                (if \<not> isDeadline err \<and> \<not> isBadInput err
                 then ([], [], appendErrors ''Imp'' impIDs ([] :: 'v data) (appendErrors ''Request'' requestIDs ([] :: 'v data) []))
                 else ([], [], [FetchError (case err of DbDeadline g \<Rightarrow> g | PqError code g \<Rightarrow> g | DbError g \<Rightarrow> g)]))
            | Inr (rs, rowsErr) \<Rightarrow>
                (case read_rows rs [] [] of
                   Inl e \<Rightarrow> ([], [], [FetchError e])
                 | Inr (storedRequestData, storedImpData) \<Rightarrow>
                     (case rowsErr of
                        Some e \<Rightarrow> ([], [], [FetchError e])
                      | None \<Rightarrow> (storedRequestData, storedImpData,
                           appendErrors ''Imp'' impIDs storedImpData (appendErrors ''Request'' requestIDs storedRequestData []))))))"

definition dbFetcher :: "(int \<Rightarrow> int \<Rightarrow> string) \<Rightarrow> (string \<Rightarrow> string list \<Rightarrow> db_error + 'v rows) \<Rightarrow> ('w, 'v) AllFetcher" where
  "dbFetcher queryMaker db = \<lparr>
     fetchRequests = (\<lambda>w requestIDs impIDs. (db_FetchRequests queryMaker db requestIDs impIDs, w)),
     fetchAccount = (\<lambda>w accountID. ((None, [NotFoundError accountID ''Account'']), w)),
     fetchCategories = (\<lambda>w primaryAdServer publisherId iabCategory. (([], None), w))\<rparr>"

subsection \<open>File system\<close>

text \<open>A directory as \<open>ioutil.ReadDir\<close> and \<open>ioutil.ReadFile\<close> give it; errors are those of reading.\<close>

datatype dir_entry = DirEntry string "go_error + dir_entry list" | FileEntry string "go_error + raw"

datatype FileSystem = FileSystem (Directories: "(string \<times> FileSystem) list") (Files: "raw data")

definition trim_json :: "string \<Rightarrow> string" where
  "trim_json name = (if has_suffix name ''.json'' then take (length name - 5) name else name)"

function collectStoredData :: "go_error + dir_entry list \<Rightarrow> go_error + FileSystem"
  and collect_entries :: "dir_entry list \<Rightarrow> (string, FileSystem) gomap \<Rightarrow> raw data \<Rightarrow> go_error + FileSystem" where
  "collectStoredData (Inl e) = Inl e"
| "collectStoredData (Inr entries) = collect_entries entries [] []"
| "collect_entries [] dirs dat = Inr (FileSystem dirs dat)"
| "collect_entries (DirEntry name d # es) dirs dat =
     (case collectStoredData d of
        Inl e \<Rightarrow> Inl e
      | Inr fileSys \<Rightarrow> collect_entries es (put name fileSys dirs) dat)"
| "collect_entries (FileEntry name c # es) dirs dat =
     (if has_suffix name ''.json''
      then (case c of
              Inl e \<Rightarrow> Inl e
            | Inr v \<Rightarrow> collect_entries es dirs (put (trim_json name) v dat))
      else collect_entries es dirs dat)"
  by pat_completeness auto
termination
  by (relation "measure (\<lambda>x. case x of Inl d \<Rightarrow> 2 * size_sum (\<lambda>_. 0) (size_list size) d | Inr (es, _, _) \<Rightarrow> 2 * size_list size es + 1)")
    (auto simp: size_sum_def split: sum.splits)

record eagerFetcher =
  ef_FileSystem :: FileSystem
  ef_Categories :: "(string, (string, Category) gomap) gomap"

definition NewFileFetcher :: "go_error + dir_entry list \<Rightarrow> go_error + eagerFetcher" where
  "NewFileFetcher directory = (case collectStoredData directory of
     Inl e \<Rightarrow> Inl e | Inr fs \<Rightarrow> Inr \<lparr>ef_FileSystem = fs, ef_Categories = []\<rparr>)"

definition dir_files :: "FileSystem \<Rightarrow> string \<Rightarrow> raw data" where
  "dir_files fs name = (case lookup (Directories fs) name of None \<Rightarrow> [] | Some d \<Rightarrow> Files d)"

definition eager_FetchRequests :: "eagerFetcher \<Rightarrow> string list \<Rightarrow> string list \<Rightarrow> raw data \<times> raw data \<times> fetch_error list" where
  "eager_FetchRequests w requestIDs impIDs =
     (let storedRequests = dir_files (ef_FileSystem w) ''stored_requests'';
          storedImpressions = dir_files (ef_FileSystem w) ''stored_imps''
      in (storedRequests, storedImpressions,
          appendErrors ''Imp'' impIDs storedImpressions (appendErrors ''Request'' requestIDs storedRequests [])))"

definition eager_FetchAccount :: "eagerFetcher \<Rightarrow> string \<Rightarrow> raw option \<times> fetch_error list" where
  "eager_FetchAccount w accountID =
     (if accountID = [] then (None, [FetchError (OtherError ''Cannot look up an empty accountID'')])
      else (case lookup (dir_files (ef_FileSystem w) ''accounts'') accountID of
              None \<Rightarrow> (None, [NotFoundError accountID ''Account''])
            | Some v \<Rightarrow> (Some v, [])))"

definition dec_Category :: "Category decoder" where
  "dec_Category = dec_struct [field ''Id'' dec_string cat_Id (\<lambda>v r. r\<lparr>cat_Id := v\<rparr>),
     field ''Name'' dec_string cat_Name (\<lambda>v r. r\<lparr>cat_Name := v\<rparr>)]"

definition dec_categories :: "raw \<Rightarrow> (string, Category) gomap option" where
  "dec_categories r = unmarshal (dec_map dec_Category \<lparr>cat_Id = [], cat_Name = []\<rparr>) r []"

text \<open>The id of a category in a map, empty when it is not there.\<close>

definition category_id :: "(string, Category) gomap \<Rightarrow> string \<Rightarrow> string" where
  "category_id m k = (case lookup m k of None \<Rightarrow> [] | Some c \<Rightarrow> cat_Id c)"

definition quoted :: "string \<Rightarrow> string" where
  "quoted s = [CHR 39] @ s @ [CHR 39]"

definition category_error :: "string \<Rightarrow> string \<Rightarrow> string \<Rightarrow> fetch_error option" where
  "category_error text primaryAdServer publisherId =
     Some (FetchError (OtherError (text @ quoted primaryAdServer @ '', publisherId: '' @ quoted publisherId)))"

definition eager_FetchCategories :: "eagerFetcher \<Rightarrow> string \<Rightarrow> string \<Rightarrow> string \<Rightarrow> (string \<times> fetch_error option) \<times> eagerFetcher" where
  "eager_FetchCategories w primaryAdServer publisherId iabCategory =
     (let fileName = (if publisherId \<noteq> [] then primaryAdServer @ ''_'' @ publisherId else primaryAdServer)
      in case lookup (ef_Categories w) fileName of
           Some dat \<Rightarrow> ((category_id dat iabCategory, None), w)
         | None \<Rightarrow>
             (case lookup (Directories (ef_FileSystem w)) primaryAdServer of
                None \<Rightarrow> (([], Some (FetchError (OtherError (''Category '' @ quoted iabCategory @ '' not found for server: '' @
                            quoted primaryAdServer @ '', publisherId: '' @ quoted publisherId)))), w)
              | Some dir \<Rightarrow>
                  (case lookup (Files dir) fileName of
                     None \<Rightarrow> (([], category_error ''Unable to find mapping file for adserver: '' primaryAdServer publisherId), w)
                   | Some file \<Rightarrow>
                       (case dec_categories file of
                          None \<Rightarrow> (([], category_error ''Unable to unmarshal categories for adserver: '' primaryAdServer publisherId), w)
                        | Some tmp \<Rightarrow>
                            (let w' = w\<lparr>ef_Categories := put fileName tmp (ef_Categories w),
                                        ef_FileSystem := FileSystem (put primaryAdServer
                                          (FileSystem (Directories dir) (put fileName RawEmpty (Files dir))) (Directories (ef_FileSystem w)))
                                          (Files (ef_FileSystem w))\<rparr>;
                                 result = category_id tmp iabCategory
                             in if result = []
                                then (([], Some (FetchError (OtherError (''Unable to find category for adserver '' @ quoted primaryAdServer @
                                        '', publisherId: '' @ quoted publisherId @ '', iab category: '' @ quoted iabCategory)))), w')
                                else ((result, None), w'))))))"

definition eager_fetcher :: "(eagerFetcher, raw) AllFetcher" where
  "eager_fetcher = \<lparr>fetchRequests = (\<lambda>w requestIDs impIDs. (eager_FetchRequests w requestIDs impIDs, w)),
     fetchAccount = (\<lambda>w accountID. (eager_FetchAccount w accountID, w)), fetchCategories = eager_FetchCategories\<rparr>"

subsection \<open>HTTP\<close>

text \<open>
  A GET: the request cannot be built, the call fails, or there is an answer with its status, the body and
  the error of reading it. \<open>jsonError\<close> is the error of \<open>encoding/json\<close> for a body it cannot decode.
\<close>

datatype http_reply = BuildFailed go_error | CallFailed go_error | Reply int raw "go_error option"

definition ids_json :: "string list \<Rightarrow> string" where
  "ids_json ids = ''['' @ [CHR 34] @ join [CHR 34, CHR 44, CHR 34] ids @ [CHR 34] @ '']''"

definition http_NewFetcher :: "string \<Rightarrow> string" where
  "http_NewFetcher endpoint = (if CHR ''?'' \<in> set endpoint then endpoint @ ''&'' else endpoint @ ''?'')"

definition buildRequest :: "string \<Rightarrow> string list \<Rightarrow> string list \<Rightarrow> string" where
  "buildRequest endpoint requestIDs impIDs =
     (if requestIDs \<noteq> [] \<and> impIDs \<noteq> []
      then endpoint @ ''request-ids='' @ ids_json requestIDs @ ''&imp-ids='' @ ids_json impIDs
      else if requestIDs \<noteq> [] then endpoint @ ''request-ids='' @ ids_json requestIDs
      else endpoint @ ''imp-ids='' @ ids_json impIDs)"

record responseContract =
  rc_Requests :: "raw data"
  rc_Imps :: "raw data"

definition dec_responseContract :: "responseContract decoder" where
  "dec_responseContract = dec_struct [
     field ''requests'' (dec_map dec_raw RawEmpty) rc_Requests (\<lambda>v r. r\<lparr>rc_Requests := v\<rparr>),
     field ''imps'' (dec_map dec_raw RawEmpty) rc_Imps (\<lambda>v r. r\<lparr>rc_Imps := v\<rparr>)]"

definition convertNullsToErrs :: "raw data \<Rightarrow> string \<Rightarrow> fetch_error list \<Rightarrow> raw data \<times> fetch_error list" where
  "convertNullsToErrs m dataType errs =
     (filter (\<lambda>kv. snd kv \<noteq> Raw JNull) m, errs @ map (\<lambda>kv. NotFoundError (fst kv) dataType) (filter (\<lambda>kv. snd kv = Raw JNull) m))"

definition unpackResponse :: "(raw \<Rightarrow> go_error) \<Rightarrow> int \<Rightarrow> raw \<Rightarrow> go_error option \<Rightarrow> raw data \<times> raw data \<times> fetch_error list" where
  "unpackResponse jsonError status body err = (case err of
     Some e \<Rightarrow> ([], [], [FetchError e])
   | None \<Rightarrow>
       if status = 200
       then (case unmarshal dec_responseContract body \<lparr>rc_Requests = [], rc_Imps = []\<rparr> of
               None \<Rightarrow> ([], [], [FetchError (jsonError body)])
             | Some resp \<Rightarrow>
                 (let (requestData, errs1) = convertNullsToErrs (rc_Requests resp) ''Request'' [];
                      (impData, errs2) = convertNullsToErrs (rc_Imps resp) ''Imp'' errs1
                  in (requestData, impData, errs2)))
       else ([], [], [FetchError (OtherError (''Error fetching Stored Requests via HTTP. Response code was '' @ itoa status))]))"

definition http_FetchRequests ::
  "(raw \<Rightarrow> go_error) \<Rightarrow> (string \<Rightarrow> http_reply) \<Rightarrow> string \<Rightarrow> string list \<Rightarrow> string list \<Rightarrow> raw data \<times> raw data \<times> fetch_error list" where
  "http_FetchRequests jsonError http endpoint requestIDs impIDs =
     (if requestIDs = [] \<and> impIDs = [] then ([], [], [])
      else (case http (buildRequest endpoint requestIDs impIDs) of
              BuildFailed e \<Rightarrow> ([], [], [FetchError e])
            | CallFailed e \<Rightarrow> ([], [], [FetchError e])
            | Reply status body err \<Rightarrow> unpackResponse jsonError status body err))"

definition dec_accountsResponse :: "raw data decoder" where
  "dec_accountsResponse = dec_struct [field ''accounts'' (dec_map dec_raw RawEmpty) (\<lambda>r. r) (\<lambda>v r. v)]"

definition http_FetchAccounts ::
  "(raw \<Rightarrow> go_error) \<Rightarrow> (string \<Rightarrow> http_reply) \<Rightarrow> string \<Rightarrow> string list \<Rightarrow> raw data \<times> fetch_error list" where
  "http_FetchAccounts jsonError http endpoint accountIDs =
     (let fail = (\<lambda>text. ([], [FetchError (OtherError (''Error fetching accounts ['' @ join '' '' accountIDs @ ''] via http: '' @ text))]))
      in if accountIDs = [] then ([], [])
         else (case http (endpoint @ ''account-ids='' @ ids_json accountIDs) of
                 BuildFailed e \<Rightarrow> fail (''build request failed with '' @ Error e)
               | CallFailed e \<Rightarrow> fail (Error e)
               | Reply status body (Some e) \<Rightarrow> fail (''error reading response: '' @ Error e)
               | Reply status body None \<Rightarrow>
                   if status \<noteq> 200 then fail (''unexpected response status '' @ itoa status)
                   else (case unmarshal dec_accountsResponse body [] of
                           None \<Rightarrow> fail (''failed to parse response: '' @ Error (jsonError body))
                         | Some accounts \<Rightarrow> convertNullsToErrs accounts ''Account'' [])))"

definition http_FetchAccount ::
  "(raw \<Rightarrow> go_error) \<Rightarrow> (string \<Rightarrow> http_reply) \<Rightarrow> string \<Rightarrow> string \<Rightarrow> raw option \<times> fetch_error list" where
  "http_FetchAccount jsonError http endpoint accountID =
     (case http_FetchAccounts jsonError http endpoint [accountID] of (accountData, errs) \<Rightarrow>
        if errs \<noteq> [] then (None, errs)
        else (case lookup accountData accountID of
                None \<Rightarrow> (None, [NotFoundError accountID ''Account''])
              | Some v \<Rightarrow> (Some v, [])))"

type_synonym category_cache = "(string, (string, Category) gomap) gomap"

definition http_FetchCategories ::
  "(string \<Rightarrow> http_reply) \<Rightarrow> string \<Rightarrow> category_cache \<Rightarrow> string \<Rightarrow> string \<Rightarrow> string \<Rightarrow> (string \<times> fetch_error option) \<times> category_cache" where
  "http_FetchCategories http endpoint cats primaryAdServer publisherId iabCategory =
     (let root = (if has_suffix endpoint ''?'' then butlast endpoint else endpoint);
          dataName = (if publisherId \<noteq> [] then primaryAdServer @ ''_'' @ publisherId else primaryAdServer);
          url = (if publisherId \<noteq> [] then root @ ''/'' @ primaryAdServer @ ''/'' @ publisherId @ ''.json''
                 else root @ ''/'' @ primaryAdServer @ ''.json'');
          found = (\<lambda>m. case lookup m iabCategory of
                     Some c \<Rightarrow> (cat_Id c, None)
                   | None \<Rightarrow> ([], category_error ''Unable to find category mapping for adserver: '' primaryAdServer publisherId))
      in case lookup cats dataName of
           Some dat \<Rightarrow> (found dat, cats)
         | None \<Rightarrow>
             (case http url of
                BuildFailed e \<Rightarrow> (([], Some (FetchError e)), cats)
              | CallFailed e \<Rightarrow> (([], Some (FetchError e)), cats)
              | Reply status body err \<Rightarrow>
                  (case dec_categories body of
                     None \<Rightarrow> (([], category_error ''Unable to unmarshal categories for adserver: '' primaryAdServer publisherId), cats)
                   | Some tmp \<Rightarrow> (found tmp, put dataName tmp cats))))"

definition HttpFetcher :: "(raw \<Rightarrow> go_error) \<Rightarrow> (string \<Rightarrow> http_reply) \<Rightarrow> string \<Rightarrow> (category_cache, raw) AllFetcher" where
  "HttpFetcher jsonError http endpoint = \<lparr>
     fetchRequests = (\<lambda>w requestIDs impIDs. (http_FetchRequests jsonError http endpoint requestIDs impIDs, w)),
     fetchAccount = (\<lambda>w accountID. (http_FetchAccount jsonError http endpoint accountID, w)),
     fetchCategories = http_FetchCategories http endpoint\<rparr>"

section \<open>Putting a fetcher together\<close>

definition consolidate :: "('w, 'v) AllFetcher list \<Rightarrow> ('w, 'v) AllFetcher" where
  "consolidate fetchers = (case fetchers of [] \<Rightarrow> EmptyFetcher | [f] \<Rightarrow> f | fs \<Rightarrow> MultiFetcher fs)"

text \<open>A fetcher whose state is a part of a larger one.\<close>

definition on_part :: "('w \<Rightarrow> 'p) \<Rightarrow> ('p \<Rightarrow> 'w \<Rightarrow> 'w) \<Rightarrow> ('p, 'v) AllFetcher \<Rightarrow> ('w, 'v) AllFetcher" where
  "on_part sel upd f = \<lparr>
     fetchRequests = (\<lambda>w rs is. case fetchRequests f (sel w) rs is of (r, p) \<Rightarrow> (r, upd p w)),
     fetchAccount = (\<lambda>w a. case fetchAccount f (sel w) a of (r, p) \<Rightarrow> (r, upd p w)),
     fetchCategories = (\<lambda>w s p c. case fetchCategories f (sel w) s p c of (r, q) \<Rightarrow> (r, upd q w))\<rparr>"

record backends =
  bk_Files :: eagerFetcher
  bk_Http :: category_cache

text \<open>\<open>newFetcher\<close>: the files when they are enabled, the database when there is a query, the endpoint when there is one.\<close>

definition newFetcher ::
  "bool \<Rightarrow> string \<Rightarrow> string \<Rightarrow> (int \<Rightarrow> int \<Rightarrow> string) \<Rightarrow> (string \<Rightarrow> string list \<Rightarrow> db_error + raw rows)
     \<Rightarrow> (raw \<Rightarrow> go_error) \<Rightarrow> (string \<Rightarrow> http_reply) \<Rightarrow> (backends, raw) AllFetcher" where
  "newFetcher filesEnabled queryTemplate endpoint queryMaker db jsonError http = consolidate
     ((if filesEnabled then [on_part bk_Files (\<lambda>p w. w\<lparr>bk_Files := p\<rparr>) eager_fetcher] else []) @
      (if queryTemplate \<noteq> [] then [dbFetcher queryMaker db] else []) @
      (if endpoint \<noteq> [] then [on_part bk_Http (\<lambda>p w. w\<lparr>bk_Http := p\<rparr>) (HttpFetcher jsonError http (http_NewFetcher endpoint))] else []))"

section \<open>The contract of a fetcher\<close>

text \<open>The errors for the ids a source does not have, in the order asked for.\<close>

definition not_found :: "string \<Rightarrow> (string \<Rightarrow> 'v option) \<Rightarrow> string list \<Rightarrow> fetch_error list" where
  "not_found dataType c ids = map (\<lambda>i. NotFoundError i dataType) (filter (\<lambda>i. c i = None) ids)"

lemma not_found_cong:
  assumes "\<And>i. i \<in> set ids \<Longrightarrow> (c i = None) = (c' i = None)"
  shows "not_found t c ids = not_found t c' ids"
  using assms by (simp add: not_found_def cong: filter_cong)

lemma not_found_append [simp]: "not_found t c (xs @ ys) = not_found t c xs @ not_found t c ys"
  by (simp add: not_found_def)

lemma appendErrors_eq: "appendErrors t ids d errs = errs @ not_found t (lookup d) ids"
  by (simp add: appendErrors_def not_found_def)

lemma appendNotFoundErrors_eq: "appendNotFoundErrors t ids d errs = errs @ not_found t (lookup d) ids"
  by (simp add: appendNotFoundErrors_def not_found_def)

lemma dropMissing_not_found [simp]: "dropMissingIDs (not_found t c ids) = []"
  by (auto simp: dropMissingIDs_def not_found_def is_not_found_def filter_empty_conv)

lemma dropMissing_append [simp]: "dropMissingIDs (xs @ ys) = dropMissingIDs xs @ dropMissingIDs ys"
  by (simp add: dropMissingIDs_def)

lemma lookup_added_data:
  assumes "wf_map new"
  shows "lookup (fold (\<lambda>kv. put (fst kv) (snd kv)) new d) = lookup d ++ lookup new"
  using assms
proof (induction new arbitrary: d)
  case Nil
  then show ?case by simp
next
  case (Cons kv new)
  then have "lookup new (fst kv) = None" "wf_map new" by (auto simp: wf_map_def map_of_eq_None_iff)
  with Cons.IH [of "put (fst kv) (snd kv) d"] show ?case
    by (auto simp: map_add_def fun_eq_iff split: option.splits)
qed

lemma wf_fold_put [simp]: "wf_map d \<Longrightarrow> wf_map (fold (\<lambda>kv. put (fst kv) (snd kv)) new d)"
  by (rule fold_invariant_set) auto

text \<open>
  A source with the requests \<open>reqs\<close> and the impressions \<open>imps\<close>: it returns only what it has, everything
  that was asked for and it has, and an error for each of the others.
\<close>

locale stored_source =
  fixes f :: "('w, 'v) AllFetcher" and ok :: "'w \<Rightarrow> bool"
    and reqs :: "string \<Rightarrow> 'v option" and imps :: "string \<Rightarrow> 'v option"
  assumes fetch_inv: "ok w \<Longrightarrow> fetchRequests f w rs is = ((rd, idt, errs), w') \<Longrightarrow> ok w' \<and> wf_map rd \<and> wf_map idt"
    and fetch_sound: "ok w \<Longrightarrow> fetchRequests f w rs is = ((rd, idt, errs), w') \<Longrightarrow> lookup rd \<subseteq>\<^sub>m reqs \<and> lookup idt \<subseteq>\<^sub>m imps"
    and fetch_complete: "ok w \<Longrightarrow> fetchRequests f w rs is = ((rd, idt, errs), w') \<Longrightarrow>
      (\<forall>k\<in>set rs. lookup rd k = reqs k) \<and> (\<forall>k\<in>set is. lookup idt k = imps k)"
    and fetch_errs: "ok w \<Longrightarrow> fetchRequests f w rs is = ((rd, idt, errs), w') \<Longrightarrow>
      errs = not_found ''Request'' reqs rs @ not_found ''Imp'' imps is"

text \<open>A source that returns only what was asked for.\<close>

locale exact_source = stored_source +
  assumes fetch_exact: "ok w \<Longrightarrow> fetchRequests f w rs is = ((rd, idt, errs), w') \<Longrightarrow>
      dom (lookup rd) \<subseteq> set rs \<and> dom (lookup idt) \<subseteq> set is"

section \<open>A cache in front of a source is invisible\<close>

lemma leftovers_of_ids:
  assumes "\<And>k v. lookup d k = Some v \<Longrightarrow> k \<in> set ids \<and> c k = Some v"
  shows "not_found t c (findLeftovers ids d) = not_found t c ids"
proof -
  have "filter (\<lambda>i. c i = None) (findLeftovers ids d) = filter (\<lambda>i. c i = None) ids"
    unfolding findLeftovers_def filter_filter using assms by (intro filter_cong) (auto, metis not_Some_eq option.distinct(1))
  then show ?thesis by (simp add: not_found_def)
qed

lemma merged_data:
  assumes cached: "\<And>k v. lookup d k = Some v \<Longrightarrow> k \<in> set ids \<and> c k = Some v"
    and new: "wf_map new" "lookup new \<subseteq>\<^sub>m c" "\<forall>k\<in>set (findLeftovers ids d). lookup new k = c k"
  shows "lookup (mergeData d new) \<subseteq>\<^sub>m c \<and> (\<forall>k\<in>set ids. lookup (mergeData d new) k = c k)"
proof -
  have m: "lookup (mergeData d new) k = (case lookup new k of Some v \<Rightarrow> Some v | None \<Rightarrow> lookup d k)" for k
    using lookup_added_data [OF new(1)] by (simp add: mergeData_def map_add_def)
  have "lookup (mergeData d new) k = c k" if "k \<in> set ids" for k
  proof (cases "lookup d k")
    case None
    with that new(3) show ?thesis by (auto simp: m findLeftovers_def split: option.splits)
  next
    case (Some v)
    with cached [OF Some] new(2) show ?thesis by (auto simp: m map_le_def dom_def split: option.splits)
  qed
  moreover have "lookup (mergeData d new) \<subseteq>\<^sub>m c"
    using cached new(2) by (auto simp: m map_le_def dom_def split: option.splits)
  ultimately show ?thesis by blast
qed

definition consistent :: "('s \<Rightarrow> (string \<Rightarrow> 'v option) \<Rightarrow> bool) \<Rightarrow> ('w \<Rightarrow> bool) \<Rightarrow> (string \<Rightarrow> 'v option) \<Rightarrow> (string \<Rightarrow> 'v option)
    \<Rightarrow> ('s, 'a, 'w) cached_world \<Rightarrow> bool" where
  "consistent holds ok reqs imps w = (holds (cw_Requests w) reqs \<and> holds (cw_Imps w) imps \<and> ok (cw_Backend w))"

lemma saved_subset:
  assumes "json_cache cj holds" and "holds s c" and "wf_map d" and "lookup d \<subseteq>\<^sub>m c"
  shows "holds (cache_Save cj d s) c"
proof -
  have "c ++ lookup d = c" using assms(4) by (auto simp: map_add_def fun_eq_iff map_le_def dom_def split: option.splits)
  with json_cache.Save_holds [OF assms(1,2,3)] show ?thesis by simp
qed

locale cached_source = stored_source f ok reqs imps
  for f :: "('w, 'v) AllFetcher" and ok reqs imps +
  fixes cache :: "('s, 'a, 'v) Cache" and holds :: "'s \<Rightarrow> (string \<Rightarrow> 'v option) \<Rightarrow> bool"
  assumes req_cache: "json_cache (Requests cache) holds" and imp_cache: "json_cache (Imps cache) holds"
begin

lemma cached_fetch:
  assumes w: "consistent holds ok reqs imps w" and r: "cached_FetchRequests f cache w rs is = ((rd, idt, errs), w')"
  shows "consistent holds ok reqs imps w' \<and> wf_map rd \<and> wf_map idt \<and>
    (lookup rd \<subseteq>\<^sub>m reqs \<and> (\<forall>k\<in>set rs. lookup rd k = reqs k)) \<and> (lookup idt \<subseteq>\<^sub>m imps \<and> (\<forall>k\<in>set is. lookup idt k = imps k)) \<and>
    errs = not_found ''Request'' reqs rs @ not_found ''Imp'' imps is"
proof -
  from w have h: "holds (cw_Requests w) reqs" "holds (cw_Imps w) imps" and b: "ok (cw_Backend w)" by (simp_all add: consistent_def)
  obtain rd0 sr where gr: "cache_Get (Requests cache) (cw_Requests w) rs = (rd0, sr)" by (cases "cache_Get (Requests cache) (cw_Requests w) rs")
  obtain id0 si where gi: "cache_Get (Imps cache) (cw_Imps w) is = (id0, si)" by (cases "cache_Get (Imps cache) (cw_Imps w) is")
  note hr = json_cache.Get_holds [OF req_cache h(1) gr] and hi = json_cache.Get_holds [OF imp_cache h(2) gi]
  note sr = json_cache.Get_sound [OF req_cache h(1) gr] and si = json_cache.Get_sound [OF imp_cache h(2) gi]
  obtain fr fi es w2 where ft: "fetchRequests f (cw_Backend w) (findLeftovers rs rd0) (findLeftovers is id0) = ((fr, fi, es), w2)"
    by (metis prod.exhaust)
  note inv2 = fetch_inv [OF b ft] and snd2 = fetch_sound [OF b ft] and cmp2 = fetch_complete [OF b ft] and err2 = fetch_errs [OF b ft]
  show ?thesis
  proof (cases "findLeftovers rs rd0 = [] \<and> findLeftovers is id0 = []")
    case True
    then have res: "rd = rd0" "idt = id0" "errs = []" "w' = w\<lparr>cw_Requests := sr, cw_Imps := si\<rparr>"
      using r gr gi by (simp_all add: cached_FetchRequests_def)
    have "lookup rd0 \<subseteq>\<^sub>m reqs \<and> (\<forall>k\<in>set rs. lookup rd0 k = reqs k)"
      using merged_data [of rd0 rs reqs "[]", OF sr] True by (simp add: mergeData_def map_le_def)
    moreover have "lookup id0 \<subseteq>\<^sub>m imps \<and> (\<forall>k\<in>set is. lookup id0 k = imps k)"
      using merged_data [of id0 "is" imps "[]", OF si] True by (simp add: mergeData_def map_le_def)
    moreover have "not_found ''Request'' reqs rs @ not_found ''Imp'' imps is = []"
      using leftovers_of_ids [of rd0 rs reqs "''Request''", OF sr] leftovers_of_ids [of id0 "is" imps "''Imp''", OF si] True
      by (simp add: not_found_def [of _ _ "[]"])
    ultimately show ?thesis using res hr hi b by (simp add: consistent_def)
  next
    case False
    then have res: "rd = mergeData rd0 fr" "idt = mergeData id0 fi" "errs = es"
      "w' = w\<lparr>cw_Requests := cache_Save (Requests cache) fr sr, cw_Imps := cache_Save (Imps cache) fi si, cw_Backend := w2\<rparr>"
      using r gr gi ft by (auto simp: cached_FetchRequests_def)
    have "lookup rd \<subseteq>\<^sub>m reqs \<and> (\<forall>k\<in>set rs. lookup rd k = reqs k)"
      unfolding res by (rule merged_data [OF sr]) (use inv2 snd2 cmp2 in simp_all)
    moreover have "lookup idt \<subseteq>\<^sub>m imps \<and> (\<forall>k\<in>set is. lookup idt k = imps k)"
      unfolding res by (rule merged_data [OF si]) (use inv2 snd2 cmp2 in simp_all)
    moreover have "errs = not_found ''Request'' reqs rs @ not_found ''Imp'' imps is"
      using err2 leftovers_of_ids [OF sr] leftovers_of_ids [OF si] res by simp
    moreover have "consistent holds ok reqs imps w'"
      using saved_subset [OF req_cache, of sr reqs fr] saved_subset [OF imp_cache, of si imps fi] hr hi inv2 snd2
      by (simp add: consistent_def res)
    ultimately show ?thesis using hr hi by (simp add: res mergeData_def)
  qed
qed

end

sublocale cached_source \<subseteq> through: stored_source "WithCache f cache" "consistent holds ok reqs imps" reqs imps
proof unfold_locales
  fix w rs "is" rd idt errs w'
  assume "consistent holds ok reqs imps w" and "fetchRequests (WithCache f cache) w rs is = ((rd, idt, errs), w')"
  then have "cached_FetchRequests f cache w rs is = ((rd, idt, errs), w')" "consistent holds ok reqs imps w"
    by (simp_all add: WithCache_def)
  note c = cached_fetch [OF this(2,1)]
  show "consistent holds ok reqs imps w' \<and> wf_map rd \<and> wf_map idt" using c by blast
  show "lookup rd \<subseteq>\<^sub>m reqs \<and> lookup idt \<subseteq>\<^sub>m imps" using c by blast
  show "(\<forall>k\<in>set rs. lookup rd k = reqs k) \<and> (\<forall>k\<in>set is. lookup idt k = imps k)" using c by blast
  show "errs = not_found ''Request'' reqs rs @ not_found ''Imp'' imps is" using c by blast
qed

end
