(* ===== verification/Usersync.thy ===== *)
theory Usersync
  imports Ext_Encoding
begin

text \<open>
  The cookie with the ids of a user (\<open>usersync/cookie.go\<close>). A time is a number of nanoseconds on an
  unbounded scale, and the present time is an argument. The codec of a cookie holds what the code uses of
  \<open>encoding/base64\<close>, of the reader and writer of JSON text and of the JSON form of \<open>time.Time\<close>, which fails for years
  above 9999. The length of the cookie header is the argument \<open>len\<close>.
\<close>

section \<open>The cookie\<close>

record uidWithExpiry =
  ue_UID :: string
  ue_Expires :: int

record PBSCookie =
  pc_uids :: "(string, uidWithExpiry) gomap"
  pc_optOut :: bool
  pc_birthday :: "int option"

record cookie_codec =
  ck_encode :: "json \<Rightarrow> string"
  ck_decode :: "string \<Rightarrow> raw option"
  ck_writeTime :: "int \<Rightarrow> json option"
  ck_readTime :: "json \<Rightarrow> int option"

definition BidderAudienceNetwork :: string where
  "BidderAudienceNetwork = ''audienceNetwork''"

definition DEFAULT_TTL :: int where
  "DEFAULT_TTL = 14 * 24 * 3600 * 1000000000"

definition NewPBSCookie :: "int \<Rightarrow> PBSCookie" where
  "NewPBSCookie now = \<lparr>pc_uids = [], pc_optOut = False, pc_birthday = Some now\<rparr>"

definition NewPBSCookieWithOptOut :: "int \<Rightarrow> PBSCookie" where
  "NewPBSCookieWithOptOut now = \<lparr>pc_uids = [], pc_optOut = True, pc_birthday = Some now\<rparr>"

definition AllowSyncs :: "PBSCookie \<Rightarrow> bool" where
  "AllowSyncs c = (\<not> pc_optOut c)"

definition SetPreference :: "bool \<Rightarrow> PBSCookie \<Rightarrow> PBSCookie" where
  "SetPreference allow c = (if allow then c\<lparr>pc_optOut := False\<rparr> else c\<lparr>pc_optOut := True, pc_uids := []\<rparr>)"

definition GetUID :: "int \<Rightarrow> PBSCookie \<Rightarrow> string \<Rightarrow> string \<times> bool \<times> bool" where
  "GetUID now c familyName = (case lookup (pc_uids c) familyName of
     Some u \<Rightarrow> (ue_UID u, True, now < ue_Expires u)
   | None \<Rightarrow> ([], False, False))"

definition GetUIDs :: "PBSCookie \<Rightarrow> (string, string) gomap" where
  "GetUIDs c = map (\<lambda>(k, u). (k, ue_UID u)) (pc_uids c)"

definition bidderToFamilyNames :: "string \<Rightarrow> string option" where
  "bidderToFamilyNames b = (if b = ''appnexus'' then Some ''adnxs'' else None)"

definition GetId :: "int \<Rightarrow> PBSCookie \<Rightarrow> string \<Rightarrow> string \<times> bool" where
  "GetId now c bidder = (case GetUID now c (case bidderToFamilyNames bidder of Some f \<Rightarrow> f | None \<Rightarrow> bidder) of (i, exists, _) \<Rightarrow> (i, exists))"

definition Unsync :: "string \<Rightarrow> PBSCookie \<Rightarrow> PBSCookie" where
  "Unsync familyName c = c\<lparr>pc_uids := del familyName (pc_uids c)\<rparr>"

definition HasLiveSync :: "int \<Rightarrow> PBSCookie \<Rightarrow> string \<Rightarrow> bool" where
  "HasLiveSync now c familyName = snd (snd (GetUID now c familyName))"

definition LiveSyncCount :: "int \<Rightarrow> PBSCookie \<Rightarrow> int" where
  "LiveSyncCount now c = int (length (filter (\<lambda>(_, u). now < ue_Expires u) (pc_uids c)))"

text \<open>There are no bidders with a time to live of their own.\<close>

definition getExpiry :: "int \<Rightarrow> string \<Rightarrow> int" where
  "getExpiry now familyName = now + DEFAULT_TTL"

definition TrySync :: "int \<Rightarrow> PBSCookie \<Rightarrow> string \<Rightarrow> string \<Rightarrow> go_error + PBSCookie" where
  "TrySync now c familyName uid =
     (if \<not> AllowSyncs c then Inl (OtherError ''The user has opted out of prebid server PBSCookie syncs.'')
      else if familyName = BidderAudienceNetwork \<and> uid = ''0''
      then Inl (OtherError (''audienceNetwork uses a UID of 0 as '' @ [CHR 34] @ ''not yet recognized'' @ [CHR 34] @ ''.''))
      else Inr (c\<lparr>pc_uids := put familyName \<lparr>ue_UID = uid, ue_Expires = getExpiry now familyName\<rparr> (pc_uids c)\<rparr>))"

section \<open>The form in which the cookie is stored\<close>

record pbsCookieJson =
  cj_LegacyUIDs :: "(string, string) gomap"
  cj_UIDs :: "(string, uidWithExpiry) gomap"
  cj_OptOut :: bool
  cj_Birthday :: "int option"

definition enc_uidWithExpiry :: "cookie_codec \<Rightarrow> uidWithExpiry \<Rightarrow> json option" where
  "enc_uidWithExpiry ck u = enc_struct [(''uid'', Member (JStr (ue_UID u))), (''expires'', nested (ck_writeTime ck (ue_Expires u)))]"

definition MarshalCookie :: "cookie_codec \<Rightarrow> PBSCookie \<Rightarrow> json option" where
  "MarshalCookie ck c = enc_struct [
     (''tempUIDs'', omit_if (pc_uids c = []) (nested (enc_map (enc_uidWithExpiry ck) (pc_uids c)))),
     (''optout'', omit_if (\<not> pc_optOut c) (Member (JBool (pc_optOut c)))),
     (''bday'', opt_ptr (ck_writeTime ck) (pc_birthday c))]"

definition dec_time :: "cookie_codec \<Rightarrow> int decoder" where
  "dec_time ck j old = (if j = JNull then Some old else ck_readTime ck j)"

definition zero_time :: int where
  "zero_time = - 62135596800000000000"

definition dec_uidWithExpiry :: "cookie_codec \<Rightarrow> uidWithExpiry decoder" where
  "dec_uidWithExpiry ck = dec_struct [field ''uid'' dec_string ue_UID (\<lambda>v r. r\<lparr>ue_UID := v\<rparr>),
     field ''expires'' (dec_time ck) ue_Expires (\<lambda>v r. r\<lparr>ue_Expires := v\<rparr>)]"

definition dec_pbsCookieJson :: "cookie_codec \<Rightarrow> pbsCookieJson decoder" where
  "dec_pbsCookieJson ck = dec_struct [
     field ''uids'' (dec_map dec_string []) cj_LegacyUIDs (\<lambda>v r. r\<lparr>cj_LegacyUIDs := v\<rparr>),
     field ''tempUIDs'' (dec_map (dec_uidWithExpiry ck) \<lparr>ue_UID = [], ue_Expires = zero_time\<rparr>) cj_UIDs (\<lambda>v r. r\<lparr>cj_UIDs := v\<rparr>),
     field ''optout'' dec_bool cj_OptOut (\<lambda>v r. r\<lparr>cj_OptOut := v\<rparr>),
     field ''bday'' (dec_ptr (dec_time ck) zero_time) cj_Birthday (\<lambda>v r. r\<lparr>cj_Birthday := v\<rparr>)]"

text \<open>Legacy ids count as expired five minutes ago; the fake id of Facebook is dropped.\<close>

definition legacy_uids :: "int \<Rightarrow> (string, string) gomap \<Rightarrow> (string, uidWithExpiry) gomap \<Rightarrow> (string, uidWithExpiry) gomap" where
  "legacy_uids now legacy uids = fold (\<lambda>(b, uid) m. if lookup m b = None
     then put b \<lparr>ue_UID = uid, ue_Expires = now - 300 * 1000000000\<rparr> m else m) legacy uids"

definition UnmarshalCookie :: "cookie_codec \<Rightarrow> int \<Rightarrow> json \<Rightarrow> PBSCookie \<Rightarrow> PBSCookie" where
  "UnmarshalCookie ck now j c =
     (case dec_pbsCookieJson ck j \<lparr>cj_LegacyUIDs = [], cj_UIDs = [], cj_OptOut = False, cj_Birthday = None\<rparr> of
        None \<Rightarrow> c
      | Some k \<Rightarrow>
          (let uids = (if cj_OptOut k then []
                       else (let m = legacy_uids now (cj_LegacyUIDs k) (cj_UIDs k)
                             in case lookup m BidderAudienceNetwork of
                                  Some u \<Rightarrow> if ue_UID u = ''0'' then del BidderAudienceNetwork m else m
                                | None \<Rightarrow> m))
           in \<lparr>pc_uids = uids, pc_optOut = cj_OptOut k, pc_birthday = cj_Birthday k\<rparr>))"

definition ToHTTPCookie :: "cookie_codec \<Rightarrow> PBSCookie \<Rightarrow> string" where
  "ToHTTPCookie ck c = (case MarshalCookie ck c of Some j \<Rightarrow> ck_encode ck j | None \<Rightarrow> [])"

definition ParsePBSCookie :: "cookie_codec \<Rightarrow> int \<Rightarrow> string \<Rightarrow> PBSCookie" where
  "ParsePBSCookie ck now v = (case ck_decode ck v of
     Some (Raw j) \<Rightarrow> UnmarshalCookie ck now j (NewPBSCookie now)
   | _ \<Rightarrow> NewPBSCookie now)"

record HostCookie =
  hk_Domain :: string
  hk_Family :: string
  hk_CookieName :: string
  hk_MaxCookieSizeBytes :: int
  hk_OptOutName :: string
  hk_OptOutValue :: string
  hk_TTL :: int

text \<open>\<open>cookies\<close> gives the cookies of the request by their names.\<close>

definition ParsePBSCookieFromRequest :: "cookie_codec \<Rightarrow> int \<Rightarrow> HostCookie \<Rightarrow> (string \<Rightarrow> string option) \<Rightarrow> PBSCookie" where
  "ParsePBSCookieFromRequest ck now host cookies =
     (if hk_OptOutName host \<noteq> [] \<and> cookies (hk_OptOutName host) = Some (hk_OptOutValue host)
      then SetPreference False (NewPBSCookie now)
      else (let parsed = (case cookies ''uids'' of Some v \<Rightarrow> ParsePBSCookie ck now v | None \<Rightarrow> NewPBSCookie now)
            in if fst (GetUID now parsed (hk_Family host)) = [] \<and> hk_CookieName host \<noteq> []
               then (case cookies (hk_CookieName host) of
                       Some v \<Rightarrow> (case TrySync now parsed (hk_Family host) v of Inr c \<Rightarrow> c | Inl e \<Rightarrow> parsed)
                     | None \<Rightarrow> parsed)
               else parsed))"

section \<open>Making the cookie fit\<close>

text \<open>\<open>time.Until\<close> is a 64-bit number of nanoseconds and stays at the bounds of that range.\<close>

definition max_int64 :: int where
  "max_int64 = 2 ^ 63 - 1"

definition time_Until :: "int \<Rightarrow> int \<Rightarrow> int" where
  "time_Until now t = max (- (2 ^ 63)) (min max_int64 (t - now))"

definition older :: "int \<Rightarrow> string \<times> uidWithExpiry \<Rightarrow> string \<times> int \<Rightarrow> string \<times> int" where
  "older now e best = (let t = time_Until now (ue_Expires (snd e)) in if t < snd best then (fst e, t) else best)"

text \<open>The id to give up: the first of those that expire earliest, the empty name when none is below the bound.\<close>

definition oldest_elem :: "int \<Rightarrow> (string, uidWithExpiry) gomap \<Rightarrow> string" where
  "oldest_elem now uids = fst (fold (older now) uids ([], max_int64))"

text \<open>The loop; \<open>clock\<close> is the time in each round, read once per round. None is a loop that does not end.\<close>

partial_function (option) eject_loop :: "(PBSCookie \<Rightarrow> int) \<Rightarrow> int \<Rightarrow> (nat \<Rightarrow> int) \<Rightarrow> nat \<Rightarrow> PBSCookie \<Rightarrow> PBSCookie option" where
  "eject_loop len maxSize clock n c =
     (if maxSize > 0 \<and> len c > maxSize \<and> pc_uids c \<noteq> []
      then eject_loop len maxSize clock (Suc n) (c\<lparr>pc_uids := del (oldest_elem (clock n) (pc_uids c)) (pc_uids c)\<rparr>)
      else Some c)"

declare eject_loop.simps [code]

text \<open>The cookie that is written, its value and whether the cookie for the same-site rule is written with it.\<close>

definition SetCookieOnResponse ::
  "cookie_codec \<Rightarrow> (PBSCookie \<Rightarrow> int) \<Rightarrow> (nat \<Rightarrow> int) \<Rightarrow> HostCookie \<Rightarrow> bool \<Rightarrow> PBSCookie \<Rightarrow> (PBSCookie \<times> string \<times> bool) option" where
  "SetCookieOnResponse ck len clock host setSiteCookie c =
     map_option (\<lambda>c'. (c', ToHTTPCookie ck c', setSiteCookie)) (eject_loop len (hk_MaxCookieSizeBytes host) clock 0 c)"

section \<open>Properties: making the cookie fit\<close>

lemma older_fold:
  "snd (fold (older now) uids b) \<le> snd b \<and> (\<forall>e\<in>set uids. snd (fold (older now) uids b) \<le> time_Until now (ue_Expires (snd e))) \<and>
   (fold (older now) uids b = b \<or> (\<exists>e\<in>set uids. fold (older now) uids b = (fst e, time_Until now (ue_Expires (snd e)))))"
proof (induction uids arbitrary: b)
  case Nil
  then show ?case by simp
next
  case (Cons e uids)
  have "snd (older now e b) \<le> snd b" "snd (older now e b) \<le> time_Until now (ue_Expires (snd e))"
    "older now e b = b \<or> older now e b = (fst e, time_Until now (ue_Expires (snd e)))"
    by (auto simp: older_def Let_def)
  with Cons.IH [of "older now e b"] show ?case by fastforce
qed

lemma oldest_elem_min:
  assumes "uids \<noteq> []" and "\<forall>e\<in>set uids. time_Until now (ue_Expires (snd e)) < max_int64"
  obtains e where "e \<in> set uids" "oldest_elem now uids = fst e"
    "\<forall>f\<in>set uids. time_Until now (ue_Expires (snd e)) \<le> time_Until now (ue_Expires (snd f))"
proof -
  let ?r = "fold (older now) uids ([], max_int64)"
  note f = older_fold [of now uids "([], max_int64)"]
  obtain x where x: "x \<in> set uids" using assms(1) by (cases uids) auto
  with assms(2) f have "snd ?r < max_int64" by fastforce
  then have "?r \<noteq> ([], max_int64)" by auto
  with f obtain e where e: "e \<in> set uids" "?r = (fst e, time_Until now (ue_Expires (snd e)))" by blast
  moreover from f e(2) have "\<forall>g\<in>set uids. time_Until now (ue_Expires (snd e)) \<le> time_Until now (ue_Expires (snd g))" by simp
  ultimately show thesis using that [of e] by (simp add: oldest_elem_def)
qed

definition within_range :: "(nat \<Rightarrow> int) \<Rightarrow> (string, uidWithExpiry) gomap \<Rightarrow> bool" where
  "within_range clock uids = (\<forall>n. \<forall>e\<in>set uids. \<bar>ue_Expires (snd e) - clock n\<bar> < max_int64)"

lemma until_in_range: "\<bar>t - now\<bar> < max_int64 \<Longrightarrow> time_Until now t = t - now"
  by (auto simp: time_Until_def max_int64_def)

lemma set_del: "wf_map m \<Longrightarrow> set (del k m) = {e \<in> set m. fst e \<noteq> k}"
  by (induction m) (auto simp: wf_map_def AList.delete_eq)

lemma eject_loop_returns:
  assumes "wf_map (pc_uids c)" and "within_range clock (pc_uids c)"
  shows "\<exists>c'. eject_loop len maxSize clock n c = Some c' \<and> (maxSize \<le> 0 \<or> len c' \<le> maxSize \<or> pc_uids c' = []) \<and>
    set (pc_uids c') \<subseteq> set (pc_uids c) \<and>
    (\<forall>e\<in>set (pc_uids c) - set (pc_uids c'). \<forall>f\<in>set (pc_uids c'). ue_Expires (snd e) \<le> ue_Expires (snd f)) \<and>
    pc_optOut c' = pc_optOut c \<and> pc_birthday c' = pc_birthday c"
  using assms
proof (induction "length (pc_uids c)" arbitrary: c n rule: less_induct)
  case less
  show ?case
  proof (cases "maxSize > 0 \<and> len c > maxSize \<and> pc_uids c \<noteq> []")
    case False
    then have "eject_loop len maxSize clock n c = Some c" by (subst eject_loop.simps) auto
    with False show ?thesis by auto
  next
    case True
    let ?k = "oldest_elem (clock n) (pc_uids c)"
    let ?c = "c\<lparr>pc_uids := del ?k (pc_uids c)\<rparr>"
    have u: "time_Until (clock n) (ue_Expires (snd e)) = ue_Expires (snd e) - clock n" if "e \<in> set (pc_uids c)" for e
      using less.prems(2) that by (intro until_in_range) (auto simp: within_range_def)
    have b: "\<forall>e\<in>set (pc_uids c). time_Until (clock n) (ue_Expires (snd e)) < max_int64"
      using less.prems(2) u by (fastforce simp: within_range_def abs_less_iff)
    from True obtain e where e: "e \<in> set (pc_uids c)" "?k = fst e"
      "\<forall>f\<in>set (pc_uids c). time_Until (clock n) (ue_Expires (snd e)) \<le> time_Until (clock n) (ue_Expires (snd f))"
      using oldest_elem_min [OF _ b] by blast
    have min: "ue_Expires (snd e) \<le> ue_Expires (snd f)" if "f \<in> set (pc_uids c)" for f
      using e(3) that u [OF that] u [OF e(1)] by auto
    have sub: "set (del ?k (pc_uids c)) = {x \<in> set (pc_uids c). fst x \<noteq> fst e}"
      using set_del [OF less.prems(1)] e(2) by simp
    have only: "x = e" if "x \<in> set (pc_uids c)" "fst x = fst e" for x
      using that e(1) less.prems(1) by (metis eq_key_imp_eq_value prod.collapse wf_map_def)
    have "length (del ?k (pc_uids c)) < length (pc_uids c)"
      using e(1,2) by (simp add: AList.delete_eq) (metis (mono_tags, lifting) length_filter_less case_prod_beta)
    then have "length (pc_uids ?c) < length (pc_uids c)" by simp
    moreover have "wf_map (pc_uids ?c)" "within_range clock (pc_uids ?c)"
      using less.prems sub by (auto simp: within_range_def)
    ultimately obtain c' where c': "eject_loop len maxSize clock (Suc n) ?c = Some c'"
      "maxSize \<le> 0 \<or> len c' \<le> maxSize \<or> pc_uids c' = []" "set (pc_uids c') \<subseteq> set (pc_uids ?c)"
      "\<forall>e\<in>set (pc_uids ?c) - set (pc_uids c'). \<forall>f\<in>set (pc_uids c'). ue_Expires (snd e) \<le> ue_Expires (snd f)"
      "pc_optOut c' = pc_optOut ?c" "pc_birthday c' = pc_birthday ?c" using less.hyps by blast
    have "eject_loop len maxSize clock n c = Some c'" using True c'(1) by (subst eject_loop.simps) simp
    moreover have "ue_Expires (snd x) \<le> ue_Expires (snd f)"
      if x: "x \<in> set (pc_uids c) - set (pc_uids c')" and f: "f \<in> set (pc_uids c')" for x f
    proof (cases "fst x = fst e")
      case True
      from x have "x \<in> set (pc_uids c)" by simp
      from only [OF this True] have "x = e" .
      moreover have "f \<in> set (pc_uids c)" using f c'(3) sub by auto
      ultimately show ?thesis using min by simp
    next
      case False
      with x sub have "x \<in> set (pc_uids ?c) - set (pc_uids c')" by simp
      with c'(4) f show ?thesis by blast
    qed
    ultimately show ?thesis using c' sub by (intro exI [of _ c']) auto
  qed
qed

text \<open>
  C32. Making the cookie fit ends and gives up the ids that expire first. When all ids expire within 292
  years, the loop returns a cookie that fits or has no ids left; the ids kept are some of those there
  were, none that was given up expires later than one that is kept, and nothing else changes.
\<close>

theorem cookie_eviction:
  assumes "wf_map (pc_uids c)" and "within_range clock (pc_uids c)"
  shows "\<exists>c'. SetCookieOnResponse ck len clock host site c = Some (c', ToHTTPCookie ck c', site) \<and>
    (hk_MaxCookieSizeBytes host \<le> 0 \<or> len c' \<le> hk_MaxCookieSizeBytes host \<or> pc_uids c' = []) \<and>
    set (pc_uids c') \<subseteq> set (pc_uids c) \<and>
    (\<forall>e\<in>set (pc_uids c) - set (pc_uids c'). \<forall>f\<in>set (pc_uids c'). ue_Expires (snd e) \<le> ue_Expires (snd f)) \<and>
    pc_optOut c' = pc_optOut c \<and> pc_birthday c' = pc_birthday c"
  using eject_loop_returns [OF assms, of len "hk_MaxCookieSizeBytes host" 0] by (auto simp: SetCookieOnResponse_def)

text \<open>
  With ids that expire later than that the loop need not end: no id is below the bound it starts from, so it
  removes the id of the empty name again and again. The times come from the cookie, which the client may write.
\<close>

lemma eject_loop_diverges:
  assumes "\<forall>n. \<forall>e\<in>set (pc_uids c). ue_Expires (snd e) - clock n \<ge> max_int64" and "[] \<notin> fst ` set (pc_uids c)"
    and "maxSize > 0" and "len c > maxSize" and "pc_uids c \<noteq> []"
  shows "eject_loop len maxSize clock n c = None"
proof -
  have stay: "fold (older (clock m)) (pc_uids c) ([], max_int64) = ([], max_int64)" for m
  proof -
    have "older (clock m) e ([], max_int64) = ([], max_int64)" if "e \<in> set (pc_uids c)" for e
      using assms(1) that by (auto simp: older_def time_Until_def max_int64_def Let_def)
    then have "fold (older (clock m)) xs ([], max_int64) = ([], max_int64)" if "set xs \<subseteq> set (pc_uids c)" for xs
      using that by (induction xs) auto
    then show ?thesis by simp
  qed
  have same: "c\<lparr>pc_uids := del (oldest_elem (clock m) (pc_uids c)) (pc_uids c)\<rparr> = c" for m
    using assms(2) by (simp add: oldest_elem_def stay delete_id)
  let ?P = "\<lambda>l s k (n :: nat) x (y :: PBSCookie). l = len \<and> s = maxSize \<and> k = clock \<longrightarrow> x \<noteq> c"
  have "?P l s k n x y" if "eject_loop l s k n x = Some y" for l s k n x y
    using that
  proof (rule eject_loop.raw_induct [where P = ?P, rotated])
    fix f l s k n x y
    assume IH: "\<And>l s k n x y. f l s k n x = Some y \<Longrightarrow> ?P l s k n x y"
      and body: "(if 0 < s \<and> s < l x \<and> pc_uids x \<noteq> []
        then f l s k (Suc n) (x\<lparr>pc_uids := del (oldest_elem (k n) (pc_uids x)) (pc_uids x)\<rparr>) else Some x) = Some y"
    show "?P l s k n x y"
    proof clarify
      assume "l = len" "s = maxSize" "k = clock" "x = c"
      with body assms(3-5) same have "f len maxSize clock (Suc n) c = Some y" by (simp split: if_splits)
      with IH show False by blast
    qed
  qed
  then show ?thesis by (metis not_None_eq)
qed

section \<open>Properties: the state of a cookie\<close>

text \<open>What holds of every cookie: one id per family, no id after an opt-out, no fake id of Facebook.\<close>

definition ok_cookie :: "PBSCookie \<Rightarrow> bool" where
  "ok_cookie c = (wf_map (pc_uids c) \<and> (pc_optOut c \<longrightarrow> pc_uids c = []) \<and>
     (case lookup (pc_uids c) BidderAudienceNetwork of Some u \<Rightarrow> ue_UID u \<noteq> ''0'' | None \<Rightarrow> True))"

lemma ok_new [simp]: "ok_cookie (NewPBSCookie now)" "ok_cookie (NewPBSCookieWithOptOut now)"
  by (simp_all add: ok_cookie_def NewPBSCookie_def NewPBSCookieWithOptOut_def)

lemma ok_preference [simp]: "ok_cookie c \<Longrightarrow> ok_cookie (SetPreference allow c)"
  by (auto simp: ok_cookie_def SetPreference_def)

lemma ok_unsync [simp]: "ok_cookie c \<Longrightarrow> ok_cookie (Unsync family c)"
  by (auto simp: ok_cookie_def Unsync_def)

lemma ok_sync: "ok_cookie c \<Longrightarrow> TrySync now c family uid = Inr c' \<Longrightarrow> ok_cookie c'"
  by (auto simp: ok_cookie_def TrySync_def AllowSyncs_def split: if_splits option.splits)

lemma legacy_wf: "wf_map m \<Longrightarrow> wf_map (legacy_uids now legacy m)"
  unfolding legacy_uids_def by (rule fold_invariant_set) (auto split: prod.splits)

lemma dec_cookie_wf:
  assumes "dec_pbsCookieJson ck j \<lparr>cj_LegacyUIDs = [], cj_UIDs = [], cj_OptOut = False, cj_Birthday = None\<rparr> = Some k"
  shows "wf_map (cj_UIDs k)"
  using assms by (auto simp: dec_pbsCookieJson_def dec_struct_def field_Some split: json.splits option.splits
      intro: dec_field_map_wf)

lemma ok_unmarshal: "ok_cookie c \<Longrightarrow> ok_cookie (UnmarshalCookie ck now j c)"
  using dec_cookie_wf [of ck j] legacy_wf
  by (auto simp: UnmarshalCookie_def Let_def ok_cookie_def split: option.splits)

lemma ok_parse: "ok_cookie (ParsePBSCookie ck now v)"
  by (auto simp: ParsePBSCookie_def ok_unmarshal split: option.splits raw.splits)

lemma ok_parse_request: "ok_cookie (ParsePBSCookieFromRequest ck now host cookies)"
proof -
  have try_ok: "ok_cookie (case TrySync now c f v of Inr c' \<Rightarrow> c' | Inl e \<Rightarrow> c)" if "ok_cookie c" for c f v
    using ok_sync [OF that] that by (cases "TrySync now c f v") auto
  have parsed: "ok_cookie (case cookies ''uids'' of Some v \<Rightarrow> ParsePBSCookie ck now v | None \<Rightarrow> NewPBSCookie now)"
    by (simp add: ok_parse split: option.split)
  show ?thesis using try_ok [OF parsed] parsed
    by (cases "cookies (hk_CookieName host)") (simp_all add: ParsePBSCookieFromRequest_def Let_def)
qed

text \<open>Reading and syncing.\<close>

lemma get_after_sync:
  "TrySync now c family uid = Inr c' \<Longrightarrow>
   GetUID later c' f = (if f = family then (uid, True, later < now + DEFAULT_TTL) else GetUID later c f)"
  by (auto simp: TrySync_def GetUID_def getExpiry_def split: if_splits)

lemma get_after_unsync: "GetUID now (Unsync family c) f = (if f = family then ([], False, False) else GetUID now c f)"
  by (auto simp: Unsync_def GetUID_def)

lemma live_count_families:
  assumes "ok_cookie c"
  shows "LiveSyncCount now c = int (card {f. HasLiveSync now c f})"
proof -
  let ?live = "filter (\<lambda>(_, u). now < ue_Expires u) (pc_uids c)"
  have wf: "wf_map (pc_uids c)" using assms by (simp add: ok_cookie_def)
  then have dist: "distinct (map fst ?live)" by (simp add: wf_map_def distinct_map_filter)
  have "set (map fst ?live) = {f. HasLiveSync now c f}"
  proof (rule set_eqI)
    fix f
    have "f \<in> set (map fst ?live) \<longleftrightarrow> (\<exists>u. (f, u) \<in> set (pc_uids c) \<and> now < ue_Expires u)" by force
    also have "\<dots> \<longleftrightarrow> (\<exists>u. lookup (pc_uids c) f = Some u \<and> now < ue_Expires u)"
      by (simp only: wf_map_lookup_iff [OF wf])
    also have "\<dots> \<longleftrightarrow> f \<in> {f. HasLiveSync now c f}"
      by (cases "lookup (pc_uids c) f") (simp_all add: HasLiveSync_def GetUID_def)
    finally show "f \<in> set (map fst ?live) \<longleftrightarrow> f \<in> {f. HasLiveSync now c f}" .
  qed
  with dist have "card {f. HasLiveSync now c f} = length (map fst ?live)" using distinct_card [OF dist] by simp
  then show ?thesis by (simp add: LiveSyncCount_def)
qed

section \<open>Properties: the round trip of the cookie\<close>

lemma sort_key_map_fst: "sort_key fst (map (\<lambda>e. (fst e, g (snd e))) m) = map (\<lambda>e. (fst e, g (snd e))) (sort_key fst m)"
proof -
  have "insort_key fst (fst e, g (snd e)) (map (\<lambda>e. (fst e, g (snd e))) xs) = map (\<lambda>e. (fst e, g (snd e))) (insort_key fst e xs)" for e xs
    by (induction xs) auto
  note ins = this
  show ?thesis by (induction m) (simp_all add: ins)
qed

lemma dec_entries_round_trip:
  assumes "distinct (map fst xs)" and "set (map fst xs) \<inter> fst ` set m = {}" and "\<And>e. e \<in> set xs \<Longrightarrow> d (g (snd e)) z = Some (snd e)"
  shows "dec_entries d z (map (\<lambda>e. (fst e, g (snd e))) xs) m = Some (m @ xs)"
  using assms
proof (induction xs arbitrary: m)
  case (Cons e xs)
  obtain k x where e: "e = (k, x)" by (cases e)
  have "put k x m = m @ [(k, x)]"
    using fold_put_distinct [of "[(k, x)]" m] Cons.prems(2) by (auto simp: e)
  moreover have "d (g x) z = Some x" using Cons.prems(3) [of e] by (simp add: e)
  moreover have "dec_entries d z (map (\<lambda>e. (fst e, g (snd e))) xs) (m @ [(k, x)]) = Some ((m @ [(k, x)]) @ xs)"
    using Cons.prems by (intro Cons.IH) (auto simp: e)
  ultimately show ?case by (simp add: e)
qed simp

lemma enc_map_round_trip:
  assumes "wf_map m" and "\<And>k x. (k, x) \<in> set m \<Longrightarrow> \<exists>j. enc x = Some j \<and> d j z = Some x"
  shows "\<exists>kvs. enc_map enc m = Some (JObj kvs) \<and> dec_entries d z kvs [] = Some (sort_key fst m)"
proof -
  let ?h = "\<lambda>e. (fst e, the (enc (snd e)))"
  have ok: "enc (snd e) = Some (the (enc (snd e))) \<and> d (the (enc (snd e))) z = Some (snd e)" if "e \<in> set m" for e
    using assms(2) [of "fst e" "snd e"] that by force
  have "map_option (\<lambda>j. (fst e, j)) (enc (snd e)) = Some (?h e)" if "e \<in> set m" for e
    using that by (subst ok [THEN conjunct1]) simp_all
  then have "map (\<lambda>e. map_option (\<lambda>j. (fst e, j)) (enc (snd e))) m = map (\<lambda>e. Some (?h e)) m"
    by (intro map_cong refl)
  moreover have "all_some (map (\<lambda>e. Some (?h e)) xs) = Some (map ?h xs)" for xs by (induction xs) auto
  ultimately have "all_some (map (\<lambda>e. map_option (\<lambda>j. (fst e, j)) (enc (snd e))) m) = Some (map ?h m)" by (simp only:)
  then have "enc_map enc m = Some (JObj (map ?h (sort_key fst m)))"
    using sort_key_map_fst [of "\<lambda>x. the (enc x)" m] by (simp add: enc_map_def encode_map_def)
  moreover have "dec_entries d z (map ?h (sort_key fst m)) [] = Some ([] @ sort_key fst m)"
    using wf_map_sorted [of m] assms(1) ok
    by (intro dec_entries_round_trip [where g = "\<lambda>x. the (enc x)"]) (auto simp: wf_map_def)
  ultimately show ?thesis by simp
qed

text \<open>What the cookie relies on: the JSON text in base64 is read back, and so are the times the cookie has.\<close>

definition time_reads :: "cookie_codec \<Rightarrow> int \<Rightarrow> bool" where
  "time_reads ck t = (case ck_writeTime ck t of Some j \<Rightarrow> j \<noteq> JNull \<and> ck_readTime ck j = Some t | None \<Rightarrow> False)"

definition codec_reads :: "cookie_codec \<Rightarrow> PBSCookie \<Rightarrow> bool" where
  "codec_reads ck c = ((\<forall>e\<in>set (pc_uids c). time_reads ck (ue_Expires (snd e))) \<and>
     (case pc_birthday c of Some t \<Rightarrow> time_reads ck t | None \<Rightarrow> True) \<and>
     (case MarshalCookie ck c of Some j \<Rightarrow> ck_decode ck (ck_encode ck j) = Some (Raw j) | None \<Rightarrow> True))"

lemma cookie_field_names [simp]:
  "to_lower ''uid'' = ''uid''" "to_lower ''expires'' = ''expires''" "to_lower ''tempUIDs'' = ''tempuids''"
  "to_lower ''optout'' = ''optout''" "to_lower ''bday'' = ''bday''"
  by code_simp+

lemma uid_round_trip:
  assumes "time_reads ck (ue_Expires u)"
  shows "\<exists>j. enc_uidWithExpiry ck u = Some j \<and> dec_uidWithExpiry ck j \<lparr>ue_UID = [], ue_Expires = zero_time\<rparr> = Some u"
proof -
  from assms obtain t where t: "ck_writeTime ck (ue_Expires u) = Some t" "t \<noteq> JNull" "ck_readTime ck t = Some (ue_Expires u)"
    by (auto simp: time_reads_def split: option.splits)
  let ?ms = "[(''uid'', Member (JStr (ue_UID u))), (''expires'', nested (ck_writeTime ck (ue_Expires u)))]"
  obtain kvs where kvs: "enc_members ?ms = Some kvs" using enc_members_total [of ?ms] t(1) by auto
  have "dec_uidWithExpiry ck (JObj kvs) \<lparr>ue_UID = [], ue_Expires = zero_time\<rparr> = Some u"
    using t unfolding dec_uidWithExpiry_def by (simp add: read_back dec_time_def json_field_members [OF kvs])
  with kvs show ?thesis by (simp add: enc_uidWithExpiry_def enc_struct_def del: enc_members.simps)
qed

lemma marshal_round_trip:
  assumes "wf_map (pc_uids c)" and "codec_reads ck c"
  shows "\<exists>j. MarshalCookie ck c = Some j \<and>
    dec_pbsCookieJson ck j \<lparr>cj_LegacyUIDs = [], cj_UIDs = [], cj_OptOut = False, cj_Birthday = None\<rparr> =
    Some \<lparr>cj_LegacyUIDs = [], cj_UIDs = sort_key fst (pc_uids c), cj_OptOut = pc_optOut c, cj_Birthday = pc_birthday c\<rparr>"
proof -
  have "\<exists>j. enc_uidWithExpiry ck u = Some j \<and> dec_uidWithExpiry ck j \<lparr>ue_UID = [], ue_Expires = zero_time\<rparr> = Some u"
    if "(k, u) \<in> set (pc_uids c)" for k u
    using assms(2) that by (intro uid_round_trip) (auto simp: codec_reads_def)
  then have "\<exists>us. enc_map (enc_uidWithExpiry ck) (pc_uids c) = Some (JObj us) \<and>
    dec_entries (dec_uidWithExpiry ck) \<lparr>ue_UID = [], ue_Expires = zero_time\<rparr> us [] = Some (sort_key fst (pc_uids c))"
    by (intro enc_map_round_trip assms(1))
  then
  obtain us where us: "enc_map (enc_uidWithExpiry ck) (pc_uids c) = Some (JObj us)"
    "dec_entries (dec_uidWithExpiry ck) \<lparr>ue_UID = [], ue_Expires = zero_time\<rparr> us [] = Some (sort_key fst (pc_uids c))" by auto
  let ?ms = "[(''tempUIDs'', omit_if (pc_uids c = []) (nested (enc_map (enc_uidWithExpiry ck) (pc_uids c)))),
     (''optout'', omit_if (\<not> pc_optOut c) (Member (JBool (pc_optOut c)))),
     (''bday'', opt_ptr (ck_writeTime ck) (pc_birthday c))]"
  have bday: "\<exists>j. ck_writeTime ck t = Some j \<and> j \<noteq> JNull \<and> ck_readTime ck j = Some t" if "pc_birthday c = Some t" for t
    using assms(2) that by (auto simp: codec_reads_def time_reads_def split: option.splits)
  obtain kvs where kvs: "enc_members ?ms = Some kvs"
    using enc_members_total [of ?ms] us(1) bday by auto
  have "dec_pbsCookieJson ck (JObj kvs) \<lparr>cj_LegacyUIDs = [], cj_UIDs = [], cj_OptOut = False, cj_Birthday = None\<rparr> =
    Some \<lparr>cj_LegacyUIDs = [], cj_UIDs = sort_key fst (pc_uids c), cj_OptOut = pc_optOut c, cj_Birthday = pc_birthday c\<rparr>"
  proof (cases "pc_birthday c")
    case None
    with us show ?thesis unfolding dec_pbsCookieJson_def
      by (cases "pc_uids c = []"; cases "pc_optOut c") (simp_all add: read_back json_field_members [OF kvs])
  next
    case (Some t)
    with bday [OF Some] us show ?thesis unfolding dec_pbsCookieJson_def
      by (cases "pc_uids c = []"; cases "pc_optOut c") 
         (auto simp add: read_back dec_ptr_def dec_time_def json_field_members [OF kvs])
  qed
  with kvs show ?thesis by (simp add: MarshalCookie_def enc_struct_def del: enc_members.simps)
qed

lemma parse_written:
  assumes "ok_cookie c" and "codec_reads ck c"
  shows "ParsePBSCookie ck now (ToHTTPCookie ck c) = c\<lparr>pc_uids := sort_key fst (pc_uids c)\<rparr>"
proof -
  have wf: "wf_map (pc_uids c)" using assms(1) by (simp add: ok_cookie_def)
  from marshal_round_trip [OF wf assms(2)] obtain j where j: "MarshalCookie ck c = Some j"
    "dec_pbsCookieJson ck j \<lparr>cj_LegacyUIDs = [], cj_UIDs = [], cj_OptOut = False, cj_Birthday = None\<rparr> =
     Some \<lparr>cj_LegacyUIDs = [], cj_UIDs = sort_key fst (pc_uids c), cj_OptOut = pc_optOut c, cj_Birthday = pc_birthday c\<rparr>" by auto
  from j(1) assms(2) have "ck_decode ck (ck_encode ck j) = Some (Raw j)" by (simp add: codec_reads_def)
  then show ?thesis using assms(1) j wf
    by (auto simp: ParsePBSCookie_def ToHTTPCookie_def UnmarshalCookie_def Let_def legacy_uids_def ok_cookie_def split: option.splits)
qed

text \<open>
  C33. A cookie that is written is read back: the value the response carries is parsed on the next request
  to the same ids with the same times of expiry, the same opt-out and the same birthday.
\<close>

theorem cookie_round_trip:
  assumes "ok_cookie c" and "codec_reads ck c"
  shows "ParsePBSCookie ck now (ToHTTPCookie ck c) = c\<lparr>pc_uids := sort_key fst (pc_uids c)\<rparr> \<and>
    (\<forall>f. GetUID later (ParsePBSCookie ck now (ToHTTPCookie ck c)) f = GetUID later c f)"
  using parse_written [OF assms] assms(1) by (simp add: GetUID_def ok_cookie_def)

theorem cookie_round_trip_witness:
  "let u = \<lparr>ue_UID = ''7'', ue_Expires = 50\<rparr>; c = \<lparr>pc_uids = [(''b'', u), (''a'', u)], pc_optOut = False, pc_birthday = Some 3\<rparr>;
     j = JObj [(''tempUIDs'', JObj [(''a'', JObj [(''uid'', JStr ''7''), (''expires'', JInt 50)]), (''b'', JObj [(''uid'', JStr ''7''), (''expires'', JInt 50)])]),
               (''bday'', JInt 3)];
     ck = \<lparr>ck_encode = (\<lambda>_. ''x''), ck_decode = (\<lambda>_. Some (Raw j)), ck_writeTime = (\<lambda>t. Some (JInt t)),
           ck_readTime = (\<lambda>j. case j of JInt t \<Rightarrow> Some t | _ \<Rightarrow> None)\<rparr>
   in ParsePBSCookie ck 9 (ToHTTPCookie ck c) = c\<lparr>pc_uids := [(''a'', u), (''b'', u)]\<rparr>"
  unfolding Let_def
  by (subst cookie_round_trip [THEN conjunct1]; code_simp)

theorem cookie_eviction_witness:
  "let u = (\<lambda>i t. \<lparr>ue_UID = i, ue_Expires = t\<rparr>);
     c = \<lparr>pc_uids = [(''a'', u ''1'' 90), (''b'', u ''2'' 50), (''c'', u ''3'' 70)], pc_optOut = False, pc_birthday = None\<rparr>;
     host = \<lparr>hk_Domain = [], hk_Family = [], hk_CookieName = [], hk_MaxCookieSizeBytes = 2, hk_OptOutName = [], hk_OptOutValue = [], hk_TTL = 1\<rparr>;
     ck = \<lparr>ck_encode = (\<lambda>_. ''x''), ck_decode = (\<lambda>_. None), ck_writeTime = (\<lambda>_. None), ck_readTime = (\<lambda>_. None)\<rparr>
   in \<exists>c'. SetCookieOnResponse ck (\<lambda>c. int (length (pc_uids c))) (\<lambda>n. int n mod 2) host True c = Some (c', ToHTTPCookie ck c', True) \<and>
      (int (length (pc_uids c')) \<le> 2 \<or> pc_uids c' = []) \<and> set (pc_uids c') \<subseteq> set (pc_uids c)"
  unfolding Let_def
proof -
  let ?u = "\<lambda>i t. \<lparr>ue_UID = i, ue_Expires = t\<rparr>"
  let ?c = "\<lparr>pc_uids = [(''a'', ?u ''1'' 90), (''b'', ?u ''2'' 50), (''c'', ?u ''3'' 70)], pc_optOut = False, pc_birthday = None\<rparr>"
  let ?h = "\<lparr>hk_Domain = [], hk_Family = [], hk_CookieName = [], hk_MaxCookieSizeBytes = 2, hk_OptOutName = [], hk_OptOutValue = [], hk_TTL = 1\<rparr>"
  let ?ck = "\<lparr>ck_encode = (\<lambda>_. ''x''), ck_decode = (\<lambda>_. None), ck_writeTime = (\<lambda>_. None), ck_readTime = (\<lambda>_. None)\<rparr>"
  have "wf_map (pc_uids ?c)" by code_simp
  moreover have "within_range (\<lambda>n. int n mod 2) (pc_uids ?c)"
  proof -
    have "0 \<le> int n mod 2" "int n mod 2 < 2" for n by simp_all
    then have "\<bar>t - int n mod 2\<bar> < max_int64" if "t \<in> {50, 70, 90}" for t :: int and n
      using that by (auto simp: max_int64_def abs_less_iff)
    then have "\<bar>90 - int n mod 2\<bar> < max_int64" "\<bar>50 - int n mod 2\<bar> < max_int64" "\<bar>70 - int n mod 2\<bar> < max_int64" for n
      by blast+
    then show ?thesis by (simp only: within_range_def) simp
  qed
  ultimately show "\<exists>c'. SetCookieOnResponse ?ck (\<lambda>c. int (length (pc_uids c))) (\<lambda>n. int n mod 2) ?h True ?c = Some (c', ToHTTPCookie ?ck c', True) \<and>
      (int (length (pc_uids c')) \<le> 2 \<or> pc_uids c' = []) \<and> set (pc_uids c') \<subseteq> set (pc_uids ?c)"
    using cookie_eviction [of ?c "\<lambda>n. int n mod 2" ?ck "\<lambda>c. int (length (pc_uids c))" ?h True] by auto
qed

end
