(* ===== verification/Auction_Endpoint.thy ===== *)
theory Auction_Endpoint
  imports Request_Validation Exchange Stored_Fetch Usersync
begin

text \<open>
  The endpoint \<open>/openrtb2/auction\<close> (\<open>endpoints/openrtb2/auction.go\<close>): reading the body, merging stored requests into it, filling in
  what the HTTP request implies (with \<open>util/iputil\<close> and \<open>util/httputil\<close>), validating, finding the account, holding the auction
  and writing the answer. A panic is caught by the handler.

  Parameters: the packages \<open>net\<close>, \<open>jsonparser\<close>, \<open>jsonpatch\<close> and \<open>publicsuffix\<close> (the records \<open>net_lib\<close> and \<open>json_lib\<close>), the decoding of
  the whole request into the structs of \<open>openrtb2\<close>, the stored request and account fetchers, and the exchange, which the code
  calls through an interface. JSON texts are kept as parsed values, as everywhere in the development.
\<close>

section \<open>IP addresses\<close>

record ('ip, 'net) net_lib =
  nl_ParseIP :: "string \<Rightarrow> 'ip option"
  nl_String :: "'ip \<Rightarrow> string"
  nl_Contains :: "'net \<Rightarrow> 'ip \<Rightarrow> bool"
  nl_SplitHostPort :: "string \<Rightarrow> string option"
  nl_Domain :: "string \<Rightarrow> string option"

datatype IPVersion = IPvUnknown | IPv4 | IPv6

definition ParseIP :: "('ip, 'net) net_lib \<Rightarrow> string \<Rightarrow> 'ip option \<times> IPVersion" where
  "ParseIP lib v = (case nl_ParseIP lib v of
     Some ip \<Rightarrow> (Some ip, if CHR '':'' \<in> set v then IPv6 else IPv4) | None \<Rightarrow> (None, IPvUnknown))"

record 'net PublicNetworkIPValidator =
  IPv4PrivateNetworks :: "'net list"
  IPv6PrivateNetworks :: "'net list"

definition IsValid :: "('ip, 'net) net_lib \<Rightarrow> 'net PublicNetworkIPValidator \<Rightarrow> 'ip \<Rightarrow> IPVersion \<Rightarrow> bool" where
  "IsValid lib v ip ver = (case ver of
     IPv4 \<Rightarrow> \<not> list_ex (\<lambda>n. nl_Contains lib n ip) (IPv4PrivateNetworks v)
   | IPv6 \<Rightarrow> \<not> list_ex (\<lambda>n. nl_Contains lib n ip) (IPv6PrivateNetworks v)
   | IPvUnknown \<Rightarrow> False)"

text \<open>The parts of \<open>http.Request\<close> that are read. \<open>strings.TrimSpace\<close> is on ASCII.\<close>

record http_in =
  hi_Header :: "string \<Rightarrow> string"
  hi_Scheme :: string
  hi_TLS :: bool
  hi_RemoteAddr :: string
  hi_cookies :: "string \<Rightarrow> string option"
  hi_Body :: string
  hi_BodyError :: "go_error option"

definition is_space :: "char \<Rightarrow> bool" where
  "is_space c = (c \<in> {CHR 9, CHR 10, CHR 11, CHR 12, CHR 13, CHR 32})"

definition trim_space :: "string \<Rightarrow> string" where
  "trim_space s = rev (dropWhile is_space (rev (dropWhile is_space s)))"

definition IsSecure :: "http_in \<Rightarrow> bool" where
  "IsSecure r = (equal_fold (hi_Header r ''X-Forwarded-Proto'') ''https'' \<or> equal_fold (hi_Scheme r) ''https'' \<or> hi_TLS r)"

definition valid_ip :: "('ip, 'net) net_lib \<Rightarrow> 'net PublicNetworkIPValidator \<Rightarrow> string \<Rightarrow> ('ip \<times> IPVersion) option" where
  "valid_ip lib v s = (case ParseIP lib s of
     (Some ip, ver) \<Rightarrow> if IsValid lib v ip ver then Some (ip, ver) else None | (None, _) \<Rightarrow> None)"

definition find_header :: "('ip, 'net) net_lib \<Rightarrow> 'net PublicNetworkIPValidator \<Rightarrow> string \<Rightarrow> http_in \<Rightarrow> ('ip \<times> IPVersion) option" where
  "find_header lib v key r = (let val = hi_Header r key in if val = [] then None else valid_ip lib v (trim_space val))"

fun first_valid :: "('ip, 'net) net_lib \<Rightarrow> 'net PublicNetworkIPValidator \<Rightarrow> string list \<Rightarrow> ('ip \<times> IPVersion) option" where
  "first_valid lib v [] = None"
| "first_valid lib v (p # ps) = (case valid_ip lib v (trim_space p) of Some r \<Rightarrow> Some r | None \<Rightarrow> first_valid lib v ps)"

definition findForwardedFor :: "('ip, 'net) net_lib \<Rightarrow> 'net PublicNetworkIPValidator \<Rightarrow> http_in \<Rightarrow> ('ip \<times> IPVersion) option" where
  "findForwardedFor lib v r =
     (let val = hi_Header r ''X-Forwarded-For'' in if val = [] then None else first_valid lib v (split_on (CHR '','') val))"

definition findRemoteAddr :: "('ip, 'net) net_lib \<Rightarrow> 'net PublicNetworkIPValidator \<Rightarrow> http_in \<Rightarrow> ('ip \<times> IPVersion) option" where
  "findRemoteAddr lib v r = (case nl_SplitHostPort lib (hi_RemoteAddr r) of None \<Rightarrow> None | Some host \<Rightarrow> valid_ip lib v host)"

definition FindIP :: "('ip, 'net) net_lib \<Rightarrow> 'net PublicNetworkIPValidator \<Rightarrow> http_in \<Rightarrow> ('ip \<times> IPVersion) option" where
  "FindIP lib v r = (case find_header lib v ''True-Client-Ip'' r of Some x \<Rightarrow> Some x | None \<Rightarrow>
     (case findForwardedFor lib v r of Some x \<Rightarrow> Some x | None \<Rightarrow>
     (case find_header lib v ''X-Real-Ip'' r of Some x \<Rightarrow> Some x | None \<Rightarrow> findRemoteAddr lib v r)))"

section \<open>Fields from the HTTP request\<close>

text \<open>\<open>jsonparser\<close> and \<open>jsonpatch\<close>. \<open>jl_Imps\<close> is \<open>Get\<close> of \<open>imp\<close> followed by \<open>ArrayEach\<close>, with no elements if it is no array.\<close>

record json_lib =
  jl_Get :: "raw \<Rightarrow> string list \<Rightarrow> jp_kind \<times> string \<times> go_error option"
  jl_Imps :: "raw \<Rightarrow> raw list"
  jl_Set :: "raw \<Rightarrow> json \<Rightarrow> string \<Rightarrow> go_error + raw"
  jl_MergePatch :: "raw \<Rightarrow> raw \<Rightarrow> go_error + raw"
  jl_SyntaxError :: "raw \<Rightarrow> string option"

definition device_of :: "BidRequest \<Rightarrow> Device" where
  "device_of req = (case req_Device req of None \<Rightarrow> emptyDevice | Some d \<Rightarrow> d)"

definition sanitize_ip :: "('ip, 'net) net_lib \<Rightarrow> 'net PublicNetworkIPValidator \<Rightarrow> IPVersion \<Rightarrow> string \<Rightarrow> string" where
  "sanitize_ip lib v wanted s = (case ParseIP lib s of
     (Some ip, ver) \<Rightarrow> if ver \<noteq> wanted \<or> \<not> IsValid lib v ip ver then [] else s | (None, _) \<Rightarrow> [])"

definition sanitizeRequest :: "('ip, 'net) net_lib \<Rightarrow> 'net PublicNetworkIPValidator \<Rightarrow> BidRequest \<Rightarrow> BidRequest" where
  "sanitizeRequest lib v r = r\<lparr>req_Device := map_option (\<lambda>d. d\<lparr>dev_IP := sanitize_ip lib v IPv4 (dev_IP d),
     dev_IPv6 := sanitize_ip lib v IPv6 (dev_IPv6 d)\<rparr>) (req_Device r)\<rparr>"

definition setIPImplicitly :: "('ip, 'net) net_lib \<Rightarrow> 'net PublicNetworkIPValidator \<Rightarrow> http_in \<Rightarrow> BidRequest \<Rightarrow> BidRequest" where
  "setIPImplicitly lib v httpReq req =
     (if (case req_Device req of None \<Rightarrow> True | Some d \<Rightarrow> dev_IP d = [] \<and> dev_IPv6 d = [])
      then (case FindIP lib v httpReq of
         Some (ip, IPv4) \<Rightarrow> req\<lparr>req_Device := Some ((device_of req)\<lparr>dev_IP := nl_String lib ip\<rparr>)\<rparr>
       | Some (ip, IPv6) \<Rightarrow> req\<lparr>req_Device := Some ((device_of req)\<lparr>dev_IPv6 := nl_String lib ip\<rparr>)\<rparr>
       | _ \<Rightarrow> req)
      else req)"

definition setUAImplicitly :: "http_in \<Rightarrow> BidRequest \<Rightarrow> BidRequest" where
  "setUAImplicitly httpReq req =
     (if (case req_Device req of None \<Rightarrow> True | Some d \<Rightarrow> dev_UA d = []) \<and> hi_Header httpReq ''User-Agent'' \<noteq> []
      then req\<lparr>req_Device := Some ((device_of req)\<lparr>dev_UA := hi_Header httpReq ''User-Agent''\<rparr>)\<rparr> else req)"

definition setDoNotTrackImplicitly :: "http_in \<Rightarrow> BidRequest \<Rightarrow> BidRequest" where
  "setDoNotTrackImplicitly httpReq req =
     (let dnt = hi_Header httpReq ''Dnt''
      in if (case req_Device req of None \<Rightarrow> True | Some d \<Rightarrow> dev_DNT d = None) \<and> (dnt = ''0'' \<or> dnt = ''1'')
         then req\<lparr>req_Device := Some ((device_of req)\<lparr>dev_DNT := Some (if dnt = ''0'' then 0 else 1)\<rparr>)\<rparr> else req)"

definition setDeviceImplicitly :: "('ip, 'net) net_lib \<Rightarrow> 'net PublicNetworkIPValidator \<Rightarrow> http_in \<Rightarrow> BidRequest \<Rightarrow> BidRequest" where
  "setDeviceImplicitly lib v httpReq req = setDoNotTrackImplicitly httpReq (setUAImplicitly httpReq (setIPImplicitly lib v httpReq req))"

definition setAuctionTypeImplicitly :: "BidRequest \<Rightarrow> BidRequest" where
  "setAuctionTypeImplicitly req = (if req_AT req = 0 then req\<lparr>req_AT := 1\<rparr> else req)"

definition setAmpExt :: "json_lib \<Rightarrow> Site \<Rightarrow> int \<Rightarrow> Site" where
  "setAmpExt jl site v =
     (if site_Ext site \<noteq> RawEmpty
      then (if fst (jl_Get jl (site_Ext site) [''amp'']) = JfNotExist
            then (case jl_Set jl (site_Ext site) (JInt v) ''amp'' of Inr val \<Rightarrow> site\<lparr>site_Ext := val\<rparr> | Inl _ \<Rightarrow> site)
            else site)
      else site\<lparr>site_Ext := Raw (JObj [(''amp'', JInt v)])\<rparr>)"

definition site_from_referer :: "('ip, 'net) net_lib \<Rightarrow> string \<Rightarrow> Site option \<Rightarrow> Site option" where
  "site_from_referer lib referrerCandidate site =
     (if (case site of None \<Rightarrow> True | Some s \<Rightarrow> site_Page s = [] \<or> site_Domain s = [])
      then (case nl_Domain lib referrerCandidate of
         None \<Rightarrow> site
       | Some domain \<Rightarrow>
           (let s = (case site of None \<Rightarrow> emptySite | Some s \<Rightarrow> s)
            in Some (s\<lparr>site_Domain := if site_Domain s = [] then domain else site_Domain s,
                 site_Page := if site_Page s = [] then referrerCandidate else site_Page s\<rparr>)))
      else site)"

definition setSiteImplicitly :: "('ip, 'net) net_lib \<Rightarrow> json_lib \<Rightarrow> http_in \<Rightarrow> BidRequest \<Rightarrow> BidRequest" where
  "setSiteImplicitly lib jl httpReq req =
     req\<lparr>req_Site := map_option (\<lambda>s. setAmpExt jl s 0) (site_from_referer lib (hi_Header httpReq ''Referer'') (req_Site req))\<rparr>"

definition setImpsImplicitly :: "http_in \<Rightarrow> Imp list \<Rightarrow> Imp list" where
  "setImpsImplicitly httpReq imps = map (\<lambda>imp. if imp_Secure imp = None \<and> IsSecure httpReq then imp\<lparr>imp_Secure := Some 1\<rparr> else imp) imps"

definition setFieldsImplicitly :: "('ip, 'net) net_lib \<Rightarrow> json_lib \<Rightarrow> 'net PublicNetworkIPValidator \<Rightarrow> http_in \<Rightarrow> BidRequest \<Rightarrow> BidRequest" where
  "setFieldsImplicitly lib jl v httpReq bidReq =
     (let req1 = setDeviceImplicitly lib v httpReq (sanitizeRequest lib v bidReq);
          req2 = (if req_App req1 = None then setSiteImplicitly lib jl httpReq req1 else req1);
          req3 = req2\<lparr>req_Imp := setImpsImplicitly httpReq (req_Imp req2)\<rparr>
      in setAuctionTypeImplicitly req3)"

section \<open>Stored requests\<close>

definition getStoredRequestId :: "json_lib \<Rightarrow> raw \<Rightarrow> go_error + string option" where
  "getStoredRequestId jl d = (case jl_Get jl d [''ext'', PrebidExtKey, ''storedrequest'', ''id''] of (dataType, v, err) \<Rightarrow>
     if dataType = JfNotExist then Inr None
     else (case err of
        Some e \<Rightarrow> Inl e
      | None \<Rightarrow> if dataType \<noteq> JfString then Inl (OtherError ''ext.prebid.storedrequest.id must be a string'') else Inr (Some v)))"

text \<open>The impressions, the ids of their stored impressions with the positions of the impressions, and the errors.\<close>

fun imp_info :: "json_lib \<Rightarrow> nat \<Rightarrow> raw list \<Rightarrow> (string \<times> nat) list \<times> go_error list" where
  "imp_info jl i [] = ([], [])"
| "imp_info jl i (imp # imps) = (case imp_info jl (i + 1) imps of (ids, errs) \<Rightarrow>
     (case getStoredRequestId jl imp of
        Inl e \<Rightarrow> (ids, e # errs) | Inr (Some storedImpId) \<Rightarrow> ((storedImpId, i) # ids, errs) | Inr None \<Rightarrow> (ids, errs)))"

definition parseImpInfo :: "json_lib \<Rightarrow> raw \<Rightarrow> raw list \<times> (string \<times> nat) list \<times> go_error list" where
  "parseImpInfo jl requestJson = (let imps = jl_Imps jl requestJson in (imps, imp_info jl 0 imps))"

text \<open>A missing entry of a Go map is the nil message.\<close>

definition stored :: "raw data \<Rightarrow> string \<Rightarrow> raw" where
  "stored m i = (case lookup m i of Some r \<Rightarrow> r | None \<Rightarrow> RawEmpty)"

text \<open>The error for a failed merge: the patch is blamed first, then the base, each with a text of its own.\<close>

definition merge_blame :: "json_lib \<Rightarrow> raw \<Rightarrow> string \<Rightarrow> raw \<Rightarrow> string \<Rightarrow> go_error \<Rightarrow> go_error" where
  "merge_blame jl patch patchText base baseText err = (case jl_SyntaxError jl patch of
     Some t \<Rightarrow> OtherError (patchText @ t)
   | None \<Rightarrow> (case jl_SyntaxError jl base of Some t \<Rightarrow> OtherError (baseText @ t) | None \<Rightarrow> err))"

definition merge_or_blame :: "json_lib \<Rightarrow> raw \<Rightarrow> string \<Rightarrow> raw \<Rightarrow> string \<Rightarrow> go_error + raw" where
  "merge_or_blame jl base baseText patch patchText = (case jl_MergePatch jl base patch of
     Inr r \<Rightarrow> Inr r | Inl err \<Rightarrow> Inl (merge_blame jl patch patchText base baseText err))"

fun apply_imps :: "json_lib \<Rightarrow> raw data \<Rightarrow> int \<Rightarrow> (string \<times> nat) list \<Rightarrow> raw list \<Rightarrow> go_error + raw list" where
  "apply_imps jl storedImps i [] imps = Inr imps"
| "apply_imps jl storedImps i ((impId, index) # ids) imps =
     and_then (merge_or_blame jl (stored storedImps impId) (''imp.ext.prebid.storedrequest.id '' @ impId @ '': Stored Imp has Invalid JSON: '')
         (imps ! index) (''Invalid JSON in Imp['' @ itoa i @ ''] of Incoming Request: ''))
       (\<lambda>resolvedImp. apply_imps jl storedImps (i + 1) ids (imps[index := resolvedImp]))"

text \<open>\<open>json.Marshal\<close> of a list of raw messages: a nil one is null, a malformed one an error.\<close>

definition marshal_imps :: "raw list \<Rightarrow> go_error + json" where
  "marshal_imps imps = (if list_ex (\<lambda>r. r = RawBad) imps then Inl json_error
     else Inr (JArr (map (\<lambda>r. case r of Raw j \<Rightarrow> j | _ \<Rightarrow> JNull) imps)))"

definition processStoredRequests ::
  "json_lib \<Rightarrow> (string list \<Rightarrow> string list \<Rightarrow> raw data \<times> raw data \<times> fetch_error list) \<Rightarrow> raw \<Rightarrow> raw \<Rightarrow> go_error list + raw" where
  "processStoredRequests jl FetchRequests defReqJSON requestJson =
     (case getStoredRequestId jl requestJson of
        Inl err \<Rightarrow> Inl [err]
      | Inr storedBidRequest \<Rightarrow> (case parseImpInfo jl requestJson of (imps, ids, errs) \<Rightarrow>
          if errs \<noteq> [] then Inl errs
          else (case FetchRequests (case storedBidRequest of Some i \<Rightarrow> [i] | None \<Rightarrow> []) (map fst ids) of (storedRequests, storedImps, ferrs) \<Rightarrow>
            if ferrs \<noteq> [] then Inl (map fetch_error_value ferrs)
            else map_sum (\<lambda>e. [e]) (\<lambda>r. r)
              (and_then (case storedBidRequest of
                   None \<Rightarrow> Inr requestJson
                 | Some i \<Rightarrow> merge_or_blame jl (stored storedRequests i)
                     (''ext.prebid.storedrequest.id refers to Stored Request '' @ i @ '' which contains Invalid JSON: '')
                     requestJson ''Invalid JSON in Incoming Request: '')
              (\<lambda>resolved1. and_then (if defReqJSON = RawEmpty then Inr resolved1
                 else merge_or_blame jl defReqJSON ''Invalid JSON in Default Request Settings: '' resolved1 ''Invalid JSON in Incoming Request: '')
              (\<lambda>resolvedRequest. and_then (apply_imps jl storedImps 0 ids imps)
              (\<lambda>imps'. if ids = [] then Inr resolvedRequest
                 else and_then (marshal_imps imps') (\<lambda>newImpJson. jl_Set jl resolvedRequest newImpJson ''imp''))))))))"

section \<open>Reading the request\<close>

record ('ip, 'net) endpointDeps =
  ed_validation :: validation_env
  ed_net :: "('ip, 'net) net_lib"
  ed_ipValidator :: "'net PublicNetworkIPValidator"
  ed_json :: json_lib
  ed_parse :: "string \<Rightarrow> raw"
  ed_decode :: "raw \<Rightarrow> BidRequest option"
  ed_FetchRequests :: "int \<Rightarrow> string list \<Rightarrow> string list \<Rightarrow> raw data \<times> raw data \<times> fetch_error list"
  ed_defReqJSON :: raw
  ed_MaxRequestSize :: int
  ed_timeouts :: "int \<times> int"
  ed_getATTS :: get_int
  ed_codec :: cookie_codec
  ed_HostCookie :: HostCookie
  ed_fetchAccount :: "string \<Rightarrow> raw option \<times> fetch_error list"
  ed_mergeAccount :: "raw \<Rightarrow> go_error + Account"
  ed_accounts :: AccountConfig
  ed_HoldAuction :: "auction_call \<Rightarrow> (go_error + BidResponse \<times> go_error option) option"
  ed_encode :: "BidResponse \<Rightarrow> go_error option"

definition storedRequestTimeoutMillis :: int where
  "storedRequestTimeoutMillis = 50"

definition millisecond :: int where
  "millisecond = 1000000"

definition parseTimeout :: "json_lib \<Rightarrow> raw \<Rightarrow> int \<Rightarrow> int" where
  "parseTimeout jl requestJson defaultTimeout = (case jl_Get jl requestJson [''tmax''] of (dataType, tmax, err) \<Rightarrow>
     if dataType \<noteq> JfNotExist \<and> err = None
     then (case atoi tmax of Some tmaxInt \<Rightarrow> if tmaxInt > 0 then wrap64 (tmaxInt * millisecond) else defaultTimeout | None \<Rightarrow> defaultTimeout)
     else defaultTimeout)"

text \<open>
  The body up to the maximal size; that it is longer shows when the rest is discarded. The result is the
  request with the errors, or None when the validation panics.
\<close>

definition emptyRequest :: BidRequest where
  "emptyRequest = \<lparr>req_ID = [], req_Imp = [], req_Site = None, req_App = None, req_Device = None, req_User = None, req_Test = 0, req_TMax = 0,
     req_Cur = [], req_Source = None, req_Regs = None, req_Ext = RawEmpty, req_AT = 0, req_other = JNull\<rparr>"

definition parseRequest :: "('ip, 'net) endpointDeps \<Rightarrow> http_in \<Rightarrow> (BidRequest \<times> go_error list) option" where
  "parseRequest deps httpRequest =
     (case hi_BodyError httpRequest of Some err \<Rightarrow> Some (emptyRequest, [err]) | None \<Rightarrow>
       (let limit = nat (ed_MaxRequestSize deps)
        in if length (hi_Body httpRequest) > limit
           then Some (emptyRequest, [OtherError (''Request size exceeded max size of '' @ itoa (ed_MaxRequestSize deps) @ '' bytes.'')])
           else (let requestJson = ed_parse deps (take limit (hi_Body httpRequest));
                     timeout = parseTimeout (ed_json deps) requestJson (storedRequestTimeoutMillis * millisecond)
                 in case processStoredRequests (ed_json deps) (ed_FetchRequests deps timeout) (ed_defReqJSON deps) requestJson of
                      Inl errs \<Rightarrow> Some (emptyRequest, errs)
                    | Inr resolved \<Rightarrow> (case ed_decode deps resolved of
                        None \<Rightarrow> Some (emptyRequest, [json_error])
                      | Some req0 \<Rightarrow>
                          (let req1 = setFieldsImplicitly (ed_net deps) (ed_json deps) (ed_ipValidator deps) httpRequest req0
                           in case processInterstitials (ve_get (ed_validation deps)) req1 of
                                None \<Rightarrow> None
                              | Some (Some err, req2) \<Rightarrow> Some (req2, [err])
                              | Some (None, req2) \<Rightarrow>
                                  map_option (\<lambda>(errL, req3). (req3, errL))
                                    (validateRequest (ed_validation deps) (ModifyForIOS (ed_getATTS deps) req2)))))))"

section \<open>The handler\<close>

definition LimitAuctionTimeout :: "int \<times> int \<Rightarrow> int \<Rightarrow> int" where
  "LimitAuctionTimeout c requested = (case c of (dflt, mx) \<Rightarrow>
     if requested = 0 \<and> dflt \<noteq> 0 then wrap64 (dflt * millisecond)
     else if mx > 0
     then (let maxTimeout = wrap64 (mx * millisecond) in if requested = 0 \<or> requested > maxTimeout then maxTimeout else requested)
     else requested)"

datatype RequestStatus = RequestStatusOK | RequestStatusBadInput | RequestStatusErr | RequestStatusNetworkErr | RequestStatusBlacklisted | RequestStatusQueueTimeout

datatype auction_body = NoBody | Texts "string list" | Sent BidResponse

text \<open>The response, the labels of the metrics and the status and errors of the \<open>AuctionObject\<close> for analytics.\<close>

record auction_answer =
  aa_Status :: int
  aa_Body :: auction_body
  aa_Labels :: Labels
  aa_RequestStatus :: RequestStatus
  aa_LogStatus :: int
  aa_LogErrors :: "go_error list"

definition isBlacklisted :: "go_error \<Rightarrow> bool" where
  "isBlacklisted err = (ReadCode err = BlacklistedAppErrorCode \<or> ReadCode err = BlacklistedAcctErrorCode)"

definition writeError :: "go_error list \<Rightarrow> Labels \<Rightarrow> auction_answer" where
  "writeError errs labels =
     (let blacklisted = list_ex isBlacklisted errs
      in \<lparr>aa_Status = (if blacklisted then 503 else 400),
          aa_Body = Texts (map (\<lambda>err. ''Invalid request: '' @ Error err @ [CHR 10]) errs), aa_Labels = labels,
          aa_RequestStatus = (if blacklisted then RequestStatusBlacklisted else RequestStatusBadInput), aa_LogStatus = 200, aa_LogErrors = []\<rparr>)"

definition dec_ExtPublisher :: "string option option decoder" where
  "dec_ExtPublisher = dec_struct [field ''prebid'' (dec_ptr (dec_struct
     [field ''parentAccount'' (dec_ptr dec_string []) (\<lambda>r. r) (\<lambda>v r. v)]) None) (\<lambda>r. r) (\<lambda>v r. v)]"

definition getAccountID :: "Publisher option \<Rightarrow> string" where
  "getAccountID pub = (case pub of None \<Rightarrow> PublisherUnknown | Some p \<Rightarrow>
     (case (if pub_Ext p = RawEmpty then None else unmarshal dec_ExtPublisher (pub_Ext p) None) of
        Some (Some (Some (c # cs))) \<Rightarrow> c # cs
      | _ \<Rightarrow> if pub_ID p \<noteq> [] then pub_ID p else PublisherUnknown))"

definition start_labels :: Labels where
  "start_labels = \<lparr>lb_Source = ''unknown'', lb_RType = ReqTypeORTB2Web, lb_PubID = PublisherUnknown, lb_CookieFlag = CookieFlagUnknown\<rparr>"

text \<open>A request without app is taken to have a site; without one the labels are left half written (Inl) by a panic.\<close>

definition request_labels :: "int \<Rightarrow> PBSCookie \<Rightarrow> BidRequest \<Rightarrow> Labels + Labels" where
  "request_labels now usersyncs req = (case req_App req of
     Some app \<Rightarrow> Inr (start_labels\<lparr>lb_Source := ''app'', lb_RType := ReqTypeORTB2App, lb_PubID := getAccountID (app_Publisher app)\<rparr>)
   | None \<Rightarrow>
       (let labels = start_labels\<lparr>lb_Source := ''web'', lb_CookieFlag := if LiveSyncCount now usersyncs = 0 then CookieFlagNo else CookieFlagYes\<rparr>
        in case req_Site req of None \<Rightarrow> Inl labels | Some site \<Rightarrow> Inr (labels\<lparr>lb_PubID := getAccountID (site_Publisher site)\<rparr>)))"

text \<open>The answer to a panic: the status says that there is no content.\<close>

definition recovered :: "Labels \<Rightarrow> auction_answer" where
  "recovered labels = \<lparr>aa_Status = 204, aa_Body = NoBody, aa_Labels = labels, aa_RequestStatus = RequestStatusOK, aa_LogStatus = 200, aa_LogErrors = []\<rparr>"

text \<open>The call of the exchange; a request without deadline has none.\<close>

definition auction_call_for :: "('ip, 'net) endpointDeps \<Rightarrow> int \<Rightarrow> http_in \<Rightarrow> BidRequest \<Rightarrow> go_error list \<Rightarrow> PBSCookie \<Rightarrow> Labels \<Rightarrow> Account \<Rightarrow> auction_call" where
  "auction_call_for deps start r req warnings usersyncs labels account =
     (let timeout = LimitAuctionTimeout (ed_timeouts deps) (wrap64 (req_TMax req * millisecond))
      in \<lparr>rc_Request = \<lparr>ar_BidRequest = req, ar_Account = account, ar_UserSyncs = GetId start usersyncs, ar_LegacyLabels = labels\<rparr>,
          rc_Start = Some start, rc_Warnings = warnings, rc_GPC = hi_Header r ''Sec-Gpc'',
          rc_Deadline = (if timeout > 0 then Some (start + timeout) else None)\<rparr>)"

definition send_answer :: "('ip, 'net) endpointDeps \<Rightarrow> Labels \<Rightarrow> (go_error + BidResponse \<times> go_error option) option \<Rightarrow> auction_answer" where
  "send_answer deps labels result = (case result of
     None \<Rightarrow> recovered labels
   | Some res \<Rightarrow> (case (case res of Inl err \<Rightarrow> Inl err | Inr (resp, Some err) \<Rightarrow> Inl err | Inr (resp, None) \<Rightarrow> Inr resp) of
       Inl err \<Rightarrow> \<lparr>aa_Status = 500, aa_Body = Texts [''Critical error while running the auction: '' @ Error err], aa_Labels = labels,
         aa_RequestStatus = RequestStatusErr, aa_LogStatus = 500, aa_LogErrors = [err]\<rparr>
     | Inr resp \<Rightarrow> (case ed_encode deps resp of
         None \<Rightarrow> \<lparr>aa_Status = 200, aa_Body = Sent resp, aa_Labels = labels, aa_RequestStatus = RequestStatusOK, aa_LogStatus = 200, aa_LogErrors = []\<rparr>
       | Some err \<Rightarrow> \<lparr>aa_Status = 200, aa_Body = NoBody, aa_Labels = labels, aa_RequestStatus = RequestStatusNetworkErr, aa_LogStatus = 200,
           aa_LogErrors = [OtherError (''/openrtb2/auction Failed to send response: '' @ Error err)]\<rparr>)))"

definition Auction :: "('ip, 'net) endpointDeps \<Rightarrow> int \<Rightarrow> http_in \<Rightarrow> auction_answer" where
  "Auction deps start r = (case parseRequest deps r of
     None \<Rightarrow> recovered start_labels
   | Some (req, errL) \<Rightarrow>
       if ContainsFatalError errL then writeError errL start_labels
       else (let usersyncs = ParsePBSCookieFromRequest (ed_codec deps) start (ed_HostCookie deps) (hi_cookies r)
             in case request_labels start usersyncs req of
                  Inl labels \<Rightarrow> recovered labels
                | Inr labels \<Rightarrow> (case GetAccount (ed_fetchAccount deps) (ed_mergeAccount deps) (ed_accounts deps) (lb_PubID labels) of
                    Inl acctIDErrs \<Rightarrow> writeError (errL @ acctIDErrs) labels
                  | Inr account \<Rightarrow> send_answer deps labels
                      (ed_HoldAuction deps (auction_call_for deps start r req (WarningOnly errL) usersyncs labels account)))))"

text \<open>The endpoint in front of the exchange of this development.\<close>

definition endpoint_of :: "('ip, 'net) endpointDeps \<Rightarrow> exchange \<Rightarrow> chance \<Rightarrow> ('ip, 'net) endpointDeps" where
  "endpoint_of deps x ch = deps\<lparr>ed_HoldAuction := (\<lambda>rc. map_option (map_sum (\<lambda>e. e) (\<lambda>(resp, err, dl). (resp, err))) (HoldAuction x ch rc None))\<rparr>"

section \<open>What the HTTP request fills in\<close>
























section \<open>Merging stored impressions\<close>

lemma imp_info_ids:
  "set (fst (imp_info jl i imps)) = {(s, k). i \<le> k \<and> k < i + length imps \<and> getStoredRequestId jl (imps ! (k - i)) = Inr (Some s)}"
  "distinct (map snd (fst (imp_info jl i imps)))"
  "snd (imp_info jl i imps) = [] \<Longrightarrow> k < length imps \<Longrightarrow> getStoredRequestId jl (imps ! k) \<noteq> Inl e"
proof (induction imps arbitrary: i k)
  case (Cons imp imps)
  { case 1
    have "{(s, k). i \<le> k \<and> k < i + length (imp # imps) \<and> getStoredRequestId jl ((imp # imps) ! (k - i)) = Inr (Some s)} =
      {(s, k). k = i \<and> getStoredRequestId jl imp = Inr (Some s)} \<union>
      {(s, k). i + 1 \<le> k \<and> k < i + 1 + length imps \<and> getStoredRequestId jl (imps ! (k - (i + 1))) = Inr (Some s)}"
      by (auto simp: nth_Cons' le_less)
    with Cons.IH(1) [of "i + 1"] show ?case by (auto split: prod.splits sum.splits option.splits) }
  { case 2
    have "(a, i) \<notin> set (fst (imp_info jl (i + 1) imps))" for a unfolding Cons.IH(1) [of "i + 1"] by auto
    with Cons.IH(2) [of "i + 1"] show ?case by (auto split: prod.splits sum.splits option.splits) }
  { case 3
    then have "snd (imp_info jl (i + 1) imps) = []" "getStoredRequestId jl imp \<noteq> Inl e" by (auto split: prod.splits sum.splits option.splits)
    with Cons.IH(3) [of "i + 1" "k - 1"] 3 show ?case by (cases k) auto }
qed auto

lemma apply_imps_exact:
  assumes "apply_imps jl m i ids imps = Inr imps'" and "distinct (map snd ids)" and "\<forall>(s, k) \<in> set ids. k < length imps"
  shows "length imps' = length imps \<and> (\<forall>(s, k) \<in> set ids. jl_MergePatch jl (stored m s) (imps ! k) = Inr (imps' ! k)) \<and>
    (\<forall>k < length imps. k \<notin> snd ` set ids \<longrightarrow> imps' ! k = imps ! k)"
  using assms
proof (induction jl m i ids imps rule: apply_imps.induct)
  case (2 jl m i impId index ids imps)
  from "2.prems" obtain r where r: "merge_or_blame jl (stored m impId) (''imp.ext.prebid.storedrequest.id '' @ impId @ '': Stored Imp has Invalid JSON: '')
         (imps ! index) (''Invalid JSON in Imp['' @ itoa i @ ''] of Incoming Request: '') = Inr r"
    and l: "apply_imps jl m (i + 1) ids (imps[index := r]) = Inr imps'" by auto
  from r have "jl_MergePatch jl (stored m impId) (imps ! index) = Inr r" by (simp add: merge_or_blame_def split: sum.splits)
  moreover have "length imps' = length imps \<and> (\<forall>(s, k) \<in> set ids. jl_MergePatch jl (stored m s) (imps[index := r] ! k) = Inr (imps' ! k)) \<and>
    (\<forall>k < length imps. k \<notin> snd ` set ids \<longrightarrow> imps' ! k = imps[index := r] ! k)"
    using "2.IH" [OF l] "2.prems" by simp
  ultimately show ?case using "2.prems"(2,3) by (auto simp: nth_list_update rev_image_eqI split: if_splits)
qed auto

text \<open>
  C15. Stored impressions are merged where they belong: the request that comes out has as its \<open>imp\<close> the impressions of
  the request in their order, each one that names a stored impression merged over that one and no other, and each
  other one as it was; exactly the named ids are fetched.
\<close>

theorem stored_imps_merged:
  assumes "processStoredRequests jl FetchRequests dflt requestJson = Inr out" and "snd (snd (parseImpInfo jl requestJson)) = []"
    and "fst (snd (parseImpInfo jl requestJson)) \<noteq> []"
  shows "\<exists>storedId storedReqs storedImps imps' json resolved.
    getStoredRequestId jl requestJson = Inr storedId \<and>
    FetchRequests (case storedId of Some i \<Rightarrow> [i] | None \<Rightarrow> []) (map fst (fst (snd (parseImpInfo jl requestJson)))) = (storedReqs, storedImps, []) \<and>
    length imps' = length (jl_Imps jl requestJson) \<and>
    (\<forall>k < length imps'. case getStoredRequestId jl (jl_Imps jl requestJson ! k) of
       Inr (Some s) \<Rightarrow> jl_MergePatch jl (stored storedImps s) (jl_Imps jl requestJson ! k) = Inr (imps' ! k)
     | Inr None \<Rightarrow> imps' ! k = jl_Imps jl requestJson ! k
     | Inl e \<Rightarrow> False) \<and>
    marshal_imps imps' = Inr json \<and> jl_Set jl resolved json ''imp'' = Inr out"
proof -
  let ?imps = "jl_Imps jl requestJson"
  let ?ids = "fst (imp_info jl 0 ?imps)"
  have errs: "snd (imp_info jl 0 ?imps) = []" and ne: "?ids \<noteq> []" using assms(2,3) by (simp_all add: parseImpInfo_def Let_def)
  have info: "parseImpInfo jl requestJson = (?imps, ?ids, [])" using errs by (simp add: parseImpInfo_def Let_def prod_eq_iff)
  obtain sid where sid: "getStoredRequestId jl requestJson = Inr sid"
    using assms(1) by (auto simp: processStoredRequests_def split: sum.splits)
  obtain sr si fe where f: "FetchRequests (case sid of Some i \<Rightarrow> [i] | None \<Rightarrow> []) (map fst ?ids) = (sr, si, fe)" using prod_cases3 by blast
  have fe: "fe = []" using assms(1) sid info f by (auto simp: processStoredRequests_def split: if_splits)
  from assms(1) sid info f fe ne obtain resolved imps' json where
    a: "apply_imps jl si 0 ?ids ?imps = Inr imps'" and m: "marshal_imps imps' = Inr json" and s: "jl_Set jl resolved json ''imp'' = Inr out"
    by (auto simp: processStoredRequests_def map_sum_def split: sum.splits)
  have ids: "set ?ids = {(s, k). k < length ?imps \<and> getStoredRequestId jl (?imps ! k) = Inr (Some s)}"
    using imp_info_ids(1) [of jl 0 ?imps] by simp
  have "\<forall>(s, k) \<in> set ?ids. k < length ?imps" using ids by auto
  from apply_imps_exact [OF a imp_info_ids(2) this] have len: "length imps' = length ?imps"
    and merged: "\<forall>(s, k) \<in> set ?ids. jl_MergePatch jl (stored si s) (?imps ! k) = Inr (imps' ! k)"
    and same: "\<forall>k < length ?imps. k \<notin> snd ` set ?ids \<longrightarrow> imps' ! k = ?imps ! k" by auto
  have each: "case getStoredRequestId jl (?imps ! k) of
       Inr (Some s) \<Rightarrow> jl_MergePatch jl (stored si s) (?imps ! k) = Inr (imps' ! k)
     | Inr None \<Rightarrow> imps' ! k = ?imps ! k | Inl e \<Rightarrow> False" if "k < length imps'" for k
    using that len merged same ids imp_info_ids(3) [OF errs, of k] by (auto split: sum.splits option.splits)
  show ?thesis
    by (intro exI [of _ sid] exI [of _ sr] exI [of _ si] exI [of _ imps'] exI [of _ json] exI [of _ resolved])
       (use sid f fe len each m s in \<open>simp add: info\<close>)
qed

section \<open>Which auctions are held\<close>

lemma GetAccount_served:
  "GetAccount fa ma c aid = Inr acc \<Longrightarrow> aid \<notin> set (BlacklistedAcctMap c) \<and> \<not> acc_Disabled acc"
  by (auto simp: GetAccount_def Let_def split: if_splits option.splits sum.splits prod.splits)

lemma interstitial_error_fatal:
  assumes "processInterstitials get req = Some (Some err, req')"
  shows "isFatal err"
proof -
  have "isFatal err" if "interstitial_loop get dev imps = Some (Some err, imps')" for dev imps imps'
    using that
    by (induction get dev imps arbitrary: imps' rule: interstitial_loop.induct)
       (auto simp: processInterstitialsForImp_def Let_def isFatal_def json_error_def split: if_splits option.splits prod.splits)
  with assms show ?thesis by (auto simp: processInterstitials_def)
qed

lemma parseRequest_accepted:
  assumes "parseRequest deps r = Some (req, errL)" and "\<not> ContainsFatalError errL" and "req_Site req \<noteq> None \<or> req_App req \<noteq> None"
  shows "\<exists>req0. validateRequest (ed_validation deps) req0 = Some (errL, req)"
  using assms
  by (auto simp: parseRequest_def Let_def emptyRequest_def split: option.splits if_splits sum.splits prod.splits dest: interstitial_error_fatal)

lemma Auction_sent:
  assumes "aa_Body (Auction deps start r) = Sent resp"
  shows "\<exists>rc req errL. ed_HoldAuction deps rc = Some (Inr (resp, None)) \<and> req = ar_BidRequest (rc_Request rc) \<and>
    parseRequest deps r = Some (req, errL) \<and> \<not> ContainsFatalError errL \<and> rc_Warnings rc = WarningOnly errL \<and>
    acceptable_request (ed_validation deps) req \<and> \<not> acc_Disabled (ar_Account (rc_Request rc)) \<and>
    GetAccount (ed_fetchAccount deps) (ed_mergeAccount deps) (ed_accounts deps) (lb_PubID (ar_LegacyLabels (rc_Request rc))) = Inr (ar_Account (rc_Request rc)) \<and>
    lb_PubID (ar_LegacyLabels (rc_Request rc)) \<notin> set (BlacklistedAcctMap (ed_accounts deps)) \<and>
    lb_PubID (ar_LegacyLabels (rc_Request rc)) = getAccountID (case req_App req of Some a \<Rightarrow> app_Publisher a | None \<Rightarrow> site_Publisher (the (req_Site req)))"
proof -
  obtain req errL where p: "parseRequest deps r = Some (req, errL)" and ok: "\<not> ContainsFatalError errL"
    using assms by (auto simp: Auction_def recovered_def writeError_def Let_def split: option.splits if_splits prod.splits)
  let ?us = "ParsePBSCookieFromRequest (ed_codec deps) start (ed_HostCookie deps) (hi_cookies r)"
  have a: "aa_Body (case request_labels start ?us req of Inl labels \<Rightarrow> recovered labels | Inr labels \<Rightarrow>
      (case GetAccount (ed_fetchAccount deps) (ed_mergeAccount deps) (ed_accounts deps) (lb_PubID labels) of
         Inl e \<Rightarrow> writeError (errL @ e) labels
       | Inr account \<Rightarrow> send_answer deps labels (ed_HoldAuction deps (auction_call_for deps start r req (WarningOnly errL) ?us labels account)))) = Sent resp"
    using assms p ok unfolding Auction_def by (simp add: Let_def)
  then obtain labels account where l: "request_labels start ?us req = Inr labels"
    and acc: "GetAccount (ed_fetchAccount deps) (ed_mergeAccount deps) (ed_accounts deps) (lb_PubID labels) = Inr account"
    by (auto simp: recovered_def writeError_def Let_def split: sum.splits)
  let ?rc = "auction_call_for deps start r req (WarningOnly errL) ?us labels account"
  from a l acc have "aa_Body (send_answer deps labels (ed_HoldAuction deps ?rc)) = Sent resp" by simp
  then have h: "ed_HoldAuction deps ?rc = Some (Inr (resp, None))"
    by (auto simp: send_answer_def recovered_def split: option.splits sum.splits prod.splits)
  have "req_Site req \<noteq> None \<or> req_App req \<noteq> None" using l by (auto simp: request_labels_def Let_def split: option.splits)
  from parseRequest_accepted [OF p ok this] obtain req0 where "validateRequest (ed_validation deps) req0 = Some (errL, req)" by blast
  from validateRequest_acceptable [OF this ok] have "acceptable_request (ed_validation deps) req" by simp
  moreover have "lb_PubID labels = getAccountID (case req_App req of Some a \<Rightarrow> app_Publisher a | None \<Rightarrow> site_Publisher (the (req_Site req)))"
    using l by (auto simp: request_labels_def Let_def split: option.splits)
  ultimately show ?thesis using h p ok acc GetAccount_served [OF acc]
    by (intro exI [of _ ?rc] exI [of _ req] exI [of _ errL]) (simp add: auction_call_for_def Let_def)
qed

text \<open>
  C4. A response is sent only for an auction that was held for an acceptable request and the account that is found for its
  publisher's id, which is neither blacklisted nor disabled, with the warnings of the validation, and it is the response
  the exchange returned without error.
\<close>

theorem auction_gatekeeping:
  assumes "aa_Body (Auction deps start r) = Sent resp"
  shows "\<exists>rc req errL. ed_HoldAuction deps rc = Some (Inr (resp, None)) \<and> req = ar_BidRequest (rc_Request rc) \<and>
    parseRequest deps r = Some (req, errL) \<and> \<not> ContainsFatalError errL \<and> rc_Warnings rc = WarningOnly errL \<and>
    acceptable_request (ed_validation deps) req \<and> \<not> acc_Disabled (ar_Account (rc_Request rc)) \<and>
    GetAccount (ed_fetchAccount deps) (ed_mergeAccount deps) (ed_accounts deps) (lb_PubID (ar_LegacyLabels (rc_Request rc))) = Inr (ar_Account (rc_Request rc)) \<and>
    lb_PubID (ar_LegacyLabels (rc_Request rc)) \<notin> set (BlacklistedAcctMap (ed_accounts deps)) \<and>
    lb_PubID (ar_LegacyLabels (rc_Request rc)) = getAccountID (case req_App req of Some a \<Rightarrow> app_Publisher a | None \<Rightarrow> site_Publisher (the (req_Site req)))"
  using assms by (rule Auction_sent)

text \<open>With the exchange of this development behind the interface, the response is one of its auctions.\<close>

lemma exchange_response_sent:
  assumes "aa_Body (Auction (endpoint_of deps x ch) start r) = Sent resp"
  shows "\<exists>rc dl. HoldAuction x ch rc None = Some (Inr (resp, None, dl)) \<and> acceptable_request (ed_validation deps) (ar_BidRequest (rc_Request rc))"
proof -
  from Auction_sent [OF assms] obtain rc where h: "ed_HoldAuction (endpoint_of deps x ch) rc = Some (Inr (resp, None))"
    and a: "acceptable_request (ed_validation (endpoint_of deps x ch)) (ar_BidRequest (rc_Request rc))" by blast
  from h obtain z where z: "HoldAuction x ch rc None = Some z" "map_sum (\<lambda>e. e) (\<lambda>(resp, err, dl). (resp, err)) z = Inr (resp, None)"
    by (auto simp: endpoint_of_def)
  then obtain dl where "z = Inr (resp, None, dl)" by (cases z) auto
  with z have "HoldAuction x ch rc None = Some (Inr (resp, None, dl))" by simp
  with a show ?thesis by (auto simp: endpoint_of_def)
qed

text \<open>The only statuses, and that of a rejected request: 503 if the app or the account is blacklisted, else 400.\<close>

lemma writeError_status: "aa_Status (writeError errs labels) = (if \<exists>e \<in> set errs. \<exists>m. e = BlacklistedApp m \<or> e = BlacklistedAcct m \<or> (\<exists>c. e = Warning m c \<and> (c = 3 \<or> c = 7)) then 503 else 400)"
proof -
  have "isBlacklisted e \<longleftrightarrow> (\<exists>m. e = BlacklistedApp m \<or> e = BlacklistedAcct m \<or> (\<exists>c. e = Warning m c \<and> (c = 3 \<or> c = 7)))" for e
    by (cases e) (auto simp: isBlacklisted_def ReadCode_def error_code_defs NoConversionRateErrorCode_def)
  then show ?thesis by (auto simp: writeError_def Let_def list_ex_iff)
qed

lemma Auction_status: "aa_Status (Auction deps start r) \<in> {200, 204, 400, 500, 503}"
  by (auto simp: Auction_def recovered_def writeError_def send_answer_def Let_def split: option.splits sum.splits prod.splits)

text \<open>An interstitial impression in a request without device panics; the caller gets an empty answer.\<close>

lemma interstitial_without_device:
  assumes "imp \<in> set (req_Imp req)" "imp_Instl imp = 1" "req_Device req = None"
  shows "processInterstitials get req = None"
proof -
  have "interstitial_loop get None imps = None" if "imp \<in> set imps" for imps
    using that assms(2) by (induction get "None :: Device option" imps rule: interstitial_loop.induct) auto
  with assms show ?thesis by (simp add: processInterstitials_def)
qed

section \<open>Examples\<close>

text \<open>Addresses are their texts, and a network is a prefix of them.\<close>

definition example_net :: "(string, string) net_lib" where
  "example_net = \<lparr>nl_ParseIP = (\<lambda>s. if s = [] then None else Some s), nl_String = (\<lambda>ip. ip), nl_Contains = (\<lambda>n ip. has_prefix ip n),
     nl_SplitHostPort = (\<lambda>s. Some s), nl_Domain = (\<lambda>s. if s = [] then None else Some ''example.com'')\<rparr>"

definition example_private :: "string PublicNetworkIPValidator" where
  "example_private = \<lparr>IPv4PrivateNetworks = [''10.''], IPv6PrivateNetworks = []\<rparr>"

definition example_json :: json_lib where
  "example_json = \<lparr>jl_Get = (\<lambda>r path. if r = Raw (JInt 1) then (JfString, ''s'', None) else (JfNotExist, [], None)),
     jl_Imps = (\<lambda>r. [Raw (JInt 2), Raw (JInt 1)]), jl_Set = (\<lambda>r j k. Inr (Raw j)), jl_MergePatch = (\<lambda>base patch. Inr base), jl_SyntaxError = (\<lambda>r. None)\<rparr>"

definition example_http :: http_in where
  "example_http = \<lparr>hi_Header = (\<lambda>k. if k = ''X-Forwarded-For'' then ''10.0.0.1, 1.2.3.4'' else []), hi_Scheme = [], hi_TLS = True,
     hi_RemoteAddr = [], hi_cookies = (\<lambda>_. None), hi_Body = [], hi_BodyError = None\<rparr>"


theorem stored_imps_merged_witness:
  "\<exists>imps' out json. processStoredRequests example_json (\<lambda>rs is. ([], [(''s'', Raw (JStr ''stored''))], [])) RawEmpty (Raw JNull) = Inr out \<and>
     marshal_imps imps' = Inr json \<and> length imps' = 2 \<and> imps' ! 0 = Raw (JInt 2) \<and> imps' ! 1 = Raw (JStr ''stored'')"
proof -
  let ?f = "\<lambda>(rs :: string list) (is :: string list). ([] :: raw data, [(''s'', Raw (JStr ''stored''))], [] :: fetch_error list)"
  have p: "processStoredRequests example_json ?f RawEmpty (Raw JNull) = Inr (Raw (JArr [JInt 2, JStr ''stored'']))" by code_simp
  have e: "snd (snd (parseImpInfo example_json (Raw JNull))) = []" by code_simp
  have n: "fst (snd (parseImpInfo example_json (Raw JNull))) \<noteq> []" by code_simp
  from stored_imps_merged [OF p e n] obtain si imps' json where
    "length imps' = length (jl_Imps example_json (Raw JNull))" and m: "marshal_imps imps' = Inr json"
    and each: "\<forall>k < length imps'. case getStoredRequestId example_json (jl_Imps example_json (Raw JNull) ! k) of
       Inr (Some s) \<Rightarrow> jl_MergePatch example_json (stored si s) (jl_Imps example_json (Raw JNull) ! k) = Inr (imps' ! k)
     | Inr None \<Rightarrow> imps' ! k = jl_Imps example_json (Raw JNull) ! k | Inl e \<Rightarrow> False"
    and si: "si = [(''s'', Raw (JStr ''stored''))]" by auto
  then have len: "length imps' = 2" by (simp add: example_json_def)
  have "imps' ! 0 = Raw (JInt 2)" "imps' ! 1 = Raw (JStr ''stored'')"
    using each [rule_format, of 0] each [rule_format, of 1] len si
    by (simp_all add: example_json_def getStoredRequestId_def stored_def)
  with p m len show ?thesis by auto
qed

definition example_deps :: "(string, string) endpointDeps" where
  "example_deps = \<lparr>ed_validation = example_validation\<lparr>ve_get := (\<lambda>j k. (JfNumber, ''0''))\<rparr>, ed_net = example_net, ed_ipValidator = example_private,
     ed_json = example_json\<lparr>jl_Get := (\<lambda>r path. (JfNotExist, [], None)), jl_Imps := (\<lambda>r. [])\<rparr>, ed_parse = (\<lambda>s. Raw JNull),
     ed_decode = (\<lambda>r. Some (banner_request\<lparr>req_Cur := []\<rparr>)), ed_FetchRequests = (\<lambda>t rs is. ([], [], [])), ed_defReqJSON = RawEmpty,
     ed_MaxRequestSize = 100, ed_timeouts = (0, 0), ed_getATTS = (\<lambda>r. Inr None), 
     ed_codec = \<lparr>ck_encode = (\<lambda>_. []), ck_decode = (\<lambda>_. None), ck_writeTime = (\<lambda>_. None), ck_readTime = (\<lambda>_. None)\<rparr>,
     ed_HostCookie = \<lparr>hk_Domain = [], hk_Family = [], hk_CookieName = [], hk_MaxCookieSizeBytes = 0, hk_OptOutName = [], hk_OptOutValue = [], hk_TTL = 0\<rparr>,
     ed_fetchAccount = (\<lambda>i. (None, [])), ed_mergeAccount = (\<lambda>r. Inr example_account), 
     ed_accounts = \<lparr>BlacklistedAcctMap = [''bad''], AccountRequired = False, AccountDefaults = example_account\<rparr>,
     
     ed_HoldAuction = (\<lambda>rc. Some (Inr (\<lparr>br_ID = req_ID (ar_BidRequest (rc_Request rc)), br_SeatBid = [], br_Cur = [], br_NBR = None, br_Ext = RawEmpty\<rparr>, None))), ed_encode = (\<lambda>r. None)\<rparr>"

lemma example_auction_sent:
  "(case aa_Body (Auction example_deps 0 example_http) of Sent resp \<Rightarrow> br_ID resp = ''r'' | _ \<Rightarrow> False)"
  by code_simp

theorem auction_gatekeeping_witness:
  "\<exists>rc resp. ed_HoldAuction example_deps rc = Some (Inr (resp, None)) \<and>
     acceptable_request (ed_validation example_deps) (ar_BidRequest (rc_Request rc))"
proof -
  obtain resp where "aa_Body (Auction example_deps 0 example_http) = Sent resp"
    using example_auction_sent by (auto split: auction_body.splits)
  from auction_gatekeeping [OF this] show ?thesis by blast
qed

end
