(* ===== verification/Stored_Sources.thy ===== *)
theory Stored_Sources
  imports Stored_Fetch
begin

text \<open>
  The fetchers as sources: several fetchers together, the backends, and the server's fetcher with its
  caches all keep the contract \<open>stored_source\<close>, so a run of fetches shows what the stores contain. For the
  database this holds when a query returns the rows of the ids it is given.
\<close>

section \<open>Several sources\<close>

lemma filter_ids_eq: "filter_ids ids d = filter (\<lambda>i. lookup d i = None) ids"
  by (simp add: filter_ids_def)

text \<open>The contents of several sources: the first source that has an id counts.\<close>

fun first_of :: "(string \<Rightarrow> 'v option) list \<Rightarrow> string \<Rightarrow> 'v option" where
  "first_of [] k = None"
| "first_of (c # cs) k = (case c k of Some v \<Rightarrow> Some v | None \<Rightarrow> first_of cs k)"

lemma first_of_snoc: "first_of (cs @ [c]) k = (case first_of cs k of Some v \<Rightarrow> Some v | None \<Rightarrow> c k)"
  by (induction cs) (auto split: option.splits)

text \<open>What the loop has collected for one kind of data after the sources with the contents \<open>cs\<close>.\<close>

definition collected_ids :: "string list \<Rightarrow> (string \<Rightarrow> 'v option) list \<Rightarrow> string list \<Rightarrow> 'v data \<Rightarrow> bool" where
  "collected_ids ids cs rids d = (wf_map d \<and> lookup d \<subseteq>\<^sub>m first_of cs \<and> (\<forall>k\<in>set ids. lookup d k = first_of cs k) \<and>
     filter (\<lambda>i. lookup d i = None) rids = filter (\<lambda>i. lookup d i = None) ids \<and> set rids \<subseteq> set ids)"

lemma collected_ids_step:
  assumes inv: "collected_ids ids cs rids d" and new: "wf_map new" "lookup new \<subseteq>\<^sub>m c" "\<forall>k\<in>set (filter_ids rids d). lookup new k = c k"
    and exact: "cs = [] \<or> dom (lookup new) \<subseteq> set (filter_ids rids d)"
  shows "collected_ids ids (cs @ [c]) (filter_ids rids d) (addAll d new)"
proof -
  have l: "lookup (addAll d new) k = (case lookup new k of Some v \<Rightarrow> Some v | None \<Rightarrow> lookup d k)" for k
    using lookup_added_data [OF new(1)] by (simp add: addAll_def map_add_def)
  have rest: "filter_ids rids d = filter (\<lambda>i. lookup d i = None) ids" using inv by (simp add: filter_ids_eq collected_ids_def)
  have old: "lookup new k = None \<and> first_of cs k = Some v" if v: "lookup d k = Some v" for k v
  proof -
    from v have f: "first_of cs k = Some v" using inv domI [of "lookup d" k v] by (simp add: collected_ids_def map_le_def)
    then have "cs \<noteq> []" by auto
    moreover have "k \<notin> set (filter_ids rids d)" using v by (simp add: filter_ids_eq)
    ultimately have "k \<notin> dom (lookup new)" using exact by blast
    with f show ?thesis by (simp add: domIff)
  qed
  have fresh: "lookup new k = Some v \<Longrightarrow> first_of cs k = None \<and> c k = Some v" for k v
  proof -
    assume v: "lookup new k = Some v"
    have "first_of cs k = None"
    proof (cases "cs = []")
      case False
      with exact v have "k \<in> set ids" "lookup d k = None" by (auto simp: rest dom_def)
      with inv show ?thesis by (simp add: collected_ids_def)
    qed simp
    with v new(2) show ?thesis by (auto simp: map_le_def dom_def)
  qed
  have "lookup (addAll d new) k = first_of (cs @ [c]) k" if k: "k \<in> set ids" for k
  proof (cases "lookup d k")
    case (Some v)
    with old [OF Some] show ?thesis by (simp add: l first_of_snoc)
  next
    case None
    then have "lookup new k = c k" using new(3) k by (simp add: rest)
    moreover have "first_of cs k = None" using None inv k by (simp add: collected_ids_def)
    ultimately show ?thesis using None by (simp add: l first_of_snoc split: option.splits)
  qed
  moreover have "lookup (addAll d new) \<subseteq>\<^sub>m first_of (cs @ [c])"
    using old fresh by (auto simp: l first_of_snoc map_le_def dom_def split: option.splits)
  moreover have "filter (\<lambda>i. lookup (addAll d new) i = None) (filter_ids rids d) = filter (\<lambda>i. lookup (addAll d new) i = None) ids"
    unfolding rest filter_filter by (intro filter_cong refl) (auto simp: l split: option.splits)
  moreover have "wf_map (addAll d new)" using inv by (simp add: collected_ids_def addAll_def)
  ultimately show ?thesis using inv by (auto simp: collected_ids_def rest)
qed

text \<open>One source of a list, with its contents; all but the first have to be exact.\<close>

definition sources :: "('w \<Rightarrow> bool) \<Rightarrow> ('w, 'v) AllFetcher list \<Rightarrow> ((string \<Rightarrow> 'v option) \<times> (string \<Rightarrow> 'v option)) list \<Rightarrow> bool" where
  "sources ok fs cs = list_all2 (\<lambda>f (r, i). exact_source f ok r i) fs cs"

lemma multi_loop_ok:
  assumes "sources ok fs cs" and "ok w" and "collected_ids rs rcs rids rd" and "collected_ids is ics iids idt"
    and "multi_loop fs rids iids rd idt [] w = ((rids', iids', rd', idt', errs'), w')"
  shows "ok w' \<and> errs' = [] \<and> collected_ids rs (rcs @ map fst cs) rids' rd' \<and> collected_ids is (ics @ map snd cs) iids' idt'"
  using assms unfolding sources_def
proof (induction fs cs arbitrary: w rcs ics rids iids rd idt rule: list_all2_induct)
  case Nil
  then show ?case by simp
next
  case (Cons f fs c cs)
  obtain cr ci where c: "c = (cr, ci)" by (cases c)
  with Cons.hyps have ex: "exact_source f ok cr ci" by simp
  then have st: "stored_source f ok cr ci" by (rule exact_source.axioms)
  obtain nr ni es w1 where ft: "fetchRequests f w (filter_ids rids rd) (filter_ids iids idt) = ((nr, ni, es), w1)"
    by (metis prod.exhaust)
  note f_inv = stored_source.fetch_inv [OF st Cons.prems(1) ft] and f_snd = stored_source.fetch_sound [OF st Cons.prems(1) ft]
    and f_cmp = stored_source.fetch_complete [OF st Cons.prems(1) ft] and f_err = stored_source.fetch_errs [OF st Cons.prems(1) ft]
    and f_ex = exact_source.fetch_exact [OF ex Cons.prems(1) ft]
  have r: "collected_ids rs (rcs @ [cr]) (filter_ids rids rd) (addAll rd nr)"
    by (rule collected_ids_step [OF Cons.prems(2)]) (use f_inv f_snd f_cmp f_ex in simp_all)
  have i: "collected_ids is (ics @ [ci]) (filter_ids iids idt) (addAll idt ni)"
    by (rule collected_ids_step [OF Cons.prems(3)]) (use f_inv f_snd f_cmp f_ex in simp_all)
  have loop: "multi_loop fs (filter_ids rids rd) (filter_ids iids idt) (addAll rd nr) (addAll idt ni) [] w1 = ((rids', iids', rd', idt', errs'), w')"
    using Cons.prems(4) ft f_err by simp
  from Cons.IH [OF _ r i loop] f_inv c show ?case by simp
qed

lemma multi_source:
  fixes f :: "('w, 'v) AllFetcher"
  assumes "stored_source f ok cr ci" and "sources ok fs cs"
  shows "stored_source (MultiFetcher (f # fs)) ok (first_of (cr # map fst cs)) (first_of (ci # map snd cs))"
proof -
  have all: "ok w' \<and> collected_ids rs (cr # map fst cs) rs rd \<and> collected_ids is (ci # map snd cs) is idt \<and>
      errs = not_found ''Request'' (first_of (cr # map fst cs)) rs @ not_found ''Imp'' (first_of (ci # map snd cs)) is"
    if w: "ok w" and r: "fetchRequests (MultiFetcher (f # fs)) w rs is = ((rd, idt, errs), w')" for w rs "is" rd idt errs w'
  proof -
    obtain nr ni es w1 where ft: "fetchRequests f w rs is = ((nr, ni, es), w1)" by (metis prod.exhaust)
    note f_inv = stored_source.fetch_inv [OF assms(1) w ft] and f_snd = stored_source.fetch_sound [OF assms(1) w ft]
      and f_cmp = stored_source.fetch_complete [OF assms(1) w ft] and f_err = stored_source.fetch_errs [OF assms(1) w ft]
    have start: "collected_ids ids [] ids ([] :: 'v data)" for ids :: "string list" by (simp add: collected_ids_def map_le_def)
    have ids: "filter_ids xs ([] :: 'v data) = xs" for xs by (simp add: filter_ids_def)
    have i1: "collected_ids rs [cr] rs (addAll [] nr)"
      using collected_ids_step [OF start [of rs], of nr cr] f_inv f_snd f_cmp by (simp add: ids)
    have i2: "collected_ids is [ci] is (addAll [] ni)"
      using collected_ids_step [OF start [of "is"], of ni ci] f_inv f_snd f_cmp by (simp add: ids)
    obtain rids iids rd' idt' errs' w2 where
      loop: "multi_loop fs rs is (addAll [] nr) (addAll [] ni) [] w1 = ((rids, iids, rd', idt', errs'), w2)" by (metis prod.exhaust)
    have loop_ok: "ok w2 \<and> errs' = [] \<and> collected_ids rs ([cr] @ map fst cs) rids rd' \<and> collected_ids is ([ci] @ map snd cs) iids idt'"
      by (rule multi_loop_ok [OF assms(2) _ _ _ loop]) (use i1 i2 ids f_inv in simp_all)
    have res: "rd = rd'" "idt = idt'" "w' = w2" "errs = not_found ''Request'' (lookup rd') rids @ not_found ''Imp'' (lookup idt') iids"
      using r ft loop ids f_err loop_ok by (auto simp: MultiFetcher_def multi_FetchRequests_def appendNotFoundErrors_eq)
    have nf: "not_found t (lookup d) xs = not_found t (first_of c) ids" if "collected_ids ids c xs d" for t xs c and d :: "'v data" and ids :: "string list"
      using that by (simp add: collected_ids_def not_found_def cong: filter_cong)
    have "collected_ids rs ([cr] @ map fst cs) rs rd'" "collected_ids is ([ci] @ map snd cs) is idt'"
      using loop_ok by (simp_all add: collected_ids_def)
    with loop_ok res nf [of rs "[cr] @ map fst cs" rids rd'] nf [of "is" "[ci] @ map snd cs" iids idt'] show ?thesis by simp
  qed
  show ?thesis
  proof unfold_locales
    fix w rs "is" rd idt errs w'
    assume "ok w" "fetchRequests (MultiFetcher (f # fs)) w rs is = ((rd, idt, errs), w')"
    note a = all [OF this, unfolded collected_ids_def]
    show "ok w' \<and> wf_map rd \<and> wf_map idt" using a by blast
    show "lookup rd \<subseteq>\<^sub>m first_of (cr # map fst cs) \<and> lookup idt \<subseteq>\<^sub>m first_of (ci # map snd cs)" using a by blast
    show "(\<forall>k\<in>set rs. lookup rd k = first_of (cr # map fst cs) k) \<and> (\<forall>k\<in>set is. lookup idt k = first_of (ci # map snd cs) k)" using a by blast
    show "errs = not_found ''Request'' (first_of (cr # map fst cs)) rs @ not_found ''Imp'' (first_of (ci # map snd cs)) is" using a by blast
  qed
qed

section \<open>The backends keep the contract\<close>

interpretation empty_source: exact_source EmptyFetcher "\<lambda>w. True" "\<lambda>k. None" "\<lambda>k. None"
  by unfold_locales (auto simp: EmptyFetcher_def not_found_def)

text \<open>
  The fetcher for files returns all the files of the two directories, so it is no exact source; its contents are those
  of the directory tree, as long as no categories are fetched from it.
\<close>

definition files_are :: "FileSystem \<Rightarrow> eagerFetcher \<Rightarrow> bool" where
  "files_are fs w = (ef_FileSystem w = fs)"

lemma collect_wf:
  "collectStoredData d = Inr fs \<Longrightarrow> wf_map (Files fs) \<and> (\<forall>x\<in>snd ` set (Directories fs). wf_map (Files x))"
  "collect_entries es dirs dat = Inr fs \<Longrightarrow> wf_map dat \<Longrightarrow> \<forall>x\<in>snd ` set dirs. wf_map (Files x) \<Longrightarrow>
     wf_map (Files fs) \<and> (\<forall>x\<in>snd ` set (Directories fs). wf_map (Files x))"
proof (induction d and es dirs dat arbitrary: fs and fs rule: collectStoredData_collect_entries.induct)
  case (4 name d es dirs dat)
  from "4.prems"(1) obtain sub where sub: "collectStoredData d = Inr sub" "collect_entries es (put name sub dirs) dat = Inr fs"
    by (auto split: sum.splits)
  with "4.IH"(1) [OF sub(1)] have "wf_map (Files sub)" by simp
  moreover have "snd ` set (put name sub dirs) \<subseteq> insert sub (snd ` set dirs)"
    using image_mono [OF set_put_subset [of name sub dirs], of snd] by simp
  ultimately have "\<forall>x\<in>snd ` set (put name sub dirs). wf_map (Files x)" using "4.prems"(3) by blast
  with "4.IH"(2) [OF sub(1) sub(2) "4.prems"(2)] show ?case by blast
qed (auto split: sum.splits if_splits)

lemma dir_files_wf:
  assumes "collectStoredData d = Inr fs"
  shows "wf_map (dir_files fs n)"
proof -
  have "wf_map (Files x)" if "lookup (Directories fs) n = Some x" for x
    using map_of_SomeD [OF that] collect_wf(1) [OF assms] by force
  then show ?thesis by (auto simp: dir_files_def split: option.splits)
qed

lemma files_source:
  assumes "collectStoredData d = Inr fs"
  shows "stored_source eager_fetcher (files_are fs) (lookup (dir_files fs ''stored_requests'')) (lookup (dir_files fs ''stored_imps''))"
  using dir_files_wf [OF assms]
  by unfold_locales (auto simp: eager_fetcher_def eager_FetchRequests_def files_are_def Let_def appendErrors_eq)

text \<open>What is found in a directory: the files whose name is the id with the extension.\<close>

definition entry_name :: "dir_entry \<Rightarrow> string" where
  "entry_name e = (case e of DirEntry n d \<Rightarrow> n | FileEntry n c \<Rightarrow> n)"

lemma trim_json_append [simp]: "trim_json (i @ ''.json'') = i"
  by (simp add: trim_json_def)

lemma has_suffix_split: "has_suffix s p \<Longrightarrow> \<exists>t. s = t @ p"
  by (metis append_take_drop_id has_suffix_def)

lemma collect_files:
  "collect_entries es dirs dat = Inr fs \<Longrightarrow> distinct (map entry_name es) \<Longrightarrow>
     lookup (Files fs) i = (case find (\<lambda>e. entry_name e = i @ ''.json'') es of
        Some (FileEntry n (Inr v)) \<Rightarrow> Some v | _ \<Rightarrow> lookup dat i)"
proof (induction es arbitrary: dirs dat)
  case Nil
  then show ?case by auto
next
  case (Cons e es)
  have none: "find (\<lambda>e. entry_name e = i @ ''.json'') es = None" if "entry_name e = i @ ''.json''"
    using Cons.prems(2) that by (auto simp: find_None_iff) (metis image_eqI)
  show ?case
  proof (cases e)
    case (DirEntry n d)
    with Cons none show ?thesis by (auto simp: entry_name_def split: sum.splits)
  next
    case (FileEntry n c)
    show ?thesis
    proof (cases "has_suffix n ''.json''")
      case True
      then obtain t where t: "n = t @ ''.json''" using has_suffix_split by blast
      from Cons.prems(1) FileEntry True obtain v where v: "c = Inr v" "collect_entries es dirs (put t v dat) = Inr fs"
        by (auto simp: t split: sum.splits)
      show ?thesis
      proof (cases "t = i")
        case True
        with Cons.IH [OF v(2)] Cons.prems(2) none FileEntry t v(1) show ?thesis by (simp add: entry_name_def)
      next
        case False
        with Cons.IH [OF v(2)] Cons.prems(2) FileEntry t v(1) show ?thesis by (simp add: entry_name_def split: option.splits dir_entry.splits sum.splits)
      qed
    next
      case False
      with Cons FileEntry show ?thesis by (auto simp: entry_name_def)
    qed
  qed
qed

text \<open>
  A database with the requests \<open>reqs\<close> and the impressions \<open>imps\<close>: a query for some ids gives a row for
  each of them that exists, in any order.
\<close>

definition db_rows :: "(string \<Rightarrow> 'v option) \<Rightarrow> (string \<Rightarrow> 'v option) \<Rightarrow> string list \<Rightarrow> string list \<Rightarrow> (go_error + string \<times> 'v \<times> string) list" where
  "db_rows reqs imps rs is =
     List.map_filter (\<lambda>i. map_option (\<lambda>v. Inr (i, v, ''request'')) (reqs i)) rs @
     List.map_filter (\<lambda>i. map_option (\<lambda>v. Inr (i, v, ''imp'')) (imps i)) is"

definition db_has ::
  "(int \<Rightarrow> int \<Rightarrow> string) \<Rightarrow> (string \<Rightarrow> string list \<Rightarrow> db_error + 'v rows) \<Rightarrow> (string \<Rightarrow> 'v option) \<Rightarrow> (string \<Rightarrow> 'v option) \<Rightarrow> bool" where
  "db_has queryMaker db reqs imps =
     (\<forall>rs is. \<exists>rows. db (queryMaker (int (length rs)) (int (length is))) (rs @ is) = Inr (rows, None) \<and> set rows = set (db_rows reqs imps rs is))"

lemma read_rows_set:
  assumes "set rows \<subseteq> set (db_rows reqs imps rs is)" and "wf_map d" and "wf_map e"
  obtains d' e' where "read_rows rows d e = Inr (d', e')" "wf_map d'" "wf_map e'"
    "\<And>k. lookup d' k = (if \<exists>v. Inr (k, v, ''request'') \<in> set rows then reqs k else lookup d k)"
    "\<And>k. lookup e' k = (if \<exists>v. Inr (k, v, ''imp'') \<in> set rows then imps k else lookup e k)"
  using assms
proof (induction rows arbitrary: d e thesis)
  case Nil
  then show ?case by simp
next
  case (Cons x xs)
  then have "x \<in> set (db_rows reqs imps rs is)" by simp
  then consider (req) i v where "x = Inr (i, v, ''request'')" "reqs i = Some v" | (imp) i v where "x = Inr (i, v, ''imp'')" "imps i = Some v"
    by (auto simp: db_rows_def List.map_filter_def)
  then show ?case
  proof cases
    case req
    from Cons.IH [of "put i v d" e] Cons.prems(2-4) obtain d' e' where "read_rows xs (put i v d) e = Inr (d', e')" "wf_map d'" "wf_map e'"
      "\<And>k. lookup d' k = (if \<exists>v. Inr (k, v, ''request'') \<in> set xs then reqs k else lookup (put i v d) k)"
      "\<And>k. lookup e' k = (if \<exists>v. Inr (k, v, ''imp'') \<in> set xs then imps k else lookup e k)" by auto
    with req show ?thesis by (intro Cons.prems(1) [of d' e']) auto
  next
    case imp
    from Cons.IH [of d "put i v e"] Cons.prems(2-4) obtain d' e' where "read_rows xs d (put i v e) = Inr (d', e')" "wf_map d'" "wf_map e'"
      "\<And>k. lookup d' k = (if \<exists>v. Inr (k, v, ''request'') \<in> set xs then reqs k else lookup d k)"
      "\<And>k. lookup e' k = (if \<exists>v. Inr (k, v, ''imp'') \<in> set xs then imps k else lookup (put i v e) k)" by auto
    with imp show ?thesis by (intro Cons.prems(1) [of d' e']) auto
  qed
qed

lemma set_map_filter_iff: "y \<in> set (List.map_filter f xs) \<longleftrightarrow> (\<exists>x\<in>set xs. f x = Some y)"
  by (induction xs) (auto simp: map_filter_simps split: option.splits)

lemma db_rows_iff:
  "Inr (k, v, ''request'') \<in> set (db_rows reqs imps rs is) \<longleftrightarrow> k \<in> set rs \<and> reqs k = Some v"
  "Inr (k, v, ''imp'') \<in> set (db_rows reqs imps rs is) \<longleftrightarrow> k \<in> set is \<and> imps k = Some v"
  by (auto simp: db_rows_def set_map_filter_iff)

lemma db_fetch:
  assumes "db_has queryMaker db reqs imps"
  obtains d e where "db_FetchRequests queryMaker db rs is = (d, e, not_found ''Request'' reqs rs @ not_found ''Imp'' imps is)"
    "wf_map d" "wf_map e" "lookup d = reqs |` set rs" "lookup e = imps |` set is"
proof (cases "rs = [] \<and> is = []")
  case True
  then show ?thesis by (intro that [of "[]" "[]"]) (auto simp: db_FetchRequests_def not_found_def restrict_map_def)
next
  case False
  from assms obtain rows where rows: "db (queryMaker (int (length rs)) (int (length is))) (rs @ is) = Inr (rows, None)"
    and r: "set rows = set (db_rows reqs imps rs is)" unfolding db_has_def by blast
  from r have "set rows \<subseteq> set (db_rows reqs imps rs is)" by simp
  then obtain d e where d: "read_rows rows [] [] = Inr (d, e)" "wf_map d" "wf_map e"
    and l: "\<And>k. lookup d k = (if \<exists>v. Inr (k, v, ''request'') \<in> set rows then reqs k else lookup [] k)"
      "\<And>k. lookup e k = (if \<exists>v. Inr (k, v, ''imp'') \<in> set rows then imps k else lookup [] k)"
    by (rule read_rows_set [OF _ wf_map_Nil wf_map_Nil]) blast
  have ld: "lookup d = reqs |` set rs" "lookup e = imps |` set is"
    using l unfolding r db_rows_iff by (auto simp: fun_eq_iff restrict_map_def)
  have nf: "not_found t (c |` set ids) ids = not_found t c ids" for t ids and c :: "string \<Rightarrow> 'a option"
    by (rule not_found_cong) simp
  from False rows d ld nf show ?thesis
    by (intro that [OF _ d(2,3) ld]) (auto simp: db_FetchRequests_def appendErrors_eq)
qed

lemma db_source:
  assumes "db_has queryMaker db reqs imps"
  shows "exact_source (dbFetcher queryMaker db) ok reqs imps"
proof -
  have l: "wf_map rd \<and> wf_map idt \<and> lookup rd = reqs |` set rs \<and> lookup idt = imps |` set is \<and> w' = w \<and>
      errs = not_found ''Request'' reqs rs @ not_found ''Imp'' imps is"
    if "fetchRequests (dbFetcher queryMaker db) w rs is = ((rd, idt, errs), w')" for w rs "is" rd idt errs w'
    using that by (rule_tac db_fetch [OF assms, of rs "is"]) (simp add: dbFetcher_def)
  show ?thesis
    by unfold_locales (auto dest!: l simp: map_le_def restrict_map_def dom_def split: if_splits)
qed

section \<open>Runs of fetches\<close>

text \<open>What the caller sees of a run of fetches: the data of the ids asked for and the errors.\<close>

fun fetch_run :: "('w, 'v) AllFetcher \<Rightarrow> 'w \<Rightarrow> (string list \<times> string list) list \<Rightarrow> ('v option list \<times> 'v option list \<times> fetch_error list) list" where
  "fetch_run f w [] = []"
| "fetch_run f w ((rs, is) # qs) = (case fetchRequests f w rs is of ((rd, idt, errs), w') \<Rightarrow>
     (map (lookup rd) rs, map (lookup idt) is, errs) # fetch_run f w' qs)"

definition spec_fetch :: "(string \<Rightarrow> 'v option) \<Rightarrow> (string \<Rightarrow> 'v option) \<Rightarrow> string list \<times> string list \<Rightarrow> 'v option list \<times> 'v option list \<times> fetch_error list" where
  "spec_fetch reqs imps q = (map reqs (fst q), map imps (snd q), not_found ''Request'' reqs (fst q) @ not_found ''Imp'' imps (snd q))"

context stored_source
begin

lemma run_refines: "ok w \<Longrightarrow> fetch_run f w qs = map (spec_fetch reqs imps) qs"
proof (induction qs arbitrary: w)
  case Nil
  then show ?case by simp
next
  case (Cons q qs)
  obtain rs "is" where q: "q = (rs, is)" by (cases q)
  obtain rd idt errs w' where ft: "fetchRequests f w rs is = ((rd, idt, errs), w')" by (metis prod.exhaust)
  from fetch_inv [OF Cons.prems ft] Cons.IH have "fetch_run f w' qs = map (spec_fetch reqs imps) qs" by blast
  moreover have "map (lookup rd) rs = map reqs rs" "map (lookup idt) is = map imps is"
    using fetch_complete [OF Cons.prems ft] by simp_all
  ultimately show ?case using ft fetch_errs [OF Cons.prems ft] by (simp add: q spec_fetch_def)
qed

end

context cached_source
begin

lemma cached_runs: "consistent holds ok reqs imps w \<Longrightarrow> fetch_run (WithCache f cache) w qs = map (spec_fetch reqs imps) qs"
  by (rule through.run_refines)

end

lemma on_part_source:
  assumes "stored_source f ok reqs imps" and "\<And>p w. sel (upd p w) = p"
  shows "stored_source (on_part sel upd f) (\<lambda>w. ok (sel w)) reqs imps"
proof unfold_locales
  fix w rs "is" rd idt errs w'
  assume w: "ok (sel w)" and r: "fetchRequests (on_part sel upd f) w rs is = ((rd, idt, errs), w')"
  then obtain p where p: "fetchRequests f (sel w) rs is = ((rd, idt, errs), p)" "w' = upd p w"
    by (auto simp: on_part_def split: prod.splits)
  note s = stored_source.fetch_inv [OF assms(1) w p(1)] stored_source.fetch_sound [OF assms(1) w p(1)]
    stored_source.fetch_complete [OF assms(1) w p(1)] stored_source.fetch_errs [OF assms(1) w p(1)]
  show "ok (sel w') \<and> wf_map rd \<and> wf_map idt" using s(1) by (simp add: p(2) assms(2))
  show "lookup rd \<subseteq>\<^sub>m reqs \<and> lookup idt \<subseteq>\<^sub>m imps" by (rule s(2))
  show "(\<forall>k\<in>set rs. lookup rd k = reqs k) \<and> (\<forall>k\<in>set is. lookup idt k = imps k)" by (rule s(3))
  show "errs = not_found ''Request'' reqs rs @ not_found ''Imp'' imps is" by (rule s(4))
qed

text \<open>The contents of a server that has files and a database: a file counts before a row.\<close>

definition stored_contents :: "FileSystem \<Rightarrow> string \<Rightarrow> (string \<Rightarrow> raw option) \<Rightarrow> string \<Rightarrow> raw option" where
  "stored_contents fs dir rows = first_of [lookup (dir_files fs dir), rows]"

lemma newFetcher_source:
  assumes "collectStoredData d = Inr fs" and "queryTemplate \<noteq> []" and "db_has queryMaker db reqs imps"
  shows "stored_source (newFetcher True queryTemplate [] queryMaker db jsonError http) (\<lambda>w. files_are fs (bk_Files w))
    (stored_contents fs ''stored_requests'' reqs) (stored_contents fs ''stored_imps'' imps)"
proof -
  have "stored_source (on_part bk_Files (\<lambda>p w. w\<lparr>bk_Files := p\<rparr>) eager_fetcher) (\<lambda>w. files_are fs (bk_Files w))
      (lookup (dir_files fs ''stored_requests'')) (lookup (dir_files fs ''stored_imps''))"
    by (rule on_part_source [OF files_source [OF assms(1)]]) simp
  moreover have "sources (\<lambda>w. files_are fs (bk_Files w)) [dbFetcher queryMaker db] [(reqs, imps)]"
    using db_source [OF assms(3)] by (simp add: sources_def)
  ultimately have "stored_source (MultiFetcher [on_part bk_Files (\<lambda>p w. w\<lparr>bk_Files := p\<rparr>) eager_fetcher, dbFetcher queryMaker db])
      (\<lambda>w. files_are fs (bk_Files w)) (first_of (lookup (dir_files fs ''stored_requests'') # map fst [(reqs, imps)]))
      (first_of (lookup (dir_files fs ''stored_imps'') # map snd [(reqs, imps)]))"
    by (rule multi_source)
  with assms(2) show ?thesis by (simp add: newFetcher_def consolidate_def stored_contents_def)
qed

definition memory_caches :: "('v data, 'v option data, 'v) Cache" where
  "memory_caches = \<lparr>Requests = memory_cache pbsSyncMap, Imps = memory_cache pbsSyncMap, Accounts = memory_cache pbsSyncMap\<rparr>"

text \<open>
  C19. Fetching through the caches refines the stores. A server that serves stored requests from files and
  a database behind memory caches shows in every run of fetches what a store without caches would show: for each id the
  content of its file, else of its row, and a not-found error for each id that has neither, whatever
  the order of the fetches and the ids they share.
\<close>

theorem cached_fetches_refine_stores:
  assumes "NewFileFetcher d = Inr files" and "queryTemplate \<noteq> []" and "db_has queryMaker db reqs imps"
  shows "fetch_run (WithCache (newFetcher True queryTemplate [] queryMaker db jsonError http) memory_caches)
      \<lparr>cw_Requests = [], cw_Imps = [], cw_Accounts = [], cw_Backend = \<lparr>bk_Files = files, bk_Http = []\<rparr>\<rparr> qs
    = map (spec_fetch (stored_contents (ef_FileSystem files) ''stored_requests'' reqs)
        (stored_contents (ef_FileSystem files) ''stored_imps'' imps)) qs"
proof -
  from assms(1) have c: "collectStoredData d = Inr (ef_FileSystem files)" by (auto simp: NewFileFetcher_def split: sum.splits)
  have "cached_source (newFetcher True queryTemplate [] queryMaker db jsonError http) (\<lambda>w. files_are (ef_FileSystem files) (bk_Files w))
      (stored_contents (ef_FileSystem files) ''stored_requests'' reqs) (stored_contents (ef_FileSystem files) ''stored_imps'' imps)
      memory_caches sync_holds"
    unfolding cached_source_def cached_source_axioms_def
    using newFetcher_source [OF c assms(2,3)] sync.mem.json_cache_axioms by (simp add: memory_caches_def)
  then show ?thesis
    by (rule cached_source.cached_runs) (simp add: consistent_def sync_holds_def files_are_def)
qed

interpretation cached_empty: cached_source EmptyFetcher "\<lambda>w :: unit. True" "\<lambda>k. None" "\<lambda>k. None" memory_caches sync_holds
  unfolding cached_source_def cached_source_axioms_def
  using empty_source.stored_source_axioms sync.mem.json_cache_axioms by (simp add: memory_caches_def)

definition example_tree :: "go_error + dir_entry list" where
  "example_tree = Inr [DirEntry ''stored_requests'' (Inr [FileEntry ''1.json'' (Inr (Raw (JObj []))), FileEntry ''.gitignore'' (Inr RawBad)]),
     DirEntry ''stored_imps'' (Inr [])]"

definition example_store :: "string \<Rightarrow> raw option" where
  "example_store i = (if i = ''1'' \<or> i = ''2'' then Some (Raw (JBool True)) else None)"

text \<open>A database that is asked with a query whose length is the number of requests.\<close>

definition example_query :: "int \<Rightarrow> int \<Rightarrow> string" where
  "example_query r i = replicate (nat r) (CHR ''r'')"

definition example_db :: "string \<Rightarrow> string list \<Rightarrow> db_error + raw rows" where
  "example_db q ids = Inr (rev (db_rows example_store example_store (take (length q) ids) (drop (length q) ids)), None)"

lemma example_db_has: "db_has example_query example_db example_store example_store"
  by (simp add: db_has_def example_db_def example_query_def)

definition example_files :: eagerFetcher where
  "example_files = (case NewFileFetcher example_tree of Inr w \<Rightarrow> w | Inl e \<Rightarrow> \<lparr>ef_FileSystem = FileSystem [] [], ef_Categories = []\<rparr>)"

theorem cached_fetches_refine_stores_witness:
  "fetch_run (WithCache (newFetcher True ''select'' [] example_query example_db (\<lambda>_. OtherError ''json'') (\<lambda>_. CallFailed (OtherError ''down''))) memory_caches)
      \<lparr>cw_Requests = [], cw_Imps = [], cw_Accounts = [], cw_Backend = \<lparr>bk_Files = example_files, bk_Http = []\<rparr>\<rparr>
      [([''1'', ''2''], []), ([''2'', ''3''], [''2''])]
    = [([Some (Raw (JObj [])), Some (Raw (JBool True))], [], []),
       ([Some (Raw (JBool True)), None], [Some (Raw (JBool True))], [NotFoundError ''3'' ''Request''])]"
proof -
  have f: "NewFileFetcher example_tree = Inr example_files" by code_simp
  have q: "''select'' \<noteq> []" by simp
  show ?thesis
    unfolding cached_fetches_refine_stores [OF f q example_db_has] by code_simp
qed

section \<open>Where the interface is not kept\<close>

text \<open>
  The HTTP fetcher reports only ids that the endpoint answers with null. An id that the answer leaves
  out has neither data nor an error, against the interface, which promises a key for every impression
  unless errors exist.
\<close>

lemma http_omitted_id_unreported:
  "http_FetchRequests jsonError (\<lambda>url. Reply 200 (Raw (JObj [])) None) endpoint [] [''imp''] = ([], [], [])"
  by (simp add: http_FetchRequests_def unpackResponse_def unmarshal_def dec_responseContract_def dec_struct_def
      field_def dec_field_def json_field_def convertNullsToErrs_def)

definition example_categories :: eagerFetcher where
  "example_categories = \<lparr>ef_FileSystem = FileSystem [(''freewheel'', FileSystem [] [(''freewheel'', Raw (JObj []))])] [], ef_Categories = []\<rparr>"

text \<open>An unknown category is an error only in the first lookup, the one that loads the file.\<close>

lemma unknown_category_error_once:
  "(case eager_FetchCategories example_categories ''freewheel'' [] ''IAB1'' of ((c1, e1), w) \<Rightarrow>
     (case eager_FetchCategories w ''freewheel'' [] ''IAB1'' of ((c2, e2), w') \<Rightarrow> c1 = [] \<and> e1 \<noteq> None \<and> c2 = [] \<and> e2 = None))"
  by code_simp

end
