(* ===== verification/Stored_Events.thy ===== *)
theory Stored_Events
  imports Stored_Sources
begin

text \<open>
  Keeping the caches of stored requests up to date: the listener of \<open>stored_requests/events/events.go\<close>, the
  producers of events for the API, an HTTP endpoint and Postgres, and the periodic task of \<open>util/task\<close>.
  The endpoint and the database are arguments; time is an integer, and the producer of Postgres has no
  time before its first success. \<open>isDeleted\<close> stands for \<open>jsonparser.Get\<close> of the key \<open>deleted\<close> giving \<open>true\<close>.
\<close>

section \<open>Events and the listener\<close>

record 'v Save =
  sv_Requests :: "'v data"
  sv_Imps :: "'v data"
  sv_Accounts :: "'v data"

record Invalidation =
  iv_Requests :: "string list"
  iv_Imps :: "string list"
  iv_Accounts :: "string list"

datatype 'v event = SaveEvent "'v Save" | InvalidationEvent Invalidation | StopEvent

text \<open>
  One round of \<open>Listen\<close>. The \<open>break\<close> for a stop leaves the select statement and not the loop around it, so
  the listener goes on.
\<close>

fun listen_step :: "('s, 'a, 'v) Cache \<Rightarrow> 'v event \<Rightarrow> ('s, 'a, 'w) cached_world \<Rightarrow> ('s, 'a, 'w) cached_world" where
  "listen_step cache (SaveEvent save) w =
     w\<lparr>cw_Requests := cache_Save (Requests cache) (sv_Requests save) (cw_Requests w),
       cw_Imps := cache_Save (Imps cache) (sv_Imps save) (cw_Imps w),
       cw_Accounts := cache_Save (Accounts cache) (map (map_prod id Some) (sv_Accounts save)) (cw_Accounts w)\<rparr>"
| "listen_step cache (InvalidationEvent iv) w =
     w\<lparr>cw_Requests := cache_Invalidate (Requests cache) (iv_Requests iv) (cw_Requests w),
       cw_Imps := cache_Invalidate (Imps cache) (iv_Imps iv) (cw_Imps w),
       cw_Accounts := cache_Invalidate (Accounts cache) (iv_Accounts iv) (cw_Accounts w)\<rparr>"
| "listen_step cache StopEvent w = w"

definition Listen :: "('s, 'a, 'v) Cache \<Rightarrow> 'v event list \<Rightarrow> ('s, 'a, 'w) cached_world \<Rightarrow> ('s, 'a, 'w) cached_world" where
  "Listen cache es w = fold (listen_step cache) es w"

section \<open>The API\<close>

definition dec_Save :: "raw Save decoder" where
  "dec_Save = dec_struct [
     field ''requests'' (dec_map dec_raw RawEmpty) sv_Requests (\<lambda>v r. r\<lparr>sv_Requests := v\<rparr>),
     field ''imps'' (dec_map dec_raw RawEmpty) sv_Imps (\<lambda>v r. r\<lparr>sv_Imps := v\<rparr>),
     field ''accounts'' (dec_map dec_raw RawEmpty) sv_Accounts (\<lambda>v r. r\<lparr>sv_Accounts := v\<rparr>)]"

definition dec_Invalidation :: "Invalidation decoder" where
  "dec_Invalidation = dec_struct [
     field ''requests'' (dec_list dec_string []) iv_Requests (\<lambda>v r. r\<lparr>iv_Requests := v\<rparr>),
     field ''imps'' (dec_list dec_string []) iv_Imps (\<lambda>v r. r\<lparr>iv_Imps := v\<rparr>),
     field ''accounts'' (dec_list dec_string []) iv_Accounts (\<lambda>v r. r\<lparr>iv_Accounts := v\<rparr>)]"

text \<open>The status with the text of the answer, and the event that is sent. The body is None when it cannot be read.\<close>

definition HandleEvent :: "string \<Rightarrow> raw option \<Rightarrow> (int \<times> string) \<times> raw event option" where
  "HandleEvent method body =
     (if method = ''POST''
      then (case body of
              None \<Rightarrow> ((400, ''Missing update data.'' @ [CHR 10]), None)
            | Some b \<Rightarrow> (case unmarshal dec_Save b \<lparr>sv_Requests = [], sv_Imps = [], sv_Accounts = []\<rparr> of
                 None \<Rightarrow> ((400, ''Invalid update.'' @ [CHR 10]), None)
               | Some save \<Rightarrow> ((200, []), Some (SaveEvent save))))
      else if method = ''DELETE''
      then (case body of
              None \<Rightarrow> ((400, ''Missing invalidation data.'' @ [CHR 10]), None)
            | Some b \<Rightarrow> (case unmarshal dec_Invalidation b \<lparr>iv_Requests = [], iv_Imps = [], iv_Accounts = []\<rparr> of
                 None \<Rightarrow> ((400, ''Invalid invalidation.'' @ [CHR 10]), None)
               | Some iv \<Rightarrow> ((200, []), Some (InvalidationEvent iv))))
      else ((405, []), None))"

section \<open>Events from an HTTP endpoint\<close>

text \<open>An answer with another status, or one that cannot be read or decoded, is dropped.\<close>

definition parse_events :: "http_reply \<Rightarrow> raw Save option" where
  "parse_events reply = (case reply of
     Reply status body None \<Rightarrow>
       if status \<noteq> 200 then None
       else unmarshal dec_Save body \<lparr>sv_Requests = [], sv_Imps = [], sv_Accounts = []\<rparr>
   | _ \<Rightarrow> None)"

text \<open>The deleted ids and the changes that remain.\<close>

definition extractInvalidations :: "('v \<Rightarrow> bool) \<Rightarrow> 'v data \<Rightarrow> string list \<times> 'v data" where
  "extractInvalidations isDeleted changes =
     (map fst (filter (\<lambda>kv. isDeleted (snd kv)) changes), filter (\<lambda>kv. \<not> isDeleted (snd kv)) changes)"

definition save_events :: "'v Save \<Rightarrow> 'v event list" where
  "save_events s = (if sv_Requests s \<noteq> [] \<or> sv_Imps s \<noteq> [] \<or> sv_Accounts s \<noteq> [] then [SaveEvent s] else [])"

definition invalidation_events :: "Invalidation \<Rightarrow> 'v event list" where
  "invalidation_events iv = (if iv_Requests iv \<noteq> [] \<or> iv_Imps iv \<noteq> [] \<or> iv_Accounts iv \<noteq> [] then [InvalidationEvent iv] else [])"

definition http_fetchAll :: "(string \<Rightarrow> http_reply) \<Rightarrow> string \<Rightarrow> raw event list" where
  "http_fetchAll http endpoint = (case parse_events (http endpoint) of None \<Rightarrow> [] | Some s \<Rightarrow> save_events s)"

definition refresh_events :: "('v \<Rightarrow> bool) \<Rightarrow> 'v Save \<Rightarrow> 'v event list" where
  "refresh_events isDeleted resp =
     (let (dr, r) = extractInvalidations isDeleted (sv_Requests resp); (di, i) = extractInvalidations isDeleted (sv_Imps resp);
          (da, a) = extractInvalidations isDeleted (sv_Accounts resp)
      in save_events \<lparr>sv_Requests = r, sv_Imps = i, sv_Accounts = a\<rparr> @
         invalidation_events \<lparr>iv_Requests = dr, iv_Imps = di, iv_Accounts = da\<rparr>)"

text \<open>
  One tick of \<open>refresh\<close>: the time of the last update is that of the tick when the answer is good.
  \<open>withModified\<close> gives the endpoint with the parameter \<open>last-modified\<close>, None when the endpoint is no URL, which
  ends the refreshing.
\<close>

definition refresh_step ::
  "(raw \<Rightarrow> bool) \<Rightarrow> (string \<Rightarrow> int \<Rightarrow> string option) \<Rightarrow> (string \<Rightarrow> http_reply) \<Rightarrow> string \<Rightarrow> int \<Rightarrow> int \<Rightarrow> (raw event list \<times> int) option" where
  "refresh_step isDeleted withModified http endpoint thisTime lastUpdate = (case withModified endpoint lastUpdate of
     None \<Rightarrow> None
   | Some url \<Rightarrow> (case parse_events (http url) of
        None \<Rightarrow> Some ([], lastUpdate)
      | Some resp \<Rightarrow> Some (refresh_events isDeleted resp, thisTime)))"

section \<open>Events from Postgres\<close>

text \<open>Here a value is its bytes: empty ones and \<open>null\<close> mean that the row was deleted.\<close>

definition no_data :: "string \<Rightarrow> bool" where
  "no_data d = (d = [] \<or> d = ''null'')"

record pg_changes =
  pc_Requests :: "string data"
  pc_Imps :: "string data"
  pc_delRequests :: "string list"
  pc_delImps :: "string list"

fun scan_rows :: "(go_error + string \<times> string \<times> string) list \<Rightarrow> pg_changes \<Rightarrow> go_error + pg_changes" where
  "scan_rows [] c = Inr c"
| "scan_rows (Inl e # rs) c = Inl e"
| "scan_rows (Inr (i, dat, dataType) # rs) c = scan_rows rs
     (if dataType = ''request''
      then (if no_data dat then c\<lparr>pc_delRequests := pc_delRequests c @ [i]\<rparr> else c\<lparr>pc_Requests := put i dat (pc_Requests c)\<rparr>)
      else if dataType = ''imp''
      then (if no_data dat then c\<lparr>pc_delImps := pc_delImps c @ [i]\<rparr> else c\<lparr>pc_Imps := put i dat (pc_Imps c)\<rparr>)
      else c)"

definition sendEvents :: "bool \<Rightarrow> string rows \<Rightarrow> go_error + string event list" where
  "sendEvents firstLoad rows = (case scan_rows (fst rows) \<lparr>pc_Requests = [], pc_Imps = [], pc_delRequests = [], pc_delImps = []\<rparr> of
     Inl e \<Rightarrow> Inl e
   | Inr c \<Rightarrow> (case snd rows of
        Some e \<Rightarrow> Inl e
      | None \<Rightarrow> Inr (save_events \<lparr>sv_Requests = pc_Requests c, sv_Imps = pc_Imps c, sv_Accounts = []\<rparr> @
          (if firstLoad then [] else invalidation_events \<lparr>iv_Requests = pc_delRequests c, iv_Imps = pc_delImps c, iv_Accounts = []\<rparr>))))"

text \<open>
  \<open>Run\<close>: the first query without a time, later ones for the changes since the last update. \<open>query\<close> gives the
  error, or the rows with the error of closing them. The result is the error that is returned, the events, and the
  time of the last update.
\<close>

definition pg_Run ::
  "(int option \<Rightarrow> go_error + string rows \<times> go_error option) \<Rightarrow> int \<Rightarrow> int option \<Rightarrow> go_error option \<times> string event list \<times> int option" where
  "pg_Run query startTime lastUpdate = (case query lastUpdate of
     Inl e \<Rightarrow> (Some e, [], lastUpdate)
   | Inr (rows, closeErr) \<Rightarrow>
       (case sendEvents (lastUpdate = None) rows of
          Inl e \<Rightarrow> (Some (case closeErr of Some c \<Rightarrow> c | None \<Rightarrow> e), [], lastUpdate)
        | Inr es \<Rightarrow> (closeErr, es, Some startTime)))"

text \<open>The timeout of a query in nanoseconds, from the configured milliseconds: \<open>newEventProducers\<close>, then \<open>fetchAll\<close> or \<open>fetchDelta\<close>.\<close>

definition producer_timeout :: "int \<Rightarrow> int" where
  "producer_timeout timeout_ms = wrap64 (timeout_ms * 1000000)"

definition query_timeout :: "int \<Rightarrow> int" where
  "query_timeout timeout_ms = wrap64 (producer_timeout timeout_ms * 1000000)"

section \<open>Periodic tasks\<close>

datatype tick = Tick | Done

text \<open>The runs of a task after \<open>Start\<close>, for the messages its goroutine receives.\<close>

fun runRecurring :: "('s \<Rightarrow> 's) \<Rightarrow> tick list \<Rightarrow> 's \<Rightarrow> 's" where
  "runRecurring run [] s = s"
| "runRecurring run (Tick # ts) s = runRecurring run ts (run s)"
| "runRecurring run (Done # ts) s = s"

definition task_Start :: "int \<Rightarrow> ('s \<Rightarrow> 's) \<Rightarrow> tick list \<Rightarrow> 's \<Rightarrow> 's" where
  "task_Start interval run ts s = (if interval > 0 then runRecurring run ts (run s) else run s)"

section \<open>Properties: events keep the caches consistent\<close>

text \<open>
  What changes from one content of a store to the next: new values for some ids and the deletion of others.
\<close>

definition changed :: "'v data \<Rightarrow> string list \<Rightarrow> (string \<Rightarrow> 'v option) \<Rightarrow> (string \<Rightarrow> 'v option) \<Rightarrow> bool" where
  "changed chg gone c c' = (wf_map chg \<and> fst ` set chg \<inter> set gone = {} \<and>
     (\<forall>k. c' k = (if k \<in> set gone then None else case lookup chg k of Some v \<Rightarrow> Some v | None \<Rightarrow> c k)))"

lemma changed_eq:
  assumes "changed chg gone c c'"
  shows "(c ++ lookup chg) |` (- set gone) = c'" "(c |` (- set gone)) ++ lookup chg = c'"
proof -
  have "lookup chg k = None" if "k \<in> set gone" for k
    using assms that by (auto simp: changed_def map_of_eq_None_iff)
  with assms show "(c ++ lookup chg) |` (- set gone) = c'" "(c |` (- set gone)) ++ lookup chg = c'"
    by (auto simp: changed_def fun_eq_iff restrict_map_def map_add_def split: option.splits)
qed

context json_cache
begin

lemma save_then_invalidate:
  assumes "holds s c" and "changed chg gone c c'"
  shows "holds (cache_Invalidate cache gone (cache_Save cache chg s)) c'"
proof -
  have "wf_map chg" using assms(2) by (simp add: changed_def)
  from Invalidate_holds [OF Save_holds [OF assms(1) this], of gone] show ?thesis by (simp only: changed_eq [OF assms(2)])
qed

lemma invalidate_then_save:
  assumes "holds s c" and "changed chg gone c c'"
  shows "holds (cache_Save cache chg (cache_Invalidate cache gone s)) c'"
proof -
  have "wf_map chg" using assms(2) by (simp add: changed_def)
  from Save_holds [OF Invalidate_holds [OF assms(1)] this, of gone] show ?thesis by (simp only: changed_eq [OF assms(2)])
qed

end

lemma cache_no_ids [simp]:
  "cache_Save (memory_cache pbsSyncMap) [] s = s" "cache_Invalidate (memory_cache pbsSyncMap) [] s = s"
  by (simp_all add: memory_cache_def)

lemma listen_changes:
  fixes w :: "('v data, 'v option data, 'w) cached_world"
  assumes "consistent sync_holds ok reqs imps w"
    and "changed (sv_Requests s) (iv_Requests i) reqs reqs'" and "changed (sv_Imps s) (iv_Imps i) imps imps'"
    and "mset es = mset (save_events s @ invalidation_events i)"
  shows "consistent sync_holds ok reqs' imps' (Listen memory_caches es w)"
proof -
  from assms(1) have h: "sync_holds (cw_Requests w) reqs" "sync_holds (cw_Imps w) imps" by (simp_all add: consistent_def)
  note both = sync.mem.save_then_invalidate [OF h(1) assms(2)] sync.mem.save_then_invalidate [OF h(2) assms(3)]
    sync.mem.invalidate_then_save [OF h(1) assms(2)] sync.mem.invalidate_then_save [OF h(2) assms(3)]
  have "es = save_events s @ invalidation_events i \<or> es = invalidation_events i @ save_events s"
  proof -
    consider (none) "save_events s = []" "invalidation_events i = ([] :: 'v event list)" | (one) x where "save_events s @ invalidation_events i = [x]"
      | (two) x y where "save_events s = [x]" "invalidation_events i = [y :: 'v event]"
    proof -
      have "save_events s = [] \<or> (\<exists>x. save_events s = [x])" by (simp add: save_events_def)
      moreover have "invalidation_events i = ([] :: 'v event list) \<or> (\<exists>y. invalidation_events i = [y :: 'v event])" by (simp add: invalidation_events_def)
      ultimately show thesis using that by (metis append_Nil append_Nil2)
    qed
    then show ?thesis
    proof cases
      case one
      with assms(4) have "es = [x]" by simp
      with one show ?thesis by simp
    next
      case two
      with assms(4) have "mset es = {#x, y#}" by simp
      then have "es = [x, y] \<or> es = [y, x]" by (cases es rule: remdups_adj.cases) (auto simp: add_eq_conv_ex)
      with two show ?thesis by auto
    qed (use assms(4) in simp)
  qed
  moreover have "consistent sync_holds ok reqs' imps' (Listen memory_caches (save_events s @ invalidation_events i) w)"
    using assms(1) both by (auto simp: consistent_def Listen_def save_events_def invalidation_events_def memory_caches_def)
  moreover have "consistent sync_holds ok reqs' imps' (Listen memory_caches (invalidation_events i @ save_events s) w)"
    using assms(1) both by (auto simp: consistent_def Listen_def save_events_def invalidation_events_def memory_caches_def)
  ultimately show ?thesis by auto
qed

text \<open>An answer of the endpoint that tells all that changed since the last update.\<close>

definition answers_changes :: "('v \<Rightarrow> bool) \<Rightarrow> 'v data \<Rightarrow> (string \<Rightarrow> 'v option) \<Rightarrow> (string \<Rightarrow> 'v option) \<Rightarrow> bool" where
  "answers_changes isDeleted answer c c' = (wf_map answer \<and>
     (\<forall>k. c' k = (case lookup answer k of Some v \<Rightarrow> if isDeleted v then None else Some v | None \<Rightarrow> c k)))"

lemma lookup_filter_value:
  assumes "wf_map m"
  shows "lookup (filter (\<lambda>kv. P (snd kv)) m) k = (case lookup m k of Some v \<Rightarrow> if P v then Some v else None | None \<Rightarrow> None)"
  using assms by (induction m) (auto simp: wf_map_def map_of_eq_None_iff image_iff split: option.splits)

lemma answers_changed:
  assumes "answers_changes isDeleted answer c c'" and "extractInvalidations isDeleted answer = (gone, chg)"
  shows "changed chg gone c c'"
proof -
  have m: "wf_map answer" and chg: "chg = filter (\<lambda>kv. \<not> isDeleted (snd kv)) answer"
    and gone: "gone = map fst (filter (\<lambda>kv. isDeleted (snd kv)) answer)"
    using assms by (simp_all add: answers_changes_def extractInvalidations_def)
  have mem: "k \<in> set gone \<longleftrightarrow> (\<exists>v. lookup answer k = Some v \<and> isDeleted v)" for k
    using m by (auto simp: gone wf_map_lookup_iff [OF m] image_iff)
  have "wf_map chg" using m by (simp add: chg wf_map_def distinct_map_filter)
  moreover have "fst ` set chg \<inter> set gone = {}"
    using m by (auto simp: chg mem wf_map_lookup_iff [OF m] wf_map_def dest: eq_key_imp_eq_value)
  ultimately show ?thesis
    using assms(1) lookup_filter_value [OF m, of "\<lambda>v. \<not> isDeleted v"]
    by (auto simp: changed_def answers_changes_def mem chg split: option.splits)
qed

definition good_answer :: "http_reply \<Rightarrow> raw Save \<Rightarrow> bool" where
  "good_answer reply resp = (\<exists>body. reply = Reply 200 body None \<and> unmarshal dec_Save body \<lparr>sv_Requests = [], sv_Imps = [], sv_Accounts = []\<rparr> = Some resp)"

lemma parse_events_good: "parse_events reply = Some resp \<longleftrightarrow> good_answer reply resp"
  by (auto simp: parse_events_def good_answer_def split: http_reply.splits option.splits if_splits)

text \<open>
  C20. A refresh from the endpoint keeps the caches right. It always comes to a result. When the answer is good, that is, has status 200 and a body that
  decodes, and tells all changes of the store since the last update, then after its events the caches hold only values of the changed store, in
  whatever order the listener takes the save and the invalidation, and the time of the last update moves to that of the tick. Otherwise there
  are no events and the time stays.
\<close>

theorem http_refresh_consistent:
  fixes w :: "(raw data, raw option data, 'w) cached_world"
  assumes "consistent sync_holds ok reqs imps w" and "withModified endpoint lastUpdate = Some url"
    and "\<And>resp. good_answer (http url) resp \<Longrightarrow>
      answers_changes isDeleted (sv_Requests resp) reqs reqs' \<and> answers_changes isDeleted (sv_Imps resp) imps imps'"
  shows "\<exists>es updated. refresh_step isDeleted withModified http endpoint thisTime lastUpdate = Some (es, updated) \<and>
    (if \<exists>resp. good_answer (http url) resp
     then updated = thisTime \<and> (\<forall>es'. mset es' = mset es \<longrightarrow> consistent sync_holds ok reqs' imps' (Listen memory_caches es' w))
     else es = [] \<and> updated = lastUpdate)"
proof (cases "parse_events (http url)")
  case None
  then have "\<not> good_answer (http url) resp" for resp using parse_events_good [of "http url" resp] by simp
  with None assms(2) show ?thesis by (simp add: refresh_step_def)
next
  case (Some resp)
  then have good: "good_answer (http url) resp" by (simp add: parse_events_good)
  obtain dr r di i da a where x: "extractInvalidations isDeleted (sv_Requests resp) = (dr, r)"
    "extractInvalidations isDeleted (sv_Imps resp) = (di, i)" "extractInvalidations isDeleted (sv_Accounts resp) = (da, a)"
    by (metis prod.exhaust)
  have c: "changed r dr reqs reqs'" "changed i di imps imps'"
    using answers_changed [OF _ x(1)] answers_changed [OF _ x(2)] assms(3) [OF good] by blast+
  have "consistent sync_holds ok reqs' imps' (Listen memory_caches es' w)" if "mset es' = mset (refresh_events isDeleted resp)" for es'
    by (rule listen_changes [OF assms(1), where s = "\<lparr>sv_Requests = r, sv_Imps = i, sv_Accounts = a\<rparr>"
          and i = "\<lparr>iv_Requests = dr, iv_Imps = di, iv_Accounts = da\<rparr>"]) (use c that x in \<open>simp_all add: refresh_events_def\<close>)
  with good assms(2) Some show ?thesis by (auto simp: refresh_step_def)
qed

definition example_answer :: http_reply where
  "example_answer = Reply 200 (Raw (JObj [(''requests'', JObj [(''1'', JInt 7), (''2'', JBool True)])])) None"

definition example_deleted :: "raw \<Rightarrow> bool" where
  "example_deleted r = (r = Raw (JBool True))"

theorem http_refresh_consistent_witness:
  "\<exists>es. refresh_step example_deleted (\<lambda>e t. Some e) (\<lambda>_. example_answer) ''e'' 5 3 = Some (es, 5) \<and> length es = 2 \<and>
     consistent sync_holds (\<lambda>_. True) [''1'' \<mapsto> Raw (JInt 7)] Map.empty
       (Listen memory_caches (rev es) \<lparr>cw_Requests = [(''1'', Raw (JInt 1)), (''2'', RawEmpty)], cw_Imps = [], cw_Accounts = [], cw_Backend = ()\<rparr>)"
proof -
  let ?w = "\<lparr>cw_Requests = [(''1'', Raw (JInt 1)), (''2'', RawEmpty)], cw_Imps = [], cw_Accounts = [], cw_Backend = ()\<rparr>
    :: (raw data, raw option data, unit) cached_world"
  let ?old = "[''1'' \<mapsto> Raw (JInt 1), ''2'' \<mapsto> RawEmpty]" and ?new = "[''1'' \<mapsto> Raw (JInt 7)]"
  let ?resp = "\<lparr>sv_Requests = [(''1'', Raw (JInt 7)), (''2'', Raw (JBool True))], sv_Imps = [], sv_Accounts = []\<rparr>"
  have p: "parse_events example_answer = Some ?resp" by code_simp
  then obtain es where es: "refresh_step example_deleted (\<lambda>e t. Some e) (\<lambda>_. example_answer) ''e'' 5 3 = Some (es, 5)"
    and es_eq: "es = refresh_events example_deleted ?resp" by (simp add: refresh_step_def)
  have l: "length es = 2" unfolding es_eq by code_simp
  have w: "consistent sync_holds (\<lambda>_. True) ?old Map.empty ?w"
    by (auto simp: consistent_def sync_holds_def map_le_def)
  have a: "answers_changes example_deleted (sv_Requests resp) ?old ?new \<and> answers_changes example_deleted (sv_Imps resp) Map.empty Map.empty"
    if "good_answer ((\<lambda>_. example_answer) ''e'') resp" for resp
  proof -
    from that p have "resp = ?resp" by (simp flip: parse_events_good)
    then show ?thesis by (auto simp: answers_changes_def example_deleted_def wf_map_def)
  qed
  have m: "mset (rev es) = mset es" by simp
  have g: "\<exists>resp. good_answer example_answer resp" using p by (auto simp: parse_events_good)
  have "\<exists>es2 up. refresh_step example_deleted (\<lambda>e t. Some e) (\<lambda>_. example_answer) ''e'' 5 3 = Some (es2, up) \<and>
     (if \<exists>resp. good_answer ((\<lambda>_. example_answer) ''e'') resp
      then up = 5 \<and> (\<forall>es'. mset es' = mset es2 \<longrightarrow> consistent sync_holds (\<lambda>_. True) ?new Map.empty (Listen memory_caches es' ?w))
      else es2 = [] \<and> up = 3)"
    by (rule http_refresh_consistent [OF w refl]) (rule a)
  then obtain es2 up where r: "refresh_step example_deleted (\<lambda>e t. Some e) (\<lambda>_. example_answer) ''e'' 5 3 = Some (es2, up)"
    and c: "if \<exists>resp. good_answer ((\<lambda>_. example_answer) ''e'') resp
      then up = 5 \<and> (\<forall>es'. mset es' = mset es2 \<longrightarrow> consistent sync_holds (\<lambda>_. True) ?new Map.empty (Listen memory_caches es' ?w))
      else es2 = [] \<and> up = 3"
    by (elim exE conjE) (rule that, assumption+)
  from r es have "es2 = es" by simp
  with c [unfolded if_P [OF g]] m have "consistent sync_holds (\<lambda>_. True) ?new Map.empty (Listen memory_caches (rev es) ?w)" by blast
  with es l show ?thesis by blast
qed

text \<open>Rows that tell all that changed: at most one row for each id of a kind.\<close>

definition rows_of :: "string \<Rightarrow> (string \<times> string \<times> string) list \<Rightarrow> string data" where
  "rows_of t rows = map (\<lambda>(i, d, _). (i, d)) (filter (\<lambda>(_, _, t'). t' = t) rows)"

lemma scan_rows_all:
  assumes "wf_map (pc_Requests c @ rows_of ''request'' rows)" and "wf_map (pc_Imps c @ rows_of ''imp'' rows)"
  shows "scan_rows (map Inr rows) c = Inr \<lparr>
     pc_Requests = pc_Requests c @ snd (extractInvalidations no_data (rows_of ''request'' rows)),
     pc_Imps = pc_Imps c @ snd (extractInvalidations no_data (rows_of ''imp'' rows)),
     pc_delRequests = pc_delRequests c @ fst (extractInvalidations no_data (rows_of ''request'' rows)),
     pc_delImps = pc_delImps c @ fst (extractInvalidations no_data (rows_of ''imp'' rows))\<rparr>"
  using assms
proof (induction rows arbitrary: c)
  case Nil
  then show ?case by (simp add: rows_of_def extractInvalidations_def)
next
  case (Cons row rows)
  obtain i d t where row: "row = (i, d, t)" by (cases row)
  have put_new: "put k v m = m @ [(k, v)]" if "k \<notin> fst ` set m" for k and v :: string and m
    using that by (induction m) auto
  consider (req) "t = ''request''" | (imp) "t = ''imp''" | (other) "t \<noteq> ''request''" "t \<noteq> ''imp''" by blast
  then show ?case
  proof cases
    case req
    with Cons.prems(1) have "i \<notin> fst ` set (pc_Requests c)" by (auto simp: row rows_of_def wf_map_def)
    with req Cons show ?thesis by (auto simp: row rows_of_def extractInvalidations_def wf_map_def put_new)
  next
    case imp
    with Cons.prems(2) have "i \<notin> fst ` set (pc_Imps c)" by (auto simp: row rows_of_def wf_map_def)
    with imp Cons show ?thesis by (auto simp: row rows_of_def extractInvalidations_def wf_map_def put_new)
  next
    case other
    with Cons show ?thesis by (auto simp: row rows_of_def extractInvalidations_def)
  qed
qed

text \<open>
  C21. A poll of Postgres keeps the caches right. When the rows tell all changes since the last update,
  with at most one row for an id, the events bring the caches from the old contents to the new ones in
  either order, and the next poll asks for changes since the start of this one. When the query or the
  reading of a row fails, no event is sent and the next poll asks for the same changes again.
\<close>

theorem postgres_poll_consistent:
  fixes w :: "(string data, string option data, 'w) cached_world"
  assumes "pg_Run query now (Some since) = (err, es, updated)" and "consistent sync_holds ok reqs imps w"
    and "\<And>rows closeErr. query (Some since) = Inr ((map Inr rows, None), closeErr) \<Longrightarrow>
      answers_changes no_data (rows_of ''request'' rows) reqs reqs' \<and> answers_changes no_data (rows_of ''imp'' rows) imps imps'"
  shows "if \<exists>rows closeErr. query (Some since) = Inr ((map Inr rows, None), closeErr)
    then updated = Some now \<and> (\<forall>es'. mset es' = mset es \<longrightarrow> consistent sync_holds ok reqs' imps' (Listen memory_caches es' w))
    else es = [] \<and> updated = Some since \<and> err \<noteq> None"
proof (cases "\<exists>rows closeErr. query (Some since) = Inr ((map Inr rows, None), closeErr)")
  case True
  then obtain rows closeErr where q: "query (Some since) = Inr ((map Inr rows, None), closeErr)" by blast
  note d = assms(3) [OF q]
  obtain dr r di i where x: "extractInvalidations no_data (rows_of ''request'' rows) = (dr, r)"
    "extractInvalidations no_data (rows_of ''imp'' rows) = (di, i)" by (metis prod.exhaust)
  have "wf_map (rows_of ''request'' rows)" "wf_map (rows_of ''imp'' rows)" using d by (simp_all add: answers_changes_def)
  then have sr: "scan_rows (map Inr rows) \<lparr>pc_Requests = [], pc_Imps = [], pc_delRequests = [], pc_delImps = []\<rparr>
      = Inr \<lparr>pc_Requests = r, pc_Imps = i, pc_delRequests = dr, pc_delImps = di\<rparr>"
    by (subst scan_rows_all) (simp_all add: x)
  then have es: "updated = Some now" "es = save_events \<lparr>sv_Requests = r, sv_Imps = i, sv_Accounts = []\<rparr> @
      invalidation_events \<lparr>iv_Requests = dr, iv_Imps = di, iv_Accounts = []\<rparr>"
    using assms(1) q by (simp_all add: pg_Run_def sendEvents_def)
  have "consistent sync_holds ok reqs' imps' (Listen memory_caches es' w)" if "mset es' = mset es" for es'
    by (rule listen_changes [OF assms(2), where s = "\<lparr>sv_Requests = r, sv_Imps = i, sv_Accounts = []\<rparr>"
          and i = "\<lparr>iv_Requests = dr, iv_Imps = di, iv_Accounts = []\<rparr>"])
      (use answers_changed [OF _ x(1)] answers_changed [OF _ x(2)] d that es(2) in simp_all)
  with es(1) True show ?thesis by simp
next
  case False
  have "\<exists>e. sendEvents False rows = Inl e" if q: "query (Some since) = Inr (rows, c)" for rows c
  proof (cases "\<exists>e. Inl e \<in> set (fst rows)")
    case True
    have bad: "Inl e \<in> set rs \<Longrightarrow> \<exists>e. scan_rows rs st = Inl e" for e rs st by (induction rs st rule: scan_rows.induct) auto
    from True obtain e where "Inl e \<in> set (fst rows)" by blast
    from bad [OF this] obtain e' where "scan_rows (fst rows) \<lparr>pc_Requests = [], pc_Imps = [], pc_delRequests = [], pc_delImps = []\<rparr> = Inl e'" by blast
    then show ?thesis by (simp add: sendEvents_def)
  next
    case good: False
    have "\<exists>r. fst rows = map Inr r" by (rule exI [of _ "map projr (fst rows)"], rule sym, rule map_idI [where f = "Inr \<circ> projr", unfolded map_map [symmetric]])
        (use good in \<open>auto, metis sum.collapse(2) sum.exhaust_sel sum.disc(2)\<close>)
    with False q have "snd rows \<noteq> None" by (metis prod.collapse)
    then show ?thesis by (auto simp: sendEvents_def split: sum.splits)
  qed
  with assms(1) False show ?thesis by (auto simp: pg_Run_def split: sum.splits prod.splits option.splits)
qed

definition example_poll :: "int option \<Rightarrow> go_error + string rows \<times> go_error option" where
  "example_poll since = (if since = None then Inl (OtherError ''no'')
     else Inr ((map Inr [(''1'', ''{}'', ''request''), (''2'', ''null'', ''request''), (''9'', ''x'', ''other'')], None), None))"

theorem postgres_poll_consistent_witness:
  "\<exists>es. pg_Run example_poll 9 (Some 4) = (None, es, Some 9) \<and> length es = 2 \<and>
     consistent sync_holds (\<lambda>_. True) [''1'' \<mapsto> ''{}''] Map.empty
       (Listen memory_caches (rev es) \<lparr>cw_Requests = [(''2'', ''[]'')], cw_Imps = [], cw_Accounts = [], cw_Backend = ()\<rparr>)"
proof -
  let ?w = "\<lparr>cw_Requests = [(''2'', ''[]'')], cw_Imps = [], cw_Accounts = [], cw_Backend = ()\<rparr> :: (string data, string option data, unit) cached_world"
  let ?rows = "[(''1'', ''{}'', ''request''), (''2'', ''null'', ''request''), (''9'', ''x'', ''other'')]"
  have "(\<lambda>(e, es, t). (e, length es, t)) (pg_Run example_poll 9 (Some 4)) = (None, 2, Some 9)" by code_simp
  then obtain es where r: "pg_Run example_poll 9 (Some 4) = (None, es, Some 9)" and l: "length es = 2"
    by (cases "pg_Run example_poll 9 (Some 4)") auto
  have w: "consistent sync_holds (\<lambda>_. True) [''2'' \<mapsto> ''[]''] Map.empty ?w" by (auto simp: consistent_def sync_holds_def map_le_def)
  have d: "answers_changes no_data (rows_of ''request'' rows) [''2'' \<mapsto> ''[]''] [''1'' \<mapsto> ''{}''] \<and>
      answers_changes no_data (rows_of ''imp'' rows) Map.empty Map.empty"
    if "example_poll (Some 4) = Inr ((map Inr rows, None), closeErr)" for rows closeErr
  proof -
    from that have "map Inr rows = map (Inr :: _ \<Rightarrow> go_error + _) ?rows" by (simp add: example_poll_def)
    then have "rows = ?rows" by (metis inj_map_eq_map inj_Inr)
    then show ?thesis by (auto simp: answers_changes_def rows_of_def no_data_def wf_map_def)
  qed
  have q: "\<exists>rows closeErr. example_poll (Some 4) = Inr ((map Inr rows, None), closeErr)"
    by (rule exI [of _ ?rows], rule exI [of _ None]) (simp add: example_poll_def)
  have m: "mset (rev es) = mset es" by simp
  have "if \<exists>rows closeErr. example_poll (Some 4) = Inr ((map Inr rows, None), closeErr)
    then Some 9 = Some (9 :: int) \<and> (\<forall>es'. mset es' = mset es \<longrightarrow> consistent sync_holds (\<lambda>_. True) [''1'' \<mapsto> ''{}''] Map.empty (Listen memory_caches es' ?w))
    else es = [] \<and> Some 9 = Some (4 :: int) \<and> (None :: go_error option) \<noteq> None"
    by (rule postgres_poll_consistent [OF r w]) (rule d)
  with m have "consistent sync_holds (\<lambda>_. True) [''1'' \<mapsto> ''{}''] Map.empty (Listen memory_caches (rev es) ?w)"
    unfolding if_P [OF q] by blast
  with r l show ?thesis by blast
qed

section \<open>Timeouts, stopping and a race\<close>

text \<open>
  The timeout of the queries for stored requests is a million times the configured one. The
  milliseconds are converted to nanoseconds twice, so a timeout of a tenth of a second is more than a day;
  from about two and a half hours on the product leaves 64 bits, and for such values the deadline can be in the past.
\<close>

theorem postgres_timeout_scaled:
  "(\<forall>t. 0 < t \<and> t \<le> 9223372 \<longrightarrow> query_timeout t = 1000000 * producer_timeout t \<and> producer_timeout t = t * 1000000) \<and>
   query_timeout 9223373 < 0"
proof -
  have "query_timeout t = 1000000 * producer_timeout t \<and> producer_timeout t = t * 1000000" if "0 < t" "t \<le> 9223372" for t
  proof -
    have p: "producer_timeout t = t * 1000000"
      unfolding producer_timeout_def by (rule wrap64_id) (use that in \<open>simp add: is_int64_def\<close>)
    have "query_timeout t = t * 1000000 * 1000000"
      unfolding query_timeout_def p by (rule wrap64_id) (use that in \<open>simp add: is_int64_def\<close>)
    with p show ?thesis by simp
  qed
  moreover have "query_timeout 9223373 < 0" by (simp add: query_timeout_def producer_timeout_def wrap64_def)
  ultimately show ?thesis by blast
qed

theorem postgres_timeout_scaled_witness: "query_timeout 100 = 100 * 1000000 * 1000000"
  using conjunct1 [OF postgres_timeout_scaled, rule_format, of 100] by simp

text \<open>A task stops at the signal; the listener of events does not.\<close>

lemma task_stops: "runRecurring run (ts @ Done # ts') s = runRecurring run ts s"
  by (induction run ts s rule: runRecurring.induct) simp_all

lemma listener_ignores_stop: "Listen cache (es @ StopEvent # es') w = Listen cache (es @ es') w"
  by (simp add: Listen_def)

text \<open>
  A fetch in three phases: reading the caches, asking the backend, saving its answer. Between them the
  listener may change the caches.
\<close>

definition fetch_save :: "('s, 'a, 'v) Cache \<Rightarrow> 'v data \<Rightarrow> 'v data \<Rightarrow> ('s, 'a, 'w) cached_world \<Rightarrow> ('s, 'a, 'w) cached_world" where
  "fetch_save cache rd idt w = w\<lparr>cw_Requests := cache_Save (Requests cache) rd (cw_Requests w), cw_Imps := cache_Save (Imps cache) idt (cw_Imps w)\<rparr>"

lemma fetch_phases:
  assumes "cache_Get (Requests cache) (cw_Requests w) rs = (rd, sr)" and "cache_Get (Imps cache) (cw_Imps w) is = (idt, si)"
    and "fetchRequests f (cw_Backend w) (findLeftovers rs rd) (findLeftovers is idt) = ((fr, fi, errs), b)"
    and "findLeftovers rs rd \<noteq> [] \<or> findLeftovers is idt \<noteq> []"
  shows "snd (cached_FetchRequests f cache w rs is) = fetch_save cache fr fi (w\<lparr>cw_Requests := sr, cw_Imps := si, cw_Backend := b\<rparr>)"
  using assms by (simp add: cached_FetchRequests_def fetch_save_def)

text \<open>
  When the store changes after the backend was asked, and the listener handles the event before the answer is
  saved, the cache keeps the old value.
\<close>

lemma stale_value_after_race:
  "lookup (cw_Requests (fetch_save memory_caches [(''1'', Raw (JInt 1))] []
     (Listen memory_caches [SaveEvent \<lparr>sv_Requests = [(''1'', Raw (JInt 2))], sv_Imps = [], sv_Accounts = []\<rparr>]
       \<lparr>cw_Requests = [], cw_Imps = [], cw_Accounts = [], cw_Backend = ()\<rparr>))) ''1'' = Some (Raw (JInt 1))"
  by (simp add: fetch_save_def Listen_def memory_caches_def memory_cache_def pbsSyncMap_def)

end
