(* ===== verification/Stored_Config.thy ===== *)
theory Stored_Config
  imports Stored_Events
begin

text \<open>
  The configuration of stored requests (\<open>config/stored_requests.go\<close>): validation, the connection string, and
  the query with its placeholders; and the caches that \<open>stored_requests/config/config.go\<close> sets up from it.
  Warnings in the log are left out.
\<close>

section \<open>Configuration\<close>

datatype DataType = RequestDataType | CategoryDataType | VideoDataType | AMPRequestDataType | AccountDataType

fun Section :: "DataType \<Rightarrow> string" where
  "Section RequestDataType = ''stored_requests''"
| "Section CategoryDataType = ''categories''"
| "Section VideoDataType = ''stored_video_req''"
| "Section AMPRequestDataType = ''stored_amp_req''"
| "Section AccountDataType = ''accounts''"

record PostgresConnection =
  db_Database :: string
  db_Host :: string
  db_Port :: int
  db_Username :: string
  db_Password :: string

record PostgresCacheInitializer =
  ini_Timeout :: int
  ini_Query :: string
  ini_AmpQuery :: string

record PostgresUpdatePolling =
  upd_RefreshRate :: int
  upd_Timeout :: int
  upd_Query :: string
  upd_AmpQuery :: string

record PostgresConfig =
  pg_ConnectionInfo :: PostgresConnection
  pg_QueryTemplate :: string
  pg_AmpQueryTemplate :: string
  pg_CacheInitialization :: PostgresCacheInitializer
  pg_PollUpdates :: PostgresUpdatePolling

record InMemoryCache =
  mc_Type :: string
  mc_TTL :: int
  mc_Size :: int
  mc_RequestCacheSize :: int
  mc_ImpCacheSize :: int

record StoredRequests =
  sr_dataType :: DataType
  sr_FilesEnabled :: bool
  sr_FilesPath :: string
  sr_Postgres :: PostgresConfig
  sr_HTTPEndpoint :: string
  sr_HTTPAmpEndpoint :: string
  sr_InMemoryCache :: InMemoryCache
  sr_CacheEventsEnabled :: bool
  sr_CacheEventsEndpoint :: string
  sr_EventsEndpoint :: string
  sr_EventsAmpEndpoint :: string
  sr_EventsRefreshRate :: int
  sr_EventsTimeout :: int

text \<open>\<open>time.Duration\<close> is a number of nanoseconds.\<close>

definition TimeoutDuration :: "StoredRequests \<Rightarrow> int" where
  "TimeoutDuration cfg = wrap64 (sr_EventsTimeout cfg * 1000000)"

definition RefreshRateDuration :: "StoredRequests \<Rightarrow> int" where
  "RefreshRateDuration cfg = wrap64 (sr_EventsRefreshRate cfg * 1000000000)"

text \<open>The AMP section is a copy of the one for auctions, with the fields for AMP in their places.\<close>

definition amp_config :: "StoredRequests \<Rightarrow> StoredRequests" where
  "amp_config sr = sr\<lparr>
     sr_Postgres := (sr_Postgres sr)\<lparr>pg_QueryTemplate := pg_AmpQueryTemplate (sr_Postgres sr),
       pg_CacheInitialization := (pg_CacheInitialization (sr_Postgres sr))\<lparr>ini_Query := ini_AmpQuery (pg_CacheInitialization (sr_Postgres sr))\<rparr>,
       pg_PollUpdates := (pg_PollUpdates (sr_Postgres sr))\<lparr>upd_Query := upd_AmpQuery (pg_PollUpdates (sr_Postgres sr))\<rparr>\<rparr>,
     sr_HTTPEndpoint := sr_HTTPAmpEndpoint sr, sr_CacheEventsEndpoint := ''/storedrequests/amp'',
     sr_EventsEndpoint := sr_EventsAmpEndpoint sr, sr_dataType := AMPRequestDataType\<rparr>"

record stored_sections =
  ss_StoredRequests :: StoredRequests
  ss_StoredRequestsAMP :: StoredRequests
  ss_StoredVideo :: StoredRequests
  ss_CategoryMapping :: StoredRequests
  ss_Accounts :: StoredRequests

definition resolvedStoredRequestsConfig :: "stored_sections \<Rightarrow> stored_sections" where
  "resolvedStoredRequestsConfig c =
     (let sr = (ss_StoredRequests c)\<lparr>sr_CacheEventsEndpoint := ''/storedrequests/openrtb2''\<rparr>
      in c\<lparr>ss_StoredRequests := sr\<lparr>sr_dataType := RequestDataType\<rparr>, ss_StoredRequestsAMP := amp_config sr,
           ss_StoredVideo := (ss_StoredVideo c)\<lparr>sr_dataType := VideoDataType\<rparr>,
           ss_CategoryMapping := (ss_CategoryMapping c)\<lparr>sr_dataType := CategoryDataType\<rparr>,
           ss_Accounts := (ss_Accounts c)\<lparr>sr_dataType := AccountDataType\<rparr>\<rparr>)"

section \<open>Validation\<close>

text \<open>\<open>strings.Contains\<close>.\<close>

fun contains_str :: "string \<Rightarrow> string \<Rightarrow> bool" where
  "contains_str [] p = (p = [])"
| "contains_str (c # s) p = (has_prefix (c # s) p \<or> contains_str s p)"

definition err_if :: "bool \<Rightarrow> string \<Rightarrow> go_error list" where
  "err_if b text = (if b then [OtherError text] else [])"

definition ini_validate :: "DataType \<Rightarrow> PostgresCacheInitializer \<Rightarrow> go_error list" where
  "ini_validate dataType cfg = (if ini_Query cfg = [] then []
     else err_if (ini_Timeout cfg \<le> 0) (Section dataType @ '': postgres.initialize_caches.timeout_ms must be positive'') @
          err_if (contains_str (ini_Query cfg) ''$'')
            (Section dataType @ '': postgres.initialize_caches.query should not contain any wildcards (e.g. $1)''))"

definition upd_validate :: "DataType \<Rightarrow> PostgresUpdatePolling \<Rightarrow> go_error list" where
  "upd_validate dataType cfg = (if upd_Query cfg = [] then []
     else err_if (upd_RefreshRate cfg \<le> 0) (Section dataType @ '': postgres.poll_for_updates.refresh_rate_seconds must be > 0'') @
          err_if (upd_Timeout cfg \<le> 0) (Section dataType @ '': postgres.poll_for_updates.timeout_ms must be > 0'') @
          err_if (\<not> contains_str (upd_Query cfg) ''$1'' \<or> contains_str (upd_Query cfg) ''$2'')
            (Section dataType @ '': postgres.poll_for_updates.query must contain exactly one wildcard''))"

definition pg_validate :: "DataType \<Rightarrow> PostgresConfig \<Rightarrow> go_error list" where
  "pg_validate dataType cfg = (if db_Database (pg_ConnectionInfo cfg) = [] then []
     else ini_validate dataType (pg_CacheInitialization cfg) @ upd_validate dataType (pg_PollUpdates cfg))"

definition cache_validate :: "DataType \<Rightarrow> InMemoryCache \<Rightarrow> go_error list" where
  "cache_validate dataType cfg =
     (let sec = Section dataType;
          unb = (\<lambda>key v. err_if (v \<noteq> 0) (sec @ '': in_memory_cache.'' @ key @ '' is not supported for unbounded caches. Got '' @ itoa v));
          lru = (\<lambda>key v. err_if (v \<le> 0) (sec @ '': in_memory_cache.'' @ key @ '' must be >= 0 when in_memory_cache.type=lru. Got '' @ itoa v))
      in if mc_Type cfg = ''none'' then []
         else if mc_Type cfg = ''unbounded''
         then unb ''ttl_seconds'' (mc_TTL cfg) @
              (if dataType = AccountDataType then unb ''size_bytes'' (mc_Size cfg)
               else unb ''request_cache_size_bytes'' (mc_RequestCacheSize cfg) @ unb ''imp_cache_size_bytes'' (mc_ImpCacheSize cfg))
         else if mc_Type cfg = ''lru''
         then (if dataType = AccountDataType then lru ''size_bytes'' (mc_Size cfg)
               else lru ''request_cache_size_bytes'' (mc_RequestCacheSize cfg) @ lru ''imp_cache_size_bytes'' (mc_ImpCacheSize cfg))
         else [OtherError (sec @ '': in_memory_cache.type '' @ mc_Type cfg @ '' is invalid'')])"

definition sr_validate :: "StoredRequests \<Rightarrow> go_error list" where
  "sr_validate cfg =
     (let sec = Section (sr_dataType cfg);
          pg = (if sr_dataType cfg = AccountDataType \<and> db_Database (pg_ConnectionInfo (sr_Postgres cfg)) \<noteq> []
                then [OtherError (sec @ ''.postgres: retrieving accounts via postgres not available, use accounts.files'')]
                else pg_validate (sr_dataType cfg) (sr_Postgres cfg))
      in if sr_dataType cfg = CategoryDataType then pg
         else pg @
           (if mc_Type (sr_InMemoryCache cfg) = ''none''
            then err_if (sr_CacheEventsEnabled cfg) (sec @ '': cache_events must be disabled if in_memory_cache=none'') @
                 err_if (sr_EventsRefreshRate cfg \<noteq> 0) (sec @ '': http_events.refresh_rate_seconds must be 0 if in_memory_cache=none'') @
                 err_if (upd_Query (pg_PollUpdates (sr_Postgres cfg)) \<noteq> []) (sec @ '': postgres.poll_for_updates.query must be empty if in_memory_cache=none'') @
                 err_if (ini_Query (pg_CacheInitialization (sr_Postgres cfg)) \<noteq> []) (sec @ '': postgres.initialize_caches.query must be empty if in_memory_cache=none'')
            else []) @
           cache_validate (sr_dataType cfg) (sr_InMemoryCache cfg))"

section \<open>Caches and producers of the server\<close>

text \<open>The kinds of the three caches, None for the cache that does nothing; the outer None is the end of the process.\<close>

definition newCache :: "StoredRequests \<Rightarrow> (cache_kind option \<times> cache_kind option \<times> cache_kind option) option" where
  "newCache cfg = (let mc = sr_InMemoryCache cfg in
     if mc_Type mc = ''none'' then Some (None, None, None)
     else if sr_dataType cfg = AccountDataType then map_option (\<lambda>k. (None, None, Some k)) (NewCache (mc_Size mc) (mc_TTL mc))
     else (case NewCache (mc_RequestCacheSize mc) (mc_TTL mc) of
             None \<Rightarrow> None
           | Some r \<Rightarrow> map_option (\<lambda>i. (Some r, Some i, None)) (NewCache (mc_ImpCacheSize mc) (mc_TTL mc))))"

datatype producer = ApiProducer string | HttpProducer string int int | PostgresProducer string int string int int

definition newEventProducers :: "StoredRequests \<Rightarrow> producer list" where
  "newEventProducers cfg =
     (if sr_CacheEventsEnabled cfg then [ApiProducer (sr_CacheEventsEndpoint cfg)] else []) @
     (if sr_EventsRefreshRate cfg \<noteq> 0 \<and> sr_EventsEndpoint cfg \<noteq> []
      then [HttpProducer (sr_EventsEndpoint cfg) (TimeoutDuration cfg) (RefreshRateDuration cfg)] else []) @
     (let ini = pg_CacheInitialization (sr_Postgres cfg); upd = pg_PollUpdates (sr_Postgres cfg)
      in if ini_Query ini \<noteq> []
         then [PostgresProducer (ini_Query ini) (producer_timeout (ini_Timeout ini)) (upd_Query upd)
                 (producer_timeout (upd_Timeout upd)) (wrap64 (upd_RefreshRate upd * 1000000000))]
         else [])"

section \<open>Queries\<close>

definition ConnString :: "PostgresConnection \<Rightarrow> string" where
  "ConnString cfg =
     (if db_Host cfg \<noteq> [] then ''host='' @ db_Host cfg @ '' '' else []) @
     (if db_Port cfg > 0 then ''port='' @ itoa (db_Port cfg) @ '' '' else []) @
     (if db_Username cfg \<noteq> [] then ''user='' @ db_Username cfg @ '' '' else []) @
     (if db_Password cfg \<noteq> [] then ''password='' @ db_Password cfg @ '' '' else []) @
     (if db_Database cfg \<noteq> [] then ''dbname='' @ db_Database cfg @ '' '' else []) @ ''sslmode=disable''"

function id_loop :: "int \<Rightarrow> int \<Rightarrow> string" where
  "id_loop i last_arg = (if i < last_arg then ''$'' @ itoa i @ '', '' @ id_loop (i + 1) last_arg else [])"
  by pat_completeness auto
termination
  by (relation "measure (\<lambda>(i, last_arg). nat (last_arg - i))") auto

declare id_loop.simps [simp del]

definition makeIdList :: "int \<Rightarrow> int \<Rightarrow> string" where
  "makeIdList numSoFar numArgs = (if numArgs = 0 then ''(NULL)''
     else ''('' @ id_loop (numSoFar + 1) (numSoFar + numArgs) @ ''$'' @ itoa (numSoFar + numArgs) @ '')'')"

definition ensureNonNegative :: "int \<Rightarrow> int" where
  "ensureNonNegative num = (if num < 0 then 0 else num)"

text \<open>\<open>strings.Replace(s, old, new, -1)\<close> for a non-empty \<open>old\<close>.\<close>

function replace_all :: "string \<Rightarrow> string \<Rightarrow> string \<Rightarrow> string" where
  "replace_all old new s =
     (if s = [] \<or> old = [] then s
      else if has_prefix s old then new @ replace_all old new (drop (length old) s)
      else hd s # replace_all old new (tl s))"
  by pat_completeness auto
termination
  by (relation "measure (\<lambda>(old, new, s). length s)") auto

declare replace_all.simps [simp del]

definition resolve :: "string \<Rightarrow> int \<Rightarrow> int \<Rightarrow> string" where
  "resolve template numReqs numImps =
     (let nr = ensureNonNegative numReqs; ni = ensureNonNegative numImps;
          query = replace_all ''%REQUEST_ID_LIST%'' (makeIdList 0 nr) template
      in replace_all ''%IMP_ID_LIST%'' (makeIdList nr ni) query)"

definition MakeQuery :: "PostgresConfig \<Rightarrow> int \<Rightarrow> int \<Rightarrow> string" where
  "MakeQuery cfg numReqs numImps = resolve (pg_QueryTemplate cfg) numReqs numImps"

section \<open>Properties\<close>

text \<open>
  A configuration that validation accepts can start its caches: for all data but categories, setting
  up the caches does not end the process, no cache is unbounded in size while its entries expire, and without a memory
  cache nothing produces events.
\<close>

theorem validated_caches_start:
  assumes "sr_validate cfg = []" and "sr_dataType cfg \<noteq> CategoryDataType"
  shows "newCache cfg \<noteq> None \<and> (mc_Type (sr_InMemoryCache cfg) = ''none'' \<longrightarrow> newEventProducers cfg = [])"
proof -
  have cv: "cache_validate (sr_dataType cfg) (sr_InMemoryCache cfg) = []"
    and ev: "mc_Type (sr_InMemoryCache cfg) = ''none'' \<longrightarrow> \<not> sr_CacheEventsEnabled cfg \<and> sr_EventsRefreshRate cfg = 0 \<and>
      ini_Query (pg_CacheInitialization (sr_Postgres cfg)) = []"
    using assms by (auto simp: sr_validate_def err_if_def Let_def split: if_splits)
  from cv have "newCache cfg \<noteq> None"
    by (auto simp: cache_validate_def newCache_def NewCache_def err_if_def Let_def split: if_splits)
  with ev show ?thesis by (auto simp: newEventProducers_def)
qed

definition example_postgres :: PostgresConfig where
  "example_postgres = \<lparr>pg_ConnectionInfo = \<lparr>db_Database = [], db_Host = [], db_Port = 0, db_Username = [], db_Password = []\<rparr>,
     pg_QueryTemplate = [], pg_AmpQueryTemplate = [], pg_CacheInitialization = \<lparr>ini_Timeout = 0, ini_Query = [], ini_AmpQuery = []\<rparr>,
     pg_PollUpdates = \<lparr>upd_RefreshRate = 0, upd_Timeout = 0, upd_Query = [], upd_AmpQuery = []\<rparr>\<rparr>"

definition example_section :: "DataType \<Rightarrow> string \<Rightarrow> int \<Rightarrow> int \<Rightarrow> StoredRequests" where
  "example_section t cache ttl bytes = \<lparr>sr_dataType = t, sr_FilesEnabled = True, sr_FilesPath = [], sr_Postgres = example_postgres,
     sr_HTTPEndpoint = [], sr_HTTPAmpEndpoint = [],
     sr_InMemoryCache = \<lparr>mc_Type = cache, mc_TTL = ttl, mc_Size = bytes, mc_RequestCacheSize = bytes, mc_ImpCacheSize = bytes\<rparr>,
     sr_CacheEventsEnabled = False, sr_CacheEventsEndpoint = [], sr_EventsEndpoint = [], sr_EventsAmpEndpoint = [],
     sr_EventsRefreshRate = 0, sr_EventsTimeout = 0\<rparr>"

theorem validated_caches_start_witness: "newCache (example_section RequestDataType ''lru'' 60 1000) \<noteq> None"
proof -
  have "sr_validate (example_section RequestDataType ''lru'' 60 1000) = []" by code_simp
  from validated_caches_start [OF this] show ?thesis by (simp add: example_section_def)
qed

text \<open>Categories are not checked, although a cache is set up for them, too.\<close>

lemma category_cache_unchecked:
  "sr_validate (example_section CategoryDataType ''lru'' 60 0) = [] \<and> newCache (example_section CategoryDataType ''lru'' 60 0) = None"
  by code_simp

text \<open>And where it is set up, the categories behind it are not found.\<close>

lemma cached_categories_lost: "fetchCategories (WithCache f cache) w primaryAdServer publisherId iabCategory = (([], None), w)"
  by (simp add: WithCache_def)

lemma replace_all_skip:
  assumes "c \<notin> set x"
  shows "replace_all (c # old) new (x @ y) = x @ replace_all (c # old) new y"
  using assms
proof (induction x)
  case (Cons a x)
  then have "\<not> has_prefix ((a # x) @ y) (c # old)" by (auto simp: has_prefix_def)
  with Cons show ?case by (subst replace_all.simps) simp
qed simp

lemma replace_all_hit: "replace_all (c # old) new ((c # old) @ y) = new @ replace_all (c # old) new y"
  by (subst replace_all.simps) (simp add: has_prefix_def)

lemma replace_all_miss:
  assumes "\<not> has_prefix (a # y) (c # old)"
  shows "replace_all (c # old) new (a # y) = a # replace_all (c # old) new y"
  using assms by (subst replace_all.simps) simp

lemma no_later_prefix:
  assumes "CHR ''%'' \<notin> set y" and "CHR ''%'' \<in> set old"
  shows "\<not> has_prefix (a # y) (c # old)"
proof
  assume "has_prefix (a # y) (c # old)"
  then have "take (length old) y = old" by (simp add: has_prefix_def)
  then have "set old \<subseteq> set y" by (metis set_take_subset)
  with assms show False by blast
qed

lemma replace_all_none:
  assumes "CHR ''%'' \<notin> set y"
  shows "replace_all (CHR ''%'' # old) new y = y"
  using replace_all_skip [OF assms, of old new "[]"] by (simp add: replace_all.simps [of _ _ "[]"])

text \<open>The placeholders for \<open>n\<close> arguments after the first \<open>k\<close>.\<close>

definition placeholders :: "int \<Rightarrow> int \<Rightarrow> string" where
  "placeholders k n = (if n = 0 then ''(NULL)'' else ''('' @ join '', '' (map (\<lambda>i. ''$'' @ itoa i) [k + 1..k + n]) @ '')'')"

lemma id_loop_join: "i \<le> l \<Longrightarrow> id_loop i l @ ''$'' @ itoa l = join '', '' (map (\<lambda>i. ''$'' @ itoa i) [i..l])"
proof (induction "nat (l - i)" arbitrary: i)
  case 0
  then have "i = l" by simp
  then show ?case by (simp add: id_loop.simps [of l l])
next
  case (Suc n)
  then have "i < l" by simp
  then have up: "[i..l] = i # (i + 1) # [i + 1 + 1..l]" by (simp only: upto.simps [of i l] upto.simps [of "i + 1" l]) simp
  have IH: "id_loop (i + 1) l @ ''$'' @ itoa l = join '', '' (map (\<lambda>i. ''$'' @ itoa i) [i + 1..l])"
    by (rule Suc.hyps(1)) (use Suc.hyps(2) \<open>i < l\<close> in auto)
  have "[i + 1..l] = (i + 1) # [i + 1 + 1..l]" using \<open>i < l\<close> by (simp only: upto.simps [of "i + 1" l]) simp
  with IH \<open>i < l\<close> show ?case by (simp add: id_loop.simps [of i l] up)
qed

lemma makeIdList_placeholders: "0 \<le> n \<Longrightarrow> makeIdList k n = placeholders k n"
  using id_loop_join [of "k + 1" "k + n"] by (simp add: makeIdList_def placeholders_def)

lemma digits_no_percent: "0 \<le> n \<Longrightarrow> CHR ''%'' \<notin> set (digits n)"
proof (induction n rule: digits.induct)
  case (1 n)
  have d: "digit_char k \<noteq> CHR ''%''" if "0 \<le> k" "k < 10" for k
    using digit_value_digit [OF that] by (auto simp: digit_value_def)
  show ?case
  proof (cases "n < 10")
    case True
    with 1 d [of n] show ?thesis by (subst digits.simps) auto
  next
    case False
    with 1 d [of "n mod 10"] show ?thesis by (subst digits.simps) (auto simp: pos_mod_bound)
  qed
qed

lemma placeholders_no_percent: "0 \<le> k \<Longrightarrow> CHR ''%'' \<notin> set (placeholders k n)"
proof -
  assume k: "0 \<le> k"
  have join: "c \<in> set (join sep ss) \<Longrightarrow> c \<in> set sep \<or> (\<exists>s\<in>set ss. c \<in> set s)" for c sep ss
    by (induction sep ss rule: join.induct) auto
  have "CHR ''%'' \<notin> set (itoa i)" if "k \<le> i" for i
    using digits_no_percent [of i] k that by (simp add: itoa_def)
  with k show ?thesis by (auto simp: placeholders_def dest!: join)
qed

text \<open>
  The query for stored requests numbers its placeholders as the ids are passed. For a template with
  one place for the request ids and a later one for the impression ids, the places are filled with
  \<open>$1\<close> to \<open>$n\<close> and with the following \<open>m\<close> numbers, or with NULL for no ids.
\<close>

theorem query_placeholders:
  assumes "0 \<le> n" and "0 \<le> m" and "CHR ''%'' \<notin> set a" and "CHR ''%'' \<notin> set b" and "CHR ''%'' \<notin> set c"
    and "pg_QueryTemplate cfg = a @ ''%REQUEST_ID_LIST%'' @ b @ ''%IMP_ID_LIST%'' @ c"
  shows "MakeQuery cfg n m = a @ placeholders 0 n @ b @ placeholders n m @ c"
proof -
  let ?req = "''%REQUEST_ID_LIST%''" and ?imp = "''%IMP_ID_LIST%''"
  have "replace_all ?req new (?imp @ c) = ?imp @ c" for new
  proof -
    have "\<not> has_prefix (CHR ''%'' # ''IMP_ID_LIST'' @ ''%'' @ c) ?req" by (simp add: has_prefix_def)
    then have "replace_all ?req new (CHR ''%'' # ''IMP_ID_LIST'' @ ''%'' @ c) = CHR ''%'' # replace_all ?req new (''IMP_ID_LIST'' @ ''%'' @ c)"
      by (rule replace_all_miss)
    also have "replace_all ?req new (''IMP_ID_LIST'' @ ''%'' @ c) = ''IMP_ID_LIST'' @ replace_all ?req new (CHR ''%'' # c)"
      by (subst replace_all_skip) simp_all
    also have "replace_all ?req new (CHR ''%'' # c) = CHR ''%'' # c"
      using replace_all_none [OF assms(5)] by (subst replace_all_miss [OF no_later_prefix [OF assms(5)]]) simp_all
    finally show ?thesis by simp
  qed
  then have first: "replace_all ?req (placeholders 0 n) (pg_QueryTemplate cfg) = a @ placeholders 0 n @ b @ ?imp @ c"
    using replace_all_skip [OF assms(3)] replace_all_skip [OF assms(4)] replace_all_hit [of "CHR ''%''" "''REQUEST_ID_LIST%''"]
    by (simp add: assms(6))
  have no: "CHR ''%'' \<notin> set (a @ placeholders 0 n @ b)" using assms(3,4) placeholders_no_percent [of 0 n] by simp
  have "replace_all ?imp (placeholders n m) ((a @ placeholders 0 n @ b) @ ?imp @ c) = (a @ placeholders 0 n @ b) @ placeholders n m @ c"
    unfolding replace_all_skip [OF no] using replace_all_hit [of "CHR ''%''" "''IMP_ID_LIST%''" "placeholders n m" c] replace_all_none [OF assms(5)] by simp
  with first assms(1,2) show ?thesis
    by (simp add: MakeQuery_def resolve_def ensureNonNegative_def makeIdList_placeholders Let_def)
qed

theorem query_placeholders_witness:
  "MakeQuery (example_postgres\<lparr>pg_QueryTemplate := ''a %REQUEST_ID_LIST% b %IMP_ID_LIST%''\<rparr>) 2 1 = ''a ($1, $2) b ($3)''"
proof -
  have p: "placeholders 0 2 = ''($1, $2)''" "placeholders 2 1 = ''($3)''" by code_simp+
  show ?thesis
    using query_placeholders [of 2 1 "''a ''" "'' b ''" "[]" "example_postgres\<lparr>pg_QueryTemplate := ''a %REQUEST_ID_LIST% b %IMP_ID_LIST%''\<rparr>"]
    by (simp add: p)
qed

end
