(* ===== verification/Cookie_Endpoints.thy ===== *)
theory Cookie_Endpoints
  imports Gdpr Privacy_Policies Usersync
begin

text \<open>
  The endpoints that read and write the cookie of a user: \<open>/setuid\<close>, \<open>/cookie_sync\<close>, \<open>/getuids\<close> and the
  opt-out of \<open>pbs/usersync.go\<close>, with the syncers of \<open>adapters/syncer.go\<close>, and the small endpoints
  \<open>/currency/rates\<close>, \<open>/status\<close> and \<open>/version\<close>. A request is what a handler reads of it; a handler returns the
  response, the object it logs and the metrics it records. The clock is read once per request. Parameters are
  the templates of sync URLs (a field of a syncer), \<open>jsonparser.Get\<close> (\<open>jget\<close>), \<open>rand.Intn\<close> (\<open>intn\<close>), the verification of a
  captcha and the parser of consent strings.
\<close>

section \<open>Requests and responses\<close>

record http_request =
  hr_cookies :: "string \<Rightarrow> string option"
  hr_UserAgent :: string
  hr_query :: "string \<Rightarrow> string"
  hr_body :: "go_error + raw"

definition StatusOK :: int where "StatusOK = 200"
definition StatusNoContent :: int where "StatusNoContent = 204"
definition StatusMoved :: int where "StatusMoved = 301"
definition StatusBadRequest :: int where "StatusBadRequest = 400"
definition StatusUnauthorized :: int where "StatusUnauthorized = 401"
definition StatusInternalServerError :: int where "StatusInternalServerError = 500"

section \<open>The browser check of \<open>setuid.go\<close>\<close>

fun str_index :: "string \<Rightarrow> string \<Rightarrow> nat option" where
  "str_index s sub = (if has_prefix s sub then Some 0
     else (case s of [] \<Rightarrow> None | _ # t \<Rightarrow> map_option Suc (str_index t sub)))"

declare str_index.simps [simp del]

text \<open>\<open>strconv.Atoi\<close> with its error dropped: 0 for no numeral, the nearest 64-bit number for one out of range.\<close>

definition atoi_value :: "string \<Rightarrow> int" where
  "atoi_value s =
     (let (neg, ds) = (case s of c # cs \<Rightarrow> if c = CHR ''-'' then (True, cs) else if c = CHR ''+'' then (False, cs)
                         else (False, s) | [] \<Rightarrow> (False, []))
      in if ds = [] then 0
         else (case digits_value 0 ds of
                 None \<Rightarrow> 0
               | Some n \<Rightarrow> max (- (2 ^ 63)) (min (2 ^ 63 - 1) (if neg then - n else n))))"

definition chromeStr :: string where "chromeStr = ''Chrome/''"
definition chromeiOSStr :: string where "chromeiOSStr = ''CriOS/''"
definition chromeMinVer :: int where "chromeMinVer = 67"

definition checkChromeBrowserVersion :: "string \<Rightarrow> nat \<Rightarrow> nat \<Rightarrow> bool" where
  "checkChromeBrowserVersion ua index chromeStrLength =
     (let rest = drop (index + chromeStrLength) ua;
          dotIndex = (case str_index rest ''.'' of Some d \<Rightarrow> d | None \<Rightarrow> length rest)
      in atoi_value (take dotIndex rest) \<ge> chromeMinVer)"

definition siteCookieCheck :: "string \<Rightarrow> bool" where
  "siteCookieCheck ua = (case str_index ua chromeStr of
     Some index \<Rightarrow> checkChromeBrowserVersion ua index (length chromeStr)
   | None \<Rightarrow> (case str_index ua chromeiOSStr of
       Some criOSIndex \<Rightarrow> checkChromeBrowserVersion ua criOSIndex (length chromeiOSStr)
     | None \<Rightarrow> False))"

section \<open>Syncers\<close>

record Policies =
  pol_Signal :: string
  pol_Consent :: string
  pol_USPrivacy :: string

record UsersyncInfo =
  us_URL :: string
  us_Type :: string
  us_SupportCORS :: bool

text \<open>\<open>sy_template\<close> is \<open>ResolveMacros\<close> on the parsed template of the syncer.\<close>

record Syncer =
  sy_familyName :: string
  sy_syncType :: string
  sy_template :: "Policies \<Rightarrow> go_error + string"

definition GetUsersyncInfo :: "Syncer \<Rightarrow> Policies \<Rightarrow> go_error + UsersyncInfo" where
  "GetUsersyncInfo s p = (case sy_template s p of
     Inl e \<Rightarrow> Inl e
   | Inr syncURL \<Rightarrow> Inr \<lparr>us_URL = syncURL, us_Type = sy_syncType s, us_SupportCORS = False\<rparr>)"

type_synonym syncers = "(bidderName, Syncer) gomap"

section \<open>/setuid\<close>

datatype sync_action = ActionOptOut | ActionErr | ActionGDPR | ActionSet

record SetUIDObject =
  so_Status :: int
  so_Bidder :: string
  so_UID :: string
  so_Success :: bool

text \<open>The cookies of a response: the cookie, the value written and whether the cookie for the same-site rule is there.\<close>

record setuid_response =
  sr_Status :: int
  sr_Body :: string
  sr_Cookie :: "(PBSCookie \<times> string \<times> bool) option"
  sr_Object :: SetUIDObject
  sr_Metrics :: "(sync_action \<times> string) list"

definition getFamilyName :: "(string \<Rightarrow> string) \<Rightarrow> string list \<Rightarrow> go_error + string" where
  "getFamilyName query validFamilyNames =
     (let familyName = query ''bidder''
      in if familyName = [] then Inl (OtherError ([CHR 34] @ ''bidder'' @ [CHR 34] @ '' query param is required''))
         else if familyName \<notin> set validFamilyNames
         then Inl (OtherError ''The bidder name provided is not supported by Prebid Server'')
         else Inr familyName)"

text \<open>None when the sync may go on, otherwise the status and the text of the response.\<close>

definition preventSyncsGDPR ::
  "parse_string \<Rightarrow> (go_error \<Rightarrow> bool) \<Rightarrow> string \<Rightarrow> string \<Rightarrow> Permissions \<Rightarrow> (int \<times> string) option" where
  "preventSyncsGDPR parseString isMalformed gdprEnabled gdprConsent perms =
     (if gdprEnabled \<noteq> [] \<and> gdprEnabled \<noteq> ''0'' \<and> gdprEnabled \<noteq> ''1''
      then Some (StatusBadRequest, ''the gdpr query param must be either 0 or 1. You gave '' @ gdprEnabled)
      else if gdprEnabled = ''1'' \<and> gdprConsent = []
      then Some (StatusBadRequest, ''gdpr_consent is required when gdpr=1'')
      else (let gdprSignal = (case atoi gdprEnabled of Some i \<Rightarrow> i | None \<Rightarrow> SignalAmbiguous)
            in case HostCookiesAllowed parseString perms gdprSignal gdprConsent of
                 Inl e \<Rightarrow> if isMalformed e then Some (StatusBadRequest, ''gdpr_consent was invalid. '' @ Error e)
                   else Some (StatusBadRequest, ''No global vendor list was available to interpret this consent string. If this is a new, valid version, it should become available soon.'')
               | Inr allowed \<Rightarrow> if allowed then None
                   else Some (StatusOK, ''The gdpr_consent string prevents cookies from being saved'')))"

text \<open>What the handlers share: the codec and the length of a cookie, the clock and the configuration of the host.\<close>

record cookie_env =
  ce_codec :: cookie_codec
  ce_len :: "PBSCookie \<Rightarrow> int"
  ce_now :: int
  ce_clock :: "nat \<Rightarrow> int"
  ce_host :: HostCookie

definition request_cookie :: "cookie_env \<Rightarrow> http_request \<Rightarrow> PBSCookie" where
  "request_cookie env r = ParsePBSCookieFromRequest (ce_codec env) (ce_now env) (ce_host env) (hr_cookies r)"

definition setuid_reject :: "int \<Rightarrow> string \<Rightarrow> string \<Rightarrow> sync_action \<times> string \<Rightarrow> setuid_response" where
  "setuid_reject status body bidder metric = \<lparr>sr_Status = status, sr_Body = body, sr_Cookie = None,
     sr_Object = \<lparr>so_Status = status, so_Bidder = bidder, so_UID = [], so_Success = False\<rparr>, sr_Metrics = [metric]\<rparr>"

text \<open>The handler; None when it does not return.\<close>

definition NewSetUIDEndpoint ::
  "parse_string \<Rightarrow> (go_error \<Rightarrow> bool) \<Rightarrow> cookie_env \<Rightarrow> syncers \<Rightarrow> Permissions \<Rightarrow> http_request \<Rightarrow> setuid_response option" where
  "NewSetUIDEndpoint parseString isMalformed env syncers perms r =
     (let pc = request_cookie env r; query = hr_query r
      in if \<not> AllowSyncs pc then Some (setuid_reject StatusUnauthorized [] [] (ActionOptOut, []))
         else (case getFamilyName query (map (sy_familyName \<circ> snd) syncers) of
           Inl e \<Rightarrow> Some (setuid_reject StatusBadRequest (Error e) [] (ActionErr, []))
         | Inr familyName \<Rightarrow>
             (case preventSyncsGDPR parseString isMalformed (query ''gdpr'') (query ''gdpr_consent'') perms of
                Some (status, body) \<Rightarrow> Some (setuid_reject status body familyName (ActionGDPR, familyName))
              | None \<Rightarrow>
                  (let uid = query ''uid'';
                       synced = (if uid = [] then Inr (Unsync familyName pc) else TrySync (ce_now env) pc familyName uid);
                       pc' = (case synced of Inr c \<Rightarrow> c | Inl e \<Rightarrow> pc);
                       success = (case synced of Inr c \<Rightarrow> True | Inl e \<Rightarrow> False)
                   in map_option (\<lambda>cookie. \<lparr>sr_Status = StatusOK, sr_Body = [], sr_Cookie = Some cookie,
                        sr_Object = \<lparr>so_Status = StatusOK, so_Bidder = familyName, so_UID = uid, so_Success = success\<rparr>,
                        sr_Metrics = (if success then [(ActionSet, familyName)] else [])\<rparr>)
                      (SetCookieOnResponse (ce_codec env) (ce_len env) (ce_clock env) (ce_host env)
                         (siteCookieCheck (hr_UserAgent r)) pc')))))"

section \<open>/cookie_sync\<close>

record cookieSyncRequest =
  cq_Bidders :: "string list"
  cq_GDPR :: "int option"
  cq_Consent :: string
  cq_USPrivacy :: string
  cq_Limit :: int

definition dec_cookieSyncRequest :: "cookieSyncRequest decoder" where
  "dec_cookieSyncRequest = dec_struct [
     field ''bidders'' (dec_list dec_string []) cq_Bidders (\<lambda>v r. r\<lparr>cq_Bidders := v\<rparr>),
     field ''gdpr'' (dec_ptr dec_int 0) cq_GDPR (\<lambda>v r. r\<lparr>cq_GDPR := v\<rparr>),
     field ''gdpr_consent'' dec_string cq_Consent (\<lambda>v r. r\<lparr>cq_Consent := v\<rparr>),
     field ''us_privacy'' dec_string cq_USPrivacy (\<lambda>v r. r\<lparr>cq_USPrivacy := v\<rparr>),
     field ''limit'' dec_int cq_Limit (\<lambda>v r. r\<lparr>cq_Limit := v\<rparr>)]"

definition parseRequest :: "raw \<Rightarrow> string \<Rightarrow> go_error + cookieSyncRequest" where
  "parseRequest body gdprDefault =
     (case unmarshal dec_cookieSyncRequest body \<lparr>cq_Bidders = [], cq_GDPR = None, cq_Consent = [], cq_USPrivacy = [], cq_Limit = 0\<rparr> of
        None \<Rightarrow> Inl (OtherError ''JSON parsing failed: '')
      | Some q \<Rightarrow>
          if cq_GDPR q = Some 1 \<and> cq_Consent q = [] then Inl (OtherError ''gdpr_consent is required if gdpr=1'')
          else Inr (if cq_GDPR q = None then q\<lparr>cq_GDPR := Some (if gdprDefault = ''0'' then 0 else 1)\<rparr> else q))"

definition gdprToString :: "int option \<Rightarrow> string" where
  "gdprToString gdpr = (case gdpr of None \<Rightarrow> [] | Some i \<Rightarrow> itoa i)"

text \<open>What \<open>jsonparser.Get\<close> returns for the key \<open>bidders\<close>: the bytes of the value, or one of its errors.\<close>

datatype jsonparser_result = JpValue string | JpNotExist | JpKeyPathNotFound | JpError go_error

definition parseBidders :: "(raw \<Rightarrow> jsonparser_result) \<Rightarrow> raw \<Rightarrow> go_error + string" where
  "parseBidders jget body = (case jget body of
     JpValue v \<Rightarrow> Inr v | JpNotExist \<Rightarrow> Inr [] | JpKeyPathNotFound \<Rightarrow> Inr [] | JpError e \<Rightarrow> Inl e)"

definition cookieSyncStatus :: "int \<Rightarrow> string" where
  "cookieSyncStatus syncCount = (if syncCount = 0 then ''no_cookie'' else ''ok'')"

text \<open>
  The loop with an index that the three filters share: an element that is refused is cut out of the slice and the
  index stays where it is.
\<close>

function remove_loop :: "('a \<Rightarrow> bool) \<Rightarrow> nat \<Rightarrow> 'a list \<Rightarrow> 'a list" where
  "remove_loop refuse i xs =
     (if i < length xs
      then (if refuse (xs ! i) then remove_loop refuse i (take i xs @ drop (Suc i) xs) else remove_loop refuse (Suc i) xs)
      else xs)"
  by pat_completeness auto
termination
  by (relation "measure (\<lambda>(_, i, xs). length xs - i)") auto

declare remove_loop.simps [simp del]

definition filterExistingSyncs :: "syncers \<Rightarrow> int \<Rightarrow> PBSCookie \<Rightarrow> bool \<Rightarrow> cookieSyncRequest \<Rightarrow> cookieSyncRequest" where
  "filterExistingSyncs valid now cookie needSyncupForSameSite q = q\<lparr>cq_Bidders := remove_loop (\<lambda>b. case lookup valid b of
     None \<Rightarrow> True | Some syncer \<Rightarrow> HasLiveSync now cookie (sy_familyName syncer) \<and> \<not> needSyncupForSameSite) 0 (cq_Bidders q)\<rparr>"

definition sync_denied :: "go_error + bool \<Rightarrow> bool" where
  "sync_denied r = (case r of Inl e \<Rightarrow> True | Inr allowed \<Rightarrow> \<not> allowed)"

definition filterForGDPR :: "parse_string \<Rightarrow> Permissions \<Rightarrow> cookieSyncRequest \<Rightarrow> cookieSyncRequest" where
  "filterForGDPR parseString perms q =
     (if cq_GDPR q = Some 0 then q
      else if sync_denied (HostCookiesAllowed parseString perms SignalYes (cq_Consent q)) then q\<lparr>cq_Bidders := []\<rparr>
      else q\<lparr>cq_Bidders := remove_loop (\<lambda>b. sync_denied (BidderSyncAllowed parseString perms b SignalYes (cq_Consent q))) 0 (cq_Bidders q)\<rparr>)"

definition filterForCCPA :: "(string \<Rightarrow> bool) \<Rightarrow> cookieSyncRequest \<Rightarrow> cookieSyncRequest" where
  "filterForCCPA bidderMap q = (case ccpa_Parse \<lparr>Consent = cq_USPrivacy q, NoSaleBidders = []\<rparr> bidderMap of
     Inl e \<Rightarrow> q
   | Inr p \<Rightarrow> q\<lparr>cq_Bidders := remove_loop (ccpa_ShouldEnforce p) 0 (cq_Bidders q)\<rparr>)"

text \<open>The shuffle: \<open>n\<close> is one more than the index of the loop, \<open>intn i\<close> the random number below \<open>i + 1\<close>.\<close>

fun limit_loop :: "(nat \<Rightarrow> nat) \<Rightarrow> nat \<Rightarrow> nat \<Rightarrow> 'a list \<Rightarrow> 'a list" where
  "limit_loop intn limit n xs =
     (if n \<le> limit then xs
      else (let i = n - 1; j = intn i in limit_loop intn limit i (if i \<noteq> j then xs[j := xs ! i] else xs)))"

declare limit_loop.simps [simp del]

definition filterToLimit :: "(nat \<Rightarrow> nat) \<Rightarrow> cookieSyncRequest \<Rightarrow> cookieSyncRequest" where
  "filterToLimit intn q =
     (if cq_Limit q \<le> 0 then q
      else if cq_Limit q \<ge> int (length (cq_Bidders q)) then q
      else (let limit = nat (cq_Limit q)
            in q\<lparr>cq_Bidders := take limit (limit_loop intn limit (length (cq_Bidders q)) (cq_Bidders q))\<rparr>))"

record CookieSyncBidders =
  cb_BidderCode :: string
  cb_NoCookie :: bool
  cb_UsersyncInfo :: UsersyncInfo

record cookieSyncResponse =
  cr_Status :: string
  cr_BidderStatus :: "CookieSyncBidders list"

record CookieSyncObject =
  co_Status :: int
  co_Errors :: "string list"
  co_BidderStatus :: "CookieSyncBidders list"

text \<open>The status and the body of the response, the object that is logged, and for each bidder whether privacy blocked it.\<close>

record cookie_sync_result =
  cs_Status :: int
  cs_Body :: "string + cookieSyncResponse"
  cs_Object :: CookieSyncObject
  cs_AdapterSyncs :: "(bidderName, bool) gomap"

record cookieSyncDeps =
  cd_syncers :: syncers
  cd_gdprDefaultValue :: string
  cd_syncPermissions :: Permissions
  cd_enforceCCPA :: bool
  cd_bidderLookup :: "string \<Rightarrow> bool"

definition cookie_sync_error :: "int \<Rightarrow> string \<Rightarrow> string \<Rightarrow> cookie_sync_result" where
  "cookie_sync_error status body err = \<lparr>cs_Status = status, cs_Body = Inl body,
     cs_Object = \<lparr>co_Status = status, co_Errors = [err], co_BidderStatus = []\<rparr>, cs_AdapterSyncs = []\<rparr>"

text \<open>The entry of a bidder in the response; a bidder whose URL cannot be made is left out. A bidder without a syncer
  would be a nil dereference: None.\<close>

definition bidder_sync :: "syncers \<Rightarrow> Policies \<Rightarrow> string \<Rightarrow> CookieSyncBidders list option" where
  "bidder_sync syncers policy bidder = (case lookup syncers bidder of
     None \<Rightarrow> None
   | Some s \<Rightarrow> Some (case GetUsersyncInfo s policy of
       Inr info \<Rightarrow> [\<lparr>cb_BidderCode = bidder, cb_NoCookie = True, cb_UsersyncInfo = info\<rparr>]
     | Inl e \<Rightarrow> []))"

text \<open>The bidders of the response, before and after the privacy filters and the limit.\<close>

definition requested_bidders :: "cookieSyncDeps \<Rightarrow> cookie_env \<Rightarrow> http_request \<Rightarrow> string \<Rightarrow> cookieSyncRequest \<Rightarrow> cookieSyncRequest" where
  "requested_bidders deps env r biddersJSON q =
     (let q1 = (if biddersJSON = [] then q\<lparr>cq_Bidders := map fst (cd_syncers deps)\<rparr> else q);
          needSyncupForSameSite = (siteCookieCheck (hr_UserAgent r) \<and> hr_cookies r ''SSCookie'' = None)
      in filterExistingSyncs (cd_syncers deps) (ce_now env) (request_cookie env r) needSyncupForSameSite q1)"

definition privacy_filters :: "parse_string \<Rightarrow> cookieSyncDeps \<Rightarrow> cookieSyncRequest \<Rightarrow> cookieSyncRequest" where
  "privacy_filters parseString deps q =
     (let q1 = filterForGDPR parseString (cd_syncPermissions deps) q
      in if cd_enforceCCPA deps then filterForCCPA (cd_bidderLookup deps) q1 else q1)"

definition adapter_syncs :: "string list \<Rightarrow> string list \<Rightarrow> (bidderName, bool) gomap" where
  "adapter_syncs asked kept = fold (\<lambda>b m. put b False m) kept (fold (\<lambda>b m. put b True m) asked [])"

definition cookie_sync_Endpoint ::
  "parse_string \<Rightarrow> (raw \<Rightarrow> jsonparser_result) \<Rightarrow> (nat \<Rightarrow> nat) \<Rightarrow> cookieSyncDeps \<Rightarrow> cookie_env \<Rightarrow> http_request \<Rightarrow> cookie_sync_result option" where
  "cookie_sync_Endpoint parseString jget intn deps env r =
     (let cookie = request_cookie env r
      in if \<not> AllowSyncs cookie then Some (cookie_sync_error StatusUnauthorized ''User has opted out'' ''user has opted out'')
         else (case hr_body r of
           Inl e \<Rightarrow> Some (cookie_sync_error StatusBadRequest ''Failed to read request body'' ''Failed to read request body'')
         | Inr body \<Rightarrow> (case parseBidders jget body of
             Inl e \<Rightarrow> Some (cookie_sync_error StatusBadRequest
               ''Failed to check request.bidders in request body. Was your JSON well-formed?''
               ''Failed to check request.bidders in request body. Was your JSON well-formed?'')
           | Inr biddersJSON \<Rightarrow> (case parseRequest body (cd_gdprDefaultValue deps) of
               Inl e \<Rightarrow> Some (cookie_sync_error StatusBadRequest (Error e) (Error e))
             | Inr q \<Rightarrow>
                 (let q1 = requested_bidders deps env r biddersJSON q;
                      policy = \<lparr>pol_Signal = gdprToString (cq_GDPR q1), pol_Consent = cq_Consent q1, pol_USPrivacy = cq_USPrivacy q1\<rparr>;
                      q2 = privacy_filters parseString deps q1;
                      q3 = filterToLimit intn q2
                  in map_option (\<lambda>entries. \<lparr>cs_Status = StatusOK,
                       cs_Body = Inr \<lparr>cr_Status = cookieSyncStatus (LiveSyncCount (ce_now env) cookie), cr_BidderStatus = concat entries\<rparr>,
                       cs_Object = \<lparr>co_Status = StatusOK, co_Errors = [], co_BidderStatus = concat entries\<rparr>,
                       cs_AdapterSyncs = adapter_syncs (cq_Bidders q1) (cq_Bidders q2)\<rparr>)
                     (all_some (map (bidder_sync (cd_syncers deps) policy) (cq_Bidders q3))))))))"

section \<open>/getuids and the opt-out\<close>

definition NewGetUIDsEndpoint :: "cookie_env \<Rightarrow> http_request \<Rightarrow> (string, string) gomap" where
  "NewGetUIDsEndpoint env r = GetUIDs (request_cookie env r)"

datatype optout_response = Redirect string | OptOutDenied | RedirectWithCookie string "PBSCookie \<times> string \<times> bool"

definition OptOut :: "(string \<Rightarrow> go_error option) \<Rightarrow> string \<Rightarrow> string \<Rightarrow> string \<Rightarrow> cookie_env \<Rightarrow> http_request \<Rightarrow> optout_response option" where
  "OptOut verifyRecaptcha externalUrl optInURL optOutURL env r =
     (let optout = hr_query r ''optout''; rr = hr_query r ''g-recaptcha-response''
      in if rr = [] then Some (Redirect (externalUrl @ ''/static/optout.html''))
         else if verifyRecaptcha rr \<noteq> None then Some OptOutDenied
         else map_option (RedirectWithCookie (if optout = [] then optInURL else optOutURL))
                (SetCookieOnResponse (ce_codec env) (ce_len env) (ce_clock env) (ce_host env) False
                   (SetPreference (optout = []) (request_cookie env r))))"

text \<open>What the captcha service answers: a failed call, text that is no JSON, or its verdict and its error codes.\<close>

datatype captcha_answer = CaptchaError go_error | CaptchaVerdict bool "string list"

definition VerifyRecaptcha :: "(string \<Rightarrow> captcha_answer) \<Rightarrow> string \<Rightarrow> go_error option" where
  "VerifyRecaptcha post response = (case post response of
     CaptchaError e \<Rightarrow> Some e
   | CaptchaVerdict success codes \<Rightarrow>
       if success then None else Some (OtherError (''Captcha verify failed: '' @ join '', '' codes)))"

section \<open>The small endpoints\<close>

definition NewStatusEndpoint :: "string \<Rightarrow> int \<times> string" where
  "NewStatusEndpoint response = (if response = [] then (StatusNoContent, []) else (StatusOK, response))"

definition NewVersionEndpoint :: "string \<Rightarrow> json" where
  "NewVersionEndpoint version = JObj [(''revision'', JStr (if version = [] then ''not-set'' else version))]"

text \<open>The description of the rates: None for no converter; the converter gives its source, the time of the last
  update, its rates and a further value.\<close>

record 'a converter_info =
  ci_Source :: string
  ci_LastUpdated :: int
  ci_Rates :: "(string, (string, float64) gomap) gomap option"
  ci_AdditionalInfo :: 'a

record 'a currencyRatesInfo =
  cri_Active :: bool
  cri_Source :: "string option"
  cri_FetchingInterval :: "int option"
  cri_LastUpdated :: "int option"
  cri_Rates :: "(string, (string, float64) gomap) gomap option"
  cri_AdditionalInfo :: "'a option"

definition newCurrencyRatesInfo :: "('a converter_info) option option \<Rightarrow> int \<Rightarrow> 'a currencyRatesInfo" where
  "newCurrencyRatesInfo rateConverter fetchingInterval = (case rateConverter of
     None \<Rightarrow> \<lparr>cri_Active = False, cri_Source = None, cri_FetchingInterval = None, cri_LastUpdated = None, cri_Rates = None, cri_AdditionalInfo = None\<rparr>
   | Some None \<Rightarrow> \<lparr>cri_Active = True, cri_Source = None, cri_FetchingInterval = None, cri_LastUpdated = None, cri_Rates = None, cri_AdditionalInfo = None\<rparr>
   | Some (Some infos) \<Rightarrow> \<lparr>cri_Active = True, cri_Source = Some (ci_Source infos), cri_FetchingInterval = Some fetchingInterval,
       cri_LastUpdated = Some (ci_LastUpdated infos), cri_Rates = ci_Rates infos, cri_AdditionalInfo = Some (ci_AdditionalInfo infos)\<rparr>)"

text \<open>The handler of the rates: \<open>converter t\<close> is what the converter says at time \<open>t\<close>; the description is taken when the
  handler is made.\<close>

definition NewCurrencyRatesEndpoint :: "(int \<Rightarrow> 'a converter_info option option) \<Rightarrow> int \<Rightarrow> int \<Rightarrow> int \<Rightarrow> 'a currencyRatesInfo" where
  "NewCurrencyRatesEndpoint converter fetchingInterval made = (let info = newCurrencyRatesInfo (converter made) fetchingInterval in (\<lambda>asked. info))"

section \<open>Properties: the filters\<close>

lemma remove_loop_from: "remove_loop refuse i xs = take i xs @ filter (\<lambda>x. \<not> refuse x) (drop i xs)"
proof (induction refuse i xs rule: remove_loop.induct)
  case (1 refuse i xs)
  show ?case
  proof (cases "i < length xs")
    case False
    then show ?thesis by (subst remove_loop.simps) simp
  next
    case True
    then have d: "drop i xs = xs ! i # drop (Suc i) xs" and t: "take (Suc i) xs = take i xs @ [xs ! i]"
      by (simp_all add: Cons_nth_drop_Suc take_Suc_conv_app_nth)
    show ?thesis
    proof (cases "refuse (xs ! i)")
      case True
      with 1(1) [OF \<open>i < length xs\<close> True] \<open>i < length xs\<close> show ?thesis
        by (subst remove_loop.simps) (simp add: d)
    next
      case False
      with 1(2) [OF \<open>i < length xs\<close> False] \<open>i < length xs\<close> show ?thesis
        by (subst remove_loop.simps) (simp add: d t)
    qed
  qed
qed

lemma remove_loop_filter [simp]: "remove_loop refuse 0 xs = filter (\<lambda>x. \<not> refuse x) xs"
  by (simp add: remove_loop_from)

lemma length_limit_loop [simp]: "length (limit_loop intn limit n xs) = length xs"
proof (induction intn limit n xs rule: limit_loop.induct)
  case (1 intn limit n xs)
  then show ?case by (subst limit_loop.simps) (auto simp: Let_def)
qed

text \<open>One round of the shuffle drops the element that is overwritten.\<close>

lemma shuffle_round:
  assumes "j \<le> i" and "i < length xs"
  shows "mset (take i (if i \<noteq> j then xs[j := xs ! i] else xs)) \<subseteq># mset (take (Suc i) xs)"
proof (cases "i = j")
  case True
  have "mset (take (Suc i) xs) = add_mset (xs ! i) (mset (take i xs))"
    using assms(2) by (simp add: take_Suc_conv_app_nth)
  with True show ?thesis by simp
next
  case False
  with assms have j: "j < length (take i xs)" by simp
  have "mset (take i (xs[j := xs ! i])) = mset ((take i xs)[j := xs ! i])" by (simp add: take_update_swap)
  also have "\<dots> = add_mset (xs ! i) (mset (take i xs) - {#take i xs ! j#})" using j by (rule mset_update)
  also have "\<dots> \<subseteq># mset (take (Suc i) xs)"
    using assms(2) by (simp add: take_Suc_conv_app_nth)
  finally show ?thesis using False by simp
qed

lemma limit_loop_subset:
  assumes "\<And>i. intn i \<le> i" and "limit \<le> n" and "n \<le> length xs"
  shows "mset (take limit (limit_loop intn limit n xs)) \<subseteq># mset (take n xs)"
  using assms
proof (induction n arbitrary: xs)
  case 0
  then show ?case by (subst limit_loop.simps) simp
next
  case (Suc n)
  show ?case
  proof (cases "Suc n \<le> limit")
    case True
    with Suc.prems(2) show ?thesis by (subst limit_loop.simps) simp
  next
    case False
    define ys where "ys = (if n \<noteq> intn n then xs[intn n := xs ! n] else xs)"
    have "limit_loop intn limit (Suc n) xs = limit_loop intn limit n ys"
      using False by (subst limit_loop.simps) (simp add: Let_def ys_def)
    moreover have "mset (take limit (limit_loop intn limit n ys)) \<subseteq># mset (take n ys)"
      using Suc.prems False by (intro Suc.IH) (auto simp: ys_def)
    moreover have "mset (take n ys) \<subseteq># mset (take (Suc n) xs)"
      using shuffle_round [of "intn n" n xs] Suc.prems by (simp add: ys_def)
    ultimately show ?thesis by (metis subset_mset.order_trans)
  qed
qed

lemma filterToLimit_subset:
  assumes "\<And>i. intn i \<le> i"
  shows "mset (cq_Bidders (filterToLimit intn q)) \<subseteq># mset (cq_Bidders q)"
  using limit_loop_subset [of intn "nat (cq_Limit q)" "length (cq_Bidders q)" "cq_Bidders q"] assms
  by (simp add: filterToLimit_def Let_def)

lemma filterToLimit_length:
  "length (cq_Bidders (filterToLimit intn q)) =
   (if cq_Limit q \<le> 0 then length (cq_Bidders q) else min (nat (cq_Limit q)) (length (cq_Bidders q)))"
  by (auto simp: filterToLimit_def Let_def)

text \<open>No bidder is left out for good: for each there are random numbers that keep it.\<close>

lemma filterToLimit_any:
  assumes "b \<in> set (cq_Bidders q)"
  shows "\<exists>intn. (\<forall>i. intn i \<le> i) \<and> b \<in> set (cq_Bidders (filterToLimit intn q))"
proof -
  let ?xs = "cq_Bidders q" and ?l = "nat (cq_Limit q)"
  from assms obtain p where p: "p < length ?xs" "?xs ! p = b" by (auto simp: in_set_conv_nth)
  let ?intn = "\<lambda>i. if i = p then 0 else i"
  have keep: "b \<in> set (take ?l (limit_loop ?intn ?l n ys))"
    if "0 < ?l" "n \<le> length ys" "?l \<le> length ys" "p < n \<and> ys ! p = b \<or> n \<le> p \<and> ys ! 0 = b" for n and ys :: "string list"
    using that
  proof (induction n arbitrary: ys)
    case 0
    then have "limit_loop ?intn ?l 0 ys = ys" by (subst limit_loop.simps) simp
    with 0 show ?case by (auto simp: in_set_conv_nth intro!: exI [of _ 0])
  next
    case (Suc n)
    show ?case
    proof (cases "Suc n \<le> ?l")
      case True
      then have "limit_loop ?intn ?l (Suc n) ys = ys" by (subst limit_loop.simps) simp
      with True Suc.prems show ?thesis by (auto simp: in_set_conv_nth intro: exI [of _ 0] exI [of _ p])
    next
      case False
      let ?ys = "if n \<noteq> ?intn n then ys[?intn n := ys ! n] else ys"
      have "limit_loop ?intn ?l (Suc n) ys = limit_loop ?intn ?l n ?ys"
        using False by (subst limit_loop.simps) (simp add: Let_def)
      moreover have "b \<in> set (take ?l (limit_loop ?intn ?l n ?ys))"
      proof (rule Suc.IH)
        show "p < n \<and> ?ys ! p = b \<or> n \<le> p \<and> ?ys ! 0 = b"
        proof (cases "n = p")
          case p: True
          have "0 < length ys" using Suc.prems(2) by linarith
          with p show ?thesis using Suc.prems(1,4) False by (cases "p = 0") auto
        next
          case other: False
          with Suc.prems(4) show ?thesis by (auto simp: less_Suc_eq)
        qed
      qed (use Suc.prems in simp_all)
      ultimately show ?thesis by simp
    qed
  qed
  have "b \<in> set (cq_Bidders (filterToLimit ?intn q))"
  proof (cases "cq_Limit q \<le> 0 \<or> cq_Limit q \<ge> int (length ?xs)")
    case True
    with assms show ?thesis by (auto simp: filterToLimit_def)
  next
    case False
    then have "b \<in> set (take ?l (limit_loop ?intn ?l (length ?xs) ?xs))" using p by (intro keep) auto
    with False show ?thesis by (simp add: filterToLimit_def Let_def)
  qed
  then show ?thesis by (intro exI [of _ ?intn]) auto
qed

lemma adapter_syncs_lookup:
  "lookup (adapter_syncs asked kept) b = (if b \<in> set kept then Some False else if b \<in> set asked then Some True else None)"
proof -
  have "lookup (fold (\<lambda>b m. put b v m) xs m) b = (if b \<in> set xs then Some v else lookup m b)" for xs v and m :: "(string, bool) gomap"
    by (induction xs arbitrary: m) auto
  then show ?thesis by (simp add: adapter_syncs_def)
qed

section \<open>Properties: /cookie_sync\<close>

text \<open>Whether a bidder may be synced by a request: it has a syncer, its id is not live and both policies let it.\<close>

definition may_sync :: "parse_string \<Rightarrow> cookieSyncDeps \<Rightarrow> cookie_env \<Rightarrow> http_request \<Rightarrow> cookieSyncRequest \<Rightarrow> string \<Rightarrow> bool" where
  "may_sync parseString deps env r q b =
     ((case lookup (cd_syncers deps) b of None \<Rightarrow> False
       | Some s \<Rightarrow> \<not> HasLiveSync (ce_now env) (request_cookie env r) (sy_familyName s)
           \<or> siteCookieCheck (hr_UserAgent r) \<and> hr_cookies r ''SSCookie'' = None) \<and>
      (cq_GDPR q = Some 0 \<or> HostCookiesAllowed parseString (cd_syncPermissions deps) SignalYes (cq_Consent q) = Inr True \<and>
         BidderSyncAllowed parseString (cd_syncPermissions deps) b SignalYes (cq_Consent q) = Inr True) \<and>
      (cd_enforceCCPA deps \<longrightarrow> parseConsent (cq_USPrivacy q) \<noteq> Inr True))"

lemma sync_denied_iff: "sync_denied x \<longleftrightarrow> x \<noteq> Inr True"
  by (auto simp: sync_denied_def split: sum.splits)

lemma ccpa_without_nosale:
  "(case ccpa_Parse \<lparr>Consent = u, NoSaleBidders = []\<rparr> v of Inl e \<Rightarrow> False | Inr p \<Rightarrow> ccpa_ShouldEnforce p b) \<longleftrightarrow> parseConsent u = Inr True"
proof (cases "ccpa_Parse \<lparr>Consent = u, NoSaleBidders = []\<rparr> v")
  case (Inr p)
  with ccpa_Parse_Inr(2) [OF Inr, of b] show ?thesis by (simp add: allBiddersMarker_def)
next
  case (Inl e)
  then show ?thesis by (auto simp: ccpa_Parse_def parseNoSaleBidders_def split: sum.splits)
qed

lemma filterForCCPA_filter:
  "filterForCCPA v q = q\<lparr>cq_Bidders := filter (\<lambda>b. parseConsent (cq_USPrivacy q) \<noteq> Inr True) (cq_Bidders q)\<rparr>"
  using ccpa_without_nosale [where u = "cq_USPrivacy q" and v = v]
  by (cases "ccpa_Parse \<lparr>Consent = cq_USPrivacy q, NoSaleBidders = []\<rparr> v") (simp_all add: filterForCCPA_def)

lemma filterForGDPR_filter:
  "filterForGDPR ps perms q = q\<lparr>cq_Bidders := filter (\<lambda>b. cq_GDPR q = Some 0 \<or>
     HostCookiesAllowed ps perms SignalYes (cq_Consent q) = Inr True \<and> BidderSyncAllowed ps perms b SignalYes (cq_Consent q) = Inr True) (cq_Bidders q)\<rparr>"
  by (simp add: filterForGDPR_def sync_denied_iff)

lemma asked_bidders:
  "privacy_filters ps deps (requested_bidders deps env r bj q) =
   q\<lparr>cq_Bidders := filter (may_sync ps deps env r q) (if bj = [] then map fst (cd_syncers deps) else cq_Bidders q)\<rparr>"
proof -
  have "(\<not> (case lookup (cd_syncers deps) b of None \<Rightarrow> True | Some syncer \<Rightarrow> HasLiveSync n c (sy_familyName syncer) \<and> \<not> need)) =
    (case lookup (cd_syncers deps) b of None \<Rightarrow> False | Some s \<Rightarrow> \<not> HasLiveSync n c (sy_familyName s) \<or> need)" for b n c need
    by (cases "lookup (cd_syncers deps) b") auto
  then show ?thesis
    by (simp add: privacy_filters_def requested_bidders_def filterExistingSyncs_def Let_def filterForGDPR_filter
        filterForCCPA_filter may_sync_def [abs_def] conj_ac)
qed

lemma bidder_sync_code: "bidder_sync syncers policy b = Some es \<Longrightarrow> e \<in> set es \<Longrightarrow>
  cb_BidderCode e = b \<and> cb_NoCookie e \<and> (\<exists>s. lookup syncers b = Some s \<and> GetUsersyncInfo s policy = Inr (cb_UsersyncInfo e))"
  by (auto simp: bidder_sync_def split: option.splits sum.splits)

lemma bidder_syncs:
  assumes "\<And>b. b \<in> set bs \<Longrightarrow> lookup syncers b \<noteq> None"
  shows "\<exists>es. all_some (map (bidder_sync syncers policy) bs) = Some es \<and> length (concat es) \<le> length bs \<and>
    (\<forall>e \<in> set (concat es). cb_BidderCode e \<in> set bs \<and> cb_NoCookie e \<and>
       (\<exists>s. lookup syncers (cb_BidderCode e) = Some s \<and> GetUsersyncInfo s policy = Inr (cb_UsersyncInfo e)))"
  using assms
proof (induction bs)
  case (Cons b bs)
  then obtain s where s: "lookup syncers b = Some s" by fastforce
  then obtain es where es: "bidder_sync syncers policy b = Some es" "length es \<le> 1"
    by (cases "GetUsersyncInfo s policy") (simp_all add: bidder_sync_def)
  from Cons obtain rest where rest: "all_some (map (bidder_sync syncers policy) bs) = Some rest" "length (concat rest) \<le> length bs"
    "\<forall>e \<in> set (concat rest). cb_BidderCode e \<in> set bs \<and> cb_NoCookie e \<and>
       (\<exists>s. lookup syncers (cb_BidderCode e) = Some s \<and> GetUsersyncInfo s policy = Inr (cb_UsersyncInfo e))" by auto
  have "all_some (map (bidder_sync syncers policy) (b # bs)) = Some (es # rest)" using es rest by simp
  moreover have "length (concat (es # rest)) \<le> length (b # bs)" using es(2) rest(2) by simp
  moreover have "\<forall>e \<in> set (concat (es # rest)). cb_BidderCode e \<in> set (b # bs) \<and> cb_NoCookie e \<and>
       (\<exists>s. lookup syncers (cb_BidderCode e) = Some s \<and> GetUsersyncInfo s policy = Inr (cb_UsersyncInfo e))"
    using bidder_sync_code [OF es(1)] rest(3) by auto
  ultimately show ?case by blast
qed simp

text \<open>
  C29. Every request to /cookie_sync is answered. The answer is an error with status 400 or 401, or it lists only
  bidders of those asked for that have a syncer, whose id is not live (or is to be written again for the
  same-site rule), and that both GDPR and CCPA let the host sync; no more of them than the limit allows;
  each with the sync URL of its syncer, made from the consents of the request.
\<close>

theorem cookie_sync_answer:
  assumes "\<forall>i. intn i \<le> i"
  shows "\<exists>res. cookie_sync_Endpoint parseString jget intn deps env r = Some res \<and>
    (case cs_Body res of
       Inl m \<Rightarrow> cs_Status res = StatusBadRequest \<or> cs_Status res = StatusUnauthorized
     | Inr resp \<Rightarrow> cs_Status res = StatusOK \<and> AllowSyncs (request_cookie env r) \<and>
         (\<exists>body q. hr_body r = Inr body \<and> parseRequest body (cd_gdprDefaultValue deps) = Inr q \<and>
            (cq_Limit q > 0 \<longrightarrow> int (length (cr_BidderStatus resp)) \<le> cq_Limit q) \<and>
            (\<forall>e\<in>set (cr_BidderStatus resp).
               may_sync parseString deps env r q (cb_BidderCode e) \<and>
               (parseBidders jget body = Inr [] \<or> cb_BidderCode e \<in> set (cq_Bidders q)) \<and>
               (\<exists>s. lookup (cd_syncers deps) (cb_BidderCode e) = Some s \<and>
                  GetUsersyncInfo s \<lparr>pol_Signal = gdprToString (cq_GDPR q), pol_Consent = cq_Consent q, pol_USPrivacy = cq_USPrivacy q\<rparr>
                    = Inr (cb_UsersyncInfo e)))))"
proof (cases "AllowSyncs (request_cookie env r) \<and> (\<exists>body bj q. hr_body r = Inr body \<and> parseBidders jget body = Inr bj \<and>
    parseRequest body (cd_gdprDefaultValue deps) = Inr q)")
  case False
  then show ?thesis
    by (auto simp: cookie_sync_Endpoint_def cookie_sync_error_def Let_def split: sum.splits)
next
  case True
  then obtain body bj q where ok: "AllowSyncs (request_cookie env r)" and body: "hr_body r = Inr body"
    and bj: "parseBidders jget body = Inr bj" and q: "parseRequest body (cd_gdprDefaultValue deps) = Inr q" by auto
  let ?q1 = "requested_bidders deps env r bj q"
  let ?q2 = "privacy_filters parseString deps ?q1"
  let ?policy = "\<lparr>pol_Signal = gdprToString (cq_GDPR q), pol_Consent = cq_Consent q, pol_USPrivacy = cq_USPrivacy q\<rparr>"
  let ?bs = "cq_Bidders (filterToLimit intn ?q2)"
  have policy: "\<lparr>pol_Signal = gdprToString (cq_GDPR ?q1), pol_Consent = cq_Consent ?q1, pol_USPrivacy = cq_USPrivacy ?q1\<rparr> = ?policy"
    by (simp add: requested_bidders_def filterExistingSyncs_def Let_def)
  have q2: "?q2 = q\<lparr>cq_Bidders := filter (may_sync parseString deps env r q) (if bj = [] then map fst (cd_syncers deps) else cq_Bidders q)\<rparr>"
    by (rule asked_bidders)
  have "set ?bs \<subseteq> set (cq_Bidders ?q2)"
    using filterToLimit_subset [of intn ?q2] assms by (metis set_mset_mono set_mset_mset)
  then have bs: "may_sync parseString deps env r q b \<and> (bj = [] \<or> b \<in> set (cq_Bidders q))" if "b \<in> set ?bs" for b
    using that by (auto simp: q2 split: if_splits)
  have "lookup (cd_syncers deps) b \<noteq> None" if "b \<in> set ?bs" for b
    using bs [OF that] by (auto simp: may_sync_def split: option.splits)
  from bidder_syncs [OF this, where policy = ?policy] obtain es where
    es: "all_some (map (bidder_sync (cd_syncers deps) ?policy) ?bs) = Some es" "length (concat es) \<le> length ?bs"
    "\<forall>e \<in> set (concat es). cb_BidderCode e \<in> set ?bs \<and> cb_NoCookie e \<and>
       (\<exists>s. lookup (cd_syncers deps) (cb_BidderCode e) = Some s \<and> GetUsersyncInfo s ?policy = Inr (cb_UsersyncInfo e))" by blast
  have "cq_Limit ?q2 = cq_Limit q" by (simp add: q2)
  then have "int (length (concat es)) \<le> cq_Limit q" if "cq_Limit q > 0"
    using es(2) filterToLimit_length [of intn ?q2] that by simp linarith
  note limit = this
  let ?res = "\<lparr>cs_Status = StatusOK,
     cs_Body = Inr \<lparr>cr_Status = cookieSyncStatus (LiveSyncCount (ce_now env) (request_cookie env r)), cr_BidderStatus = concat es\<rparr>,
     cs_Object = \<lparr>co_Status = StatusOK, co_Errors = [], co_BidderStatus = concat es\<rparr>,
     cs_AdapterSyncs = adapter_syncs (cq_Bidders ?q1) (cq_Bidders ?q2)\<rparr>"
  have res: "cookie_sync_Endpoint parseString jget intn deps env r = Some ?res"
    using ok body bj q es(1) by (simp add: cookie_sync_Endpoint_def Let_def policy)
  have each: "may_sync parseString deps env r q (cb_BidderCode e) \<and>
      (parseBidders jget body = Inr [] \<or> cb_BidderCode e \<in> set (cq_Bidders q)) \<and>
      (\<exists>s. lookup (cd_syncers deps) (cb_BidderCode e) = Some s \<and> GetUsersyncInfo s ?policy = Inr (cb_UsersyncInfo e))"
    if "e \<in> set (concat es)" for e
    using es(3) [rule_format, OF that] bs [of "cb_BidderCode e"] bj by simp
  show ?thesis
    by (rule exI [of _ ?res]) (use res ok body q each limit in \<open>simp del: set_concat length_concat\<close>)
qed

text \<open>An example host: two syncers, no GDPR configuration and enforced CCPA.\<close>

definition sync_env :: cookie_env where
  "sync_env = \<lparr>ce_codec = \<lparr>ck_encode = (\<lambda>j. case j of JObj [(''optout'', _), _] \<Rightarrow> ''out'' | _ \<Rightarrow> ''in''),
     ck_decode = (\<lambda>s. if s = ''out'' then Some (Raw (JObj [(''optout'', JBool True), (''bday'', JInt 9)])) else
        Some (Raw (JObj [(''tempUIDs'', JObj [(''adnxs'', JObj [(''uid'', JStr ''7''), (''expires'', JInt 1209600000000009)])]), (''bday'', JInt 9)]))),
     ck_writeTime = (\<lambda>t. Some (JInt t)), ck_readTime = (\<lambda>j. case j of JInt t \<Rightarrow> Some t | _ \<Rightarrow> None)\<rparr>,
     ce_len = (\<lambda>c. int (length (pc_uids c))), ce_now = 9, ce_clock = (\<lambda>_. 9),
     ce_host = \<lparr>hk_Domain = [], hk_Family = [], hk_CookieName = [], hk_MaxCookieSizeBytes = 0, hk_OptOutName = [], hk_OptOutValue = [], hk_TTL = 1\<rparr>\<rparr>"

definition sync_deps :: cookieSyncDeps where
  "sync_deps = \<lparr>cd_syncers = [(''appnexus'', \<lparr>sy_familyName = ''adnxs'', sy_syncType = ''redirect'', sy_template = (\<lambda>p. Inr (''//a/'' @ pol_USPrivacy p))\<rparr>),
       (''rubicon'', \<lparr>sy_familyName = ''rubicon'', sy_syncType = ''iframe'', sy_template = (\<lambda>p. Inr ''//r'')\<rparr>)],
     cd_gdprDefaultValue = ''0'', cd_syncPermissions = AlwaysAllow, cd_enforceCCPA = True, cd_bidderLookup = (\<lambda>_. True)\<rparr>"

definition sync_request :: http_request where
  "sync_request = \<lparr>hr_cookies = (\<lambda>_. None), hr_UserAgent = ''Chrome/66.1'', hr_query = (\<lambda>k. if k = ''bidder'' then ''adnxs'' else if k = ''uid'' then ''7'' else []),
     hr_body = Inr (Raw (JObj [(''bidders'', JArr [JStr ''rubicon'', JStr ''appnexus'', JStr ''x'']), (''limit'', JInt 1), (''us_privacy'', JStr ''1NNN'')]))\<rparr>"

theorem cookie_sync_answer_witness:
  "(\<lambda>i::nat. 0) 5 \<le> (5::nat) \<and> (\<exists>res. cookie_sync_Endpoint (\<lambda>_. Inl (OtherError [])) (\<lambda>_. JpValue ''x'') (\<lambda>i. 0) sync_deps sync_env sync_request = Some res \<and>
     cs_Body res = Inr \<lparr>cr_Status = ''no_cookie'', cr_BidderStatus = [\<lparr>cb_BidderCode = ''appnexus'', cb_NoCookie = True,
       cb_UsersyncInfo = \<lparr>us_URL = ''//a/1NNN'', us_Type = ''redirect'', us_SupportCORS = False\<rparr>\<rparr>]\<rparr> \<and>
     may_sync (\<lambda>_. Inl (OtherError [])) sync_deps sync_env sync_request
       \<lparr>cq_Bidders = [''rubicon'', ''appnexus'', ''x''], cq_GDPR = Some 0, cq_Consent = [], cq_USPrivacy = ''1NNN'', cq_Limit = 1\<rparr> ''appnexus'')"
proof -
  let ?p = "\<lambda>_. Inl (OtherError [])" and ?b = "Raw (JObj [(''bidders'', JArr [JStr ''rubicon'', JStr ''appnexus'', JStr ''x'']), (''limit'', JInt 1), (''us_privacy'', JStr ''1NNN'')])"
  let ?q = "\<lparr>cq_Bidders = [''rubicon'', ''appnexus'', ''x''], cq_GDPR = Some 0, cq_Consent = [], cq_USPrivacy = ''1NNN'', cq_Limit = 1\<rparr>"
  have q: "parseRequest ?b (cd_gdprDefaultValue sync_deps) = Inr ?q" by code_simp
  have b: "hr_body sync_request = Inr ?b" by code_simp
  from cookie_sync_answer [of "\<lambda>i. 0" ?p "\<lambda>_. JpValue ''x''" sync_deps sync_env sync_request]
  obtain res where res: "cookie_sync_Endpoint ?p (\<lambda>_. JpValue ''x'') (\<lambda>i. 0) sync_deps sync_env sync_request = Some res"
    and c: "case cs_Body res of Inl m \<Rightarrow> True | Inr resp \<Rightarrow> (\<forall>e\<in>set (cr_BidderStatus resp). may_sync ?p sync_deps sync_env sync_request ?q (cb_BidderCode e))"
    using q b by (fastforce split: sum.splits)
  have "map_option cs_Body (cookie_sync_Endpoint ?p (\<lambda>_. JpValue ''x'') (\<lambda>i. 0) sync_deps sync_env sync_request) =
    Some (Inr \<lparr>cr_Status = ''no_cookie'', cr_BidderStatus = [\<lparr>cb_BidderCode = ''appnexus'', cb_NoCookie = True,
       cb_UsersyncInfo = \<lparr>us_URL = ''//a/1NNN'', us_Type = ''redirect'', us_SupportCORS = False\<rparr>\<rparr>]\<rparr>)" by code_simp
  with res c show ?thesis by simp
qed

section \<open>Properties: /setuid and the opt-out\<close>

lemma eject_loop_wf:
  assumes "eject_loop len maxSize clock n c = Some c'" and "wf_map (pc_uids c)"
  shows "wf_map (pc_uids c')"
proof -
  have "wf_map (pc_uids x) \<longrightarrow> wf_map (pc_uids y)" if "eject_loop l s k n x = Some y" for l s k n x y
    using that by (rule eject_loop.raw_induct [where P = "\<lambda>l s k n x y. wf_map (pc_uids x) \<longrightarrow> wf_map (pc_uids y)", rotated])
       (auto split: if_splits)
  with assms show ?thesis by blast
qed

lemma request_cookie_ok: "ok_cookie (request_cookie env r)"
  by (simp add: request_cookie_def ok_parse_request)

lemma atoi_gdpr: "s = [] \<or> s = ''0'' \<or> s = ''1'' \<Longrightarrow>
  (case atoi s of Some i \<Rightarrow> i | None \<Rightarrow> SignalAmbiguous) = (if s = ''1'' then SignalYes else if s = ''0'' then SignalNo else SignalAmbiguous)"
  by (elim disjE; hypsubst; code_simp)

text \<open>The cookie after the change a request asks for.\<close>

definition synced_cookie :: "cookie_env \<Rightarrow> http_request \<Rightarrow> PBSCookie" where
  "synced_cookie env r = (let pc = request_cookie env r; family = hr_query r ''bidder''; uid = hr_query r ''uid''
     in if uid = [] then Unsync family pc else (case TrySync (ce_now env) pc family uid of Inr c \<Rightarrow> c | Inl e \<Rightarrow> pc))"

lemma synced_cookie_ok: "ok_cookie (synced_cookie env r)"
  using request_cookie_ok [of env r] ok_sync [OF request_cookie_ok [of env r]]
  by (auto simp: synced_cookie_def Let_def split: sum.splits)

lemma setuid_cookie_written:
  assumes "NewSetUIDEndpoint parseString isMalformed env syncers perms r = Some resp" and "sr_Cookie resp = Some w"
  shows "AllowSyncs (request_cookie env r) \<and> hr_query r ''bidder'' \<in> sy_familyName ` snd ` set syncers \<and>
    preventSyncsGDPR parseString isMalformed (hr_query r ''gdpr'') (hr_query r ''gdpr_consent'') perms = None \<and>
    SetCookieOnResponse (ce_codec env) (ce_len env) (ce_clock env) (ce_host env) (siteCookieCheck (hr_UserAgent r)) (synced_cookie env r) = Some w"
proof -
  from assms have a: "AllowSyncs (request_cookie env r)"
    by (auto simp: NewSetUIDEndpoint_def Let_def setuid_reject_def split: if_splits)
  from assms a obtain f where f: "getFamilyName (hr_query r) (map (sy_familyName \<circ> snd) syncers) = Inr f"
    by (cases "getFamilyName (hr_query r) (map (sy_familyName \<circ> snd) syncers)")
       (auto simp: NewSetUIDEndpoint_def Let_def setuid_reject_def)
  then have g: "f = hr_query r ''bidder''" "f \<in> sy_familyName ` snd ` set syncers"
    by (auto simp: getFamilyName_def Let_def image_comp split: if_splits)
  from assms a f have p: "preventSyncsGDPR parseString isMalformed (hr_query r ''gdpr'') (hr_query r ''gdpr_consent'') perms = None"
    by (cases "preventSyncsGDPR parseString isMalformed (hr_query r ''gdpr'') (hr_query r ''gdpr_consent'') perms")
       (auto simp: NewSetUIDEndpoint_def Let_def setuid_reject_def)
  from assms a f g(1) p have "SetCookieOnResponse (ce_codec env) (ce_len env) (ce_clock env) (ce_host env)
      (siteCookieCheck (hr_UserAgent r)) (synced_cookie env r) = Some w"
    by (cases "hr_query r ''uid'' = []") (auto simp: NewSetUIDEndpoint_def Let_def synced_cookie_def)
  with a g p show ?thesis by blast
qed

lemma prevent_None:
  "preventSyncsGDPR parseString isMalformed gdpr consent perms = None \<Longrightarrow>
   HostCookiesAllowed parseString perms (if gdpr = ''1'' then SignalYes else if gdpr = ''0'' then SignalNo else SignalAmbiguous) consent = Inr True
   \<and> (gdpr = ''1'' \<longrightarrow> consent \<noteq> [])"
  using atoi_gdpr [of gdpr] by (auto simp: preventSyncsGDPR_def Let_def split: if_splits sum.splits)

text \<open>
  /setuid writes a cookie only for a user who has not opted out, for the family of a known syncer, and when
  GDPR lets the host store cookies for the signal and the consent of the request; the cookie it writes has no id
  that the request did not have, but the one asked for.
\<close>

theorem setuid_guarded:
  assumes "NewSetUIDEndpoint parseString isMalformed env syncers perms r = Some resp" and "sr_Cookie resp = Some (c, v, site)"
    and "within_range (ce_clock env) (pc_uids (synced_cookie env r))"
  shows "AllowSyncs (request_cookie env r) \<and> hr_query r ''bidder'' \<in> sy_familyName ` snd ` set syncers \<and>
    HostCookiesAllowed parseString perms
      (if hr_query r ''gdpr'' = ''1'' then SignalYes else if hr_query r ''gdpr'' = ''0'' then SignalNo else SignalAmbiguous)
      (hr_query r ''gdpr_consent'') = Inr True \<and>
    v = ToHTTPCookie (ce_codec env) c \<and> ok_cookie c \<and>
    (\<forall>f u. lookup (pc_uids c) f = Some u \<longrightarrow> lookup (pc_uids (request_cookie env r)) f = Some u \<or>
       f = hr_query r ''bidder'' \<and> u = \<lparr>ue_UID = hr_query r ''uid'', ue_Expires = ce_now env + DEFAULT_TTL\<rparr>)"
proof -
  note w = setuid_cookie_written [OF assms(1,2)]
  have ok: "ok_cookie (synced_cookie env r)" by (rule synced_cookie_ok)
  then have wf: "wf_map (pc_uids (synced_cookie env r))" by (simp add: ok_cookie_def)
  from w obtain e: "eject_loop (ce_len env) (hk_MaxCookieSizeBytes (ce_host env)) (ce_clock env) 0 (synced_cookie env r) = Some c"
    and v: "v = ToHTTPCookie (ce_codec env) c"
    by (auto simp: SetCookieOnResponse_def)
  from eject_loop_returns [OF wf assms(3), of "ce_len env" "hk_MaxCookieSizeBytes (ce_host env)" 0] e
  have sub: "set (pc_uids c) \<subseteq> set (pc_uids (synced_cookie env r))" and o: "pc_optOut c = pc_optOut (synced_cookie env r)" by auto
  have wfc: "wf_map (pc_uids c)" using eject_loop_wf [OF e wf] .
  have from_synced: "lookup (pc_uids (synced_cookie env r)) f = Some u" if "lookup (pc_uids c) f = Some u" for f u
    using that sub wf wfc by (auto simp: wf_map_lookup_iff)
  have "ok_cookie c"
    using ok sub o wfc from_synced [of BidderAudienceNetwork] by (auto simp: ok_cookie_def split: option.splits)
  moreover have "lookup (pc_uids (request_cookie env r)) f = Some u \<or>
       f = hr_query r ''bidder'' \<and> u = \<lparr>ue_UID = hr_query r ''uid'', ue_Expires = ce_now env + DEFAULT_TTL\<rparr>"
    if "lookup (pc_uids (synced_cookie env r)) f = Some u" for f u
    using that by (auto simp: synced_cookie_def Let_def Unsync_def TrySync_def getExpiry_def split: if_splits sum.splits)
  ultimately show ?thesis using w v prevent_None from_synced by blast
qed

theorem setuid_guarded_witness:
  "NewSetUIDEndpoint (\<lambda>_. Inl (OtherError [])) (\<lambda>_. False) sync_env (cd_syncers sync_deps) AlwaysAllow sync_request =
     Some \<lparr>sr_Status = 200, sr_Body = [], sr_Cookie = Some (\<lparr>pc_uids = [(''adnxs'', \<lparr>ue_UID = ''7'', ue_Expires = 1209600000000009\<rparr>)], pc_optOut = False, pc_birthday = Some 9\<rparr>, ''in'', False),
       sr_Object = \<lparr>so_Status = 200, so_Bidder = ''adnxs'', so_UID = ''7'', so_Success = True\<rparr>, sr_Metrics = [(ActionSet, ''adnxs'')]\<rparr> \<and>
   hr_query sync_request ''bidder'' \<in> sy_familyName ` snd ` set (cd_syncers sync_deps)"
proof -
  let ?c = "\<lparr>pc_uids = [(''adnxs'', \<lparr>ue_UID = ''7'', ue_Expires = 1209600000000009\<rparr>)], pc_optOut = False, pc_birthday = Some 9\<rparr>"
  let ?resp = "\<lparr>sr_Status = 200, sr_Body = [], sr_Cookie = Some (?c, ''in'', False),
       sr_Object = \<lparr>so_Status = 200, so_Bidder = ''adnxs'', so_UID = ''7'', so_Success = True\<rparr>, sr_Metrics = [(ActionSet, ''adnxs'')]\<rparr>"
  have r: "NewSetUIDEndpoint (\<lambda>_. Inl (OtherError [])) (\<lambda>_. False) sync_env (cd_syncers sync_deps) AlwaysAllow sync_request = Some ?resp"
    by code_simp
  have s: "synced_cookie sync_env sync_request = ?c" by code_simp
  have "within_range (ce_clock sync_env) (pc_uids (synced_cookie sync_env sync_request))"
    unfolding s by (simp add: within_range_def sync_env_def max_int64_def)
  from setuid_guarded [OF r _ this, of ?c "''in''" False] r show ?thesis by simp
qed

lemma sync_optOut: "TrySync now c family uid = Inr c' \<Longrightarrow> pc_optOut c' = pc_optOut c"
  by (auto simp: TrySync_def split: if_splits)

text \<open>What a later request sees when it brings the cookie that was written.\<close>

lemma later_cookie:
  assumes "ok_cookie c" and "codec_reads (ce_codec env) c"
    and "hr_cookies r ''uids'' = Some (ToHTTPCookie (ce_codec env) c)" and "hk_OptOutName (ce_host env) = []"
  shows "pc_optOut (request_cookie env r) = pc_optOut c \<and>
    (\<forall>f. (f \<noteq> hk_Family (ce_host env) \<or> fst (GetUID later c f) \<noteq> []) \<longrightarrow> GetUID later (request_cookie env r) f = GetUID later c f)"
proof -
  let ?p = "ParsePBSCookie (ce_codec env) (ce_now env) (ToHTTPCookie (ce_codec env) c)"
  have p: "?p = c\<lparr>pc_uids := sort_key fst (pc_uids c)\<rparr>" using parse_written [OF assms(1,2)] .
  have g: "GetUID t ?p f = GetUID t c f" for t f using assms(1) by (simp add: p GetUID_def ok_cookie_def)
  have uid: "fst (GetUID t x f) = fst (GetUID u x f)" for t u x f by (simp add: GetUID_def split: option.split)
  let ?h = "ce_host env"
  consider "fst (GetUID (ce_now env) ?p (hk_Family ?h)) = [] \<and> hk_CookieName ?h \<noteq> []" "request_cookie env r \<noteq> ?p"
    | "request_cookie env r = ?p"
    by (cases "fst (GetUID (ce_now env) ?p (hk_Family ?h)) = [] \<and> hk_CookieName ?h \<noteq> []")
       (auto simp: request_cookie_def ParsePBSCookieFromRequest_def assms Let_def)
  then show ?thesis
  proof cases
    case 1
    then obtain v where v: "TrySync (ce_now env) ?p (hk_Family ?h) v = Inr (request_cookie env r)"
      by (auto simp: request_cookie_def ParsePBSCookieFromRequest_def assms Let_def split: option.splits sum.splits)
    then have "pc_optOut (request_cookie env r) = pc_optOut ?p" by (rule sync_optOut)
    moreover have "fst (GetUID later c (hk_Family ?h)) = []" using 1(1) g uid [of later c "hk_Family ?h" "ce_now env"] by simp
    ultimately show ?thesis using get_after_sync [OF v, of later] g by (auto simp: p)
  next
    case 2
    then show ?thesis using g by (simp add: p)
  qed
qed

text \<open>
  C31. An opt-out holds. When the captcha is accepted and the user opts out, the handler returns and writes a cookie
  without ids, and any later request with that cookie is refused: /setuid and /cookie_sync answer with status 401 and
  write no cookie.
\<close>

theorem opt_out_holds:
  assumes "hr_query r ''optout'' \<noteq> []" and "hr_query r ''g-recaptcha-response'' \<noteq> []" and "verify (hr_query r ''g-recaptcha-response'') = None"
    and "codec_reads (ce_codec env) (SetPreference False (request_cookie env r))"
    and "ce_codec env' = ce_codec env" and "hk_OptOutName (ce_host env') = []"
  shows "\<exists>c v. OptOut verify url inURL outURL env r = Some (RedirectWithCookie outURL (c, v, False)) \<and> pc_uids c = [] \<and>
    (hr_cookies r' ''uids'' = Some v \<longrightarrow>
       map_option sr_Status (NewSetUIDEndpoint parseString isMalformed env' syncers perms r') = Some StatusUnauthorized \<and>
       Option.bind (NewSetUIDEndpoint parseString isMalformed env' syncers perms r') sr_Cookie = None \<and>
       map_option cs_Status (cookie_sync_Endpoint parseString jget intn deps env' r') = Some StatusUnauthorized)"
proof -
  let ?c = "SetPreference False (request_cookie env r)"
  let ?v = "ToHTTPCookie (ce_codec env) ?c"
  have uids: "pc_uids ?c = []" "pc_optOut ?c" by (simp_all add: SetPreference_def)
  have "eject_loop (ce_len env) (hk_MaxCookieSizeBytes (ce_host env)) (ce_clock env) 0 ?c = Some ?c"
    using uids by (subst eject_loop.simps) simp
  then have w: "OptOut verify url inURL outURL env r = Some (RedirectWithCookie outURL (?c, ?v, False))"
    using assms(1-3) by (simp add: OptOut_def Let_def SetCookieOnResponse_def)
  have "\<not> AllowSyncs (request_cookie env' r')" if "hr_cookies r' ''uids'' = Some ?v"
  proof -
    have "ok_cookie ?c" by (simp add: request_cookie_ok)
    then have "pc_optOut (request_cookie env' r') = pc_optOut ?c"
      using later_cookie [of ?c env' r'] assms(4-6) that by simp
    with uids show ?thesis by (simp add: AllowSyncs_def)
  qed
  then show ?thesis using w uids
    by (intro exI [of _ ?c] exI [of _ ?v])
       (simp add: NewSetUIDEndpoint_def cookie_sync_Endpoint_def Let_def setuid_reject_def cookie_sync_error_def)
qed

theorem opt_out_holds_witness:
  "let r = sync_request\<lparr>hr_query := (\<lambda>k. ''1'')\<rparr>; r' = sync_request\<lparr>hr_cookies := (\<lambda>k. if k = ''uids'' then Some ''out'' else None)\<rparr>
   in OptOut (\<lambda>_. None) ''u'' ''i'' ''o'' sync_env r = Some (RedirectWithCookie ''o'' (\<lparr>pc_uids = [], pc_optOut = True, pc_birthday = Some 9\<rparr>, ''out'', False)) \<and>
      map_option sr_Status (NewSetUIDEndpoint (\<lambda>_. Inl (OtherError [])) (\<lambda>_. False) sync_env (cd_syncers sync_deps) AlwaysAllow r') = Some StatusUnauthorized"
proof -
  let ?r = "sync_request\<lparr>hr_query := (\<lambda>k. ''1'')\<rparr>" and ?r' = "sync_request\<lparr>hr_cookies := (\<lambda>k. if k = ''uids'' then Some ''out'' else None)\<rparr>"
  have o: "OptOut (\<lambda>_. None) ''u'' ''i'' ''o'' sync_env ?r = Some (RedirectWithCookie ''o'' (\<lparr>pc_uids = [], pc_optOut = True, pc_birthday = Some 9\<rparr>, ''out'', False))"
    by code_simp
  have a: "codec_reads (ce_codec sync_env) (SetPreference False (request_cookie sync_env ?r))" by code_simp
  have b: "hr_query ?r ''optout'' \<noteq> []" "hr_query ?r ''g-recaptcha-response'' \<noteq> []" "hk_OptOutName (ce_host sync_env) = []" by code_simp+
  from opt_out_holds [OF b(1,2) _ a refl b(3), of "\<lambda>_. None" "''u''" "''i''" "''o''" ?r' "\<lambda>_. Inl (OtherError [])" "\<lambda>_. False"
      "cd_syncers sync_deps" AlwaysAllow "\<lambda>_. JpKeyPathNotFound" "\<lambda>i. i" sync_deps] o
  show ?thesis by (simp add: Let_def)
qed

text \<open>A cookie that gave up ids is still well-formed, and has its other ids as before.\<close>

lemma ejected_cookie:
  assumes "eject_loop len maxSize clock 0 x = Some c" and "ok_cookie x" and "within_range clock (pc_uids x)"
  shows "ok_cookie c" and "lookup (pc_uids c) f = (if f \<in> fst ` set (pc_uids c) then lookup (pc_uids x) f else None)"
proof -
  from assms(2) have wf: "wf_map (pc_uids x)" by (simp add: ok_cookie_def)
  from eject_loop_returns [OF wf assms(3), of len maxSize 0] assms(1)
  have sub: "set (pc_uids c) \<subseteq> set (pc_uids x)" and o: "pc_optOut c = pc_optOut x" by auto
  have wfc: "wf_map (pc_uids c)" using eject_loop_wf [OF assms(1) wf] .
  have same: "lookup (pc_uids x) f = Some u" if "lookup (pc_uids c) f = Some u" for f u
    using that sub wf wfc by (auto simp: wf_map_lookup_iff)
  then show "ok_cookie c" using assms(2) sub o wfc same [of BidderAudienceNetwork] by (auto simp: ok_cookie_def split: option.splits)
  show "lookup (pc_uids c) f = (if f \<in> fst ` set (pc_uids c) then lookup (pc_uids x) f else None)"
  proof (cases "lookup (pc_uids c) f")
    case None
    then show ?thesis by (auto simp: map_of_eq_None_iff)
  next
    case (Some u)
    then have "f \<in> fst ` set (pc_uids c)" using wfc by (force simp: wf_map_lookup_iff)
    with same [OF Some] Some show ?thesis by simp
  qed
qed

text \<open>
  C30. An id that is set is there on the next request, as far as the limit of the cookie lets it. When /setuid sets an id
  and no id of the cookie expires more than 292 years from now, the handler returns a cookie with this id,
  good for fourteen days, and the ids the cookie had before. When that is larger than the limit, ids are given up, and the new
  one only when no id that expires earlier is kept. A later request that brings the cookie, without a cookie name for the opt-out, reads
  the new id until the fourteen days have passed, the other ids kept as before, and nothing for those given up
  (the family of the host apart, whose own cookie may stand in).
\<close>

theorem setuid_then_read:
  assumes "AllowSyncs (request_cookie env r)" and "hr_query r ''bidder'' \<in> sy_familyName ` snd ` set syncers" and "hr_query r ''bidder'' \<noteq> []"
    and "preventSyncsGDPR parseString isMalformed (hr_query r ''gdpr'') (hr_query r ''gdpr_consent'') perms = None"
    and "hr_query r ''uid'' \<noteq> []" and "\<not> (hr_query r ''bidder'' = BidderAudienceNetwork \<and> hr_query r ''uid'' = ''0'')"
    and "full = put (hr_query r ''bidder'') \<lparr>ue_UID = hr_query r ''uid'', ue_Expires = ce_now env + 14 * 24 * 3600 * 1000000000\<rparr> (pc_uids (request_cookie env r))"
    and "within_range (ce_clock env) full" and "ce_codec env' = ce_codec env" and "hk_OptOutName (ce_host env') = []"
  shows "\<exists>resp c v site. NewSetUIDEndpoint parseString isMalformed env syncers perms r = Some resp \<and> sr_Cookie resp = Some (c, v, site) \<and>
    sr_Status resp = StatusOK \<and> so_Success (sr_Object resp) \<and>
    (hk_MaxCookieSizeBytes (ce_host env) \<le> 0 \<or> ce_len env c \<le> hk_MaxCookieSizeBytes (ce_host env) \<or> pc_uids c = []) \<and>
    (hk_MaxCookieSizeBytes (ce_host env) \<le> 0 \<or> ce_len env ((request_cookie env r)\<lparr>pc_uids := full\<rparr>) \<le> hk_MaxCookieSizeBytes (ce_host env)
       \<longrightarrow> pc_uids c = full) \<and>
    (hr_query r ''bidder'' \<notin> fst ` set (pc_uids c) \<longrightarrow> (\<forall>e\<in>set (pc_uids c). ce_now env + 14 * 24 * 3600 * 1000000000 \<le> ue_Expires (snd e))) \<and>
    (hr_cookies r' ''uids'' = Some v \<and> codec_reads (ce_codec env) c \<longrightarrow>
       (hr_query r ''bidder'' \<in> fst ` set (pc_uids c) \<longrightarrow>
          GetUID later (request_cookie env' r') (hr_query r ''bidder'') = (hr_query r ''uid'', True, later < ce_now env + 14 * 24 * 3600 * 1000000000)) \<and>
       (\<forall>f. f \<noteq> hk_Family (ce_host env') \<and> (f \<noteq> hr_query r ''bidder'' \<or> f \<notin> fst ` set (pc_uids c)) \<longrightarrow>
          GetUID later (request_cookie env' r') f = (if f \<in> fst ` set (pc_uids c) then GetUID later (request_cookie env r) f else ([], False, False))))"
proof -
  let ?b = "hr_query r ''bidder''" and ?uid = "hr_query r ''uid''" and ?c = "(request_cookie env r)\<lparr>pc_uids := full\<rparr>"
  let ?site = "siteCookieCheck (hr_UserAgent r)" and ?max = "hk_MaxCookieSizeBytes (ce_host env)"
  have ttl: "DEFAULT_TTL = 14 * 24 * 3600 * 1000000000" by (simp add: DEFAULT_TTL_def)
  have fam: "getFamilyName (hr_query r) (map (sy_familyName \<circ> snd) syncers) = Inr ?b"
    using assms(2,3) by (simp add: getFamilyName_def Let_def image_comp)
  have sync: "TrySync (ce_now env) (request_cookie env r) ?b ?uid = Inr ?c"
    using assms(1,6) by (simp add: TrySync_def getExpiry_def assms(7) ttl)
  have synced: "synced_cookie env r = ?c" using assms(5) sync by (simp add: synced_cookie_def Let_def)
  have ok: "ok_cookie ?c" using synced_cookie_ok [of env r] by (simp add: synced)
  then have wf: "wf_map full" by (simp add: ok_cookie_def)
  from eject_loop_returns [of ?c "ce_clock env" "ce_len env" ?max 0] wf assms(8)
  obtain c where c: "eject_loop (ce_len env) ?max (ce_clock env) 0 ?c = Some c" "?max \<le> 0 \<or> ce_len env c \<le> ?max \<or> pc_uids c = []"
    and evict: "\<forall>e\<in>set full - set (pc_uids c). \<forall>f\<in>set (pc_uids c). ue_Expires (snd e) \<le> ue_Expires (snd f)" by auto
  let ?resp = "\<lparr>sr_Status = StatusOK, sr_Body = [], sr_Cookie = Some (c, ToHTTPCookie (ce_codec env) c, ?site),
        sr_Object = \<lparr>so_Status = StatusOK, so_Bidder = ?b, so_UID = ?uid, so_Success = True\<rparr>, sr_Metrics = [(ActionSet, ?b)]\<rparr>"
  have run: "NewSetUIDEndpoint parseString isMalformed env syncers perms r = Some ?resp"
    using assms(1,4,5) fam sync c(1) by (simp add: NewSetUIDEndpoint_def Let_def SetCookieOnResponse_def)
  have fits: "pc_uids c = full" if "?max \<le> 0 \<or> ce_len env ?c \<le> ?max"
    using c(1) that by (subst (asm) eject_loop.simps) (auto split: if_splits)
  have "lookup full ?b = Some \<lparr>ue_UID = ?uid, ue_Expires = ce_now env + 14 * 24 * 3600 * 1000000000\<rparr>" by (simp add: assms(7))
  then have mem: "(?b, \<lparr>ue_UID = ?uid, ue_Expires = ce_now env + 14 * 24 * 3600 * 1000000000\<rparr>) \<in> set full" using wf by (simp add: wf_map_lookup_iff)
  have last_out: "\<forall>e\<in>set (pc_uids c). ce_now env + 14 * 24 * 3600 * 1000000000 \<le> ue_Expires (snd e)" if "?b \<notin> fst ` set (pc_uids c)"
    using evict mem that by force
  note kept = ejected_cookie [OF c(1) ok, simplified, OF assms(8)]
  have get: "GetUID later c f = (if f \<in> fst ` set (pc_uids c) then GetUID later ?c f else ([], False, False))" for f
    using kept(2) [of f] by (simp add: GetUID_def)
  have read: "GetUID later ?c f = (if f = ?b then (?uid, True, later < ce_now env + 14 * 24 * 3600 * 1000000000) else GetUID later (request_cookie env r) f)" for f
    using get_after_sync [OF sync, of later f] by (simp add: ttl)
  have seen: "GetUID later (request_cookie env' r') f = GetUID later c f"
    if "hr_cookies r' ''uids'' = Some (ToHTTPCookie (ce_codec env) c) \<and> codec_reads (ce_codec env) c"
      and "f \<noteq> hk_Family (ce_host env') \<or> fst (GetUID later c f) \<noteq> []" for f
    using later_cookie [OF kept(1), of env' r' later] that assms(9,10) by simp
  have "GetUID later (request_cookie env' r') ?b = (?uid, True, later < ce_now env + 14 * 24 * 3600 * 1000000000)"
    if "hr_cookies r' ''uids'' = Some (ToHTTPCookie (ce_codec env) c) \<and> codec_reads (ce_codec env) c" "?b \<in> fst ` set (pc_uids c)"
    using seen [OF that(1), of ?b] that(2) assms(5) by (simp add: get read)
  moreover have "GetUID later (request_cookie env' r') f = (if f \<in> fst ` set (pc_uids c) then GetUID later (request_cookie env r) f else ([], False, False))"
    if "hr_cookies r' ''uids'' = Some (ToHTTPCookie (ce_codec env) c) \<and> codec_reads (ce_codec env) c"
      "f \<noteq> hk_Family (ce_host env') \<and> (f \<noteq> ?b \<or> f \<notin> fst ` set (pc_uids c))" for f
    using seen [OF that(1), of f] that(2) by (auto simp: get read)
  ultimately show ?thesis using c(2) fits last_out run
    by (intro exI [of _ ?resp] exI [of _ c] exI [of _ "ToHTTPCookie (ce_codec env) c"] exI [of _ ?site] conjI impI allI) simp_all
qed

theorem setuid_then_read_witness:
  "let r' = sync_request\<lparr>hr_cookies := (\<lambda>k. if k = ''uids'' then Some ''in'' else None)\<rparr>
   in \<exists>resp. NewSetUIDEndpoint (\<lambda>_. Inl (OtherError [])) (\<lambda>_. False) sync_env (cd_syncers sync_deps) AlwaysAllow sync_request = Some resp \<and>
      map_option (fst \<circ> snd) (sr_Cookie resp) = Some ''in'' \<and> GetUID 10 (request_cookie sync_env r') ''adnxs'' = (''7'', True, True)"
proof -
  let ?r' = "sync_request\<lparr>hr_cookies := (\<lambda>k. if k = ''uids'' then Some ''in'' else None)\<rparr>"
  let ?p = "\<lambda>_. Inl (OtherError [])" and ?m = "\<lambda>_. False"
  have h: "AllowSyncs (request_cookie sync_env sync_request)"
    "hr_query sync_request ''bidder'' \<in> sy_familyName ` snd ` set (cd_syncers sync_deps)" "hr_query sync_request ''bidder'' \<noteq> []"
    "preventSyncsGDPR ?p ?m (hr_query sync_request ''gdpr'') (hr_query sync_request ''gdpr_consent'') AlwaysAllow = None"
    "hr_query sync_request ''uid'' \<noteq> []" "\<not> (hr_query sync_request ''bidder'' = BidderAudienceNetwork \<and> hr_query sync_request ''uid'' = ''0'')"
    "[(''adnxs'', \<lparr>ue_UID = ''7'', ue_Expires = 1209600000000009\<rparr>)] = put (hr_query sync_request ''bidder'')
       \<lparr>ue_UID = hr_query sync_request ''uid'', ue_Expires = ce_now sync_env + 14 * 24 * 3600 * 1000000000\<rparr> (pc_uids (request_cookie sync_env sync_request))"
    by code_simp+
  have w: "within_range (ce_clock sync_env) [(''adnxs'', \<lparr>ue_UID = ''7'', ue_Expires = 1209600000000009\<rparr>)]"
    by (simp add: within_range_def sync_env_def max_int64_def)
  have k: "hk_OptOutName (ce_host sync_env) = []" "hk_MaxCookieSizeBytes (ce_host sync_env) \<le> 0" "hr_query sync_request ''bidder'' = ''adnxs''"
    "hr_query sync_request ''uid'' = ''7''" "hr_cookies ?r' ''uids'' = Some ''in''" "10 < ce_now sync_env + 14 * 24 * 3600 * 1000000000"
    "map_option (\<lambda>x. map_option (\<lambda>(c, v, _). (codec_reads (ce_codec sync_env) c, v)) (sr_Cookie x))
       (NewSetUIDEndpoint ?p ?m sync_env (cd_syncers sync_deps) AlwaysAllow sync_request) = Some (Some (True, ''in''))"
    by code_simp+
  from setuid_then_read [OF h w refl k(1), of ?r' 10] k(2-7) show ?thesis
    by (elim exE conjE) (simp add: Let_def)
qed

text \<open>The description of the rates never changes, whatever the converter learns after the handler was made.\<close>

lemma currency_rates_frozen: "NewCurrencyRatesEndpoint converter interval made t = NewCurrencyRatesEndpoint converter interval made t'"
  by (simp add: NewCurrencyRatesEndpoint_def Let_def)

end
