(* ===== verification/Spec2Isabelle.thy ===== *)
theory Spec2Isabelle
  imports Auction_Endpoint Stored_Config Cookie_Endpoints
begin

text \<open>
  A verification of Prebid Server as kept in this repository (Go, under \<open>src/\<close>): the server that takes an OpenRTB bid
  request from a publisher, asks bidders for bids over HTTP, runs an auction over the bids and answers.

  \<^bold>\<open>The program and its parts.\<close>
  The endpoint \<open>/openrtb2/auction\<close> reads the body, merges stored requests into it, fills in what the HTTP request implies,
  validates it and finds the account of the publisher; the stored data come from fetchers behind caches that are kept up to
  date by events. The exchange then makes one request for each bidder, with the bidder's own impressions, ids and supply
  chain, and removes personal data as COPPA, GDPR, CCPA and LMT require. Each bidder is an adapter, wrapped so that it sees only
  what it supports; the wrapper makes the HTTP calls, converts and checks the bids. The exchange collects the bids, applies
  competitive exclusion, deal tiers and events, picks the winners, stores them in Prebid Cache, writes the targeting keys and
  builds the response. The endpoints \<open>/cookie_sync\<close>, \<open>/setuid\<close>, \<open>/getuids\<close> and the opt-out keep the ids of a user in a cookie, which
  the exchange reads. The currency converter and the list of GDPR vendors are refreshed in the background.

  \<^bold>\<open>Foundations.\<close>
  \<^item> Prelude: Go maps, 64-bit integers that wrap (\<open>wrap64\<close>), decimal numerals, loops with an early exit (\<open>fold_opt\<close>). A map that
    the code ranges over is an association list, or is ranged over in an order that is an argument; theorems hold for every order.
  \<^item> \<open>Go_Float\<close>: \<open>float64\<close> as correctly rounded rational arithmetic. Json: \<open>encoding/json\<close> on parsed values; a decoder also takes the
    variable it decodes into. OpenRTB: the objects of package \<open>openrtb2\<close> as records. Errortypes: \<open>src/errortypes\<close>.
  \<^item> A panic is None (or \<open>Panic\<close> of \<open>outcome\<close>), an error is Inl or a list of errors as in the code.

  \<^bold>\<open>The request.\<close>
  \<^item> \<open>Request_Ext\<close> and \<open>Ext_Encoding\<close>: the structs of \<open>request.ext\<close>, \<open>user.ext\<close>, \<open>regs.ext\<close> (\<open>src/openrtb_ext\<close>), their decoders and encoders.
    Every accepted extension is well formed (\<open>ext_request_wf\<close>).
  \<^item> \<open>Request_Validation\<close>: \<open>validateRequest\<close> and all it calls, and the sizes of interstitials (\<open>src/endpoints/openrtb2/auction.go\<close>,
    \<open>interstitial.go\<close>). What is accepted is fit for an auction; the bidders that will be asked are known, active and have valid
    parameters; native assets are numbered; interstitials get the right sizes. Two ways around validation are shown.
  \<^item> \<open>Auction_Endpoint\<close>: the handler of \<open>/openrtb2/auction\<close> with \<open>processStoredRequests\<close>, \<open>setFieldsImplicitly\<close>, \<open>parseRequest\<close>, \<open>writeError\<close>, and
    \<open>src/util/iputil\<close>, \<open>src/util/httputil\<close>. A response is only sent for an acceptable request and an enabled account.
  \<^item> Account: \<open>src/account\<close> and the account settings of \<open>src/config\<close>.

  \<^bold>\<open>Bidder requests and privacy.\<close>
  \<^item> \<open>Imp_Split\<close>: \<open>splitImps\<close> of \<open>src/exchange/utils.go\<close>, equal to a reference per bidder, with isolation between bidders. \<open>Bidder_Requests\<close>:
    \<open>getAuctionBidderRequests\<close> (aliases, buyer ids, extended ids, supply chains). Bidders: \<open>src/openrtb_ext/bidders.go\<close>.
  \<^item> Privacy: the scrubber and the enforcement of \<open>src/privacy\<close>. \<open>Privacy_Policies\<close>: LMT with the iOS rules and CCPA. Gdpr: permissions and vendor
    lists of \<open>src/gdpr\<close>. Their common interface is the locale \<open>policy_enforcer\<close>, that of GDPR \<open>gdpr_permissions\<close>.
  \<^item> \<open>Request_Cleaning\<close>: \<open>cleanOpenRTBRequests\<close>. The request that leaves for a bidder carries no ids that a policy in force forbids.

  \<^bold>\<open>Bids and the auction.\<close>
  \<^item> \<open>Bidder_Adapter\<close>: \<open>src/adapters/infoawarebidder.go\<close>, \<open>src/exchange/bidder.go\<close> and \<open>bidder_validate_bids.go\<close>. Surviving bids are valid, and
    the order in which answers arrive does not matter. Currency: \<open>src/currency\<close> with the locale \<open>conversions\<close>.
  \<^item> \<open>Seat_Bids\<close>: the bids that the code shares by pointer, as a store of objects. \<open>Price_Granularity\<close>: price buckets in \<open>float64\<close>.
  \<^item> Auction: winners, prices and caching (\<open>src/exchange/auction.go\<close>). \<open>Cache_Client\<close>: \<open>src/prebid_cache_client\<close>, with the locale \<open>cache_client\<close>.
    \<open>Category_Mapping\<close>: \<open>applyCategoryMapping\<close>, which removes bids while it iterates, refines one pass with a table. Targeting:
    \<open>src/exchange/targeting.go\<close>. Events: event URLs and \<open>src/endpoints/events\<close>. Response: deal tiers and the response.
  \<^item> Exchange: \<open>BuildAdapters\<close>, \<open>getAllBids\<close> and \<open>HoldAuction\<close> as the composition of these parts. Every bid of a response comes from the bidder
    of its seat, an auction returns, and a panicking bidder loses only its own bids.

  \<^bold>\<open>Stored requests and cookies.\<close>
  \<^item> \<open>Stored_Cache\<close>, \<open>Stored_Fetch\<close>, \<open>Stored_Sources\<close>: the caches, fetchers and backends of \<open>src/stored_requests\<close>, with the locales \<open>map_like\<close>, \<open>json_cache\<close>,
    \<open>stored_source\<close>, \<open>exact_source\<close> and \<open>cached_source\<close>. Every run of fetches through the caches shows what the stores contain.
  \<^item> \<open>Stored_Events\<close>: listeners, the HTTP and Postgres producers and the ticker keep the caches consistent. \<open>Stored_Config\<close>: their configuration.
  \<^item> Usersync: the cookie (\<open>src/usersync/cookie.go\<close>) with its round trip and the loop that makes it fit, which ends. \<open>Cookie_Endpoints\<close>:
    the endpoints that use it, with the permissions they ask for.

  \<^bold>\<open>Parameters.\<close>
  Code outside the repository is an argument of the definitions: the HTTP exchange, the database, \<open>jsonparser\<close>, \<open>jsonpatch\<close>, the decoding of
  a whole request into the structs of \<open>openrtb2\<close>, native markup and its enumerations, JSON schemas, \<open>freecache\<close>, consent strings and vendor
  lists, currency codes, UUIDs, random numbers and clocks. Theorems name what they rely on as hypotheses, and their witnesses
  instantiate these with concrete functions. Text of decoding errors is not modelled.

  \<^bold>\<open>Bounds.\<close>
  There is no fuel in the model: loops are structural recursions, folds, or functions with a termination proof. The loop that ejects ids
  from a cookie may run on in the code when times wrap around; its model returns an option, and that it returns is a theorem for times within
  292 years. 64-bit arithmetic wraps where the code multiplies or adds.

  \<^bold>\<open>Not modelled.\<close>
  \<^item> The bidder adapters (\<open>src/adapters/*\<close>), some 130 translations between OpenRTB and the formats of single bidders: each is glue to
    a service that is not in the repository. The exchange is proved for every adapter.
  \<^item> The legacy endpoint \<open>/auction\<close> with \<open>src/pbs\<close> and \<open>src/cache\<close>, the endpoints for AMP and video (of \<open>amp_auction.go\<close> only \<open>setAmpExt\<close>)
    and \<open>/info\<close>.
  \<^item> Metrics, analytics back ends, tracing and monitoring record what happens and do not change it; labels and logged objects
    appear in the models of the handlers. Server start-up, routing, TLS certificates and the reading of configuration files are I/O.
  \<^item> Concurrency is modelled where its order matters: the arrival of answers and of bidders is an arbitrary permutation; the memory
    model of Go is not.
\<close>

end
